(* ===== verification/Synec_Prelude.thy ===== *)
theory Synec_Prelude
  imports Complex_Main
begin

text \<open>
  Shared vocabulary of the development: the types that stand for C++ pointers,
  the fact collections the component theories extend, and generic lemmas about
  folds, sums and function updates that several components use.

  Conventions of the whole development:
  \<^item> A C++ \<open>double\<close> is a \<^typ>\<open>real\<close>. Rounding, infinities and NaNs are not
    modelled; where the code divides, the theorems either show the divisor to be
    non-zero or assume it, since division by zero is \<open>0\<close> in HOL and an infinity
    or NaN in IEEE arithmetic.
  \<^item> A C++ \<open>int\<close> counter is an \<^typ>\<open>int\<close>. The counters modelled here count list
    elements, retries and CPUs and stay far from \<open>2 ^ 31\<close>.
  \<^item> A pointer to an object is a natural number, the object's address. The heap
    of each class is a total function from addresses to objects; a pointer that
    the code tests against \<open>NULL\<close> is an \<^typ>\<open>nat option\<close>.
  \<^item> Log messages (\<open>msg_printf\<close>) have no effect on the state and are left out.
\<close>

named_theorems frame_simps
  \<open>which parts of the state an operation leaves unchanged\<close>
named_theorems heap_simps
  \<open>reading a heap cell after a write\<close>

type_synonym pid = nat   \<comment> \<open>a \<open>PROJECT*\<close>\<close>
type_synonym rid = nat   \<comment> \<open>a \<open>RESULT*\<close>\<close>
type_synonym aid = nat   \<comment> \<open>an \<open>ACTIVE_TASK*\<close>\<close>
type_synonym avid = nat  \<comment> \<open>an \<open>APP_VERSION*\<close>\<close>
type_synonym wuid = nat  \<comment> \<open>a \<open>WORKUNIT*\<close>\<close>
type_synonym fid = nat   \<comment> \<open>a \<open>FILE_INFO*\<close>\<close>
type_synonym pfxid = nat \<comment> \<open>a \<open>PERS_FILE_XFER*\<close>\<close>
type_synonym appid = nat \<comment> \<open>an \<open>APP*\<close>\<close>
type_synonym fxid = nat  \<comment> \<open>a \<open>FILE_XFER*\<close>\<close>

section \<open>Folds that leave something unchanged\<close>

lemma fold_frame:
  assumes "\<And>x s. x \<in> set xs \<Longrightarrow> v (f x s) = v s"
  shows "v (fold f xs s) = v s"
  using assms by (induction xs arbitrary: s) auto

lemma fold_frame_rel:
  assumes refl: "\<And>s. R s s"
    and trans: "\<And>s t u. R s t \<Longrightarrow> R t u \<Longrightarrow> R s u"
    and step: "\<And>x s. x \<in> set xs \<Longrightarrow> R s (f x s)"
  shows "R s (fold f xs s)"
  using step
proof (induction xs arbitrary: s)
  case Nil
  show ?case by (simp add: refl)
next
  case (Cons x xs)
  have "R s (f x s)" using Cons.prems by simp
  moreover have "R (f x s) (fold f xs (f x s))" using Cons by simp
  ultimately show ?case by (auto intro: trans)
qed

lemma fold_preserves:
  assumes "P s" "\<And>x s. x \<in> set xs \<Longrightarrow> P s \<Longrightarrow> P (f x s)"
  shows "P (fold f xs s)"
  using assms by (induction xs arbitrary: s) auto

lemma fold_establishes:
  assumes "x \<in> set xs" "\<And>s. Q x (f x s)" "\<And>y s. Q x s \<Longrightarrow> Q x (f y s)"
  shows "Q x (fold f xs s)"
  using assms by (induction xs arbitrary: s rule: rev_induct) auto

text \<open>
  A loop over distinct addresses whose body writes only the cell of its own address
  applies the cell's transformation once at every visited address. The view \<open>V\<close> is
  what the transformation depends on besides the cell, and the body keeps it.
\<close>

lemma fold_pointwise:
  assumes "distinct ps" and "V s = v"
    and step: "\<And>p s. p \<in> set ps \<Longrightarrow> V s = v \<Longrightarrow>
      V (g p s) = v \<and> (\<forall>q. cell (g p s) q = (if q = p then h p (cell s p) else cell s q))"
  shows "V (fold g ps s) = v
    \<and> (\<forall>q. cell (fold g ps s) q = (if q \<in> set ps then h q (cell s q) else cell s q))"
  using assms
proof (induction ps arbitrary: s)
  case Nil
  then show ?case by simp
next
  case (Cons p ps)
  have g: "V (g p s) = v" "\<And>q. cell (g p s) q = (if q = p then h p (cell s p) else cell s q)"
    using Cons.prems(3) [of p s] Cons.prems(2) by auto
  have "V (fold g ps (g p s)) = v \<and> (\<forall>q. cell (fold g ps (g p s)) q
      = (if q \<in> set ps then h q (cell (g p s) q) else cell (g p s) q))"
    using Cons.prems(1,3) g(1) by (intro Cons.IH) auto
  then show ?case using Cons.prems(1) g(2) by auto
qed

section \<open>Sums over a vector\<close>

lemma fold_plus_sum_list:
  fixes g :: "'a \<Rightarrow> real"
  shows "fold (\<lambda>x acc. acc + g x) xs a = a + sum_list (map g xs)"
  by (induction xs arbitrary: a) (auto simp: algebra_simps)

lemma fold_cond_plus_sum_list:
  fixes g :: "'a \<Rightarrow> real"
  shows "fold (\<lambda>x acc. if P x then acc + g x else acc) xs a
    = a + sum_list (map g (filter P xs))"
  by (induction xs arbitrary: a) (auto simp: algebra_simps)

lemma sum_list_filter_nonneg:
  fixes g :: "'a \<Rightarrow> real"
  assumes "\<And>x. x \<in> set xs \<Longrightarrow> 0 \<le> g x"
  shows "0 \<le> sum_list (map g (filter P xs))"
  using assms by (induction xs) auto

lemma sum_list_filter_mono:
  fixes g :: "'a \<Rightarrow> real"
  assumes "\<And>x. x \<in> set xs \<Longrightarrow> 0 \<le> g x"
    and "\<And>x. x \<in> set xs \<Longrightarrow> P x \<Longrightarrow> Q x"
  shows "sum_list (map g (filter P xs)) \<le> sum_list (map g (filter Q xs))"
  using assms by (induction xs) (auto intro: add_increasing)

lemma member_le_sum_list_filter:
  fixes g :: "'a \<Rightarrow> real"
  assumes "x \<in> set xs" "P x" "\<And>y. y \<in> set xs \<Longrightarrow> 0 \<le> g y"
  shows "g x \<le> sum_list (map g (filter P xs))"
  using assms
proof (induction xs)
  case Nil
  then show ?case by simp
next
  case (Cons y ys)
  have nn: "0 \<le> sum_list (map g (filter P ys))"
    using Cons.prems(3) by (intro sum_list_filter_nonneg) auto
  show ?case
  proof (cases "x = y")
    case True
    then show ?thesis using Cons.prems(2) nn by simp
  next
    case False
    then have "g x \<le> sum_list (map g (filter P ys))"
      using Cons by auto
    moreover have "0 \<le> g y" using Cons.prems(3) by simp
    ultimately show ?thesis by simp
  qed
qed

lemma sum_list_shift:
  fixes g :: "'a \<Rightarrow> real"
  shows "sum_list (map (\<lambda>x. g x - c) xs) = sum_list (map g xs) - c * real (length xs)"
  by (induction xs) (auto simp: algebra_simps)

lemma filter_empty_iff: "(filter P xs = []) = (\<forall>x \<in> set xs. \<not> P x)"
  by (induction xs) auto

end
