(* ===== verification/Client_Types.thy ===== *)
theory Client_Types
  imports Synec_Prelude
begin

text \<open>
  The data model of the core client: the constants of \<open>lib/common_defs.h\<close>,
  \<open>lib/error_numbers.h\<close> and \<open>client/client_state.h\<close>, the classes of
  \<open>client/client_types.h\<close>, \<open>client/app.h\<close>, \<open>client/rr_sim.h\<close>,
  \<open>client/pers_file_xfer.h\<close>, \<open>client/file_xfer.h\<close>, \<open>client/time_stats.h\<close>,
  \<open>client/net_stats.h\<close> and \<open>lib/prefs.h\<close> as records, and the global
  \<open>CLIENT_STATE gstate\<close> as one record that holds a heap per class, the vectors of
  pointers into the heaps, and the scheduler's own variables.

  Field names carry a prefix for their class (\<open>p_\<close> \<open>PROJECT\<close>, \<open>r_\<close> \<open>RESULT\<close>,
  \<open>at_\<close> \<open>ACTIVE_TASK\<close>, \<open>av_\<close> \<open>APP_VERSION\<close>, \<open>wu_\<close> \<open>WORKUNIT\<close>, \<open>fi_\<close> \<open>FILE_INFO\<close>,
  \<open>pfx_\<close> \<open>PERS_FILE_XFER\<close>, \<open>fx_\<close> \<open>FILE_XFER\<close>, \<open>rs_\<close> \<open>RR_SIM_PROJECT_STATUS\<close>), since
  several classes share field names.
\<close>

section \<open>Constants\<close>

abbreviation RESULT_NEW :: int where "RESULT_NEW \<equiv> 0"
abbreviation RESULT_FILES_DOWNLOADING :: int where "RESULT_FILES_DOWNLOADING \<equiv> 1"
abbreviation RESULT_FILES_DOWNLOADED :: int where "RESULT_FILES_DOWNLOADED \<equiv> 2"
abbreviation RESULT_COMPUTE_ERROR :: int where "RESULT_COMPUTE_ERROR \<equiv> 3"
abbreviation RESULT_FILES_UPLOADING :: int where "RESULT_FILES_UPLOADING \<equiv> 4"
abbreviation RESULT_FILES_UPLOADED :: int where "RESULT_FILES_UPLOADED \<equiv> 5"
abbreviation RESULT_ABORTED :: int where "RESULT_ABORTED \<equiv> 6"

abbreviation CPU_SCHED_UNINITIALIZED :: int where "CPU_SCHED_UNINITIALIZED \<equiv> 0"
abbreviation CPU_SCHED_PREEMPTED :: int where "CPU_SCHED_PREEMPTED \<equiv> 1"
abbreviation CPU_SCHED_SCHEDULED :: int where "CPU_SCHED_SCHEDULED \<equiv> 2"

abbreviation WORK_FETCH_DONT_NEED :: int where "WORK_FETCH_DONT_NEED \<equiv> 0"
abbreviation WORK_FETCH_OK :: int where "WORK_FETCH_OK \<equiv> 1"
abbreviation WORK_FETCH_NEED :: int where "WORK_FETCH_NEED \<equiv> 2"
abbreviation WORK_FETCH_NEED_IMMEDIATELY :: int where "WORK_FETCH_NEED_IMMEDIATELY \<equiv> 3"

abbreviation FILE_NOT_PRESENT :: int where "FILE_NOT_PRESENT \<equiv> 0"
abbreviation FILE_PRESENT :: int where "FILE_PRESENT \<equiv> 1"
abbreviation FILE_NOT_PRESENT_NOT_NEEDED :: int where "FILE_NOT_PRESENT_NOT_NEEDED \<equiv> 2"

abbreviation RUN_MODE_ALWAYS :: int where "RUN_MODE_ALWAYS \<equiv> 1"
abbreviation RUN_MODE_AUTO :: int where "RUN_MODE_AUTO \<equiv> 2"
abbreviation RUN_MODE_NEVER :: int where "RUN_MODE_NEVER \<equiv> 3"
abbreviation RUN_MODE_RESTORE :: int where "RUN_MODE_RESTORE \<equiv> 4"

abbreviation HTTP_STATUS_OK :: int where "HTTP_STATUS_OK \<equiv> 200"
abbreviation HTTP_STATUS_NOT_FOUND :: int where "HTTP_STATUS_NOT_FOUND \<equiv> 404"
abbreviation HTTP_STATUS_RANGE_REQUEST_ERROR :: int where
  "HTTP_STATUS_RANGE_REQUEST_ERROR \<equiv> 416"

abbreviation HTTP_STATE_IDLE :: int where "HTTP_STATE_IDLE \<equiv> 0"
abbreviation HTTP_STATE_CONNECTING :: int where "HTTP_STATE_CONNECTING \<equiv> 1"
abbreviation HTTP_STATE_DONE :: int where "HTTP_STATE_DONE \<equiv> 2"

abbreviation ERR_NOT_UNIQUE :: int where "ERR_NOT_UNIQUE \<equiv> -160"
abbreviation ERR_NULL :: int where "ERR_NULL \<equiv> -116"
abbreviation ERR_XML_PARSE :: int where "ERR_XML_PARSE \<equiv> -112"
abbreviation ERR_MD5_FAILED :: int where "ERR_MD5_FAILED \<equiv> -119"
abbreviation ERR_RSA_FAILED :: int where "ERR_RSA_FAILED \<equiv> -120"
abbreviation ERR_NO_SIGNATURE :: int where "ERR_NO_SIGNATURE \<equiv> -123"
abbreviation ERR_UPLOAD_TRANSIENT :: int where "ERR_UPLOAD_TRANSIENT \<equiv> -127"
abbreviation ERR_UPLOAD_PERMANENT :: int where "ERR_UPLOAD_PERMANENT \<equiv> -128"
abbreviation ERR_IDLE_PERIOD :: int where "ERR_IDLE_PERIOD \<equiv> -129"
abbreviation ERR_SHMGET :: int where "ERR_SHMGET \<equiv> -144"
abbreviation ERR_SHMAT :: int where "ERR_SHMAT \<equiv> -146"
abbreviation ERR_NOT_FOUND :: int where "ERR_NOT_FOUND \<equiv> -161"
abbreviation ERR_FILE_MISSING :: int where "ERR_FILE_MISSING \<equiv> -163"
abbreviation ERR_TIMEOUT :: int where "ERR_TIMEOUT \<equiv> -182"
abbreviation ERR_INVALID_URL :: int where "ERR_INVALID_URL \<equiv> -189"
abbreviation ERR_ABORTED_VIA_GUI :: int where "ERR_ABORTED_VIA_GUI \<equiv> -197"
abbreviation ERR_WRONG_SIZE :: int where "ERR_WRONG_SIZE \<equiv> -200"
abbreviation ERR_FILE_NOT_FOUND :: int where "ERR_FILE_NOT_FOUND \<equiv> -224"
abbreviation ERR_NOT_EXITED :: int where "ERR_NOT_EXITED \<equiv> -149"
abbreviation ERR_RSC_LIMIT_EXCEEDED :: int where "ERR_RSC_LIMIT_EXCEEDED \<equiv> -177"
abbreviation ERR_RESULT_START :: int where "ERR_RESULT_START \<equiv> -185"
abbreviation ERR_RESULT_DOWNLOAD :: int where "ERR_RESULT_DOWNLOAD \<equiv> -186"
abbreviation ERR_RESULT_UPLOAD :: int where "ERR_RESULT_UPLOAD \<equiv> -187"
abbreviation ERR_TOO_MANY_EXITS :: int where "ERR_TOO_MANY_EXITS \<equiv> -226"
abbreviation ERR_FOPEN :: int where "ERR_FOPEN \<equiv> -108"
abbreviation ERR_FILE_TOO_BIG :: int where "ERR_FILE_TOO_BIG \<equiv> -131"
abbreviation ERR_PROJECT_DOWN :: int where "ERR_PROJECT_DOWN \<equiv> -183"
abbreviation ERR_ABORTED_BY_PROJECT :: int where "ERR_ABORTED_BY_PROJECT \<equiv> -221"
abbreviation ERR_UNSTARTED_LATE :: int where "ERR_UNSTARTED_LATE \<equiv> -233"
abbreviation EXIT_ABORTED_BY_CLIENT :: int where "EXIT_ABORTED_BY_CLIENT \<equiv> 194"
abbreviation ERR_IN_PROGRESS :: int where "ERR_IN_PROGRESS \<equiv> -204"

abbreviation MAX_STD :: real where "MAX_STD \<equiv> 86400"
abbreviation SECONDS_PER_DAY :: real where "SECONDS_PER_DAY \<equiv> 86400"
abbreviation FILE_XFER_FAILURE_LIMIT :: int where "FILE_XFER_FAILURE_LIMIT \<equiv> 3"

text \<open>\<open>enum TASK_STATE\<close> and \<open>enum rpc_reason\<close> of \<open>lib/common_defs.h\<close>.\<close>

datatype TASK_STATE =
    PROCESS_UNINITIALIZED | PROCESS_EXECUTING | PROCESS_SUSPENDED
  | PROCESS_ABORT_PENDING | PROCESS_QUIT_PENDING | PROCESS_EXITED
  | PROCESS_WAS_SIGNALED | PROCESS_EXIT_UNKNOWN | PROCESS_ABORTED
  | PROCESS_COULDNT_START

datatype rpc_reason =
    NO_RPC_REASON | RPC_REASON_USER_REQ | RPC_REASON_RESULTS_DUE
  | RPC_REASON_NEED_WORK | RPC_REASON_TRICKLE_UP | RPC_REASON_ACCT_MGR_REQ
  | RPC_REASON_INIT | RPC_REASON_PROJECT_REQ

section \<open>Objects\<close>

text \<open>\<open>RR_SIM_PROJECT_STATUS\<close> (\<open>client/rr_sim.h\<close>).\<close>

record RR_SIM_PROJECT_STATUS =
  rs_active :: "rid list"
  rs_pending :: "rid list"
  rs_deadlines_missed :: int
  rs_proc_rate :: real
  rs_cpu_shortfall :: real

record FILE_REF =
  fr_file_name :: string
  fr_open_name :: string
  fr_main_program :: bool
  fr_file_info :: fid
  fr_copy_file :: bool
  fr_optional :: bool

record DAILY_STATS =
  ds_user_total_credit :: real
  ds_user_expavg_credit :: real
  ds_host_total_credit :: real
  ds_host_expavg_credit :: real
  ds_day :: real

record PROJECT =
  p_master_url :: string
  p_authenticator :: string
  p_project_specific_prefs :: string
  p_gui_urls :: string
  p_resource_share :: real
  p_host_venue :: string
  p_using_venue_specific_prefs :: bool
  p_scheduler_urls :: "string list"
  p_project_name :: string
  p_symstore :: string
  p_user_name :: string
  p_team_name :: string
  p_email_hash :: string
  p_cross_project_id :: string
  p_cpid_time :: real
  p_user_total_credit :: real
  p_user_expavg_credit :: real
  p_user_create_time :: real
  p_hostid :: int
  p_host_total_credit :: real
  p_host_expavg_credit :: real
  p_host_create_time :: real
  p_ams_resource_share :: real
  p_rpc_seqno :: int
  p_nrpc_failures :: int
  p_master_fetch_failures :: int
  p_min_rpc_time :: real
  p_master_url_fetch_pending :: bool
  p_sched_rpc_pending :: rpc_reason
  p_next_rpc_time :: real
  p_possibly_backed_off :: bool
  p_trickle_up_pending :: bool
  p_last_rpc_time :: real
  p_anonymous_platform :: bool
  p_non_cpu_intensive :: bool
  p_use_symlinks :: bool
  p_send_file_list :: bool
  p_suspended_via_gui :: bool
  p_dont_request_more_work :: bool
  p_attached_via_acct_mgr :: bool
  p_detach_when_done :: bool
  p_ended :: bool
  p_code_sign_key :: string
  p_user_files :: "FILE_REF list"
  p_project_files :: "FILE_REF list"
  p_project_files_downloaded_time :: real
  p_rr_sim_status :: RR_SIM_PROJECT_STATUS
  p_deadlines_missed :: int
  p_short_term_debt :: real
  p_long_term_debt :: real
  p_anticipated_debt :: real
  p_wall_cpu_time_this_debt_interval :: real
  p_next_runnable_result :: "rid option"
  p_nuploading_results :: int
  p_work_request :: real
  p_work_request_urgency :: int
  p_file_xfer_failures_up :: int
  p_file_xfer_failures_down :: int
  p_next_file_xfer_up :: real
  p_next_file_xfer_down :: real
  p_nresults_returned :: int
  p_project_prefs :: string
  p_statistics :: "DAILY_STATS list"

record APP =
  app_name :: string
  app_user_friendly_name :: string
  app_project :: pid

record APP_VERSION =
  av_version_num :: int
  av_avg_ncpus :: real
  av_max_ncpus :: real
  av_flops :: real
  av_duration_correction_factor :: real
  av_project :: pid
  av_app_files :: "FILE_REF list"
  av_app :: appid
  av_plan_class :: string
  av_ref_cnt :: int
  av_app_name :: string
  av_platform :: string
  av_api_version :: string
  av_cmdline :: string
  av_graphics_exec_path :: string

record WORKUNIT =
  wu_name :: string
  wu_input_files :: "FILE_REF list"
  wu_project :: pid
  wu_rsc_fpops_est :: real
  wu_rsc_fpops_bound :: real
  wu_rsc_memory_bound :: real
  wu_rsc_disk_bound :: real
  wu_ref_cnt :: int
  wu_app_name :: string
  wu_app :: appid
  wu_version_num :: int
  wu_command_line :: string

record RESULT =
  r_name :: string
  r_report_deadline :: real
  r_avp :: avid
  r_output_files :: "FILE_REF list"
  r_ready_to_report :: bool
  r_completed_time :: real
  r_got_server_ack :: bool
  r_final_cpu_time :: real
  r_exit_status :: int
  r_stderr_out :: string
  r_suspended_via_gui :: bool
  r_wup :: wuid
  r_project :: pid
  r_state :: int
  r_received_time :: real
  r_rrsim_cpu_left :: real
  r_rrsim_finish_delay :: real
  r_already_selected :: bool
  r_rr_sim_misses_deadline :: bool
  r_last_rr_sim_missed_deadline :: bool
  r_edf_scheduled :: bool
  r_wu_name :: string
  r_app :: appid
  r_platform :: string
  r_plan_class :: string
  r_version_num :: int
  r_fpops_per_cpu_sec :: real
  r_fpops_cumulative :: real
  r_intops_per_cpu_sec :: real
  r_intops_cumulative :: real

text \<open>\<open>MSG_QUEUE\<close> (\<open>lib/app_ipc.h\<close>): messages that wait for a free channel.\<close>

record MSG_QUEUE =
  mq_msgs :: "string list"
  mq_last_block :: real

text \<open>
  \<open>ACTIVE_TASK\<close> (\<open>client/app.h\<close>). \<open>at_shm\<close> says whether \<open>app_client_shm.shm\<close> is
  attached; \<open>at_working_set_size_smoothed\<close> and \<open>at_swap_size\<close> are \<open>procinfo\<close> fields.
  \<open>at_process_control_request\<close>, \<open>at_graphics_request\<close>, \<open>at_heartbeat\<close>, \<open>at_trickle_down\<close>, \<open>at_app_status\<close> and
  \<open>at_trickle_up\<close> are the message channels of these names in the shared memory, \<open>None\<close> when empty.
\<close>

record ACTIVE_TASK =
  at_result :: rid
  at_wup :: wuid
  at_app_version :: avid
  at_working_set_size_smoothed :: real
  at_swap_size :: real
  at_slot :: nat
  at_task_state :: TASK_STATE
  at_scheduler_state :: int
  at_next_scheduler_state :: int
  at_signal :: int
  at_fraction_done :: real
  at_debt_interval_start_cpu_time :: real
  at_episode_start_cpu_time :: real
  at_run_interval_start_wall_time :: real
  at_checkpoint_cpu_time :: real
  at_checkpoint_wall_time :: real
  at_current_cpu_time :: real
  at_max_cpu_time :: real
  at_max_disk_usage :: real
  at_max_mem_usage :: real
  at_too_large :: bool
  at_needs_shmem :: bool
  at_want_network :: bool
  at_abort_time :: real
  at_quit_time :: real
  at_premature_exit_count :: int
  at_have_trickle_down :: bool
  at_send_upload_file_status :: bool
  at_shm :: bool
  at_process_control_request :: "string option"
  at_process_control_queue :: MSG_QUEUE
  at_graphics_request :: "string option"
  at_graphics_request_queue :: MSG_QUEUE
  at_full_init_done :: bool
  at_heartbeat :: "string option"
  at_trickle_down :: "string option"
  at_app_status :: "string option"
  at_trickle_up :: "string option"
  at_working_set_size :: real
  at_page_fault_rate :: real
  at_page_fault_count :: int
  at_stats_mem :: real
  at_stats_page :: real
  at_stats_pagefault_rate :: real
  at_stats_disk :: real
  at_stats_checkpoint :: int

record FILE_INFO =
  fi_name :: string
  fi_md5_cksum :: string
  fi_max_nbytes :: real
  fi_nbytes :: real
  fi_upload_offset :: real
  fi_generated_locally :: bool
  fi_status :: int
  fi_executable :: bool
  fi_uploaded :: bool
  fi_upload_when_present :: bool
  fi_sticky :: bool
  fi_report_on_rpc :: bool
  fi_marked_for_delete :: bool
  fi_signature_required :: bool
  fi_is_user_file :: bool
  fi_is_project_file :: bool
  fi_gzip_when_done :: bool
  fi_pers_file_xfer :: "pfxid option"
  fi_project :: pid
  fi_urls :: "string list"
  fi_start_url :: int
  fi_current_url :: int
  fi_signed_xml :: string
  fi_xml_signature :: string
  fi_file_signature :: string
  fi_error_msg :: string
  fi_ref_cnt :: int

record PERS_FILE_XFER =
  pfx_nretry :: int
  pfx_first_request_time :: real
  pfx_is_upload :: bool
  pfx_next_request_time :: real
  pfx_time_so_far :: real
  pfx_last_time :: real
  pfx_last_bytes_xferred :: real
  pfx_pers_xfer_done :: bool
  pfx_fxp :: "fxid option"
  pfx_fip :: fid

text \<open>
  \<open>FILE_XFER\<close> with the fields of its base class \<open>HTTP_OP\<close> that the transfer code
  reads (\<open>client/file_xfer.h\<close>, \<open>client/http_curl.h\<close>). \<open>fx_is_active\<close> says whether
  \<open>curlEasy\<close> is set; \<open>fx_speed_limit\<close> is the limit last given to \<open>set_speed_limit\<close>.
\<close>

record FILE_XFER =
  fx_fip :: fid
  fx_file_size_query :: bool
  fx_is_upload :: bool
  fx_starting_size :: real
  fx_bytes_xferred :: real
  fx_file_offset :: real
  fx_file_xfer_done :: bool
  fx_file_xfer_retval :: int
  fx_http_op_state :: int
  fx_http_op_retval :: int
  fx_response :: int
  fx_is_active :: bool
  fx_speed_limit :: real

record TIME_STATS =
  ts_first :: bool
  ts_previous_connected_state :: int
  ts_last_update :: real
  ts_on_frac :: real
  ts_connected_frac :: real
  ts_active_frac :: real
  ts_cpu_efficiency :: real
  ts_inactive_start :: real

record NET_STATUS =
  ns_need_to_contact_reference_site :: bool
  ns_show_ref_message :: bool
  ns_need_physical_connection :: bool
  ns_have_sporadic_connection :: bool
  ns_last_comm_time :: real

text \<open>
  The preferences of \<open>lib/prefs.h\<close>. \<open>TIME_PREFS\<close> extends \<open>TIME_SPAN\<close> by the days of the week; a
  day without a time span of its own is a null pointer.
\<close>

record TIME_SPAN =
  m_start :: int
  m_end :: int

record TIME_PREFS =
  tp_span :: TIME_SPAN
  tp_week :: "TIME_SPAN option list"

record GLOBAL_PREFS =
  gp_mod_time :: real
  gp_run_on_batteries :: bool
  gp_run_if_user_active :: bool
  gp_idle_time_to_run :: real
  gp_suspend_if_no_recent_input :: real
  gp_leave_apps_in_memory :: bool
  gp_confirm_before_connecting :: bool
  gp_hangup_if_dialed :: bool
  gp_dont_verify_images :: bool
  gp_cpu_times :: TIME_PREFS
  gp_net_times :: TIME_PREFS
  gp_work_buf_min_days :: real
  gp_work_buf_additional_days :: real
  gp_max_cpus :: int
  gp_max_ncpus_pct :: real
  gp_cpu_scheduling_period_minutes :: real
  gp_disk_interval :: real
  gp_disk_max_used_gb :: real
  gp_disk_max_used_pct :: real
  gp_disk_min_free_gb :: real
  gp_vm_max_used_frac :: real
  gp_ram_max_used_busy_frac :: real
  gp_ram_max_used_idle_frac :: real
  gp_max_bytes_sec_up :: real
  gp_max_bytes_sec_down :: real
  gp_cpu_usage_limit :: real
  gp_source_project :: string
  gp_source_scheduler :: string
  gp_host_specific :: bool

record HOST_INFO =
  hi_p_ncpus :: int
  hi_p_fpops :: real
  hi_m_nbytes :: real
  hi_m_swap :: real
  hi_p_iops :: real
  hi_p_membw :: real
  hi_p_calculated :: real
  hi_m_cache :: real
  hi_host_cpid :: string
  hi_d_total :: real
  hi_d_free :: real

record CONFIG =
  cf_ncpus :: int
  cf_max_file_xfers :: int
  cf_max_file_xfers_per_project :: int
  cf_report_results_immediately :: bool
  cf_zero_debts :: bool
  cf_dont_contact_ref_site :: bool
  cf_dont_check_file_sizes :: bool
  cf_save_stats_days :: int
  cf_start_delay :: real

text \<open>\<open>MODE\<close> (\<open>client/client_types.h\<close>).\<close>

record MODE =
  perm_mode :: int
  temp_mode :: int
  temp_timeout :: real

text \<open>
  What decides on suspending: fields of \<open>CLIENT_STATE\<close>, and the statics \<open>last_suspend_reason\<close> and
  \<open>tasks_restarted\<close> of \<open>poll_slow_events\<close>, \<open>last_time\<close> and \<open>debt\<close> of \<open>check_suspend_processing\<close> and
  \<open>last_mem_time\<close> of \<open>get_memory_usage\<close>.
\<close>

record SUSPENSION =
  client_start_time :: real
  tasks_suspended :: bool
  suspend_reason :: int
  last_suspend_reason :: int
  tasks_restarted :: bool
  throttle_last_time :: real
  throttle_debt :: real
  last_mem_time :: real

text \<open>
  \<open>BENCHMARK_DESC\<close> and the file-local variables of \<open>client/cs_benchmark.C\<close>, with the static of
  \<open>cpu_benchmarks_poll\<close> and the two flags of \<open>CLIENT_STATE\<close> about benchmarks.
\<close>

record BENCHMARK_DESC =
  bd_done :: bool
  bd_error :: bool
  bd_p_fpops :: real
  bd_p_iops :: real
  bd_p_membw :: real
  bd_m_cache :: real

record BENCHMARKS =
  bm_state :: int
  benchmarks_running :: bool
  cpu_benchmarks_start :: real
  bm_ncpus :: nat
  benchmark_descs :: "BENCHMARK_DESC list"
  bm_last_time :: real
  cpu_benchmarks_pending :: bool
  skip_cpu_benchmarks :: bool

text \<open>\<open>NET_INFO\<close> and \<open>NET_STATS\<close> (\<open>client/net_stats.h\<close>).\<close>

record NET_INFO =
  ni_max_rate :: real
  ni_avg_rate :: real
  ni_avg_time :: real

record NET_STATS =
  net_up :: NET_INFO
  net_down :: NET_INFO

text \<open>\<open>SCHEDULER_OP\<close> (\<open>client/scheduler_op.h\<close>): at most one operation is in progress.\<close>

abbreviation SCHEDULER_OP_STATE_IDLE :: int where "SCHEDULER_OP_STATE_IDLE \<equiv> 0"
abbreviation SCHEDULER_OP_STATE_GET_MASTER :: int where "SCHEDULER_OP_STATE_GET_MASTER \<equiv> 1"
abbreviation SCHEDULER_OP_STATE_RPC :: int where "SCHEDULER_OP_STATE_RPC \<equiv> 2"

record SCHEDULER_OP =
  so_state :: int
  so_cur_proj :: "pid option"
  so_url_index :: int
  so_reason :: rpc_reason
  so_url_random :: real
  so_scheduler_url :: string
  so_http_op_state :: int
  so_http_op_retval :: int

section \<open>The client state\<close>

text \<open>
  \<open>CLIENT_STATE\<close> (\<open>client/client_state.h\<close>). \<open>proj\<close>, \<open>res\<close>, \<open>task\<close>, \<open>appver\<close>, \<open>wunit\<close>,
  \<open>finfo\<close>, \<open>pxfer\<close>, \<open>fxfer\<close>, \<open>appl\<close> are the heaps; \<open>projects\<close>, \<open>results\<close>, \<open>active_tasks\<close>,
  \<open>app_versions\<close>, \<open>workunits\<close>, \<open>file_infos\<close>, \<open>pers_file_xfers\<close>, \<open>file_xfers\<close>, \<open>apps\<close> the
  vectors of pointers. The function-local statics of the code are fields too:
  \<open>last_reschedule\<close> (\<open>possibly_schedule_cpus\<close>), \<open>enforce_last_time\<close>
  (\<open>enforce_schedule\<close>), \<open>work_fetch_last_time\<close> (\<open>compute_work_requests\<close>),
  \<open>pfx_poll_last_time\<close> (\<open>PERS_FILE_XFER_SET::poll\<close>) and \<open>hpfx_last_time\<close>
  (\<open>handle_pers_file_xfers\<close>), \<open>disk_check_last_time\<close> (\<open>check_rsc_limits_exceeded\<close>),
  \<open>fx_poll_last_time\<close> (\<open>FILE_XFER_SET::poll\<close>), \<open>finished_apps_last_time\<close>
  (\<open>handle_finished_apps\<close>), \<open>update_results_last_time\<close>, \<open>garbage_collect_last_time\<close> \<open>sched_poll_last_time\<close>
  (\<open>scheduler_rpc_poll\<close>) and \<open>active_poll_last_time\<close> (\<open>ACTIVE_TASK_SET::poll\<close>). \<open>lookup_website_error\<close> is the field
  \<open>error_num\<close> of \<open>lookup_website_op\<close>, \<open>gui_http_busy\<close> whether \<open>gui_http\<close> is at work.
  \<open>fx_up_active\<close> and \<open>fx_down_active\<close> belong to \<open>FILE_XFER_SET\<close>.
  \<open>rand_src\<close> holds the numbers that successive calls of \<open>drand()\<close> return, \<open>rand_pos\<close>
  how many have been drawn. \<open>log_cpu_sched_debug\<close> is the one log flag that
  changes what the client does.
\<close>

record CLIENT_STATE =
  now :: real
  projects :: "pid list"
  proj :: "pid \<Rightarrow> PROJECT"
  results :: "rid list"
  res :: "rid \<Rightarrow> RESULT"
  active_tasks :: "aid list"
  task :: "aid \<Rightarrow> ACTIVE_TASK"
  app_versions :: "avid list"
  appver :: "avid \<Rightarrow> APP_VERSION"
  workunits :: "wuid list"
  wunit :: "wuid \<Rightarrow> WORKUNIT"
  file_infos :: "fid list"
  finfo :: "fid \<Rightarrow> FILE_INFO"
  pers_file_xfers :: "pfxid list"
  pxfer :: "pfxid \<Rightarrow> PERS_FILE_XFER"
  file_xfers :: "fxid list"
  fxfer :: "fxid \<Rightarrow> FILE_XFER"
  host_info :: HOST_INFO
  global_prefs :: GLOBAL_PREFS
  config :: CONFIG
  time_stats :: TIME_STATS
  net_status :: NET_STATUS
  run_mode :: MODE
  network_mode :: MODE
  ncpus :: int
  user_active :: bool
  initialized :: bool
  run_cpu_benchmarks :: bool
  client_state_dirty :: bool
  network_suspended :: bool
  exit_before_upload :: bool
  file_xfer_giveup_period :: real
  pers_retry_delay_min :: real
  pers_retry_delay_max :: real
  app_started :: real
  retry_shmem_time :: real
  debt_interval_start :: real
  total_wall_cpu_time_this_debt_interval :: real
  total_cpu_time_this_debt_interval :: real
  cpu_shortfall :: real
  must_enforce_cpu_schedule :: bool
  must_schedule_cpus :: bool
  must_check_work_fetch :: bool
  ordered_scheduled_results :: "rid list"
  overall_work_fetch_urgency :: int
  last_reschedule :: real
  enforce_last_time :: real
  work_fetch_last_time :: real
  pfx_poll_last_time :: real
  hpfx_last_time :: real
  disk_check_last_time :: real
  fx_poll_last_time :: real
  finished_apps_last_time :: real
  update_results_last_time :: real
  garbage_collect_last_time :: real
  fx_up_active :: bool
  fx_down_active :: bool
  network_suspend_reason :: int
  last_wakeup_time :: real
  sched_poll_last_time :: real
  contacted_sched_server :: bool
  exit_when_idle :: bool
  use_sandbox :: bool
  master_fetch_period :: int
  retry_cap :: int
  master_fetch_retry_cap :: int
  master_fetch_interval :: real
  sched_retry_delay_min :: real
  sched_retry_delay_max :: real
  sched_op :: SCHEDULER_OP
  rand_src :: "nat \<Rightarrow> real"
  rand_pos :: nat
  log_cpu_sched_debug :: bool
  apps :: "appid list"
  appl :: "appid \<Rightarrow> APP"
  platforms :: "string list"
  main_host_venue :: string
  suspension :: SUSPENSION
  bench :: BENCHMARKS
  net_stats :: NET_STATS
  lookup_website_error :: int
  gui_http_busy :: bool
  active_poll_last_time :: real

section \<open>Writing one object\<close>

definition upd_proj :: "pid \<Rightarrow> (PROJECT \<Rightarrow> PROJECT) \<Rightarrow> CLIENT_STATE \<Rightarrow> CLIENT_STATE" where
  "upd_proj p f s = s\<lparr>proj := (proj s)(p := f (proj s p))\<rparr>"

definition upd_res :: "rid \<Rightarrow> (RESULT \<Rightarrow> RESULT) \<Rightarrow> CLIENT_STATE \<Rightarrow> CLIENT_STATE" where
  "upd_res r f s = s\<lparr>res := (res s)(r := f (res s r))\<rparr>"

definition upd_task :: "aid \<Rightarrow> (ACTIVE_TASK \<Rightarrow> ACTIVE_TASK) \<Rightarrow> CLIENT_STATE \<Rightarrow> CLIENT_STATE" where
  "upd_task a f s = s\<lparr>task := (task s)(a := f (task s a))\<rparr>"

definition upd_appver ::
  "avid \<Rightarrow> (APP_VERSION \<Rightarrow> APP_VERSION) \<Rightarrow> CLIENT_STATE \<Rightarrow> CLIENT_STATE" where
  "upd_appver v f s = s\<lparr>appver := (appver s)(v := f (appver s v))\<rparr>"

definition upd_wunit :: "wuid \<Rightarrow> (WORKUNIT \<Rightarrow> WORKUNIT) \<Rightarrow> CLIENT_STATE \<Rightarrow> CLIENT_STATE" where
  "upd_wunit w f s = s\<lparr>wunit := (wunit s)(w := f (wunit s w))\<rparr>"

definition upd_finfo :: "fid \<Rightarrow> (FILE_INFO \<Rightarrow> FILE_INFO) \<Rightarrow> CLIENT_STATE \<Rightarrow> CLIENT_STATE" where
  "upd_finfo i f s = s\<lparr>finfo := (finfo s)(i := f (finfo s i))\<rparr>"

definition upd_pxfer ::
  "pfxid \<Rightarrow> (PERS_FILE_XFER \<Rightarrow> PERS_FILE_XFER) \<Rightarrow> CLIENT_STATE \<Rightarrow> CLIENT_STATE" where
  "upd_pxfer x f s = s\<lparr>pxfer := (pxfer s)(x := f (pxfer s x))\<rparr>"

definition upd_fxfer :: "fxid \<Rightarrow> (FILE_XFER \<Rightarrow> FILE_XFER) \<Rightarrow> CLIENT_STATE \<Rightarrow> CLIENT_STATE" where
  "upd_fxfer x f s = s\<lparr>fxfer := (fxfer s)(x := f (fxfer s x))\<rparr>"

definition upd_appl :: "appid \<Rightarrow> (APP \<Rightarrow> APP) \<Rightarrow> CLIENT_STATE \<Rightarrow> CLIENT_STATE" where
  "upd_appl i f s = s\<lparr>appl := (appl s)(i := f (appl s i))\<rparr>"

lemmas upd_defs [heap_simps] =
  upd_proj_def upd_res_def upd_task_def upd_appver_def upd_wunit_def upd_finfo_def upd_pxfer_def upd_fxfer_def

section \<open>Projects: initial values and the state file\<close>

text \<open>
  \<open>PROJECT::init\<close>. Fields the code does not assign (the per-project transfer failure
  counters and the number of uploading results among them) keep the value the memory
  happens to hold, the argument here.
\<close>

definition PROJECT_init :: "PROJECT \<Rightarrow> PROJECT" where
  "PROJECT_init x = x\<lparr>
     p_master_url := [], p_authenticator := [], p_project_specific_prefs := [],
     p_gui_urls := [], p_resource_share := 100, p_host_venue := [],
     p_using_venue_specific_prefs := False, p_scheduler_urls := [], p_project_name := [],
     p_symstore := [], p_user_name := [], p_team_name := [], p_email_hash := [],
     p_cross_project_id := [], p_cpid_time := 0, p_user_total_credit := 0,
     p_user_expavg_credit := 0, p_user_create_time := 0, p_ams_resource_share := 0,
     p_rpc_seqno := 0, p_hostid := 0, p_host_total_credit := 0, p_host_expavg_credit := 0,
     p_host_create_time := 0, p_nrpc_failures := 0, p_master_fetch_failures := 0,
     p_min_rpc_time := 0, p_possibly_backed_off := True, p_master_url_fetch_pending := False,
     p_sched_rpc_pending := NO_RPC_REASON, p_next_rpc_time := 0, p_last_rpc_time := 0,
     p_trickle_up_pending := False, p_anonymous_platform := False, p_non_cpu_intensive := False,
     p_short_term_debt := 0, p_long_term_debt := 0, p_send_file_list := False,
     p_suspended_via_gui := False, p_dont_request_more_work := False,
     p_detach_when_done := False, p_attached_via_acct_mgr := False, p_ended := False,
     p_code_sign_key := [], p_user_files := [], p_project_files := [],
     p_anticipated_debt := 0, p_wall_cpu_time_this_debt_interval := 0,
     p_next_runnable_result := None, p_work_request := 0,
     p_work_request_urgency := WORK_FETCH_DONT_NEED, p_project_files_downloaded_time := 0,
     p_use_symlinks := False,
     p_rr_sim_status := \<lparr>rs_active = [], rs_pending = [], rs_deadlines_missed = 0,
                         rs_proc_rate = 0, rs_cpu_shortfall = 0\<rparr>,
     p_deadlines_missed := 0\<rparr>"

text \<open>
  \<open>PROJECT::copy_state_fields\<close>: take the fields of \<open>client_state.xml\<close> from the parsed
  project \<open>p\<close>. An account manager's resource share overrides the account file's.
\<close>

definition copy_state_fields :: "PROJECT \<Rightarrow> PROJECT \<Rightarrow> PROJECT" where
  "copy_state_fields p x =
     (let y = x\<lparr>
        p_scheduler_urls := p_scheduler_urls p, p_project_name := p_project_name p,
        p_user_name := p_user_name p, p_team_name := p_team_name p,
        p_host_venue := p_host_venue p, p_email_hash := p_email_hash p,
        p_cross_project_id := p_cross_project_id p,
        p_user_total_credit := p_user_total_credit p,
        p_user_expavg_credit := p_user_expavg_credit p,
        p_user_create_time := p_user_create_time p, p_cpid_time := p_cpid_time p,
        p_rpc_seqno := p_rpc_seqno p, p_hostid := p_hostid p,
        p_host_total_credit := p_host_total_credit p,
        p_host_expavg_credit := p_host_expavg_credit p,
        p_host_create_time := p_host_create_time p, p_nrpc_failures := p_nrpc_failures p,
        p_master_fetch_failures := p_master_fetch_failures p,
        p_min_rpc_time := p_min_rpc_time p, p_next_rpc_time := p_next_rpc_time p,
        p_master_url_fetch_pending := p_master_url_fetch_pending p,
        p_sched_rpc_pending := p_sched_rpc_pending p,
        p_trickle_up_pending := p_trickle_up_pending p, p_code_sign_key := p_code_sign_key p,
        p_short_term_debt := p_short_term_debt p, p_long_term_debt := p_long_term_debt p,
        p_send_file_list := p_send_file_list p, p_non_cpu_intensive := p_non_cpu_intensive p,
        p_suspended_via_gui := p_suspended_via_gui p,
        p_dont_request_more_work := p_dont_request_more_work p,
        p_detach_when_done := p_detach_when_done p,
        p_attached_via_acct_mgr := p_attached_via_acct_mgr p, p_ended := p_ended p,
        p_ams_resource_share := p_ams_resource_share p\<rparr>;
          z = (if p_ams_resource_share y > 0
               then y\<lparr>p_resource_share := p_ams_resource_share y\<rparr> else y)
      in z\<lparr>p_use_symlinks := p_use_symlinks p\<rparr>)"

section \<open>Sample objects\<close>

text \<open>Closed objects from which the witnesses of the component theories build their states.\<close>

definition sample_rr_status :: RR_SIM_PROJECT_STATUS where
  "sample_rr_status = \<lparr>rs_active = [], rs_pending = [], rs_deadlines_missed = 0,
     rs_proc_rate = 0, rs_cpu_shortfall = 0\<rparr>"

definition sample_project :: PROJECT where
  "sample_project = \<lparr>p_master_url = [], p_authenticator = [], p_project_specific_prefs = [],
     p_gui_urls = [], p_resource_share = 100, p_host_venue = [],
     p_using_venue_specific_prefs = False, p_scheduler_urls = [], p_project_name = [],
     p_symstore = [], p_user_name = [], p_team_name = [], p_email_hash = [],
     p_cross_project_id = [], p_cpid_time = 0, p_user_total_credit = 0,
     p_user_expavg_credit = 0, p_user_create_time = 0, p_hostid = 0,
     p_host_total_credit = 0, p_host_expavg_credit = 0, p_host_create_time = 0,
     p_ams_resource_share = 0, p_rpc_seqno = 0, p_nrpc_failures = 0,
     p_master_fetch_failures = 0, p_min_rpc_time = 0, p_master_url_fetch_pending = False,
     p_sched_rpc_pending = NO_RPC_REASON, p_next_rpc_time = 0, p_possibly_backed_off = True,
     p_trickle_up_pending = False, p_last_rpc_time = 0, p_anonymous_platform = False,
     p_non_cpu_intensive = False, p_use_symlinks = False, p_send_file_list = False,
     p_suspended_via_gui = False, p_dont_request_more_work = False,
     p_attached_via_acct_mgr = False, p_detach_when_done = False, p_ended = False,
     p_code_sign_key = [], p_user_files = [], p_project_files = [],
     p_project_files_downloaded_time = 0, p_rr_sim_status = sample_rr_status,
     p_deadlines_missed = 0, p_short_term_debt = 0, p_long_term_debt = 0,
     p_anticipated_debt = 0, p_wall_cpu_time_this_debt_interval = 0,
     p_next_runnable_result = None, p_nuploading_results = 0, p_work_request = 0,
     p_work_request_urgency = WORK_FETCH_DONT_NEED, p_file_xfer_failures_up = 0,
     p_file_xfer_failures_down = 0, p_next_file_xfer_up = 0, p_next_file_xfer_down = 0,
     p_nresults_returned = 0, p_project_prefs = [], p_statistics = []\<rparr>"

definition sample_result :: RESULT where
  "sample_result = \<lparr>r_name = [], r_report_deadline = 100000, r_avp = 0, r_output_files = [],
     r_ready_to_report = False, r_completed_time = 0, r_got_server_ack = False,
     r_final_cpu_time = 0, r_exit_status = 0, r_stderr_out = [], r_suspended_via_gui = False,
     r_wup = 0, r_project = 0, r_state = RESULT_FILES_DOWNLOADED, r_received_time = 0,
     r_rrsim_cpu_left = 0, r_rrsim_finish_delay = 0, r_already_selected = False,
     r_rr_sim_misses_deadline = False, r_last_rr_sim_missed_deadline = False,
     r_edf_scheduled = False, r_wu_name = [], r_app = 0, r_platform = [], r_plan_class = [],
     r_version_num = 1, r_fpops_per_cpu_sec = 0, r_fpops_cumulative = 0, r_intops_per_cpu_sec = 0,
     r_intops_cumulative = 0\<rparr>"

definition sample_task :: ACTIVE_TASK where
  "sample_task = \<lparr>at_result = 0, at_wup = 0, at_app_version = 0,
     at_working_set_size_smoothed = 0, at_swap_size = 0, at_slot = 0,
     at_task_state = PROCESS_UNINITIALIZED, at_scheduler_state = CPU_SCHED_UNINITIALIZED,
     at_next_scheduler_state = CPU_SCHED_UNINITIALIZED, at_signal = 0, at_fraction_done = 0,
     at_debt_interval_start_cpu_time = 0, at_episode_start_cpu_time = 0,
     at_run_interval_start_wall_time = 0, at_checkpoint_cpu_time = 0,
     at_checkpoint_wall_time = 0, at_current_cpu_time = 0, at_max_cpu_time = 0,
     at_max_disk_usage = 0, at_max_mem_usage = 0, at_too_large = False,
     at_needs_shmem = False, at_want_network = False, at_abort_time = 0, at_quit_time = 0,
     at_premature_exit_count = 0, at_have_trickle_down = False,
     at_send_upload_file_status = False, at_shm = False, at_process_control_request = None,
     at_process_control_queue = \<lparr>mq_msgs = [], mq_last_block = 0\<rparr>, at_graphics_request = None,
     at_graphics_request_queue = \<lparr>mq_msgs = [], mq_last_block = 0\<rparr>, at_full_init_done = False,
     at_heartbeat = None, at_trickle_down = None, at_app_status = None, at_trickle_up = None,
     at_working_set_size = 0, at_page_fault_rate = 0, at_page_fault_count = 0, at_stats_mem = 0, at_stats_page = 0,
     at_stats_pagefault_rate = 0, at_stats_disk = 0, at_stats_checkpoint = 0\<rparr>"

definition sample_file_info :: FILE_INFO where
  "sample_file_info = \<lparr>fi_name = [], fi_md5_cksum = [], fi_max_nbytes = 0, fi_nbytes = 0,
     fi_upload_offset = -1, fi_generated_locally = False, fi_status = FILE_NOT_PRESENT,
     fi_executable = False, fi_uploaded = False, fi_upload_when_present = False,
     fi_sticky = False, fi_report_on_rpc = False, fi_marked_for_delete = False,
     fi_signature_required = False, fi_is_user_file = False, fi_is_project_file = False,
     fi_gzip_when_done = False, fi_pers_file_xfer = None, fi_project = 0, fi_urls = [],
     fi_start_url = -1, fi_current_url = -1, fi_signed_xml = [], fi_xml_signature = [],
     fi_file_signature = [], fi_error_msg = [], fi_ref_cnt = 0\<rparr>"

definition sample_pfx :: PERS_FILE_XFER where
  "sample_pfx = \<lparr>pfx_nretry = 0, pfx_first_request_time = 0, pfx_is_upload = False,
     pfx_next_request_time = 0, pfx_time_so_far = 0, pfx_last_time = 0,
     pfx_last_bytes_xferred = 0, pfx_pers_xfer_done = False, pfx_fxp = None, pfx_fip = 0\<rparr>"

definition sample_fx :: FILE_XFER where
  "sample_fx = \<lparr>fx_fip = 0, fx_file_size_query = False, fx_is_upload = False,
     fx_starting_size = 0, fx_bytes_xferred = 0, fx_file_offset = 0,
     fx_file_xfer_done = False, fx_file_xfer_retval = 0, fx_http_op_state = 0,
     fx_http_op_retval = 0, fx_response = 0, fx_is_active = False, fx_speed_limit = 0\<rparr>"

definition sample_time_stats :: TIME_STATS where
  "sample_time_stats = \<lparr>ts_first = True, ts_previous_connected_state = -1, ts_last_update = 0,
     ts_on_frac = 1, ts_connected_frac = 1, ts_active_frac = 1, ts_cpu_efficiency = 1,
     ts_inactive_start = 0\<rparr>"

definition sample_times :: TIME_PREFS where
  "sample_times = \<lparr>tp_span = \<lparr>m_start = 0, m_end = 0\<rparr>, tp_week = replicate 7 None\<rparr>"

definition sample_prefs :: GLOBAL_PREFS where
  "sample_prefs = \<lparr>gp_mod_time = 0, gp_run_on_batteries = True, gp_run_if_user_active = True,
     gp_idle_time_to_run = 3, gp_suspend_if_no_recent_input = 0, gp_leave_apps_in_memory = False,
     gp_confirm_before_connecting = True, gp_hangup_if_dialed = False, gp_dont_verify_images = False,
     gp_cpu_times = sample_times, gp_net_times = sample_times,
     gp_work_buf_min_days = 1/10, gp_work_buf_additional_days = 1/4, gp_max_cpus = 16,
     gp_max_ncpus_pct = 100, gp_cpu_scheduling_period_minutes = 60, gp_disk_interval = 60,
     gp_disk_max_used_gb = 10, gp_disk_max_used_pct = 50, gp_disk_min_free_gb = 1/10,
     gp_vm_max_used_frac = 3/4, gp_ram_max_used_busy_frac = 1/2,
     gp_ram_max_used_idle_frac = 9/10, gp_max_bytes_sec_up = 0, gp_max_bytes_sec_down = 0,
     gp_cpu_usage_limit = 100, gp_source_project = [], gp_source_scheduler = [], gp_host_specific = False\<rparr>"

definition sample_config :: CONFIG where
  "sample_config = \<lparr>cf_ncpus = -1, cf_max_file_xfers = 8, cf_max_file_xfers_per_project = 2,
     cf_report_results_immediately = False, cf_zero_debts = False,
     cf_dont_contact_ref_site = False, cf_dont_check_file_sizes = False, cf_save_stats_days = 30, cf_start_delay = 0\<rparr>"

definition sample_state :: CLIENT_STATE where
  "sample_state = \<lparr>now = 1000, projects = [0], proj = (\<lambda>_. sample_project), results = [0],
     res = (\<lambda>_. sample_result), active_tasks = [], task = (\<lambda>_. sample_task),
     app_versions = [0],
     appver = (\<lambda>_. \<lparr>av_version_num = 1, av_avg_ncpus = 1, av_max_ncpus = 1, av_flops = 1000,
       av_duration_correction_factor = 1, av_project = 0, av_app_files = [],
       av_app = 0, av_plan_class = [], av_ref_cnt = 0, av_app_name = [], av_platform = [],
       av_api_version = [], av_cmdline = [], av_graphics_exec_path = []\<rparr>),
     workunits = [0],
     wunit = (\<lambda>_. \<lparr>wu_name = [], wu_input_files = [], wu_project = 0,
       wu_rsc_fpops_est = 1000000, wu_rsc_fpops_bound = 10000000,
       wu_rsc_memory_bound = 0, wu_rsc_disk_bound = 0, wu_ref_cnt = 0, wu_app_name = [],
       wu_app = 0, wu_version_num = 1, wu_command_line = []\<rparr>),
     file_infos = [], finfo = (\<lambda>_. sample_file_info), pers_file_xfers = [],
     pxfer = (\<lambda>_. sample_pfx), file_xfers = [], fxfer = (\<lambda>_. sample_fx),
     host_info = \<lparr>hi_p_ncpus = 2, hi_p_fpops = 1000, hi_m_nbytes = 1000000, hi_m_swap = 0,
       hi_p_iops = 1000, hi_p_membw = 1000, hi_p_calculated = 1, hi_m_cache = 1000, hi_host_cpid = [],
       hi_d_total = 1000000, hi_d_free = 500000\<rparr>,
     global_prefs = sample_prefs, config = sample_config, time_stats = sample_time_stats,
     net_status = \<lparr>ns_need_to_contact_reference_site = False, ns_show_ref_message = False,
       ns_need_physical_connection = False, ns_have_sporadic_connection = False,
       ns_last_comm_time = 0\<rparr>,
     run_mode = \<lparr>perm_mode = 0, temp_mode = 0, temp_timeout = 0\<rparr>,
     network_mode = \<lparr>perm_mode = 0, temp_mode = 0, temp_timeout = 0\<rparr>,
     ncpus = 2, user_active = False, initialized = True, run_cpu_benchmarks = False,
     client_state_dirty = False, network_suspended = False, exit_before_upload = False,
     file_xfer_giveup_period = 1209600, pers_retry_delay_min = 60,
     pers_retry_delay_max = 14400, app_started = 0, retry_shmem_time = 0,
     debt_interval_start = 0, total_wall_cpu_time_this_debt_interval = 0,
     total_cpu_time_this_debt_interval = 0, cpu_shortfall = 0,
     must_enforce_cpu_schedule = False, must_schedule_cpus = False,
     must_check_work_fetch = False, ordered_scheduled_results = [],
     overall_work_fetch_urgency = WORK_FETCH_DONT_NEED, last_reschedule = 0,
     enforce_last_time = 0, work_fetch_last_time = 0, pfx_poll_last_time = 0,
     hpfx_last_time = 0, disk_check_last_time = 0, fx_poll_last_time = 0, finished_apps_last_time = 0,
     update_results_last_time = 0, garbage_collect_last_time = 0, fx_up_active = False,
     fx_down_active = False, network_suspend_reason = 0, last_wakeup_time = 0,
     sched_poll_last_time = 0, contacted_sched_server = False, exit_when_idle = False,
     use_sandbox = False, master_fetch_period = 10, retry_cap = 10,
     master_fetch_retry_cap = 3, master_fetch_interval = 86400, sched_retry_delay_min = 60,
     sched_retry_delay_max = 14400,
     sched_op = \<lparr>so_state = SCHEDULER_OP_STATE_IDLE, so_cur_proj = None, so_url_index = 0,
       so_reason = NO_RPC_REASON, so_url_random = 0, so_scheduler_url = [],
       so_http_op_state = 0, so_http_op_retval = 0\<rparr>,
     rand_src = (\<lambda>_. 1/2), rand_pos = 0, log_cpu_sched_debug = False, apps = [0],
     appl = (\<lambda>_. \<lparr>app_name = [], app_user_friendly_name = [], app_project = 0\<rparr>),
     platforms = [[]], main_host_venue = [],
     suspension = \<lparr>client_start_time = 0, tasks_suspended = False, suspend_reason = 0, last_suspend_reason = 0,
       tasks_restarted = True, throttle_last_time = 0, throttle_debt = 0, last_mem_time = 0\<rparr>,
     bench = \<lparr>bm_state = 0, benchmarks_running = False, cpu_benchmarks_start = 0, bm_ncpus = 0, benchmark_descs = [],
       bm_last_time = 0, cpu_benchmarks_pending = False, skip_cpu_benchmarks = False\<rparr>,
     net_stats = \<lparr>net_up = \<lparr>ni_max_rate = 0, ni_avg_rate = 0, ni_avg_time = 0\<rparr>,
       net_down = \<lparr>ni_max_rate = 0, ni_avg_rate = 0, ni_avg_time = 0\<rparr>\<rparr>,
     lookup_website_error = 0, gui_http_busy = False, active_poll_last_time = 0\<rparr>"

lemmas sample_defs =
  sample_state_def sample_project_def sample_result_def sample_task_def sample_prefs_def sample_times_def
  sample_config_def sample_time_stats_def sample_rr_status_def sample_file_info_def
  sample_pfx_def sample_fx_def

end
