(* ===== verification/Work_Status.thy ===== *)
theory Work_Status
  imports Client_Types
begin

text \<open>
  The predicates and estimates the CPU scheduler and the work-fetch policy read:
  which results and projects are runnable, downloading or contactable, how long a
  result will take, and the resource shares of sets of projects
  (\<open>client/work_fetch.C\<close>, \<open>client/cpu_sched.C\<close>, \<open>client/client_types.C\<close>,
  \<open>client/cs_prefs.C\<close>, \<open>lib/prefs.C\<close>, \<open>lib/util.h\<close>).
\<close>

section \<open>Preferences and host\<close>

definition cpu_scheduling_period :: "CLIENT_STATE \<Rightarrow> real" where
  "cpu_scheduling_period s = gp_cpu_scheduling_period_minutes (global_prefs s) * 60"

definition work_buf_min :: "CLIENT_STATE \<Rightarrow> real" where
  "work_buf_min s = gp_work_buf_min_days (global_prefs s) * 86400"

definition work_buf_additional :: "CLIENT_STATE \<Rightarrow> real" where
  "work_buf_additional s = gp_work_buf_additional_days (global_prefs s) * 86400"

definition work_buf_total :: "CLIENT_STATE \<Rightarrow> real" where
  "work_buf_total s =
     (let x = work_buf_min s + work_buf_additional s in if x < 1 then 1 else x)"

definition available_ram :: "CLIENT_STATE \<Rightarrow> real" where
  "available_ram s =
     (if user_active s then hi_m_nbytes (host_info s) * gp_ram_max_used_busy_frac (global_prefs s)
      else hi_m_nbytes (host_info s) * gp_ram_max_used_idle_frac (global_prefs s))"

definition max_available_ram :: "CLIENT_STATE \<Rightarrow> real" where
  "max_available_ram s =
     hi_m_nbytes (host_info s) *
       max (gp_ram_max_used_busy_frac (global_prefs s)) (gp_ram_max_used_idle_frac (global_prefs s))"

text \<open>C's conversion of a double to \<open>int\<close> truncates towards zero.\<close>

definition trunc_int :: "real \<Rightarrow> int" where
  "trunc_int x = (if 0 \<le> x then \<lfloor>x\<rfloor> else \<lceil>x\<rceil>)"

definition GetMaxCPUs :: "GLOBAL_PREFS \<Rightarrow> int \<Rightarrow> int" where
  "GetMaxCPUs gp availableCPUs =
     (let n = (if gp_max_ncpus_pct gp > 0
               then trunc_int (real_of_int availableCPUs * gp_max_ncpus_pct gp / 100)
               else if gp_max_cpus gp < availableCPUs then gp_max_cpus gp
               else availableCPUs)
      in if n < 1 then 1 else n)"

definition overall_cpu_frac :: "CLIENT_STATE \<Rightarrow> real" where
  "overall_cpu_frac s =
     (let f = ts_on_frac (time_stats s) * ts_active_frac (time_stats s)
              * ts_cpu_efficiency (time_stats s);
          f' = (if f < 1/100 then 1/100 else f)
      in if f' > 1 then 1 else f')"

definition avg_proc_rate :: "CLIENT_STATE \<Rightarrow> real" where
  "avg_proc_rate s = real_of_int (ncpus s) * overall_cpu_frac s"

section \<open>Results\<close>

definition lookup_active_task_by_result :: "CLIENT_STATE \<Rightarrow> rid \<Rightarrow> aid option" where
  "lookup_active_task_by_result s r = List.find (\<lambda>a. at_result (task s a) = r) (active_tasks s)"

definition computing_done :: "CLIENT_STATE \<Rightarrow> rid \<Rightarrow> bool" where
  "computing_done s r =
     (r_state (res s r) \<ge> RESULT_COMPUTE_ERROR \<or> r_ready_to_report (res s r))"

definition not_started :: "CLIENT_STATE \<Rightarrow> rid \<Rightarrow> bool" where
  "not_started s r = (\<not> computing_done s r \<and> lookup_active_task_by_result s r = None)"

definition result_runnable :: "CLIENT_STATE \<Rightarrow> rid \<Rightarrow> bool" where
  "result_runnable s r =
     (\<not> r_suspended_via_gui (res s r)
      \<and> \<not> p_suspended_via_gui (proj s (r_project (res s r)))
      \<and> r_state (res s r) = RESULT_FILES_DOWNLOADED)"

definition result_downloading :: "CLIENT_STATE \<Rightarrow> rid \<Rightarrow> bool" where
  "result_downloading s r =
     (\<not> r_suspended_via_gui (res s r)
      \<and> \<not> p_suspended_via_gui (proj s (r_project (res s r)))
      \<and> \<not> r_state (res s r) > RESULT_FILES_DOWNLOADING)"

definition result_nearly_runnable :: "CLIENT_STATE \<Rightarrow> rid \<Rightarrow> bool" where
  "result_nearly_runnable s r = (result_runnable s r \<or> result_downloading s r)"

definition interpolate :: "real \<Rightarrow> real \<Rightarrow> real \<Rightarrow> real" where
  "interpolate a b f = a * (1 - f) + b * f"

definition estimated_cpu_time_uncorrected :: "CLIENT_STATE \<Rightarrow> rid \<Rightarrow> real" where
  "estimated_cpu_time_uncorrected s r =
     wu_rsc_fpops_est (wunit s (r_wup (res s r))) / hi_p_fpops (host_info s)"

definition estimated_cpu_time :: "CLIENT_STATE \<Rightarrow> rid \<Rightarrow> real" where
  "estimated_cpu_time s r =
     estimated_cpu_time_uncorrected s r
     * av_duration_correction_factor (appver s (r_avp (res s r)))"

definition est_cpu_time_to_completion :: "CLIENT_STATE \<Rightarrow> aid \<Rightarrow> real" where
  "est_cpu_time_to_completion s a =
     (let t = task s a; fd = at_fraction_done t in
      if fd \<ge> 1 then 0
      else let wu_est_total = estimated_cpu_time s (at_result t) in
        if fd \<le> 0 then wu_est_total
        else let fraction_left = 1 - fd;
                 frac_est_remain = at_current_cpu_time t / fd - at_current_cpu_time t;
                 wu_est_remain = wu_est_total * fraction_left
             in interpolate wu_est_remain frac_est_remain fd)"

definition estimated_cpu_time_remaining :: "CLIENT_STATE \<Rightarrow> rid \<Rightarrow> real" where
  "estimated_cpu_time_remaining s r =
     (if computing_done s r then 0
      else case lookup_active_task_by_result s r of
        Some a \<Rightarrow> est_cpu_time_to_completion s a
      | None \<Rightarrow> estimated_cpu_time s r)"

definition computation_deadline :: "CLIENT_STATE \<Rightarrow> rid \<Rightarrow> real" where
  "computation_deadline s r =
     r_report_deadline (res s r) - (work_buf_min s + cpu_scheduling_period s + 0)"

text \<open>A file reference is stalled when its download exists and is backed off.\<close>

definition file_ref_stalled :: "CLIENT_STATE \<Rightarrow> FILE_REF \<Rightarrow> bool" where
  "file_ref_stalled s fr =
     (case fi_pers_file_xfer (finfo s (fr_file_info fr)) of
        None \<Rightarrow> False
      | Some x \<Rightarrow> pfx_next_request_time (pxfer s x) > now s)"

definition result_some_download_stalled :: "CLIENT_STATE \<Rightarrow> rid \<Rightarrow> bool" where
  "result_some_download_stalled s r =
     (list_ex (file_ref_stalled s) (wu_input_files (wunit s (r_wup (res s r))))
      \<or> list_ex (file_ref_stalled s) (av_app_files (appver s (r_avp (res s r)))))"

section \<open>Projects\<close>

definition project_runnable :: "CLIENT_STATE \<Rightarrow> pid \<Rightarrow> bool" where
  "project_runnable s p =
     (\<not> p_suspended_via_gui (proj s p)
      \<and> list_ex (\<lambda>r. r_project (res s r) = p \<and> result_runnable s r) (results s))"

definition project_downloading :: "CLIENT_STATE \<Rightarrow> pid \<Rightarrow> bool" where
  "project_downloading s p =
     (\<not> p_suspended_via_gui (proj s p)
      \<and> list_ex (\<lambda>r. r_project (res s r) = p \<and> result_downloading s r) (results s))"

definition some_result_suspended :: "CLIENT_STATE \<Rightarrow> pid \<Rightarrow> bool" where
  "some_result_suspended s p =
     list_ex (\<lambda>r. r_project (res s r) = p \<and> r_suspended_via_gui (res s r)) (results s)"

definition contactable :: "CLIENT_STATE \<Rightarrow> pid \<Rightarrow> bool" where
  "contactable s p =
     (\<not> p_suspended_via_gui (proj s p)
      \<and> \<not> p_master_url_fetch_pending (proj s p)
      \<and> \<not> p_min_rpc_time (proj s p) > now s
      \<and> \<not> p_dont_request_more_work (proj s p))"

definition potentially_runnable :: "CLIENT_STATE \<Rightarrow> pid \<Rightarrow> bool" where
  "potentially_runnable s p =
     (project_runnable s p \<or> contactable s p \<or> project_downloading s p)"

definition nearly_runnable :: "CLIENT_STATE \<Rightarrow> pid \<Rightarrow> bool" where
  "nearly_runnable s p = (project_runnable s p \<or> project_downloading s p)"

definition overworked :: "CLIENT_STATE \<Rightarrow> pid \<Rightarrow> bool" where
  "overworked s p = (p_long_term_debt (proj s p) < - cpu_scheduling_period s)"

definition project_some_download_stalled :: "CLIENT_STATE \<Rightarrow> pid \<Rightarrow> bool" where
  "project_some_download_stalled s p =
     list_ex (\<lambda>x. fi_project (finfo s (pfx_fip (pxfer s x))) = p
                 \<and> \<not> pfx_is_upload (pxfer s x)
                 \<and> pfx_next_request_time (pxfer s x) > now s) (pers_file_xfers s)"

section \<open>Resource shares\<close>

definition total_resource_share :: "CLIENT_STATE \<Rightarrow> real" where
  "total_resource_share s =
     fold (\<lambda>p x. if \<not> p_non_cpu_intensive (proj s p) then x + p_resource_share (proj s p) else x)
       (projects s) 0"

definition runnable_resource_share :: "CLIENT_STATE \<Rightarrow> real" where
  "runnable_resource_share s =
     fold (\<lambda>p x. if p_non_cpu_intensive (proj s p) then x
                 else if project_runnable s p then x + p_resource_share (proj s p) else x)
       (projects s) 0"

definition potentially_runnable_resource_share :: "CLIENT_STATE \<Rightarrow> real" where
  "potentially_runnable_resource_share s =
     fold (\<lambda>p x. if p_non_cpu_intensive (proj s p) then x
                 else if potentially_runnable s p then x + p_resource_share (proj s p) else x)
       (projects s) 0"

definition fetchable_resource_share :: "CLIENT_STATE \<Rightarrow> real" where
  "fetchable_resource_share s =
     fold (\<lambda>p x. if p_non_cpu_intensive (proj s p) then x
                 else if p_long_term_debt (proj s p) < - cpu_scheduling_period s then x
                 else if contactable s p then x + p_resource_share (proj s p) else x)
       (projects s) 0"

definition nearly_runnable_resource_share :: "CLIENT_STATE \<Rightarrow> real" where
  "nearly_runnable_resource_share s =
     fold (\<lambda>p x. if p_non_cpu_intensive (proj s p) then x
                 else if nearly_runnable s p then x + p_resource_share (proj s p) else x)
       (projects s) 0"

section \<open>What the predicates depend on\<close>

text \<open>
  The predicates above read only part of the state. \<open>status_view\<close> is that part;
  an operation that keeps it keeps every predicate and every share, which the locale
  \<open>status_preserving\<close> states once for all the scheduler's operations.
\<close>

definition status_view where
  "status_view s =
     (now s, projects s, results s,
      (\<lambda>r. (r_project (res s r), r_suspended_via_gui (res s r), r_state (res s r))),
      (\<lambda>p. (p_suspended_via_gui (proj s p), p_master_url_fetch_pending (proj s p),
            p_min_rpc_time (proj s p), p_dont_request_more_work (proj s p),
            p_non_cpu_intensive (proj s p), p_resource_share (proj s p))))"

lemma status_viewD:
  assumes "status_view s = status_view t"
  shows "now s = now t" "projects s = projects t" "results s = results t"
    "r_project (res s r) = r_project (res t r)"
    "r_suspended_via_gui (res s r) = r_suspended_via_gui (res t r)"
    "r_state (res s r) = r_state (res t r)"
    "p_suspended_via_gui (proj s p) = p_suspended_via_gui (proj t p)"
    "p_master_url_fetch_pending (proj s p) = p_master_url_fetch_pending (proj t p)"
    "p_min_rpc_time (proj s p) = p_min_rpc_time (proj t p)"
    "p_dont_request_more_work (proj s p) = p_dont_request_more_work (proj t p)"
    "p_non_cpu_intensive (proj s p) = p_non_cpu_intensive (proj t p)"
    "p_resource_share (proj s p) = p_resource_share (proj t p)"
  using assms by (auto simp: status_view_def fun_eq_iff)

lemma status_view_preds:
  assumes "status_view s = status_view t"
  shows "result_runnable s r = result_runnable t r"
    "result_downloading s r = result_downloading t r"
    "result_nearly_runnable s r = result_nearly_runnable t r"
    "project_runnable s p = project_runnable t p"
    "project_downloading s p = project_downloading t p"
    "some_result_suspended s p = some_result_suspended t p"
    "contactable s p = contactable t p"
    "potentially_runnable s p = potentially_runnable t p"
    "nearly_runnable s p = nearly_runnable t p"
proof -
  note v = status_viewD [OF assms]
  show r: "result_runnable s r = result_runnable t r" for r
    by (simp add: result_runnable_def v)
  show d: "result_downloading s r = result_downloading t r" for r
    by (simp add: result_downloading_def v)
  show "result_nearly_runnable s r = result_nearly_runnable t r"
    by (simp add: result_nearly_runnable_def r d)
  show pr: "project_runnable s p = project_runnable t p"
    by (simp add: project_runnable_def v r)
  show pd: "project_downloading s p = project_downloading t p"
    by (simp add: project_downloading_def v d)
  show "some_result_suspended s p = some_result_suspended t p"
    by (simp add: some_result_suspended_def v)
  show c: "contactable s p = contactable t p"
    by (simp add: contactable_def v)
  show "potentially_runnable s p = potentially_runnable t p"
    by (simp add: potentially_runnable_def pr pd c)
  show "nearly_runnable s p = nearly_runnable t p"
    by (simp add: nearly_runnable_def pr pd)
qed

lemma status_view_shares:
  assumes "status_view s = status_view t"
  shows "total_resource_share s = total_resource_share t"
    "runnable_resource_share s = runnable_resource_share t"
    "potentially_runnable_resource_share s = potentially_runnable_resource_share t"
    "nearly_runnable_resource_share s = nearly_runnable_resource_share t"
  by (simp_all add: total_resource_share_def runnable_resource_share_def
      potentially_runnable_resource_share_def nearly_runnable_resource_share_def
      status_viewD [OF assms] status_view_preds [OF assms] cong: if_cong)

locale status_preserving =
  fixes f :: "CLIENT_STATE \<Rightarrow> CLIENT_STATE"
  assumes keeps_view: "status_view (f s) = status_view s"
begin

lemmas keeps_fields = status_viewD [OF keeps_view]
lemmas keeps_preds = status_view_preds [OF keeps_view]
lemmas keeps_shares = status_view_shares [OF keeps_view]

lemma keeps_view_funpow: "status_view ((f ^^ n) s) = status_view s"
  by (induction n) (simp_all add: keeps_view)

end

lemma fold_status_view:
  assumes "\<And>x s. x \<in> set xs \<Longrightarrow> status_view (f x s) = status_view s"
  shows "status_view (fold f xs s) = status_view s"
  using assms by (rule fold_frame)

lemma status_view_upd_proj:
  assumes "p_suspended_via_gui (f (proj s p)) = p_suspended_via_gui (proj s p)"
    "p_master_url_fetch_pending (f (proj s p)) = p_master_url_fetch_pending (proj s p)"
    "p_min_rpc_time (f (proj s p)) = p_min_rpc_time (proj s p)"
    "p_dont_request_more_work (f (proj s p)) = p_dont_request_more_work (proj s p)"
    "p_non_cpu_intensive (f (proj s p)) = p_non_cpu_intensive (proj s p)"
    "p_resource_share (f (proj s p)) = p_resource_share (proj s p)"
  shows "status_view (upd_proj p f s) = status_view s"
  using assms by (auto simp: status_view_def upd_proj_def fun_eq_iff)

lemma status_view_upd_res:
  assumes "r_project (f (res s r)) = r_project (res s r)"
    "r_suspended_via_gui (f (res s r)) = r_suspended_via_gui (res s r)"
    "r_state (f (res s r)) = r_state (res s r)"
  shows "status_view (upd_res r f s) = status_view s"
  using assms by (auto simp: status_view_def upd_res_def fun_eq_iff)

lemma status_view_upd_task: "status_view (upd_task a f s) = status_view s"
  by (simp add: status_view_def upd_task_def)

section \<open>Bounds on the estimates and shares\<close>

lemma overall_cpu_frac_bounds:
  "1/100 \<le> overall_cpu_frac s \<and> overall_cpu_frac s \<le> 1"
  by (auto simp: overall_cpu_frac_def Let_def)

lemma work_buf_total_ge_1: "1 \<le> work_buf_total s"
  by (simp add: work_buf_total_def Let_def)

lemma runnable_not_downloading: "result_runnable s r \<Longrightarrow> \<not> result_downloading s r"
  by (simp add: result_runnable_def result_downloading_def)

lemma share_fold_as_sum:
  "fold (\<lambda>p x. if p_non_cpu_intensive (proj s p) then x
               else if Q p then x + p_resource_share (proj s p) else x) ps 0
   = sum_list (map (\<lambda>p. p_resource_share (proj s p))
       (filter (\<lambda>p. \<not> p_non_cpu_intensive (proj s p) \<and> Q p) ps))"
proof -
  have "(\<lambda>p x. if p_non_cpu_intensive (proj s p) then x
               else if Q p then x + p_resource_share (proj s p) else x)
      = (\<lambda>p x. if \<not> p_non_cpu_intensive (proj s p) \<and> Q p
               then x + p_resource_share (proj s p) else x)"
    by (auto simp: fun_eq_iff)
  then show ?thesis by (simp only: fold_cond_plus_sum_list add_0)
qed

lemmas shares_as_sums =
  runnable_resource_share_def [unfolded share_fold_as_sum]
  potentially_runnable_resource_share_def [unfolded share_fold_as_sum]
  nearly_runnable_resource_share_def [unfolded share_fold_as_sum]

lemma total_share_as_sum:
  "total_resource_share s =
     sum_list (map (\<lambda>p. p_resource_share (proj s p))
       (filter (\<lambda>p. \<not> p_non_cpu_intensive (proj s p)) (projects s)))"
  by (simp add: total_resource_share_def fold_cond_plus_sum_list)

lemma interpolate_between:
  assumes "0 \<le> f" "f \<le> 1" "lo \<le> a" "lo \<le> b" "a \<le> hi" "b \<le> hi"
  shows "lo \<le> interpolate a b f \<and> interpolate a b f \<le> hi"
proof -
  have "lo = lo * (1 - f) + lo * f" "hi = hi * (1 - f) + hi * f"
    by (simp_all add: algebra_simps)
  moreover have "lo * (1 - f) \<le> a * (1 - f)" "a * (1 - f) \<le> hi * (1 - f)"
    "lo * f \<le> b * f" "b * f \<le> hi * f"
    using assms by (auto intro: mult_right_mono)
  ultimately show ?thesis unfolding interpolate_def by linarith
qed

end
