(* ===== verification/Debt_Accounting.thy ===== *)
theory Debt_Accounting
  imports Work_Status
begin

text \<open>
  Debt accounting (\<open>client/cpu_sched.C\<close>, \<open>client/time_stats.C\<close>, \<open>client/work_fetch.C\<close>):
  how much CPU time the client owes each project. \<open>adjust_debts\<close> closes a debt
  interval, charges each project for the CPU time its tasks held, credits it with its
  share, and normalises the debts.
\<close>

section \<open>Operations\<close>

definition update_cpu_efficiency :: "real \<Rightarrow> real \<Rightarrow> TIME_STATS \<Rightarrow> TIME_STATS" where
  "update_cpu_efficiency cpu_wall_time cpu_time ts =
     (if cpu_wall_time < 1/100 then ts
      else let w = exp (- cpu_wall_time / SECONDS_PER_DAY); e = cpu_time / cpu_wall_time in
        if e < 0 then ts
        else ts\<lparr>ts_cpu_efficiency := w * ts_cpu_efficiency ts + (1 - w) * e\<rparr>)"

definition reset_debt_accounting :: "CLIENT_STATE \<Rightarrow> CLIENT_STATE" where
  "reset_debt_accounting s =
     (let s1 = fold (\<lambda>p. upd_proj p (\<lambda>x. x\<lparr>p_wall_cpu_time_this_debt_interval := 0\<rparr>))
                 (projects s) s;
          s2 = fold (\<lambda>a. upd_task a
                 (\<lambda>t. t\<lparr>at_debt_interval_start_cpu_time := at_current_cpu_time t\<rparr>))
                 (active_tasks s1) s1
      in s2\<lparr>total_wall_cpu_time_this_debt_interval := 0,
            total_cpu_time_this_debt_interval := 0,
            debt_interval_start := now s2\<rparr>)"

text \<open>The loop over the active tasks: total up the wall CPU time since the last call.\<close>

definition charge_task :: "real \<Rightarrow> aid \<Rightarrow> CLIENT_STATE \<Rightarrow> CLIENT_STATE" where
  "charge_task wall_cpu_time a s =
     (let t = task s a in
      if at_scheduler_state t \<noteq> CPU_SCHED_SCHEDULED then s
      else if p_non_cpu_intensive (proj s (wu_project (wunit s (at_wup t)))) then s
      else (upd_proj (r_project (res s (at_result t)))
              (\<lambda>x. x\<lparr>p_wall_cpu_time_this_debt_interval :=
                       p_wall_cpu_time_this_debt_interval x + wall_cpu_time\<rparr>) s)
           \<lparr>total_wall_cpu_time_this_debt_interval :=
              total_wall_cpu_time_this_debt_interval s + wall_cpu_time,
            total_cpu_time_this_debt_interval :=
              total_cpu_time_this_debt_interval s
              + (at_current_cpu_time t - at_debt_interval_start_cpu_time t)\<rparr>)"

text \<open>The running totals of the second loop over the projects.\<close>

record debt_totals =
  total_long_term_debt :: real
  total_short_term_debt :: real
  nprojects :: nat
  nrprojects :: nat

definition credit_project ::
  "real \<Rightarrow> real \<Rightarrow> pid \<Rightarrow> CLIENT_STATE \<times> debt_totals \<Rightarrow> CLIENT_STATE \<times> debt_totals" where
  "credit_project prrs rrs p st =
     (case st of (s, d) \<Rightarrow>
      if p_non_cpu_intensive (proj s p) then (s, d)
      else let
        twall = total_wall_cpu_time_this_debt_interval s;
        wall = p_wall_cpu_time_this_debt_interval (proj s p);
        s1 = (if potentially_runnable s p \<or> wall \<noteq> 0
              then upd_proj p (\<lambda>x. x\<lparr>p_long_term_debt :=
                     p_long_term_debt x + (p_resource_share x / prrs * twall - wall)\<rparr>) s
              else s);
        d1 = d\<lparr>nprojects := nprojects d + 1,
               total_long_term_debt := total_long_term_debt d + p_long_term_debt (proj s1 p)\<rparr>
      in if project_runnable s1 p
         then let s2 = upd_proj p (\<lambda>x. x\<lparr>p_short_term_debt :=
                         p_short_term_debt x + (p_resource_share x / rrs * twall - wall)\<rparr>) s1
              in (s2, d1\<lparr>nrprojects := nrprojects d1 + 1,
                         total_short_term_debt :=
                           total_short_term_debt d1 + p_short_term_debt (proj s2 p)\<rparr>)
         else (upd_proj p (\<lambda>x. x\<lparr>p_short_term_debt := 0, p_anticipated_debt := 0\<rparr>) s1, d1))"

definition clamp_std :: "real \<Rightarrow> real" where
  "clamp_std x = (let y = (if x > MAX_STD then MAX_STD else x)
                  in if y < - MAX_STD then - MAX_STD else y)"

definition normalize_project ::
  "real \<Rightarrow> real \<Rightarrow> pid \<Rightarrow> CLIENT_STATE \<Rightarrow> CLIENT_STATE" where
  "normalize_project avg_long_term_debt avg_short_term_debt p s =
     (if p_non_cpu_intensive (proj s p) then s
      else let s1 = (if project_runnable s p
                     then upd_proj p (\<lambda>x. x\<lparr>p_short_term_debt :=
                            clamp_std (p_short_term_debt x - avg_short_term_debt)\<rparr>) s
                     else s)
           in upd_proj p (\<lambda>x. x\<lparr>p_long_term_debt :=
                p_long_term_debt x - avg_long_term_debt\<rparr>) s1)"

definition adjust_debts :: "CLIENT_STATE \<Rightarrow> CLIENT_STATE" where
  "adjust_debts s =
     (let wall_cpu_time = now s - debt_interval_start s in
      if wall_cpu_time < 1 then s
      else if wall_cpu_time > cpu_scheduling_period s * 2 then reset_debt_accounting s
      else let
        s1 = fold (charge_task wall_cpu_time) (active_tasks s) s;
        s2 = s1\<lparr>time_stats := update_cpu_efficiency (total_wall_cpu_time_this_debt_interval s1)
                               (total_cpu_time_this_debt_interval s1) (time_stats s1)\<rparr>;
        rrs = runnable_resource_share s2;
        prrs = fold (\<lambda>p x. if \<not> potentially_runnable s2 p
                               \<and> p_wall_cpu_time_this_debt_interval (proj s2 p) \<noteq> 0
                            then x + p_resource_share (proj s2 p) else x)
                 (projects s2) (potentially_runnable_resource_share s2);
        (s3, d) = fold (credit_project prrs rrs) (projects s2)
                    (s2, \<lparr>total_long_term_debt = 0, total_short_term_debt = 0,
                          nprojects = 0, nrprojects = 0\<rparr>)
      in if nprojects d = 0 then s3
         else let
           avg_long_term_debt = total_long_term_debt d / real (nprojects d);
           avg_short_term_debt =
             (if nrprojects d \<noteq> 0 then total_short_term_debt d / real (nrprojects d) else 0);
           s4 = fold (normalize_project avg_long_term_debt avg_short_term_debt) (projects s3) s3
         in reset_debt_accounting s4)"

definition zero_debts_if_requested :: "CLIENT_STATE \<Rightarrow> CLIENT_STATE" where
  "zero_debts_if_requested s =
     (if \<not> cf_zero_debts (config s) then s
      else fold (\<lambda>p. upd_proj p (\<lambda>x. x\<lparr>p_short_term_debt := 0, p_long_term_debt := 0\<rparr>))
             (projects s) s)"

section \<open>The operations keep the status of results and projects\<close>

lemma view_totals [frame_simps]:
  "status_view (s\<lparr>total_wall_cpu_time_this_debt_interval := a\<rparr>) = status_view s"
  "status_view (s\<lparr>total_cpu_time_this_debt_interval := b\<rparr>) = status_view s"
  "status_view (s\<lparr>debt_interval_start := c\<rparr>) = status_view s"
  "status_view (s\<lparr>time_stats := ts\<rparr>) = status_view s"
  by (simp_all add: status_view_def)

lemma view_reset_debt_accounting [frame_simps]:
  "status_view (reset_debt_accounting s) = status_view s"
proof -
  have 1: "status_view (fold (\<lambda>p. upd_proj p (\<lambda>x. x\<lparr>p_wall_cpu_time_this_debt_interval := 0\<rparr>))
             ps s) = status_view s" for ps s
    by (rule fold_status_view) (simp add: status_view_upd_proj)
  have 2: "status_view (fold (\<lambda>a. upd_task a (g a)) as s) = status_view s" for g as s
    by (rule fold_status_view) (simp add: status_view_upd_task)
  show ?thesis
    by (simp add: reset_debt_accounting_def Let_def frame_simps 1 2)
qed

lemma view_charge_task [frame_simps]: "status_view (charge_task w a s) = status_view s"
  by (simp add: charge_task_def Let_def frame_simps status_view_upd_proj)

lemma view_credit_project [frame_simps]:
  "status_view (fst (credit_project prrs rrs p st)) = status_view (fst st)"
  by (simp add: credit_project_def Let_def status_view_upd_proj split: prod.split)

lemma view_normalize_project [frame_simps]:
  "status_view (normalize_project al as p s) = status_view s"
  by (simp add: normalize_project_def Let_def status_view_upd_proj)

lemma view_adjust_debts: "status_view (adjust_debts s) = status_view s"
proof -
  have c: "status_view (fold (charge_task w) as s) = status_view s" for w as s
    by (rule fold_status_view) (simp add: frame_simps)
  have n: "status_view (fold (normalize_project al as) ps s) = status_view s" for al as ps s
    by (rule fold_status_view) (simp add: frame_simps)
  have k: "status_view (fst (fold (credit_project prrs rrs) ps st)) = status_view (fst st)"
    for prrs rrs ps st
    using fold_frame [of ps "\<lambda>st. status_view (fst st)" "credit_project prrs rrs" st]
    by (simp add: frame_simps)
  have k': "fold (credit_project prrs rrs) ps (t, d) = (u, d') \<Longrightarrow> status_view u = status_view t"
    for prrs rrs ps t d u d'
    using k [of prrs rrs ps "(t, d)"] by simp
  show ?thesis
    by (auto simp: adjust_debts_def Let_def frame_simps c n dest!: k' split: prod.split)
qed

interpretation adjust: status_preserving adjust_debts
  by unfold_locales (rule view_adjust_debts)

interpretation reset_debt: status_preserving reset_debt_accounting
  by unfold_locales (rule view_reset_debt_accounting)

section \<open>The effect of the loops on one project\<close>

text \<open>The loops visit every project once; \<open>credited\<close> and \<open>normalized\<close> are their bodies
  as functions of the one object they write.\<close>

definition credited ::
  "real \<Rightarrow> real \<Rightarrow> real \<Rightarrow> bool \<Rightarrow> bool \<Rightarrow> PROJECT \<Rightarrow> PROJECT" where
  "credited prrs rrs twall pr r x =
     (if p_non_cpu_intensive x then x
      else let
        wall = p_wall_cpu_time_this_debt_interval x;
        x1 = (if pr \<or> wall \<noteq> 0
              then x\<lparr>p_long_term_debt := p_long_term_debt x + (p_resource_share x / prrs * twall - wall)\<rparr>
              else x)
      in if r then x1\<lparr>p_short_term_debt :=
                     p_short_term_debt x1 + (p_resource_share x1 / rrs * twall - wall)\<rparr>
         else x1\<lparr>p_short_term_debt := 0, p_anticipated_debt := 0\<rparr>)"

definition normalized :: "real \<Rightarrow> real \<Rightarrow> bool \<Rightarrow> PROJECT \<Rightarrow> PROJECT" where
  "normalized al as r x =
     (if p_non_cpu_intensive x then x
      else (if r then x\<lparr>p_short_term_debt := clamp_std (p_short_term_debt x - as)\<rparr> else x)
           \<lparr>p_long_term_debt := p_long_term_debt x - al\<rparr>)"

definition debt_view where
  "debt_view s = (status_view s, total_wall_cpu_time_this_debt_interval s)"

lemma credit_project_cell:
  assumes "debt_view (fst st) = debt_view s0"
  shows "debt_view (fst (credit_project prrs rrs p st)) = debt_view s0"
    "proj (fst (credit_project prrs rrs p st)) q =
      (if q = p then credited prrs rrs (total_wall_cpu_time_this_debt_interval s0)
         (potentially_runnable s0 p) (project_runnable s0 p) (proj (fst st) p)
       else proj (fst st) q)"
proof -
  obtain s d where st: "st = (s, d)" by (cases st)
  have v: "status_view s = status_view s0"
    and t: "total_wall_cpu_time_this_debt_interval s = total_wall_cpu_time_this_debt_interval s0"
    using assms st by (auto simp: debt_view_def)
  have pr: "potentially_runnable s p = potentially_runnable s0 p"
    by (rule status_view_preds(8) [OF v])
  have r: "project_runnable (upd_proj p (\<lambda>x. x\<lparr>p_long_term_debt := f x\<rparr>) s) p
      = project_runnable s0 p" "project_runnable s p = project_runnable s0 p" for f
    by (rule status_view_preds(4), simp add: status_view_upd_proj v)+
  show "debt_view (fst (credit_project prrs rrs p st)) = debt_view s0"
    using view_credit_project [of prrs rrs p st] v t st
    by (simp add: debt_view_def credit_project_def Let_def upd_proj_def)
  show "proj (fst (credit_project prrs rrs p st)) q =
      (if q = p then credited prrs rrs (total_wall_cpu_time_this_debt_interval s0)
         (potentially_runnable s0 p) (project_runnable s0 p) (proj (fst st) p)
       else proj (fst st) q)"
    using t st
    by (simp add: credit_project_def credited_def Let_def pr r) (simp add: upd_proj_def)
qed

lemma credit_loop_cell:
  assumes "distinct ps"
  shows "proj (fst (fold (credit_project prrs rrs) ps (s, d))) q =
    (if q \<in> set ps
     then credited prrs rrs (total_wall_cpu_time_this_debt_interval s)
            (potentially_runnable s q) (project_runnable s q) (proj s q)
     else proj s q)"
proof -
  let ?h = "\<lambda>p. credited prrs rrs (total_wall_cpu_time_this_debt_interval s)
              (potentially_runnable s p) (project_runnable s p)"
  have "debt_view (fst (fold (credit_project prrs rrs) ps (s, d))) = debt_view s
    \<and> (\<forall>q. proj (fst (fold (credit_project prrs rrs) ps (s, d))) q =
          (if q \<in> set ps then ?h q (proj (fst (s, d)) q) else proj (fst (s, d)) q))"
    using assms
    by (intro fold_pointwise [where V = "\<lambda>st. debt_view (fst st)" and cell = "\<lambda>st. proj (fst st)"])
      (simp_all add: credit_project_cell)
  then show ?thesis by simp
qed

lemma normalize_loop_cell:
  assumes "distinct ps"
  shows "proj (fold (normalize_project al as) ps s) q =
    (if q \<in> set ps then normalized al as (project_runnable s q) (proj s q) else proj s q)"
proof -
  have "proj (normalize_project al as p u) q' =
      (if q' = p then normalized al as (project_runnable s p) (proj u p) else proj u q')"
    if "status_view u = status_view s" for p u q'
    using status_view_preds(4) [OF that, of p]
    by (simp add: normalize_project_def normalized_def Let_def upd_proj_def)
  then have "status_view (fold (normalize_project al as) ps s) = status_view s
    \<and> (\<forall>q. proj (fold (normalize_project al as) ps s) q =
         (if q \<in> set ps then normalized al as (project_runnable s q) (proj s q) else proj s q))"
    using assms
    by (intro fold_pointwise [where V = status_view and cell = proj])
      (simp_all add: frame_simps)
  then show ?thesis by simp
qed

lemma credited_frame [simp]:
  "p_non_cpu_intensive (credited prrs rrs tw pr r x) = p_non_cpu_intensive x"
  by (simp add: credited_def Let_def)

lemma credited_not_runnable:
  "\<not> p_non_cpu_intensive x \<Longrightarrow> p_short_term_debt (credited prrs rrs tw pr False x) = 0"
  by (simp add: credited_def Let_def)

lemma clamp_std_bounds: "- MAX_STD \<le> clamp_std x" "clamp_std x \<le> MAX_STD"
  by (simp_all add: clamp_std_def Let_def)

lemma normalized_simps [simp]:
  "p_non_cpu_intensive (normalized al as r x) = p_non_cpu_intensive x"
  "p_long_term_debt (normalized al as r x) =
     (if p_non_cpu_intensive x then p_long_term_debt x else p_long_term_debt x - al)"
  by (simp_all add: normalized_def)

lemma reset_debt_accounting_debts [frame_simps]:
  "p_long_term_debt (proj (reset_debt_accounting s) p) = p_long_term_debt (proj s p)"
  "p_short_term_debt (proj (reset_debt_accounting s) p) = p_short_term_debt (proj s p)"
proof -
  have t: "proj (fold (\<lambda>a. upd_task a (g a)) as s) = proj s" for g as s
    by (rule fold_frame) (simp add: upd_task_def)
  have w: "p_long_term_debt (proj (fold (\<lambda>p. upd_proj p
        (\<lambda>x. x\<lparr>p_wall_cpu_time_this_debt_interval := 0\<rparr>)) ps s) p) = p_long_term_debt (proj s p)"
    "p_short_term_debt (proj (fold (\<lambda>p. upd_proj p
        (\<lambda>x. x\<lparr>p_wall_cpu_time_this_debt_interval := 0\<rparr>)) ps s) p) = p_short_term_debt (proj s p)"
    for ps s
    by (rule fold_frame; simp add: upd_proj_def)+
  show "p_long_term_debt (proj (reset_debt_accounting s) p) = p_long_term_debt (proj s p)"
    "p_short_term_debt (proj (reset_debt_accounting s) p) = p_short_term_debt (proj s p)"
    by (simp_all add: reset_debt_accounting_def Let_def t w)
qed

section \<open>The totals of the second loop\<close>

lemma credit_totals_step:
  assumes "\<not> p_non_cpu_intensive (proj s p)"
  shows "total_long_term_debt (snd (credit_project prrs rrs p (s, d)))
      = total_long_term_debt d + p_long_term_debt (proj (fst (credit_project prrs rrs p (s, d))) p)"
    "nprojects (snd (credit_project prrs rrs p (s, d))) = Suc (nprojects d)"
  using assms by (simp_all add: credit_project_def Let_def upd_proj_def)

lemma credit_totals_skip:
  "p_non_cpu_intensive (proj s p) \<Longrightarrow> credit_project prrs rrs p (s, d) = (s, d)"
  by (simp add: credit_project_def)

abbreviation cpu_projects :: "CLIENT_STATE \<Rightarrow> pid list \<Rightarrow> pid list" where
  "cpu_projects s ps \<equiv> filter (\<lambda>p. \<not> p_non_cpu_intensive (proj s p)) ps"

lemma credit_loop_totals:
  assumes "distinct ps"
    and "fold (credit_project prrs rrs) ps (s, d) = (s', d')"
  shows "total_long_term_debt d' = total_long_term_debt d
      + sum_list (map (\<lambda>p. p_long_term_debt (proj s' p)) (cpu_projects s ps))
    \<and> nprojects d' = nprojects d + length (cpu_projects s ps)"
  using assms
proof (induction ps arbitrary: s d)
  case Nil
  then show ?case by simp
next
  case (Cons p ps)
  obtain s1 d1 where step: "credit_project prrs rrs p (s, d) = (s1, d1)"
    by (cases "credit_project prrs rrs p (s, d)")
  have rest: "fold (credit_project prrs rrs) ps (s1, d1) = (s', d')"
    using Cons.prems(2) step by simp
  have IH: "total_long_term_debt d' = total_long_term_debt d1
      + sum_list (map (\<lambda>p. p_long_term_debt (proj s' p)) (cpu_projects s1 ps))
    \<and> nprojects d' = nprojects d1 + length (cpu_projects s1 ps)"
    using Cons.IH [OF _ rest] Cons.prems(1) by simp
  have view: "status_view s1 = status_view s"
    using view_credit_project [of prrs rrs p "(s, d)"] step by simp
  have same: "cpu_projects s1 ps = cpu_projects s ps"
    by (simp add: status_viewD(11) [OF view])
  have "p \<notin> set ps" using Cons.prems(1) by simp
  then have p: "proj s' p = proj s1 p"
    using credit_loop_cell [of ps prrs rrs s1 d1 p] Cons.prems(1) rest by simp
  show ?case
  proof (cases "p_non_cpu_intensive (proj s p)")
    case True
    then have "d1 = d" using credit_totals_skip [OF True, of prrs rrs d] step by simp
    then show ?thesis using IH True unfolding same by simp
  next
    case False
    have "total_long_term_debt d1 = total_long_term_debt d + p_long_term_debt (proj s1 p)"
      "nprojects d1 = Suc (nprojects d)"
      using credit_totals_step [OF False, of prrs rrs d] step by simp_all
    then show ?thesis using IH p False unfolding same by simp
  qed
qed

section \<open>Properties\<close>

abbreviation no_totals :: debt_totals where
  "no_totals \<equiv> \<lparr>total_long_term_debt = 0, total_short_term_debt = 0, nprojects = 0, nrprojects = 0\<rparr>"

lemma adjust_debts_counted:
  assumes "1 \<le> now s - debt_interval_start s"
    and "now s - debt_interval_start s \<le> cpu_scheduling_period s * 2"
  obtains s2 prrs rrs s3 d al as where
    "status_view s2 = status_view s"
    "fold (credit_project prrs rrs) (projects s) (s2, no_totals) = (s3, d)"
    "al = total_long_term_debt d / real (nprojects d)"
    "adjust_debts s = (if nprojects d = 0 then s3
       else reset_debt_accounting (fold (normalize_project al as) (projects s) s3))"
proof -
  define s1 where "s1 = fold (charge_task (now s - debt_interval_start s)) (active_tasks s) s"
  define s2 where "s2 = s1\<lparr>time_stats := update_cpu_efficiency
    (total_wall_cpu_time_this_debt_interval s1) (total_cpu_time_this_debt_interval s1)
    (time_stats s1)\<rparr>"
  define prrs where "prrs = fold (\<lambda>p x. if \<not> potentially_runnable s2 p
      \<and> p_wall_cpu_time_this_debt_interval (proj s2 p) \<noteq> 0
      then x + p_resource_share (proj s2 p) else x)
    (projects s2) (potentially_runnable_resource_share s2)"
  obtain s3 d where loop: "fold (credit_project prrs (runnable_resource_share s2)) (projects s2)
      (s2, no_totals) = (s3, d)"
    by (cases "fold (credit_project prrs (runnable_resource_share s2)) (projects s2)
      (s2, no_totals)")
  have v2: "status_view s2 = status_view s"
    unfolding s2_def s1_def by (simp add: frame_simps fold_status_view)
  have v3: "status_view s3 = status_view s"
  proof -
    have "status_view (fst (fold (credit_project prrs (runnable_resource_share s2)) (projects s2)
        (s2, no_totals))) = status_view (fst (s2, no_totals))"
      by (rule fold_frame) (simp add: frame_simps)
    with loop v2 show ?thesis by simp
  qed
  have ps: "projects s2 = projects s" "projects s3 = projects s"
    using status_viewD(2) [OF v2] status_viewD(2) [OF v3] by simp_all
  let ?as = "if nrprojects d \<noteq> 0 then total_short_term_debt d / real (nrprojects d) else 0"
  have "adjust_debts s = (if nprojects d = 0 then s3
      else reset_debt_accounting (fold (normalize_project
        (total_long_term_debt d / real (nprojects d)) ?as) (projects s) s3))"
    using assms loop ps
    unfolding adjust_debts_def Let_def s1_def [symmetric] s2_def [symmetric] prrs_def [symmetric]
    by simp
  with that v2 loop ps show thesis by simp
qed

lemma credit_loop_view:
  assumes "fold (credit_project prrs rrs) ps (s, d) = (s', d')"
  shows "status_view s' = status_view s"
proof -
  have "status_view (fst (fold (credit_project prrs rrs) ps (s, d))) = status_view (fst (s, d))"
    by (rule fold_frame) (simp add: frame_simps)
  then show ?thesis using assms by simp
qed





text \<open>An interval longer than twice the scheduling period (the host slept) is ignored:
  no project's debts change, and the accounting starts afresh from the present.\<close>

theorem adjust_debts_ignores_long_gap:
  assumes "1 \<le> now s - debt_interval_start s"
    and "cpu_scheduling_period s * 2 < now s - debt_interval_start s"
  shows "p_long_term_debt (proj (adjust_debts s) p) = p_long_term_debt (proj s p)
    \<and> p_short_term_debt (proj (adjust_debts s) p) = p_short_term_debt (proj s p)
    \<and> debt_interval_start (adjust_debts s) = now s
    \<and> total_wall_cpu_time_this_debt_interval (adjust_debts s) = 0"
proof -
  have "adjust_debts s = reset_debt_accounting s"
    using assms by (simp add: adjust_debts_def)
  moreover have "now (reset_debt_accounting s) = now s"
    by (rule reset_debt.keeps_fields(1))
  moreover have "debt_interval_start (reset_debt_accounting s) = now (reset_debt_accounting s)"
    "total_wall_cpu_time_this_debt_interval (reset_debt_accounting s) = 0"
    by (simp_all add: reset_debt_accounting_def Let_def)
  ultimately show ?thesis by (simp add: reset_debt_accounting_debts)
qed

theorem adjust_debts_ignores_long_gap_witness:
  "p_long_term_debt (proj (adjust_debts (sample_state\<lparr>now := 100000\<rparr>)) 0) = 0
   \<and> debt_interval_start (adjust_debts (sample_state\<lparr>now := 100000\<rparr>)) = 100000"
  using adjust_debts_ignores_long_gap [of "sample_state\<lparr>now := 100000\<rparr>" 0]
  by (simp add: sample_defs cpu_scheduling_period_def)

end
