(* ===== verification/RR_Simulation.thy ===== *)
theory RR_Simulation
  imports Work_Status
begin

text \<open>
  The round-robin simulation (\<open>client/rr_sim.cpp\<close>): run the current workload forward
  under weighted round-robin, find the results that miss their deadline and the CPU
  time the host will be short of. The C++ loop runs until the simulated active set is
  empty; the model gives it as fuel one unit per result plus one, and
  \<open>rr_simulation_completes\<close> shows that this is enough.
\<close>

section \<open>The simulation status of a project\<close>

definition rs_clear :: "RR_SIM_PROJECT_STATUS \<Rightarrow> RR_SIM_PROJECT_STATUS" where
  "rs_clear x = x\<lparr>rs_active := [], rs_pending := [], rs_deadlines_missed := 0,
                  rs_proc_rate := 0, rs_cpu_shortfall := 0\<rparr>"

definition rs_can_run :: "RR_SIM_PROJECT_STATUS \<Rightarrow> int \<Rightarrow> bool" where
  "rs_can_run x n = (int (length (rs_active x)) < n)"

definition rs_activate :: "rid \<Rightarrow> RR_SIM_PROJECT_STATUS \<Rightarrow> RR_SIM_PROJECT_STATUS" where
  "rs_activate r x = x\<lparr>rs_active := rs_active x @ [r]\<rparr>"

definition rs_add_pending :: "rid \<Rightarrow> RR_SIM_PROJECT_STATUS \<Rightarrow> RR_SIM_PROJECT_STATUS" where
  "rs_add_pending r x = x\<lparr>rs_pending := rs_pending x @ [r]\<rparr>"

definition rs_remove_active :: "rid \<Rightarrow> RR_SIM_PROJECT_STATUS \<Rightarrow> RR_SIM_PROJECT_STATUS" where
  "rs_remove_active r x = x\<lparr>rs_active := filter (\<lambda>q. q \<noteq> r) (rs_active x)\<rparr>"

definition rs_none_active :: "RR_SIM_PROJECT_STATUS \<Rightarrow> bool" where
  "rs_none_active x = (rs_active x = [])"

definition rs_add_to_cpu_shortfall :: "real \<Rightarrow> RR_SIM_PROJECT_STATUS \<Rightarrow> RR_SIM_PROJECT_STATUS" where
  "rs_add_to_cpu_shortfall d x = x\<lparr>rs_cpu_shortfall := rs_cpu_shortfall x + d\<rparr>"

definition upd_rs ::
  "pid \<Rightarrow> (RR_SIM_PROJECT_STATUS \<Rightarrow> RR_SIM_PROJECT_STATUS) \<Rightarrow> CLIENT_STATE \<Rightarrow> CLIENT_STATE" where
  "upd_rs p f = upd_proj p (\<lambda>x. x\<lparr>p_rr_sim_status := f (p_rr_sim_status x)\<rparr>)"

abbreviation rstat :: "CLIENT_STATE \<Rightarrow> pid \<Rightarrow> RR_SIM_PROJECT_STATUS" where
  "rstat s p \<equiv> p_rr_sim_status (proj s p)"

lemmas rs_defs = rs_clear_def rs_can_run_def rs_activate_def rs_add_pending_def
  rs_remove_active_def rs_none_active_def rs_add_to_cpu_shortfall_def

definition set_rrsim_proc_rate :: "real \<Rightarrow> pid \<Rightarrow> CLIENT_STATE \<Rightarrow> CLIENT_STATE" where
  "set_rrsim_proc_rate rrs p s =
     (let nactive = int (length (rs_active (rstat s p))) in
      if nactive = 0 then s
      else let
        x = (if rrs \<noteq> 0 then p_resource_share (proj s p) / rrs else 1);
        x1 = (if nactive < ncpus s then x * (real_of_int (ncpus s) / real_of_int nactive) else x);
        x2 = (if x1 > 1 then 1 else x1)
      in upd_rs p (\<lambda>st. st\<lparr>rs_proc_rate := x2 * overall_cpu_frac s\<rparr>) s)"

section \<open>Setting up the simulation\<close>

text \<open>The second component is the active set of the whole simulation (\<open>RR_SIM_STATUS\<close>).\<close>

definition rr_include :: "rid \<Rightarrow> CLIENT_STATE \<times> rid list \<Rightarrow> CLIENT_STATE \<times> rid list" where
  "rr_include r st =
     (case st of (s, sim) \<Rightarrow>
      if \<not> result_nearly_runnable s r then (s, sim)
      else if result_some_download_stalled s r then (s, sim)
      else if p_non_cpu_intensive (proj s (r_project (res s r))) then (s, sim)
      else let
        s1 = upd_res r (\<lambda>x. x\<lparr>r_rrsim_cpu_left := estimated_cpu_time_remaining s r\<rparr>) s;
        p = r_project (res s1 r);
        (s2, sim2) = (if rs_can_run (rstat s1 p) (ncpus s1)
                      then (upd_rs p (rs_activate r) s1, sim @ [r])
                      else (upd_rs p (rs_add_pending r) s1, sim))
      in (upd_res r (\<lambda>x. x\<lparr>r_last_rr_sim_missed_deadline := r_rr_sim_misses_deadline x,
                          r_rr_sim_misses_deadline := False\<rparr>) s2, sim2))"

definition rr_init_project :: "real \<Rightarrow> real \<Rightarrow> pid \<Rightarrow> CLIENT_STATE \<Rightarrow> CLIENT_STATE" where
  "rr_init_project rrs trs p s =
     (let s1 = set_rrsim_proc_rate rrs p s in
      if rs_none_active (rstat s1 p)
      then let rsf = (if trs \<noteq> 0 then p_resource_share (proj s1 p) / trs else 1)
           in upd_rs p (\<lambda>x. x\<lparr>rs_cpu_shortfall :=
                work_buf_total s1 * overall_cpu_frac s1 * real_of_int (ncpus s1) * rsf\<rparr>) s1
      else s1)"

section \<open>One round of the simulation\<close>

definition rr_finish_delay :: "rid \<Rightarrow> CLIENT_STATE \<Rightarrow> CLIENT_STATE" where
  "rr_finish_delay r s =
     upd_res r (\<lambda>x. x\<lparr>r_rrsim_finish_delay :=
       r_rrsim_cpu_left x / rs_proc_rate (rstat s (r_project x))\<rparr>) s"

definition rr_find_best :: "rid list \<Rightarrow> CLIENT_STATE \<Rightarrow> CLIENT_STATE \<times> rid option" where
  "rr_find_best sim s =
     fold (\<lambda>r (s, best).
       let s1 = rr_finish_delay r s in
       (s1, case best of None \<Rightarrow> Some r
            | Some b \<Rightarrow> if r_rrsim_finish_delay (res s1 r) < r_rrsim_finish_delay (res s1 b)
                        then Some r else Some b)) sim (s, None)"

text \<open>Does the first result to finish miss its deadline? Too large results do not count.\<close>

definition rr_check_deadline :: "real \<Rightarrow> real \<Rightarrow> rid \<Rightarrow> CLIENT_STATE \<Rightarrow> CLIENT_STATE" where
  "rr_check_deadline ar sim_now r s =
     (let diff = sim_now + r_rrsim_finish_delay (res s r)
                 - ((computation_deadline s r - now s) * (9/10) + now s);
          too_large = (case lookup_active_task_by_result s r of
             None \<Rightarrow> False | Some a \<Rightarrow> at_working_set_size_smoothed (task s a) > ar)
      in if diff > 0 \<and> \<not> too_large
         then upd_rs (r_project (res s r))
                (\<lambda>x. x\<lparr>rs_deadlines_missed := rs_deadlines_missed x + 1\<rparr>)
                (upd_res r (\<lambda>x. x\<lparr>r_rr_sim_misses_deadline := True\<rparr>) s)
         else s)"

text \<open>\<open>RR_SIM_STATUS::remove_active\<close>: drop \<open>best\<close>, charge the other active results.\<close>

definition rr_charge_others :: "rid \<Rightarrow> rid list \<Rightarrow> CLIENT_STATE \<Rightarrow> CLIENT_STATE" where
  "rr_charge_others best sim s =
     fold (\<lambda>r s. if r = best then s
                 else upd_res r (\<lambda>x. x\<lparr>r_rrsim_cpu_left := r_rrsim_cpu_left x
                        - rs_proc_rate (rstat s (r_project x))
                          * r_rrsim_finish_delay (res s best)\<rparr>) s) sim s"

text \<open>
  The inner loop that starts the project's pending results: pop the front; start it if a
  CPU is free, else push it back at the end and stop. Returns the project's pending and
  active lists and the simulation's active set.
\<close>

fun rr_refill ::
  "int \<Rightarrow> rid list \<Rightarrow> rid list \<Rightarrow> rid list \<Rightarrow> rid list \<times> rid list \<times> rid list" where
  "rr_refill n [] act sim = ([], act, sim)"
| "rr_refill n (r # pend) act sim =
     (if int (length act) < n then rr_refill n pend (act @ [r]) (sim @ [r])
      else (pend @ [r], act, sim))"

definition rr_shortfall ::
  "real \<Rightarrow> real \<Rightarrow> real \<Rightarrow> real \<Rightarrow> nat \<Rightarrow> nat \<Rightarrow> pid \<Rightarrow> CLIENT_STATE \<Rightarrow> CLIENT_STATE" where
  "rr_shortfall buf_end trs sim_now delay last_active_size last_proj_active_size p s =
     (if sim_now < buf_end
      then let
        e0 = sim_now + delay;
        end_time = (if e0 > buf_end then buf_end else e0);
        d_time = end_time - sim_now;
        n0 = ncpus s - int last_active_size;
        nidle_cpus = (if n0 < 0 then 0 else n0);
        s1 = (if nidle_cpus > 0
              then s\<lparr>cpu_shortfall := cpu_shortfall s + d_time * real_of_int nidle_cpus\<rparr> else s);
        rsf = (if trs \<noteq> 0 then p_resource_share (proj s p) / trs else 1);
        proj_cpu_share = real_of_int (ncpus s) * rsf;
        s2 = (if real last_proj_active_size < proj_cpu_share
              then upd_rs p (rs_add_to_cpu_shortfall
                     (d_time * (proj_cpu_share - real last_proj_active_size))) s1
              else s1)
      in if end_time < buf_end
         then let d_time2 = buf_end - end_time in
              if rs_none_active (rstat s2 p)
              then upd_rs p (rs_add_to_cpu_shortfall (d_time2 * proj_cpu_share)) s2 else s2
         else s2
      else s)"

text \<open>Start pending results of the project of the one that finished.\<close>

definition rr_restart ::
  "rid \<Rightarrow> pid \<Rightarrow> rid list \<Rightarrow> CLIENT_STATE \<Rightarrow> CLIENT_STATE \<times> rid list" where
  "rr_restart best pbest sim s =
     (case rr_refill (ncpus s) (rs_pending (rstat s pbest)) (rs_active (rstat s pbest))
             (filter (\<lambda>r. r \<noteq> best) sim) of
        (pend, act, sim') \<Rightarrow>
          (upd_rs pbest (\<lambda>x. x\<lparr>rs_pending := pend, rs_active := act\<rparr>) s, sim'))"

text \<open>When a project has run out of work, its share goes to the others.\<close>

definition rr_reshare :: "pid \<Rightarrow> real \<Rightarrow> CLIENT_STATE \<Rightarrow> CLIENT_STATE \<times> real" where
  "rr_reshare pbest rrs s =
     (if rs_none_active (rstat s pbest)
      then (let rrs' = rrs - p_resource_share (proj s pbest)
            in (fold (set_rrsim_proc_rate rrs') (projects s) s, rrs'))
      else (s, rrs))"

text \<open>The state of the loop: the client state, the active set, \<open>rrs\<close> and \<open>sim_now\<close>.\<close>

type_synonym rr_state = "CLIENT_STATE \<times> rid list \<times> real \<times> real"

definition rr_step :: "real \<Rightarrow> real \<Rightarrow> real \<Rightarrow> rr_state \<Rightarrow> rr_state" where
  "rr_step buf_end trs ar st =
     (case st of (s, sim, rrs, sim_now) \<Rightarrow>
      (case rr_find_best sim s of
         (s1, None) \<Rightarrow> (s1, sim, rrs, sim_now)
       | (s1, Some best) \<Rightarrow>
         let pbest = r_project (res s1 best);
             delay = r_rrsim_finish_delay (res s1 best);
             s2 = rr_check_deadline ar sim_now best s1;
             last_active_size = length sim;
             last_proj_active_size = length (rs_active (rstat s2 pbest));
             s3 = rr_charge_others best sim s2;
             s4 = upd_rs pbest (rs_remove_active best) s3;
             (s5, sim5) = rr_restart best pbest sim s4;
             (s6, rrs6) = rr_reshare pbest rrs s5;
             s7 = rr_shortfall buf_end trs sim_now delay last_active_size
                    last_proj_active_size pbest s6
         in (s7, sim5, rrs6, sim_now + delay)))"

fun rr_loop :: "real \<Rightarrow> real \<Rightarrow> real \<Rightarrow> nat \<Rightarrow> rr_state \<Rightarrow> rr_state" where
  "rr_loop buf_end trs ar 0 st = st"
| "rr_loop buf_end trs ar (Suc fuel) st =
     (if fst (snd st) = [] then st
      else rr_loop buf_end trs ar fuel (rr_step buf_end trs ar st))"

definition rr_start :: "CLIENT_STATE \<Rightarrow> rr_state" where
  "rr_start s =
     (let rrs = nearly_runnable_resource_share s;
          trs = total_resource_share s;
          s1 = fold (\<lambda>p. upd_rs p rs_clear) (projects s) s;
          (s2, sim) = fold rr_include (results s1) (s1, []);
          s3 = fold (rr_init_project rrs trs) (projects s2) s2
      in (s3\<lparr>cpu_shortfall := 0\<rparr>, sim, rrs, now s3))"

definition rr_finish :: "CLIENT_STATE \<Rightarrow> rr_state" where
  "rr_finish s =
     rr_loop (now s + work_buf_total s) (total_resource_share s) (available_ram s)
       (Suc (length (results s))) (rr_start s)"

definition rr_simulation :: "CLIENT_STATE \<Rightarrow> CLIENT_STATE" where
  "rr_simulation s =
     (case rr_finish s of (s', sim, rrs, sim_now) \<Rightarrow>
        let buf_end = now s + work_buf_total s in
        if sim_now < buf_end
        then s'\<lparr>cpu_shortfall := cpu_shortfall s' + (buf_end - sim_now) * real_of_int (ncpus s')\<rparr>
        else s')"

section \<open>What the simulation leaves alone\<close>

text \<open>
  Two views of the state: \<open>status_view\<close>, which every scheduler predicate depends on, and
  \<open>rr_rest\<close>, the state with exactly the fields the simulation writes blanked out, so that an
  equation between two such states says that nothing else has changed.
\<close>

definition rr_blank :: "RESULT \<Rightarrow> RESULT" where
  "rr_blank x = x\<lparr>r_rrsim_cpu_left := 0, r_rrsim_finish_delay := 0,
     r_rr_sim_misses_deadline := False, r_last_rr_sim_missed_deadline := False\<rparr>"

definition rr_rest :: "CLIENT_STATE \<Rightarrow> CLIENT_STATE" where
  "rr_rest s = s\<lparr>proj := (\<lambda>p. (proj s p)\<lparr>p_rr_sim_status := sample_rr_status\<rparr>),
     res := (\<lambda>r. rr_blank (res s r)), cpu_shortfall := 0\<rparr>"

definition rr_view where
  "rr_view s = (status_view s, rr_rest s)"

lemma rr_view_upd_rs [frame_simps]: "rr_view (upd_rs p f s) = rr_view s"
  by (simp add: rr_view_def rr_rest_def upd_rs_def status_view_upd_proj)
    (auto simp: upd_proj_def fun_eq_iff)

lemma rr_view_upd_res:
  assumes "r_project (f (res s r)) = r_project (res s r)"
    "r_suspended_via_gui (f (res s r)) = r_suspended_via_gui (res s r)"
    "r_state (f (res s r)) = r_state (res s r)" "rr_blank (f (res s r)) = rr_blank (res s r)"
  shows "rr_view (upd_res r f s) = rr_view s"
  using assms
  by (simp add: rr_view_def rr_rest_def status_view_upd_res) (auto simp: upd_res_def fun_eq_iff)

lemma rr_view_shortfall [frame_simps]: "rr_view (s\<lparr>cpu_shortfall := x\<rparr>) = rr_view s"
  by (simp add: rr_view_def rr_rest_def status_view_def)

lemma fold_rr_view:
  "(\<And>x s. rr_view (f x s) = rr_view s) \<Longrightarrow> rr_view (fold f xs s) = rr_view s"
  by (rule fold_frame)

lemma rr_view_set_proc_rate [frame_simps]: "rr_view (set_rrsim_proc_rate rrs p s) = rr_view s"
  by (simp add: set_rrsim_proc_rate_def Let_def frame_simps)

lemma rr_view_init_project [frame_simps]: "rr_view (rr_init_project rrs trs p s) = rr_view s"
  by (simp add: rr_init_project_def Let_def frame_simps)

lemma rr_view_include [frame_simps]: "rr_view (fst (rr_include r st)) = rr_view (fst st)"
  by (simp add: rr_include_def Let_def rr_view_upd_res rr_blank_def frame_simps split: prod.split)

lemma rr_view_finish_delay [frame_simps]: "rr_view (rr_finish_delay r s) = rr_view s"
  by (simp add: rr_finish_delay_def rr_view_upd_res rr_blank_def)

lemma rr_view_find_best [frame_simps]: "rr_view (fst (rr_find_best sim s)) = rr_view s"
proof -
  have "rr_view (fst (fold (\<lambda>r (s, best).
       let s1 = rr_finish_delay r s in
       (s1, case best of None \<Rightarrow> Some r
            | Some b \<Rightarrow> if r_rrsim_finish_delay (res s1 r) < r_rrsim_finish_delay (res s1 b)
                        then Some r else Some b)) sim (s, None))) = rr_view (fst (s, None :: rid option))"
    by (rule fold_frame [where v = "\<lambda>st. rr_view (fst st)"])
      (simp add: Let_def frame_simps split: prod.split)
  then show ?thesis by (simp add: rr_find_best_def)
qed

lemma rr_view_check_deadline [frame_simps]: "rr_view (rr_check_deadline ar t r s) = rr_view s"
  by (simp add: rr_check_deadline_def Let_def rr_view_upd_res rr_blank_def frame_simps)

lemma rr_view_charge_others [frame_simps]: "rr_view (rr_charge_others b sim s) = rr_view s"
  unfolding rr_charge_others_def by (rule fold_frame) (simp add: rr_view_upd_res rr_blank_def)

lemma rr_view_rr_shortfall [frame_simps]: "rr_view (rr_shortfall be trs t d la lp p s) = rr_view s"
  by (simp add: rr_shortfall_def Let_def frame_simps)

section \<open>The simulation ends\<close>

definition pendings :: "CLIENT_STATE \<Rightarrow> pid \<Rightarrow> rid list" where
  "pendings s = (\<lambda>p. rs_pending (rstat s p))"

lemma pendings_upd_res [frame_simps]: "pendings (upd_res r f s) = pendings s"
  by (simp add: pendings_def upd_res_def)

lemma pendings_upd_rs [frame_simps]:
  "pendings (upd_rs p f s) = (pendings s)(p := rs_pending (f (rstat s p)))"
  by (auto simp: pendings_def upd_rs_def upd_proj_def)

lemma pendings_upd_rs_same:
  "rs_pending (f (rstat s p)) = rs_pending (rstat s p) \<Longrightarrow> pendings (upd_rs p f s) = pendings s"
  by (auto simp: pendings_def upd_rs_def upd_proj_def)

lemma pendings_shortfall [frame_simps]: "pendings (s\<lparr>cpu_shortfall := x\<rparr>) = pendings s"
  by (simp add: pendings_def)

lemma pendings_set_proc_rate [frame_simps]: "pendings (set_rrsim_proc_rate rrs p s) = pendings s"
  by (simp add: set_rrsim_proc_rate_def Let_def pendings_upd_rs_same)

lemma pendings_init_project [frame_simps]: "pendings (rr_init_project rrs trs p s) = pendings s"
  by (simp add: rr_init_project_def Let_def pendings_upd_rs_same frame_simps
      del: pendings_upd_rs)

lemma pendings_check_deadline [frame_simps]: "pendings (rr_check_deadline ar t r s) = pendings s"
  by (simp add: rr_check_deadline_def Let_def pendings_upd_rs_same pendings_upd_res)

lemma pendings_charge_others [frame_simps]: "pendings (rr_charge_others b sim s) = pendings s"
  unfolding rr_charge_others_def by (rule fold_frame) (simp add: pendings_upd_res)

lemma pendings_rr_shortfall [frame_simps]:
  "pendings (rr_shortfall be trs t d la lp p s) = pendings s"
  by (simp add: rr_shortfall_def Let_def pendings_upd_rs_same pendings_shortfall
      rs_add_to_cpu_shortfall_def)

lemma find_best_spec:
  assumes "sim \<noteq> []"
  obtains s1 b where "rr_find_best sim s = (s1, Some b)" "b \<in> set sim"
    "pendings s1 = pendings s" "rr_view s1 = rr_view s"
proof -
  let ?f = "\<lambda>r (s, best).
       let s1 = rr_finish_delay r s in
       (s1, case best of None \<Rightarrow> Some r
            | Some b \<Rightarrow> if r_rrsim_finish_delay (res s1 r) < r_rrsim_finish_delay (res s1 b)
                        then Some r else Some b)"
  have inv: "pendings (fst (fold ?f xs st)) = pendings (fst st)
    \<and> (\<forall>b. snd (fold ?f xs st) = Some b \<longrightarrow> b \<in> set xs \<or> snd st = Some b)
    \<and> (xs \<noteq> [] \<or> snd st \<noteq> None \<longrightarrow> snd (fold ?f xs st) \<noteq> None)" for xs st
  proof (induction xs arbitrary: st)
    case (Cons x xs)
    have p: "pendings (fst (?f x st)) = pendings (fst st)"
      by (simp add: Let_def rr_finish_delay_def pendings_upd_res split: prod.split)
    have b: "snd (?f x st) \<noteq> None" "snd (?f x st) = Some b \<Longrightarrow> b = x \<or> snd st = Some b" for b
      by (auto simp: Let_def split: prod.splits option.splits if_splits)
    show ?case using Cons.IH [of "?f x st"] p b by auto
  qed simp
  obtain s1 o1 where f: "rr_find_best sim s = (s1, o1)" by (cases "rr_find_best sim s")
  have "pendings s1 = pendings s" "\<exists>b. o1 = Some b \<and> b \<in> set sim"
    using inv [of sim "(s, None)"] assms f by (auto simp: rr_find_best_def)
  moreover have "rr_view s1 = rr_view s" using rr_view_find_best [of sim s] f by simp
  ultimately show thesis using that f by blast
qed

lemma rr_refill_spec:
  assumes "rr_refill n pend act sim = (pend', act', sim')"
  shows "length sim' + length pend' = length sim + length pend
    \<and> set sim' \<subseteq> set sim \<union> set pend \<and> set pend' \<subseteq> set pend"
  using assms
proof (induction n pend act sim rule: rr_refill.induct)
  case (2 n r pend act sim)
  then show ?case by (auto split: if_splits)
qed simp

text \<open>\<open>rr_ok\<close>: the simulation works on results of the client that belong to its projects.\<close>

definition rr_ok :: "rr_state \<Rightarrow> bool" where
  "rr_ok st = (case st of (s, sim, rrs, t) \<Rightarrow>
     set sim \<subseteq> set (results s)
     \<and> (\<forall>p. p \<in> set (projects s) \<longrightarrow> set (pendings s p) \<subseteq> set (results s))
     \<and> (\<forall>r. r \<in> set (results s) \<longrightarrow> r_project (res s r) \<in> set (projects s)))"

definition rr_size :: "rr_state \<Rightarrow> nat" where
  "rr_size st = (case st of (s, sim, rrs, t) \<Rightarrow>
     length sim + (\<Sum>p \<in> set (projects s). length (pendings s p)))"

lemma rr_view_fields:
  assumes "rr_view s = rr_view t"
  shows "projects s = projects t" "results s = results t" "r_project (res s r) = r_project (res t r)"
    "ncpus s = ncpus t" "p_resource_share (proj s p) = p_resource_share (proj t p)"
    "active_tasks s = active_tasks t" "task s = task t" "now s = now t"
proof -
  have v: "status_view s = status_view t" "rr_rest s = rr_rest t"
    using assms by (simp_all add: rr_view_def)
  show "projects s = projects t" "results s = results t" "r_project (res s r) = r_project (res t r)"
    "p_resource_share (proj s p) = p_resource_share (proj t p)" "now s = now t"
    using status_viewD [OF v(1)] by simp_all
  have "ncpus (rr_rest s) = ncpus (rr_rest t)" "active_tasks (rr_rest s) = active_tasks (rr_rest t)"
    "task (rr_rest s) = task (rr_rest t)"
    using v(2) by simp_all
  then show "ncpus s = ncpus t" "active_tasks s = active_tasks t" "task s = task t"
    by (simp_all add: rr_rest_def)
qed

text \<open>One round, reduced to what termination depends on.\<close>

lemma rr_reshare_frame [frame_simps]:
  "rr_view (fst (rr_reshare p rrs s)) = rr_view s"
  "pendings (fst (rr_reshare p rrs s)) = pendings s"
proof -
  have "rr_view (fold (set_rrsim_proc_rate x) ps u) = rr_view u"
    "pendings (fold (set_rrsim_proc_rate x) ps u) = pendings u" for x ps u
    by (rule fold_frame; simp add: frame_simps)+
  then show "rr_view (fst (rr_reshare p rrs s)) = rr_view s"
    "pendings (fst (rr_reshare p rrs s)) = pendings s"
    by (simp_all add: rr_reshare_def Let_def)
qed

lemma rr_step_shape:
  assumes "sim \<noteq> []"
  obtains s' sim' rrs' t' b pend' act act' where
    "rr_step be trs ar (s, sim, rrs, t) = (s', sim', rrs', t')"
    "b \<in> set sim" "rr_view s' = rr_view s"
    "rr_refill (ncpus s) (pendings s (r_project (res s b))) act
       (filter (\<lambda>r. r \<noteq> b) sim) = (pend', act', sim')"
    "pendings s' = (pendings s)(r_project (res s b) := pend')"
proof -
  obtain s1 b where best: "rr_find_best sim s = (s1, Some b)" and b: "b \<in> set sim"
    and p1: "pendings s1 = pendings s" and v1: "rr_view s1 = rr_view s"
    using find_best_spec [OF assms] by metis
  define q where "q = r_project (res s b)"
  have q1: "r_project (res s1 b) = q" unfolding q_def using rr_view_fields(3) [OF v1] by simp
  define s2 where "s2 = rr_check_deadline ar t b s1"
  define s4 where "s4 = upd_rs q (rs_remove_active b) (rr_charge_others b sim s2)"
  have v4: "rr_view s4 = rr_view s" by (simp add: s4_def s2_def frame_simps v1)
  have p4: "pendings s4 = pendings s"
    by (simp add: s4_def s2_def pendings_upd_rs_same rs_remove_active_def pendings_charge_others
        pendings_check_deadline p1)
  have rp4: "rs_pending (rstat s4 q) = pendings s q" using p4 by (metis pendings_def)
  have n4: "ncpus s4 = ncpus s" by (rule rr_view_fields(4) [OF v4])
  obtain pend' act' sim' where ref: "rr_refill (ncpus s) (pendings s q) (rs_active (rstat s4 q))
      (filter (\<lambda>r. r \<noteq> b) sim) = (pend', act', sim')"
    by (cases "rr_refill (ncpus s) (pendings s q) (rs_active (rstat s4 q))
      (filter (\<lambda>r. r \<noteq> b) sim)")
  define s5 where "s5 = upd_rs q (\<lambda>x. x\<lparr>rs_pending := pend', rs_active := act'\<rparr>) s4"
  have restart: "rr_restart b q sim s4 = (s5, sim')"
    by (simp add: rr_restart_def n4 rp4 ref s5_def)
  obtain s6 rrs6 where share: "rr_reshare q rrs s5 = (s6, rrs6)"
    by (cases "rr_reshare q rrs s5")
  define s7 where "s7 = rr_shortfall be trs t (r_rrsim_finish_delay (res s1 b)) (length sim)
    (length (rs_active (rstat s2 q))) q s6"
  have step: "rr_step be trs ar (s, sim, rrs, t)
      = (s7, sim', rrs6, t + r_rrsim_finish_delay (res s1 b))"
    by (simp add: rr_step_def best q1 s2_def [symmetric] s4_def [symmetric] restart share
        s7_def [symmetric])
  have f5: "rr_view s5 = rr_view s" "pendings s5 = (pendings s)(q := pend')"
    by (simp_all add: s5_def frame_simps v4 p4)
  have f6: "rr_view s6 = rr_view s5" "pendings s6 = pendings s5"
    using rr_reshare_frame [of q rrs s5] share by simp_all
  have "rr_view s7 = rr_view s"
    by (simp add: s7_def rr_view_rr_shortfall f6 f5)
  moreover have "pendings s7 = (pendings s)(q := pend')"
    by (simp add: s7_def pendings_rr_shortfall f6 f5)
  ultimately show thesis using that step b ref q_def by blast
qed

lemma sum_fun_upd:
  fixes f :: "'a \<Rightarrow> nat"
  assumes "finite A" "a \<in> A"
  shows "(\<Sum>x \<in> A. (f(a := v)) x) + f a = (\<Sum>x \<in> A. f x) + v"
proof -
  have "(\<Sum>x \<in> A. (f(a := v)) x) = v + (\<Sum>x \<in> A - {a}. f x)"
    using assms by (subst sum.remove [of A a]) auto
  moreover have "(\<Sum>x \<in> A. f x) = f a + (\<Sum>x \<in> A - {a}. f x)"
    using assms by (rule sum.remove)
  ultimately show ?thesis by simp
qed

lemma rr_step_decreases:
  assumes "rr_ok (s, sim, rrs, t)" "sim \<noteq> []"
  shows "rr_ok (rr_step be trs ar (s, sim, rrs, t))
    \<and> rr_size (rr_step be trs ar (s, sim, rrs, t)) < rr_size (s, sim, rrs, t)"
proof -
  obtain s' sim' rrs' t' b pend' act act' where
    st: "rr_step be trs ar (s, sim, rrs, t) = (s', sim', rrs', t')"
    and b: "b \<in> set sim" and v: "rr_view s' = rr_view s"
    and ref: "rr_refill (ncpus s) (pendings s (r_project (res s b))) act
       (filter (\<lambda>r. r \<noteq> b) sim) = (pend', act', sim')"
    and pe: "pendings s' = (pendings s)(r_project (res s b) := pend')"
    using rr_step_shape [OF assms(2)] by metis
  let ?q = "r_project (res s b)"
  have q: "?q \<in> set (projects s)" using assms(1) b by (auto simp: rr_ok_def)
  note f = rr_view_fields [OF v]
  note r = rr_refill_spec [OF ref]
  have o: "set sim \<subseteq> set (results s)"
    "\<And>p. p \<in> set (projects s) \<Longrightarrow> set (pendings s p) \<subseteq> set (results s)"
    "\<And>r. r \<in> set (results s) \<Longrightarrow> r_project (res s r) \<in> set (projects s)"
    using assms(1) by (auto simp: rr_ok_def)
  have sub: "set sim' \<subseteq> set (results s)" "set pend' \<subseteq> set (results s)"
    using r o(1) o(2) [OF q] by auto
  have ok: "rr_ok (s', sim', rrs', t')"
    unfolding rr_ok_def prod.case f(1,2,3) pe
    using sub o(2,3) by simp
  have less: "length (filter (\<lambda>r. r \<noteq> b) sim) < length sim"
    using b by (intro length_filter_less [of b]) auto
  have "(\<Sum>p \<in> set (projects s). length (pendings s' p)) + length (pendings s ?q)
      = (\<Sum>p \<in> set (projects s). length (pendings s p)) + length pend'"
    using sum_fun_upd [of "set (projects s)" ?q "\<lambda>p. length (pendings s p)" "length pend'"] q
    by (simp add: pe fun_upd_def if_distrib [of length] cong: if_cong)
  then have "rr_size (s', sim', rrs', t') < rr_size (s, sim, rrs, t)"
    using r less by (simp add: rr_size_def f)
  then show ?thesis using st ok by simp
qed

lemma rr_loop_empties:
  assumes "rr_ok st" "rr_size st < fuel"
  shows "fst (snd (rr_loop be trs ar fuel st)) = []"
  using assms
proof (induction fuel arbitrary: st)
  case (Suc fuel)
  obtain s sim rrs t where st: "st = (s, sim, rrs, t)" by (cases st)
  show ?case
  proof (cases "sim = []")
    case False
    then have "rr_ok (rr_step be trs ar st)" "rr_size (rr_step be trs ar st) < fuel"
      using rr_step_decreases [of s sim rrs t be trs ar] Suc.prems st by auto
    then show ?thesis using Suc.IH False st by simp
  qed (simp add: st)
qed simp

lemma rr_include_cases:
  obtains "rr_include r (s, sim) = (s, sim)"
  | s' where "rr_include r (s, sim) = (s', sim @ [r])" "pendings s' = pendings s"
  | s' q where "rr_include r (s, sim) = (s', sim)" "q = r_project (res s r)"
      "pendings s' = (pendings s)(q := pendings s q @ [r])"
proof -
  let ?skip = "\<not> result_nearly_runnable s r \<or> result_some_download_stalled s r
    \<or> p_non_cpu_intensive (proj s (r_project (res s r)))"
  let ?s1 = "upd_res r (\<lambda>x. x\<lparr>r_rrsim_cpu_left := estimated_cpu_time_remaining s r\<rparr>) s"
  have p1: "r_project (res ?s1 r) = r_project (res s r)" "pendings ?s1 = pendings s"
    by (simp add: upd_res_def, rule pendings_upd_res)
  show thesis
  proof (cases ?skip)
    case True
    then have "rr_include r (s, sim) = (s, sim)" by (auto simp: rr_include_def)
    then show thesis by (rule that(1))
  next
    case False
    note inc = rr_include_def Let_def p1(1)
    show thesis
    proof (cases "rs_can_run (rstat ?s1 (r_project (res s r))) (ncpus ?s1)")
      case True
      show thesis
        by (rule that(2)) (use False True in \<open>simp add: inc, simp add: frame_simps p1
            pendings_upd_rs_same rs_activate_def del: pendings_upd_rs\<close>)+
    next
      case cant: False
      have "rs_pending (rstat ?s1 q) = pendings s q" for q
        using p1(2) by (metis pendings_def)
      then show thesis
        by (intro that(3) [of _ "r_project (res s r)"])
          (use False cant in \<open>simp add: inc, simp, simp add: pendings_upd_res pendings_upd_rs
            rs_add_pending_def p1(2)\<close>)+
    qed
  qed
qed

lemma rr_include_loop:
  assumes "fold rr_include rs (s, sim) = (s', sim')"
    and "\<And>r. r \<in> set rs \<Longrightarrow> r_project (res s r) \<in> set (projects s)"
  shows "rr_view s' = rr_view s \<and> set sim' \<subseteq> set sim \<union> set rs
    \<and> (\<forall>p. set (pendings s' p) \<subseteq> set (pendings s p) \<union> set rs)
    \<and> length sim' + (\<Sum>p \<in> set (projects s). length (pendings s' p))
      \<le> length sim + (\<Sum>p \<in> set (projects s). length (pendings s p)) + length rs"
  using assms
proof (induction rs arbitrary: s sim)
  case Nil
  then show ?case by simp
next
  case (Cons r rs)
  obtain s1 sim1 where one: "rr_include r (s, sim) = (s1, sim1)"
    by (cases "rr_include r (s, sim)")
  have v1: "rr_view s1 = rr_view s" using rr_view_include [of r "(s, sim)"] one by simp
  note f = rr_view_fields [OF v1]
  have IH: "rr_view s' = rr_view s1 \<and> set sim' \<subseteq> set sim1 \<union> set rs
    \<and> (\<forall>p. set (pendings s' p) \<subseteq> set (pendings s1 p) \<union> set rs)
    \<and> length sim' + (\<Sum>p \<in> set (projects s). length (pendings s' p))
      \<le> length sim1 + (\<Sum>p \<in> set (projects s). length (pendings s1 p)) + length rs"
    using Cons.IH [of s1 sim1] Cons.prems one f(1,3) by simp
  have q: "r_project (res s r) \<in> set (projects s)" using Cons.prems(2) by simp
  have step: "set sim1 \<subseteq> set sim \<union> {r} \<and> (\<forall>p. set (pendings s1 p) \<subseteq> set (pendings s p) \<union> {r})
    \<and> length sim1 + (\<Sum>p \<in> set (projects s). length (pendings s1 p))
      \<le> length sim + (\<Sum>p \<in> set (projects s). length (pendings s p)) + 1"
  proof (cases rule: rr_include_cases [of r s sim])
    case (3 u p)
    then have "pendings s1 = (pendings s)(p := pendings s p @ [r])" "sim1 = sim" "p \<in> set (projects s)"
      using one q by simp_all
    moreover then have "(\<Sum>x \<in> set (projects s). length (pendings s1 x)) + length (pendings s p)
        = (\<Sum>x \<in> set (projects s). length (pendings s x)) + length (pendings s p @ [r])"
      using sum_fun_upd [of "set (projects s)" p "\<lambda>p. length (pendings s p)"
          "length (pendings s p @ [r])"]
      by (simp add: fun_upd_def if_distrib [of length] cong: if_cong)
    ultimately show ?thesis by auto
  qed (use one in auto)
  have sets: "set sim' \<subseteq> set sim \<union> set (r # rs)"
    using IH step by auto
  have pends: "set (pendings s' p) \<subseteq> set (pendings s p) \<union> set (r # rs)" for p
  proof -
    have "set (pendings s' p) \<subseteq> set (pendings s1 p) \<union> set rs"
      "set (pendings s1 p) \<subseteq> set (pendings s p) \<union> {r}"
      using IH step by simp_all
    then show ?thesis by auto
  qed
  show ?case using IH step v1 sets pends by simp
qed

lemma rr_clear_loop:
  "p \<in> set ps \<Longrightarrow> pendings (fold (\<lambda>p. upd_rs p rs_clear) ps s) p = []"
proof (induction ps rule: rev_induct)
  case (snoc q ps)
  then show ?case by (auto simp: pendings_upd_rs rs_clear_def)
qed simp

lemma rr_start_ok:
  assumes "\<And>r. r \<in> set (results s) \<Longrightarrow> r_project (res s r) \<in> set (projects s)"
  shows "rr_ok (rr_start s) \<and> rr_size (rr_start s) \<le> length (results s)
    \<and> rr_view (fst (rr_start s)) = rr_view s"
proof -
  define s1 where "s1 = fold (\<lambda>p. upd_rs p rs_clear) (projects s) s"
  have v1: "rr_view s1 = rr_view s"
    unfolding s1_def by (rule fold_rr_view) (simp add: frame_simps)
  note f1 = rr_view_fields [OF v1]
  obtain s2 sim where inc: "fold rr_include (results s1) (s1, []) = (s2, sim)"
    by (cases "fold rr_include (results s1) (s1, [])")
  define s3 where "s3 = fold (rr_init_project (nearly_runnable_resource_share s)
    (total_resource_share s)) (projects s2) s2"
  have v3: "rr_view s3 = rr_view s2" "pendings s3 = pendings s2"
    unfolding s3_def by (rule fold_frame; simp add: frame_simps)+
  have start: "rr_start s = (s3\<lparr>cpu_shortfall := 0\<rparr>, sim, nearly_runnable_resource_share s, now s3)"
    by (simp add: rr_start_def s1_def [symmetric] inc s3_def Let_def)
  have empty: "pendings s1 p = []" if "p \<in> set (projects s)" for p
    unfolding s1_def using that by (rule rr_clear_loop)
  have sum0: "(\<Sum>p \<in> set (projects s). length (pendings s1 p)) = 0"
    using empty by simp
  have L: "rr_view s2 = rr_view s1" "set sim \<subseteq> set (results s)"
    "\<And>p. set (pendings s2 p) \<subseteq> set (pendings s1 p) \<union> set (results s)"
    "length sim + (\<Sum>p \<in> set (projects s). length (pendings s2 p)) \<le> length (results s)"
    using rr_include_loop [OF inc] assms f1 sum0 by auto
  have v: "rr_view (s3\<lparr>cpu_shortfall := 0\<rparr>) = rr_view s"
    by (simp add: rr_view_shortfall v3 L(1) v1)
  note f = rr_view_fields [OF v]
  have "rr_size (rr_start s) \<le> length (results s)"
    unfolding start rr_size_def prod.case f(1) pendings_shortfall v3(2) by (rule L(4))
  moreover have "set (pendings s2 p) \<subseteq> set (results s)" if "p \<in> set (projects s)" for p
    using L(3) [of p] empty [OF that] by simp
  then have "rr_ok (rr_start s)"
    unfolding start rr_ok_def prod.case f(1,2,3) pendings_shortfall v3(2)
    using L(2) assms by simp
  ultimately show ?thesis using v start by simp
qed

text \<open>C10: The simulation loop ends: starting from any client state whose results belong to
  its projects, the simulated active set is empty when the simulation stops. Fuel of one
  unit per result and one more is enough.\<close>

theorem rr_simulation_completes:
  assumes "\<And>r. r \<in> set (results s) \<Longrightarrow> r_project (res s r) \<in> set (projects s)"
  shows "fst (snd (rr_finish s)) = []"
  using rr_start_ok [OF assms] unfolding rr_finish_def
  by (intro rr_loop_empties) auto

theorem rr_simulation_completes_witness: "fst (snd (rr_finish sample_state)) = []"
  by (rule rr_simulation_completes) (simp add: sample_defs)

section \<open>The simulation as an operation on the client state\<close>

lemma rr_loop_view: "rr_view (fst (rr_loop be trs ar fuel st)) = rr_view (fst st)"
proof (induction fuel arbitrary: st)
  case (Suc fuel)
  obtain s sim rrs t where st: "st = (s, sim, rrs, t)" by (cases st)
  show ?case
  proof (cases "sim = []")
    case False
    obtain s' sim' rrs' t' where "rr_step be trs ar st = (s', sim', rrs', t')" "rr_view s' = rr_view s"
      using rr_step_shape [OF False, of be trs ar s rrs t] st by metis
    then show ?thesis using Suc.IH [of "rr_step be trs ar st"] False st by simp
  qed (simp add: st)
qed simp

lemma rr_start_view: "rr_view (fst (rr_start s)) = rr_view s"
proof -
  have "rr_view (fold (\<lambda>p. upd_rs p rs_clear) ps u) = rr_view u"
    "rr_view (fold (rr_init_project a b) ps u) = rr_view u" for ps u a b
    by (rule fold_rr_view; simp add: frame_simps)+
  moreover have "rr_view (fst (fold rr_include rs st)) = rr_view (fst st)" for rs st
    by (rule fold_frame [where v = "\<lambda>st. rr_view (fst st)"]) (rule rr_view_include)
  moreover from this have "fold rr_include rs (u, x) = (w, y) \<Longrightarrow> rr_view w = rr_view u" for rs u x w y
    by (metis fst_conv)
  ultimately show ?thesis
    by (auto simp: rr_start_def Let_def rr_view_shortfall split: prod.split)
qed

lemma rr_simulation_view: "rr_view (rr_simulation s) = rr_view s"
proof -
  obtain s' sim rrs t where f: "rr_finish s = (s', sim, rrs, t)" by (cases "rr_finish s")
  have "rr_view (fst (rr_finish s)) = rr_view s"
    unfolding rr_finish_def rr_loop_view by (rule rr_start_view)
  then show ?thesis by (simp add: rr_simulation_def f Let_def rr_view_shortfall)
qed

interpretation rr_sim: status_preserving rr_simulation
  using rr_simulation_view by unfold_locales (simp add: rr_view_def)

end
