(* ===== verification/CPU_Schedule.thy ===== *)
theory CPU_Schedule
  imports Debt_Accounting RR_Simulation
begin

text \<open>
  The CPU scheduler (\<open>client/cpu_sched.C\<close>): \<open>schedule_cpus\<close> decides which results should
  run and in which order. It first takes results in deadline order
  (\<open>earliest_deadline_result\<close>), then in the order of the projects' debts
  (\<open>assign_results_to_projects\<close>, \<open>largest_debt_project_best_result\<close>), as long as CPUs and
  RAM last.
\<close>

section \<open>Choosing a result\<close>

definition process_exists :: "ACTIVE_TASK \<Rightarrow> bool" where
  "process_exists t = (case at_task_state t of
      PROCESS_EXECUTING \<Rightarrow> True | PROCESS_SUSPENDED \<Rightarrow> True
    | PROCESS_ABORT_PENDING \<Rightarrow> True | PROCESS_QUIT_PENDING \<Rightarrow> True | _ \<Rightarrow> False)"

definition task_runnable :: "ACTIVE_TASK \<Rightarrow> bool" where
  "task_runnable t = (at_task_state t = PROCESS_UNINITIALIZED
     \<or> at_task_state t = PROCESS_EXECUTING \<or> at_task_state t = PROCESS_SUSPENDED)"

text \<open>The three loops of \<open>assign_results_to_projects\<close>.\<close>

definition assign_from_task :: "aid \<Rightarrow> CLIENT_STATE \<Rightarrow> CLIENT_STATE" where
  "assign_from_task a s =
     (let t = task s a; r = at_result t; p = r_project (res s r);
          set_next = upd_proj p (\<lambda>x. x\<lparr>p_next_runnable_result := Some r\<rparr>) s
      in if \<not> task_runnable t then s
         else if r_already_selected (res s r) then s
         else if \<not> result_runnable s r then s
         else case p_next_runnable_result (proj s p) of
           None \<Rightarrow> set_next
         | Some r' \<Rightarrow>
             (case lookup_active_task_by_result s r' of
                None \<Rightarrow> s
              | Some a' \<Rightarrow>
                  if (at_task_state (task s a') = PROCESS_UNINITIALIZED \<and> process_exists t)
                     \<or> (at_scheduler_state (task s a') = CPU_SCHED_PREEMPTED
                        \<and> at_scheduler_state t = CPU_SCHED_SCHEDULED)
                  then set_next else s))"

definition assign_from_result :: "rid \<Rightarrow> CLIENT_STATE \<Rightarrow> CLIENT_STATE" where
  "assign_from_result r s =
     (if r_already_selected (res s r) then s
      else if lookup_active_task_by_result s r \<noteq> None then s
      else if \<not> result_runnable s r then s
      else let p = r_project (res s r) in
        if p_next_runnable_result (proj s p) \<noteq> None then s
        else upd_proj p (\<lambda>x. x\<lparr>p_next_runnable_result := Some r\<rparr>) s)"

definition mark_selected :: "pid \<Rightarrow> CLIENT_STATE \<Rightarrow> CLIENT_STATE" where
  "mark_selected p s =
     (case p_next_runnable_result (proj s p) of
        None \<Rightarrow> s
      | Some r \<Rightarrow> upd_res r (\<lambda>x. x\<lparr>r_already_selected := True\<rparr>) s)"

definition assign_results_to_projects :: "CLIENT_STATE \<Rightarrow> CLIENT_STATE" where
  "assign_results_to_projects s =
     (let s1 = fold assign_from_task (active_tasks s) s;
          s2 = fold assign_from_result (results s1) s1
      in fold mark_selected (projects s2) s2)"

definition best_debt_project :: "CLIENT_STATE \<Rightarrow> pid option" where
  "best_debt_project s =
     fold (\<lambda>p best.
       if p_next_runnable_result (proj s p) = None then best
       else if p_non_cpu_intensive (proj s p) then best
       else case best of None \<Rightarrow> Some p
         | Some b \<Rightarrow> if p_anticipated_debt (proj s p) > p_anticipated_debt (proj s b)
                     then Some p else Some b) (projects s) None"

definition largest_debt_project_best_result :: "CLIENT_STATE \<Rightarrow> rid option \<times> CLIENT_STATE" where
  "largest_debt_project_best_result s =
     (case best_debt_project s of
        None \<Rightarrow> (None, s)
      | Some p \<Rightarrow> (p_next_runnable_result (proj s p),
                  upd_proj p (\<lambda>x. x\<lparr>p_next_runnable_result := None\<rparr>) s))"

definition edf_candidate :: "CLIENT_STATE \<Rightarrow> rid \<Rightarrow> bool" where
  "edf_candidate s r =
     (result_runnable s r \<and> \<not> p_non_cpu_intensive (proj s (r_project (res s r)))
      \<and> \<not> r_already_selected (res s r))"

text \<open>The loop body of \<open>earliest_deadline_result\<close>: the best result so far with its task.\<close>

definition edf_consider ::
  "CLIENT_STATE \<Rightarrow> rid \<Rightarrow> (rid \<times> aid option) option \<Rightarrow> (rid \<times> aid option) option" where
  "edf_consider s r best =
     (if \<not> edf_candidate s r then best
      else case best of
        None \<Rightarrow> Some (r, lookup_active_task_by_result s r)
      | Some (b, batp) \<Rightarrow>
          if r_report_deadline (res s r) < r_report_deadline (res s b)
          then Some (r, lookup_active_task_by_result s r)
          else if r_report_deadline (res s r) > r_report_deadline (res s b) then best
          else let atp = lookup_active_task_by_result s r in
            if batp \<noteq> None \<and> atp = None then best
            else if estimated_cpu_time_remaining s r < estimated_cpu_time_remaining s b
                    \<or> (batp = None \<and> atp \<noteq> None)
            then Some (r, atp) else best)"

definition earliest_deadline_result :: "CLIENT_STATE \<Rightarrow> rid option" where
  "earliest_deadline_result s = map_option fst (fold (edf_consider s) (results s) None)"

section \<open>Scheduling one result\<close>

text \<open>The CPUs used and the RAM left are passed along with the state.\<close>

type_synonym sched_state = "CLIENT_STATE \<times> real \<times> real"

definition take_cpu :: "rid \<Rightarrow> real \<Rightarrow> real \<Rightarrow> sched_state \<Rightarrow> sched_state" where
  "take_cpu r rrs expected_payoff st =
     (case st of (s, ncpus_used, ram_left) \<Rightarrow>
        (upd_proj (r_project (res s r)) (\<lambda>x. x\<lparr>p_anticipated_debt :=
            p_anticipated_debt x - p_resource_share x / rrs * expected_payoff\<rparr>) s,
         ncpus_used + av_avg_ncpus (appver s (r_avp (res s r))), ram_left))"

definition schedule_if_possible ::
  "rid \<Rightarrow> real \<Rightarrow> real \<Rightarrow> sched_state \<Rightarrow> bool \<times> sched_state" where
  "schedule_if_possible r rrs expected_payoff st =
     (case st of (s, ncpus_used, ram_left) \<Rightarrow>
      (case lookup_active_task_by_result s r of
         None \<Rightarrow> (True, take_cpu r rrs expected_payoff (s, ncpus_used, ram_left))
       | Some a \<Rightarrow>
         let wss = at_working_set_size_smoothed (task s a) in
         if wss > ram_left
         then (False, upd_task a (\<lambda>t. t\<lparr>at_too_large := True\<rparr>) s, ncpus_used, ram_left)
         else let s1 = upd_task a (\<lambda>t. t\<lparr>at_too_large := False\<rparr>) s in
           if retry_shmem_time s1 > now s1
           then if \<not> at_shm (task s1 a)
                then (False, upd_task a (\<lambda>t. t\<lparr>at_needs_shmem := True\<rparr>) s1, ncpus_used, ram_left)
                else (True, take_cpu r rrs expected_payoff
                       (upd_task a (\<lambda>t. t\<lparr>at_needs_shmem := False\<rparr>) s1, ncpus_used, ram_left - wss))
           else (True, take_cpu r rrs expected_payoff (s1, ncpus_used, ram_left - wss))))"

section \<open>What scheduling a result keeps\<close>

definition sched_view where
  "sched_view s = (status_view s, active_tasks s, ncpus s, global_prefs s, user_active s, appver s, wunit s, host_info s,
     (\<lambda>a. (at_result (task s a), at_working_set_size_smoothed (task s a),
           at_fraction_done (task s a), at_current_cpu_time (task s a), at_shm (task s a))),
     (\<lambda>r. (r_report_deadline (res s r), r_avp (res s r), r_wup (res s r),
           r_ready_to_report (res s r))), retry_shmem_time s)"

lemma sched_viewD:
  assumes "sched_view s = sched_view t"
  shows "status_view s = status_view t" "active_tasks s = active_tasks t" "ncpus s = ncpus t"
    "appver s = appver t" "wunit s = wunit t" "host_info s = host_info t"
    "at_result (task s a) = at_result (task t a)"
    "at_working_set_size_smoothed (task s a) = at_working_set_size_smoothed (task t a)"
    "at_fraction_done (task s a) = at_fraction_done (task t a)"
    "at_current_cpu_time (task s a) = at_current_cpu_time (task t a)"
    "r_report_deadline (res s r) = r_report_deadline (res t r)"
    "r_avp (res s r) = r_avp (res t r)" "r_wup (res s r) = r_wup (res t r)"
    "r_ready_to_report (res s r) = r_ready_to_report (res t r)"
    "at_shm (task s a) = at_shm (task t a)" "retry_shmem_time s = retry_shmem_time t"
    "global_prefs s = global_prefs t" "user_active s = user_active t"
  using assms by (auto simp: sched_view_def fun_eq_iff)

lemma sched_view_lookup:
  assumes "sched_view s = sched_view t"
  shows "lookup_active_task_by_result s r = lookup_active_task_by_result t r"
  by (simp add: lookup_active_task_by_result_def sched_viewD [OF assms])

lemma sched_view_estimate:
  assumes "sched_view s = sched_view t"
  shows "estimated_cpu_time_remaining s r = estimated_cpu_time_remaining t r"
proof -
  note v = sched_viewD [OF assms]
  have "estimated_cpu_time s r = estimated_cpu_time t r" for r
    by (simp add: estimated_cpu_time_def estimated_cpu_time_uncorrected_def v)
  then have "est_cpu_time_to_completion s a = est_cpu_time_to_completion t a" for a
    by (simp add: est_cpu_time_to_completion_def Let_def v)
  then show ?thesis
    by (simp add: estimated_cpu_time_remaining_def computing_done_def v(14)
        status_viewD [OF v(1)] sched_view_lookup [OF assms]
        \<open>\<And>r. estimated_cpu_time s r = estimated_cpu_time t r\<close> cong: option.case_cong)
qed

lemma sched_view_upd_proj:
  assumes "p_suspended_via_gui (f (proj s p)) = p_suspended_via_gui (proj s p)"
    "p_master_url_fetch_pending (f (proj s p)) = p_master_url_fetch_pending (proj s p)"
    "p_min_rpc_time (f (proj s p)) = p_min_rpc_time (proj s p)"
    "p_dont_request_more_work (f (proj s p)) = p_dont_request_more_work (proj s p)"
    "p_non_cpu_intensive (f (proj s p)) = p_non_cpu_intensive (proj s p)"
    "p_resource_share (f (proj s p)) = p_resource_share (proj s p)"
  shows "sched_view (upd_proj p f s) = sched_view s"
  using assms
  by (simp add: sched_view_def status_view_upd_proj) (simp add: upd_proj_def)

lemma sched_view_upd_res:
  assumes "r_project (f (res s r)) = r_project (res s r)"
    "r_suspended_via_gui (f (res s r)) = r_suspended_via_gui (res s r)"
    "r_state (f (res s r)) = r_state (res s r)"
    "r_report_deadline (f (res s r)) = r_report_deadline (res s r)"
    "r_avp (f (res s r)) = r_avp (res s r)" "r_wup (f (res s r)) = r_wup (res s r)"
    "r_ready_to_report (f (res s r)) = r_ready_to_report (res s r)"
  shows "sched_view (upd_res r f s) = sched_view s"
  using assms
  by (simp add: sched_view_def status_view_upd_res) (auto simp: upd_res_def fun_eq_iff)

lemma sched_view_upd_task:
  assumes "at_result (f (task s a)) = at_result (task s a)"
    "at_working_set_size_smoothed (f (task s a)) = at_working_set_size_smoothed (task s a)"
    "at_fraction_done (f (task s a)) = at_fraction_done (task s a)"
    "at_current_cpu_time (f (task s a)) = at_current_cpu_time (task s a)"
    "at_shm (f (task s a)) = at_shm (task s a)"
  shows "sched_view (upd_task a f s) = sched_view s"
  using assms
  by (simp add: sched_view_def status_view_upd_task) (auto simp: upd_task_def fun_eq_iff)

lemma sched_view_ordered [frame_simps]:
  "sched_view (s\<lparr>ordered_scheduled_results := x\<rparr>) = sched_view s"
  by (simp add: sched_view_def status_view_def)

lemma sched_view_schedule_if_possible [frame_simps]:
  "sched_view (fst (snd (schedule_if_possible r rrs ep st))) = sched_view (fst st)"
  by (simp add: schedule_if_possible_def take_cpu_def Let_def sched_view_upd_proj
      sched_view_upd_task split: prod.split option.split)

lemma res_schedule_if_possible [frame_simps]:
  "res (fst (snd (schedule_if_possible r rrs ep st))) = res (fst st)"
  "ordered_scheduled_results (fst (snd (schedule_if_possible r rrs ep st)))
     = ordered_scheduled_results (fst st)"
  by (simp_all add: schedule_if_possible_def take_cpu_def Let_def upd_proj_def upd_task_def
      split: prod.split option.split)

section \<open>The earliest deadline\<close>

text \<open>
  \<open>edf_no_worse s b r\<close>: \<open>b\<close> comes before or with \<open>r\<close> in the order deadline first, started
  before unstarted, then least remaining CPU time.
\<close>

definition edf_no_worse :: "CLIENT_STATE \<Rightarrow> rid \<Rightarrow> rid \<Rightarrow> bool" where
  "edf_no_worse s b r =
     (r_report_deadline (res s b) < r_report_deadline (res s r)
      \<or> r_report_deadline (res s b) = r_report_deadline (res s r)
        \<and> (lookup_active_task_by_result s b \<noteq> None \<and> lookup_active_task_by_result s r = None
           \<or> (lookup_active_task_by_result s b = None) = (lookup_active_task_by_result s r = None)
             \<and> estimated_cpu_time_remaining s b \<le> estimated_cpu_time_remaining s r))"

lemma edf_consider_choice:
  assumes "edf_candidate s x"
  shows "edf_consider s x (Some (b, lookup_active_task_by_result s b))
           = Some (x, lookup_active_task_by_result s x) \<and> edf_no_worse s x b
    \<or> edf_consider s x (Some (b, lookup_active_task_by_result s b))
           = Some (b, lookup_active_task_by_result s b) \<and> edf_no_worse s b x"
  using assms
  by (cases "r_report_deadline (res s x)" "r_report_deadline (res s b)" rule: linorder_cases;
      cases "lookup_active_task_by_result s x"; cases "lookup_active_task_by_result s b")
    (auto simp: edf_consider_def edf_no_worse_def)

lemma edf_fold_spec:
  "case fold (edf_consider s) xs None of
     None \<Rightarrow> \<forall>r \<in> set xs. \<not> edf_candidate s r
   | Some (b, ba) \<Rightarrow> b \<in> set xs \<and> edf_candidate s b \<and> ba = lookup_active_task_by_result s b
       \<and> (\<forall>r \<in> set xs. edf_candidate s r \<longrightarrow> edf_no_worse s b r)"
proof (induction xs rule: rev_induct)
  case (snoc x xs)
  show ?case
  proof (cases "fold (edf_consider s) xs None")
    case None
    then have "fold (edf_consider s) (xs @ [x]) None
        = (if edf_candidate s x then Some (x, lookup_active_task_by_result s x) else None)"
      by (simp add: edf_consider_def)
    then show ?thesis using snoc None by (auto simp: edf_no_worse_def)
  next
    case (Some bb)
    obtain b ba where bb: "bb = (b, ba)" by (cases bb)
    have IH: "b \<in> set xs" "edf_candidate s b" "ba = lookup_active_task_by_result s b"
      "\<forall>r \<in> set xs. edf_candidate s r \<longrightarrow> edf_no_worse s b r"
      using snoc Some bb by auto
    show ?thesis
    proof (cases "edf_candidate s x")
      case False
      then have "edf_consider s x (Some (b, ba)) = Some (b, ba)"
        by (simp add: edf_consider_def)
      then show ?thesis using IH Some bb False by simp
    next
      case True
      have refl: "edf_no_worse s x x" by (auto simp: edf_no_worse_def)
      have trans: "edf_no_worse s x r" if "edf_no_worse s x b" "edf_no_worse s b r" for r
        using that by (auto simp: edf_no_worse_def)
      consider (new) "edf_consider s x (Some (b, ba)) = Some (x, lookup_active_task_by_result s x)"
          "edf_no_worse s x b"
        | (old) "edf_consider s x (Some (b, ba)) = Some (b, ba)" "edf_no_worse s b x"
        using edf_consider_choice [OF True, of b] IH(3) by blast
      then show ?thesis
        using Some bb IH True refl trans by cases auto
    qed
  qed
qed simp

lemma earliest_deadline_result_Some:
  assumes "earliest_deadline_result s = Some b"
  shows "b \<in> set (results s)" "edf_candidate s b"
    "\<And>r. r \<in> set (results s) \<Longrightarrow> edf_candidate s r \<Longrightarrow> edf_no_worse s b r"
  using edf_fold_spec [of "results s" s] assms
  by (auto simp: earliest_deadline_result_def split: option.splits)

lemma earliest_deadline_result_None:
  "earliest_deadline_result s = None \<longleftrightarrow> (\<forall>r \<in> set (results s). \<not> edf_candidate s r)"
  using edf_fold_spec [of "results s" s]
  by (auto simp: earliest_deadline_result_def split: option.splits)

section \<open>The deadline-order phase\<close>

definition unselected :: "CLIENT_STATE \<Rightarrow> nat" where
  "unselected s = length (filter (\<lambda>r. \<not> r_already_selected (res s r)) (results s))"

definition edf_accept :: "rid \<Rightarrow> CLIENT_STATE \<Rightarrow> CLIENT_STATE" where
  "edf_accept r s =
     (let s1 = upd_proj (r_project (res s r)) (\<lambda>x. x\<lparr>p_deadlines_missed := p_deadlines_missed x - 1\<rparr>) s;
          s2 = upd_res r (\<lambda>x. x\<lparr>r_edf_scheduled := True\<rparr>) s1
      in s2\<lparr>ordered_scheduled_results := ordered_scheduled_results s2 @ [r]\<rparr>)"

definition edf_round :: "real \<Rightarrow> real \<Rightarrow> rid \<Rightarrow> sched_state \<Rightarrow> sched_state" where
  "edf_round rrs expected_payoff r st =
     (case st of (s, ncpus_used, ram_left) \<Rightarrow>
      let s1 = upd_res r (\<lambda>x. x\<lparr>r_already_selected := True\<rparr>) s in
      case schedule_if_possible r rrs expected_payoff (s1, ncpus_used, ram_left) of
        (ok, s2, nu, ram) \<Rightarrow> if \<not> ok then (s2, nu, ram) else (edf_accept r s2, nu, ram))"

lemma edf_round_shape:
  obtains ok s2 nu' ram' where
    "schedule_if_possible r rrs ep (upd_res r (\<lambda>x. x\<lparr>r_already_selected := True\<rparr>) s, nu, ram)
       = (ok, s2, nu', ram')"
    "edf_round rrs ep r (s, nu, ram) = (if ok then edf_accept r s2 else s2, nu', ram')"
    "res s2 = (res s)(r := (res s r)\<lparr>r_already_selected := True\<rparr>)"
    "ordered_scheduled_results s2 = ordered_scheduled_results s"
    "sched_view s2 = sched_view s"
proof -
  let ?s1 = "upd_res r (\<lambda>x. x\<lparr>r_already_selected := True\<rparr>) s"
  obtain ok s2 nu' ram' where p: "schedule_if_possible r rrs ep (?s1, nu, ram) = (ok, s2, nu', ram')"
    by (cases "schedule_if_possible r rrs ep (?s1, nu, ram)")
  have e: "edf_round rrs ep r (s, nu, ram) = (if ok then edf_accept r s2 else s2, nu', ram')"
    by (simp add: edf_round_def p Let_def)
  have "res s2 = res ?s1" "ordered_scheduled_results s2 = ordered_scheduled_results ?s1"
    "sched_view s2 = sched_view ?s1"
    using res_schedule_if_possible [of r rrs ep "(?s1, nu, ram)"]
      sched_view_schedule_if_possible [of r rrs ep "(?s1, nu, ram)"] p by simp_all
  moreover have "sched_view ?s1 = sched_view s" by (simp add: sched_view_upd_res)
  ultimately show thesis
    using that [OF p e] by (simp add: upd_res_def)
qed

lemma edf_accept_simps:
  "res (edf_accept r s) = (res s)(r := (res s r)\<lparr>r_edf_scheduled := True\<rparr>)"
  "ordered_scheduled_results (edf_accept r s) = ordered_scheduled_results s @ [r]"
  "sched_view (edf_accept r s) = sched_view s"
  by (simp add: edf_accept_def Let_def upd_res_def upd_proj_def,
      simp add: edf_accept_def Let_def upd_res_def upd_proj_def,
      simp add: edf_accept_def Let_def frame_simps sched_view_upd_res sched_view_upd_proj)

lemma selected_edf_round:
  "r_already_selected (res (fst (edf_round rrs ep r (s, nu, ram))) q)
     = (q = r \<or> r_already_selected (res s q))"
proof (cases rule: edf_round_shape [of r rrs ep s nu ram])
  case (1 ok s2 nu' ram')
  then show ?thesis by (simp add: edf_accept_simps)
qed

lemma sched_view_edf_round [frame_simps]:
  "sched_view (fst (edf_round rrs ep r (s, nu, ram))) = sched_view s"
proof (cases rule: edf_round_shape [of r rrs ep s nu ram])
  case (1 ok s2 nu' ram')
  then show ?thesis by (simp add: edf_accept_simps)
qed

lemma unselected_edf_round:
  assumes "earliest_deadline_result s = Some r"
  shows "unselected (fst (edf_round rrs ep r (s, nu, ram))) < unselected s"
proof -
  let ?s' = "fst (edf_round rrs ep r (s, nu, ram))"
  have r: "r \<in> set (results s)" "\<not> r_already_selected (res s r)"
    using earliest_deadline_result_Some(1,2) [OF assms] by (auto simp: edf_candidate_def)
  have res: "results ?s' = results s"
    by (rule status_viewD(3) [OF sched_viewD(1) [OF sched_view_edf_round]])
  have sel: "r_already_selected (res ?s' q) = (q = r \<or> r_already_selected (res s q))" for q
    by (rule selected_edf_round)
  have "filter (\<lambda>q. \<not> r_already_selected (res ?s' q)) (results s)
      = filter (\<lambda>q. q \<noteq> r) (filter (\<lambda>q. \<not> r_already_selected (res s q)) (results s))"
    by (simp add: sel conj_commute)
  also have "length \<dots> < length (filter (\<lambda>q. \<not> r_already_selected (res s q)) (results s))"
    using r by (intro length_filter_less [of r]) auto
  finally show ?thesis by (simp add: unselected_def res)
qed

text \<open>\<open>while (ncpus_used < ncpus)\<close>: take the earliest deadline until CPUs or results run out.\<close>

function edf_loop :: "real \<Rightarrow> real \<Rightarrow> sched_state \<Rightarrow> sched_state" where
  "edf_loop rrs expected_payoff (s, ncpus_used, ram_left) =
     (if ncpus_used < real_of_int (ncpus s)
      then case earliest_deadline_result s of
             None \<Rightarrow> (s, ncpus_used, ram_left)
           | Some r \<Rightarrow> edf_loop rrs expected_payoff
                        (edf_round rrs expected_payoff r (s, ncpus_used, ram_left))
      else (s, ncpus_used, ram_left))"
  by pat_completeness auto
termination
  by (relation "measure (\<lambda>(rrs, ep, st). unselected (fst st))") (auto intro: unselected_edf_round)

declare edf_loop.simps [simp del]

section \<open>The debt-order phase and the whole scheduler\<close>

text \<open>
  The second loop of \<open>schedule_cpus\<close>. Its fuel is the number of results plus one; the
  theorem on \<open>schedule_cpus\<close> below shows that it stops in its first round.
\<close>

fun debt_loop :: "nat \<Rightarrow> real \<Rightarrow> real \<Rightarrow> sched_state \<Rightarrow> sched_state" where
  "debt_loop 0 rrs expected_payoff st = st"
| "debt_loop (Suc fuel) rrs expected_payoff (s, ncpus_used, ram_left) =
     (if ncpus_used < real_of_int (ncpus s)
      then case largest_debt_project_best_result (assign_results_to_projects s) of
             (None, s1) \<Rightarrow> (s1, ncpus_used, ram_left)
           | (Some r, s1) \<Rightarrow>
               (case schedule_if_possible r rrs expected_payoff (s1, ncpus_used, ram_left) of
                  (ok, s2, nu, ram) \<Rightarrow>
                    if \<not> ok then debt_loop fuel rrs expected_payoff (s2, nu, ram)
                    else debt_loop fuel rrs expected_payoff
                      (s2\<lparr>ordered_scheduled_results := ordered_scheduled_results s2 @ [r]\<rparr>, nu, ram))
      else (s, ncpus_used, ram_left))"

definition request_enforce_schedule :: "CLIENT_STATE \<Rightarrow> CLIENT_STATE" where
  "request_enforce_schedule s = s\<lparr>must_enforce_cpu_schedule := True\<rparr>"

definition request_schedule_cpus :: "CLIENT_STATE \<Rightarrow> CLIENT_STATE" where
  "request_schedule_cpus s = s\<lparr>must_schedule_cpus := True\<rparr>"

text \<open>The temporaries that \<open>schedule_cpus\<close> sets before its two loops.\<close>

definition sched_init :: "CLIENT_STATE \<Rightarrow> CLIENT_STATE" where
  "sched_init s =
     (let s1 = fold (\<lambda>r. upd_res r (\<lambda>x. x\<lparr>r_already_selected := False, r_edf_scheduled := False\<rparr>))
                 (results s) s;
          s2 = fold (\<lambda>p. upd_proj p (\<lambda>x. x\<lparr>p_next_runnable_result := None,
                 p_anticipated_debt := p_short_term_debt x,
                 p_deadlines_missed := rs_deadlines_missed (p_rr_sim_status x)\<rparr>)) (projects s1) s1;
          s3 = fold (\<lambda>a. upd_task a (\<lambda>t. t\<lparr>at_too_large := False\<rparr>)) (active_tasks s2) s2
      in s3\<lparr>ordered_scheduled_results := []\<rparr>)"

definition edf_phase :: "CLIENT_STATE \<Rightarrow> sched_state" where
  "edf_phase s =
     (let s1 = sched_init (adjust_debts (rr_simulation s))
      in edf_loop (runnable_resource_share s) (cpu_scheduling_period s1)
           (s1, 0, available_ram s1))"

definition schedule_cpus :: "CLIENT_STATE \<Rightarrow> CLIENT_STATE" where
  "schedule_cpus s =
     request_enforce_schedule
       (fst (debt_loop (Suc (length (results s))) (runnable_resource_share s)
               (cpu_scheduling_period s) (edf_phase s)))"

definition possibly_schedule_cpus :: "CLIENT_STATE \<Rightarrow> bool \<times> CLIENT_STATE" where
  "possibly_schedule_cpus s =
     (if projects s = [] then (False, s)
      else if results s = [] then (False, s)
      else let s1 = (if now s - last_reschedule s \<ge> cpu_scheduling_period s
                     then request_schedule_cpus s else s)
           in if \<not> must_schedule_cpus s1 then (False, s1)
              else (True, schedule_cpus (s1\<lparr>last_reschedule := now s1, must_schedule_cpus := False\<rparr>)))"

section \<open>The invariant of the deadline-order phase\<close>

definition cpus_of :: "CLIENT_STATE \<Rightarrow> rid list \<Rightarrow> real" where
  "cpus_of s rs = sum_list (map (\<lambda>r. av_avg_ncpus (appver s (r_avp (res s r)))) rs)"

text \<open>The RAM a result's task holds; a result without a task holds none.\<close>

definition wss_of :: "CLIENT_STATE \<Rightarrow> rid \<Rightarrow> real" where
  "wss_of s r = (case lookup_active_task_by_result s r of
     None \<Rightarrow> 0 | Some a \<Rightarrow> at_working_set_size_smoothed (task s a))"

definition cpu_runnable :: "CLIENT_STATE \<Rightarrow> rid \<Rightarrow> bool" where
  "cpu_runnable s r =
     (result_runnable s r \<and> \<not> p_non_cpu_intensive (proj s (r_project (res s r))))"

definition held_back :: "CLIENT_STATE \<Rightarrow> rid \<Rightarrow> bool" where
  "held_back s r = (case lookup_active_task_by_result s r of
     None \<Rightarrow> False | Some a \<Rightarrow> at_too_large (task s a) \<or> at_needs_shmem (task s a))"

definition edf_inv :: "real \<Rightarrow> sched_state \<Rightarrow> bool" where
  "edf_inv ram0 st = (case st of (s, nu, ram) \<Rightarrow>
     let ord = ordered_scheduled_results s in
     distinct ord
     \<and> (\<forall>r \<in> set ord. r \<in> set (results s) \<and> cpu_runnable s r
          \<and> r_already_selected (res s r) \<and> r_edf_scheduled (res s r))
     \<and> sorted (map (\<lambda>r. r_report_deadline (res s r)) ord)
     \<and> (\<forall>x \<in> set ord. \<forall>r \<in> set (results s). edf_candidate s r
          \<longrightarrow> r_report_deadline (res s x) \<le> r_report_deadline (res s r))
     \<and> nu = cpus_of s ord
     \<and> (ord \<noteq> [] \<longrightarrow> cpus_of s (butlast ord) < real_of_int (ncpus s))
     \<and> ram = ram0 - sum_list (map (wss_of s) ord)
     \<and> (0 \<le> ram0 \<longrightarrow> 0 \<le> ram)
     \<and> (\<forall>r \<in> set (results s). r_already_selected (res s r) \<longrightarrow> r \<in> set ord \<or> held_back s r))"

lemma sched_view_derived:
  assumes "sched_view s = sched_view t"
  shows "cpus_of s rs = cpus_of t rs" "wss_of s r = wss_of t r" "cpu_runnable s r = cpu_runnable t r"
    "results s = results t" "r_project (res s r) = r_project (res t r)"
  by (simp_all add: cpus_of_def wss_of_def cpu_runnable_def sched_viewD [OF assms]
      status_viewD [OF sched_viewD(1) [OF assms]] sched_view_lookup [OF assms]
      status_view_preds(1) [OF sched_viewD(1) [OF assms]] cong: option.case_cong)

lemma edf_candidate_alt:
  "edf_candidate s r = (cpu_runnable s r \<and> \<not> r_already_selected (res s r))"
  by (auto simp: edf_candidate_def cpu_runnable_def)

lemma lookup_result:
  "lookup_active_task_by_result s r = Some a \<Longrightarrow> a \<in> set (active_tasks s) \<and> at_result (task s a) = r"
  unfolding lookup_active_task_by_result_def by (auto dest: find_Some_iff [THEN iffD1] simp: in_set_conv_nth)

lemma schedule_if_possible_effect:
  assumes "schedule_if_possible r rrs ep (s, nu, ram) = (ok, s2, nu2, ram2)"
  shows "ok \<Longrightarrow> nu2 = nu + av_avg_ncpus (appver s (r_avp (res s r)))"
    "ok \<Longrightarrow> ram2 = ram - wss_of s r" "ok \<Longrightarrow> wss_of s r \<le> ram \<or> wss_of s r = 0"
    "\<not> ok \<Longrightarrow> nu2 = nu \<and> ram2 = ram"
    "\<not> ok \<Longrightarrow> held_back s2 r"
    "q \<noteq> r \<Longrightarrow> held_back s2 q = held_back s q"
proof -
  have v: "sched_view s2 = sched_view s"
    using sched_view_schedule_if_possible [of r rrs ep "(s, nu, ram)"] assms by simp
  note L = sched_view_lookup [OF v]
  show "ok \<Longrightarrow> nu2 = nu + av_avg_ncpus (appver s (r_avp (res s r)))"
    "ok \<Longrightarrow> ram2 = ram - wss_of s r" "ok \<Longrightarrow> wss_of s r \<le> ram \<or> wss_of s r = 0"
    "\<not> ok \<Longrightarrow> nu2 = nu \<and> ram2 = ram"
    using assms
    by (auto simp: schedule_if_possible_def take_cpu_def Let_def wss_of_def upd_task_def
        split: option.splits if_splits)
  show "held_back s2 r" if "\<not> ok"
    using assms that unfolding held_back_def L
    by (auto simp: schedule_if_possible_def take_cpu_def Let_def upd_task_def
        split: option.splits if_splits)
  show "held_back s2 q = held_back s q" if "q \<noteq> r"
  proof (cases "lookup_active_task_by_result s q")
    case None
    then show ?thesis by (simp add: held_back_def L)
  next
    case (Some a)
    have "task s2 a = task s a"
      using assms lookup_result [OF Some] that
      by (auto simp: schedule_if_possible_def take_cpu_def Let_def upd_task_def upd_proj_def
          dest: lookup_result split: option.splits if_splits)
    then show ?thesis using Some by (simp add: held_back_def L)
  qed
qed

lemma edf_inv_unfold:
  "edf_inv ram0 (s, nu, ram) \<longleftrightarrow>
     distinct (ordered_scheduled_results s)
     \<and> (\<forall>r \<in> set (ordered_scheduled_results s). r \<in> set (results s) \<and> cpu_runnable s r
          \<and> r_already_selected (res s r) \<and> r_edf_scheduled (res s r))
     \<and> sorted (map (\<lambda>r. r_report_deadline (res s r)) (ordered_scheduled_results s))
     \<and> (\<forall>x \<in> set (ordered_scheduled_results s). \<forall>r \<in> set (results s). edf_candidate s r
          \<longrightarrow> r_report_deadline (res s x) \<le> r_report_deadline (res s r))
     \<and> nu = cpus_of s (ordered_scheduled_results s)
     \<and> (ordered_scheduled_results s \<noteq> []
          \<longrightarrow> cpus_of s (butlast (ordered_scheduled_results s)) < real_of_int (ncpus s))
     \<and> ram = ram0 - sum_list (map (wss_of s) (ordered_scheduled_results s))
     \<and> (0 \<le> ram0 \<longrightarrow> 0 \<le> ram)
     \<and> (\<forall>r \<in> set (results s). r_already_selected (res s r)
          \<longrightarrow> r \<in> set (ordered_scheduled_results s) \<or> held_back s r)"
  by (simp add: edf_inv_def Let_def)

lemma edf_invD:
  assumes "edf_inv ram0 (s, nu, ram)"
  shows "distinct (ordered_scheduled_results s)"
    "r \<in> set (ordered_scheduled_results s) \<Longrightarrow> r \<in> set (results s) \<and> cpu_runnable s r
       \<and> r_already_selected (res s r) \<and> r_edf_scheduled (res s r)"
    "sorted (map (\<lambda>r. r_report_deadline (res s r)) (ordered_scheduled_results s))"
    "x \<in> set (ordered_scheduled_results s) \<Longrightarrow> r \<in> set (results s) \<Longrightarrow> edf_candidate s r
       \<Longrightarrow> r_report_deadline (res s x) \<le> r_report_deadline (res s r)"
    "nu = cpus_of s (ordered_scheduled_results s)"
    "ordered_scheduled_results s \<noteq> []
       \<Longrightarrow> cpus_of s (butlast (ordered_scheduled_results s)) < real_of_int (ncpus s)"
    "ram = ram0 - sum_list (map (wss_of s) (ordered_scheduled_results s))" "0 \<le> ram0 \<Longrightarrow> 0 \<le> ram"
    "r \<in> set (results s) \<Longrightarrow> r_already_selected (res s r)
       \<Longrightarrow> r \<in> set (ordered_scheduled_results s) \<or> held_back s r"
  using assms by (simp_all add: edf_inv_unfold)

text \<open>A rejected result is selected and held back; everything else stays.\<close>

lemma edf_inv_reject:
  assumes inv: "edf_inv ram0 (s, nu, ram)" and v: "sched_view s2 = sched_view s"
    and r: "res s2 = (res s)(r := (res s r)\<lparr>r_already_selected := True\<rparr>)"
    and o: "ordered_scheduled_results s2 = ordered_scheduled_results s"
    and h: "held_back s2 r" "\<And>q. q \<noteq> r \<Longrightarrow> held_back s2 q = held_back s q"
  shows "edf_inv ram0 (s2, nu, ram)"
proof -
  have sel: "r_already_selected (res s2 q) = (q = r \<or> r_already_selected (res s q))" for q
    by (simp add: r)
  have edf: "r_edf_scheduled (res s2 q) = r_edf_scheduled (res s q)" for q by (simp add: r)
  note d = sched_view_derived [OF v] sched_viewD(3,11) [OF v]
  have w: "wss_of s2 = wss_of s" by (rule ext) (rule d)
  have hb: "q = r \<or> held_back s q \<Longrightarrow> held_back s2 q" for q
    using h by (cases "q = r") auto
  show ?thesis
    using inv by (auto simp: edf_inv_unfold edf_candidate_alt d o sel edf w intro: hb)
qed

lemma cpus_of_append [simp]: "cpus_of s (xs @ ys) = cpus_of s xs + cpus_of s ys"
  and cpus_of_single: "cpus_of s [r] = av_avg_ncpus (appver s (r_avp (res s r)))"
  by (simp_all add: cpus_of_def)

lemma edf_inv_accept:
  assumes inv: "edf_inv ram0 (s, nu, ram)" and v: "sched_view s2 = sched_view s"
    and r: "res s2 = (res s)(r := (res s r)\<lparr>r_already_selected := True, r_edf_scheduled := True\<rparr>)"
    and o: "ordered_scheduled_results s2 = ordered_scheduled_results s @ [r]"
    and h: "\<And>q. q \<noteq> r \<Longrightarrow> held_back s2 q = held_back s q"
    and first: "r \<in> set (results s)" "edf_candidate s r"
      "\<And>q. q \<in> set (results s) \<Longrightarrow> edf_candidate s q \<Longrightarrow> edf_no_worse s r q"
    and cpu: "nu < real_of_int (ncpus s)"
    and ram: "wss_of s r \<le> ram \<or> wss_of s r = 0"
  shows "edf_inv ram0 (s2, nu + av_avg_ncpus (appver s (r_avp (res s r))), ram - wss_of s r)"
proof -
  let ?o = "ordered_scheduled_results s"
  have sel: "r_already_selected (res s2 q) = (q = r \<or> r_already_selected (res s q))" for q
    by (simp add: r)
  have edf: "r_edf_scheduled (res s2 q) = (q = r \<or> r_edf_scheduled (res s q))" for q by (simp add: r)
  note d = sched_view_derived [OF v] sched_viewD(3,11) [OF v]
  have w: "wss_of s2 = wss_of s" by (rule ext) (rule d)
  have new: "r \<notin> set ?o"
    using inv first(2) unfolding edf_inv_unfold edf_candidate_alt by blast
  have best: "r_report_deadline (res s r) \<le> r_report_deadline (res s q)"
    if "q \<in> set (results s)" "edf_candidate s q" for q
    using first(3) [OF that] unfolding edf_no_worse_def by argo
  have last: "r_report_deadline (res s x) \<le> r_report_deadline (res s r)" if "x \<in> set ?o" for x
    using inv first(1,2) that unfolding edf_inv_unfold by blast
  have cr: "cpu_runnable s r" using first(2) by (simp add: edf_candidate_alt)
  have srt: "sorted (map (\<lambda>r. r_report_deadline (res s r)) (?o @ [r]))"
    using inv last unfolding edf_inv_unfold by (auto simp: sorted_append)
  show ?thesis
    using inv h new best cr first(1) cpu ram srt
    unfolding edf_inv_unfold edf_candidate_alt d o sel edf w
    by (auto simp: cpus_of_single butlast_append)
qed

lemma edf_inv_round:
  assumes inv: "edf_inv ram0 (s, nu, ram)" and r: "earliest_deadline_result s = Some r"
    and cpu: "nu < real_of_int (ncpus s)"
  shows "edf_inv ram0 (edf_round rrs ep r (s, nu, ram))"
proof (cases rule: edf_round_shape [of r rrs ep s nu ram])
  case (1 ok s2 nu' ram')
  let ?s1 = "upd_res r (\<lambda>x. x\<lparr>r_already_selected := True\<rparr>) s"
  have v1: "sched_view ?s1 = sched_view s" by (simp add: sched_view_upd_res)
  note eff = schedule_if_possible_effect [OF 1(1)]
  have h1: "held_back ?s1 q = held_back s q" for q
    by (simp add: held_back_def sched_view_lookup [OF v1] split: option.split)
      (simp add: upd_res_def)
  have av: "av_avg_ncpus (appver ?s1 (r_avp (res ?s1 r))) = av_avg_ncpus (appver s (r_avp (res s r)))"
    by (simp add: upd_res_def)
  note first = earliest_deadline_result_Some [OF r]
  show ?thesis
  proof (cases ok)
    case False
    then show ?thesis
      using edf_inv_reject [OF inv 1(5,3,4)] eff(4,5,6) 1(2) h1 by simp
  next
    case True
    have "held_back (edf_accept r s2) q = held_back s q" if "q \<noteq> r" for q
    proof -
      have "held_back (edf_accept r s2) q = held_back s2 q"
        unfolding held_back_def sched_view_lookup [OF edf_accept_simps(3)]
        by (simp add: edf_accept_def Let_def upd_res_def upd_proj_def split: option.split)
      then show ?thesis using eff(6) [OF that] h1 by simp
    qed
    moreover have "res (edf_accept r s2)
        = (res s)(r := (res s r)\<lparr>r_already_selected := True, r_edf_scheduled := True\<rparr>)"
      by (simp add: edf_accept_simps 1(3))
    ultimately show ?thesis
      using edf_inv_accept [OF inv, of "edf_accept r s2" r] first cpu 1(2,4,5) True
        eff(1,2,3) [OF True] av sched_view_derived(2) [OF v1]
      by (simp add: edf_accept_simps)
  qed
qed

lemma edf_inv_loop: "edf_inv ram0 st \<Longrightarrow> edf_inv ram0 (edf_loop rrs ep st)"
proof (induction rrs ep st rule: edf_loop.induct)
  case (1 rrs ep s nu ram)
  show ?case
  proof (cases "nu < real_of_int (ncpus s) \<and> earliest_deadline_result s \<noteq> None")
    case False
    then show ?thesis using 1 by (subst edf_loop.simps) auto
  next
    case True
    then obtain r where r: "earliest_deadline_result s = Some r" by auto
    then show ?thesis
      using 1 True edf_inv_round [OF 1(2) r] by (subst edf_loop.simps) auto
  qed
qed

lemma sched_view_edf_loop [frame_simps]:
  "sched_view (fst (edf_loop rrs ep st)) = sched_view (fst st)"
proof (induction rrs ep st rule: edf_loop.induct)
  case (1 rrs ep s nu ram)
  then show ?case
    by (subst edf_loop.simps) (auto simp: sched_view_edf_round split: option.split)
qed

lemma edf_loop_exit:
  assumes "edf_loop rrs ep st = (s', nu', ram')"
  shows "real_of_int (ncpus s') \<le> nu' \<or> earliest_deadline_result s' = None"
  using assms
proof (induction rrs ep st rule: edf_loop.induct)
  case (1 rrs ep s nu ram)
  show ?case
  proof (cases "nu < real_of_int (ncpus s) \<and> earliest_deadline_result s \<noteq> None")
    case False
    then show ?thesis
      using 1(2) by (subst (asm) edf_loop.simps) (auto split: if_splits option.splits)
  next
    case True
    then obtain r where r: "earliest_deadline_result s = Some r" by auto
    then show ?thesis
      using 1(2) True 1(1) [OF _ r] by (subst (asm) edf_loop.simps) auto
  qed
qed

section \<open>The debt-order phase finds nothing left\<close>

text \<open>
  When the deadline-order loop stops with CPUs to spare, no result is a candidate any more.
  What \<open>assign_results_to_projects\<close> then finds belongs to non-CPU-intensive projects, which
  \<open>largest_debt_project_best_result\<close> passes over.
\<close>

definition exhausted :: "CLIENT_STATE \<Rightarrow> bool" where
  "exhausted s = (\<forall>p. p_next_runnable_result (proj s p) \<noteq> None \<longrightarrow> p \<in> set (projects s)
     \<longrightarrow> p_non_cpu_intensive (proj s p))"

lemma assign_from_task_keeps:
  "sched_view (assign_from_task a s) = sched_view s" "res (assign_from_task a s) = res s"
  "ordered_scheduled_results (assign_from_task a s) = ordered_scheduled_results s"
  "task (assign_from_task a s) = task s"
  unfolding assign_from_task_def
  by (auto simp: Let_def sched_view_upd_proj split: option.split)
    (simp_all add: upd_proj_def)

lemma assign_from_result_keeps:
  "sched_view (assign_from_result r s) = sched_view s" "res (assign_from_result r s) = res s"
  "ordered_scheduled_results (assign_from_result r s) = ordered_scheduled_results s"
  "task (assign_from_result r s) = task s"
  unfolding assign_from_result_def
  by (auto simp: Let_def sched_view_upd_proj) (simp_all add: upd_proj_def)

lemma mark_selected_keeps:
  "sched_view (mark_selected p s) = sched_view s" "proj (mark_selected p s) = proj s"
  "ordered_scheduled_results (mark_selected p s) = ordered_scheduled_results s"
  "task (mark_selected p s) = task s"
  "(\<lambda>r. r_edf_scheduled (res (mark_selected p s) r)) = (\<lambda>r. r_edf_scheduled (res s r))"
  unfolding mark_selected_def
  by (auto simp: sched_view_upd_res split: option.split) (simp_all add: upd_res_def fun_eq_iff)

lemma exhausted_next:
  assumes "exhausted s" "r_already_selected (res s r) \<or> \<not> cpu_runnable s r"
    "\<not> r_already_selected (res s r)" "result_runnable s r"
  shows "exhausted (upd_proj (r_project (res s r)) (\<lambda>x. x\<lparr>p_next_runnable_result := Some r'\<rparr>) s)"
  using assms by (auto simp: exhausted_def cpu_runnable_def upd_proj_def)

lemma exhausted_assign_from_task:
  assumes "exhausted s" "r_already_selected (res s (at_result (task s a)))
      \<or> \<not> cpu_runnable s (at_result (task s a))"
  shows "exhausted (assign_from_task a s)"
  using assms exhausted_next [OF assms(1), of "at_result (task s a)"]
  by (auto simp: assign_from_task_def Let_def split: option.split)

lemma exhausted_assign_from_result:
  assumes "exhausted s" "r_already_selected (res s r) \<or> \<not> cpu_runnable s r"
  shows "exhausted (assign_from_result r s)"
  using assms exhausted_next [OF assms(1), of r]
  by (auto simp: assign_from_result_def Let_def)

lemma assign_results_exhausted:
  assumes none: "\<forall>r \<in> set (results s). \<not> edf_candidate s r"
    and tasks: "\<forall>a \<in> set (active_tasks s). at_result (task s a) \<in> set (results s)"
    and ex: "exhausted s"
  shows "sched_view (assign_results_to_projects s) = sched_view s"
    "ordered_scheduled_results (assign_results_to_projects s) = ordered_scheduled_results s"
    "exhausted (assign_results_to_projects s)" "task (assign_results_to_projects s) = task s"
    "r_edf_scheduled (res (assign_results_to_projects s) r) = r_edf_scheduled (res s r)"
proof -
  let ?s1 = "fold assign_from_task (active_tasks s) s"
  define P where "P t \<longleftrightarrow> sched_view t = sched_view s \<and> res t = res s \<and> exhausted t
    \<and> ordered_scheduled_results t = ordered_scheduled_results s \<and> task t = task s" for t
  have none': "r_already_selected (res t r) \<or> \<not> cpu_runnable t r"
    if "P t" "r \<in> set (results s)" for t r
    using that none sched_view_derived(3) [of t s r] by (auto simp: P_def edf_candidate_alt)
  have "P ?s1"
  proof (rule fold_preserves)
    show "P s" using ex by (simp add: P_def)
    fix a t assume a: "a \<in> set (active_tasks s)" and P: "P t"
    have "at_result (task t a) \<in> set (results s)"
      using P tasks a sched_viewD(7) [of t s a] by (auto simp: P_def)
    from none' [OF P this] P show "P (assign_from_task a t)"
      by (simp add: P_def assign_from_task_keeps exhausted_assign_from_task)
  qed
  then have r1: "results ?s1 = results s"
    using sched_view_derived(4) [of ?s1 s] by (simp add: P_def)
  have P2: "P (fold assign_from_result (results ?s1) ?s1)"
  proof (rule fold_preserves)
    show "P ?s1" by fact
    fix r t assume "r \<in> set (results ?s1)" and P: "P t"
    then have "r_already_selected (res t r) \<or> \<not> cpu_runnable t r" using none' r1 by simp
    with P show "P (assign_from_result r t)"
      by (simp add: P_def assign_from_result_keeps exhausted_assign_from_result)
  qed
  let ?s2 = "fold assign_from_result (results ?s1) ?s1"
  have m: "sched_view (fold mark_selected ps t) = sched_view t"
    "proj (fold mark_selected ps t) = proj t"
    "ordered_scheduled_results (fold mark_selected ps t) = ordered_scheduled_results t"
    "task (fold mark_selected ps t) = task t" for ps t
    by (rule fold_frame, rule mark_selected_keeps)+
  have e: "r_edf_scheduled (res (fold mark_selected ps t) r) = r_edf_scheduled (res t r)" for ps t
    using fold_frame [of ps "\<lambda>t. (\<lambda>r. r_edf_scheduled (res t r))" mark_selected t]
      mark_selected_keeps(5) by (simp add: fun_eq_iff)
  have "projects (fold mark_selected (projects ?s2) ?s2) = projects ?s2"
    by (rule status_viewD(2) [OF sched_viewD(1) [OF m(1)]])
  then show "sched_view (assign_results_to_projects s) = sched_view s"
    "ordered_scheduled_results (assign_results_to_projects s) = ordered_scheduled_results s"
    "exhausted (assign_results_to_projects s)" "task (assign_results_to_projects s) = task s"
    "r_edf_scheduled (res (assign_results_to_projects s) r) = r_edf_scheduled (res s r)"
    using P2 by (simp_all add: assign_results_to_projects_def Let_def P_def exhausted_def m e)
qed

lemma best_debt_project_exhausted:
  assumes "exhausted s"
  shows "best_debt_project s = None"
  unfolding best_debt_project_def
  by (rule fold_preserves [where P = "\<lambda>b. b = None"]) (use assms in \<open>auto simp: exhausted_def\<close>)

section \<open>The scheduler as a whole\<close>

lemma sched_view_fields [frame_simps]:
  "sched_view (s\<lparr>total_wall_cpu_time_this_debt_interval := a\<rparr>) = sched_view s"
  "sched_view (s\<lparr>total_cpu_time_this_debt_interval := b\<rparr>) = sched_view s"
  "sched_view (s\<lparr>debt_interval_start := c\<rparr>) = sched_view s"
  "sched_view (s\<lparr>time_stats := ts\<rparr>) = sched_view s"
  "sched_view (s\<lparr>must_enforce_cpu_schedule := e\<rparr>) = sched_view s"
  by (simp_all add: sched_view_def status_view_def)

lemma fold_sched_view:
  "(\<And>x s. sched_view (f x s) = sched_view s) \<Longrightarrow> sched_view (fold f xs s) = sched_view s"
  by (rule fold_frame)

lemma sched_view_adjust_debts [frame_simps]: "sched_view (adjust_debts s) = sched_view s"
proof -
  have r1: "sched_view (fold (\<lambda>p. upd_proj p (\<lambda>x. x\<lparr>p_wall_cpu_time_this_debt_interval := 0\<rparr>)) ps t)
      = sched_view t" for ps t
    by (rule fold_sched_view) (simp add: sched_view_upd_proj)
  have r2: "sched_view (fold (\<lambda>a. upd_task a
      (\<lambda>t. t\<lparr>at_debt_interval_start_cpu_time := at_current_cpu_time t\<rparr>)) as t) = sched_view t" for as t
    by (rule fold_sched_view) (simp add: sched_view_upd_task)
  have r: "sched_view (reset_debt_accounting t) = sched_view t" for t
    by (simp add: reset_debt_accounting_def Let_def frame_simps r1 r2)
  have c: "sched_view (fold (charge_task w) as t) = sched_view t" for w as t
    by (rule fold_sched_view) (simp add: charge_task_def Let_def frame_simps sched_view_upd_proj)
  have n: "sched_view (fold (normalize_project al as) ps t) = sched_view t" for al as ps t
    by (rule fold_sched_view) (simp add: normalize_project_def Let_def sched_view_upd_proj)
  have k: "sched_view (fst (fold (credit_project prrs rrs) ps st)) = sched_view (fst st)"
    for prrs rrs ps st
    by (rule fold_frame [where v = "\<lambda>st. sched_view (fst st)"])
      (simp add: credit_project_def Let_def sched_view_upd_proj split: prod.split)
  have k': "fold (credit_project prrs rrs) ps (t, d) = (u, d') \<Longrightarrow> sched_view u = sched_view t"
    for prrs rrs ps t d u d'
    using k [of prrs rrs ps "(t, d)"] by simp
  show ?thesis
    by (auto simp: adjust_debts_def Let_def frame_simps c n r dest!: k' split: prod.split)
qed

lemma rr_rest_sched_view:
  "status_view s = status_view t \<Longrightarrow> rr_rest s = rr_rest t \<Longrightarrow> sched_view s = sched_view t"
proof -
  have "sched_view (rr_rest s) = sched_view s" for s
    by (simp add: sched_view_def status_view_def rr_rest_def rr_blank_def)
  then show "rr_rest s = rr_rest t \<Longrightarrow> sched_view s = sched_view t" by metis
qed

lemma sched_view_rr_simulation [frame_simps]: "sched_view (rr_simulation s) = sched_view s"
  using rr_simulation_view [of s] by (auto simp: rr_view_def intro: rr_rest_sched_view)

lemma sched_init_effect:
  "sched_view (sched_init s) = sched_view s" "ordered_scheduled_results (sched_init s) = []"
  "r \<in> set (results s) \<Longrightarrow> \<not> r_already_selected (res (sched_init s) r)"
  "exhausted (sched_init s)"
proof -
  define fr where "fr = (\<lambda>r. upd_res r (\<lambda>x. x\<lparr>r_already_selected := False, r_edf_scheduled := False\<rparr>))"
  define fp where "fp = (\<lambda>p. upd_proj p (\<lambda>x. x\<lparr>p_next_runnable_result := None,
    p_anticipated_debt := p_short_term_debt x,
    p_deadlines_missed := rs_deadlines_missed (p_rr_sim_status x)\<rparr>))"
  define fa where "fa = (\<lambda>a. upd_task a (\<lambda>t. t\<lparr>at_too_large := False\<rparr>))"
  let ?s1 = "fold fr (results s) s"
  let ?s2 = "fold fp (projects ?s1) ?s1"
  have init: "sched_init s = (fold fa (active_tasks ?s2) ?s2)\<lparr>ordered_scheduled_results := []\<rparr>"
    by (simp add: sched_init_def fr_def fp_def fa_def Let_def)
  have v: "sched_view (fold fr xs t) = sched_view t" "sched_view (fold fp xs t) = sched_view t"
    "sched_view (fold fa xs t) = sched_view t" for xs t
    by (rule fold_sched_view,
        simp add: fr_def fp_def fa_def sched_view_upd_res sched_view_upd_proj sched_view_upd_task)+
  have k: "res (fold fp xs t) = res t" "res (fold fa xs t) = res t" "proj (fold fa xs t) = proj t"
    for xs t
    by (rule fold_frame, simp add: fp_def fa_def upd_proj_def upd_task_def)+
  show view: "sched_view (sched_init s) = sched_view s"
    "ordered_scheduled_results (sched_init s) = []"
    by (simp_all add: init v frame_simps)
  show "\<not> r_already_selected (res (sched_init s) r)" if "r \<in> set (results s)"
    unfolding init
    using fold_establishes [OF that, of "\<lambda>r s. \<not> r_already_selected (res s r)" fr s]
    by (simp add: k) (simp add: fr_def upd_res_def)
  have "p_next_runnable_result (proj ?s2 p) = None" if "p \<in> set (projects ?s1)" for p
    using fold_establishes [OF that, of "\<lambda>p s. p_next_runnable_result (proj s p) = None" fp ?s1]
    by (simp add: fp_def upd_proj_def)
  moreover have "projects (sched_init s) = projects ?s1"
    using status_viewD(2) [OF sched_viewD(1)] view(1) v(1) by metis
  ultimately show "exhausted (sched_init s)"
    by (auto simp: exhausted_def init k)
qed

lemma next_edf_round:
  "p_next_runnable_result (proj (fst (edf_round rrs ep r st)) p) = p_next_runnable_result (proj (fst st) p)"
proof -
  have "p_next_runnable_result (proj (fst (snd (schedule_if_possible r rrs ep st))) p)
      = p_next_runnable_result (proj (fst st) p)" for st
    by (auto simp: schedule_if_possible_def take_cpu_def Let_def upd_proj_def upd_task_def
        split: prod.split option.split)
  from this [of "(upd_res r (\<lambda>x. x\<lparr>r_already_selected := True\<rparr>) (fst st), snd st)"]
  show ?thesis
    by (auto simp: edf_round_def edf_accept_def Let_def upd_res_def upd_proj_def split: prod.split)
qed

lemma exhausted_edf_loop: "exhausted (fst st) \<Longrightarrow> exhausted (fst (edf_loop rrs ep st))"
proof -
  have n: "p_next_runnable_result (proj (fst (edf_loop rrs ep st)) p)
      = p_next_runnable_result (proj (fst st) p)" for p
  proof (induction rrs ep st rule: edf_loop.induct)
    case (1 rrs ep s nu ram)
    then show ?case
      by (subst edf_loop.simps) (auto simp: next_edf_round split: option.split)
  qed
  note v = status_viewD [OF sched_viewD(1) [OF sched_view_edf_loop [of rrs ep st]]]
  show "exhausted (fst st) \<Longrightarrow> exhausted (fst (edf_loop rrs ep st))"
    by (simp add: exhausted_def n v)
qed

text \<open>The situation in which the deadline-order phase leaves the client.\<close>

lemma edf_phase_result:
  obtains s' nu ram where "edf_phase s = (s', nu, ram)" "edf_inv (available_ram s) (s', nu, ram)"
    "sched_view s' = sched_view s" "exhausted s'"
    "real_of_int (ncpus s) \<le> nu \<or> (\<forall>r \<in> set (results s). \<not> edf_candidate s' r)"
proof -
  let ?s1 = "sched_init (adjust_debts (rr_simulation s))"
  have v1: "sched_view ?s1 = sched_view s" by (simp add: sched_init_effect(1) frame_simps)
  note i = sched_init_effect(2-4) [where s = "adjust_debts (rr_simulation s)"]
  have same: "available_ram ?s1 = available_ram s" "ncpus ?s1 = ncpus s" "results ?s1 = results s"
    by (simp_all add: available_ram_def sched_viewD [OF v1] sched_view_derived(4) [OF v1])
  have rs: "results (adjust_debts (rr_simulation s)) = results s"
    by (rule sched_view_derived(4)) (simp add: frame_simps)
  obtain s' nu ram where e: "edf_phase s = (s', nu, ram)" by (cases "edf_phase s")
  have loop: "edf_loop (runnable_resource_share s) (cpu_scheduling_period ?s1)
      (?s1, 0, available_ram s) = (s', nu, ram)"
    using e by (simp add: edf_phase_def same Let_def)
  have "edf_inv (available_ram s) (?s1, 0, available_ram s)"
    using i(2) by (simp add: edf_inv_unfold i(1) cpus_of_def same rs)
  then have inv: "edf_inv (available_ram s) (s', nu, ram)"
    using edf_inv_loop loop by metis
  have v: "sched_view s' = sched_view s"
    using sched_view_edf_loop [of "runnable_resource_share s" "cpu_scheduling_period ?s1"
        "(?s1, 0, available_ram s)"] by (simp add: loop v1)
  have ex: "exhausted s'"
    using exhausted_edf_loop [of "(?s1, 0, available_ram s)" "runnable_resource_share s"
        "cpu_scheduling_period ?s1"] i(3) loop by simp
  have "real_of_int (ncpus s) \<le> nu \<or> (\<forall>r \<in> set (results s). \<not> edf_candidate s' r)"
    using edf_loop_exit [OF loop]
    by (simp add: earliest_deadline_result_None sched_viewD(3) [OF v] sched_view_derived(4) [OF v])
  from that [OF e inv v ex this] show thesis .
qed

lemma held_back_enforce: "held_back (request_enforce_schedule s) r = held_back s r"
  by (simp add: request_enforce_schedule_def held_back_def lookup_active_task_by_result_def
      split: option.split)

lemma enforce_fields:
  "ordered_scheduled_results (request_enforce_schedule s) = ordered_scheduled_results s"
  "res (request_enforce_schedule s) = res s" "sched_view (request_enforce_schedule s) = sched_view s"
  by (simp_all add: request_enforce_schedule_def frame_simps)

lemma schedule_cpus_result:
  assumes tasks: "\<forall>a \<in> set (active_tasks s). at_result (task s a) \<in> set (results s)"
  obtains s' nu ram where "edf_inv (available_ram s) (s', nu, ram)" "sched_view s' = sched_view s"
    "real_of_int (ncpus s) \<le> nu \<or> (\<forall>r \<in> set (results s). \<not> edf_candidate s' r)"
    "ordered_scheduled_results (schedule_cpus s) = ordered_scheduled_results s'"
    "\<And>r. r_edf_scheduled (res (schedule_cpus s) r) = r_edf_scheduled (res s' r)"
    "\<And>r. held_back (schedule_cpus s) r = held_back s' r"
    "sched_view (schedule_cpus s) = sched_view s" "edf_phase s = (s', nu, ram)"
proof (cases rule: edf_phase_result [of s])
  case (1 s' nu ram)
  note v = sched_viewD [OF 1(3)] sched_view_derived [OF 1(3)]
  let ?a = "assign_results_to_projects s'"
  show thesis
  proof (cases "nu < real_of_int (ncpus s)")
    case False
    then have "schedule_cpus s = request_enforce_schedule s'"
      using v(3) by (simp add: schedule_cpus_def 1(1))
    then show thesis
      using that [OF 1(2,3,5)] 1(1,3)
      by (simp add: held_back_enforce enforce_fields)
  next
    case True
    with 1(5) have none: "\<forall>r \<in> set (results s'). \<not> edf_candidate s' r" by (auto simp: v)
    note a = assign_results_exhausted [OF none _ 1(4)]
    have t: "\<forall>a \<in> set (active_tasks s'). at_result (task s' a) \<in> set (results s')"
      using tasks by (simp add: v)
    have "largest_debt_project_best_result ?a = (None, ?a)"
      by (simp add: largest_debt_project_best_result_def best_debt_project_exhausted a(3) [OF t])
    then have "schedule_cpus s = request_enforce_schedule ?a"
      using True v(3) by (simp add: schedule_cpus_def 1(1))
    moreover have "held_back ?a r = held_back s' r" for r
      by (simp add: held_back_def sched_view_lookup [OF a(1) [OF t]] a(4) [OF t] split: option.split)
    ultimately show thesis
      using that [OF 1(2,3,5)] 1(1,3) a [OF t]
      by (simp add: held_back_enforce enforce_fields)
  qed
qed

section \<open>Properties of the scheduler\<close>

definition two_results :: CLIENT_STATE where
  "two_results = sample_state\<lparr>results := [0, 1], active_tasks := [0],
     res := (\<lambda>_. sample_result)(1 := sample_result\<lparr>r_report_deadline := 5000\<rparr>)\<rparr>"

lemma two_results_tasks:
  "\<forall>a \<in> set (active_tasks two_results). at_result (task two_results a) \<in> set (results two_results)"
  by (simp add: two_results_def sample_defs)

lemma schedule_cpus_conserves:
  assumes "\<forall>a \<in> set (active_tasks s). at_result (task s a) \<in> set (results s)"
    and "cpus_of s (ordered_scheduled_results (schedule_cpus s)) < real_of_int (ncpus s)"
    and "r \<in> set (results s)" "result_runnable s r"
      "\<not> p_non_cpu_intensive (proj s (r_project (res s r)))"
  shows "r \<in> set (ordered_scheduled_results (schedule_cpus s)) \<or> held_back (schedule_cpus s) r"
proof (cases rule: schedule_cpus_result [OF assms(1)])
  case (1 s' nu ram)
  have "nu = cpus_of s (ordered_scheduled_results s')"
    using edf_invD(5) [OF 1(1)] unfolding sched_view_derived(1) [OF 1(2)] .
  then have none: "\<not> edf_candidate s' r" using assms(2,3) 1(3,4) by auto
  moreover have "cpu_runnable s' r"
    using assms(4,5) sched_view_derived(3) [OF 1(2), of r] by (simp add: cpu_runnable_def [of s])
  ultimately have "r_already_selected (res s' r)" by (simp add: edf_candidate_alt)
  then show ?thesis
    using edf_invD(9) [OF 1(1)] assms(3) unfolding 1(4,6) sched_view_derived(4) [OF 1(2)] by blast
qed

text \<open>A client without tasks whose results use one CPU each.\<close>

lemma schedule_without_tasks:
  assumes "active_tasks s = []" "\<And>r. av_avg_ncpus (appver s (r_avp (res s r))) = 1"
  shows "set (ordered_scheduled_results (schedule_cpus s)) \<subseteq> set (results s)"
    "distinct (ordered_scheduled_results (schedule_cpus s))"
    "ordered_scheduled_results (schedule_cpus s) \<noteq> []
       \<Longrightarrow> int (length (ordered_scheduled_results (schedule_cpus s))) \<le> ncpus s"
    "cpus_of s rs = real (length rs)" "\<not> held_back (schedule_cpus s) r"
proof -
  have t: "\<forall>a \<in> set (active_tasks s). at_result (task s a) \<in> set (results s)" by (simp add: assms)
  show c: "cpus_of s rs = real (length rs)" for rs
    by (induction rs) (simp_all add: cpus_of_def assms)
  obtain s' nu ram where 1: "edf_inv (available_ram s) (s', nu, ram)" "sched_view s' = sched_view s"
    "ordered_scheduled_results (schedule_cpus s) = ordered_scheduled_results s'"
    "sched_view (schedule_cpus s) = sched_view s"
    by (rule schedule_cpus_result [OF t])
  note i = edf_invD [OF 1(1)]
  show "set (ordered_scheduled_results (schedule_cpus s)) \<subseteq> set (results s)"
    using i(2) unfolding 1(3) sched_view_derived(4) [OF 1(2)] by blast
  show "distinct (ordered_scheduled_results (schedule_cpus s))" using i(1) unfolding 1(3) .
  show "int (length (ordered_scheduled_results (schedule_cpus s))) \<le> ncpus s"
    if "ordered_scheduled_results (schedule_cpus s) \<noteq> []"
    using i(6) that unfolding 1(3) sched_view_derived(1) [OF 1(2)] sched_viewD(3) [OF 1(2)] c
    by (cases "ordered_scheduled_results s'" rule: rev_cases) auto
  show "\<not> held_back (schedule_cpus s) r"
    by (simp add: held_back_def lookup_active_task_by_result_def sched_viewD(2) [OF 1(4)] assms)
qed

lemma sample_schedule:
  "cpus_of sample_state (ordered_scheduled_results (schedule_cpus sample_state)) < 2"
  "\<not> held_back (schedule_cpus sample_state) r"
proof -
  let ?o = "ordered_scheduled_results (schedule_cpus sample_state)"
  have "active_tasks sample_state = []"
    "\<And>r. av_avg_ncpus (appver sample_state (r_avp (res sample_state r))) = 1"
    by (simp_all add: sample_defs)
  note w = schedule_without_tasks [OF this]
  have "length ?o = card (set ?o)" using w(2) by (simp add: distinct_card)
  also have "card (set ?o) \<le> card {0::nat}"
    using w(1) by (intro card_mono) (auto simp: sample_defs)
  finally show "cpus_of sample_state ?o < 2" using w(4) by simp
  show "\<not> held_back (schedule_cpus sample_state) r" by (rule w(5))
qed

definition one_cpu :: CLIENT_STATE where
  "one_cpu = two_results\<lparr>active_tasks := [], ncpus := 1\<rparr>"

lemma one_cpu_schedule:
  "\<exists>x \<in> {0, 1}. ordered_scheduled_results (schedule_cpus one_cpu) = [x]"
  "\<not> held_back (schedule_cpus one_cpu) r"
proof -
  let ?o = "ordered_scheduled_results (schedule_cpus one_cpu)"
  have "active_tasks one_cpu = []" "\<And>r. av_avg_ncpus (appver one_cpu (r_avp (res one_cpu r))) = 1"
    by (simp_all add: one_cpu_def two_results_def sample_defs)
  note w = schedule_without_tasks [OF this]
  show h: "\<not> held_back (schedule_cpus one_cpu) r" for r by (rule w(5))
  have "?o \<noteq> []"
    using schedule_cpus_conserves [of one_cpu 0] h w(4) [of "[]"]
    by (auto simp: one_cpu_def two_results_def sample_defs result_runnable_def)
  moreover from w(3) [OF this] have "length ?o \<le> 1"
    by (simp add: one_cpu_def two_results_def sample_defs)
  ultimately obtain x where "?o = [x]" by (cases ?o) auto
  moreover have "x \<in> {0, 1}"
    using w(1) \<open>?o = [x]\<close> by (auto simp: one_cpu_def two_results_def sample_defs)
  ultimately show "\<exists>x \<in> {0, 1}. ?o = [x]" by blast
qed

text \<open>C1: \<open>schedule_cpus\<close> fills \<open>ordered_scheduled_results\<close> with distinct results of the client,
  each of them runnable and of a CPU-intensive project, in the order of their report
  deadlines.\<close>

theorem schedule_cpus_deadline_order:
  assumes "\<forall>a \<in> set (active_tasks s). at_result (task s a) \<in> set (results s)"
  shows "distinct (ordered_scheduled_results (schedule_cpus s))
    \<and> (\<forall>r \<in> set (ordered_scheduled_results (schedule_cpus s)). r \<in> set (results s)
         \<and> result_runnable s r \<and> \<not> p_non_cpu_intensive (proj s (r_project (res s r))))
    \<and> sorted (map (\<lambda>r. r_report_deadline (res s r)) (ordered_scheduled_results (schedule_cpus s)))"
proof (cases rule: schedule_cpus_result [OF assms])
  case (1 s' nu ram)
  note i = edf_invD [OF 1(1)] and d = sched_view_derived(3,4) [OF 1(2)] sched_viewD(11) [OF 1(2)]
    and c = cpu_runnable_def [of s]
  show ?thesis
    using i(1,3) i(2) unfolding 1(4) d by (simp add: c)
qed

theorem schedule_cpus_deadline_order_witness:
  "sorted (map (\<lambda>r. r_report_deadline (res two_results r))
     (ordered_scheduled_results (schedule_cpus two_results)))"
  using schedule_cpus_deadline_order [OF two_results_tasks] by blast

text \<open>C2: The schedule fits the machine: before its last result the scheduled results use fewer
  CPUs than there are, and their working sets together fit the available RAM.\<close>

theorem schedule_cpus_fits:
  assumes "\<forall>a \<in> set (active_tasks s). at_result (task s a) \<in> set (results s)"
    and "0 \<le> available_ram s"
  shows "(ordered_scheduled_results (schedule_cpus s) \<noteq> []
        \<longrightarrow> cpus_of s (butlast (ordered_scheduled_results (schedule_cpus s))) < real_of_int (ncpus s))
    \<and> sum_list (map (wss_of s) (ordered_scheduled_results (schedule_cpus s))) \<le> available_ram s"
proof (cases rule: schedule_cpus_result [OF assms(1)])
  case (1 s' nu ram)
  have w: "wss_of s' = wss_of s" by (rule ext) (rule sched_view_derived(2) [OF 1(2)])
  show ?thesis
    using edf_invD(6-8) [OF 1(1)] assms(2)
    unfolding 1(4) sched_view_derived(1) [OF 1(2)] sched_viewD(3) [OF 1(2)] w by simp
qed

theorem schedule_cpus_fits_witness:
  "sum_list (map (wss_of two_results) (ordered_scheduled_results (schedule_cpus two_results)))
     \<le> available_ram two_results"
  using schedule_cpus_fits [OF two_results_tasks]
  by (simp add: available_ram_def two_results_def sample_defs)

text \<open>C3: The schedule is work-conserving: when it leaves CPUs unused, every runnable result of
  a CPU-intensive project is scheduled or its task is held back for lack of RAM or of shared
  memory.\<close>

theorem schedule_cpus_work_conserving:
  assumes "\<forall>a \<in> set (active_tasks s). at_result (task s a) \<in> set (results s)"
    and "cpus_of s (ordered_scheduled_results (schedule_cpus s)) < real_of_int (ncpus s)"
    and "r \<in> set (results s)" "result_runnable s r"
      "\<not> p_non_cpu_intensive (proj s (r_project (res s r)))"
  shows "r \<in> set (ordered_scheduled_results (schedule_cpus s)) \<or> held_back (schedule_cpus s) r"
  using assms by (rule schedule_cpus_conserves)

theorem schedule_cpus_work_conserving_witness:
  "0 \<in> set (ordered_scheduled_results (schedule_cpus sample_state))"
  using schedule_cpus_work_conserving [of sample_state 0] sample_schedule
  by (simp add: sample_defs result_runnable_def)

text \<open>No result jumps the queue: a scheduled result has no later a deadline than any runnable
  result of a CPU-intensive project that was passed over without being held back.\<close>

theorem schedule_cpus_no_priority_inversion:
  assumes "\<forall>a \<in> set (active_tasks s). at_result (task s a) \<in> set (results s)"
    and "x \<in> set (ordered_scheduled_results (schedule_cpus s))"
    and "r \<in> set (results s)" "result_runnable s r"
      "\<not> p_non_cpu_intensive (proj s (r_project (res s r)))"
    and "r \<notin> set (ordered_scheduled_results (schedule_cpus s))" "\<not> held_back (schedule_cpus s) r"
  shows "r_report_deadline (res s x) \<le> r_report_deadline (res s r)"
proof (cases rule: schedule_cpus_result [OF assms(1)])
  case (1 s' nu ram)
  have "cpu_runnable s' r"
    using assms(4,5) sched_view_derived(3) [OF 1(2), of r] by (simp add: cpu_runnable_def [of s])
  moreover have "\<not> r_already_selected (res s' r)"
    using edf_invD(9) [OF 1(1)] assms(3,6,7)
    unfolding 1(4,6) sched_view_derived(4) [OF 1(2)] by blast
  ultimately show ?thesis
    using edf_invD(4) [OF 1(1)] assms(2,3)
    unfolding 1(4) sched_view_derived(4) [OF 1(2)] sched_viewD(11) [OF 1(2)] edf_candidate_alt
    by blast
qed

theorem schedule_cpus_no_priority_inversion_witness:
  "ordered_scheduled_results (schedule_cpus one_cpu) = [1]"
proof -
  obtain x where x: "x \<in> {0, 1}" "ordered_scheduled_results (schedule_cpus one_cpu) = [x]"
    using one_cpu_schedule(1) by blast
  have "x \<noteq> 0"
  proof
    assume "x = 0"
    then show False
      using schedule_cpus_no_priority_inversion [of one_cpu 0 1] x(2) one_cpu_schedule(2)
      by (simp add: one_cpu_def two_results_def sample_defs result_runnable_def)
  qed
  then show ?thesis using x by simp
qed

text \<open>Every scheduled result was taken in deadline order: the second loop, which takes
  results in the order of the projects' debts, never adds one.\<close>

theorem schedule_cpus_debt_order_unused:
  assumes "\<forall>a \<in> set (active_tasks s). at_result (task s a) \<in> set (results s)"
  shows "ordered_scheduled_results (schedule_cpus s) = ordered_scheduled_results (fst (edf_phase s))
    \<and> (\<forall>r \<in> set (ordered_scheduled_results (schedule_cpus s)). r_edf_scheduled (res (schedule_cpus s) r))"
proof (cases rule: schedule_cpus_result [OF assms])
  case (1 s' nu ram)
  then show ?thesis using edf_invD(2) [OF 1(1)] by simp
qed

theorem schedule_cpus_debt_order_unused_witness:
  "ordered_scheduled_results (schedule_cpus two_results)
     = ordered_scheduled_results (fst (edf_phase two_results))"
  using schedule_cpus_debt_order_unused [OF two_results_tasks] by blast

end
