(* ===== verification/File_Info.thy ===== *)
theory File_Info
  imports Client_Types
begin

text \<open>
  Files (\<open>FILE_INFO\<close> in \<open>client/client_types.C\<close>): which URL is tried next, how the server's
  information is merged, failures and the messages about them, and the operations of
  \<open>APP_VERSION\<close>, \<open>WORKUNIT\<close> and \<open>RESULT\<close> on the files they refer to.
\<close>

section \<open>Text output\<close>

fun digits :: "nat \<Rightarrow> string" where
  "digits n = (if n < 10 then [char_of (48 + n)] else digits (n div 10) @ [char_of (48 + n mod 10)])"

declare digits.simps [simp del]

definition string_of_int :: "int \<Rightarrow> string" where
  "string_of_int i = (if i < 0 then ''-'' @ digits (nat (- i)) else digits (nat i))"

text \<open>\<open>printf("%.0f")\<close>: the nearest integer, ties to even.\<close>

definition fmt_f0 :: "real \<Rightarrow> string" where
  "fmt_f0 x = (let f = \<lfloor>x\<rfloor>; d = x - real_of_int f in
     string_of_int (if d < 1/2 then f else if d > 1/2 then f + 1 else if even f then f else f + 1))"

definition NL :: string where "NL = [char_of (10 :: nat)]"

text \<open>\<open>XmlTag\<close> (\<open>lib/xml_write.h\<close>) for a value already printed.\<close>

definition write_tag :: "string \<Rightarrow> string \<Rightarrow> string" where
  "write_tag name value = ''<'' @ name @ ''>'' @ value @ ''</'' @ name @ ''>'' @ NL"

section \<open>URLs\<close>

text \<open>\<open>strstr(s, pat) != NULL\<close>.\<close>

fun strstr :: "string \<Rightarrow> string \<Rightarrow> bool" where
  "strstr [] pat = (pat = [])"
| "strstr (c # cs) pat = (take (length pat) (c # cs) = pat \<or> strstr cs pat)"

definition is_correct_url_type :: "bool \<Rightarrow> string \<Rightarrow> bool" where
  "is_correct_url_type is_upload url =
     (let has_str = strstr url ''file_upload_handler''
      in \<not> ((is_upload \<and> \<not> has_str) \<or> (\<not> is_upload \<and> has_str)))"

text \<open>
  The loops of \<open>get_init_url\<close> and \<open>get_next_url\<close>. A loop that does not end is \<open>None\<close>; a loop
  that ends gives the URL, or \<open>None\<close> inside for the \<open>NULL\<close> the code returns.
\<close>

partial_function (option) init_url_loop ::
  "bool \<Rightarrow> FILE_INFO \<Rightarrow> (string option \<times> FILE_INFO) option" where
  [code]: "init_url_loop is_upload f =
     (if \<not> is_correct_url_type is_upload (fi_urls f ! nat (fi_current_url f))
      then let c = (fi_current_url f + 1) mod int (length (fi_urls f));
               f1 = f\<lparr>fi_current_url := c\<rparr>
           in if c = fi_start_url f1 then Some (None, f1) else init_url_loop is_upload f1
      else Some (Some (fi_urls f ! nat (fi_current_url f)),
                 f\<lparr>fi_start_url := fi_current_url f\<rparr>))"

definition get_init_url :: "bool \<Rightarrow> FILE_INFO \<Rightarrow> (string option \<times> FILE_INFO) option" where
  "get_init_url is_upload f =
     (if fi_urls f = [] then Some (None, f)
      else init_url_loop is_upload (f\<lparr>fi_current_url := 0, fi_start_url := 0\<rparr>))"

partial_function (option) next_url_loop ::
  "bool \<Rightarrow> FILE_INFO \<Rightarrow> (string option \<times> FILE_INFO) option" where
  [code]: "next_url_loop is_upload f =
     (let c = (fi_current_url f + 1) mod int (length (fi_urls f));
          f1 = f\<lparr>fi_current_url := c\<rparr>
      in if c = fi_start_url f1 then Some (None, f1)
         else if is_correct_url_type is_upload (fi_urls f1 ! nat c)
         then Some (Some (fi_urls f1 ! nat c), f1)
         else next_url_loop is_upload f1)"

definition get_next_url :: "bool \<Rightarrow> FILE_INFO \<Rightarrow> (string option \<times> FILE_INFO) option" where
  "get_next_url is_upload f =
     (if fi_urls f = [] then Some (None, f) else next_url_loop is_upload f)"

definition get_current_url :: "bool \<Rightarrow> FILE_INFO \<Rightarrow> (string option \<times> FILE_INFO) option" where
  "get_current_url is_upload f =
     (if fi_current_url f < 0 then get_init_url is_upload f
      else if fi_current_url f \<ge> int (length (fi_urls f)) then Some (None, f)
      else Some (Some (fi_urls f ! nat (fi_current_url f)), f))"

definition merge_info :: "FILE_INFO \<Rightarrow> FILE_INFO \<Rightarrow> FILE_INFO" where
  "merge_info new_info f =
     (let f1 = f\<lparr>fi_upload_when_present := fi_upload_when_present new_info\<rparr>;
          f2 = (if fi_max_nbytes f1 \<le> 0 \<and> fi_max_nbytes new_info \<noteq> 0
                then f1\<lparr>fi_max_nbytes := fi_max_nbytes new_info,
                        fi_signed_xml := fi_signed_xml f1 @ ''    ''
                          @ write_tag ''max_nbytes'' (fmt_f0 (fi_max_nbytes new_info))\<rparr>
                else f1);
          f3 = f2\<lparr>fi_urls := fi_urls new_info\<rparr>
      in if fi_file_signature new_info \<noteq> [] then f3\<lparr>fi_file_signature := fi_file_signature new_info\<rparr>
         else f3)"

section \<open>Failures\<close>

text \<open>\<open>had_failure\<close> returns the failure number through its argument.\<close>

definition had_failure :: "FILE_INFO \<Rightarrow> int option" where
  "had_failure f =
     (if fi_status f \<noteq> FILE_NOT_PRESENT \<and> fi_status f \<noteq> FILE_PRESENT
         \<and> fi_status f \<noteq> FILE_NOT_PRESENT_NOT_NEEDED
      then Some (fi_status f) else None)"

definition failure_message :: "FILE_INFO \<Rightarrow> string" where
  "failure_message f =
     ''<file_xfer_error>'' @ NL @ write_tag ''file_name'' (fi_name f)
     @ write_tag ''error_code'' (string_of_int (fi_status f))
     @ (if fi_error_msg f \<noteq> [] then write_tag ''error_message'' (fi_error_msg f) else [])
     @ ''</file_xfer_error>'' @ NL"

text \<open>\<open>delete_file\<close>: the file system's answer is of no consequence for the state.\<close>

definition delete_file :: "FILE_INFO \<Rightarrow> FILE_INFO" where
  "delete_file f = f\<lparr>fi_status := FILE_NOT_PRESENT\<rparr>"

definition FILE_INFO_reset :: "FILE_INFO \<Rightarrow> FILE_INFO" where
  "FILE_INFO_reset f = (delete_file (f\<lparr>fi_status := FILE_NOT_PRESENT\<rparr>))\<lparr>fi_error_msg := []\<rparr>"

text \<open>The three classes that refer to files share these loops over their \<open>FILE_REF\<close>s.\<close>

fun first_failure :: "CLIENT_STATE \<Rightarrow> FILE_REF list \<Rightarrow> int option" where
  "first_failure s [] = None"
| "first_failure s (r # rs) = (case had_failure (finfo s (fr_file_info r)) of
     Some n \<Rightarrow> Some n | None \<Rightarrow> first_failure s rs)"

definition file_errors :: "CLIENT_STATE \<Rightarrow> FILE_REF list \<Rightarrow> string" where
  "file_errors s rs = fold (\<lambda>r str.
     if had_failure (finfo s (fr_file_info r)) \<noteq> None
     then str @ failure_message (finfo s (fr_file_info r)) else str)
     rs (''couldn'' @ [char_of (39 :: nat)] @ ''t get input files:'' @ NL)"

definition clear_file_errors :: "FILE_REF list \<Rightarrow> CLIENT_STATE \<Rightarrow> CLIENT_STATE" where
  "clear_file_errors rs s = fold (\<lambda>r s.
     if had_failure (finfo s (fr_file_info r)) \<noteq> None
     then upd_finfo (fr_file_info r) FILE_INFO_reset s else s) rs s"

definition av_had_download_failure :: "CLIENT_STATE \<Rightarrow> avid \<Rightarrow> int option" where
  "av_had_download_failure s v = first_failure s (av_app_files (appver s v))"

definition av_get_file_errors :: "CLIENT_STATE \<Rightarrow> avid \<Rightarrow> string" where
  "av_get_file_errors s v = file_errors s (av_app_files (appver s v))"

definition av_clear_errors :: "avid \<Rightarrow> CLIENT_STATE \<Rightarrow> CLIENT_STATE" where
  "av_clear_errors v s = clear_file_errors (av_app_files (appver s v)) s"

definition wu_had_download_failure :: "CLIENT_STATE \<Rightarrow> wuid \<Rightarrow> int option" where
  "wu_had_download_failure s w = first_failure s (wu_input_files (wunit s w))"

definition wu_get_file_errors :: "CLIENT_STATE \<Rightarrow> wuid \<Rightarrow> string" where
  "wu_get_file_errors s w = file_errors s (wu_input_files (wunit s w))"

definition wu_clear_errors :: "wuid \<Rightarrow> CLIENT_STATE \<Rightarrow> CLIENT_STATE" where
  "wu_clear_errors w s = clear_file_errors (wu_input_files (wunit s w)) s"

section \<open>The output files of a result\<close>

text \<open>\<open>RESULT::is_upload_done\<close>, \<open>clear_uploaded_flags\<close>, \<open>lookup_file\<close>, \<open>lookup_file_logical\<close>,
  \<open>abort_inactive\<close>.\<close>

definition is_upload_done :: "CLIENT_STATE \<Rightarrow> rid \<Rightarrow> bool" where
  "is_upload_done s r = list_all (\<lambda>fr. let f = finfo s (fr_file_info fr) in
     \<not> fi_upload_when_present f \<or> had_failure f \<noteq> None \<or> fi_uploaded f) (r_output_files (res s r))"

definition clear_uploaded_flags :: "rid \<Rightarrow> CLIENT_STATE \<Rightarrow> CLIENT_STATE" where
  "clear_uploaded_flags r s = fold (\<lambda>fr s.
     if fi_upload_when_present (finfo s (fr_file_info fr))
     then upd_finfo (fr_file_info fr) (\<lambda>f. f\<lparr>fi_uploaded := False\<rparr>) s else s)
     (r_output_files (res s r)) s"

definition lookup_file :: "CLIENT_STATE \<Rightarrow> rid \<Rightarrow> fid \<Rightarrow> FILE_REF option" where
  "lookup_file s r f = find (\<lambda>fr. fr_file_info fr = f) (r_output_files (res s r))"

definition lookup_file_logical :: "CLIENT_STATE \<Rightarrow> rid \<Rightarrow> string \<Rightarrow> fid option" where
  "lookup_file_logical s r lname =
     map_option fr_file_info (find (\<lambda>fr. lname = fr_open_name fr) (r_output_files (res s r)))"

definition abort_inactive :: "int \<Rightarrow> rid \<Rightarrow> CLIENT_STATE \<Rightarrow> CLIENT_STATE" where
  "abort_inactive status r s =
     (if r_state (res s r) \<ge> RESULT_COMPUTE_ERROR then s
      else upd_res r (\<lambda>x. x\<lparr>r_state := RESULT_ABORTED, r_exit_status := status\<rparr>) s)"

section \<open>Every URL is tried once\<close>

text \<open>
  The URLs a transfer tries: the first one, then the next one until there is none.
  \<open>None\<close> when a call does not return or the fuel runs out.
\<close>

fun tries :: "nat \<Rightarrow> bool \<Rightarrow> (string option \<times> FILE_INFO) option \<Rightarrow> string list option" where
  "tries 0 up x = None"
| "tries (Suc n) up None = None"
| "tries (Suc n) up (Some (None, f)) = Some []"
| "tries (Suc n) up (Some (Some u, f)) = map_option ((#) u) (tries n up (get_next_url up f))"

lemma next_url_step:
  assumes "fi_current_url f = int c" "(int c + 1) mod int (length (fi_urls f)) = int d"
  shows "next_url_loop up f =
     (if int d = fi_start_url f then Some (None, f\<lparr>fi_current_url := int d\<rparr>)
      else if is_correct_url_type up (fi_urls f ! d)
      then Some (Some (fi_urls f ! d), f\<lparr>fi_current_url := int d\<rparr>)
      else next_url_loop up (f\<lparr>fi_current_url := int d\<rparr>))"
  using assms by (subst next_url_loop.simps) (simp add: Let_def)

lemma next_index: "Suc c < n \<Longrightarrow> (int c + 1) mod int n = int (Suc c)"
  by simp

lemma next_url_wraps:
  assumes "fi_start_url f = int i" "fi_current_url f = int c" "c < i" "i < length (fi_urls f)"
    "\<And>j. j < i \<Longrightarrow> \<not> is_correct_url_type up (fi_urls f ! j)"
  shows "next_url_loop up f = Some (None, f\<lparr>fi_current_url := int i\<rparr>)"
  using assms
proof (induction "i - c" arbitrary: c f)
  case 0
  then show ?case by simp
next
  case (Suc d)
  note step = next_url_step [OF Suc.prems(2) next_index]
  show ?case
  proof (cases "Suc c = i")
    case True
    then show ?thesis using Suc.prems(1,4) step [of up] by simp
  next
    case False
    let ?f = "f\<lparr>fi_current_url := int (Suc c)\<rparr>"
    have "next_url_loop up ?f = Some (None, ?f\<lparr>fi_current_url := int i\<rparr>)"
      using Suc.prems Suc.hyps(2) False by (intro Suc.hyps(1) [of "Suc c"]) auto
    moreover have "next_url_loop up f = next_url_loop up ?f"
      using Suc.prems False step [of up] by (simp del: of_nat_Suc)
    ultimately show ?thesis by simp
  qed
qed

lemma next_url_tries:
  assumes "fi_start_url f = int i" "fi_current_url f = int c" "i \<le> c" "c < length (fi_urls f)"
    "\<And>j. j < i \<Longrightarrow> \<not> is_correct_url_type up (fi_urls f ! j)" "length (fi_urls f) \<le> Suc (k + c)"
  shows "tries (Suc k) up (next_url_loop up f)
    = Some (filter (is_correct_url_type up) (drop (Suc c) (fi_urls f)))"
  using assms
proof (induction "length (fi_urls f) - c" arbitrary: c f k)
  case 0
  then show ?case by simp
next
  case (Suc d)
  let ?n = "length (fi_urls f)" and ?f = "f\<lparr>fi_current_url := int (Suc c)\<rparr>"
  show ?case
  proof (cases "Suc c < ?n")
    case True
    then obtain k' where k: "k = Suc k'" using Suc.prems(6) by (cases k) auto
    note step = next_url_step [OF Suc.prems(2) next_index [OF True], of up]
    have d: "drop (Suc c) (fi_urls f) = fi_urls f ! Suc c # drop (Suc (Suc c)) (fi_urls f)"
      using True by (rule Cons_nth_drop_Suc [symmetric])
    have IH: "tries (Suc l) up (next_url_loop up ?f)
        = Some (filter (is_correct_url_type up) (drop (Suc (Suc c)) (fi_urls f)))" if "k' \<le> l" for l
      using Suc.prems Suc.hyps(2) True k that Suc.hyps(1) [of ?f "Suc c" l] by simp
    show ?thesis
    proof (cases "is_correct_url_type up (fi_urls f ! Suc c)")
      case correct: True
      then have "next_url_loop up f = Some (Some (fi_urls f ! Suc c), ?f)"
        using Suc.prems(1,3) step by (simp del: of_nat_Suc)
      moreover have "get_next_url up ?f = next_url_loop up ?f"
        using True by (auto simp: get_next_url_def)
      ultimately show ?thesis using IH [of k'] k d correct by simp
    next
      case False
      then have "next_url_loop up f = next_url_loop up ?f"
        using Suc.prems(1,3) step by (simp del: of_nat_Suc)
      then show ?thesis using IH [of k] k d False by simp
    qed
  next
    case False
    then have n: "?n = Suc c" using Suc.prems(4) by simp
    then have "(int c + 1) mod int ?n = int 0" by (simp add: add.commute)
    note step = next_url_step [OF Suc.prems(2) this, of up]
    have "next_url_loop up f = Some (None, f\<lparr>fi_current_url := int i\<rparr>)"
    proof (cases "i = 0")
      case True
      then show ?thesis
        using Suc.prems(1) step by simp
    next
      case False
      have "next_url_loop up (f\<lparr>fi_current_url := 0\<rparr>) = Some (None, f\<lparr>fi_current_url := int i\<rparr>)"
        using Suc.prems False by (subst next_url_wraps [of _ i 0]) auto
      moreover have "next_url_loop up f = next_url_loop up (f\<lparr>fi_current_url := 0\<rparr>)"
        using Suc.prems(1,5) step False by simp
      ultimately show ?thesis by simp
    qed
    then show ?thesis using n by simp
  qed
qed

lemma init_url_tries:
  assumes "fi_start_url f = 0" "fi_current_url f = int c" "c < length (fi_urls f)"
    "\<And>j. j < c \<Longrightarrow> \<not> is_correct_url_type up (fi_urls f ! j)" "length (fi_urls f) \<le> k"
  shows "tries (Suc k) up (init_url_loop up f)
    = Some (filter (is_correct_url_type up) (drop c (fi_urls f)))"
  using assms
proof (induction "length (fi_urls f) - c" arbitrary: c f)
  case 0
  then show ?case by simp
next
  case (Suc d)
  have d: "drop c (fi_urls f) = fi_urls f ! c # drop (Suc c) (fi_urls f)"
    using Suc.prems(3) by (rule Cons_nth_drop_Suc [symmetric])
  show ?case
  proof (cases "is_correct_url_type up (fi_urls f ! c)")
    case True
    obtain k' where k: "k = Suc k'" using Suc.prems(3,5) by (cases k) auto
    let ?f = "f\<lparr>fi_start_url := int c\<rparr>"
    have "init_url_loop up f = Some (Some (fi_urls f ! c), ?f)"
      using Suc.prems(2) True by (subst init_url_loop.simps) simp
    moreover have "get_next_url up ?f = next_url_loop up ?f"
      using Suc.prems(3) by (auto simp: get_next_url_def)
    moreover have "tries (Suc k') up (next_url_loop up ?f)
        = Some (filter (is_correct_url_type up) (drop (Suc c) (fi_urls ?f)))"
      using Suc.prems k next_url_tries [of ?f c c up k'] by simp
    ultimately show ?thesis using k d True by simp
  next
    case False
    show ?thesis
    proof (cases "Suc c < length (fi_urls f)")
      case True
      let ?f = "f\<lparr>fi_current_url := int (Suc c)\<rparr>"
      have "init_url_loop up f = init_url_loop up ?f"
        using Suc.prems(1,2) False True
        by (subst init_url_loop.simps) (simp add: Let_def add.commute)
      moreover have "tries (Suc k) up (init_url_loop up ?f)
          = Some (filter (is_correct_url_type up) (drop (Suc c) (fi_urls ?f)))"
        using Suc.prems Suc.hyps(2) True False less_Suc_eq
        by (intro Suc.hyps(1)) auto
      ultimately show ?thesis using d False by simp
    next
      case last: False
      then have n: "length (fi_urls f) = Suc c" using Suc.prems(3) by simp
      then have "init_url_loop up f = Some (None, f\<lparr>fi_current_url := 0\<rparr>)"
        using Suc.prems(1,2) False
        by (subst init_url_loop.simps) (simp add: Let_def add.commute)
      then show ?thesis using d False n by simp
    qed
  qed
qed

text \<open>C24: A file's transfer tries every URL of its kind exactly once, in the order the server gave
  them, and then finds that there is none left: the loops of \<open>get_init_url\<close> and
  \<open>get_next_url\<close> end.\<close>

theorem urls_tried_in_order:
  "tries (Suc (length (fi_urls f))) up (get_init_url up f)
     = Some (filter (is_correct_url_type up) (fi_urls f))"
proof (cases "fi_urls f = []")
  case True
  then show ?thesis by (simp add: get_init_url_def)
next
  case False
  then show ?thesis
    using init_url_tries [of "f\<lparr>fi_current_url := 0, fi_start_url := 0\<rparr>" 0 up "length (fi_urls f)"]
    by (simp add: get_init_url_def)
qed

text \<open>
  The loop of \<open>get_next_url\<close> compares with \<open>start_url\<close>. After \<open>merge_info\<close> has replaced the URLs
  by fewer ones, \<open>start_url\<close> may be an index the new list does not have.
\<close>

lemma next_url_never_returns:
  assumes "fi_urls f \<noteq> []" "fi_start_url f < 0 \<or> int (length (fi_urls f)) \<le> fi_start_url f"
    "\<forall>u \<in> set (fi_urls f). \<not> is_correct_url_type up u"
  shows "next_url_loop up f = None"
proof -
  define stuck where "stuck up f \<longleftrightarrow> fi_urls f \<noteq> []
    \<and> (fi_start_url f < 0 \<or> int (length (fi_urls f)) \<le> fi_start_url f)
    \<and> (\<forall>u \<in> set (fi_urls f). \<not> is_correct_url_type up u)" for up and f :: FILE_INFO
  have "\<not> stuck up f" if "next_url_loop up f = Some y" for f y
  proof (rule next_url_loop.raw_induct [where P = "\<lambda>up f y. \<not> stuck up f", OF _ that], goal_cases)
    case (1 loop up f y)
    let ?c = "(fi_current_url f + 1) mod int (length (fi_urls f))"
    let ?f = "f\<lparr>fi_current_url := ?c\<rparr>"
    show ?case
    proof
      assume s: "stuck up f"
      then have c: "0 \<le> ?c" "?c < int (length (fi_urls f))" by (simp_all add: stuck_def)
      then have "nat ?c < length (fi_urls f)" by linarith
      then have "\<not> is_correct_url_type up (fi_urls f ! nat ?c)"
        using s nth_mem unfolding stuck_def by blast
      moreover have "?c \<noteq> fi_start_url f" using c s unfolding stuck_def by linarith
      ultimately have "loop up ?f = Some y" using 1(2) by (simp add: Let_def)
      then show False using 1(1) [of up ?f y] s by (simp add: stuck_def)
    qed
  qed
  then show ?thesis using assms unfolding stuck_def by (metis not_None_eq)
qed

text \<open>When the server's new information leaves a file with URLs of the wrong kind only and
  fewer than before, so that \<open>start_url\<close> is out of range, asking for the next URL never
  returns.\<close>

theorem get_next_url_diverges_after_merge:
  assumes "fi_urls new_info \<noteq> []" "int (length (fi_urls new_info)) \<le> fi_start_url f"
    "\<forall>u \<in> set (fi_urls new_info). \<not> is_correct_url_type up u"
  shows "get_next_url up (merge_info new_info f) = None"
proof -
  have "fi_urls (merge_info new_info f) = fi_urls new_info"
    "fi_start_url (merge_info new_info f) = fi_start_url f"
    by (simp_all add: merge_info_def Let_def)
  then show ?thesis
    using assms by (simp add: get_next_url_def next_url_never_returns)
qed

theorem get_next_url_diverges_after_merge_witness:
  "get_next_url False
     (merge_info (sample_file_info\<lparr>fi_urls := [''http://a/file_upload_handler'']\<rparr>)
        (sample_file_info\<lparr>fi_urls := [''http://a/file_upload_handler'', ''http://b/f''],
           fi_start_url := 1, fi_current_url := 1\<rparr>)) = None"
  by (rule get_next_url_diverges_after_merge) (simp_all add: is_correct_url_type_def)

section \<open>Failed files\<close>

lemma FILE_INFO_reset_clears: "had_failure (FILE_INFO_reset f) = None"
  by (simp add: had_failure_def FILE_INFO_reset_def delete_file_def)

lemma first_failure_None:
  "first_failure s rs = None \<longleftrightarrow> (\<forall>r \<in> set rs. had_failure (finfo s (fr_file_info r)) = None)"
  by (induction rs) (auto split: option.splits)

lemma clear_file_errors_clears:
  assumes "r \<in> set rs"
  shows "had_failure (finfo (clear_file_errors rs s) (fr_file_info r)) = None"
  unfolding clear_file_errors_def
  by (rule fold_establishes [OF assms])
    (auto simp: upd_finfo_def FILE_INFO_reset_clears)

text \<open>\<open>clear_errors\<close> of a workunit makes all its input files available for download again:
  afterwards no input file has a failure, so the workunit has no download failure.\<close>

theorem wu_clear_errors_no_failure: "wu_had_download_failure (wu_clear_errors w s) w = None"
proof -
  have "wunit (clear_file_errors rs t) = wunit t" for rs t
    unfolding clear_file_errors_def by (rule fold_frame) (simp add: upd_finfo_def)
  then show ?thesis
    by (simp add: wu_had_download_failure_def wu_clear_errors_def first_failure_None
        clear_file_errors_clears)
qed

end
