(* ===== verification/Backoff.thy ===== *)
theory Backoff
  imports File_Info Work_Status
begin

text \<open>
  Backing off (\<open>calculate_exponential_backoff\<close> in \<open>client/client_state.C\<close>,
  \<open>PROJECT::set_min_rpc_time\<close> in \<open>client/work_fetch.C\<close>, \<open>SCHEDULER_OP::backoff\<close> in
  \<open>client/scheduler_op.C\<close>, \<open>PROJECT::file_xfer_failed\<close> in \<open>client/client_types.C\<close>), the requests
  the components make of each other through flags, and \<open>CLIENT_STATE::report_result_error\<close>.
\<close>

section \<open>Requests\<close>

definition request_work_fetch :: "CLIENT_STATE \<Rightarrow> CLIENT_STATE" where
  "request_work_fetch s = s\<lparr>must_check_work_fetch := True\<rparr>"

definition set_client_state_dirty :: "CLIENT_STATE \<Rightarrow> CLIENT_STATE" where
  "set_client_state_dirty s = s\<lparr>client_state_dirty := True\<rparr>"

section \<open>Random delays\<close>

definition drand :: "CLIENT_STATE \<Rightarrow> real \<times> CLIENT_STATE" where
  "drand s = (rand_src s (rand_pos s), s\<lparr>rand_pos := Suc (rand_pos s)\<rparr>)"

text \<open>\<open>rand()\<close> lies between \<open>0\<close> and \<open>RAND_MAX\<close>, so \<open>drand()\<close> lies between \<open>0\<close> and \<open>1\<close>.\<close>

definition rand_ok :: "CLIENT_STATE \<Rightarrow> bool" where
  "rand_ok s = (\<forall>i. 0 \<le> rand_src s i \<and> rand_src s i \<le> 1)"

definition rand_range :: "real \<Rightarrow> real \<Rightarrow> CLIENT_STATE \<Rightarrow> real \<times> CLIENT_STATE" where
  "rand_range rmin rmax s =
     (if rmin < rmax then case drand s of (d, s1) \<Rightarrow> (d * (rmax - rmin) + rmin, s1) else (rmin, s))"

definition calculate_exponential_backoff ::
  "int \<Rightarrow> real \<Rightarrow> real \<Rightarrow> CLIENT_STATE \<Rightarrow> real \<times> CLIENT_STATE" where
  "calculate_exponential_backoff n mn mx s = rand_range mn (min mx (exp (real_of_int n))) s"

section \<open>Backing off from a project\<close>

definition set_min_rpc_time :: "real \<Rightarrow> pid \<Rightarrow> CLIENT_STATE \<Rightarrow> CLIENT_STATE" where
  "set_min_rpc_time future_time p s =
     (if future_time \<le> p_min_rpc_time (proj s p) then s
      else if p_next_rpc_time (proj s p) > 0 \<and> future_time > p_next_rpc_time (proj s p) then s
      else upd_proj p (\<lambda>x. x\<lparr>p_min_rpc_time := future_time, p_possibly_backed_off := True\<rparr>) s)"

definition waiting_until_min_rpc_time :: "CLIENT_STATE \<Rightarrow> pid \<Rightarrow> bool" where
  "waiting_until_min_rpc_time s p = (p_min_rpc_time (proj s p) > now s)"

definition backoff :: "pid \<Rightarrow> CLIENT_STATE \<Rightarrow> CLIENT_STATE" where
  "backoff p s =
     (if p_master_fetch_failures (proj s p) \<ge> master_fetch_retry_cap s
      then set_min_rpc_time (now s + master_fetch_interval s) p
             (upd_proj p (\<lambda>x. x\<lparr>p_master_url_fetch_pending := True\<rparr>) s)
      else let
        s1 = (if p_nrpc_failures (proj s p) = master_fetch_period s
              then upd_proj p (\<lambda>x. x\<lparr>p_master_url_fetch_pending := True, p_min_rpc_time := 0,
                     p_nrpc_failures := 0, p_master_fetch_failures := p_master_fetch_failures x + 1\<rparr>) s
              else s);
        s2 = (if \<not> ns_need_physical_connection (net_status s1)
              then upd_proj p (\<lambda>x. x\<lparr>p_nrpc_failures := p_nrpc_failures x + 1\<rparr>) s1 else s1);
        n = (if p_nrpc_failures (proj s2 p) > retry_cap s2 then retry_cap s2
             else p_nrpc_failures (proj s2 p));
        (exp_backoff, s3) = calculate_exponential_backoff n (sched_retry_delay_min s2)
                              (sched_retry_delay_max s2) s2
      in set_min_rpc_time (now s3 + exp_backoff) p s3)"

text \<open>The transfers of a project back off together after three failures in a row.\<close>

definition next_file_xfer_time :: "PROJECT \<Rightarrow> bool \<Rightarrow> real" where
  "next_file_xfer_time x is_upload = (if is_upload then p_next_file_xfer_up x else p_next_file_xfer_down x)"

definition file_xfer_failed :: "bool \<Rightarrow> pid \<Rightarrow> CLIENT_STATE \<Rightarrow> CLIENT_STATE" where
  "file_xfer_failed is_upload p s =
     (if is_upload
      then let s1 = upd_proj p (\<lambda>x. x\<lparr>p_file_xfer_failures_up := p_file_xfer_failures_up x + 1\<rparr>) s in
        if p_file_xfer_failures_up (proj s1 p) < FILE_XFER_FAILURE_LIMIT
        then upd_proj p (\<lambda>x. x\<lparr>p_next_file_xfer_up := 0\<rparr>) s1
        else case calculate_exponential_backoff (p_file_xfer_failures_up (proj s1 p))
                    (pers_retry_delay_min s1) (pers_retry_delay_max s1) s1 of
          (d, s2) \<Rightarrow> upd_proj p (\<lambda>x. x\<lparr>p_next_file_xfer_up := now s2 + d\<rparr>) s2
      else let s1 = upd_proj p (\<lambda>x. x\<lparr>p_file_xfer_failures_down := p_file_xfer_failures_down x + 1\<rparr>) s in
        if p_file_xfer_failures_down (proj s1 p) < FILE_XFER_FAILURE_LIMIT
        then upd_proj p (\<lambda>x. x\<lparr>p_next_file_xfer_down := 0\<rparr>) s1
        else case calculate_exponential_backoff (p_file_xfer_failures_down (proj s1 p))
                    (pers_retry_delay_min s1) (pers_retry_delay_max s1) s1 of
          (d, s2) \<Rightarrow> upd_proj p (\<lambda>x. x\<lparr>p_next_file_xfer_down := now s2 + d\<rparr>) s2)"

definition file_xfer_succeeded :: "bool \<Rightarrow> pid \<Rightarrow> CLIENT_STATE \<Rightarrow> CLIENT_STATE" where
  "file_xfer_succeeded is_upload p s =
     (if is_upload
      then upd_proj p (\<lambda>x. x\<lparr>p_file_xfer_failures_up := 0, p_next_file_xfer_up := 0\<rparr>) s
      else upd_proj p (\<lambda>x. x\<lparr>p_file_xfer_failures_down := 0, p_next_file_xfer_down := 0\<rparr>) s)"

section \<open>Reporting that a result failed\<close>

abbreviation MAX_STDERR_LEN :: nat where "MAX_STDERR_LEN \<equiv> 65536"

definition upload_error :: "FILE_INFO \<Rightarrow> int \<Rightarrow> string" where
  "upload_error f failnum =
     ''<upload_error>'' @ NL @ write_tag ''file_name'' (fi_name f)
     @ write_tag ''error_code'' (string_of_int failnum) @ ''</upload_error>'' @ NL"

definition upload_errors :: "CLIENT_STATE \<Rightarrow> rid \<Rightarrow> string" where
  "upload_errors s r = concat (map (\<lambda>fr. case had_failure (finfo s (fr_file_info fr)) of
     None \<Rightarrow> [] | Some n \<Rightarrow> upload_error (finfo s (fr_file_info fr)) n) (r_output_files (res s r)))"

text \<open>
  \<open>report_result_error\<close> with the message already formatted; the buffer of \<open>vsnprintf\<close> holds
  4095 characters of it.
\<close>

definition report_result_error :: "rid \<Rightarrow> string \<Rightarrow> CLIENT_STATE \<Rightarrow> CLIENT_STATE" where
  "report_result_error r message s =
     (if r_ready_to_report (res s r) then s
      else let
        s1 = upd_res r (\<lambda>x. x\<lparr>r_ready_to_report := True, r_completed_time := now s\<rparr>) s;
        err_msg = take 4095 message;
        s2 = backoff (r_project (res s1 r)) s1;
        s3 = upd_res r (\<lambda>x. x\<lparr>r_stderr_out := r_stderr_out x @ ''<message>'' @ NL @ err_msg @ NL
                                @ ''</message>'' @ NL\<rparr>) s2;
        st = r_state (res s3 r);
        s4 = (if st = RESULT_NEW \<or> st = RESULT_FILES_DOWNLOADING
              then upd_res r (\<lambda>x. if r_exit_status x = 0 then x\<lparr>r_exit_status := ERR_RESULT_DOWNLOAD\<rparr> else x) s3
              else if st = RESULT_FILES_DOWNLOADED
              then upd_res r (\<lambda>x. let y = x\<lparr>r_state := RESULT_COMPUTE_ERROR\<rparr>
                     in if r_exit_status y = 0 then y\<lparr>r_exit_status := ERR_RESULT_START\<rparr> else y) s3
              else if st = RESULT_FILES_UPLOADING
              then upd_res r (\<lambda>x. let y = x\<lparr>r_stderr_out := r_stderr_out x @ upload_errors s3 r\<rparr>
                     in if r_exit_status y = 0 then y\<lparr>r_exit_status := ERR_RESULT_UPLOAD\<rparr> else y) s3
              else s3)
      in upd_res r (\<lambda>x. x\<lparr>r_stderr_out := take MAX_STDERR_LEN (r_stderr_out x)\<rparr>) s4)"

section \<open>The clock was turned back\<close>

text \<open>\<open>check_clock_reset\<close>, with the time that \<open>time(0)\<close> returned.\<close>

definition check_clock_reset :: "real \<Rightarrow> CLIENT_STATE \<Rightarrow> CLIENT_STATE" where
  "check_clock_reset t s =
     (let s1 = s\<lparr>now := t\<rparr> in
      if ts_last_update (time_stats s1) = 0 then s1
      else if ts_last_update (time_stats s1) \<le> now s1 then s1
      else let
        s2 = fold (\<lambda>p s. upd_proj p (\<lambda>x. x\<lparr>p_min_rpc_time := 0,
               p_next_rpc_time := (if p_next_rpc_time x \<noteq> 0 then now s else p_next_rpc_time x),
               p_next_file_xfer_up := 0, p_next_file_xfer_down := 0\<rparr>) s) (projects s1) s1
      in fold (\<lambda>x. upd_pxfer x (\<lambda>f. f\<lparr>pfx_next_request_time := 0\<rparr>)) (pers_file_xfers s2) s2)"

section \<open>Bounds of the delays\<close>

text \<open>
  What the delays rely on: a source of numbers between \<open>0\<close> and \<open>1\<close>. \<open>delay_between\<close> is the
  arithmetic of \<open>rand_range\<close>.
\<close>

locale unit_random =
  fixes draw :: "'s \<Rightarrow> real \<times> 's" and ok :: "'s \<Rightarrow> bool"
  assumes draw_unit: "ok s \<Longrightarrow> 0 \<le> fst (draw s) \<and> fst (draw s) \<le> 1"
    and draw_ok: "ok s \<Longrightarrow> ok (snd (draw s))"
begin

lemma delay_between:
  assumes "ok s" "lo < hi"
  shows "lo \<le> fst (draw s) * (hi - lo) + lo \<and> fst (draw s) * (hi - lo) + lo \<le> hi"
proof -
  have "fst (draw s) * (hi - lo) \<le> 1 * (hi - lo)"
    using draw_unit [OF assms(1)] assms(2) by (intro mult_right_mono) auto
  moreover have "0 \<le> fst (draw s) * (hi - lo)"
    using draw_unit [OF assms(1)] assms(2) by simp
  ultimately show ?thesis by simp
qed

end

interpretation client_random: unit_random drand rand_ok
  by unfold_locales (auto simp: drand_def rand_ok_def)

lemma rand_range_bounds:
  assumes "rand_ok s"
  shows "lo \<le> fst (rand_range lo hi s)" "fst (rand_range lo hi s) \<le> max lo hi"
  using client_random.delay_between [OF assms, of lo hi]
  by (auto simp: rand_range_def split: prod.split)

lemma rand_range_state:
  "\<exists>n. snd (rand_range lo hi s) = s\<lparr>rand_pos := n\<rparr>"
  by (cases "lo < hi")
    (auto simp: rand_range_def drand_def intro: exI [of _ "Suc (rand_pos s)"] exI [of _ "rand_pos s"])

lemma exponential_backoff_bounds:
  assumes "rand_ok s" "mn \<le> mx"
  shows "mn \<le> fst (calculate_exponential_backoff n mn mx s)"
    "fst (calculate_exponential_backoff n mn mx s) \<le> mx"
  using rand_range_bounds [OF assms(1), where lo = mn and hi = "min mx (exp (real_of_int n))"] assms(2)
  unfolding calculate_exponential_backoff_def by auto

lemma exponential_backoff_state:
  "\<exists>k. snd (calculate_exponential_backoff n mn mx s) = s\<lparr>rand_pos := k\<rparr>"
  unfolding calculate_exponential_backoff_def by (rule rand_range_state)

lemma min_rpc_time_after_set:
  "p_min_rpc_time (proj (set_min_rpc_time t p s) p) =
     (if t \<le> p_min_rpc_time (proj s p) \<or> p_next_rpc_time (proj s p) > 0 \<and> t > p_next_rpc_time (proj s p)
      then p_min_rpc_time (proj s p) else t)"
  by (simp add: set_min_rpc_time_def upd_proj_def)

text \<open>The state in which \<open>backoff\<close> sets the project's time, and the delay it chose.\<close>

lemma backoff_shape:
  assumes "rand_ok s" "0 \<le> sched_retry_delay_min s" "sched_retry_delay_min s \<le> sched_retry_delay_max s"
    "p_master_fetch_failures (proj s p) < master_fetch_retry_cap s"
  obtains s3 d where "backoff p s = set_min_rpc_time (now s + d) p s3"
    "sched_retry_delay_min s \<le> d" "d \<le> sched_retry_delay_max s"
    "p_next_rpc_time (proj s3 p) = p_next_rpc_time (proj s p)" "now s3 = now s"
    "p_min_rpc_time (proj s3 p) = p_min_rpc_time (proj s p) \<or> p_min_rpc_time (proj s3 p) = 0"
proof -
  define s1 where "s1 = (if p_nrpc_failures (proj s p) = master_fetch_period s
    then upd_proj p (\<lambda>x. x\<lparr>p_master_url_fetch_pending := True, p_min_rpc_time := 0,
      p_nrpc_failures := 0, p_master_fetch_failures := p_master_fetch_failures x + 1\<rparr>) s else s)"
  define s2 where "s2 = (if \<not> ns_need_physical_connection (net_status s1)
    then upd_proj p (\<lambda>x. x\<lparr>p_nrpc_failures := p_nrpc_failures x + 1\<rparr>) s1 else s1)"
  define n where "n = (if p_nrpc_failures (proj s2 p) > retry_cap s2 then retry_cap s2
    else p_nrpc_failures (proj s2 p))"
  obtain d s3 where e: "calculate_exponential_backoff n (sched_retry_delay_min s2)
      (sched_retry_delay_max s2) s2 = (d, s3)" by fastforce
  have same: "sched_retry_delay_min s2 = sched_retry_delay_min s"
    "sched_retry_delay_max s2 = sched_retry_delay_max s" "now s2 = now s" "rand_src s2 = rand_src s"
    "p_next_rpc_time (proj s2 p) = p_next_rpc_time (proj s p)"
    "p_min_rpc_time (proj s2 p) = p_min_rpc_time (proj s p) \<or> p_min_rpc_time (proj s2 p) = 0"
    by (auto simp: s2_def s1_def upd_proj_def)
  obtain k where s3: "s3 = s2\<lparr>rand_pos := k\<rparr>"
    using exponential_backoff_state [of n "sched_retry_delay_min s2" "sched_retry_delay_max s2" s2] e
    by auto
  have "rand_ok s2" using assms(1) by (simp add: rand_ok_def same)
  then have d: "sched_retry_delay_min s \<le> d" "d \<le> sched_retry_delay_max s"
    using exponential_backoff_bounds [of s2 "sched_retry_delay_min s2" "sched_retry_delay_max s2" n]
      assms(3) e same by simp_all
  have "backoff p s = set_min_rpc_time (now s3 + d) p s3"
    using assms(4) e unfolding n_def
    by (simp add: backoff_def s1_def [symmetric] s2_def [symmetric] Let_def split: if_splits)
  then show thesis using that [of d s3] d same s3 by simp
qed

text \<open>Backing off from a project that has no scheduled RPC time defers the next RPC by at least
  the minimal delay, and by at most the maximal one unless it was deferred further before.\<close>

theorem backoff_defers:
  assumes "rand_ok s" "0 \<le> sched_retry_delay_min s" "sched_retry_delay_min s \<le> sched_retry_delay_max s"
    "p_master_fetch_failures (proj s p) < master_fetch_retry_cap s"
    "p_next_rpc_time (proj s p) \<le> 0" "0 \<le> now s"
  shows "now s + sched_retry_delay_min s \<le> p_min_rpc_time (proj (backoff p s) p)
    \<and> p_min_rpc_time (proj (backoff p s) p)
        \<le> max (p_min_rpc_time (proj s p)) (now s + sched_retry_delay_max s)"
proof (cases rule: backoff_shape [OF assms(1-4)])
  case (1 s3 d)
  then show ?thesis using assms(2,5,6) by (auto simp: min_rpc_time_after_set)
qed

theorem backoff_defers_witness: "1060 \<le> p_min_rpc_time (proj (backoff 0 sample_state) 0)"
  using backoff_defers [of sample_state 0] by (simp add: sample_defs rand_ok_def)

text \<open>A project whose next RPC is scheduled earlier than the minimal delay is not deferred at
  all by \<open>backoff\<close>: \<open>set_min_rpc_time\<close> drops a time later than \<open>next_rpc_time\<close> instead of
  limiting it, so the project that has just failed may be contacted at once.\<close>

theorem backoff_ignored_before_next_rpc:
  assumes "rand_ok s" "0 \<le> sched_retry_delay_min s" "sched_retry_delay_min s \<le> sched_retry_delay_max s"
    "p_master_fetch_failures (proj s p) < master_fetch_retry_cap s"
    "0 < p_next_rpc_time (proj s p)" "p_next_rpc_time (proj s p) < now s + sched_retry_delay_min s"
    "p_min_rpc_time (proj s p) \<le> now s" "0 \<le> now s"
  shows "\<not> waiting_until_min_rpc_time (backoff p s) p"
proof (cases rule: backoff_shape [OF assms(1-4)])
  case (1 s3 d)
  have "now (backoff p s) = now s" by (simp add: 1(1,5) set_min_rpc_time_def upd_proj_def)
  then show ?thesis
    using 1 assms(5-8) by (auto simp: waiting_until_min_rpc_time_def min_rpc_time_after_set)
qed

theorem backoff_ignored_before_next_rpc_witness:
  "\<not> waiting_until_min_rpc_time
      (backoff 0 (sample_state\<lparr>proj := (\<lambda>_. sample_project\<lparr>p_next_rpc_time := 1030\<rparr>)\<rparr>)) 0"
  by (rule backoff_ignored_before_next_rpc) (simp_all add: sample_defs rand_ok_def)

section \<open>A failed result is reported once\<close>

lemma set_min_rpc_time_res [frame_simps]: "res (set_min_rpc_time t p s) = res s"
  by (simp add: set_min_rpc_time_def upd_proj_def)

lemma res_exponential_backoff [frame_simps]:
  "res (snd (calculate_exponential_backoff n mn mx s)) = res s"
  using exponential_backoff_state [of n mn mx s] by auto

lemma res_backoff [frame_simps]: "res (backoff p s) = res s"
proof -
  have u: "res (upd_proj p f s) = res s" for p f s by (simp add: upd_proj_def)
  show ?thesis by (simp add: backoff_def Let_def split_beta frame_simps u)
qed

text \<open>Reporting an error for a result marks it ready to report, keeps the text for the
  server within its limit, and moves a result that was ready to run to \<open>RESULT_COMPUTE_ERROR\<close>
  with a non-zero exit status, so that it is not run again; reporting a second error changes
  nothing.\<close>

theorem report_result_error_once:
  "let s' = report_result_error r msg s; x = res s r; y = res s' r in
     report_result_error r msg' s' = s' \<and> r_ready_to_report y
     \<and> (\<not> r_ready_to_report x \<longrightarrow> length (r_stderr_out y) \<le> MAX_STDERR_LEN)
     \<and> (\<not> r_ready_to_report x \<and> r_state x = RESULT_FILES_DOWNLOADED
          \<longrightarrow> r_state y = RESULT_COMPUTE_ERROR \<and> r_exit_status y \<noteq> 0 \<and> \<not> result_runnable s' r)"
proof (cases "r_ready_to_report (res s r)")
  case True
  then show ?thesis by (simp add: report_result_error_def Let_def)
next
  case False
  let ?s' = "report_result_error r msg s"
  have ready: "r_ready_to_report (res ?s' r)" and len: "length (r_stderr_out (res ?s' r)) \<le> MAX_STDERR_LEN"
    using False by (simp_all add: report_result_error_def Let_def frame_simps upd_res_def)
  moreover have "r_state (res ?s' r) = RESULT_COMPUTE_ERROR \<and> r_exit_status (res ?s' r) \<noteq> 0"
    if "r_state (res s r) = RESULT_FILES_DOWNLOADED"
    using False that by (simp add: report_result_error_def Let_def frame_simps upd_res_def)
  moreover have "report_result_error r msg' ?s' = ?s'"
    using ready by (simp add: report_result_error_def)
  ultimately show ?thesis using False by (auto simp: Let_def result_runnable_def)
qed

theorem report_result_error_once_witness:
  "r_state (res (report_result_error 0 ''x'' sample_state) 0) = RESULT_COMPUTE_ERROR"
  using report_result_error_once [of 0 "''x''" sample_state "[]"]
  by (simp add: Let_def sample_state_def sample_result_def)

end
