(* ===== verification/App_Task.thy ===== *)
theory App_Task
  imports CPU_Schedule Backoff
begin

text \<open>
  Running applications (\<open>client/app.C\<close>, \<open>client/app_control.C\<close>): the message channel and queue
  to an application, suspending, quitting, aborting and killing it, the limits it must keep, and
  the slots of the active tasks. What the operating system does to a process (signals,
  \<open>waitpid\<close>) is input; the model has the state the client keeps of it.
\<close>

section \<open>Channels and queues\<close>

abbreviation MSG_CHANNEL_SIZE :: nat where "MSG_CHANNEL_SIZE \<equiv> 1024"

text \<open>\<open>strlcpy\<close> into a buffer of \<open>MSG_CHANNEL_SIZE-1\<close> bytes keeps one byte for the terminator.\<close>

definition strlcpy_msg :: "string \<Rightarrow> string" where
  "strlcpy_msg msg = take (MSG_CHANNEL_SIZE - 2) msg"

definition get_msg :: "string option \<Rightarrow> string option \<times> string option" where
  "get_msg ch = (case ch of None \<Rightarrow> (None, None) | Some m \<Rightarrow> (Some (strlcpy_msg m), None))"

definition has_msg :: "string option \<Rightarrow> bool" where
  "has_msg ch = (ch \<noteq> None)"

definition send_msg :: "string \<Rightarrow> string option \<Rightarrow> bool \<times> string option" where
  "send_msg msg ch = (if ch \<noteq> None then (False, ch) else (True, Some (strlcpy_msg msg)))"

definition send_msg_overwrite :: "string \<Rightarrow> string option \<Rightarrow> string option" where
  "send_msg_overwrite msg ch = Some (strlcpy_msg msg)"

definition msg_queue_send ::
  "real \<Rightarrow> string \<Rightarrow> MSG_QUEUE \<times> string option \<Rightarrow> MSG_QUEUE \<times> string option" where
  "msg_queue_send t msg qc =
     (case qc of (q, ch) \<Rightarrow>
      if mq_msgs q = [] \<and> fst (send_msg msg ch)
      then (q\<lparr>mq_last_block := 0\<rparr>, snd (send_msg msg ch))
      else let q1 = q\<lparr>mq_msgs := mq_msgs q @ [msg]\<rparr>
           in (if mq_last_block q1 = 0 then q1\<lparr>mq_last_block := t\<rparr> else q1, ch))"

definition msg_queue_poll :: "MSG_QUEUE \<times> string option \<Rightarrow> MSG_QUEUE \<times> string option" where
  "msg_queue_poll qc =
     (case qc of (q, ch) \<Rightarrow>
      case mq_msgs q of
        [] \<Rightarrow> (q, ch)
      | m # ms \<Rightarrow> if fst (send_msg m ch)
                  then (q\<lparr>mq_msgs := ms, mq_last_block := 0\<rparr>, snd (send_msg m ch))
                  else (q, ch))"

definition msg_queue_purge :: "string \<Rightarrow> MSG_QUEUE \<Rightarrow> int \<times> MSG_QUEUE" where
  "msg_queue_purge msg q =
     (if mq_msgs q = [] then (0, q)
      else if msg = last (mq_msgs q) then (1, q\<lparr>mq_msgs := butlast (mq_msgs q)\<rparr>)
      else (0, q))"

definition msg_queue_timeout :: "real \<Rightarrow> real \<Rightarrow> MSG_QUEUE \<Rightarrow> bool" where
  "msg_queue_timeout t diff q = (mq_last_block q \<noteq> 0 \<and> t - mq_last_block q > diff)"

section \<open>Controlling one task\<close>

definition send_control :: "string \<Rightarrow> aid \<Rightarrow> CLIENT_STATE \<Rightarrow> CLIENT_STATE" where
  "send_control msg a s = upd_task a (\<lambda>t.
     case msg_queue_send (now s) msg (at_process_control_queue t, at_process_control_request t) of
       (q, ch) \<Rightarrow> t\<lparr>at_process_control_queue := q, at_process_control_request := ch\<rparr>) s"

definition request_exit :: "aid \<Rightarrow> CLIENT_STATE \<Rightarrow> int \<times> CLIENT_STATE" where
  "request_exit a s =
     (if \<not> at_shm (task s a) then (1, s)
      else (0, upd_task a (\<lambda>t. t\<lparr>at_quit_time := now s\<rparr>) (send_control ''<quit/>'' a s)))"

definition request_abort :: "aid \<Rightarrow> CLIENT_STATE \<Rightarrow> int \<times> CLIENT_STATE" where
  "request_abort a s = (if \<not> at_shm (task s a) then (1, s) else (0, send_control ''<abort/>'' a s))"

definition set_task_state :: "TASK_STATE \<Rightarrow> aid \<Rightarrow> CLIENT_STATE \<Rightarrow> CLIENT_STATE" where
  "set_task_state v a s = upd_task a (\<lambda>t. t\<lparr>at_task_state := v\<rparr>) s"

text \<open>\<open>suspend\<close> and \<open>unsuspend\<close>: the opposite request is withdrawn if it has not been sent yet.\<close>

definition control_or_withdraw :: "string \<Rightarrow> string \<Rightarrow> aid \<Rightarrow> CLIENT_STATE \<Rightarrow> CLIENT_STATE" where
  "control_or_withdraw opposite msg a s =
     (case msg_queue_purge opposite (at_process_control_queue (task s a)) of (n, q) \<Rightarrow>
        let s1 = upd_task a (\<lambda>t. t\<lparr>at_process_control_queue := q\<rparr>) s
        in if n = 0 then send_control msg a s1 else s1)"

definition suspend :: "aid \<Rightarrow> CLIENT_STATE \<Rightarrow> CLIENT_STATE" where
  "suspend a s = (if \<not> at_shm (task s a) then s
     else set_task_state PROCESS_SUSPENDED a (control_or_withdraw ''<resume/>'' ''<suspend/>'' a s))"

definition unsuspend :: "aid \<Rightarrow> CLIENT_STATE \<Rightarrow> int \<times> CLIENT_STATE" where
  "unsuspend a s = (if \<not> at_shm (task s a) then (0, s)
     else (0, set_task_state PROCESS_EXECUTING a (control_or_withdraw ''<suspend/>'' ''<resume/>'' a s)))"

definition preempt :: "bool \<Rightarrow> aid \<Rightarrow> CLIENT_STATE \<Rightarrow> CLIENT_STATE" where
  "preempt quit_task a s =
     (if quit_task \<and> at_checkpoint_cpu_time (task s a) > 0
      then snd (request_exit a (set_task_state PROCESS_QUIT_PENDING a s))
      else suspend a s)"

text \<open>\<open>cleanup_task\<close> without the option \<open>exit_after_finish\<close>, which ends the client.\<close>

definition cleanup_task :: "aid \<Rightarrow> CLIENT_STATE \<Rightarrow> CLIENT_STATE" where
  "cleanup_task a s =
     (if at_shm (task s a) then (upd_task a (\<lambda>t. t\<lparr>at_shm := False\<rparr>) s)\<lparr>retry_shmem_time := 0\<rparr> else s)"

definition kill_task :: "bool \<Rightarrow> aid \<Rightarrow> CLIENT_STATE \<Rightarrow> CLIENT_STATE" where
  "kill_task restart a s =
     (let s1 = cleanup_task a s in
      if restart then request_enforce_schedule (set_task_state PROCESS_UNINITIALIZED a s1)
      else set_task_state PROCESS_ABORTED a s1)"

text \<open>\<open>has_task_exited\<close>; \<open>reaped\<close> says whether \<open>waitpid\<close> returned the task's process.\<close>

definition has_task_exited :: "bool \<Rightarrow> aid \<Rightarrow> CLIENT_STATE \<Rightarrow> bool \<times> CLIENT_STATE" where
  "has_task_exited reaped a s =
     (if \<not> process_exists (task s a) then (True, s)
      else if reaped then (True, cleanup_task a (set_task_state PROCESS_EXITED a s))
      else (False, s))"

definition handle_premature_exit :: "aid \<Rightarrow> CLIENT_STATE \<Rightarrow> bool \<times> CLIENT_STATE" where
  "handle_premature_exit a s =
     (if at_task_state (task s a) = PROCESS_QUIT_PENDING
      then (True, set_task_state PROCESS_UNINITIALIZED a s)
      else let
        s1 = upd_task a (\<lambda>t. t\<lparr>at_premature_exit_count := at_premature_exit_count t + 1\<rparr>) s;
        r = at_result (task s1 a)
      in if at_premature_exit_count (task s1 a) > 100
         then let
           s2 = set_task_state PROCESS_ABORTED a s1;
           s3 = upd_res r (\<lambda>x. x\<lparr>r_exit_status := ERR_TOO_MANY_EXITS\<rparr>) s2;
           s4 = report_result_error r ''too many exit(0)s'' s3
         in (False, upd_res r (\<lambda>x. x\<lparr>r_state := RESULT_ABORTED\<rparr>) s4)
         else (True, set_task_state PROCESS_UNINITIALIZED a s1))"

definition abort_task :: "int \<Rightarrow> string \<Rightarrow> aid \<Rightarrow> CLIENT_STATE \<Rightarrow> CLIENT_STATE" where
  "abort_task exit_status msg a s =
     (let s1 = (if at_task_state (task s a) = PROCESS_EXECUTING \<or> at_task_state (task s a) = PROCESS_SUSPENDED
                then snd (request_abort a (upd_task a (\<lambda>t. t\<lparr>at_task_state := PROCESS_ABORT_PENDING,
                                                           at_abort_time := now s\<rparr>) s))
                else set_task_state PROCESS_ABORTED a s);
          r = at_result (task s1 a);
          s2 = upd_res r (\<lambda>x. x\<lparr>r_exit_status := exit_status\<rparr>) s1;
          s3 = report_result_error r msg s2
      in upd_res r (\<lambda>x. x\<lparr>r_state := RESULT_ABORTED\<rparr>) s3)"

section \<open>The set of active tasks\<close>

text \<open>
  \<open>check_rsc_limits_exceeded\<close>: \<open>disk a\<close> is what \<open>current_disk_usage\<close> measures for task \<open>a\<close>,
  \<open>None\<close> when it fails. The loop passes on whether something was aborted and the RAM left.
\<close>

definition check_max_disk_exceeded :: "(aid \<Rightarrow> real option) \<Rightarrow> aid \<Rightarrow> CLIENT_STATE \<Rightarrow> bool \<times> CLIENT_STATE" where
  "check_max_disk_exceeded disk a s =
     (case disk a of None \<Rightarrow> (False, s)
      | Some usage \<Rightarrow>
          let s1 = upd_task a (\<lambda>t. t\<lparr>at_stats_disk := max (at_stats_disk t) usage\<rparr>) s in
          if usage > at_max_disk_usage (task s1 a)
          then (True, abort_task ERR_RSC_LIMIT_EXCEEDED ''Maximum disk usage exceeded'' a s1)
          else (False, s1))"

definition check_task_limits ::
  "(aid \<Rightarrow> real option) \<Rightarrow> bool \<Rightarrow> real \<Rightarrow> aid \<Rightarrow> CLIENT_STATE \<times> bool \<times> real \<Rightarrow> CLIENT_STATE \<times> bool \<times> real" where
  "check_task_limits disk do_disk_check max_ram a st =
     (case st of (s, did_anything, ram_left) \<Rightarrow>
      let t = task s a in
      if at_task_state t \<noteq> PROCESS_EXECUTING then (s, did_anything, ram_left)
      else if at_current_cpu_time t > at_max_cpu_time t
      then (abort_task ERR_RSC_LIMIT_EXCEEDED ''Maximum CPU time exceeded'' a s, True, ram_left)
      else if at_working_set_size_smoothed t > max_ram
      then (abort_task ERR_RSC_LIMIT_EXCEEDED ''Maximum memory exceeded'' a s, True, ram_left)
      else let (over, s1) = (if do_disk_check then check_max_disk_exceeded disk a s else (False, s)) in
        if over then (s1, True, ram_left)
        else (s1, did_anything, ram_left - at_working_set_size_smoothed (task s1 a)))"

definition check_rsc_limits_exceeded :: "(aid \<Rightarrow> real option) \<Rightarrow> CLIENT_STATE \<Rightarrow> bool \<times> CLIENT_STATE" where
  "check_rsc_limits_exceeded disk s =
     (let min_interval = (if gp_disk_interval (global_prefs s) < 300 then 300
                          else gp_disk_interval (global_prefs s));
          do_disk_check = (now s > disk_check_last_time s + min_interval);
          (s1, did_anything, ram_left) =
            fold (check_task_limits disk do_disk_check (max_available_ram s)) (active_tasks s)
              (s, False, available_ram s);
          s2 = (if ram_left < 0 then request_schedule_cpus s1 else s1);
          s3 = (if do_disk_check then s2\<lparr>disk_check_last_time := now s2\<rparr> else s2)
      in (did_anything, s3))"

definition suspend_all :: "bool \<Rightarrow> CLIENT_STATE \<Rightarrow> CLIENT_STATE" where
  "suspend_all cpu_throttle s =
     (let leave_in_mem = (if \<not> cpu_throttle then gp_leave_apps_in_memory (global_prefs s) else True)
      in fold (\<lambda>a s.
           if at_task_state (task s a) \<noteq> PROCESS_EXECUTING then s
           else if cpu_throttle \<and> (p_non_cpu_intensive (proj s (r_project (res s (at_result (task s a)))))
                   \<or> av_avg_ncpus (appver s (at_app_version (task s a))) < 1) then s
           else preempt (\<not> leave_in_mem) a s) (active_tasks s) s)"

definition is_task_executing :: "CLIENT_STATE \<Rightarrow> bool" where
  "is_task_executing s = list_ex (\<lambda>a. at_task_state (task s a) = PROCESS_EXECUTING) (active_tasks s)"

text \<open>The two loops over the tasks of a project, or over all tasks.\<close>

definition concerns :: "pid option \<Rightarrow> CLIENT_STATE \<Rightarrow> aid \<Rightarrow> bool" where
  "concerns proj0 s a = (case proj0 of None \<Rightarrow> True | Some p \<Rightarrow> wu_project (wunit s (at_wup (task s a))) = p)"

definition request_tasks_exit :: "pid option \<Rightarrow> CLIENT_STATE \<Rightarrow> CLIENT_STATE" where
  "request_tasks_exit proj0 s = fold (\<lambda>a s.
     if concerns proj0 s a \<and> process_exists (task s a) then snd (request_exit a s) else s) (active_tasks s) s"

definition kill_tasks :: "pid option \<Rightarrow> CLIENT_STATE \<Rightarrow> CLIENT_STATE" where
  "kill_tasks proj0 s = fold (\<lambda>a s.
     if concerns proj0 s a \<and> process_exists (task s a) then kill_task False a s else s) (active_tasks s) s"

definition process_control_poll :: "CLIENT_STATE \<Rightarrow> CLIENT_STATE" where
  "process_control_poll s = fold (\<lambda>a s.
     let t = task s a in
     if \<not> process_exists t then s
     else if \<not> at_shm t then s
     else if msg_queue_timeout (now s) 180 (at_process_control_queue t) then kill_task True a s
     else upd_task a (\<lambda>t. case msg_queue_poll (at_process_control_queue t, at_process_control_request t) of
            (q, ch) \<Rightarrow> t\<lparr>at_process_control_queue := q, at_process_control_request := ch\<rparr>) s)
     (active_tasks s) s"

text \<open>The end of \<open>ACTIVE_TASK_SET::poll\<close>: tasks that did not react to a request are killed.\<close>

abbreviation ABORT_TIMEOUT :: real where "ABORT_TIMEOUT \<equiv> 60"
abbreviation QUIT_TIMEOUT :: real where "QUIT_TIMEOUT \<equiv> 10"

definition kill_overdue :: "CLIENT_STATE \<Rightarrow> CLIENT_STATE" where
  "kill_overdue s = fold (\<lambda>a s.
     let s1 = (if at_task_state (task s a) = PROCESS_ABORT_PENDING
                  \<and> now s > at_abort_time (task s a) + ABORT_TIMEOUT
               then kill_task False a s else s)
     in if at_task_state (task s1 a) = PROCESS_QUIT_PENDING
           \<and> now s1 > at_quit_time (task s1 a) + QUIT_TIMEOUT
        then kill_task True a s1 else s1) (active_tasks s) s"

section \<open>Slots\<close>

definition is_slot_in_use :: "CLIENT_STATE \<Rightarrow> nat \<Rightarrow> bool" where
  "is_slot_in_use s j = list_ex (\<lambda>a. at_slot (task s a) = j) (active_tasks s)"

definition slot_taken :: "CLIENT_STATE \<Rightarrow> nat \<Rightarrow> bool" where
  "slot_taken s j = list_ex (\<lambda>a. at_slot (task s a) = j) (active_tasks s)"

text \<open>
  \<open>get_free_slot\<close>: \<open>usable j\<close> says whether an empty directory could be made for slot \<open>j\<close>. The
  loop has no end of its own.
\<close>

partial_function (option) free_slot_loop :: "(nat \<Rightarrow> bool) \<Rightarrow> CLIENT_STATE \<Rightarrow> nat \<Rightarrow> nat option" where
  [code]: "free_slot_loop usable s j =
     (if is_slot_in_use s j then free_slot_loop usable s (Suc j)
      else if usable j then Some j else free_slot_loop usable s (Suc j))"

definition get_free_slot :: "(nat \<Rightarrow> bool) \<Rightarrow> CLIENT_STATE \<Rightarrow> nat option" where
  "get_free_slot usable s = free_slot_loop usable s 0"

text \<open>The constructor and \<open>ACTIVE_TASK::init\<close>; \<open>m\<close> holds the fields the constructor leaves alone.\<close>

definition ACTIVE_TASK_new :: "real \<Rightarrow> ACTIVE_TASK \<Rightarrow> ACTIVE_TASK" where
  "ACTIVE_TASK_new t m = m\<lparr>at_slot := 0, at_full_init_done := False,
     at_task_state := PROCESS_UNINITIALIZED, at_scheduler_state := CPU_SCHED_UNINITIALIZED,
     at_signal := 0, at_fraction_done := 0, at_episode_start_cpu_time := 0,
     at_run_interval_start_wall_time := t, at_debt_interval_start_cpu_time := 0,
     at_checkpoint_cpu_time := 0, at_checkpoint_wall_time := 0, at_current_cpu_time := 0,
     at_have_trickle_down := False, at_send_upload_file_status := False, at_too_large := False,
     at_needs_shmem := False, at_want_network := False, at_premature_exit_count := 0,
     at_quit_time := 0, at_working_set_size_smoothed := 0, at_swap_size := 0, at_working_set_size := 0,
     at_page_fault_rate := 0, at_page_fault_count := 0, at_stats_mem := 0, at_stats_page := 0,
     at_stats_pagefault_rate := 0, at_stats_disk := 0, at_stats_checkpoint := 0\<rparr>"

definition ACTIVE_TASK_init :: "CLIENT_STATE \<Rightarrow> rid \<Rightarrow> ACTIVE_TASK \<Rightarrow> ACTIVE_TASK" where
  "ACTIVE_TASK_init s r t =
     (let w = wunit s (r_wup (res s r)) in
      t\<lparr>at_result := r, at_wup := r_wup (res s r), at_app_version := r_avp (res s r),
        at_max_cpu_time := wu_rsc_fpops_bound w / hi_p_fpops (host_info s),
        at_max_disk_usage := wu_rsc_disk_bound w, at_max_mem_usage := wu_rsc_memory_bound w\<rparr>)"

text \<open>
  \<open>get_task\<close>: the task of a result, made when there is none. The new task lives at an address
  not yet in use; \<open>None\<close> when no free slot is found.
\<close>

definition fresh_aid :: "CLIENT_STATE \<Rightarrow> aid" where
  "fresh_aid s = Suc (fold max (active_tasks s) 0)"

definition get_task :: "(nat \<Rightarrow> bool) \<Rightarrow> rid \<Rightarrow> CLIENT_STATE \<Rightarrow> (aid \<times> CLIENT_STATE) option" where
  "get_task usable r s =
     (case lookup_active_task_by_result s r of
        Some a \<Rightarrow> Some (a, s)
      | None \<Rightarrow>
          (case get_free_slot usable s of
             None \<Rightarrow> None
           | Some j \<Rightarrow>
               let a = fresh_aid s;
                   t = ACTIVE_TASK_init s r ((ACTIVE_TASK_new (now s) (task s a))\<lparr>at_slot := j\<rparr>)
               in Some (a, (upd_task a (\<lambda>_. t) s)\<lparr>active_tasks := active_tasks s @ [a]\<rparr>)))"

section \<open>Messages arrive in order\<close>

text \<open>
  What a queue needs of the channel below it: an accepted message is appended to the channel's
  content, a refused one changes nothing, and the receiver takes the first message. \<open>norm\<close> is
  what the channel makes of a message.
\<close>

locale message_channel =
  fixes offer :: "'m \<Rightarrow> 'c \<Rightarrow> bool \<times> 'c" and take_msg :: "'c \<Rightarrow> 'm option \<times> 'c"
    and content :: "'c \<Rightarrow> 'm list" and norm :: "'m \<Rightarrow> 'm"
  assumes offer_accept: "fst (offer m c) \<Longrightarrow> content (snd (offer m c)) = content c @ [norm m]"
    and offer_refuse: "\<not> fst (offer m c) \<Longrightarrow> snd (offer m c) = c"
    and take_first: "take_msg c = (Some m, c') \<Longrightarrow> content c = m # content c'"
begin

lemma offer_keeps_order:
  "content (snd (offer m c)) = content c @ (if fst (offer m c) then [norm m] else [])"
  by (simp add: offer_accept offer_refuse)

lemma receive_keeps_order:
  "take_msg c = (Some m, c') \<Longrightarrow> content c @ xs = m # (content c' @ xs)"
  using take_first by simp

end

definition channel_content :: "string option \<Rightarrow> string list" where
  "channel_content ch = (case ch of None \<Rightarrow> [] | Some m \<Rightarrow> [strlcpy_msg m])"

lemma strlcpy_msg_idem [simp]: "strlcpy_msg (strlcpy_msg m) = strlcpy_msg m"
  by (simp add: strlcpy_msg_def)

interpretation shm_channel: message_channel send_msg get_msg channel_content strlcpy_msg
  by unfold_locales
    (auto simp: send_msg_def get_msg_def channel_content_def split: option.splits if_splits)

text \<open>
  The client and an application that share a channel: the client sends and polls, the
  application receives, in any order. The state has the messages sent and received so far.
\<close>

inductive mq_reachable :: "string list \<times> string list \<times> MSG_QUEUE \<times> string option \<Rightarrow> bool" where
  init: "mq_reachable ([], [], \<lparr>mq_msgs = [], mq_last_block = 0\<rparr>, None)"
| send: "mq_reachable (sent, received, qc) \<Longrightarrow>
    mq_reachable (sent @ [m], received, msg_queue_send t m qc)"
| poll: "mq_reachable (sent, received, qc) \<Longrightarrow> mq_reachable (sent, received, msg_queue_poll qc)"
| receive: "mq_reachable (sent, received, q, ch) \<Longrightarrow> get_msg ch = (Some m, ch') \<Longrightarrow>
    mq_reachable (sent, received @ [m], q, ch')"

lemma send_content:
  "msg_queue_send t m (q, ch) = (q', ch') \<Longrightarrow>
   channel_content ch' @ map strlcpy_msg (mq_msgs q')
     = channel_content ch @ map strlcpy_msg (mq_msgs q) @ [strlcpy_msg m]"
  using shm_channel.offer_keeps_order [of m ch]
  by (auto simp: msg_queue_send_def Let_def split: if_splits)

lemma poll_content:
  "msg_queue_poll (q, ch) = (q', ch') \<Longrightarrow>
   channel_content ch' @ map strlcpy_msg (mq_msgs q')
     = channel_content ch @ map strlcpy_msg (mq_msgs q)"
proof (cases "mq_msgs q")
  case (Cons m ms)
  then show "msg_queue_poll (q, ch) = (q', ch') \<Longrightarrow>
      channel_content ch' @ map strlcpy_msg (mq_msgs q')
        = channel_content ch @ map strlcpy_msg (mq_msgs q)"
    using shm_channel.offer_keeps_order [of m ch]
    by (auto simp: msg_queue_poll_def split: if_splits)
qed (auto simp: msg_queue_poll_def)

text \<open>C11: However sending, polling and receiving interleave, the application receives the
  client's messages in the order they were sent, none lost and none twice: what it has received,
  what is in the channel and what waits in the queue together are the messages sent.\<close>

theorem messages_arrive_in_order:
  assumes "mq_reachable (sent, received, q, ch)"
  shows "received @ channel_content ch @ map strlcpy_msg (mq_msgs q) = map strlcpy_msg sent"
  using assms
proof (induction "(sent, received, q, ch)" arbitrary: sent received q ch rule: mq_reachable.induct)
  case init
  show ?case by (simp add: channel_content_def)
next
  case (send sent received qc m t q ch)
  obtain q0 ch0 where "qc = (q0, ch0)" by (cases qc)
  with send show ?case using send_content [of t m q0 ch0 q ch] by simp
next
  case (poll sent received qc q ch)
  obtain q0 ch0 where "qc = (q0, ch0)" by (cases qc)
  with poll show ?case using poll_content [of q0 ch0 q ch] by simp
next
  case (receive sent received q ch m ch')
  then show ?case
    using shm_channel.receive_keeps_order [OF receive(3), of "map strlcpy_msg (mq_msgs q)"] by simp
qed

theorem messages_arrive_in_order_witness:
  "[] @ channel_content (Some ''<suspend/>'') @ map strlcpy_msg [''<quit/>'']
     = map strlcpy_msg [''<suspend/>'', ''<quit/>'']"
proof -
  let ?q = "\<lparr>mq_msgs = [''<quit/>''], mq_last_block = 20\<rparr>"
  have "mq_reachable ([''<suspend/>''], [], \<lparr>mq_msgs = [], mq_last_block = 0\<rparr>, Some ''<suspend/>'')"
    using mq_reachable.send [OF mq_reachable.init, of "''<suspend/>''" 10]
    by (simp add: msg_queue_send_def send_msg_def strlcpy_msg_def)
  from mq_reachable.send [OF this, of "''<quit/>''" 20]
  have "mq_reachable ([''<suspend/>'', ''<quit/>''], [], ?q, Some ''<suspend/>'')"
    by (simp add: msg_queue_send_def send_msg_def)
  from messages_arrive_in_order [OF this] show ?thesis by simp
qed

text \<open>A request that was withdrawn still counts as blocked: when a suspended application is
  resumed before it has read the waiting \<open>suspend\<close> message, the queue is empty but its blocking
  time is kept, and 180 seconds later \<open>process_control_poll\<close> takes the application for hung.\<close>

theorem withdrawn_message_times_out:
  assumes "at_shm (task s a)" "mq_msgs (at_process_control_queue (task s a)) = [''<suspend/>'']"
    "mq_last_block (at_process_control_queue (task s a)) \<noteq> 0"
    "t > mq_last_block (at_process_control_queue (task s a)) + 180"
  shows "mq_msgs (at_process_control_queue (task (snd (unsuspend a s)) a)) = []
    \<and> msg_queue_timeout t 180 (at_process_control_queue (task (snd (unsuspend a s)) a))"
  using assms
  by (simp add: unsuspend_def control_or_withdraw_def msg_queue_purge_def set_task_state_def
      msg_queue_timeout_def upd_task_def)

theorem withdrawn_message_times_out_witness:
  "msg_queue_timeout 1000 180 (at_process_control_queue (task (snd (unsuspend 0
     (sample_state\<lparr>task := (\<lambda>_. sample_task\<lparr>at_shm := True,
        at_process_control_queue := \<lparr>mq_msgs = [''<suspend/>''], mq_last_block = 500\<rparr>\<rparr>)\<rparr>))) 0))"
  by (rule withdrawn_message_times_out [THEN conjunct2]) simp_all

section \<open>Every task has a slot of its own\<close>

lemma free_slot_loop_Some:
  assumes "free_slot_loop usable s j = Some k"
  shows "\<not> is_slot_in_use s k \<and> usable k"
proof (rule free_slot_loop.raw_induct [where P = "\<lambda>usable s j k. \<not> is_slot_in_use s k \<and> usable k",
      OF _ assms], goal_cases)
  case (1 loop usable s j k)
  then show ?case by (auto split: if_splits)
qed

lemma free_slot_loop_finds:
  assumes "j \<le> k" "\<not> is_slot_in_use s k" "usable k"
  shows "\<exists>i. free_slot_loop usable s j = Some i \<and> i \<le> k"
  using assms(1)
proof (induction "k - j" arbitrary: j)
  case 0
  then show ?case using assms by (subst free_slot_loop.simps) auto
next
  case (Suc d)
  from Suc.hyps(2) have "d = k - Suc j" "Suc j \<le> k" by simp_all
  then obtain i where "free_slot_loop usable s (Suc j) = Some i" "i \<le> k"
    using Suc.hyps(1) [of "Suc j"] by blast
  then show ?case using Suc by (subst free_slot_loop.simps) auto
qed

text \<open>Among one slot more than there are tasks, one is free.\<close>

lemma some_slot_free: "\<exists>k \<le> length (active_tasks s). \<not> is_slot_in_use s k"
proof (rule ccontr)
  assume "\<not> ?thesis"
  then have "{..length (active_tasks s)} \<subseteq> (\<lambda>a. at_slot (task s a)) ` set (active_tasks s)"
    by (auto simp: is_slot_in_use_def list_ex_iff)
  then have "card {..length (active_tasks s)} \<le> card ((\<lambda>a. at_slot (task s a)) ` set (active_tasks s))"
    by (intro card_mono) auto
  also have "\<dots> \<le> length (active_tasks s)"
    using card_image_le [OF finite_set] card_length by (rule order_trans)
  finally show False by simp
qed

lemma fold_max_ge: "m \<le> fold max xs (m :: nat)" "x \<in> set xs \<Longrightarrow> x \<le> fold max xs m"
proof (induction xs arbitrary: m)
  case (Cons y ys)
  case 1
  show ?case using Cons.IH(1) [of "max y m"] by simp
  case 2
  then show ?case using Cons.IH(1) [of "max y m"] Cons.IH(2) [of "max y m"] by auto
qed simp_all

lemma fresh_aid_new: "fresh_aid s \<notin> set (active_tasks s)"
proof
  assume "fresh_aid s \<in> set (active_tasks s)"
  then have "fresh_aid s \<le> fold max (active_tasks s) 0" by (rule fold_max_ge(2))
  then show False by (simp add: fresh_aid_def)
qed

definition tasks_wf :: "CLIENT_STATE \<Rightarrow> bool" where
  "tasks_wf s = (distinct (active_tasks s) \<and> distinct (map (\<lambda>a. at_slot (task s a)) (active_tasks s))
     \<and> distinct (map (\<lambda>a. at_result (task s a)) (active_tasks s)))"

lemma get_task_ok:
  assumes "tasks_wf s" "\<forall>j. usable j"
  shows "\<exists>a s'. get_task usable r s = Some (a, s') \<and> tasks_wf s' \<and> a \<in> set (active_tasks s')
    \<and> at_result (task s' a) = r
    \<and> (lookup_active_task_by_result s r = None \<longrightarrow> at_slot (task s' a) \<le> length (active_tasks s))"
proof (cases "lookup_active_task_by_result s r")
  case (Some a)
  then show ?thesis using assms(1) lookup_result [OF Some] by (simp add: get_task_def)
next
  case None
  obtain k where "k \<le> length (active_tasks s)" "\<not> is_slot_in_use s k"
    using some_slot_free by blast
  then obtain j where j: "get_free_slot usable s = Some j" "j \<le> length (active_tasks s)"
    using free_slot_loop_finds [of 0 k s usable] assms(2) unfolding get_free_slot_def by auto
  have free: "\<not> is_slot_in_use s j"
    using free_slot_loop_Some j(1) unfolding get_free_slot_def by blast
  define a where "a = fresh_aid s"
  define t where "t = ACTIVE_TASK_init s r ((ACTIVE_TASK_new (now s) (task s a))\<lparr>at_slot := j\<rparr>)"
  define s' where "s' = (upd_task a (\<lambda>_. t) s)\<lparr>active_tasks := active_tasks s @ [a]\<rparr>"
  have t: "at_slot t = j" "at_result t = r"
    by (simp_all add: t_def ACTIVE_TASK_init_def Let_def)
  have new: "a \<notin> set (active_tasks s)" unfolding a_def by (rule fresh_aid_new)
  then have old: "task s' b = task s b" if "b \<in> set (active_tasks s)" for b
    using that by (auto simp: s'_def upd_task_def)
  have "r \<notin> (\<lambda>a. at_result (task s a)) ` set (active_tasks s)"
    using None by (auto simp: lookup_active_task_by_result_def find_None_iff)
  moreover have m: "map (\<lambda>b. at_slot (task s' b)) (active_tasks s) = map (\<lambda>b. at_slot (task s b)) (active_tasks s)"
    "map (\<lambda>b. at_result (task s' b)) (active_tasks s) = map (\<lambda>b. at_result (task s b)) (active_tasks s)"
    using old by simp_all
  moreover have "active_tasks s' = active_tasks s @ [a]" "task s' a = t"
    by (simp_all add: s'_def upd_task_def)
  ultimately have "tasks_wf s'"
    using assms(1) new free t by (auto simp: tasks_wf_def is_slot_in_use_def list_ex_iff m old)
  moreover have "get_task usable r s = Some (a, s')"
    using None j(1) by (simp add: get_task_def a_def t_def s'_def Let_def)
  moreover have "task s' a = t" by (simp add: s'_def upd_task_def)
  ultimately show ?thesis using t j(2) by (auto simp: s'_def)
qed

text \<open>C12: When directories can be made, \<open>get_task\<close> gives every result a task: its own one, or
  a new one in a free slot with a number at most the number of tasks. No two tasks get the same
  slot or the same result.\<close>

theorem get_task_keeps_slots_apart:
  assumes "tasks_wf s" "\<forall>j. usable j"
  shows "\<exists>a s'. get_task usable r s = Some (a, s') \<and> tasks_wf s' \<and> a \<in> set (active_tasks s')
    \<and> at_result (task s' a) = r
    \<and> (lookup_active_task_by_result s r = None \<longrightarrow> at_slot (task s' a) \<le> length (active_tasks s))"
  using assms by (rule get_task_ok)

theorem get_task_keeps_slots_apart_witness:
  "\<exists>a s'. get_task (\<lambda>_. True) 0 sample_state = Some (a, s') \<and> tasks_wf s'"
  using get_task_keeps_slots_apart [of sample_state "\<lambda>_. True" 0]
  by (auto simp: tasks_wf_def sample_defs)

end
