(* ===== verification/Enforce_Schedule.thy ===== *)
theory Enforce_Schedule
  imports App_Task "HOL-Library.Multiset"
begin

text \<open>
  Enforcing the CPU schedule (\<open>client/cpu_sched.C\<close>): \<open>enforce_schedule\<close> decides for every active
  task whether it is to run, preempts those that are not and starts or resumes the others.
  Also here are \<open>no_work_for_a_cpu\<close>, \<open>set_ncpus\<close> and \<open>update_duration_correction_factor\<close>.
\<close>

definition more_preemptable :: "CLIENT_STATE \<Rightarrow> aid \<Rightarrow> aid \<Rightarrow> bool" where
  "more_preemptable s a0 a1 =
     (let t0 = task s a0; t1 = task s a1;
          r0 = res s (at_result t0); r1 = res s (at_result t1);
          m0 = p_deadlines_missed (proj s (r_project r0)); m1 = p_deadlines_missed (proj s (r_project r1))
      in if m0 \<noteq> 0 \<and> m1 = 0 then False
         else if m0 = 0 \<and> m1 \<noteq> 0 then True
         else if m0 \<noteq> 0 \<and> m1 \<noteq> 0 then r_report_deadline r0 > r_report_deadline r1
         else let e0 = now s - at_run_interval_start_wall_time t0;
                  e1 = now s - at_run_interval_start_wall_time t1
              in if e0 < e1 then False else if e0 > e1 then True
                 else r_report_deadline r0 > r_report_deadline r1)"

text \<open>
  What the code uses of the C++ heap algorithms: \<open>make_heap\<close> permutes a vector and puts a
  largest element first, \<open>pop_heap\<close> followed by \<open>pop_back\<close> removes the first element and
  permutes the others. The order they leave otherwise is not specified, so the two operations
  are parameters of the definitions below.
\<close>

locale std_heap =
  fixes make_heap :: "('a \<Rightarrow> 'a \<Rightarrow> bool) \<Rightarrow> 'a list \<Rightarrow> 'a list"
    and pop_heap :: "('a \<Rightarrow> 'a \<Rightarrow> bool) \<Rightarrow> 'a list \<Rightarrow> 'a list"
  assumes make_heap_mset: "mset (make_heap lt xs) = mset xs"
    and make_heap_first: "xs \<noteq> [] \<Longrightarrow> (\<And>x y. lt x y \<Longrightarrow> \<not> lt y x) \<Longrightarrow> (\<And>x y z. lt x z \<Longrightarrow> lt x y \<or> lt y z)
      \<Longrightarrow> y \<in> set xs \<Longrightarrow> \<not> lt (hd (make_heap lt xs)) y"
    and pop_heap_mset: "xs \<noteq> [] \<Longrightarrow> mset (pop_heap lt xs) = mset (tl xs)"
begin

lemma make_heap_set: "set (make_heap lt xs) = set xs" "distinct (make_heap lt xs) = distinct xs"
  using make_heap_mset [of lt xs] mset_eq_setD mset_eq_imp_distinct_iff by blast+

lemma make_heap_sum:
  fixes f :: "'a \<Rightarrow> real"
  shows "sum_list (map f (make_heap lt xs)) = sum_list (map f xs)"
  by (metis make_heap_mset mset_map sum_mset_sum_list)

lemma pop_heap_set:
  "xs \<noteq> [] \<Longrightarrow> set (pop_heap lt xs) = set (tl xs)"
  "xs \<noteq> [] \<Longrightarrow> distinct (pop_heap lt xs) = distinct (tl xs)"
  using pop_heap_mset [of xs lt] mset_eq_setD mset_eq_imp_distinct_iff by blast+

lemma pop_heap_sum:
  fixes f :: "'a \<Rightarrow> real"
  shows "xs \<noteq> [] \<Longrightarrow> sum_list (map f (pop_heap lt xs)) = sum_list (map f xs) - f (hd xs)"
proof -
  assume "xs \<noteq> []"
  then have "sum_list (map f (pop_heap lt xs)) = sum_list (map f (tl xs))"
    by (metis pop_heap_mset mset_map sum_mset_sum_list)
  then show ?thesis using \<open>xs \<noteq> []\<close> by (cases xs) auto
qed

end

text \<open>An executable instance: the first largest element is moved to the front.\<close>

fun move_largest :: "('a \<Rightarrow> 'a \<Rightarrow> bool) \<Rightarrow> 'a list \<Rightarrow> 'a list" where
  "move_largest lt [] = []"
| "move_largest lt [x] = [x]"
| "move_largest lt (x # xs) =
     (case move_largest lt xs of [] \<Rightarrow> [x]
      | m # ms \<Rightarrow> if lt x m then m # x # ms else x # m # ms)"

definition pop_first :: "('a \<Rightarrow> 'a \<Rightarrow> bool) \<Rightarrow> 'a list \<Rightarrow> 'a list" where
  "pop_first lt xs = move_largest lt (tl xs)"

lemma move_largest_mset: "mset (move_largest lt xs) = mset xs"
proof (induction lt xs rule: move_largest.induct)
  case (3 lt x y ys)
  obtain m ms where "move_largest lt (y # ys) = m # ms"
    using 3 by (metis list.exhaust mset_zero_iff list.distinct(1))
  then show ?case using 3 by auto
qed simp_all

lemma move_largest_first:
  assumes asym: "\<And>x y. lt x y \<Longrightarrow> \<not> lt y x" and weak: "\<And>x y z. lt x z \<Longrightarrow> lt x y \<or> lt y z"
  shows "xs \<noteq> [] \<Longrightarrow> y \<in> set xs \<Longrightarrow> \<not> lt (hd (move_largest lt xs)) y"
proof (induction xs arbitrary: y)
  case (Cons x xs)
  show ?case
  proof (cases xs)
    case Nil
    then show ?thesis using Cons.prems asym by auto
  next
    case (Cons z zs)
    obtain m ms where m: "move_largest lt xs = m # ms"
      using move_largest_mset [of lt xs] Cons by (metis list.exhaust mset_zero_iff list.distinct(1))
    have best: "\<not> lt m w" if "w \<in> set xs" for w
      using Cons.IH [OF _ that] Cons m by simp
    have hd: "hd (move_largest lt (x # xs)) = (if lt x m then m else x)" using m Cons by simp
    show ?thesis
    proof (cases "y = x")
      case True
      then show ?thesis using asym hd by auto
    next
      case False
      then have "\<not> lt m y" using best Cons.prems by simp
      then show ?thesis using weak [of x y m] hd by auto
    qed
  qed
qed simp

interpretation list_heap: std_heap move_largest pop_first
proof
  fix lt :: "'a \<Rightarrow> 'a \<Rightarrow> bool" and xs y
  show "mset (move_largest lt xs) = mset xs" by (rule move_largest_mset)
  show "xs \<noteq> [] \<Longrightarrow> mset (pop_first lt xs) = mset (tl xs)"
    by (simp add: pop_first_def move_largest_mset)
  show "\<not> lt (hd (move_largest lt xs)) y" if "xs \<noteq> []" "\<And>x y. lt x y \<Longrightarrow> \<not> lt y x"
      "\<And>x y z. lt x z \<Longrightarrow> lt x y \<or> lt y z" "y \<in> set xs"
    using that(2,3,1,4) by (rule move_largest_first)
qed

section \<open>Starting a task\<close>

text \<open>
  What starting an application depends on outside the client: which slots can be used, the
  verification of input files, how far \<open>ACTIVE_TASK::start\<close> gets, and the heap operations.
  \<open>Start_Error stage e msg\<close> is a jump to the label \<open>error\<close> with \<open>retval = e\<close>: at stage 0 before
  the times are reset, at stage 1 before and at stage 2 after the files are set up.
\<close>

datatype start_outcome =
    Missing_Files "fid list" | Start_Error nat int string | No_Shmem int | Started

record OS =
  os_usable_slot :: "nat \<Rightarrow> bool"
  os_verify_inputs :: "rid \<Rightarrow> CLIENT_STATE \<Rightarrow> CLIENT_STATE"
  os_start :: "aid \<Rightarrow> start_outcome"
  os_make_heap :: "(aid \<Rightarrow> aid \<Rightarrow> bool) \<Rightarrow> aid list \<Rightarrow> aid list"
  os_pop_heap :: "(aid \<Rightarrow> aid \<Rightarrow> bool) \<Rightarrow> aid list \<Rightarrow> aid list"

definition start_prepare :: "aid \<Rightarrow> CLIENT_STATE \<Rightarrow> CLIENT_STATE" where
  "start_prepare a s = upd_task a (\<lambda>t.
     let t1 = (if \<not> at_full_init_done t then t\<lparr>at_checkpoint_cpu_time := 0, at_checkpoint_wall_time := now s\<rparr> else t);
         c = at_checkpoint_cpu_time t1
     in t1\<lparr>at_current_cpu_time := c, at_episode_start_cpu_time := c, at_debt_interval_start_cpu_time := c,
           at_graphics_request_queue := \<lparr>mq_msgs = [], mq_last_block = 0\<rparr>,
           at_process_control_queue := \<lparr>mq_msgs = [], mq_last_block = 0\<rparr>\<rparr>) s"

definition start :: "OS \<Rightarrow> aid \<Rightarrow> CLIENT_STATE \<Rightarrow> int \<times> CLIENT_STATE" where
  "start os a s =
     (let r = at_result (task s a);
          init_done = upd_task a (\<lambda>t. t\<lparr>at_full_init_done := True\<rparr>)
      in case os_start os a of
        Missing_Files fs \<Rightarrow>
          (0, upd_task a (\<lambda>t. t\<lparr>at_task_state := PROCESS_UNINITIALIZED, at_next_scheduler_state := 0\<rparr>)
                (upd_res r (\<lambda>x. x\<lparr>r_state := RESULT_FILES_DOWNLOADING\<rparr>)
                  (fold (\<lambda>f. upd_finfo f (\<lambda>x. x\<lparr>fi_status := FILE_NOT_PRESENT\<rparr>)) fs s)))
      | Start_Error stage e msg \<Rightarrow>
          let s1 = (if stage = 0 then s else if stage = 1 then start_prepare a s
                    else init_done (start_prepare a s));
              s2 = report_result_error r msg (os_verify_inputs os r s1)
          in (e, set_task_state PROCESS_COULDNT_START a s2)
      | No_Shmem e \<Rightarrow> (e, upd_task a (\<lambda>t. t\<lparr>at_needs_shmem := True\<rparr>) (init_done (start_prepare a s)))
      | Started \<Rightarrow>
          let s1 = init_done (start_prepare a s);
              s2 = upd_task a (\<lambda>t. if \<not> at_shm t then t\<lparr>at_shm := True, at_needs_shmem := False\<rparr> else t) s1;
              s3 = upd_task a (\<lambda>t. t\<lparr>at_process_control_request := None, at_graphics_request := None, at_heartbeat := None,
                 at_trickle_down := None, at_app_status := None, at_trickle_up := None\<rparr>) s2
          in (0, set_task_state PROCESS_EXECUTING a s3))"

definition resume_or_start :: "OS \<Rightarrow> aid \<Rightarrow> CLIENT_STATE \<Rightarrow> int \<times> CLIENT_STATE" where
  "resume_or_start os a s =
     (case at_task_state (task s a) of
        PROCESS_UNINITIALIZED \<Rightarrow>
          (case start os a s of (retval, s1) \<Rightarrow>
             if at_task_state (task s1 a) = PROCESS_UNINITIALIZED then (0, s1)
             else if retval = ERR_SHMGET \<or> retval = ERR_SHMAT then (retval, s1)
             else if retval \<noteq> 0 then (retval, set_task_state PROCESS_COULDNT_START a s1)
             else (0, s1))
      | PROCESS_SUSPENDED \<Rightarrow>
          (case unsuspend a s of (retval, s1) \<Rightarrow>
             if retval \<noteq> 0 then (retval, set_task_state PROCESS_COULDNT_START a s1) else (0, s1))
      | _ \<Rightarrow> (0, s))"

text \<open>\<open>ACTIVE_TASK_SET::unsuspend_all\<close> (\<open>client/app_control.C\<close>).\<close>

definition unsuspend_all :: "OS \<Rightarrow> CLIENT_STATE \<Rightarrow> CLIENT_STATE" where
  "unsuspend_all os s = fold (\<lambda>a s.
     if at_scheduler_state (task s a) \<noteq> CPU_SCHED_SCHEDULED then s
     else if at_task_state (task s a) = PROCESS_UNINITIALIZED then snd (start os a s)
     else if at_task_state (task s a) = PROCESS_SUSPENDED then snd (unsuspend a s) else s) (active_tasks s) s"

section \<open>Deciding which tasks run\<close>

text \<open>The loop state: the client, the heap of running tasks, the CPUs used, the RAM left.\<close>

type_synonym enf_state = "CLIENT_STATE \<times> aid list \<times> real \<times> real"

abbreviation avg_ncpus_of :: "CLIENT_STATE \<Rightarrow> aid \<Rightarrow> real" where
  "avg_ncpus_of s a \<equiv> av_avg_ncpus (appver s (at_app_version (task s a)))"

definition set_next :: "int \<Rightarrow> aid \<Rightarrow> CLIENT_STATE \<Rightarrow> CLIENT_STATE" where
  "set_next v a s = upd_task a (\<lambda>t. t\<lparr>at_next_scheduler_state := v\<rparr>) s"

definition set_too_large :: "bool \<Rightarrow> aid \<Rightarrow> CLIENT_STATE \<Rightarrow> CLIENT_STATE" where
  "set_too_large v a s = upd_task a (\<lambda>t. t\<lparr>at_too_large := v\<rparr>) s"

definition enf_init :: "CLIENT_STATE \<Rightarrow> CLIENT_STATE" where
  "enf_init s =
     (let s1 = fold (\<lambda>p. upd_proj p (\<lambda>x. x\<lparr>p_deadlines_missed :=
                 rs_deadlines_missed (p_rr_sim_status x)\<rparr>)) (projects s) s
      in fold (\<lambda>a s. if result_runnable s (at_result (task s a))
                    then set_next (at_scheduler_state (task s a)) a s
                    else set_next CPU_SCHED_PREEMPTED a s) (active_tasks s1) s1)"

definition running_task :: "CLIENT_STATE \<Rightarrow> aid \<Rightarrow> bool" where
  "running_task s a =
     (let r = at_result (task s a) in
      \<not> p_non_cpu_intensive (proj s (r_project (res s r))) \<and> result_runnable s r
      \<and> at_scheduler_state (task s a) = CPU_SCHED_SCHEDULED)"

definition make_running_task_heap :: "OS \<Rightarrow> CLIENT_STATE \<Rightarrow> aid list \<times> real" where
  "make_running_task_heap os s =
     (let run = filter (running_task s) (active_tasks s);
          nu = fold (\<lambda>a n. n + avg_ncpus_of s a) run 0
      in (os_make_heap os (more_preemptable s) run, nu))"

text \<open>
  \<open>while (ncpus_used > ncpus)\<close>: preempt the first task of the heap. \<open>None\<close> is reading
  \<open>running_tasks[0]\<close> of an empty vector. The fuel is the length of the vector.
\<close>

fun drop_extra :: "OS \<Rightarrow> nat \<Rightarrow> CLIENT_STATE \<times> aid list \<times> real \<Rightarrow> (CLIENT_STATE \<times> aid list \<times> real) option" where
  "drop_extra os fuel (s, run, nu) =
     (if nu > real_of_int (ncpus s)
      then case run of [] \<Rightarrow> None
        | a # _ \<Rightarrow>
            (case fuel of 0 \<Rightarrow> None
             | Suc n \<Rightarrow> let s1 = set_next CPU_SCHED_PREEMPTED a s
                       in drop_extra os n (s1, os_pop_heap os (more_preemptable s1) run, nu - avg_ncpus_of s a))
      else Some (s, run, nu))"

declare drop_extra.simps [simp del]

text \<open>The loop over the scheduled results. \<open>None\<close>: no slot could be found for a new task.\<close>

definition enf_run :: "OS \<Rightarrow> rid \<Rightarrow> enf_state \<Rightarrow> enf_state option" where
  "enf_run os r st =
     (case st of (s, run, nu, ram) \<Rightarrow>
      (case get_task (os_usable_slot os) r s of
         None \<Rightarrow> None
       | Some (a, s1) \<Rightarrow> Some (set_next CPU_SCHED_SCHEDULED a s1, run, nu + avg_ncpus_of s1 a,
                              ram - at_working_set_size_smoothed (task s1 a))))"

definition enf_running :: "OS \<Rightarrow> aid \<Rightarrow> enf_state \<Rightarrow> enf_state" where
  "enf_running os a st =
     (case st of (s, run, nu, ram) \<Rightarrow>
      let run' = os_make_heap os (more_preemptable s) (remove1 a run);
          wss = at_working_set_size_smoothed (task s a)
      in if wss > ram
         then (set_too_large True a (set_next CPU_SCHED_PREEMPTED a s), run', nu - avg_ncpus_of s a, ram)
         else (set_too_large False a s, run', nu, ram - wss))"

definition preempt_ok :: "CLIENT_STATE \<Rightarrow> rid \<Rightarrow> aid \<Rightarrow> bool" where
  "preempt_ok s r a =
     (let running_beyond_sched_period =
            now s - at_run_interval_start_wall_time (task s a) \<ge> cpu_scheduling_period s;
          checkpointed_recently = now s - at_checkpoint_wall_time (task s a) < 10
      in p_deadlines_missed (proj s (r_project (res s r))) \<noteq> 0
         \<or> (running_beyond_sched_period \<and> checkpointed_recently))"

definition enf_result :: "OS \<Rightarrow> rid \<Rightarrow> enf_state \<Rightarrow> enf_state option" where
  "enf_result os r st =
     (case st of (s, run, nu, ram) \<Rightarrow>
      (case find (\<lambda>a. at_result (task s a) = r) run of
         Some a \<Rightarrow> Some (enf_running os a st)
       | None \<Rightarrow>
         (let look = lookup_active_task_by_result s r;
              too_big = (case look of None \<Rightarrow> False | Some a \<Rightarrow> at_working_set_size_smoothed (task s a) > ram);
              s1 = (case look of None \<Rightarrow> s | Some a \<Rightarrow> set_too_large too_big a s)
          in if too_big then Some (s1, run, nu, ram)
             else if nu \<ge> real_of_int (ncpus s1) \<and> run \<noteq> []
             then let a = hd run; p = r_project (res s1 r) in
               if preempt_ok s1 r a
               then let
                 s2 = (if p_deadlines_missed (proj s1 p) \<noteq> 0
                       then upd_proj p (\<lambda>x. x\<lparr>p_deadlines_missed := p_deadlines_missed x - 1\<rparr>) s1 else s1);
                 s3 = set_next CPU_SCHED_PREEMPTED a s2
               in enf_run os r (s3, os_pop_heap os (more_preemptable s3) run, nu - avg_ncpus_of s3 a, ram)
               else Some (s1, run, nu, ram)
             else enf_run os r (s1, run, nu, ram))))"

fun enf_results :: "OS \<Rightarrow> rid list \<Rightarrow> enf_state \<Rightarrow> enf_state option" where
  "enf_results os [] st = Some st"
| "enf_results os (r # rs) st = (case enf_result os r st of None \<Rightarrow> None | Some st' \<Rightarrow> enf_results os rs st')"

text \<open>The tasks that stay in the heap keep running as long as the RAM lasts.\<close>

definition enf_ram :: "aid \<Rightarrow> CLIENT_STATE \<times> real \<Rightarrow> CLIENT_STATE \<times> real" where
  "enf_ram a st =
     (case st of (s, ram) \<Rightarrow>
      let wss = at_working_set_size_smoothed (task s a) in
      if wss > ram then (set_too_large True a (set_next CPU_SCHED_PREEMPTED a s), ram)
      else (set_too_large False a s, ram - wss))"

text \<open>Non-CPU-intensive tasks always run.\<close>

fun enf_nci :: "OS \<Rightarrow> rid list \<Rightarrow> CLIENT_STATE \<Rightarrow> CLIENT_STATE option" where
  "enf_nci os [] s = Some s"
| "enf_nci os (r # rs) s =
     (if p_non_cpu_intensive (proj s (r_project (res s r))) \<and> result_runnable s r
      then case get_task (os_usable_slot os) r s of
             None \<Rightarrow> None
           | Some (a, s1) \<Rightarrow> enf_nci os rs (set_next CPU_SCHED_SCHEDULED a s1)
      else enf_nci os rs s)"

definition enforce_decide :: "OS \<Rightarrow> CLIENT_STATE \<Rightarrow> CLIENT_STATE option" where
  "enforce_decide os s0 =
     (let s = enf_init s0; (run, nu) = make_running_task_heap os s
      in case drop_extra os (length run) (s, run, nu) of
           None \<Rightarrow> None
         | Some (s1, run1, nu1) \<Rightarrow>
             (case enf_results os (ordered_scheduled_results s1) (s1, run1, nu1, available_ram s1) of
                None \<Rightarrow> None
              | Some (s2, run2, nu2, ram2) \<Rightarrow>
                  let s3 = fst (fold enf_ram run2 (s2, ram2));
                      s4 = (if log_cpu_sched_debug s3 \<and> nu2 < real_of_int (ncpus s3)
                            then request_work_fetch s3 else s3)
                  in enf_nci os (results s4) s4))"

section \<open>Preempting and starting\<close>

definition enf_preempt :: "real \<Rightarrow> aid \<Rightarrow> CLIENT_STATE \<Rightarrow> bool \<times> CLIENT_STATE" where
  "enf_preempt swap_left a s =
     (let t = task s a; leave = gp_leave_apps_in_memory (global_prefs s);
          check_swap = (hi_m_swap (host_info s) \<noteq> 0)
      in case at_task_state t of
           PROCESS_EXECUTING \<Rightarrow>
             (True, preempt (\<not> leave \<or> (check_swap \<and> swap_left < 0) \<or> at_too_large t) a s)
         | PROCESS_SUSPENDED \<Rightarrow>
             (False, if at_checkpoint_cpu_time t \<noteq> 0 \<and> \<not> leave then preempt True a s else s)
         | _ \<Rightarrow> (False, s))"

definition enf_apply :: "OS \<Rightarrow> aid \<Rightarrow> CLIENT_STATE \<times> real \<times> bool \<Rightarrow> CLIENT_STATE \<times> real \<times> bool" where
  "enf_apply os a st =
     (case st of (s, swap_left, action) \<Rightarrow>
      let next = at_next_scheduler_state (task s a); ts = at_task_state (task s a);
          scheduled = (\<lambda>s. upd_task a (\<lambda>t. t\<lparr>at_scheduler_state := CPU_SCHED_SCHEDULED\<rparr>) s)
      in if next = CPU_SCHED_PREEMPTED
         then case enf_preempt swap_left a s of (acted, s1) \<Rightarrow>
           (upd_task a (\<lambda>t. t\<lparr>at_scheduler_state := CPU_SCHED_PREEMPTED\<rparr>) s1, swap_left, action \<or> acted)
         else if next = CPU_SCHED_SCHEDULED
         then if ts = PROCESS_UNINITIALIZED \<or> ts = PROCESS_SUSPENDED
           then case resume_or_start os a s of (retval, s1) \<Rightarrow>
             if retval = 0 \<and> at_task_state (task s1 a) = PROCESS_UNINITIALIZED
             then (request_schedule_cpus s1, swap_left, True)
             else if retval = ERR_SHMGET \<or> retval = ERR_SHMAT
             then let s2 = (if retry_shmem_time s1 < now s1 then request_schedule_cpus s1 else s1)
                  in (s2\<lparr>retry_shmem_time := now s2 + 10\<rparr>, swap_left, True)
             else if retval \<noteq> 0
             then (request_schedule_cpus (report_result_error (at_result (task s1 a))
                     (''Couldn'' @ [char_of (39 :: nat)] @ ''t start or resume: '' @ string_of_int retval) s1),
                   swap_left, True)
             else let s2 = (upd_task a (\<lambda>t. t\<lparr>at_run_interval_start_wall_time := now s1\<rparr>) s1)\<lparr>app_started := now s1\<rparr>
                  in (scheduled s2, swap_left - at_swap_size (task s2 a), True)
           else (scheduled s, swap_left - at_swap_size (task s a), action)
         else (s, swap_left, action))"

definition enforce_schedule :: "OS \<Rightarrow> CLIENT_STATE \<Rightarrow> (bool \<times> CLIENT_STATE) option" where
  "enforce_schedule os s =
     (let s1 = (if now s - enforce_last_time s > 60 then s\<lparr>must_enforce_cpu_schedule := True\<rparr> else s) in
      if \<not> must_enforce_cpu_schedule s1 then Some (False, s1)
      else case enforce_decide os (s1\<lparr>must_enforce_cpu_schedule := False, enforce_last_time := now s1\<rparr>) of
        None \<Rightarrow> None
      | Some s2 \<Rightarrow>
          let (s3, _, action) = fold (enf_apply os) (active_tasks s2)
                (s2, gp_vm_max_used_frac (global_prefs s2) * hi_m_swap (host_info s2), False)
          in Some (action, if action then set_client_state_dirty s3 else s3))"

section \<open>Small operations\<close>

definition no_work_for_a_cpu :: "CLIENT_STATE \<Rightarrow> bool" where
  "no_work_for_a_cpu s =
     (ncpus s > fold (\<lambda>r count. if \<not> result_nearly_runnable s r then count
        else if p_non_cpu_intensive (proj s (r_project (res s r))) then count else count + 1) (results s) 0)"

definition set_state :: "int \<Rightarrow> rid \<Rightarrow> CLIENT_STATE \<Rightarrow> CLIENT_STATE" where
  "set_state v r s = upd_res r (\<lambda>x. x\<lparr>r_state := v\<rparr>) s"

definition set_ncpus :: "CLIENT_STATE \<Rightarrow> CLIENT_STATE" where
  "set_ncpus s =
     (let availableCPUs = (if cf_ncpus (config s) > 0 then cf_ncpus (config s)
                           else if hi_p_ncpus (host_info s) > 0 then hi_p_ncpus (host_info s) else 1);
          s1 = s\<lparr>ncpus := GetMaxCPUs (global_prefs s) availableCPUs\<rparr>
      in if initialized s1 \<and> ncpus s1 \<noteq> ncpus s
         then request_work_fetch (request_schedule_cpus (s1\<lparr>run_cpu_benchmarks := True\<rparr>)) else s1)"

definition update_duration_correction_factor :: "rid \<Rightarrow> avid \<Rightarrow> CLIENT_STATE \<Rightarrow> CLIENT_STATE" where
  "update_duration_correction_factor r v s =
     (let raw_ratio = r_final_cpu_time (res s r) / estimated_cpu_time_uncorrected s r;
          adj_ratio = r_final_cpu_time (res s r) / estimated_cpu_time s r;
          dcf = av_duration_correction_factor (appver s v);
          d1 = (if adj_ratio > 11/10 then raw_ratio
                else if adj_ratio < 1/10 then dcf * (99/100) + (1/100) * raw_ratio
                else dcf * (9/10) + (1/10) * raw_ratio);
          d2 = (if d1 > 100 then 100 else d1);
          d3 = (if d2 < 1/100 then 1/100 else d2)
      in upd_appver v (\<lambda>x. x\<lparr>av_duration_correction_factor := d3\<rparr>) s)"

section \<open>The tasks that are to run fit the RAM\<close>

definition cpu_task :: "CLIENT_STATE \<Rightarrow> aid \<Rightarrow> bool" where
  "cpu_task s a = (\<not> p_non_cpu_intensive (proj s (r_project (res s (at_result (task s a))))))"

text \<open>The CPU-intensive tasks that are to run, apart from those in the vector \<open>run\<close>, and their RAM.\<close>

definition committed :: "CLIENT_STATE \<Rightarrow> aid list \<Rightarrow> aid set" where
  "committed s run = {a \<in> set (active_tasks s). cpu_task s a
     \<and> at_next_scheduler_state (task s a) = CPU_SCHED_SCHEDULED \<and> a \<notin> set run}"

definition ram_of :: "CLIENT_STATE \<Rightarrow> aid set \<Rightarrow> real" where
  "ram_of s A = (\<Sum>a \<in> A. at_working_set_size_smoothed (task s a))"

definition enf_ok :: "real \<Rightarrow> rid list \<Rightarrow> CLIENT_STATE \<Rightarrow> aid list \<Rightarrow> real \<Rightarrow> bool" where
  "enf_ok ram0 rs s run ram =
     (tasks_wf s \<and> distinct run \<and> set run \<subseteq> set (active_tasks s)
      \<and> (\<forall>a \<in> set (active_tasks s). 0 \<le> at_working_set_size_smoothed (task s a))
      \<and> (\<forall>a \<in> committed s run. at_result (task s a) \<notin> set rs)
      \<and> ram_of s (committed s run) \<le> ram0 - ram \<and> 0 \<le> ram)"

definition enf_view where
  "enf_view s = (active_tasks s, res s, (\<lambda>p. p_non_cpu_intensive (proj s p)),
     (\<lambda>a. (at_result (task s a), at_working_set_size_smoothed (task s a),
           at_next_scheduler_state (task s a), at_slot (task s a))))"

lemma enf_viewD:
  assumes "enf_view s = enf_view s'"
  shows "active_tasks s = active_tasks s'" "res s = res s'"
    "p_non_cpu_intensive (proj s p) = p_non_cpu_intensive (proj s' p)"
    "at_result (task s a) = at_result (task s' a)"
    "at_working_set_size_smoothed (task s a) = at_working_set_size_smoothed (task s' a)"
    "at_next_scheduler_state (task s a) = at_next_scheduler_state (task s' a)"
    "at_slot (task s a) = at_slot (task s' a)"
  using assms by (auto simp: enf_view_def fun_eq_iff)

lemma enf_ok_view:
  assumes "enf_view s = enf_view s'"
  shows "enf_ok ram0 rs s run ram = enf_ok ram0 rs s' run ram"
  by (simp add: enf_ok_def committed_def ram_of_def cpu_task_def tasks_wf_def enf_viewD [OF assms])

lemma enf_view_too_large [frame_simps]: "enf_view (set_too_large v a s) = enf_view s"
  by (auto simp: enf_view_def set_too_large_def upd_task_def)

lemma enf_view_missed [frame_simps]:
  "enf_view (upd_proj p (\<lambda>x. x\<lparr>p_deadlines_missed := n x\<rparr>) s) = enf_view s"
  by (auto simp: enf_view_def upd_proj_def)

lemma set_next_simps [simp]:
  "active_tasks (set_next v a s) = active_tasks s" "res (set_next v a s) = res s"
  "proj (set_next v a s) = proj s" "appver (set_next v a s) = appver s" "ncpus (set_next v a s) = ncpus s"
  "at_result (task (set_next v a s) b) = at_result (task s b)"
  "at_working_set_size_smoothed (task (set_next v a s) b) = at_working_set_size_smoothed (task s b)"
  "at_slot (task (set_next v a s) b) = at_slot (task s b)"
  "at_app_version (task (set_next v a s) b) = at_app_version (task s b)"
  "at_next_scheduler_state (task (set_next v a s) b) = (if b = a then v else at_next_scheduler_state (task s b))"
  by (simp_all add: set_next_def upd_task_def)

lemma set_next_derived [simp]:
  "cpu_task (set_next v a s) b = cpu_task s b" "tasks_wf (set_next v a s) = tasks_wf s"
  "ram_of (set_next v a s) A = ram_of s A"
  by (simp_all add: cpu_task_def tasks_wf_def ram_of_def)

text \<open>Preempting a task of the vector, keeping one, and adding a task from outside.\<close>

lemma enf_ok_preempt:
  assumes "enf_ok ram0 rs s run ram" "a \<in> set run" "set run' = set run - {a}" "distinct run'"
  shows "enf_ok ram0 rs (set_next CPU_SCHED_PREEMPTED a s) run' ram"
proof -
  have "committed (set_next CPU_SCHED_PREEMPTED a s) run' = committed s run"
    using assms(2,3) by (auto simp: committed_def)
  then show ?thesis using assms by (auto simp: enf_ok_def)
qed

lemma ram_of_insert:
  assumes "finite A" "a \<notin> A"
  shows "ram_of s (insert a A) = at_working_set_size_smoothed (task s a) + ram_of s A"
  using assms by (simp add: ram_of_def)

lemma finite_committed [simp]: "finite (committed s run)"
  by (simp add: committed_def)

lemma enf_ok_keep:
  assumes ok: "enf_ok ram0 rs s run ram" and a: "a \<in> set run" "set run' = set run - {a}" "distinct run'"
    and rs': "at_result (task s a) \<notin> set rs'" "set rs' \<subseteq> set rs"
    and fits: "at_working_set_size_smoothed (task s a) \<le> ram"
  shows "enf_ok ram0 rs' s run' (ram - at_working_set_size_smoothed (task s a))"
proof -
  have "committed s run' \<subseteq> insert a (committed s run)" "committed s run \<subseteq> committed s run'"
    using a(1,2) by (auto simp: committed_def)
  then have "committed s run' = insert a (committed s run) \<or> committed s run' = committed s run" by blast
  moreover have "a \<notin> committed s run" using a(1) by (simp add: committed_def)
  moreover have "0 \<le> at_working_set_size_smoothed (task s a)" using ok a(1) by (auto simp: enf_ok_def)
  ultimately show ?thesis
    using ok a rs' fits by (auto simp: enf_ok_def ram_of_insert)
qed

lemma enf_ok_schedule:
  assumes ok: "enf_ok ram0 rs s run ram" and a: "a \<in> set (active_tasks s)" "a \<notin> set run"
    and r: "at_result (task s a) \<in> set rs" "at_result (task s a) \<notin> set rs'" "set rs' \<subseteq> set rs"
    and fits: "at_working_set_size_smoothed (task s a) \<le> ram"
  shows "enf_ok ram0 rs' (set_next CPU_SCHED_SCHEDULED a s) run (ram - at_working_set_size_smoothed (task s a))"
proof -
  let ?s = "set_next CPU_SCHED_SCHEDULED a s"
  have new: "a \<notin> committed s run" using ok r(1) by (auto simp: enf_ok_def)
  have "committed ?s run \<subseteq> insert a (committed s run)" "committed s run \<subseteq> committed ?s run"
    by (auto simp: committed_def)
  then have "committed ?s run = insert a (committed s run) \<or> committed ?s run = committed s run" by blast
  moreover have "0 \<le> at_working_set_size_smoothed (task s a)" using ok a(1) by (auto simp: enf_ok_def)
  ultimately show ?thesis
    using ok r fits new by (auto simp: enf_ok_def ram_of_insert)
qed

text \<open>A task that \<open>get_task\<close> makes is new, holds no RAM and works on the result asked for.\<close>

lemma get_task_new:
  assumes "get_task usable r s = Some (a, s')" "lookup_active_task_by_result s r = None"
  shows "a \<notin> set (active_tasks s)" "active_tasks s' = active_tasks s @ [a]" "res s' = res s" "proj s' = proj s"
    "\<And>b. b \<noteq> a \<Longrightarrow> task s' b = task s b" "at_result (task s' a) = r"
    "at_working_set_size_smoothed (task s' a) = 0"
  using assms fresh_aid_new [of s]
  by (auto simp: get_task_def Let_def ACTIVE_TASK_init_def ACTIVE_TASK_new_def upd_task_def
      split: option.splits)

lemma enf_ok_new:
  assumes ok: "enf_ok ram0 rs s run ram" and wf: "tasks_wf s'"
    and g: "get_task usable r s = Some (a, s')" "lookup_active_task_by_result s r = None"
    and r: "r \<notin> set rs'" "set rs' \<subseteq> set rs"
  shows "enf_ok ram0 rs' (set_next CPU_SCHED_SCHEDULED a s') run ram"
proof -
  note n = get_task_new [OF g]
  let ?s = "set_next CPU_SCHED_SCHEDULED a s'"
  have run: "a \<notin> set run" using ok n(1) by (auto simp: enf_ok_def)
  have same: "task s' b = task s b" if "b \<in> set (active_tasks s)" for b
    using n(1,5) that by metis
  have c: "committed ?s run \<subseteq> insert a (committed s run)" "committed s run \<subseteq> committed ?s run"
    using same n(1,2) by (auto simp: committed_def cpu_task_def n(3,4))
  have new: "a \<notin> committed s run" using n(1) by (simp add: committed_def)
  have "ram_of s' (committed s run) = ram_of s (committed s run)"
    unfolding ram_of_def by (rule sum.cong) (auto simp: committed_def same)
  moreover have "committed ?s run = insert a (committed s run) \<or> committed ?s run = committed s run"
    using c by blast
  ultimately have sum: "ram_of s' (committed ?s run) = ram_of s (committed s run)"
    using n(7) ram_of_insert [OF finite_committed new, of s'] by auto
  have "at_result (task s' b) \<notin> set rs'" if b: "b \<in> committed ?s run" for b
  proof (cases "b = a")
    case False
    then have "b \<in> committed s run" using b c(1) by blast
    then have "at_result (task s b) \<notin> set rs" "task s' b = task s b"
      using ok same by (auto simp: enf_ok_def committed_def)
    then show ?thesis using r(2) by auto
  qed (use n(6) r(1) in simp)
  then show ?thesis
    using ok wf sum n(2,7) same run by (auto simp: enf_ok_def)
qed

lemma enf_ok_mono: "enf_ok ram0 rs s run ram \<Longrightarrow> set rs' \<subseteq> set rs \<Longrightarrow> enf_ok ram0 rs' s run ram"
  by (auto simp: enf_ok_def)

lemma get_task_total:
  assumes "tasks_wf s" "\<forall>j. usable j"
  obtains a s' where "get_task usable r s = Some (a, s')" "tasks_wf s'" "a \<in> set (active_tasks s')"
    "at_result (task s' a) = r"
  using get_task_ok [OF assms, of r] by blast

lemma enf_run_ok:
  assumes ok: "enf_ok ram0 (r # rs) s run ram" and r: "r \<notin> set rs" and u: "\<forall>j. os_usable_slot os j"
    and notrun: "\<forall>a \<in> set run. at_result (task s a) \<noteq> r"
    and fits: "\<And>a. lookup_active_task_by_result s r = Some a \<Longrightarrow> at_working_set_size_smoothed (task s a) \<le> ram"
  shows "\<exists>s' nu' ram'. enf_run os r (s, run, nu, ram) = Some (s', run, nu', ram') \<and> enf_ok ram0 rs s' run ram'"
proof -
  have wf: "tasks_wf s" using ok by (simp add: enf_ok_def)
  obtain a s' where g: "get_task (os_usable_slot os) r s = Some (a, s')" "tasks_wf s'"
    "a \<in> set (active_tasks s')" "at_result (task s' a) = r"
    using get_task_total [OF wf u] by metis
  show ?thesis
  proof (cases "lookup_active_task_by_result s r")
    case None
    have "enf_ok ram0 rs (set_next CPU_SCHED_SCHEDULED a s') run ram"
      using enf_ok_new [OF ok g(2,1) None, of rs] r by auto
    then show ?thesis using g(1) get_task_new(7) [OF g(1) None] by (simp add: enf_run_def)
  next
    case (Some b)
    then have b: "a = b" "s' = s" using g(1) by (simp_all add: get_task_def)
    have "a \<notin> set run" using notrun g(4) b by auto
    then have "enf_ok ram0 rs (set_next CPU_SCHED_SCHEDULED a s) run (ram - at_working_set_size_smoothed (task s a))"
      using enf_ok_schedule [OF ok, of a rs] g(3,4) b r fits [OF Some] by auto
    then show ?thesis using g(1) b by (simp add: enf_run_def)
  qed
qed

context std_heap
begin

lemma pop_heap_distinct:
  assumes "distinct run" "run \<noteq> []"
  shows "set (pop_heap lt run) = set run - {hd run}" "distinct (pop_heap lt run)"
  using assms pop_heap_set [of run lt] by (cases run; auto)+

lemma make_heap_remove1:
  assumes "distinct run"
  shows "set (make_heap lt (remove1 a run)) = set run - {a}" "distinct (make_heap lt (remove1 a run))"
  using assms by (simp_all add: make_heap_set)

end

lemma enf_result_ok:
  assumes h: "std_heap (os_make_heap os) (os_pop_heap os)"
    and ok: "enf_ok ram0 (r # rs) s run ram" and r: "r \<notin> set rs" and u: "\<forall>j. os_usable_slot os j"
  shows "\<exists>s' run' nu' ram'. enf_result os r (s, run, nu, ram) = Some (s', run', nu', ram')
    \<and> enf_ok ram0 rs s' run' ram'"
proof -
  have d: "distinct run" using ok by (simp add: enf_ok_def)
  note mk = std_heap.make_heap_remove1 [OF h d] and pop = std_heap.pop_heap_distinct [OF h d]
  note v = enf_ok_view [OF enf_view_too_large] enf_ok_view [OF enf_view_missed]
  have okrs: "enf_ok ram0 rs s run ram" using ok by (rule enf_ok_mono) auto
  show ?thesis
  proof (cases "find (\<lambda>a. at_result (task s a) = r) run")
    case (Some a)
    then have a: "a \<in> set run" "at_result (task s a) = r"
      by (auto simp: find_Some_iff in_set_conv_nth)
    show ?thesis
      using Some enf_ok_preempt [OF okrs a(1) mk] enf_ok_keep [OF ok a(1) mk, of rs] a(2) r
      by (auto simp: enf_result_def enf_running_def Let_def v subset_insertI)
  next
    case None
    then have notrun: "\<forall>a \<in> set run. at_result (task s a) \<noteq> r" by (simp add: find_None_iff)
    define look where "look = lookup_active_task_by_result s r"
    define too_big where "too_big = (case look of None \<Rightarrow> False
      | Some a \<Rightarrow> at_working_set_size_smoothed (task s a) > ram)"
    define s1 where "s1 = (case look of None \<Rightarrow> s | Some a \<Rightarrow> set_too_large too_big a s)"
    have v1: "enf_view s1 = enf_view s" by (simp add: s1_def enf_view_too_large split: option.split)
    note d1 = enf_viewD [OF v1]
    have ok1: "enf_ok ram0 (r # rs) s1 run ram" "enf_ok ram0 rs s1 run ram"
      using ok okrs by (simp_all add: enf_ok_view [OF v1])
    have res: "enf_result os r (s, run, nu, ram) =
      (if too_big then Some (s1, run, nu, ram)
       else if nu \<ge> real_of_int (ncpus s1) \<and> run \<noteq> []
       then let a = hd run; p = r_project (res s1 r) in
         if preempt_ok s1 r a
         then let
           s2 = (if p_deadlines_missed (proj s1 p) \<noteq> 0
                 then upd_proj p (\<lambda>x. x\<lparr>p_deadlines_missed := p_deadlines_missed x - 1\<rparr>) s1 else s1);
           s3 = set_next CPU_SCHED_PREEMPTED a s2
         in enf_run os r (s3, os_pop_heap os (more_preemptable s3) run, nu - avg_ncpus_of s3 a, ram)
         else Some (s1, run, nu, ram)
       else enf_run os r (s1, run, nu, ram))"
      using None by (simp add: enf_result_def look_def too_big_def s1_def Let_def cong: option.case_cong)
    have fits: "at_working_set_size_smoothed (task t a) \<le> ram"
      if "\<not> too_big" "lookup_active_task_by_result t r = Some a" "active_tasks t = active_tasks s"
        "\<And>b. at_result (task t b) = at_result (task s b)"
        "\<And>b. at_working_set_size_smoothed (task t b) = at_working_set_size_smoothed (task s b)" for t a
      using that by (simp add: too_big_def look_def lookup_active_task_by_result_def)
    have plain: ?thesis if "enf_result os r (s, run, nu, ram) = enf_run os r (s1, run, nu, ram)" "\<not> too_big"
      using enf_run_ok [OF ok1(1) r u, of nu] fits [OF that(2)] d1 notrun that(1) by simp blast
    have pre: ?thesis if "enf_result os r (s, run, nu, ram) = enf_run os r
        (set_next CPU_SCHED_PREEMPTED (hd run) s2, os_pop_heap os lt run, x, ram)" "\<not> too_big" "run \<noteq> []"
        "enf_view s2 = enf_view s" for s2 x lt
    proof -
      note d2 = enf_viewD [OF that(4)]
      have "enf_ok ram0 (r # rs) s2 run ram" using ok by (simp add: enf_ok_view [OF that(4)])
      then have "enf_ok ram0 (r # rs) (set_next CPU_SCHED_PREEMPTED (hd run) s2) (os_pop_heap os lt run) ram"
        using pop [OF that(3)] that(3) by (intro enf_ok_preempt) auto
      from enf_run_ok [OF this r u, of x] fits [OF that(2)] d2 notrun pop(1) [OF that(3)]
      show ?thesis using that(1) by auto
    qed
    show ?thesis
    proof (cases "too_big \<or> (nu \<ge> real_of_int (ncpus s1) \<and> run \<noteq> [] \<and> \<not> preempt_ok s1 r (hd run))")
      case True
      then show ?thesis using ok1(2) res by auto
    next
      case False
      then show ?thesis
      proof (cases "nu \<ge> real_of_int (ncpus s1) \<and> run \<noteq> []")
        case True
        define p where "p = r_project (res s1 r)"
        define s2 where "s2 = (if p_deadlines_missed (proj s1 p) \<noteq> 0
          then upd_proj p (\<lambda>x. x\<lparr>p_deadlines_missed := p_deadlines_missed x - 1\<rparr>) s1 else s1)"
        have "enf_view s2 = enf_view s" by (simp add: s2_def v1 enf_view_missed)
        moreover have "\<not> too_big" "preempt_ok s1 r (hd run)" using False True by auto
        ultimately show ?thesis
          using True res unfolding Let_def p_def [symmetric] s2_def [symmetric]
          by (intro pre [of s2]) auto
      next
        case no: False
        then show ?thesis using False res by (intro plain) auto
      qed
    qed
  qed
qed

lemma enf_results_ok:
  assumes "std_heap (os_make_heap os) (os_pop_heap os)" "\<forall>j. os_usable_slot os j"
    "enf_ok ram0 rs s run ram" "distinct rs"
  shows "\<exists>s' run' nu' ram'. enf_results os rs (s, run, nu, ram) = Some (s', run', nu', ram')
    \<and> enf_ok ram0 [] s' run' ram'"
  using assms(3,4)
proof (induction rs arbitrary: s run nu ram)
  case (Cons r rs)
  then obtain s' run' nu' ram' where "enf_result os r (s, run, nu, ram) = Some (s', run', nu', ram')"
    "enf_ok ram0 rs s' run' ram'"
    using enf_result_ok [OF assms(1) Cons.prems(1) _ assms(2), of nu] by auto
  then show ?case using Cons.IH [of s' run' ram' nu'] Cons.prems(2) by simp
qed simp

text \<open>The loop that drops tasks while too many run.\<close>

lemma drop_extra_ok:
  assumes h: "std_heap (os_make_heap os) (os_pop_heap os)"
    and "enf_ok ram0 rs s run ram" "nu = sum_list (map (avg_ncpus_of s) run)" "0 \<le> ncpus s"
    "length run \<le> fuel"
  shows "\<exists>s' run' nu'. drop_extra os fuel (s, run, nu) = Some (s', run', nu')
    \<and> enf_ok ram0 rs s' run' ram \<and> nu' \<le> real_of_int (ncpus s)
    \<and> ordered_scheduled_results s' = ordered_scheduled_results s \<and> available_ram s' = available_ram s"
  using assms(2-5)
proof (induction fuel arbitrary: s run nu)
  case 0
  then show ?case by (simp add: drop_extra.simps)
next
  case (Suc fuel)
  show ?case
  proof (cases "nu > real_of_int (ncpus s)")
    case True
    then obtain a run1 where run: "run = a # run1" using Suc.prems(2,3) by (cases run) auto
    let ?s = "set_next CPU_SCHED_PREEMPTED a s"
    let ?run = "os_pop_heap os (more_preemptable ?s) run"
    have d: "distinct run" using Suc.prems(1) by (simp add: enf_ok_def)
    note pop = std_heap.pop_heap_distinct [OF h d, of "more_preemptable ?s"]
    have ok: "enf_ok ram0 rs ?s ?run ram"
      using pop run by (intro enf_ok_preempt [OF Suc.prems(1)]) auto
    have "mset ?run = mset run1" using std_heap.pop_heap_mset [OF h] run by (metis list.distinct(1) list.sel(3))
    then have len: "length ?run = length run1" by (rule mset_eq_length)
    have sum: "nu - avg_ncpus_of s a = sum_list (map (avg_ncpus_of ?s) ?run)"
      using std_heap.pop_heap_sum [OF h, of run "avg_ncpus_of s" "more_preemptable ?s"] run Suc.prems(2)
      by simp
    have "available_ram ?s = available_ram s" "ordered_scheduled_results ?s = ordered_scheduled_results s"
      by (simp_all add: available_ram_def set_next_def upd_task_def)
    then show ?thesis
      using Suc.IH [OF ok sum] Suc.prems(3,4) True run len
      by (subst drop_extra.simps) (simp add: Let_def)
  next
    case False
    then show ?thesis using Suc.prems(1) by (subst drop_extra.simps) auto
  qed
qed

lemma enf_ram_loop:
  assumes "enf_ok ram0 [] s run ram"
  shows "\<exists>s' ram'. fold enf_ram run (s, ram) = (s', ram') \<and> enf_ok ram0 [] s' [] ram'"
  using assms
proof (induction run arbitrary: s ram)
  case (Cons a run)
  have a: "a \<in> set (a # run)" "set run = set (a # run) - {a}" "distinct run"
    using Cons.prems by (auto simp: enf_ok_def)
  note v = enf_ok_view [OF enf_view_too_large]
  obtain s' ram' where "enf_ram a (s, ram) = (s', ram')" "enf_ok ram0 [] s' run ram'"
    using enf_ok_preempt [OF Cons.prems a] enf_ok_keep [OF Cons.prems a, of "[]"]
    by (cases "at_working_set_size_smoothed (task s a) > ram") (auto simp: enf_ram_def Let_def v)
  then show ?case using Cons.IH by simp
qed auto

lemma enf_nci_ok:
  assumes "\<forall>j. os_usable_slot os j" "tasks_wf s"
  shows "\<exists>s'. enf_nci os rs s = Some s' \<and> ram_of s' (committed s' []) = ram_of s (committed s [])"
  using assms(2)
proof (induction rs arbitrary: s)
  case (Cons r rs)
  show ?case
  proof (cases "p_non_cpu_intensive (proj s (r_project (res s r))) \<and> result_runnable s r")
    case False
    then show ?thesis using Cons.IH [OF Cons.prems] by auto
  next
    case True
    obtain a s1 where g: "get_task (os_usable_slot os) r s = Some (a, s1)" "tasks_wf s1"
      "at_result (task s1 a) = r"
      using get_task_total [OF Cons.prems assms(1)] by metis
    let ?s = "set_next CPU_SCHED_SCHEDULED a s1"
    consider (old) "s1 = s" | (new) "a \<notin> set (active_tasks s)" "active_tasks s1 = active_tasks s @ [a]"
        "\<And>b. b \<noteq> a \<Longrightarrow> task s1 b = task s b" "res s1 = res s" "proj s1 = proj s"
    proof (cases "lookup_active_task_by_result s r")
      case None
      show thesis using get_task_new(1,2,5,3,4) [OF g(1) None] by (rule new)
    next
      case (Some b)
      then show thesis using g(1) by (intro old) (simp add: get_task_def)
    qed
    then have "committed ?s [] = committed s [] \<and> (\<forall>b \<in> committed s []. task s1 b = task s b)"
    proof cases
      case old
      then have "\<not> cpu_task s a" using True g(3) by (simp add: cpu_task_def)
      then show ?thesis using old by (auto simp: committed_def)
    next
      case new
      then have "\<not> cpu_task s1 a" using True g(3) by (simp add: cpu_task_def)
      moreover have "task s1 b = task s b" if "b \<in> set (active_tasks s)" for b
        using new(1,3) that by metis
      ultimately show ?thesis
        using new(2) by (auto simp: committed_def cpu_task_def new(4,5))
    qed
    then have "ram_of ?s (committed ?s []) = ram_of s (committed s [])"
      unfolding ram_of_def by (intro sum.cong) auto
    then show ?thesis using Cons.IH [of ?s] g(1,2) True by auto
  qed
qed simp

text \<open>After \<open>enf_init\<close> a task that is to run is one that runs: it is in the vector.\<close>

definition init_view where
  "init_view s = (status_view s, active_tasks s, res s, global_prefs s, user_active s, host_info s,
     ordered_scheduled_results s, ncpus s, (\<lambda>a. (task s a)\<lparr>at_next_scheduler_state := 0\<rparr>))"

lemma init_viewD:
  assumes "init_view s = init_view t"
  shows "status_view s = status_view t" "active_tasks s = active_tasks t" "res s = res t"
    "available_ram s = available_ram t" "ordered_scheduled_results s = ordered_scheduled_results t"
    "ncpus s = ncpus t" "at_result (task s a) = at_result (task t a)"
    "at_scheduler_state (task s a) = at_scheduler_state (task t a)"
    "at_working_set_size_smoothed (task s a) = at_working_set_size_smoothed (task t a)"
    "at_slot (task s a) = at_slot (task t a)"
proof -
  have t: "(task s a)\<lparr>at_next_scheduler_state := 0\<rparr> = (task t a)\<lparr>at_next_scheduler_state := 0\<rparr>" for a
    using assms by (auto simp: init_view_def fun_eq_iff)
  show "at_result (task s a) = at_result (task t a)"
    "at_scheduler_state (task s a) = at_scheduler_state (task t a)"
    "at_working_set_size_smoothed (task s a) = at_working_set_size_smoothed (task t a)"
    "at_slot (task s a) = at_slot (task t a)"
    using arg_cong [OF t, of at_result] arg_cong [OF t, of at_scheduler_state]
      arg_cong [OF t, of at_working_set_size_smoothed] arg_cong [OF t, of at_slot] by simp_all
qed (use assms in \<open>auto simp: init_view_def available_ram_def\<close>)

lemma init_view_set_next: "init_view (set_next v a s) = init_view s"
  by (auto simp: init_view_def set_next_def status_view_upd_task) (auto simp: upd_task_def)

lemma enf_init_effect:
  "init_view (enf_init s) = init_view s"
  "a \<in> set (active_tasks s) \<Longrightarrow> at_next_scheduler_state (task (enf_init s) a) =
     (if result_runnable s (at_result (task s a)) then at_scheduler_state (task s a) else CPU_SCHED_PREEMPTED)"
proof -
  define f where "f = (\<lambda>p. upd_proj p (\<lambda>x. x\<lparr>p_deadlines_missed := rs_deadlines_missed (p_rr_sim_status x)\<rparr>))"
  define g where "g = (\<lambda>a s. if result_runnable s (at_result (task s a))
    then set_next (at_scheduler_state (task s a)) a s else set_next CPU_SCHED_PREEMPTED a s)"
  let ?s1 = "fold f (projects s) s"
  have "init_view (f p t) = init_view t" for p t
    by (simp add: f_def init_view_def status_view_upd_proj) (simp add: upd_proj_def)
  then have v1: "init_view ?s1 = init_view s" by (rule fold_frame)
  have loop: "init_view (fold g xs ?s1) = init_view s
    \<and> (\<forall>a \<in> set xs. at_next_scheduler_state (task (fold g xs ?s1) a) =
        (if result_runnable s (at_result (task s a)) then at_scheduler_state (task s a) else CPU_SCHED_PREEMPTED))"
    for xs
  proof (induction xs rule: rev_induct)
    case (snoc x xs)
    let ?t = "fold g xs ?s1"
    have v: "init_view ?t = init_view s" using snoc by simp
    have "init_view (g x ?t) = init_view s"
      using v by (simp add: g_def init_view_set_next)
    moreover have "result_runnable ?t r = result_runnable s r" for r
      by (rule status_view_preds(1) [OF init_viewD(1) [OF v]])
    ultimately show ?case using snoc init_viewD(7,8) [OF v] by (auto simp: g_def)
  qed (use v1 in simp)
  have e: "enf_init s = fold g (active_tasks s) ?s1"
    using init_viewD(2) [OF v1] by (simp add: enf_init_def f_def g_def Let_def)
  show "init_view (enf_init s) = init_view s" using loop e by simp
  show "a \<in> set (active_tasks s) \<Longrightarrow> at_next_scheduler_state (task (enf_init s) a) =
     (if result_runnable s (at_result (task s a)) then at_scheduler_state (task s a) else CPU_SCHED_PREEMPTED)"
    using loop e by simp
qed

lemma enf_start_ok:
  assumes h: "std_heap (os_make_heap os) (os_pop_heap os)" and wf: "tasks_wf s"
    and nn: "\<forall>a \<in> set (active_tasks s). 0 \<le> at_working_set_size_smoothed (task s a)"
    and ram: "0 \<le> available_ram s" and heap: "make_running_task_heap os (enf_init s) = (run, nu)"
  shows "enf_ok (available_ram s) rs (enf_init s) run (available_ram s)"
    "nu = sum_list (map (avg_ncpus_of (enf_init s)) run)"
proof -
  let ?s = "enf_init s"
  note v = init_viewD [OF enf_init_effect(1) [of s]]
  have run: "run = os_make_heap os (more_preemptable ?s) (filter (running_task ?s) (active_tasks s))"
    and nu: "nu = sum_list (map (avg_ncpus_of ?s) (filter (running_task ?s) (active_tasks s)))"
    using heap by (simp_all add: make_running_task_heap_def Let_def v(2) fold_plus_sum_list)
  show "nu = sum_list (map (avg_ncpus_of ?s) run)"
    unfolding run nu by (rule std_heap.make_heap_sum [OF h, symmetric])
  have set: "set run = {a \<in> set (active_tasks s). running_task ?s a}" "distinct run"
    using wf unfolding run by (simp_all add: std_heap.make_heap_set [OF h] tasks_wf_def)
  have "result_runnable ?s r = result_runnable s r" for r
    by (rule status_view_preds(1) [OF v(1)])
  then have "committed ?s run = {}"
    using enf_init_effect(2) [of _ s] set(1)
    by (auto simp: committed_def running_task_def cpu_task_def v Let_def split: if_splits)
  then show "enf_ok (available_ram s) rs ?s run (available_ram s)"
    using wf nn ram set by (auto simp: enf_ok_def tasks_wf_def v ram_of_def)
qed

text \<open>C7: Enforcing the schedule always comes to a decision, and the decision fits the machine:
  the working sets of the CPU-intensive tasks that are to run together are at most the
  available RAM.\<close>

theorem enforce_decide_fits_ram:
  assumes "std_heap (os_make_heap os) (os_pop_heap os)" "\<forall>j. os_usable_slot os j"
    and "tasks_wf s" "distinct (ordered_scheduled_results s)" "0 \<le> ncpus s" "0 \<le> available_ram s"
    and "\<forall>a \<in> set (active_tasks s). 0 \<le> at_working_set_size_smoothed (task s a)"
  shows "\<exists>s'. enforce_decide os s = Some s' \<and>
    (\<Sum>a \<in> {a \<in> set (active_tasks s'). cpu_task s' a
        \<and> at_next_scheduler_state (task s' a) = CPU_SCHED_SCHEDULED}.
      at_working_set_size_smoothed (task s' a)) \<le> available_ram s"
proof -
  let ?s = "enf_init s"
  note v = init_viewD [OF enf_init_effect(1) [of s]]
  obtain run nu where heap: "make_running_task_heap os ?s = (run, nu)"
    by (cases "make_running_task_heap os ?s")
  note st = enf_start_ok [OF assms(1,3,7,6) heap]
  obtain s1 run1 nu1 where d: "drop_extra os (length run) (?s, run, nu) = Some (s1, run1, nu1)"
    "enf_ok (available_ram s) (ordered_scheduled_results s) s1 run1 (available_ram s)"
    "ordered_scheduled_results s1 = ordered_scheduled_results s" "available_ram s1 = available_ram s"
    using drop_extra_ok [OF assms(1) st(1) [of "ordered_scheduled_results s"] st(2) _ order_refl] assms(5) v
    by auto
  obtain s2 run2 nu2 ram2 where r: "enf_results os (ordered_scheduled_results s)
      (s1, run1, nu1, available_ram s) = Some (s2, run2, nu2, ram2)" "enf_ok (available_ram s) [] s2 run2 ram2"
    using enf_results_ok [OF assms(1,2) d(2) assms(4), of nu1] by auto
  obtain s3 ram3 where f: "fold enf_ram run2 (s2, ram2) = (s3, ram3)" "enf_ok (available_ram s) [] s3 [] ram3"
    using enf_ram_loop [OF r(2)] by blast
  define s4 where "s4 = (if log_cpu_sched_debug s3 \<and> nu2 < real_of_int (ncpus s3) then request_work_fetch s3 else s3)"
  have "enf_view s4 = enf_view s3" by (simp add: s4_def enf_view_def request_work_fetch_def)
  from enf_ok_view [OF this] have ok4: "enf_ok (available_ram s) [] s4 [] ram3" using f(2) by blast
  then obtain s5 where n: "enf_nci os (results s4) s4 = Some s5"
    "ram_of s5 (committed s5 []) = ram_of s4 (committed s4 [])"
    using enf_nci_ok [OF assms(2), of s4 "results s4"] by (auto simp: enf_ok_def)
  have "enforce_decide os s = Some s5"
    using heap d r(1) f(1) n(1) unfolding s4_def
    by (cases "log_cpu_sched_debug s3 \<and> nu2 < real_of_int (ncpus s3)")
      (auto simp: enforce_decide_def Let_def)
  then show ?thesis using n(2) ok4 by (auto simp: enf_ok_def committed_def ram_of_def)
qed

definition sample_os :: OS where
  "sample_os = \<lparr>os_usable_slot = (\<lambda>_. True), os_verify_inputs = (\<lambda>_ s. s), os_start = (\<lambda>_. Started),
     os_make_heap = move_largest, os_pop_heap = pop_first\<rparr>"

theorem enforce_decide_fits_ram_witness:
  "\<exists>s'. enforce_decide sample_os (sample_state\<lparr>ordered_scheduled_results := [0]\<rparr>) = Some s'"
  using enforce_decide_fits_ram [of sample_os "sample_state\<lparr>ordered_scheduled_results := [0]\<rparr>"]
    list_heap.std_heap_axioms
  by (auto simp: sample_os_def sample_defs tasks_wf_def available_ram_def)

section \<open>Applying the decision\<close>

text \<open>A task that finds no shared memory segment does not delay the next attempt. \<open>start\<close> reports
  the shortage, but \<open>resume_or_start\<close> takes a task that is still uninitialized for one with missing
  files and returns success: \<open>retry_shmem_time\<close> is left alone and scheduling is requested again
  at once.\<close>

theorem no_shmem_not_delayed:
  assumes "at_next_scheduler_state (task s a) = CPU_SCHED_SCHEDULED"
    "at_task_state (task s a) = PROCESS_UNINITIALIZED" "os_start os a = No_Shmem e"
  shows "retry_shmem_time (fst (enf_apply os a (s, swap_left, action))) = retry_shmem_time s
    \<and> must_schedule_cpus (fst (enf_apply os a (s, swap_left, action)))"
  using assms
  by (simp add: enf_apply_def resume_or_start_def start_def start_prepare_def upd_task_def Let_def
      request_schedule_cpus_def)

theorem no_shmem_not_delayed_witness:
  "retry_shmem_time (fst (enf_apply (sample_os\<lparr>os_start := (\<lambda>_. No_Shmem ERR_SHMGET)\<rparr>) 0
     (sample_state\<lparr>task := (\<lambda>_. sample_task\<lparr>at_next_scheduler_state := CPU_SCHED_SCHEDULED\<rparr>)\<rparr>, 0, False)))
   = retry_shmem_time sample_state"
  using no_shmem_not_delayed [of "sample_state\<lparr>task := (\<lambda>_. sample_task\<lparr>at_next_scheduler_state := CPU_SCHED_SCHEDULED\<rparr>)\<rparr>"
      0 "sample_os\<lparr>os_start := (\<lambda>_. No_Shmem ERR_SHMGET)\<rparr>" ERR_SHMGET 0 False]
  by (simp add: sample_task_def)

text \<open>Updating the duration correction factor keeps it between 0.01 and 100, and a result that
  took more than 1.1 times its estimate raises the factor to the ratio observed, up to the
  limit.\<close>

theorem duration_correction_bounds:
  "let d = av_duration_correction_factor (appver (update_duration_correction_factor r v s) v);
       raw = r_final_cpu_time (res s r) / estimated_cpu_time_uncorrected s r in
   1/100 \<le> d \<and> d \<le> 100
   \<and> (r_final_cpu_time (res s r) / estimated_cpu_time s r > 11/10 \<longrightarrow> d = max (1/100) (min 100 raw))"
  by (simp add: update_duration_correction_factor_def Let_def upd_appver_def)

theorem duration_correction_bounds_witness:
  "av_duration_correction_factor (appver (update_duration_correction_factor 0 0
     (sample_state\<lparr>res := (\<lambda>_. sample_result\<lparr>r_final_cpu_time := 5000\<rparr>)\<rparr>)) 0) = 5"
  using duration_correction_bounds [of 0 0 "sample_state\<lparr>res := (\<lambda>_. sample_result\<lparr>r_final_cpu_time := 5000\<rparr>)\<rparr>"]
  by (simp add: Let_def sample_defs estimated_cpu_time_def estimated_cpu_time_uncorrected_def)

end
