(* ===== verification/Work_Fetch.thy ===== *)
theory Work_Fetch
  imports Enforce_Schedule
begin

text \<open>
  Work fetch policy (\<open>client/work_fetch.C\<close>): \<open>compute_work_requests\<close> decides how urgently the
  client needs work and from which project to ask how much; the \<open>next_project_\<close> functions
  choose the project the next scheduler RPC goes to.
\<close>

section \<open>Choosing a project to contact\<close>

definition proj_min_results :: "CLIENT_STATE \<Rightarrow> pid \<Rightarrow> real \<Rightarrow> int" where
  "proj_min_results s p subset_resource_share =
     (if p_non_cpu_intensive (proj s p) then 1
      else if subset_resource_share = 0 then 1
      else \<lceil>real_of_int (ncpus s) * p_resource_share (proj s p) / subset_resource_share\<rceil>)"

definition check_project_timeout :: "CLIENT_STATE \<Rightarrow> CLIENT_STATE" where
  "check_project_timeout s = fold (\<lambda>p s.
     if p_possibly_backed_off (proj s p) \<and> now s > p_min_rpc_time (proj s p)
     then request_work_fetch (upd_proj p (\<lambda>x. x\<lparr>p_possibly_backed_off := False\<rparr>) s) else s) (projects s) s"

definition next_project_master_pending :: "CLIENT_STATE \<Rightarrow> pid option" where
  "next_project_master_pending s = find (\<lambda>p. \<not> waiting_until_min_rpc_time s p
     \<and> \<not> p_suspended_via_gui (proj s p) \<and> p_master_url_fetch_pending (proj s p)) (projects s)"

fun sched_rpc_pending_loop :: "pid list \<Rightarrow> CLIENT_STATE \<Rightarrow> pid option \<times> CLIENT_STATE" where
  "sched_rpc_pending_loop [] s = (None, s)"
| "sched_rpc_pending_loop (p # ps) s =
     (let due = (p_next_rpc_time (proj s p) \<noteq> 0 \<and> p_next_rpc_time (proj s p) < now s);
          s1 = (if due then upd_proj p (\<lambda>x. x\<lparr>p_sched_rpc_pending := RPC_REASON_PROJECT_REQ,
                                              p_next_rpc_time := 0\<rparr>) s else s)
      in if \<not> due \<and> waiting_until_min_rpc_time s1 p then sched_rpc_pending_loop ps s1
         else if p_sched_rpc_pending (proj s1 p) \<noteq> NO_RPC_REASON then (Some p, s1)
         else sched_rpc_pending_loop ps s1)"

definition next_project_sched_rpc_pending :: "CLIENT_STATE \<Rightarrow> pid option \<times> CLIENT_STATE" where
  "next_project_sched_rpc_pending s = sched_rpc_pending_loop (projects s) s"

definition next_project_trickle_up_pending :: "CLIENT_STATE \<Rightarrow> pid option" where
  "next_project_trickle_up_pending s = find (\<lambda>p. \<not> waiting_until_min_rpc_time s p
     \<and> \<not> p_suspended_via_gui (proj s p) \<and> p_trickle_up_pending (proj s p)) (projects s)"

definition ltd_shortfall :: "CLIENT_STATE \<Rightarrow> pid \<Rightarrow> real" where
  "ltd_shortfall s p = p_long_term_debt (proj s p) + rs_cpu_shortfall (p_rr_sim_status (proj s p))"

definition need_work_consider :: "CLIENT_STATE \<Rightarrow> pid \<Rightarrow> pid option \<Rightarrow> pid option" where
  "need_work_consider s p prospect =
     (let x = proj s p in
      if p_work_request_urgency x = WORK_FETCH_DONT_NEED then prospect
      else if p_work_request x = 0 then prospect
      else if \<not> contactable s p then prospect
      else if overall_work_fetch_urgency s = WORK_FETCH_DONT_NEED \<and> \<not> p_non_cpu_intensive x then prospect
      else if overall_work_fetch_urgency s = WORK_FETCH_OK \<and> p_work_request_urgency x \<le> WORK_FETCH_OK
      then prospect
      else case prospect of
        None \<Rightarrow> Some p
      | Some q \<Rightarrow>
          if p_work_request_urgency x = WORK_FETCH_OK \<and> p_work_request_urgency (proj s q) > WORK_FETCH_OK
          then prospect
          else if ltd_shortfall s p < ltd_shortfall s q \<and> \<not> p_non_cpu_intensive x then prospect
          else Some p)"

definition next_project_need_work :: "CLIENT_STATE \<Rightarrow> pid option \<times> CLIENT_STATE" where
  "next_project_need_work s =
     (case fold (need_work_consider s) (projects s) None of
        None \<Rightarrow> (None, s)
      | Some p \<Rightarrow> (Some p, if p_work_request (proj s p) \<le> 0
                          then upd_proj p (\<lambda>x. x\<lparr>p_work_request := 1\<rparr>) s else s))"

abbreviation REPORT_DEADLINE_CUSHION :: real where "REPORT_DEADLINE_CUSHION \<equiv> 86400"

definition report_overdue :: "CLIENT_STATE \<Rightarrow> rid \<Rightarrow> bool" where
  "report_overdue s r =
     (cf_report_results_immediately (config s) \<or> ns_have_sporadic_connection (net_status s)
      \<or> now s > r_report_deadline (res s r) - max REPORT_DEADLINE_CUSHION (work_buf_min s)
      \<or> now s > r_completed_time (res s r) + SECONDS_PER_DAY)"

definition find_project_with_overdue_results :: "CLIENT_STATE \<Rightarrow> pid option" where
  "find_project_with_overdue_results s = map_option (\<lambda>r. r_project (res s r))
     (find (\<lambda>r. r_ready_to_report (res s r) \<and> \<not> waiting_until_min_rpc_time s (r_project (res s r))
        \<and> \<not> p_suspended_via_gui (proj s (r_project (res s r))) \<and> report_overdue s r) (results s))"

section \<open>Estimating the work on hand\<close>

text \<open>The loop state of \<open>time_until_work_done\<close>: the results still to skip and the estimate.\<close>

definition work_done_step :: "CLIENT_STATE \<Rightarrow> pid \<Rightarrow> rid \<Rightarrow> int \<times> real \<Rightarrow> int \<times> real" where
  "work_done_step s p r st =
     (case st of (skip, est) \<Rightarrow>
      if r_project (res s r) \<noteq> p \<or> r_state (res s r) > RESULT_FILES_DOWNLOADED
         \<or> r_ready_to_report (res s r) then (skip, est)
      else if skip > 0 then (skip - 1, est)
      else if p_non_cpu_intensive (proj s (r_project (res s r)))
      then (skip, max (estimated_cpu_time_remaining s r) (work_buf_min s))
      else (skip, est + estimated_cpu_time_remaining s r))"

definition time_until_work_done :: "CLIENT_STATE \<Rightarrow> pid \<Rightarrow> int \<Rightarrow> real \<Rightarrow> real" where
  "time_until_work_done s p k subset_resource_share =
     (let est = snd (fold (work_done_step s p) (rev (results s)) (k, 0)) in
      if subset_resource_share \<noteq> 0
      then est / (avg_proc_rate s * p_resource_share (proj s p) / subset_resource_share)
      else est / avg_proc_rate s)"

definition scale_duration_correction_factors :: "real \<Rightarrow> CLIENT_STATE \<Rightarrow> CLIENT_STATE" where
  "scale_duration_correction_factors factor s =
     (if factor \<le> 0 then s
      else fold (\<lambda>v. upd_appver v (\<lambda>x. x\<lparr>av_duration_correction_factor :=
             av_duration_correction_factor x * factor\<rparr>)) (app_versions s) s)"

text \<open>\<open>generate_new_host_cpid\<close>; the identifier itself is not part of the model.\<close>

definition generate_new_host_cpid :: "CLIENT_STATE \<Rightarrow> CLIENT_STATE" where
  "generate_new_host_cpid s = fold (\<lambda>p s.
     if p_attached_via_acct_mgr (proj s p)
     then set_min_rpc_time (now s + 15) p (upd_proj p (\<lambda>x. x\<lparr>p_sched_rpc_pending := RPC_REASON_ACCT_MGR_REQ\<rparr>) s)
     else s) (projects s) s"

definition compute_nuploading_results :: "CLIENT_STATE \<Rightarrow> CLIENT_STATE" where
  "compute_nuploading_results s =
     (let s1 = fold (\<lambda>p. upd_proj p (\<lambda>x. x\<lparr>p_nuploading_results := 0\<rparr>)) (projects s) s
      in fold (\<lambda>r s. if r_state (res s r) = RESULT_FILES_UPLOADING
                    then upd_proj (r_project (res s r)) (\<lambda>x. x\<lparr>p_nuploading_results :=
                           p_nuploading_results x + 1\<rparr>) s else s) (results s1) s1)"

text \<open>\<open>PROJECT::calculate_avg_dcf\<close> (\<open>client/client_types.C\<close>).\<close>

definition calculate_avg_dcf :: "CLIENT_STATE \<Rightarrow> pid \<Rightarrow> real" where
  "calculate_avg_dcf s p =
     (let (total, n) = fold (\<lambda>v (total, n). if av_project (appver s v) = p
            then (total + av_duration_correction_factor (appver s v), Suc n) else (total, n))
            (app_versions s) (0, 0 :: nat)
      in if n = 0 then 1 else total / real n)"

section \<open>Work requests\<close>

text \<open>
  The first loop over the projects: the state, whether a deadline may be missed, whether a
  project has a shortfall. It returns at once, as \<open>Inl\<close>, when a non-CPU-intensive project needs
  work; this is the early \<open>return false\<close> of the code.
\<close>

definition nci_idle :: "CLIENT_STATE \<Rightarrow> pid \<Rightarrow> bool" where
  "nci_idle s p = (nearly_runnable s p \<or> \<not> contactable s p \<or> some_result_suspended s p)"

definition set_request :: "real \<Rightarrow> int \<Rightarrow> pid \<Rightarrow> CLIENT_STATE \<Rightarrow> CLIENT_STATE" where
  "set_request w u p s = upd_proj p (\<lambda>x. x\<lparr>p_work_request := w, p_work_request_urgency := u\<rparr>) s"

fun urgency_loop ::
  "pid list \<Rightarrow> CLIENT_STATE \<times> bool \<times> bool \<Rightarrow> CLIENT_STATE + CLIENT_STATE \<times> bool \<times> bool" where
  "urgency_loop [] st = Inr st"
| "urgency_loop (p # ps) (s, possible_deadline_miss, project_shortfall) =
     (if p_non_cpu_intensive (proj s p)
      then if nci_idle s p
           then urgency_loop ps (set_request 0 WORK_FETCH_DONT_NEED p s, possible_deadline_miss, project_shortfall)
           else Inl (set_request 1 WORK_FETCH_NEED_IMMEDIATELY p s)
      else let s1 = set_request 0 WORK_FETCH_DONT_NEED p s; rs = p_rr_sim_status (proj s1 p)
           in urgency_loop ps (s1, possible_deadline_miss \<or> rs_deadlines_missed rs \<noteq> 0,
                project_shortfall \<or> (rs_cpu_shortfall rs > 0
                  \<and> p_long_term_debt (proj s1 p) > - cpu_scheduling_period s1)))"

definition fetch_ruled_out :: "CLIENT_STATE \<Rightarrow> pid \<Rightarrow> bool" where
  "fetch_ruled_out s p =
     (let x = proj s p; lax = (overall_work_fetch_urgency s < WORK_FETCH_NEED) in
      p_non_cpu_intensive x \<or> \<not> contactable s p
      \<or> (p_deadlines_missed x \<ge> ncpus s \<and> lax)
      \<or> project_some_download_stalled s p \<or> some_result_suspended s p
      \<or> (overworked s p \<and> lax)
      \<or> (rs_cpu_shortfall (p_rr_sim_status x) = 0 \<and> lax)
      \<or> p_nuploading_results x > 2 * ncpus s)"

definition fetch_consider :: "CLIENT_STATE \<Rightarrow> pid \<Rightarrow> pid option \<Rightarrow> pid option" where
  "fetch_consider s p pbest =
     (if fetch_ruled_out s p then pbest
      else case pbest of
        None \<Rightarrow> Some p
      | Some b \<Rightarrow>
          if p_deadlines_missed (proj s p) \<noteq> 0 \<and> p_deadlines_missed (proj s b) = 0 then pbest
          else if overworked s p \<and> \<not> overworked s b then pbest
          else if ltd_shortfall s b > ltd_shortfall s p then pbest
          else Some p)"

definition overall_urgency :: "CLIENT_STATE \<Rightarrow> bool \<Rightarrow> bool \<Rightarrow> int" where
  "overall_urgency s possible_deadline_miss project_shortfall =
     (if cpu_shortfall s \<le> 0 \<and> (possible_deadline_miss \<or> \<not> project_shortfall) then WORK_FETCH_DONT_NEED
      else if no_work_for_a_cpu s then WORK_FETCH_NEED_IMMEDIATELY
      else if cpu_shortfall s > 0 then WORK_FETCH_NEED else WORK_FETCH_OK)"

definition fetch_amount :: "CLIENT_STATE \<Rightarrow> pid \<Rightarrow> real" where
  "fetch_amount s p =
     (let prrs = fetchable_resource_share s;
          w = max (rs_cpu_shortfall (p_rr_sim_status (proj s p)))
                (cpu_shortfall s * (if prrs \<noteq> 0 then p_resource_share (proj s p) / prrs else 1));
          x = 101/100 * work_buf_total s * real_of_int (ncpus s)
      in if w > x then x else w)"

definition fetch_urgency :: "CLIENT_STATE \<Rightarrow> pid \<Rightarrow> int" where
  "fetch_urgency s p =
     (if \<not> nearly_runnable s p then WORK_FETCH_NEED_IMMEDIATELY
      else if rs_cpu_shortfall (p_rr_sim_status (proj s p)) > 0 then WORK_FETCH_NEED else WORK_FETCH_OK)"

text \<open>
  After the first loop. The flag \<open>non_cpu_intensive_needs_work\<close> of the code is false here, since
  the loop returns where it is set.
\<close>

definition request_from_best :: "CLIENT_STATE \<Rightarrow> CLIENT_STATE" where
  "request_from_best s =
     (case fold (fetch_consider s) (projects s) None of
        None \<Rightarrow> s
      | Some p \<Rightarrow> set_request (fetch_amount s p) (fetch_urgency s p) p s)"

definition compute_work_requests :: "CLIENT_STATE \<Rightarrow> CLIENT_STATE" where
  "compute_work_requests s =
     (let s1 = (if now s - work_fetch_last_time s \<ge> 60 then request_work_fetch s else s) in
      if \<not> must_check_work_fetch s1 then s1
      else let
        s2 = s1\<lparr>work_fetch_last_time := now s1, must_check_work_fetch := False\<rparr>;
        s3 = rr_simulation (adjust_debts (compute_nuploading_results s2))
      in case urgency_loop (projects s3) (s3, False, False) of
           Inl s4 \<Rightarrow> s4
         | Inr (s4, possible_deadline_miss, project_shortfall) \<Rightarrow>
             let s5 = s4\<lparr>overall_work_fetch_urgency := overall_urgency s4 possible_deadline_miss project_shortfall\<rparr>
             in if overall_work_fetch_urgency s5 = WORK_FETCH_DONT_NEED then s5
                else request_from_best s5)"

section \<open>What computing the requests keeps\<close>

lemma sched_view_set_request [frame_simps]: "sched_view (set_request w u p s) = sched_view s"
  by (simp add: set_request_def sched_view_upd_proj)

lemmas status_view_set_request = sched_viewD(1) [OF sched_view_set_request]

lemma set_request_proj:
  "p_work_request (proj (set_request w u p s) q) = (if q = p then w else p_work_request (proj s q))"
  "p_work_request_urgency (proj (set_request w u p s) q) = (if q = p then u else p_work_request_urgency (proj s q))"
  by (simp_all add: set_request_def upd_proj_def)

lemma sched_view_nuploading [frame_simps]: "sched_view (compute_nuploading_results s) = sched_view s"
proof -
  have "sched_view (fold (\<lambda>p. upd_proj p (\<lambda>x. x\<lparr>p_nuploading_results := 0\<rparr>)) ps t) = sched_view t" for ps t
    by (rule fold_sched_view) (simp add: sched_view_upd_proj)
  moreover have "sched_view (fold (\<lambda>r s. if r_state (res s r) = RESULT_FILES_UPLOADING
      then upd_proj (r_project (res s r)) (\<lambda>x. x\<lparr>p_nuploading_results := p_nuploading_results x + 1\<rparr>) s
      else s) rs t) = sched_view t" for rs t
    by (rule fold_sched_view) (simp add: sched_view_upd_proj)
  ultimately show ?thesis by (simp add: compute_nuploading_results_def Let_def)
qed

definition request_view where
  "request_view s = (\<lambda>p. (p_work_request (proj s p), p_work_request_urgency (proj s p)))"

lemma request_view_upd_proj:
  assumes "p_work_request (f (proj s p)) = p_work_request (proj s p)"
    "p_work_request_urgency (f (proj s p)) = p_work_request_urgency (proj s p)"
  shows "request_view (upd_proj p f s) = request_view s"
  using assms by (auto simp: request_view_def upd_proj_def)

lemma request_view_fields [simp]:
  "request_view (upd_task a g s) = request_view s"
  "request_view (s\<lparr>total_wall_cpu_time_this_debt_interval := x\<rparr>) = request_view s"
  "request_view (s\<lparr>total_cpu_time_this_debt_interval := y\<rparr>) = request_view s"
  "request_view (s\<lparr>debt_interval_start := z\<rparr>) = request_view s"
  "request_view (s\<lparr>time_stats := ts\<rparr>) = request_view s"
  by (simp_all add: request_view_def upd_task_def)

lemma request_view_adjust_debts: "request_view (adjust_debts s) = request_view s"
proof -
  have r1: "request_view (fold (\<lambda>p. upd_proj p (\<lambda>x. x\<lparr>p_wall_cpu_time_this_debt_interval := 0\<rparr>)) ps t)
      = request_view t" for ps t
    by (rule fold_frame) (simp add: request_view_upd_proj)
  have r2: "request_view (fold (\<lambda>a. upd_task a (g a)) as t) = request_view t" for g as t
    by (rule fold_frame) simp
  have r: "request_view (reset_debt_accounting t) = request_view t" for t
    by (simp add: reset_debt_accounting_def Let_def r1 r2)
  have c: "request_view (fold (charge_task w) as t) = request_view t" for w as t
    by (rule fold_frame) (simp add: charge_task_def Let_def request_view_upd_proj)
  have n: "request_view (fold (normalize_project al as) ps t) = request_view t" for al as ps t
    by (rule fold_frame) (simp add: normalize_project_def Let_def request_view_upd_proj)
  have k: "request_view (fst (fold (credit_project prrs rrs) ps st)) = request_view (fst st)"
    for prrs rrs ps st
    by (rule fold_frame [where v = "\<lambda>st. request_view (fst st)"])
      (simp add: credit_project_def Let_def request_view_upd_proj split: prod.split)
  have k': "fold (credit_project prrs rrs) ps (t, d) = (u, d') \<Longrightarrow> request_view u = request_view t"
    for prrs rrs ps t d u d'
    using k [of prrs rrs ps "(t, d)"] by simp
  show ?thesis
    by (auto simp: adjust_debts_def Let_def c n r dest!: k' split: prod.split)
qed

lemma request_view_rr_simulation: "request_view (rr_simulation s) = request_view s"
proof -
  have "request_view (rr_rest s) = request_view s" for s
    by (simp add: request_view_def rr_rest_def)
  then show ?thesis using rr_simulation_view [of s] unfolding rr_view_def by (metis snd_conv)
qed

lemma request_view_nuploading: "request_view (compute_nuploading_results s) = request_view s"
proof -
  have "request_view (fold (\<lambda>p. upd_proj p (\<lambda>x. x\<lparr>p_nuploading_results := 0\<rparr>)) ps t) = request_view t" for ps t
    by (rule fold_frame) (simp add: request_view_upd_proj)
  moreover have "request_view (fold (\<lambda>r s. if r_state (res s r) = RESULT_FILES_UPLOADING
      then upd_proj (r_project (res s r)) (\<lambda>x. x\<lparr>p_nuploading_results := p_nuploading_results x + 1\<rparr>) s
      else s) rs t) = request_view t" for rs t
    by (rule fold_frame) (simp add: request_view_upd_proj)
  ultimately show ?thesis by (simp add: compute_nuploading_results_def Let_def)
qed

text \<open>The state in which the requests are computed.\<close>

lemma fetch_state_views:
  defines "before s \<equiv> rr_simulation (adjust_debts (compute_nuploading_results
    (s\<lparr>work_fetch_last_time := now s, must_check_work_fetch := False\<rparr>)))"
  shows "sched_view (before s) = sched_view s" "request_view (before s) = request_view s"
proof -
  have "sched_view (s\<lparr>work_fetch_last_time := now s, must_check_work_fetch := False\<rparr>) = sched_view s"
    by (simp add: sched_view_def status_view_def)
  then show "sched_view (before s) = sched_view s"
    by (simp add: before_def frame_simps)
  have "request_view (s\<lparr>work_fetch_last_time := now s, must_check_work_fetch := False\<rparr>) = request_view s"
    by (simp add: request_view_def)
  then show "request_view (before s) = request_view s"
    by (simp add: before_def request_view_rr_simulation request_view_adjust_debts request_view_nuploading)
qed

section \<open>The first loop\<close>

lemma nci_idle_view: "status_view s = status_view t \<Longrightarrow> nci_idle s p = nci_idle t p"
  by (simp add: nci_idle_def status_view_preds [of s t])

lemma urgency_loop_all_idle:
  assumes "\<And>p. p \<in> set ps \<Longrightarrow> p_non_cpu_intensive (proj s p) \<Longrightarrow> nci_idle s p"
  shows "\<exists>s' a' b'. urgency_loop ps (s, a, b) = Inr (s', a', b') \<and> sched_view s' = sched_view s
    \<and> (\<forall>p. request_view s' p = (if p \<in> set ps then (0, WORK_FETCH_DONT_NEED) else request_view s p))"
  using assms
proof (induction ps arbitrary: s a b)
  case (Cons p ps)
  let ?s = "set_request 0 WORK_FETCH_DONT_NEED p s"
  note v = status_view_set_request [of 0 WORK_FETCH_DONT_NEED p s]
  have "q \<in> set ps \<Longrightarrow> p_non_cpu_intensive (proj ?s q) \<Longrightarrow> nci_idle ?s q" for q
    using Cons.prems [of q] nci_idle_view [OF v] status_viewD(11) [OF v] by simp
  note IH = Cons.IH [OF this]
  obtain a' b' where "urgency_loop (p # ps) (s, a, b) = urgency_loop ps (?s, a', b')"
    using Cons.prems [of p] by (cases "p_non_cpu_intensive (proj s p)") (auto simp: Let_def)
  moreover have "request_view ?s q = (if q = p then (0, WORK_FETCH_DONT_NEED) else request_view s q)" for q
    by (simp add: request_view_def set_request_proj)
  ultimately show ?case using IH [of a' b'] sched_view_set_request [of 0 WORK_FETCH_DONT_NEED p s] by auto
qed simp

lemma urgency_loop_stops:
  assumes "\<And>x. x \<in> set xs \<Longrightarrow> p_non_cpu_intensive (proj s x) \<Longrightarrow> nci_idle s x"
    "p_non_cpu_intensive (proj s p)" "\<not> nci_idle s p"
  shows "\<exists>s'. urgency_loop (xs @ p # ys) (s, a, b) = Inl s'
    \<and> (\<forall>q. request_view s' q = (if q = p then (1, WORK_FETCH_NEED_IMMEDIATELY)
          else if q \<in> set xs then (0, WORK_FETCH_DONT_NEED) else request_view s q))"
  using assms
proof (induction xs arbitrary: s a b)
  case Nil
  then show ?case by (auto simp: request_view_def set_request_proj)
next
  case (Cons x xs)
  let ?s = "set_request 0 WORK_FETCH_DONT_NEED x s"
  note v = status_view_set_request [of 0 WORK_FETCH_DONT_NEED x s]
  note d = nci_idle_view [OF v] status_viewD(11) [OF v]
  have IH: "\<exists>s'. urgency_loop (xs @ p # ys) (?s, a, b) = Inl s'
    \<and> (\<forall>q. request_view s' q = (if q = p then (1, WORK_FETCH_NEED_IMMEDIATELY)
          else if q \<in> set xs then (0, WORK_FETCH_DONT_NEED) else request_view ?s q))" for a b
    using Cons.prems d by (intro Cons.IH) auto
  obtain a' b' where "urgency_loop ((x # xs) @ p # ys) (s, a, b) = urgency_loop (xs @ p # ys) (?s, a', b')"
    using Cons.prems(1) [of x] by (cases "p_non_cpu_intensive (proj s x)") (auto simp: Let_def)
  moreover have "request_view ?s q = (if q = x then (0, WORK_FETCH_DONT_NEED) else request_view s q)" for q
    by (simp add: request_view_def set_request_proj)
  ultimately show ?case using IH [of a' b'] by auto
qed

lemma fetch_fold:
  "fold (fetch_consider s) ps None = Some p \<Longrightarrow> p \<in> set ps \<and> \<not> fetch_ruled_out s p"
proof -
  have "case fold (fetch_consider s) ps None of None \<Rightarrow> True | Some p \<Rightarrow> p \<in> set ps \<and> \<not> fetch_ruled_out s p"
    by (rule fold_preserves [where P = "\<lambda>b. case b of None \<Rightarrow> True
          | Some p \<Rightarrow> p \<in> set ps \<and> \<not> fetch_ruled_out s p"])
      (auto simp: fetch_consider_def split: option.splits)
  then show "fold (fetch_consider s) ps None = Some p \<Longrightarrow> p \<in> set ps \<and> \<not> fetch_ruled_out s p"
    by simp
qed

lemma fetch_amount_bound: "fetch_amount s p \<le> 101/100 * work_buf_total s * real_of_int (ncpus s)"
  by (simp add: fetch_amount_def Let_def)

text \<open>The requests after the first loop has reset them all.\<close>

lemma request_from_best_requests:
  assumes "\<And>p. p \<in> set (projects s) \<Longrightarrow> p_work_request (proj s p) = 0"
    "p \<in> set (projects s)" "p_work_request (proj (request_from_best s) p) \<noteq> 0"
  shows "fold (fetch_consider s) (projects s) None = Some p"
    "p_work_request (proj (request_from_best s) p) = fetch_amount s p"
  using assms by (auto simp: request_from_best_def set_request_proj split: option.splits if_splits)

text \<open>C18: When no non-CPU-intensive project needs work, at most one project gets a work request:
  a CPU-intensive one that may be contacted and has no suspended result. The request does not
  exceed 1.01 times the work buffer for all CPUs.\<close>

theorem one_work_request:
  assumes "must_check_work_fetch s"
    and "\<forall>p \<in> set (projects s). p_non_cpu_intensive (proj s p) \<longrightarrow> nci_idle s p"
    and "p \<in> set (projects s)" "p_work_request (proj (compute_work_requests s) p) \<noteq> 0"
  shows "\<not> p_non_cpu_intensive (proj s p) \<and> contactable s p \<and> \<not> some_result_suspended s p
    \<and> p_work_request (proj (compute_work_requests s) p) \<le> 101/100 * work_buf_total s * real_of_int (ncpus s)
    \<and> (\<forall>q \<in> set (projects s). q \<noteq> p \<longrightarrow> p_work_request (proj (compute_work_requests s) q) = 0)"
proof -
  define s3 where "s3 = rr_simulation (adjust_debts (compute_nuploading_results
    (s\<lparr>work_fetch_last_time := now s, must_check_work_fetch := False\<rparr>)))"
  note w3 = fetch_state_views [of s, folded s3_def]
  note d3 = sched_viewD(1) [OF w3(1)]
  have proj3: "projects s3 = projects s" by (rule status_viewD(2) [OF d3])
  have "\<And>q. q \<in> set (projects s3) \<Longrightarrow> p_non_cpu_intensive (proj s3 q) \<Longrightarrow> nci_idle s3 q"
    using assms(2) by (simp add: proj3 status_viewD(11) [OF d3] nci_idle_view [OF d3])
  from urgency_loop_all_idle [of "projects s3" s3 False False, OF this]
  obtain s4 a b where L: "urgency_loop (projects s3) (s3, False, False) = Inr (s4, a, b)"
    "sched_view s4 = sched_view s3"
    "\<And>q. request_view s4 q = (if q \<in> set (projects s3) then (0, WORK_FETCH_DONT_NEED) else request_view s3 q)"
    by blast
  define s5 where "s5 = s4\<lparr>overall_work_fetch_urgency := overall_urgency s4 a b\<rparr>"
  have "sched_view s5 = sched_view s4" by (simp add: s5_def sched_view_def status_view_def)
  then have v: "sched_view s5 = sched_view s" using L(2) w3(1) by simp
  note d = sched_viewD(1) [OF v]
  have zero: "\<And>q. q \<in> set (projects s5) \<Longrightarrow> p_work_request (proj s5 q) = 0"
  proof -
    fix q assume "q \<in> set (projects s5)"
    then have "request_view s4 q = (0, WORK_FETCH_DONT_NEED)"
      using L(3) proj3 by (simp add: status_viewD(2) [OF d])
    then show "p_work_request (proj s5 q) = 0" by (simp add: request_view_def s5_def)
  qed
  have e: "compute_work_requests s = s5 \<or> compute_work_requests s = request_from_best s5"
    using assms(1) L(1)
    by (auto simp: compute_work_requests_def Let_def s3_def [symmetric] s5_def request_work_fetch_def)
  have p5: "p \<in> set (projects s5)" using assms(3) by (simp add: status_viewD(2) [OF d])
  then have cr: "compute_work_requests s = request_from_best s5" using e zero assms(4) by auto
  note b = request_from_best_requests [OF zero p5]
  have best: "fold (fetch_consider s5) (projects s5) None = Some p" using b assms(4) cr by simp
  have q: "p_work_request (proj (request_from_best s5) q) = 0" if "q \<in> set (projects s)" "q \<noteq> p" for q
    using request_from_best_requests(1) [OF zero, of q] best that by (auto simp: status_viewD(2) [OF d])
  have "work_buf_total s5 = work_buf_total s" "ncpus s5 = ncpus s"
    by (simp_all add: work_buf_total_def work_buf_min_def work_buf_additional_def sched_viewD [OF v])
  then show ?thesis
    using fetch_fold [OF best] q b(2) assms(4) cr fetch_amount_bound [of s5 p]
    by (auto simp: fetch_ruled_out_def Let_def status_view_preds [OF d] status_viewD(11) [OF d])
qed

text \<open>The first non-CPU-intensive project that needs work ends the computation: it gets a
  request of one second, while the projects after it, non-CPU-intensive ones in need of work
  among them, keep the request they had.\<close>

theorem nci_request_ends_computation:
  assumes "must_check_work_fetch s" "projects s = xs @ p # ys" "q \<notin> set xs" "q \<noteq> p"
    and "\<forall>x \<in> set xs. p_non_cpu_intensive (proj s x) \<longrightarrow> nci_idle s x"
    and "p_non_cpu_intensive (proj s p)" "\<not> nci_idle s p"
  shows "p_work_request (proj (compute_work_requests s) p) = 1
    \<and> p_work_request (proj (compute_work_requests s) q) = p_work_request (proj s q)"
proof -
  define s3 where "s3 = rr_simulation (adjust_debts (compute_nuploading_results
    (s\<lparr>work_fetch_last_time := now s, must_check_work_fetch := False\<rparr>)))"
  note w3 = fetch_state_views [of s, folded s3_def]
  note d3 = sched_viewD(1) [OF w3(1)]
  note D = status_viewD(2,11) [OF d3] nci_idle_view [OF d3]
  obtain s' where L: "urgency_loop (xs @ p # ys) (s3, False, False) = Inl s'"
    "\<And>q. request_view s' q = (if q = p then (1, WORK_FETCH_NEED_IMMEDIATELY)
          else if q \<in> set xs then (0, WORK_FETCH_DONT_NEED) else request_view s3 q)"
    using urgency_loop_stops [of xs s3 p ys False False] assms(5-7) by (auto simp: D)
  have "compute_work_requests s = s'"
    using assms(1,2) L(1) D(1)
    by (simp add: compute_work_requests_def Let_def s3_def [symmetric] request_work_fetch_def)
  then show ?thesis
    using L(2) [of p] L(2) [of q] assms(3,4) fun_cong [OF w3(2), of q] by (simp add: request_view_def)
qed

lemma need_work_fold:
  "fold (need_work_consider s) ps None = Some p \<Longrightarrow>
   p \<in> set ps \<and> contactable s p \<and> p_work_request (proj s p) \<noteq> 0
   \<and> p_work_request_urgency (proj s p) \<noteq> WORK_FETCH_DONT_NEED"
proof -
  have "case fold (need_work_consider s) ps None of None \<Rightarrow> True
    | Some p \<Rightarrow> p \<in> set ps \<and> contactable s p \<and> p_work_request (proj s p) \<noteq> 0
        \<and> p_work_request_urgency (proj s p) \<noteq> WORK_FETCH_DONT_NEED"
    by (rule fold_preserves [where P = "\<lambda>b. case b of None \<Rightarrow> True
          | Some p \<Rightarrow> p \<in> set ps \<and> contactable s p \<and> p_work_request (proj s p) \<noteq> 0
              \<and> p_work_request_urgency (proj s p) \<noteq> WORK_FETCH_DONT_NEED"])
      (auto simp: need_work_consider_def Let_def split: option.splits)
  then show "fold (need_work_consider s) ps None = Some p \<Longrightarrow>
   p \<in> set ps \<and> contactable s p \<and> p_work_request (proj s p) \<noteq> 0
   \<and> p_work_request_urgency (proj s p) \<noteq> WORK_FETCH_DONT_NEED" by simp
qed

text \<open>The project that \<open>next_project_need_work\<close> picks may be contacted, and the request it will
  send asks for a positive amount of work.\<close>

theorem next_project_need_work_positive:
  assumes "next_project_need_work s = (Some p, s')"
  shows "p \<in> set (projects s) \<and> contactable s p \<and> p_work_request (proj s' p) > 0
    \<and> p_work_request_urgency (proj s p) \<noteq> WORK_FETCH_DONT_NEED"
  using assms need_work_fold [of s "projects s" p]
  by (auto simp: next_project_need_work_def upd_proj_def split: option.splits if_splits)

definition hungry :: CLIENT_STATE where
  "hungry = sample_state\<lparr>results := [], must_check_work_fetch := True, debt_interval_start := 1000\<rparr>"

lemmas simulation_defs =
  rr_simulation_def rr_finish_def rr_start_def upd_rs_def upd_proj_def rr_init_project_def
  set_rrsim_proc_rate_def rs_none_active_def rs_clear_def work_buf_total_def work_buf_min_def
  work_buf_additional_def nearly_runnable_resource_share_def total_resource_share_def nearly_runnable_def
  project_runnable_def project_downloading_def overall_cpu_frac_def

lemma hungry_request: "p_work_request (proj (compute_work_requests hungry) 0) \<noteq> 0"
  by (simp add: hungry_def sample_defs compute_work_requests_def Let_def request_work_fetch_def
      compute_nuploading_results_def adjust_debts_def simulation_defs set_request_def overall_urgency_def
      no_work_for_a_cpu_def cpu_scheduling_period_def request_from_best_def fetch_consider_def
      fetch_ruled_out_def contactable_def project_some_download_stalled_def some_result_suspended_def
      overworked_def fetch_amount_def fetch_urgency_def fetchable_resource_share_def)

theorem one_work_request_witness:
  "contactable hungry 0
   \<and> p_work_request (proj (compute_work_requests hungry) 0) \<le> 101/100 * work_buf_total hungry * 2"
  using one_work_request [of hungry 0] hungry_request by (simp add: hungry_def sample_defs)

theorem next_project_need_work_positive_witness:
  "contactable (set_request 5 WORK_FETCH_NEED_IMMEDIATELY 0
     (sample_state\<lparr>overall_work_fetch_urgency := WORK_FETCH_NEED\<rparr>)) 0"
proof -
  let ?s = "set_request 5 WORK_FETCH_NEED_IMMEDIATELY 0 (sample_state\<lparr>overall_work_fetch_urgency := WORK_FETCH_NEED\<rparr>)"
  have "next_project_need_work ?s = (Some 0, ?s)"
    by (simp add: next_project_need_work_def need_work_consider_def Let_def set_request_def upd_proj_def
        sample_defs contactable_def)
  from next_project_need_work_positive [OF this] show ?thesis by blast
qed

definition two_nci :: CLIENT_STATE where
  "two_nci = hungry\<lparr>projects := [0, 1], proj := (\<lambda>_. sample_project\<lparr>p_non_cpu_intensive := True\<rparr>)\<rparr>"

theorem nci_request_ends_computation_witness:
  "p_work_request (proj (compute_work_requests two_nci) 0) = 1
   \<and> p_work_request (proj (compute_work_requests two_nci) 1) = 0 \<and> \<not> nci_idle two_nci 1"
proof -
  have idle: "\<not> nci_idle two_nci 0" "\<not> nci_idle two_nci 1"
    by (simp_all add: nci_idle_def two_nci_def hungry_def sample_defs nearly_runnable_def project_runnable_def
        project_downloading_def contactable_def some_result_suspended_def)
  have "p_work_request (proj two_nci 1) = 0" "must_check_work_fetch two_nci" "projects two_nci = [] @ 0 # [1]"
    "p_non_cpu_intensive (proj two_nci 0)"
    by (simp_all add: two_nci_def hungry_def sample_defs)
  then show ?thesis
    using nci_request_ends_computation [of two_nci "[]" 0 "[1]" 1] idle by simp
qed

end
