(* ===== verification/File_Verify.thy ===== *)
theory File_Verify
  imports Backoff
begin

text \<open>
  Checking the files on disk: \<open>FILE_INFO::verify_file\<close> and
  \<open>CLIENT_STATE::check_file_existence\<close> (\<open>client/cs_files.C\<close>), \<open>is_image_file\<close>
  (\<open>client/file_names.C\<close>) and \<open>CLIENT_STATE::input_files_available\<close> (\<open>client/cs_apps.C\<close>).
\<close>

section \<open>File names\<close>

definition tolower :: "char \<Rightarrow> char" where
  "tolower c = (let n = (of_char c :: nat) in if 65 \<le> n \<and> n \<le> 90 then char_of (n + 32) else c)"

definition downcase_string :: "string \<Rightarrow> string" where
  "downcase_string w = map tolower w"

definition ends_with :: "string \<Rightarrow> string \<Rightarrow> bool" where
  "ends_with s suffix = (length s \<ge> length suffix \<and> drop (length s - length suffix) s = suffix)"

definition is_image_file :: "string \<Rightarrow> bool" where
  "is_image_file filename =
     (let f = downcase_string filename
      in ends_with f ''.jpg'' \<or> ends_with f ''.jpeg'' \<or> ends_with f ''.png'')"

section \<open>One file\<close>

text \<open>
  What the file system and the cryptographic routines answer about a file: its size (\<open>None\<close>: it
  cannot be read), the return value and the verdict of \<open>verify_file2\<close> on a signature with a key,
  and the return value and the digest of \<open>md5_file\<close>.
\<close>

record DISK =
  dk_file_size :: "fid \<Rightarrow> real option"
  dk_verify_file2 :: "fid \<Rightarrow> string \<Rightarrow> string \<Rightarrow> int \<times> bool"
  dk_md5_file :: "fid \<Rightarrow> int \<times> string"

definition fail_file :: "fid \<Rightarrow> int \<Rightarrow> string \<Rightarrow> CLIENT_STATE \<Rightarrow> int \<times> CLIENT_STATE" where
  "fail_file f code msg s = (code, upd_finfo f (\<lambda>x. x\<lparr>fi_error_msg := msg, fi_status := code\<rparr>) s)"

definition check_signature :: "DISK \<Rightarrow> bool \<Rightarrow> fid \<Rightarrow> CLIENT_STATE \<Rightarrow> int \<times> CLIENT_STATE" where
  "check_signature dk show_errors f s =
     (let x = finfo s f in
      if fi_file_signature x = [] then fail_file f ERR_NO_SIGNATURE ''missing signature'' s
      else case dk_verify_file2 dk f (fi_file_signature x) (p_code_sign_key (proj s (fi_project x))) of
        (retval, verified) \<Rightarrow>
          if retval \<noteq> 0 then fail_file f ERR_RSA_FAILED ''signature verification error'' s
          else if \<not> verified \<and> show_errors
          then fail_file f ERR_RSA_FAILED ''signature verification failed'' s
          else (0, s))"

definition check_md5 :: "DISK \<Rightarrow> fid \<Rightarrow> CLIENT_STATE \<Rightarrow> int \<times> CLIENT_STATE" where
  "check_md5 dk f s =
     (case dk_md5_file dk f of (retval, cksum) \<Rightarrow>
        if retval \<noteq> 0 then fail_file f retval ''MD5 computation error'' s
        else if cksum \<noteq> fi_md5_cksum (finfo s f) then fail_file f ERR_MD5_FAILED ''MD5 check failed'' s
        else (0, s))"

definition verify_file :: "DISK \<Rightarrow> bool \<Rightarrow> bool \<Rightarrow> fid \<Rightarrow> CLIENT_STATE \<Rightarrow> int \<times> CLIENT_STATE" where
  "verify_file dk strict show_errors f s =
     (let x = finfo s f in
      case dk_file_size dk f of
        None \<Rightarrow> (ERR_FILE_MISSING, upd_finfo f (\<lambda>x. x\<lparr>fi_status := FILE_NOT_PRESENT\<rparr>) s)
      | Some sz \<Rightarrow>
          if gp_dont_verify_images (global_prefs s) \<and> is_image_file (fi_name x) \<and> sz > 0 then (0, s)
          else if fi_nbytes x \<noteq> 0 \<and> fi_nbytes x \<noteq> sz \<and> \<not> cf_dont_check_file_sizes (config s)
          then (ERR_WRONG_SIZE, upd_finfo f (\<lambda>x. x\<lparr>fi_status := ERR_WRONG_SIZE\<rparr>) s)
          else if \<not> strict then (0, s)
          else if fi_signature_required x then check_signature dk show_errors f s
          else if fi_md5_cksum x \<noteq> [] then check_md5 dk f s
          else (0, s))"

section \<open>The input files of a result\<close>

text \<open>
  \<open>input_files_available\<close>. The first argument of each loop says whether the caller collects the
  missing files (\<open>fip_set\<close> is not \<open>NULL\<close>); without it the first missing file ends the check. A
  file is given by its \<open>FILE_REF\<close> and whether it is to be verified when present. The result is
  the return value, the missing files and the state.
\<close>

fun files_available ::
  "DISK \<Rightarrow> bool \<Rightarrow> bool \<Rightarrow> (fid \<times> bool) list \<Rightarrow> int \<times> fid set \<times> CLIENT_STATE \<Rightarrow> bool \<times> int \<times> fid set \<times> CLIENT_STATE" where
  "files_available dk verify collect [] (result, missing, s) = (False, result, missing, s)"
| "files_available dk verify collect ((f, check) # fs) (result, missing, s) =
     (if fi_status (finfo s f) \<noteq> FILE_PRESENT
      then if collect then files_available dk verify collect fs (ERR_FILE_MISSING, insert f missing, s)
           else (True, ERR_FILE_MISSING, missing, s)
      else if check
      then case verify_file dk verify True f s of (retval, s1) \<Rightarrow>
             if retval = 0 then files_available dk verify collect fs (result, missing, s1)
             else if collect then files_available dk verify collect fs (retval, insert f missing, s1)
             else (True, retval, missing, s1)
      else files_available dk verify collect fs (result, missing, s))"

definition app_file_checks :: "CLIENT_STATE \<Rightarrow> rid \<Rightarrow> (fid \<times> bool) list" where
  "app_file_checks s r =
     map (\<lambda>fr. (fr_file_info fr, \<not> p_anonymous_platform (proj s (r_project (res s r)))))
       (av_app_files (appver s (r_avp (res s r))))"

definition input_file_checks :: "CLIENT_STATE \<Rightarrow> rid \<Rightarrow> (fid \<times> bool) list" where
  "input_file_checks s r =
     map (\<lambda>fr. (fr_file_info fr, True))
       (filter (\<lambda>fr. \<not> fi_generated_locally (finfo s (fr_file_info fr)))
          (wu_input_files (wunit s (r_wup (res s r)))))"

definition input_files_available ::
  "DISK \<Rightarrow> rid \<Rightarrow> bool \<Rightarrow> bool \<Rightarrow> CLIENT_STATE \<Rightarrow> int \<times> fid set \<times> CLIENT_STATE" where
  "input_files_available dk r verify collect s =
     (case files_available dk verify collect (app_file_checks s r) (0, {}, s) of
        (True, st) \<Rightarrow> st
      | (False, result, missing, s1) \<Rightarrow>
          snd (files_available dk verify collect (input_file_checks s1 r) (result, missing, s1)))"

section \<open>At startup\<close>

definition get_workunits :: "CLIENT_STATE \<Rightarrow> pid \<Rightarrow> wuid list" where
  "get_workunits s p = filter (\<lambda>w. wu_project (wunit s w) = p) (workunits s)"

definition check_file_existence :: "(fid \<Rightarrow> bool) \<Rightarrow> CLIENT_STATE \<Rightarrow> CLIENT_STATE" where
  "check_file_existence exists s = fold (\<lambda>f s.
     let x = finfo s f in
     if fi_status x = FILE_PRESENT \<and> \<not> exists f
     then let file_required = (get_workunits s (fi_project x) \<noteq> []
                \<or> (\<exists>fr \<in> set (p_project_files (proj s (fi_project x))). fr_file_info fr = f))
          in upd_finfo f (\<lambda>x. x\<lparr>fi_status :=
               (if file_required then FILE_NOT_PRESENT else FILE_NOT_PRESENT_NOT_NEEDED)\<rparr>) s
     else s) (file_infos s) s"

section \<open>What a successful check means\<close>

text \<open>
  \<open>authentic\<close>: the file is there and has the announced size; when its signature is required it has
  one that verifies, otherwise its MD5 sum is the announced one. Preferences exempt images that
  are not empty, and the configuration can waive the size.
\<close>

definition authentic :: "DISK \<Rightarrow> CLIENT_STATE \<Rightarrow> fid \<Rightarrow> bool" where
  "authentic dk s f =
     (let x = finfo s f in
      case dk_file_size dk f of
        None \<Rightarrow> False
      | Some sz \<Rightarrow>
          gp_dont_verify_images (global_prefs s) \<and> is_image_file (fi_name x) \<and> sz > 0
          \<or> (fi_nbytes x = 0 \<or> fi_nbytes x = sz \<or> cf_dont_check_file_sizes (config s))
            \<and> (if fi_signature_required x
                then fi_file_signature x \<noteq> []
                  \<and> dk_verify_file2 dk f (fi_file_signature x) (p_code_sign_key (proj s (fi_project x))) = (0, True)
                else fi_md5_cksum x = [] \<or> dk_md5_file dk f = (0, fi_md5_cksum x)))"

text \<open>The status of a file that the check rejects becomes a failure, or calls for a new download.\<close>

lemma check_signature_iff:
  "fst (check_signature dk True f s) = 0 \<longleftrightarrow> fi_file_signature (finfo s f) \<noteq> []
    \<and> dk_verify_file2 dk f (fi_file_signature (finfo s f))
        (p_code_sign_key (proj s (fi_project (finfo s f)))) = (0, True)"
  by (cases "dk_verify_file2 dk f (fi_file_signature (finfo s f))
        (p_code_sign_key (proj s (fi_project (finfo s f))))")
    (simp add: check_signature_def fail_file_def Let_def)

lemma check_md5_iff:
  "fst (check_md5 dk f s) = 0 \<longleftrightarrow> dk_md5_file dk f = (0, fi_md5_cksum (finfo s f))"
  by (cases "dk_md5_file dk f") (simp add: check_md5_def fail_file_def)

lemma check_frame:
  "fst (check_signature dk show_errors f s) = 0 \<Longrightarrow> snd (check_signature dk show_errors f s) = s"
  "fst (check_md5 dk f s) = 0 \<Longrightarrow> snd (check_md5 dk f s) = s"
  by (auto simp: check_signature_def check_md5_def fail_file_def Let_def split: prod.splits if_splits)

lemma verify_file_iff: "fst (verify_file dk True True f s) = 0 \<longleftrightarrow> authentic dk s f"
proof (cases "dk_file_size dk f")
  case None
  then show ?thesis by (simp add: verify_file_def authentic_def)
next
  case (Some sz)
  define image where "image = (gp_dont_verify_images (global_prefs s) \<and> is_image_file (fi_name (finfo s f)) \<and> sz > 0)"
  define good where "good = (fi_nbytes (finfo s f) = 0 \<or> fi_nbytes (finfo s f) = sz \<or> cf_dont_check_file_sizes (config s))"
  have "fst (verify_file dk True True f s) = (if image then 0 else if \<not> good then ERR_WRONG_SIZE
      else if fi_signature_required (finfo s f) then fst (check_signature dk True f s)
      else if fi_md5_cksum (finfo s f) \<noteq> [] then fst (check_md5 dk f s) else 0)"
    using Some by (simp add: verify_file_def Let_def image_def good_def)
  moreover have "authentic dk s f = (image \<or> good \<and> (if fi_signature_required (finfo s f)
      then fst (check_signature dk True f s) = 0
      else fi_md5_cksum (finfo s f) = [] \<or> fst (check_md5 dk f s) = 0))"
    using Some unfolding authentic_def Let_def check_signature_iff check_md5_iff image_def good_def by simp
  ultimately show ?thesis by simp
qed

lemma verify_file_frame:
  assumes "fst (verify_file dk strict show_errors f s) = 0"
  shows "snd (verify_file dk strict show_errors f s) = s"
  using assms check_frame(1) [of dk show_errors f s] check_frame(2) [of dk f s]
  by (auto simp: verify_file_def Let_def split: option.splits if_splits)

text \<open>Whatever the outcome, only the record of the file itself is written.\<close>

lemma check_state:
  "\<exists>g. snd (check_signature dk show_errors f s) = s\<lparr>finfo := g\<rparr>"
  "\<exists>g. snd (check_md5 dk f s) = s\<lparr>finfo := g\<rparr>"
proof -
  have fail: "\<exists>g. snd (fail_file f code msg s) = s\<lparr>finfo := g\<rparr>" for code msg
    by (auto simp: fail_file_def upd_defs)
  have same: "\<exists>g. s = s\<lparr>finfo := g\<rparr>" by (rule exI [of _ "finfo s"]) simp
  show "\<exists>g. snd (check_signature dk show_errors f s) = s\<lparr>finfo := g\<rparr>"
    "\<exists>g. snd (check_md5 dk f s) = s\<lparr>finfo := g\<rparr>"
    using fail same by (simp_all add: check_signature_def check_md5_def Let_def split: prod.split)
qed

lemma verify_file_state: "\<exists>g. snd (verify_file dk strict show_errors f s) = s\<lparr>finfo := g\<rparr>"
proof -
  have same: "\<exists>g. s = s\<lparr>finfo := g\<rparr>" by (rule exI [of _ "finfo s"]) simp
  have upd: "\<exists>g. upd_finfo f h s = s\<lparr>finfo := g\<rparr>" for h by (auto simp: upd_defs)
  show ?thesis
    using check_state(1) [of dk show_errors f s] check_state(2) [of dk f s] same upd
    by (simp add: verify_file_def Let_def split: option.split)
qed

lemma files_available_ok:
  assumes "files_available dk verify True fs (result, missing, s) = (b, 0, missing', s')"
  shows "result = 0 \<and> b = False \<and> missing' = missing \<and> s' = s
    \<and> (\<forall>(f, check) \<in> set fs. fi_status (finfo s f) = FILE_PRESENT \<and> (check \<longrightarrow> fst (verify_file dk verify True f s) = 0))"
  using assms
proof (induction fs arbitrary: result missing s)
  case Nil
  then show ?case by simp
next
  case (Cons fc fs)
  obtain f check where fc: "fc = (f, check)" by (cases fc)
  obtain retval s1 where v: "verify_file dk verify True f s = (retval, s1)" by (cases "verify_file dk verify True f s")
  have clean: "retval = 0 \<Longrightarrow> s1 = s" using verify_file_frame [of dk verify True f s] v by simp
  have bad: "e \<noteq> 0 \<Longrightarrow> files_available dk verify True fs (e, m, t) \<noteq> (b, 0, missing', s')" for e m t
    using Cons.IH [of e m t] by blast
  show ?case
  proof (cases "fi_status (finfo s f) = FILE_PRESENT")
    case False
    then show ?thesis using Cons.prems fc bad [of ERR_FILE_MISSING "insert f missing" s] by simp
  next
    case present: True
    have ok: "\<not> check \<or> retval = 0"
      using Cons.prems fc present v bad [of retval "insert f missing" s1] by (auto split: if_splits)
    then have "files_available dk verify True fs (result, missing, s) = (b, 0, missing', s')"
      using Cons.prems fc present v clean by (cases check) simp_all
    from Cons.IH [OF this] show ?thesis using fc present ok v by auto
  qed
qed

text \<open>The files a result needs, as the two loops of \<open>input_files_available\<close> visit them.\<close>

definition needed_files_ok :: "DISK \<Rightarrow> bool \<Rightarrow> rid \<Rightarrow> CLIENT_STATE \<Rightarrow> bool" where
  "needed_files_ok dk verify r s = (\<forall>(f, check) \<in> set (app_file_checks s r @ input_file_checks s r).
     fi_status (finfo s f) = FILE_PRESENT \<and> (check \<longrightarrow> fst (verify_file dk verify True f s) = 0))"

lemma input_files_available_ok:
  assumes "input_files_available dk r verify True s = (0, missing, s')"
  shows "missing = {} \<and> s' = s \<and> needed_files_ok dk verify r s"
proof -
  obtain b e m t where a: "files_available dk verify True (app_file_checks s r) (0, {}, s) = (b, e, m, t)"
    by (metis prod_cases4)
  obtain b2 e2 m2 t2 where i: "files_available dk verify True (input_file_checks t r) (e, m, t) = (b2, e2, m2, t2)"
    by (metis prod_cases4)
  show ?thesis
  proof (cases b)
    case True
    then have "e = 0" using assms a by (simp add: input_files_available_def)
    then show ?thesis using files_available_ok a True by blast
  next
    case False
    then have r2: "e2 = 0" "m2 = missing" "t2 = s'" using assms a i by (simp_all add: input_files_available_def)
    note 1 = files_available_ok [OF i [unfolded r2]]
    then have "e = 0" by blast
    note 2 = files_available_ok [OF a [unfolded this]]
    show ?thesis using 1 2 by (auto simp: needed_files_ok_def)
  qed
qed

text \<open>C13: \<open>input_files_available\<close> with verification, as \<open>ACTIVE_TASK::start\<close> calls it, returns zero
  only if every file of the application version and every input file of the workunit that is not
  generated locally is present and authentic (for an anonymous platform the application's files
  are only required to be present); then nothing is reported missing and the state is unchanged.\<close>
theorem input_files_available_sound:
  assumes "input_files_available dk r True True s = (0, missing, s')"
  shows "missing = {} \<and> s' = s
    \<and> (\<forall>fr \<in> set (av_app_files (appver s (r_avp (res s r)))).
          fi_status (finfo s (fr_file_info fr)) = FILE_PRESENT
          \<and> (\<not> p_anonymous_platform (proj s (r_project (res s r))) \<longrightarrow> authentic dk s (fr_file_info fr)))
    \<and> (\<forall>fr \<in> set (wu_input_files (wunit s (r_wup (res s r)))).
          \<not> fi_generated_locally (finfo s (fr_file_info fr)) \<longrightarrow>
          fi_status (finfo s (fr_file_info fr)) = FILE_PRESENT \<and> authentic dk s (fr_file_info fr))"
  using input_files_available_ok [OF assms]
  by (auto simp: needed_files_ok_def app_file_checks_def input_file_checks_def verify_file_iff)

definition sample_disk :: DISK where
  "sample_disk = \<lparr>dk_file_size = (\<lambda>_. Some 10), dk_verify_file2 = (\<lambda>_ sig key. (0, sig = key)),
     dk_md5_file = (\<lambda>_. (0, ''d41d''))\<rparr>"

definition checked_state :: CLIENT_STATE where
  "checked_state = sample_state\<lparr>
     finfo := (\<lambda>_. sample_file_info\<lparr>fi_status := FILE_PRESENT, fi_nbytes := 10, fi_md5_cksum := ''d41d''\<rparr>),
     wunit := (\<lambda>_. (wunit sample_state 0)\<lparr>wu_input_files := [\<lparr>fr_file_name = ''in'', fr_open_name = ''in'',
       fr_main_program = False, fr_file_info = 7, fr_copy_file = False, fr_optional = False\<rparr>]\<rparr>)\<rparr>"

lemma checked_state_ok: "input_files_available sample_disk 0 True True checked_state = (0, {}, checked_state)"
  by (simp add: input_files_available_def app_file_checks_def input_file_checks_def checked_state_def
      sample_disk_def sample_defs verify_file_def check_md5_def)

theorem input_files_available_sound_witness:
  "input_files_available sample_disk 0 True True checked_state = (0, {}, checked_state)
   \<and> authentic sample_disk checked_state 7"
  using input_files_available_sound [OF checked_state_ok] checked_state_ok
  by (simp add: checked_state_def sample_defs)

text \<open>C25: The check that precedes a download, \<open>verify_file(true, false)\<close>, accepts a file whose
  required signature was examined and found wrong, as long as the size is right: the failed
  signature counts only when errors are shown.\<close>
theorem quiet_check_accepts_bad_signature:
  assumes "dk_file_size dk f = Some (fi_nbytes (finfo s f))" "fi_signature_required (finfo s f)"
    "fi_file_signature (finfo s f) \<noteq> []"
    "dk_verify_file2 dk f (fi_file_signature (finfo s f))
       (p_code_sign_key (proj s (fi_project (finfo s f)))) = (0, False)"
    "\<not> gp_dont_verify_images (global_prefs s)"
  shows "verify_file dk True False f s = (0, s) \<and> fst (verify_file dk True True f s) = ERR_RSA_FAILED
    \<and> \<not> authentic dk s f"
  using assms by (simp add: verify_file_def check_signature_def authentic_def fail_file_def Let_def)

theorem quiet_check_accepts_bad_signature_witness:
  "verify_file sample_disk True False 3
     (sample_state\<lparr>finfo := (\<lambda>_. sample_file_info\<lparr>fi_nbytes := 10, fi_signature_required := True,
        fi_file_signature := ''forged''\<rparr>)\<rparr>)
   = (0, sample_state\<lparr>finfo := (\<lambda>_. sample_file_info\<lparr>fi_nbytes := 10, fi_signature_required := True,
        fi_file_signature := ''forged''\<rparr>)\<rparr>)"
  using quiet_check_accepts_bad_signature [of sample_disk 3
     "sample_state\<lparr>finfo := (\<lambda>_. sample_file_info\<lparr>fi_nbytes := 10, fi_signature_required := True,
        fi_file_signature := ''forged''\<rparr>)\<rparr>"]
  by (simp add: sample_disk_def sample_defs)

end
