(* ===== verification/Boinc_Error.thy ===== *)
theory Boinc_Error
  imports File_Info
begin

text \<open>
  \<open>boincerror\<close> of \<open>lib/str_util.C\<close>: the text of an error number. The entries are the cases of the
  \<open>switch\<close> in the order of the source, with the numbers of \<open>lib/error_numbers.h\<close>.
\<close>

definition boinc_messages :: "(int \<times> string) list" where
  "boinc_messages =
    [(0, ''Success''),
     (-100, ''select() failed''),
     (-101, ''malloc() failed''),
     (-102, ''read() failed''),
     (-103, ''write() failed''),
     (-104, ''fread() failed''),
     (-105, ''fwrite() failed''),
     (-106, ''system I/O error''),
     (-107, ''connect() failed''),
     (-108, ''fopen() failed''),
     (-109, ''rename() failed''),
     (-110, ''unlink() failed''),
     (-111, ''opendir() failed''),
     (-112, ''unexpected XML tag or syntax''),
     (-113, ''can't resolve hostname''),
     (-114, ''file download timed out''),
     (-115, ''file upload timed out''),
     (-116, ''unexpected null pointer''),
     (-117, ''unexpected negative value''),
     (-118, ''buffer overflow''),
     (-119, ''md5 checksum failed for file''),
     (-120, ''RSA key check failed for file''),
     (-121, ''open() failed''),
     (-122, ''dup() failed''),
     (-123, ''no signature''),
     (-124, ''thread failure''),
     (-125, ''caught signal''),
     (-127, ''transient upload error''),
     (-128, ''permanent upload error''),
     (-129, ''user preferences say can't start work''),
     (-130, ''already attached to project''),
     (-131, ''file size too big''),
     (-132, ''getrusage() failed''),
     (-133, ''benchmark failed''),
     (-134, ''hex format key data bad''),
     (-136, ''no database rows found in lookup/enumerate''),
     (-137, ''database lookup not unique''),
     (-138, ''can't connect to database''),
     (-139, ''gets()/fgets() failedj''),
     (-140, ''scanf()/fscanf() failed''),
     (-143, ''readdir() failed''),
     (-144, ''shmget() failed''),
     (-145, ''shmctl() failed''),
     (-146, ''shmat() failed''),
     (-147, ''fork() failed''),
     (-148, ''exec() failed''),
     (-149, ''process didn't exit''),
     (-150, ''system call not implemented''),
     (-151, ''gethostname() failed''),
     (-152, ''netopen() failed''),
     (-153, ''socket() failed''),
     (-154, ''fcntl() failed''),
     (-155, ''authentication error''),
     (-156, ''scheduler shared memory contents bad''),
     (-157, ''async select() failed''),
     (-158, ''bad result state''),
     (-159, ''can't init database''),
     (-160, ''state files have redundant entries''),
     (-161, ''not found''),
     (-162, ''no exit status in scheduler request''),
     (-163, ''file missing''),
     (-165, ''semget() failed''),
     (-166, ''semctl() failed''),
     (-167, ''semop() failed''),
     (-168, ''ftok() failed''),
     (-169, ''SOCKS: unknown error''),
     (-170, ''SOCKS: request failed''),
     (-171, ''SOCKS: bad user password''),
     (-172, ''SOCKS: unknown server version''),
     (-173, ''SOCKS: unsupported''),
     (-174, ''SOCKS: can't reach host''),
     (-175, ''SOCKS: connection refused''),
     (-176, ''timer init''),
     (-177, ''resource limit exceeded''),
     (-178, ''invalid parameter''),
     (-179, ''signal op''),
     (-180, ''bind() failed''),
     (-181, ''listen() failed''),
     (-182, ''timeout''),
     (-183, ''project down''),
     (-184, ''HTTP error''),
     (-185, ''result start failed''),
     (-186, ''result download failed''),
     (-187, ''result upload failed''),
     (-189, ''invalid URL''),
     (-190, ''bad major version''),
     (-191, ''no option''),
     (-192, ''mkdir() failed''),
     (-193, ''invalid event''),
     (-194, ''already running''),
     (-195, ''no app version''),
     (-196, ''user already did result for this workunit''),
     (-197, ''result aborted via GUI''),
     (-198, ''insufficient resources''),
     (-199, ''retry''),
     (-200, ''wrong size''),
     (-201, ''user permission''),
     (-205, ''bad email address''),
     (-206, ''bad password''),
     (-202, ''can't get shared mem segment name''),
     (-203, ''no available network connection''),
     (-204, ''operation in progress''),
     (-208, ''account creation disabled''),
     (-209, ''Couldn't start master page download''),
     (-210, ''Couldn't download master page''),
     (-211, ''Couldn't parse master page''),
     (-212, ''Invalid account key''),
     (-213, ''Couldn't write account file''),
     (-216, ''fflush() failed''),
     (-217, ''fsync() failed''),
     (-218, ''truncate() failed''),
     (-221, ''Aborted by project''),
     (-222, ''getgrnam() failed''),
     (-223, ''chown() failed''),
     (-224, ''file not found''),
     (-225, ''file name is empty or has '..'' @ [CHR 0x27]),
     (-226, ''application exited too many times''),
     (-227, ''rmdir() failed''),
     (-229, ''symlink() failed''),
     (-230, ''DB connection lost during enumeration''),
     (-231, ''encryption error''),
     (-233, ''job is unstarted and past deadline''),
     (404, ''HTTP file not found''),
     (407, ''HTTP proxy authentication failure''),
     (416, ''HTTP range request error''),
     (500, ''HTTP internal server error''),
     (501, ''HTTP not implemented''),
     (502, ''HTTP bad gateway''),
     (503, ''HTTP service unavailable''),
     (504, ''HTTP gateway timeout'')]"

definition boincerror :: "int \<Rightarrow> string" where
  "boincerror which_error =
     (case map_of boinc_messages which_error of
        Some m \<Rightarrow> m
      | None \<Rightarrow> ''Error '' @ string_of_int which_error)"

end
