(* ===== verification/File_Transfer.thy ===== *)
theory File_Transfer
  imports File_Verify Boinc_Error App_Task
begin

text \<open>
  File transfers: \<open>client/pers_file_xfer.C\<close> (the long-term effort to move one file),
  \<open>client/file_xfer.C\<close> (one HTTP operation of it), and the parts of \<open>client/cs_files.C\<close> that
  start and finish transfers. libcurl and the file system are parameters, the records
  \<open>NET\<close> below and \<open>DISK\<close> of \<open>File_Verify\<close>.
\<close>

section \<open>Outcomes\<close>

text \<open>
  An operation either finishes with a value and a state, or it does not: the code dereferences a
  \<open>NULL\<close> pointer, loops forever while choosing a URL, or calls \<open>exit\<close>.
\<close>

datatype xfer_error = Null_Deref | Never_Returns | Exits

type_synonym 'a xfer = "xfer_error + 'a"

definition andThen :: "'a xfer \<Rightarrow> ('a \<Rightarrow> 'b xfer) \<Rightarrow> 'b xfer" where
  "andThen m k = (case m of Inl e \<Rightarrow> Inl e | Inr x \<Rightarrow> k x)"

lemma andThen_simps [simp]: "andThen (Inl e) k = Inl e" "andThen (Inr x) k = k x"
  by (simp_all add: andThen_def)

lemma andThen_Inr: "andThen m k = Inr y \<longleftrightarrow> (\<exists>x. m = Inr x \<and> k x = Inr y)"
  by (cases m) auto

text \<open>
  What libcurl and the file system answer: the return value of \<open>libcurl_exec\<close> for a transfer and
  a URL and whether it leaves a curl handle behind, and whether the status file for an application can be
  written. \<open>nt_app_init_file\<close> is the return value of \<open>write_app_init_file\<close>.
\<close>

record NET =
  nt_disk :: DISK
  nt_libcurl_exec :: "fxid \<Rightarrow> string \<Rightarrow> int \<times> bool"
  nt_status_file :: "aid \<Rightarrow> bool"
  nt_app_init_file :: "aid \<Rightarrow> int"

section \<open>One HTTP operation\<close>

definition FILE_XFER_new :: "FILE_XFER \<Rightarrow> FILE_XFER" where
  "FILE_XFER_new x = x\<lparr>fx_file_offset := 0, fx_http_op_state := HTTP_STATE_IDLE, fx_http_op_retval := 0,
     fx_is_active := False, fx_bytes_xferred := 0,
     fx_file_xfer_done := False, fx_file_xfer_retval := 0, fx_file_size_query := False\<rparr>"

text \<open>
  \<open>init_get\<close> and \<open>init_post2\<close> (\<open>client/http_curl.C\<close>): both reset the operation, which frees the
  curl handle, and then start libcurl. The offset of a download is converted to \<open>int\<close>.
\<close>

definition init_get :: "NET \<Rightarrow> string \<Rightarrow> real \<Rightarrow> fxid \<Rightarrow> CLIENT_STATE \<Rightarrow> int \<times> CLIENT_STATE" where
  "init_get net url off x s =
     (case nt_libcurl_exec net x url of (retval, active) \<Rightarrow>
        (retval, upd_fxfer x (\<lambda>f. f\<lparr>fx_file_offset := off, fx_bytes_xferred := off,
           fx_http_op_state := HTTP_STATE_CONNECTING, fx_is_active := active\<rparr>) s))"

definition init_post2 :: "NET \<Rightarrow> string \<Rightarrow> real option \<Rightarrow> fxid \<Rightarrow> CLIENT_STATE \<Rightarrow> int \<times> CLIENT_STATE" where
  "init_post2 net url infile_offset x s =
     (let s1 = upd_fxfer x (\<lambda>f. f\<lparr>fx_bytes_xferred := 0, fx_is_active := False\<rparr>) s;
          start = (\<lambda>s. case nt_libcurl_exec net x url of (retval, active) \<Rightarrow>
             (retval, upd_fxfer x (\<lambda>f. f\<lparr>fx_http_op_state := HTTP_STATE_CONNECTING,
                fx_is_active := active\<rparr>) s))
      in case infile_offset of
           None \<Rightarrow> start s1
         | Some off \<Rightarrow>
             let s2 = upd_fxfer x (\<lambda>f. f\<lparr>fx_file_offset := off\<rparr>) s1
             in case dk_file_size (nt_disk net) (fx_fip (fxfer s2 x)) of
                  None \<Rightarrow> (ERR_NOT_FOUND, s2) | Some _ \<Rightarrow> start s2)"

definition current_url :: "bool \<Rightarrow> fid \<Rightarrow> CLIENT_STATE \<Rightarrow> (string option \<times> CLIENT_STATE) xfer" where
  "current_url is_upload f s =
     (case get_current_url is_upload (finfo s f) of
        None \<Rightarrow> Inl Never_Returns
      | Some (url, x) \<Rightarrow> Inr (url, upd_finfo f (\<lambda>_. x) s))"

definition init_download :: "NET \<Rightarrow> fid \<Rightarrow> fxid \<Rightarrow> CLIENT_STATE \<Rightarrow> (int \<times> CLIENT_STATE) xfer" where
  "init_download net f x s =
     (let sz = (case dk_file_size (nt_disk net) f of
                  None \<Rightarrow> 0 | Some z \<Rightarrow> if z \<ge> fi_nbytes (finfo s f) then 0 else z);
          s1 = upd_fxfer x (\<lambda>t. t\<lparr>fx_is_upload := False, fx_fip := f, fx_starting_size := sz,
                                  fx_bytes_xferred := sz\<rparr>) s
      in andThen (current_url False f s1) (\<lambda>(url, s2).
           case url of None \<Rightarrow> Inr (ERR_INVALID_URL, s2)
           | Some u \<Rightarrow> Inr (init_get net u (real_of_int (trunc_int sz)) x s2)))"

definition init_upload :: "NET \<Rightarrow> fid \<Rightarrow> fxid \<Rightarrow> CLIENT_STATE \<Rightarrow> (int \<times> CLIENT_STATE) xfer" where
  "init_upload net f x s =
     (let offset = fi_upload_offset (finfo s f);
          s1 = upd_fxfer x (\<lambda>t. t\<lparr>fx_fip := f, fx_is_upload := True,
                 fx_bytes_xferred := (if offset < 0 then 0 else offset),
                 fx_file_size_query := (offset < 0)\<rparr>) s
      in andThen (current_url True f s1) (\<lambda>(url, s2).
           case url of None \<Rightarrow> Inr (ERR_INVALID_URL, s2)
           | Some u \<Rightarrow> Inr (init_post2 net u (if offset < 0 then None else Some offset) x s2)))"

section \<open>The set of HTTP operations\<close>

text \<open>\<open>set_bandwidth_limits\<close>: the active transfers of one direction share its limit equally.\<close>

definition same_direction :: "CLIENT_STATE \<Rightarrow> bool \<Rightarrow> fxid \<Rightarrow> bool" where
  "same_direction s is_upload x = (fx_is_active (fxfer s x) \<and> fx_is_upload (fxfer s x) = is_upload)"

definition max_bytes_sec :: "CLIENT_STATE \<Rightarrow> bool \<Rightarrow> real" where
  "max_bytes_sec s is_upload =
     (if is_upload then gp_max_bytes_sec_up (global_prefs s) else gp_max_bytes_sec_down (global_prefs s))"

definition set_bandwidth_limits :: "bool \<Rightarrow> CLIENT_STATE \<Rightarrow> CLIENT_STATE" where
  "set_bandwidth_limits is_upload s =
     (if max_bytes_sec s is_upload = 0 then s
      else let n = length (filter (same_direction s is_upload) (file_xfers s)) in
        if n = 0 then s
        else let share = max_bytes_sec s is_upload / real n
          in fold (\<lambda>x s. if same_direction s is_upload x
                   then upd_fxfer x (\<lambda>f. f\<lparr>fx_speed_limit := share\<rparr>) s else s) (file_xfers s) s)"

text \<open>\<open>FILE_XFER_SET::insert\<close>; \<open>HTTP_OP_SET::insert\<close> always returns zero.\<close>

definition fxs_insert :: "fxid \<Rightarrow> CLIENT_STATE \<Rightarrow> int \<times> CLIENT_STATE" where
  "fxs_insert x s = (0, set_bandwidth_limits (fx_is_upload (fxfer s x)) (s\<lparr>file_xfers := file_xfers s @ [x]\<rparr>))"

definition fxs_remove :: "fxid \<Rightarrow> CLIENT_STATE \<Rightarrow> int \<times> CLIENT_STATE" where
  "fxs_remove x s =
     (if x \<in> set (file_xfers s)
      then (0, set_bandwidth_limits (fx_is_upload (fxfer s x)) (s\<lparr>file_xfers := remove1 x (file_xfers s)\<rparr>))
      else (ERR_NOT_FOUND, s))"

text \<open>The destructor \<open>~FILE_XFER\<close>: the file's persistent transfer forgets its operation.\<close>

definition delete_fxp :: "fxid \<Rightarrow> CLIENT_STATE \<Rightarrow> CLIENT_STATE" where
  "delete_fxp x s =
     (case fi_pers_file_xfer (finfo s (fx_fip (fxfer s x))) of
        None \<Rightarrow> s | Some k \<Rightarrow> upd_pxfer k (\<lambda>p. p\<lparr>pfx_fxp := None\<rparr>) s)"

definition check_active :: "CLIENT_STATE \<Rightarrow> (bool \<times> bool) \<times> CLIENT_STATE" where
  "check_active s =
     ((fx_up_active s \<or> (\<exists>x \<in> set (file_xfers s). fx_is_upload (fxfer s x)),
       fx_down_active s \<or> (\<exists>x \<in> set (file_xfers s). \<not> fx_is_upload (fxfer s x))),
      s\<lparr>fx_up_active := False, fx_down_active := False\<rparr>)"

section \<open>Finished HTTP operations\<close>

text \<open>
  What \<open>FILE_XFER_SET::poll\<close> learns from outside: the elements \<open>file_size\<close> and \<open>status\<close> of the upload
  handler's reply, if they are there, whether a file can be truncated, and whether the file and
  the temporary file can be opened to trim the file.
\<close>

record REPLY =
  rp_file_size :: "fxid \<Rightarrow> real option"
  rp_status :: "fxid \<Rightarrow> int option"
  rp_truncate :: "fid \<Rightarrow> bool"
  rp_fopen :: "fid \<Rightarrow> bool"
  rp_fopen_temp :: bool

type_synonym sizes = "fid \<Rightarrow> real option"

abbreviation MIN_DOWNLOAD_INCREMENT :: real where "MIN_DOWNLOAD_INCREMENT \<equiv> 5000"

definition parse_upload_response :: "REPLY \<Rightarrow> fxid \<Rightarrow> int \<times> real" where
  "parse_upload_response rp x =
     (case rp_status rp x of
        None \<Rightarrow> ERR_UPLOAD_TRANSIENT
      | Some n \<Rightarrow> if n = -1 then ERR_UPLOAD_PERMANENT else if n = 0 then 0 else ERR_UPLOAD_TRANSIENT,
      case rp_file_size rp x of None \<Rightarrow> -1 | Some n \<Rightarrow> n)"

definition set_retval :: "int \<Rightarrow> fxid \<Rightarrow> CLIENT_STATE \<Rightarrow> CLIENT_STATE" where
  "set_retval e x s = upd_fxfer x (\<lambda>f. f\<lparr>fx_file_xfer_retval := e\<rparr>) s"

text \<open>The answer to a query for the size of the file on the server: continue the upload there.\<close>

definition size_query_done :: "NET \<Rightarrow> fxid \<Rightarrow> CLIENT_STATE \<Rightarrow> CLIENT_STATE xfer" where
  "size_query_done net x s =
     (let f = fx_fip (fxfer s x) in
      if fx_file_xfer_retval (fxfer s x) \<noteq> 0
      then Inr (upd_finfo f (\<lambda>i. i\<lparr>fi_upload_offset := -1\<rparr>) s)
      else if fi_upload_offset (finfo s f) \<ge> fi_nbytes (finfo s f)
      then Inr (upd_fxfer x (\<lambda>t. t\<lparr>fx_file_xfer_done := True, fx_file_xfer_retval := 0\<rparr>) s)
      else andThen (init_upload net f x (upd_fxfer x (\<lambda>t. t\<lparr>fx_is_active := False\<rparr>) s)) (\<lambda>(retval, s1).
        if retval \<noteq> 0 then Inr (set_retval retval x s1)
        else case fxs_insert x (snd (fxs_remove x s1)) of (retval, s2) \<Rightarrow>
          if retval \<noteq> 0 then Inr (set_retval retval x s2)
          else Inr (upd_fxfer x (\<lambda>t. t\<lparr>fx_file_xfer_done := False, fx_file_xfer_retval := 0,
                                   fx_http_op_retval := 0\<rparr>) s2)))"

definition http_result :: "NET \<Rightarrow> REPLY \<Rightarrow> fxid \<Rightarrow> CLIENT_STATE \<Rightarrow> CLIENT_STATE xfer" where
  "http_result net rp x s =
     (let s1 = upd_fxfer x (\<lambda>f. f\<lparr>fx_file_xfer_done := True, fx_file_xfer_retval := fx_http_op_retval f\<rparr>) s;
          f = fx_fip (fxfer s1 x)
      in if fx_file_xfer_retval (fxfer s1 x) = 0
         then let s2 = (if fx_is_upload (fxfer s1 x)
                        then case parse_upload_response rp x of (status, nbytes) \<Rightarrow>
                          set_retval status x (upd_finfo f (\<lambda>i. i\<lparr>fi_upload_offset := nbytes\<rparr>) s1)
                        else s1)
              in if fx_file_size_query (fxfer s2 x) then size_query_done net x s2 else Inr s2
         else if fx_file_xfer_retval (fxfer s1 x) = HTTP_STATUS_RANGE_REQUEST_ERROR
         then Inr (upd_finfo f (\<lambda>i. i\<lparr>fi_error_msg := ''Local copy is at least as large as server copy''\<rparr>) s1)
         else Inr s1)"

text \<open>
  The download's file: what may be an error page at its end is cut off. The flag stands for
  \<open>continue\<close>, which leaves the rest of the loop body out.
\<close>

definition cut_tail :: "REPLY \<Rightarrow> CLIENT_STATE \<Rightarrow> fxid \<Rightarrow> sizes \<Rightarrow> bool \<times> sizes" where
  "cut_tail rp s x sizes =
     (let t = fxfer s x; f = fx_fip t;
          cut = (\<lambda>n. if rp_truncate rp f then sizes(f := Some n) else sizes)
      in case sizes f of
           None \<Rightarrow> (True, sizes)
         | Some sz \<Rightarrow>
             let diff = sz - fx_starting_size t in
             if fx_http_op_retval t = 0
             then if fi_nbytes (finfo s f) \<noteq> 0
                  then if sz = fi_nbytes (finfo s f) then (True, sizes)
                       else if diff > 0 \<and> diff < MIN_DOWNLOAD_INCREMENT
                       then (False, cut (fx_starting_size t)) else (False, sizes)
                  else (False, sizes)
             else (False, cut (fx_starting_size t + (if diff < MIN_DOWNLOAD_INCREMENT then 0
                                                     else diff - MIN_DOWNLOAD_INCREMENT))))"

text \<open>The server sent the whole file although only its end was asked for: drop the beginning.\<close>

definition trim_head :: "REPLY \<Rightarrow> fxid \<Rightarrow> sizes \<Rightarrow> CLIENT_STATE \<Rightarrow> sizes \<times> CLIENT_STATE" where
  "trim_head rp x sizes s =
     (let t = fxfer s x; f = fx_fip t in
      if fx_starting_size t \<noteq> 0 \<and> fx_response t = HTTP_STATUS_OK
      then case sizes f of
             None \<Rightarrow> (sizes, s)
           | Some sz \<Rightarrow>
               if sz > fi_nbytes (finfo s f)
               then if \<not> rp_fopen rp f \<or> \<not> rp_fopen_temp rp then (sizes, set_retval ERR_FOPEN x s)
                    else (sizes(f := Some (max 0 (sz - real_of_int (trunc_int (fx_starting_size t))))), s)
               else (sizes, s)
      else (sizes, s))"

definition fxs_poll_one :: "NET \<Rightarrow> REPLY \<Rightarrow> fxid \<Rightarrow> sizes \<times> CLIENT_STATE \<Rightarrow> (sizes \<times> CLIENT_STATE) xfer" where
  "fxs_poll_one net rp x st =
     (case st of (sizes, s) \<Rightarrow>
      if fx_http_op_state (fxfer s x) \<noteq> HTTP_STATE_DONE then Inr (sizes, s)
      else andThen (http_result net rp x s) (\<lambda>s1.
        if fx_is_upload (fxfer s1 x) then Inr (sizes, s1)
        else case cut_tail rp s1 x sizes of
               (skip, sizes1) \<Rightarrow> Inr (if skip then (sizes1, s1) else trim_head rp x sizes1 s1)))"

text \<open>
  The loop goes over the operations that are in the set when it starts: an upload that continues
  is moved to the end of the vector, and when the loop reaches it there it is connecting and
  passed over.
\<close>

fun fxs_poll_all :: "NET \<Rightarrow> REPLY \<Rightarrow> fxid list \<Rightarrow> sizes \<times> CLIENT_STATE \<Rightarrow> (sizes \<times> CLIENT_STATE) xfer" where
  "fxs_poll_all net rp [] st = Inr st"
| "fxs_poll_all net rp (x # xs) st = andThen (fxs_poll_one net rp x st) (fxs_poll_all net rp xs)"

definition fxs_poll :: "NET \<Rightarrow> REPLY \<Rightarrow> sizes \<times> CLIENT_STATE \<Rightarrow> (bool \<times> sizes \<times> CLIENT_STATE) xfer" where
  "fxs_poll net rp st =
     (case st of (sizes, s) \<Rightarrow>
      if now s - fx_poll_last_time s < 1 then Inr (False, sizes, s)
      else andThen (fxs_poll_all net rp (file_xfers s) (sizes, s\<lparr>fx_poll_last_time := now s\<rparr>))
        (\<lambda>st1. Inr (\<exists>x \<in> set (file_xfers s). fx_http_op_state (fxfer s x) = HTTP_STATE_DONE, st1)))"

section \<open>A persistent transfer\<close>

definition PERS_FILE_XFER_new :: "real \<Rightarrow> PERS_FILE_XFER \<Rightarrow> PERS_FILE_XFER" where
  "PERS_FILE_XFER_new t p = p\<lparr>pfx_nretry := 0, pfx_first_request_time := t, pfx_next_request_time := t,
     pfx_time_so_far := 0, pfx_last_bytes_xferred := 0, pfx_pers_xfer_done := False, pfx_fxp := None\<rparr>"

definition pfx_init :: "fid \<Rightarrow> bool \<Rightarrow> pfxid \<Rightarrow> CLIENT_STATE \<Rightarrow> (int \<times> CLIENT_STATE) xfer" where
  "pfx_init f is_upload k s =
     (let s1 = upd_pxfer k (\<lambda>p. p\<lparr>pfx_fxp := None, pfx_fip := f, pfx_is_upload := is_upload,
                                   pfx_pers_xfer_done := False\<rparr>) s
      in case get_init_url is_upload (finfo s1 f) of
           None \<Rightarrow> Inl Never_Returns
         | Some (url, x) \<Rightarrow> Inr (if url = None then ERR_NULL else 0, upd_finfo f (\<lambda>_. x) s1))"

definition start_xfer :: "NET \<Rightarrow> pfxid \<Rightarrow> CLIENT_STATE \<Rightarrow> (int \<times> CLIENT_STATE) xfer" where
  "start_xfer net k s =
     (let p = pxfer s k in
      if pfx_is_upload p \<and> exit_before_upload s then Inl Exits
      else case pfx_fxp p of
        None \<Rightarrow> Inl Null_Deref
      | Some x \<Rightarrow> if pfx_is_upload p then init_upload net (pfx_fip p) x s
                  else init_download net (pfx_fip p) x s)"

definition start_new_file_xfer :: "pfxid \<Rightarrow> CLIENT_STATE \<Rightarrow> bool" where
  "start_new_file_xfer k s =
     (let same = filter (\<lambda>x. fx_is_upload (fxfer s x) = pfx_is_upload (pxfer s k)) (file_xfers s);
          ntotal = int (length same);
          nproj = int (length (filter (\<lambda>x. fi_project (finfo s (fx_fip (fxfer s x)))
                                        = fi_project (finfo s (pfx_fip (pxfer s k)))) same))
      in \<not> network_suspended s \<and> \<not> nproj \<ge> cf_max_file_xfers_per_project (config s)
         \<and> \<not> ntotal \<ge> cf_max_file_xfers (config s))"

text \<open>\<open>remove(fxp)\<close> of a \<open>NULL\<close> operation finds nothing and then reads its file for the message.\<close>

definition permanent_failure :: "int \<Rightarrow> pfxid \<Rightarrow> CLIENT_STATE \<Rightarrow> CLIENT_STATE xfer" where
  "permanent_failure retval k s =
     (case pfx_fxp (pxfer s k) of
        None \<Rightarrow> Inl Null_Deref
      | Some x \<Rightarrow>
          let s1 = upd_pxfer k (\<lambda>p. p\<lparr>pfx_fxp := None\<rparr>) (delete_fxp x (snd (fxs_remove x s)));
              s2 = upd_pxfer k (\<lambda>p. p\<lparr>pfx_pers_xfer_done := True\<rparr>) s1
          in Inr (upd_finfo (pfx_fip (pxfer s k))
                (\<lambda>f. f\<lparr>fi_status := retval, fi_error_msg := boincerror retval\<rparr>) s2))"

definition do_backoff :: "pfxid \<Rightarrow> CLIENT_STATE \<Rightarrow> CLIENT_STATE" where
  "do_backoff k s =
     (let s1 = (if \<not> ns_need_physical_connection (net_status s)
                then upd_pxfer k (\<lambda>p. p\<lparr>pfx_nretry := pfx_nretry p + 1\<rparr>) s else s);
          s2 = file_xfer_failed (pfx_is_upload (pxfer s1 k)) (fi_project (finfo s1 (pfx_fip (pxfer s1 k)))) s1;
          (b, s3) = calculate_exponential_backoff (pfx_nretry (pxfer s2 k)) (pers_retry_delay_min s2)
                      (pers_retry_delay_max s2) s2
      in upd_pxfer k (\<lambda>p. p\<lparr>pfx_next_request_time := now s3 + b\<rparr>) s3)"

definition next_url :: "bool \<Rightarrow> fid \<Rightarrow> CLIENT_STATE \<Rightarrow> (string option \<times> CLIENT_STATE) xfer" where
  "next_url is_upload f s =
     (case get_next_url is_upload (finfo s f) of
        None \<Rightarrow> Inl Never_Returns
      | Some (url, x) \<Rightarrow> Inr (url, upd_finfo f (\<lambda>_. x) s))"

definition transient_failure :: "NET \<Rightarrow> int \<Rightarrow> pfxid \<Rightarrow> CLIENT_STATE \<Rightarrow> CLIENT_STATE xfer" where
  "transient_failure net retval k s =
     (let f = pfx_fip (pxfer s k) in
      if retval = HTTP_STATUS_RANGE_REQUEST_ERROR then Inr (upd_finfo f delete_file s)
      else andThen
        (if now s - pfx_first_request_time (pxfer s k) > file_xfer_giveup_period s
         then permanent_failure ERR_TIMEOUT k s else Inr s)
        (\<lambda>s1. andThen (next_url (pfx_is_upload (pxfer s1 k)) f s1) (\<lambda>(url, s2).
           if url \<noteq> None then andThen (start_xfer net k s2) (\<lambda>(_, s3). Inr s3)
           else Inr (do_backoff k s2))))"

text \<open>\<open>new FILE_XFER\<close>: an operation no live transfer uses.\<close>

definition fresh_fxid :: "CLIENT_STATE \<Rightarrow> fxid" where
  "fresh_fxid s = Suc (fold max (file_xfers s) (fold max (List.map_filter (\<lambda>k. pfx_fxp (pxfer s k)) (pers_file_xfers s)) 0))"

text \<open>\<open>delete fxp; fxp = NULL\<close>, where \<open>fxp\<close> may be \<open>NULL\<close> already.\<close>

definition drop_fxp :: "pfxid \<Rightarrow> CLIENT_STATE \<Rightarrow> CLIENT_STATE" where
  "drop_fxp k s = (case pfx_fxp (pxfer s k) of
     None \<Rightarrow> s | Some x \<Rightarrow> upd_pxfer k (\<lambda>p. p\<lparr>pfx_fxp := None\<rparr>) (delete_fxp x s))"

definition launch_xfer :: "NET \<Rightarrow> pfxid \<Rightarrow> CLIENT_STATE \<Rightarrow> (int \<times> CLIENT_STATE) xfer" where
  "launch_xfer net k s =
     (let x = fresh_fxid s;
          s1 = upd_pxfer k (\<lambda>p. p\<lparr>pfx_fxp := Some x\<rparr>) (upd_fxfer x FILE_XFER_new s)
      in andThen (start_xfer net k s1) (\<lambda>(retval, s2).
           if retval = 0 then Inr (fxs_insert x s2)
           else let s3 = upd_fxfer x (\<lambda>f. f\<lparr>fx_file_xfer_retval := retval\<rparr>) s2
                in andThen (transient_failure net retval k s3) (\<lambda>s4. Inr (retval, drop_fxp k s4))))"

definition create_xfer :: "NET \<Rightarrow> pfxid \<Rightarrow> CLIENT_STATE \<Rightarrow> (int \<times> CLIENT_STATE) xfer" where
  "create_xfer net k s =
     (let f = pfx_fip (pxfer s k) in
      if \<not> start_new_file_xfer k s then Inr (ERR_IDLE_PERIOD, s)
      else if pfx_is_upload (pxfer s k) then launch_xfer net k s
      else case verify_file (nt_disk net) True False f s of (retval, s1) \<Rightarrow>
        if retval = 0
        then Inr (0, upd_pxfer k (\<lambda>p. p\<lparr>pfx_pers_xfer_done := True\<rparr>)
                       (upd_finfo f (\<lambda>x. x\<lparr>fi_status := FILE_PRESENT\<rparr>) s1))
        else launch_xfer net k (upd_finfo f (\<lambda>x. x\<lparr>fi_status := FILE_NOT_PRESENT\<rparr>) s1))"

text \<open>\<open>PERS_FILE_XFER::poll\<close> once the HTTP operation \<open>x\<close> is done.\<close>

definition poll_done :: "NET \<Rightarrow> pfxid \<Rightarrow> int \<Rightarrow> CLIENT_STATE \<Rightarrow> CLIENT_STATE xfer" where
  "poll_done net k retval s =
     (let is_upload = pfx_is_upload (pxfer s k) in
      if retval = 0
      then Inr (upd_pxfer k (\<lambda>p. p\<lparr>pfx_pers_xfer_done := True\<rparr>)
             (file_xfer_succeeded is_upload (fi_project (finfo s (pfx_fip (pxfer s k)))) s))
      else if retval = ERR_UPLOAD_PERMANENT then permanent_failure retval k s
      else if retval = ERR_NOT_FOUND \<or> retval = ERR_FILE_NOT_FOUND \<or> retval = HTTP_STATUS_NOT_FOUND
      then if is_upload then transient_failure net retval k s else permanent_failure retval k s
      else transient_failure net retval k s)"

definition finish_poll :: "pfxid \<Rightarrow> CLIENT_STATE \<Rightarrow> CLIENT_STATE" where
  "finish_poll k s = (case pfx_fxp (pxfer s k) of
     None \<Rightarrow> s | Some x \<Rightarrow> drop_fxp k (snd (fxs_remove x s)))"

definition bytes_so_far :: "FILE_XFER \<Rightarrow> real" where
  "bytes_so_far x = (if fx_is_upload x then fx_bytes_xferred x + fx_file_offset x else fx_bytes_xferred x)"

definition pfx_poll :: "NET \<Rightarrow> pfxid \<Rightarrow> CLIENT_STATE \<Rightarrow> (bool \<times> CLIENT_STATE) xfer" where
  "pfx_poll net k s =
     (let p = pxfer s k in
      if pfx_pers_xfer_done p then Inr (False, s)
      else case pfx_fxp p of
        None \<Rightarrow>
          if now s < pfx_next_request_time p then Inr (False, s)
          else let s1 = upd_pxfer k (\<lambda>p. p\<lparr>pfx_last_time := now s\<rparr>) s;
                   s2 = upd_finfo (pfx_fip p) (\<lambda>f. f\<lparr>fi_upload_offset := -1\<rparr>) s1
               in andThen (create_xfer net k s2) (\<lambda>(retval, s3). Inr (retval = 0, s3))
      | Some x \<Rightarrow>
          let diff = now s - pfx_last_time p;
              s1 = upd_pxfer k (\<lambda>p. p\<lparr>pfx_last_bytes_xferred := bytes_so_far (fxfer s x),
                     pfx_time_so_far := (if diff \<le> 2 then pfx_time_so_far p + diff else pfx_time_so_far p),
                     pfx_last_time := now s\<rparr>) s
          in if fx_file_xfer_done (fxfer s1 x)
             then andThen (poll_done net k (fx_file_xfer_retval (fxfer s1 x)) s1)
                    (\<lambda>s2. Inr (True, finish_poll k s2))
             else Inr (False, s1))"

definition pfx_abort :: "pfxid \<Rightarrow> CLIENT_STATE \<Rightarrow> CLIENT_STATE" where
  "pfx_abort k s =
     upd_pxfer k (\<lambda>p. p\<lparr>pfx_pers_xfer_done := True\<rparr>)
       (upd_finfo (pfx_fip (pxfer s k)) (\<lambda>f. f\<lparr>fi_status := ERR_ABORTED_VIA_GUI,
          fi_error_msg := ''user requested transfer abort''\<rparr>) (finish_poll k s))"

definition pfx_suspend :: "pfxid \<Rightarrow> CLIENT_STATE \<Rightarrow> CLIENT_STATE" where
  "pfx_suspend k s = (case pfx_fxp (pxfer s k) of
     None \<Rightarrow> s
   | Some x \<Rightarrow> finish_poll k (upd_pxfer k (\<lambda>p. p\<lparr>pfx_last_bytes_xferred := bytes_so_far (fxfer s x)\<rparr>) s))"

section \<open>The set of persistent transfers\<close>

fun pfx_poll_all :: "NET \<Rightarrow> pfxid list \<Rightarrow> bool \<times> CLIENT_STATE \<Rightarrow> (bool \<times> CLIENT_STATE) xfer" where
  "pfx_poll_all net [] st = Inr st"
| "pfx_poll_all net (k # ks) (action, s) =
     andThen (pfx_poll net k s) (\<lambda>(b, s1). pfx_poll_all net ks (action \<or> b, s1))"

definition pfxs_poll :: "NET \<Rightarrow> CLIENT_STATE \<Rightarrow> (bool \<times> CLIENT_STATE) xfer" where
  "pfxs_poll net s =
     (if now s - pfx_poll_last_time s < 1 then Inr (False, s)
      else andThen (pfx_poll_all net (pers_file_xfers s) (False, s\<lparr>pfx_poll_last_time := now s\<rparr>))
        (\<lambda>(action, s1). Inr (action, if action then set_client_state_dirty s1 else s1)))"

definition pfxs_insert :: "pfxid \<Rightarrow> CLIENT_STATE \<Rightarrow> CLIENT_STATE" where
  "pfxs_insert k s = s\<lparr>pers_file_xfers := pers_file_xfers s @ [k]\<rparr>"

definition pfxs_remove :: "pfxid \<Rightarrow> CLIENT_STATE \<Rightarrow> int \<times> CLIENT_STATE" where
  "pfxs_remove k s =
     (if k \<in> set (pers_file_xfers s) then (0, s\<lparr>pers_file_xfers := remove1 k (pers_file_xfers s)\<rparr>)
      else (ERR_NOT_FOUND, s))"

definition pfxs_suspend :: "CLIENT_STATE \<Rightarrow> CLIENT_STATE" where
  "pfxs_suspend s = fold pfx_suspend (pers_file_xfers s) s"

section \<open>Starting and finishing transfers\<close>

text \<open>Telling the applications (\<open>client/app.C\<close>, \<open>client/app_control.C\<close>).\<close>

definition upload_notify_app :: "NET \<Rightarrow> fid \<Rightarrow> CLIENT_STATE \<Rightarrow> CLIENT_STATE" where
  "upload_notify_app net f s = fold (\<lambda>a s.
     if lookup_file s (at_result (task s a)) f \<noteq> None \<and> nt_status_file net a
     then upd_task a (\<lambda>t. t\<lparr>at_send_upload_file_status := True\<rparr>) s else s) (active_tasks s) s"

definition request_reread_prefs_task :: "NET \<Rightarrow> aid \<Rightarrow> CLIENT_STATE \<Rightarrow> CLIENT_STATE xfer" where
  "request_reread_prefs_task net a s =
     (if nt_app_init_file net a \<noteq> 0 then Inr s
      else if \<not> at_shm (task s a) then Inl Null_Deref
      else Inr (upd_task a (\<lambda>t.
        case msg_queue_send (now s) ''<reread_prefs/>'' (at_graphics_request_queue t, at_graphics_request t) of
          (q, ch) \<Rightarrow> t\<lparr>at_graphics_request_queue := q, at_graphics_request := ch\<rparr>) s))"

fun request_reread_prefs :: "NET \<Rightarrow> pid \<Rightarrow> aid list \<Rightarrow> CLIENT_STATE \<Rightarrow> CLIENT_STATE xfer" where
  "request_reread_prefs net p [] s = Inr s"
| "request_reread_prefs net p (a # as) s =
     (if r_project (res s (at_result (task s a))) \<noteq> p \<or> \<not> process_exists (task s a)
      then request_reread_prefs net p as s
      else andThen (request_reread_prefs_task net a s) (request_reread_prefs net p as))"

definition update_project_files_downloaded_time :: "pid \<Rightarrow> CLIENT_STATE \<Rightarrow> CLIENT_STATE" where
  "update_project_files_downloaded_time p s = upd_proj p (\<lambda>x. x\<lparr>p_project_files_downloaded_time := now s\<rparr>) s"

definition fresh_pfxid :: "CLIENT_STATE \<Rightarrow> pfxid" where
  "fresh_pfxid s = Suc (fold max (pers_file_xfers s) 0)"

definition new_pfx :: "bool \<Rightarrow> fid \<Rightarrow> CLIENT_STATE \<Rightarrow> CLIENT_STATE xfer" where
  "new_pfx is_upload f s =
     (let k = fresh_pfxid s;
          s1 = upd_pxfer k (PERS_FILE_XFER_new (now s)) s
      in andThen (pfx_init f is_upload k s1) (\<lambda>(_, s2).
           Inr (pfxs_insert k (upd_finfo f (\<lambda>x. x\<lparr>fi_pers_file_xfer := Some k\<rparr>) s2))))"

fun start_pfxs :: "fid list \<Rightarrow> bool \<times> CLIENT_STATE \<Rightarrow> (bool \<times> CLIENT_STATE) xfer" where
  "start_pfxs [] st = Inr st"
| "start_pfxs (f # fs) (action, s) =
     (let x = finfo s f in
      if fi_pers_file_xfer x \<noteq> None then start_pfxs fs (action, s)
      else if \<not> fi_generated_locally x \<and> fi_status x = FILE_NOT_PRESENT
      then andThen (new_pfx False f s) (\<lambda>s1. start_pfxs fs (True, s1))
      else if fi_upload_when_present x \<and> fi_status x = FILE_PRESENT \<and> \<not> fi_uploaded x
      then andThen (new_pfx True f s) (\<lambda>s1. start_pfxs fs (True, s1))
      else start_pfxs fs (action, s))"

definition finish_upload :: "NET \<Rightarrow> fid \<Rightarrow> CLIENT_STATE \<Rightarrow> CLIENT_STATE" where
  "finish_upload net f s =
     (let s1 = (if \<not> fi_sticky (finfo s f) then upd_finfo f delete_file s else s)
      in upload_notify_app net f (upd_finfo f (\<lambda>x. x\<lparr>fi_uploaded := True\<rparr>) s1))"

definition finish_download :: "NET \<Rightarrow> fid \<Rightarrow> CLIENT_STATE \<Rightarrow> CLIENT_STATE xfer" where
  "finish_download net f s =
     (case verify_file (nt_disk net) True True f s of (retval, s1) \<Rightarrow>
        let s2 = upd_finfo f (\<lambda>x. x\<lparr>fi_status := (if retval \<noteq> 0 then retval else FILE_PRESENT)\<rparr>) s1;
            p = fi_project (finfo s2 f)
        in andThen (if fi_is_user_file (finfo s2 f)
                    then request_reread_prefs net p (active_tasks s2) s2 else Inr s2)
             (\<lambda>s3. Inr (if fi_is_project_file (finfo s3 f)
                        then update_project_files_downloaded_time p s3 else s3)))"

text \<open>One finished transfer: the file is dealt with, the transfer erased and deleted.\<close>

definition finish_pfx :: "NET \<Rightarrow> pfxid \<Rightarrow> CLIENT_STATE \<Rightarrow> CLIENT_STATE xfer" where
  "finish_pfx net k s =
     (let f = pfx_fip (pxfer s k) in
      andThen
        (if fi_generated_locally (finfo s f) \<or> fi_upload_when_present (finfo s f)
         then Inr (finish_upload net f s)
         else if fi_status (finfo s f) \<ge> 0 then finish_download net f s
         else Inr s)
        (\<lambda>s1. Inr (upd_finfo f (\<lambda>x. x\<lparr>fi_pers_file_xfer := None\<rparr>)
                  (s1\<lparr>pers_file_xfers := remove1 k (pers_file_xfers s1)\<rparr>))))"

fun finish_pfxs :: "NET \<Rightarrow> pfxid list \<Rightarrow> bool \<times> CLIENT_STATE \<Rightarrow> (bool \<times> CLIENT_STATE) xfer" where
  "finish_pfxs net [] st = Inr st"
| "finish_pfxs net (k # ks) (action, s) =
     (if pfx_pers_xfer_done (pxfer s k)
      then andThen (finish_pfx net k s) (\<lambda>s1. finish_pfxs net ks (True, s1))
      else finish_pfxs net ks (action, s))"

definition handle_pers_file_xfers :: "NET \<Rightarrow> CLIENT_STATE \<Rightarrow> (bool \<times> CLIENT_STATE) xfer" where
  "handle_pers_file_xfers net s =
     (if now s - hpfx_last_time s < 1 then Inr (False, s)
      else andThen (start_pfxs (file_infos s) (False, s\<lparr>hpfx_last_time := now s\<rparr>))
        (\<lambda>(action, s1). finish_pfxs net (pers_file_xfers s1) (action, s1)))"

end
