(* ===== verification/Transfer_Limits.thy ===== *)
theory Transfer_Limits
  imports File_Transfer "HOL-Library.Multiset"
begin

text \<open>
  What the transfer code keeps: the number of simultaneous transfers stays within the limits of
  the configuration, whatever the order in which the client polls, starts, suspends and aborts
  transfers.
\<close>

section \<open>What the choice of a URL changes\<close>

text \<open>Choosing a URL moves the two indices into the list of URLs and nothing else.\<close>

abbreviation url_free :: "FILE_INFO \<Rightarrow> FILE_INFO" where
  "url_free x \<equiv> x\<lparr>fi_current_url := 0, fi_start_url := 0\<rparr>"

lemma url_free_fields:
  assumes "url_free x = url_free y"
  shows "fi_project x = fi_project y" "fi_pers_file_xfer x = fi_pers_file_xfer y"
    "fi_status x = fi_status y" "fi_nbytes x = fi_nbytes y"
  using arg_cong [OF assms, of fi_project] arg_cong [OF assms, of fi_pers_file_xfer]
    arg_cong [OF assms, of fi_status] arg_cong [OF assms, of fi_nbytes] by simp_all

lemma init_url_loop_url_free:
  assumes "init_url_loop u f = Some r"
  shows "url_free (snd r) = url_free f"
proof (rule init_url_loop.raw_induct [where P = "\<lambda>u f r. url_free (snd r) = url_free f", OF _ assms], goal_cases)
  case (1 loop u f r)
  show ?case
    using 1(2) by (auto simp: Let_def split: if_splits dest: 1(1))
qed

lemma next_url_loop_url_free:
  assumes "next_url_loop u f = Some r"
  shows "url_free (snd r) = url_free f"
proof (rule next_url_loop.raw_induct [where P = "\<lambda>u f r. url_free (snd r) = url_free f", OF _ assms], goal_cases)
  case (1 loop u f r)
  show ?case
    using 1(2) by (auto simp: Let_def split: if_splits dest: 1(1))
qed

lemma get_url_url_free:
  "get_init_url u f = Some (url, g) \<Longrightarrow> url_free g = url_free f"
  "get_next_url u f = Some (url, g) \<Longrightarrow> url_free g = url_free f"
  "get_current_url u f = Some (url, g) \<Longrightarrow> url_free g = url_free f"
  using init_url_loop_url_free [of u "f\<lparr>fi_current_url := 0, fi_start_url := 0\<rparr>" "(url, g)"]
    next_url_loop_url_free [of u f "(url, g)"]
  by (auto simp: get_init_url_def get_next_url_def get_current_url_def split: if_splits)

section \<open>The invariant\<close>

text \<open>
  The direction and the project of every operation in the set decide the limits. A persistent
  transfer and its operation agree on the file and the direction, and only uploads ask for sizes.
\<close>

abbreviation fx_project :: "CLIENT_STATE \<Rightarrow> fxid \<Rightarrow> pid" where
  "fx_project s x \<equiv> fi_project (finfo s (fx_fip (fxfer s x)))"

definition n_total :: "CLIENT_STATE \<Rightarrow> bool \<Rightarrow> int" where
  "n_total s up = int (length (filter (\<lambda>x. fx_is_upload (fxfer s x) = up) (file_xfers s)))"

definition n_project :: "CLIENT_STATE \<Rightarrow> bool \<Rightarrow> pid \<Rightarrow> int" where
  "n_project s up p =
     int (length (filter (\<lambda>x. fx_is_upload (fxfer s x) = up \<and> fx_project s x = p) (file_xfers s)))"

definition within_limits :: "CLIENT_STATE \<Rightarrow> bool" where
  "within_limits s = (\<forall>up p. n_total s up \<le> max 0 (cf_max_file_xfers (config s))
     \<and> n_project s up p \<le> max 0 (cf_max_file_xfers_per_project (config s)))"

definition linked :: "CLIENT_STATE \<Rightarrow> bool" where
  "linked s = (\<forall>k \<in> set (pers_file_xfers s). \<forall>x. pfx_fxp (pxfer s k) = Some x \<longrightarrow>
     fx_is_upload (fxfer s x) = pfx_is_upload (pxfer s k) \<and> fx_fip (fxfer s x) = pfx_fip (pxfer s k))"

definition queries_ok :: "CLIENT_STATE \<Rightarrow> bool" where
  "queries_ok s = (\<forall>x \<in> set (file_xfers s). fx_file_size_query (fxfer s x) \<longrightarrow> fx_is_upload (fxfer s x))"

definition xfers_ok :: "CLIENT_STATE \<Rightarrow> bool" where
  "xfers_ok s = (within_limits s \<and> linked s \<and> queries_ok s)"

text \<open>\<open>no_more\<close>: a change after which there are no transfers that were not there before.\<close>

definition no_more :: "CLIENT_STATE \<Rightarrow> CLIENT_STATE \<Rightarrow> bool" where
  "no_more s t = (config t = config s \<and> pers_file_xfers t = pers_file_xfers s
     \<and> mset (file_xfers t) \<subseteq># mset (file_xfers s)
     \<and> (\<forall>f. fi_project (finfo t f) = fi_project (finfo s f))
     \<and> (\<forall>k. pfx_fip (pxfer t k) = pfx_fip (pxfer s k) \<and> pfx_is_upload (pxfer t k) = pfx_is_upload (pxfer s k)
            \<and> (pfx_fxp (pxfer t k) = None \<or> pfx_fxp (pxfer t k) = pfx_fxp (pxfer s k)))
     \<and> (\<forall>x. fx_is_upload (fxfer t x) = fx_is_upload (fxfer s x) \<and> fx_fip (fxfer t x) = fx_fip (fxfer s x)
            \<and> (fx_file_size_query (fxfer t x) \<longrightarrow> fx_file_size_query (fxfer s x) \<or> fx_is_upload (fxfer s x))))"

lemma no_more_refl [simp, intro]: "no_more s s"
  by (simp add: no_more_def)

lemma no_more_trans [trans]: "no_more s t \<Longrightarrow> no_more t u \<Longrightarrow> no_more s u"
  unfolding no_more_def by (auto intro: subset_mset.order_trans) metis+

lemma length_filter_submset:
  assumes "mset ys \<subseteq># mset xs"
  shows "length (filter P ys) \<le> length (filter P xs)"
  using size_mset_mono [OF multiset_filter_mono [OF assms, of P]] by (simp flip: mset_filter size_mset)

lemma no_more_keeps:
  assumes "no_more s t" "xfers_ok s"
  shows "xfers_ok t"
proof -
  have sub: "mset (file_xfers t) \<subseteq># mset (file_xfers s)" and cfg: "config t = config s"
    and fx: "\<And>x. fx_is_upload (fxfer t x) = fx_is_upload (fxfer s x)"
      "\<And>x. fx_project t x = fx_project s x"
    using assms(1) by (simp_all add: no_more_def)
  have "n_total t up \<le> n_total s up" "n_project t up p \<le> n_project s up p" for up p
    unfolding n_total_def n_project_def fx by (simp_all add: length_filter_submset [OF sub])
  then have "within_limits t"
    using assms(2) unfolding within_limits_def xfers_ok_def cfg by (meson order_trans)
  moreover have "linked t"
    using assms unfolding linked_def xfers_ok_def no_more_def by (metis option.distinct(1))
  moreover have "queries_ok t"
    using assms mset_subset_eqD [OF sub] unfolding queries_ok_def xfers_ok_def no_more_def
    by (metis set_mset_mset)
  ultimately show ?thesis by (simp add: xfers_ok_def)
qed

section \<open>Operations that add no transfer\<close>

lemma no_more_upd:
  "(\<And>x. fi_project (g x) = fi_project x) \<Longrightarrow> no_more s (upd_finfo f g s)"
  "(\<And>p. pfx_fip (h p) = pfx_fip p \<and> pfx_is_upload (h p) = pfx_is_upload p
      \<and> (pfx_fxp (h p) = None \<or> pfx_fxp (h p) = pfx_fxp p)) \<Longrightarrow> no_more s (upd_pxfer k h s)"
  "fx_is_upload (i (fxfer s x)) = fx_is_upload (fxfer s x) \<Longrightarrow> fx_fip (i (fxfer s x)) = fx_fip (fxfer s x)
     \<Longrightarrow> (fx_file_size_query (i (fxfer s x)) \<longrightarrow> fx_file_size_query (fxfer s x) \<or> fx_is_upload (fxfer s x))
     \<Longrightarrow> no_more s (upd_fxfer x i s)"
  "no_more s (upd_proj p j s)" "no_more s (upd_task a l s)"
  by (auto simp: no_more_def upd_defs)

lemma no_more_fields:
  "no_more s (s\<lparr>rand_pos := n\<rparr>)" "no_more s (s\<lparr>pfx_poll_last_time := t\<rparr>)" "no_more s (s\<lparr>hpfx_last_time := t\<rparr>)"
  "no_more s (s\<lparr>fx_poll_last_time := t\<rparr>)" "no_more s (s\<lparr>client_state_dirty := b\<rparr>)"
  "no_more s (s\<lparr>file_xfers := remove1 x (file_xfers s)\<rparr>)"
  by (auto simp: no_more_def)

lemma no_more_url:
  assumes "url_free y = url_free (finfo s f)"
  shows "no_more s (upd_finfo f (\<lambda>_. y) s)"
  using url_free_fields(1) [OF assms] by (auto simp: no_more_def upd_defs)

lemma no_more_urls:
  "current_url u f s = Inr (url, t) \<Longrightarrow> no_more s t" "next_url u f s = Inr (url, t) \<Longrightarrow> no_more s t"
  by (auto simp: current_url_def next_url_def dest!: get_url_url_free intro: no_more_url split: option.splits)

lemma no_more_bandwidth: "no_more s (set_bandwidth_limits u s)"
proof -
  have "no_more s (fold (\<lambda>x s. if same_direction s u x
      then upd_fxfer x (\<lambda>f. f\<lparr>fx_speed_limit := share\<rparr>) s else s) xs s)" for share xs
    by (rule fold_frame_rel [where R = no_more, OF no_more_refl no_more_trans]) (assumption+, simp add: no_more_upd)
  then show ?thesis by (simp add: set_bandwidth_limits_def Let_def)
qed

lemma no_more_remove: "no_more s (snd (fxs_remove x s))"
  using no_more_trans [OF no_more_fields(6) no_more_bandwidth] by (simp add: fxs_remove_def)

lemma no_more_delete_fxp: "no_more s (delete_fxp x s)"
  by (cases "fi_pers_file_xfer (finfo s (fx_fip (fxfer s x)))") (simp_all add: delete_fxp_def no_more_upd)

lemma no_more_drop_fxp: "no_more s (drop_fxp k s)"
  using no_more_trans [OF no_more_delete_fxp no_more_upd(2)]
  by (cases "pfx_fxp (pxfer s k)") (simp_all add: drop_fxp_def)

lemma no_more_finish_poll: "no_more s (finish_poll k s)"
  using no_more_trans [OF no_more_remove no_more_drop_fxp]
  by (cases "pfx_fxp (pxfer s k)") (simp_all add: finish_poll_def)

lemma no_more_permanent:
  assumes "permanent_failure e k s = Inr t"
  shows "no_more s t"
proof -
  obtain x where x: "pfx_fxp (pxfer s k) = Some x"
    using assms by (cases "pfx_fxp (pxfer s k)") (simp_all add: permanent_failure_def)
  have "no_more s (delete_fxp x (snd (fxs_remove x s)))"
    by (rule no_more_trans [OF no_more_remove no_more_delete_fxp])
  also have "no_more (delete_fxp x (snd (fxs_remove x s))) t"
    using assms x by (auto simp: permanent_failure_def Let_def no_more_def upd_defs split: if_splits)
  finally show ?thesis .
qed

lemma no_more_random: "calculate_exponential_backoff n a b s = (d, t) \<Longrightarrow> no_more s t"
  using exponential_backoff_state [of n a b s] no_more_fields(1) by (metis snd_conv)

lemma no_more_xfer_failed: "no_more s (file_xfer_failed u p s)"
proof -
  have "no_more (upd_proj p i s) (case calculate_exponential_backoff n mn mx (upd_proj p i s) of (d, t) \<Rightarrow> upd_proj p (j d t) t)"
    for i n mn mx j
    using no_more_trans [OF no_more_random no_more_upd(4)] by (auto split: prod.split)
  note * = no_more_trans [OF no_more_upd(4) this]
  show ?thesis
    by (simp add: file_xfer_failed_def Let_def no_more_trans [OF no_more_upd(4) no_more_upd(4)] *)
qed

lemma no_more_do_backoff: "no_more s (do_backoff k s)"
proof -
  define s1 where "s1 = (if \<not> ns_need_physical_connection (net_status s)
                then upd_pxfer k (\<lambda>p. p\<lparr>pfx_nretry := pfx_nretry p + 1\<rparr>) s else s)"
  define s2 where "s2 = file_xfer_failed (pfx_is_upload (pxfer s1 k)) (fi_project (finfo s1 (pfx_fip (pxfer s1 k)))) s1"
  obtain b s3 where b: "calculate_exponential_backoff (pfx_nretry (pxfer s2 k)) (pers_retry_delay_min s2)
      (pers_retry_delay_max s2) s2 = (b, s3)" by force
  have "no_more s s1" by (simp add: s1_def no_more_upd)
  also have "no_more s1 s2" unfolding s2_def by (rule no_more_xfer_failed)
  also have "no_more s2 s3" using b by (rule no_more_random)
  also have "no_more s3 (do_backoff k s)"
    unfolding do_backoff_def s1_def [symmetric] s2_def [symmetric] Let_def b by (simp add: no_more_upd)
  finally show ?thesis .
qed

text \<open>
  Initialising an operation sets its file and direction; nothing else that counts changes. This is
  the contract \<open>init_download\<close> and \<open>init_upload\<close> share: \<open>inits up f x s t\<close>.
\<close>

definition inits :: "bool \<Rightarrow> fid \<Rightarrow> fxid \<Rightarrow> CLIENT_STATE \<Rightarrow> CLIENT_STATE \<Rightarrow> bool" where
  "inits up f x s t = (config t = config s \<and> pers_file_xfers t = pers_file_xfers s \<and> pxfer t = pxfer s
     \<and> file_xfers t = file_xfers s \<and> (\<forall>g. fi_project (finfo t g) = fi_project (finfo s g))
     \<and> (\<forall>y. y \<noteq> x \<longrightarrow> fxfer t y = fxfer s y)
     \<and> fx_is_upload (fxfer t x) = up \<and> fx_fip (fxfer t x) = f
     \<and> (fx_file_size_query (fxfer t x) \<longrightarrow> up \<or> fx_file_size_query (fxfer s x)))"

lemma current_url_frame:
  assumes "current_url u f s = Inr (url, t)"
  shows "\<exists>y. fi_project y = fi_project (finfo s f) \<and> t = upd_finfo f (\<lambda>_. y) s"
  using assms by (auto simp: current_url_def split: option.splits dest!: get_url_url_free url_free_fields(1))

lemma inits_http:
  assumes "fx_is_upload (fxfer s x) = up" "fx_fip (fxfer s x) = f"
  shows "inits up f x s (snd (init_get net url off x s))" "inits up f x s (snd (init_post2 net url io x s))"
  using assms
  by (auto simp: inits_def init_get_def init_post2_def Let_def upd_defs split: prod.splits option.splits)

lemma inits_trans: "inits up f x s t \<Longrightarrow> inits up f x t u \<Longrightarrow> inits up f x s u"
  by (auto simp: inits_def)

lemma inits_url:
  assumes "inits up f x s t" "current_url u f t = Inr (url, v)"
  shows "inits up f x s v"
  using current_url_frame [OF assms(2)] assms(1) by (auto simp: inits_def upd_defs)

lemma init_download_inits:
  assumes "init_download net f x s = Inr (retval, t)"
  shows "inits False f x s t"
proof -
  define sz where "sz = (case dk_file_size (nt_disk net) f of
                  None \<Rightarrow> 0 | Some z \<Rightarrow> if z \<ge> fi_nbytes (finfo s f) then 0 else z)"
  define s1 where "s1 = upd_fxfer x (\<lambda>t. t\<lparr>fx_is_upload := False, fx_fip := f, fx_starting_size := sz,
                                  fx_bytes_xferred := sz\<rparr>) s"
  have 1: "inits False f x s s1" by (auto simp: inits_def s1_def upd_defs)
  obtain url s2 where u: "current_url False f s1 = Inr (url, s2)"
    and t: "(case url of None \<Rightarrow> Inr (ERR_INVALID_URL, s2)
       | Some u \<Rightarrow> Inr (init_get net u (real_of_int (trunc_int sz)) x s2)) = (Inr (retval, t) :: (int \<times> CLIENT_STATE) xfer)"
    using assms unfolding init_download_def sz_def [symmetric] Let_def s1_def [symmetric]
    by (auto simp: andThen_Inr)
  have 2: "inits False f x s s2" using inits_url [OF 1 u] .
  then have fx: "fx_is_upload (fxfer s2 x) = False" "fx_fip (fxfer s2 x) = f" by (simp_all add: inits_def)
  show ?thesis
    using t 2 inits_trans [OF 2 inits_http(1) [OF fx, of net _ "real_of_int (trunc_int sz)"]]
    by (auto split: option.splits) (metis snd_conv)
qed

lemma init_upload_inits:
  assumes "init_upload net f x s = Inr (retval, t)"
  shows "inits True f x s t"
proof -
  define off where "off = fi_upload_offset (finfo s f)"
  define s1 where "s1 = upd_fxfer x (\<lambda>t. t\<lparr>fx_fip := f, fx_is_upload := True,
                 fx_bytes_xferred := (if off < 0 then 0 else off), fx_file_size_query := (off < 0)\<rparr>) s"
  have 1: "inits True f x s s1" by (auto simp: inits_def s1_def upd_defs)
  obtain url s2 where u: "current_url True f s1 = Inr (url, s2)"
    and t: "(case url of None \<Rightarrow> Inr (ERR_INVALID_URL, s2)
       | Some u \<Rightarrow> Inr (init_post2 net u (if off < 0 then None else Some off) x s2)) = (Inr (retval, t) :: (int \<times> CLIENT_STATE) xfer)"
    using assms unfolding init_upload_def off_def [symmetric] Let_def s1_def [symmetric]
    by (auto simp: andThen_Inr)
  have 2: "inits True f x s s2" using inits_url [OF 1 u] .
  then have fx: "fx_is_upload (fxfer s2 x) = True" "fx_fip (fxfer s2 x) = f" by (simp_all add: inits_def)
  show ?thesis
    using t 2 inits_trans [OF 2 inits_http(2) [OF fx, of net _ "if off < 0 then None else Some off"]]
    by (auto split: option.splits) (metis snd_conv)+
qed

lemma start_xfer_inits:
  assumes "start_xfer net k s = Inr (retval, t)"
  obtains x where "pfx_fxp (pxfer s k) = Some x" "inits (pfx_is_upload (pxfer s k)) (pfx_fip (pxfer s k)) x s t"
  using assms init_upload_inits init_download_inits
  by (fastforce simp: start_xfer_def Let_def split: if_splits option.splits)

lemma inits_no_more:
  assumes "inits up f x s t" "fx_is_upload (fxfer s x) = up" "fx_fip (fxfer s x) = f"
  shows "no_more s t"
proof -
  have "fx_is_upload (fxfer t y) = fx_is_upload (fxfer s y) \<and> fx_fip (fxfer t y) = fx_fip (fxfer s y)
      \<and> (fx_file_size_query (fxfer t y) \<longrightarrow> fx_file_size_query (fxfer s y) \<or> fx_is_upload (fxfer s y))" for y
    using assms by (cases "y = x") (auto simp: inits_def)
  then show ?thesis unfolding no_more_def using assms(1) by (simp add: inits_def)
qed

lemma start_xfer_no_more:
  assumes "start_xfer net k s = Inr (retval, t)" "linked s" "k \<in> set (pers_file_xfers s)"
  shows "no_more s t"
  using assms by (elim start_xfer_inits) (auto simp: linked_def intro: inits_no_more)

lemma transient_failure_no_more:
  assumes "transient_failure net e k s = Inr t" "xfers_ok s" "k \<in> set (pers_file_xfers s)"
  shows "no_more s t"
proof (cases "e = HTTP_STATUS_RANGE_REQUEST_ERROR")
  case True
  then show ?thesis using assms(1) by (auto simp: transient_failure_def delete_file_def intro: no_more_upd)
next
  case False
  define f where "f = pfx_fip (pxfer s k)"
  define give_up where "give_up = (if now s - pfx_first_request_time (pxfer s k) > file_xfer_giveup_period s
      then permanent_failure ERR_TIMEOUT k s else Inr s)"
  obtain s1 url s2 where s1: "give_up = Inr s1"
    and s2: "next_url (pfx_is_upload (pxfer s1 k)) f s1 = Inr (url, s2)"
    and t: "(if url \<noteq> None then andThen (start_xfer net k s2) (\<lambda>(_, s3). Inr s3)
           else Inr (do_backoff k s2)) = Inr t"
    using assms(1) False unfolding transient_failure_def Let_def f_def [symmetric] give_up_def [symmetric]
    by (auto simp: andThen_Inr)
  have "no_more s s1" using s1 no_more_permanent by (auto simp: give_up_def split: if_splits)
  also have "no_more s1 s2" using s2 by (rule no_more_urls)
  finally have m: "no_more s s2" .
  show ?thesis
  proof (cases url)
    case None
    then show ?thesis using t no_more_trans [OF m no_more_do_backoff] by auto
  next
    case (Some u)
    then obtain rv where st: "start_xfer net k s2 = Inr (rv, t)" using t by (auto simp: andThen_Inr)
    then obtain x where x: "pfx_fxp (pxfer s2 k) = Some x"
      "inits (pfx_is_upload (pxfer s2 k)) (pfx_fip (pxfer s2 k)) x s2 t" by (rule start_xfer_inits)
    have "pfx_fxp (pxfer s k) = Some x" using m x(1) unfolding no_more_def by (metis option.distinct(1))
    then have "fx_is_upload (fxfer s2 x) = pfx_is_upload (pxfer s2 k)" "fx_fip (fxfer s2 x) = pfx_fip (pxfer s2 k)"
      using assms(2,3) m by (auto simp: xfers_ok_def linked_def no_more_def)
    then show ?thesis using no_more_trans [OF m inits_no_more [OF x(2)]] by simp
  qed
qed

section \<open>Starting one more transfer\<close>

lemma fresh_fxid_new:
  "fresh_fxid s \<notin> set (file_xfers s)"
  "k \<in> set (pers_file_xfers s) \<Longrightarrow> pfx_fxp (pxfer s k) \<noteq> Some (fresh_fxid s)"
proof -
  let ?ys = "List.map_filter (\<lambda>k. pfx_fxp (pxfer s k)) (pers_file_xfers s)"
  show "fresh_fxid s \<notin> set (file_xfers s)"
    using fold_max_ge(2) [of "fresh_fxid s" "file_xfers s" "fold max ?ys 0"] by (auto simp: fresh_fxid_def)
  assume k: "k \<in> set (pers_file_xfers s)"
  show "pfx_fxp (pxfer s k) \<noteq> Some (fresh_fxid s)"
  proof
    assume "pfx_fxp (pxfer s k) = Some (fresh_fxid s)"
    then have "fresh_fxid s \<in> set ?ys" using k by (force simp: List.map_filter_def)
    then have "fresh_fxid s \<le> fold max ?ys 0" by (rule fold_max_ge(2))
    also have "\<dots> \<le> fold max (file_xfers s) (fold max ?ys 0)" by (rule fold_max_ge(1))
    finally show False by (simp add: fresh_fxid_def)
  qed
qed

text \<open>After a fresh operation has been initialised the invariant holds; it is not in the set yet.\<close>

lemma start_fresh:
  assumes ok: "xfers_ok s" and k: "k \<in> set (pers_file_xfers s)" and x: "x = fresh_fxid s"
    and st: "start_xfer net k (upd_pxfer k (\<lambda>p. p\<lparr>pfx_fxp := Some x\<rparr>) (upd_fxfer x FILE_XFER_new s)) = Inr (rv, t)"
  shows "xfers_ok t" "file_xfers t = file_xfers s" "config t = config s" "pers_file_xfers t = pers_file_xfers s"
    "fx_is_upload (fxfer t x) = pfx_is_upload (pxfer s k)" "fx_fip (fxfer t x) = pfx_fip (pxfer s k)"
    "fx_file_size_query (fxfer t x) \<longrightarrow> fx_is_upload (fxfer t x)"
    "n_total t up = n_total s up" "n_project t up p = n_project s up p"
    "fi_project (finfo t f) = fi_project (finfo s f)"
proof -
  define s1 where "s1 = upd_pxfer k (\<lambda>p. p\<lparr>pfx_fxp := Some x\<rparr>) (upd_fxfer x FILE_XFER_new s)"
  have new: "x \<notin> set (file_xfers s)" "\<And>j. j \<in> set (pers_file_xfers s) \<Longrightarrow> pfx_fxp (pxfer s j) \<noteq> Some x"
    using fresh_fxid_new by (auto simp: x)
  have i: "inits (pfx_is_upload (pxfer s k)) (pfx_fip (pxfer s k)) x s1 t"
    using st unfolding s1_def [symmetric]
    by (elim start_xfer_inits) (auto simp: s1_def upd_defs)
  have same: "fxfer t y = fxfer s y" if "y \<noteq> x" for y
    using i that by (auto simp: inits_def s1_def upd_defs)
  show set_eq: "file_xfers t = file_xfers s" and cfg: "config t = config s"
    and pfx: "pers_file_xfers t = pers_file_xfers s"
    and fx: "fx_is_upload (fxfer t x) = pfx_is_upload (pxfer s k)" "fx_fip (fxfer t x) = pfx_fip (pxfer s k)"
    and q: "fx_file_size_query (fxfer t x) \<longrightarrow> fx_is_upload (fxfer t x)"
    and prj: "\<And>f. fi_project (finfo t f) = fi_project (finfo s f)"
    using i by (auto simp: inits_def s1_def upd_defs FILE_XFER_new_def)
  have mem: "y \<in> set (file_xfers s) \<Longrightarrow> fxfer t y = fxfer s y" for y using same new(1) by metis
  show tot: "n_total t up = n_total s up" for up
    unfolding n_total_def set_eq by (simp add: mem cong: filter_cong)
  show pro: "n_project t up p = n_project s up p" for up p
    unfolding n_project_def set_eq by (simp add: mem prj cong: filter_cong)
  have "within_limits t" using ok by (simp add: within_limits_def tot pro cfg xfers_ok_def)
  moreover have "linked t"
    using ok new(2) i fx unfolding linked_def pfx xfers_ok_def
    by (auto simp: inits_def s1_def upd_defs FILE_XFER_new_def) (metis same)+
  moreover have "queries_ok t" using ok mem by (simp add: queries_ok_def set_eq xfers_ok_def)
  ultimately show "xfers_ok t" by (simp add: xfers_ok_def)
qed

lemma insert_keeps:
  assumes ok: "xfers_ok s"
    and room: "n_total s (fx_is_upload (fxfer s x)) < cf_max_file_xfers (config s)"
      "n_project s (fx_is_upload (fxfer s x)) (fx_project s x) < cf_max_file_xfers_per_project (config s)"
    and q: "fx_file_size_query (fxfer s x) \<longrightarrow> fx_is_upload (fxfer s x)"
  shows "xfers_ok (snd (fxs_insert x s))"
proof -
  define t where "t = s\<lparr>file_xfers := file_xfers s @ [x]\<rparr>"
  have "n_total t up = n_total s up + (if up = fx_is_upload (fxfer s x) then 1 else 0)"
    "n_project t up p = n_project s up p + (if up = fx_is_upload (fxfer s x) \<and> p = fx_project s x then 1 else 0)"
    for up p by (auto simp: n_total_def n_project_def t_def)
  then have "within_limits t"
    using ok room unfolding within_limits_def xfers_ok_def by (auto simp: t_def)
  moreover have "linked t" "queries_ok t" using ok q by (auto simp: linked_def queries_ok_def xfers_ok_def t_def)
  ultimately have "xfers_ok t" by (simp add: xfers_ok_def)
  then show ?thesis using no_more_keeps [OF no_more_bandwidth] by (simp add: fxs_insert_def t_def)
qed

text \<open>What \<open>start_new_file_xfer\<close> grants: there is room for one more operation.\<close>

lemma start_new_file_xfer_room:
  assumes "start_new_file_xfer k s"
  shows "n_total s (pfx_is_upload (pxfer s k)) < cf_max_file_xfers (config s)"
    "n_project s (pfx_is_upload (pxfer s k)) (fi_project (finfo s (pfx_fip (pxfer s k))))
       < cf_max_file_xfers_per_project (config s)"
  using assms
  by (simp_all add: start_new_file_xfer_def n_total_def n_project_def Let_def filter_filter conj_commute)

lemma launch_keeps:
  assumes "launch_xfer net k s = Inr (rv, u)" "xfers_ok s" "k \<in> set (pers_file_xfers s)" "start_new_file_xfer k s"
  shows "xfers_ok u \<and> pers_file_xfers u = pers_file_xfers s \<and> config u = config s"
proof -
  define x where "x = fresh_fxid s"
  obtain rv1 t where st: "start_xfer net k (upd_pxfer k (\<lambda>p. p\<lparr>pfx_fxp := Some x\<rparr>) (upd_fxfer x FILE_XFER_new s)) = Inr (rv1, t)"
    and rest: "(if rv1 = 0 then Inr (fxs_insert x t)
       else andThen (transient_failure net rv1 k (upd_fxfer x (\<lambda>f. f\<lparr>fx_file_xfer_retval := rv1\<rparr>) t))
              (\<lambda>s4. Inr (rv1, drop_fxp k s4))) = Inr (rv, u)"
    using assms(1) unfolding launch_xfer_def Let_def x_def [symmetric] by (auto simp: andThen_Inr)
  note f = start_fresh [OF assms(2,3) x_def st]
  show ?thesis
  proof (cases "rv1 = 0")
    case True
    then have u: "u = snd (fxs_insert x t)" using rest by (auto simp: fxs_insert_def)
    have "xfers_ok u"
      unfolding u using f start_new_file_xfer_room [OF assms(4)] by (intro insert_keeps) simp_all
    moreover have "no_more (t\<lparr>file_xfers := file_xfers t @ [x]\<rparr>) u" by (simp add: u fxs_insert_def no_more_bandwidth)
    ultimately show ?thesis using f(3,4) by (auto simp: no_more_def)
  next
    case False
    define t1 where "t1 = upd_fxfer x (\<lambda>f. f\<lparr>fx_file_xfer_retval := rv1\<rparr>) t"
    have "no_more t t1" by (simp add: t1_def no_more_upd)
    then have t1: "xfers_ok t1" "k \<in> set (pers_file_xfers t1)"
      using no_more_keeps f(1,4) assms(3) by (auto simp: t1_def upd_defs)
    obtain v where v: "transient_failure net rv1 k t1 = Inr v" "u = drop_fxp k v"
      using rest False by (auto simp: andThen_Inr t1_def)
    have "no_more t u"
      using no_more_trans [OF no_more_trans [OF \<open>no_more t t1\<close> transient_failure_no_more [OF v(1) t1]] no_more_drop_fxp]
      by (simp add: v(2))
    then show ?thesis using no_more_keeps [OF _ f(1)] f(3,4) by (auto simp: no_more_def)
  qed
qed

lemma verify_no_more: "no_more s (snd (verify_file dk strict show f s))"
  by (auto simp: verify_file_def check_signature_def check_md5_def fail_file_def Let_def no_more_upd
      split: option.split prod.split)

lemma start_new_file_xfer_cong:
  assumes "no_more s t" "file_xfers t = file_xfers s" "network_suspended t = network_suspended s"
  shows "start_new_file_xfer k t = start_new_file_xfer k s"
  using assms by (simp add: start_new_file_xfer_def no_more_def cong: filter_cong)

definition safe_step :: "CLIENT_STATE \<Rightarrow> CLIENT_STATE \<Rightarrow> bool" where
  "safe_step s t = (xfers_ok s \<longrightarrow> xfers_ok t \<and> pers_file_xfers t = pers_file_xfers s \<and> config t = config s)"

lemma no_more_safe: "no_more s t \<Longrightarrow> safe_step s t"
  using no_more_keeps by (auto simp: safe_step_def no_more_def)

lemma safe_step_trans: "safe_step s t \<Longrightarrow> safe_step t u \<Longrightarrow> safe_step s u"
  by (auto simp: safe_step_def)

lemma launch_safe:
  assumes "launch_xfer net k s = Inr (rv, u)" "k \<in> set (pers_file_xfers s)" "start_new_file_xfer k s"
  shows "safe_step s u"
  using launch_keeps [OF assms(1) _ assms(2,3)] by (simp add: safe_step_def)

lemma create_safe:
  assumes "create_xfer net k s = Inr (rv, u)" "k \<in> set (pers_file_xfers s)"
  shows "safe_step s u"
proof (cases "start_new_file_xfer k s")
  case False
  then show ?thesis using assms(1) by (simp add: create_xfer_def no_more_safe)
next
  case room: True
  show ?thesis
  proof (cases "pfx_is_upload (pxfer s k)")
    case True
    then have "launch_xfer net k s = Inr (rv, u)" using assms(1) room by (simp add: create_xfer_def)
    then show ?thesis using launch_safe assms(2) room by blast
  next
    case False
    define f where "f = pfx_fip (pxfer s k)"
    obtain e s1 where v: "verify_file (nt_disk net) True False f s = (e, s1)" by force
    have m: "no_more s s1" using verify_no_more [of s "nt_disk net" True False f] v by simp
    have sus: "network_suspended s1 = network_suspended s" "file_xfers s1 = file_xfers s"
      using v verify_file_state [of "nt_disk net" True False f s] by auto
    show ?thesis
    proof (cases "e = 0")
      case True
      then have u: "u = upd_pxfer k (\<lambda>p. p\<lparr>pfx_pers_xfer_done := True\<rparr>)
          (upd_finfo f (\<lambda>x. x\<lparr>fi_status := FILE_PRESENT\<rparr>) s1)"
        using assms(1) room False v by (simp add: create_xfer_def f_def)
      show ?thesis
        unfolding u using no_more_trans [OF m no_more_upd(1) [THEN no_more_trans [OF _ no_more_upd(2)]]]
        by (intro no_more_safe) simp
    next
      case e: False
      define s2 where "s2 = upd_finfo f (\<lambda>x. x\<lparr>fi_status := FILE_NOT_PRESENT\<rparr>) s1"
      have m2: "no_more s s2" unfolding s2_def by (rule no_more_trans [OF m]) (simp add: no_more_upd)
      have "launch_xfer net k s2 = Inr (rv, u)"
        using assms(1) room False v e by (simp add: create_xfer_def f_def s2_def)
      moreover have "start_new_file_xfer k s2"
        using room start_new_file_xfer_cong [OF m2] sus by (simp add: s2_def upd_defs)
      moreover have "k \<in> set (pers_file_xfers s2)" using assms(2) m2 by (simp add: no_more_def)
      ultimately show ?thesis using launch_safe safe_step_trans [OF no_more_safe [OF m2]] by blast
    qed
  qed
qed

lemma poll_done_no_more:
  assumes "poll_done net k e s = Inr t" "xfers_ok s" "k \<in> set (pers_file_xfers s)"
  shows "no_more s t"
proof -
  have "no_more s (upd_pxfer k (\<lambda>p. p\<lparr>pfx_pers_xfer_done := True\<rparr>) (file_xfer_succeeded u p s))" for u p
    by (rule no_more_trans [of _ "file_xfer_succeeded u p s"]) (simp_all add: file_xfer_succeeded_def no_more_upd)
  then show ?thesis
    using assms(1) no_more_permanent transient_failure_no_more [OF _ assms(2,3)]
    by (auto simp: poll_done_def Let_def split: if_splits)
qed

lemma pfx_poll_safe:
  assumes "pfx_poll net k s = Inr (b, t)" "k \<in> set (pers_file_xfers s)"
  shows "safe_step s t"
proof (cases "pfx_pers_xfer_done (pxfer s k)")
  case True
  then show ?thesis using assms(1) by (simp add: pfx_poll_def no_more_safe)
next
  case live: False
  show ?thesis
  proof (cases "pfx_fxp (pxfer s k)")
    case None
    define s2 where "s2 = upd_finfo (pfx_fip (pxfer s k)) (\<lambda>f. f\<lparr>fi_upload_offset := -1\<rparr>)
        (upd_pxfer k (\<lambda>p. p\<lparr>pfx_last_time := now s\<rparr>) s)"
    have m: "no_more s s2" unfolding s2_def by (rule no_more_trans; rule no_more_upd; simp)
    have "t = s \<or> (\<exists>rv. create_xfer net k s2 = Inr (rv, t))"
      using assms(1) live None by (auto simp: pfx_poll_def s2_def Let_def andThen_Inr split: if_splits)
    then show ?thesis
      using m create_safe [of net k s2 _ t] assms(2) safe_step_trans [OF no_more_safe [OF m]]
      by (auto simp: no_more_def intro: no_more_safe)
  next
    case (Some x)
    define s1 where "s1 = upd_pxfer k (\<lambda>p. p\<lparr>pfx_last_bytes_xferred := bytes_so_far (fxfer s x),
                     pfx_time_so_far := (if now s - pfx_last_time (pxfer s k) \<le> 2
                        then pfx_time_so_far p + (now s - pfx_last_time (pxfer s k)) else pfx_time_so_far p),
                     pfx_last_time := now s\<rparr>) s"
    have m: "no_more s s1" by (simp add: s1_def no_more_upd)
    have "t = s1 \<or> (\<exists>e u. poll_done net k e s1 = Inr u \<and> t = finish_poll k u)"
      using assms(1) live Some by (auto simp: pfx_poll_def s1_def Let_def andThen_Inr split: if_splits)
    then show ?thesis
    proof
      assume "t = s1"
      then show ?thesis using m no_more_safe by simp
    next
      assume "\<exists>e u. poll_done net k e s1 = Inr u \<and> t = finish_poll k u"
      then obtain e u where u: "poll_done net k e s1 = Inr u" "t = finish_poll k u" by blast
      have "no_more s1 t" if "xfers_ok s1"
        using no_more_trans [OF poll_done_no_more [OF u(1) that] no_more_finish_poll] u(2) m assms(2)
        by (simp add: no_more_def)
      then have "safe_step s1 t" using no_more_safe by (auto simp: safe_step_def)
      then show ?thesis using safe_step_trans [OF no_more_safe [OF m]] by blast
    qed
  qed
qed

section \<open>The loops of the client\<close>

lemma pfx_poll_all_safe:
  "pfx_poll_all net ks (a, s) = Inr (b, t) \<Longrightarrow> set ks \<subseteq> set (pers_file_xfers s) \<Longrightarrow> xfers_ok s \<Longrightarrow> xfers_ok t"
proof (induction ks arbitrary: a s)
  case (Cons k ks)
  then obtain c u where u: "pfx_poll net k s = Inr (c, u)" "pfx_poll_all net ks (a \<or> c, u) = Inr (b, t)"
    by (auto simp: andThen_Inr)
  have "safe_step s u" using pfx_poll_safe [OF u(1)] Cons.prems(2) by simp
  then show ?case using Cons.IH [OF u(2)] Cons.prems(2,3) by (auto simp: safe_step_def)
qed simp

lemma pfxs_poll_keeps:
  assumes "pfxs_poll net s = Inr (b, t)" "xfers_ok s"
  shows "xfers_ok t"
proof (cases "now s - pfx_poll_last_time s < 1")
  case True
  then show ?thesis using assms by (simp add: pfxs_poll_def)
next
  case False
  then obtain u where u: "pfx_poll_all net (pers_file_xfers s) (False, s\<lparr>pfx_poll_last_time := now s\<rparr>) = Inr (b, u)"
    "t = (if b then set_client_state_dirty u else u)" using assms(1) by (auto simp: pfxs_poll_def andThen_Inr)
  have "xfers_ok u"
    using pfx_poll_all_safe [OF u(1)] no_more_keeps [OF no_more_fields(2) assms(2)] by simp
  then show ?thesis using u(2) no_more_keeps [OF no_more_fields(5)] by (auto simp: set_client_state_dirty_def)
qed

lemma pfx_suspend_no_more: "no_more s (pfx_suspend k s)"
proof (cases "pfx_fxp (pxfer s k)")
  case (Some x)
  show ?thesis
    unfolding pfx_suspend_def using Some
    by (simp add: no_more_trans [OF no_more_upd(2) no_more_finish_poll])
qed (simp add: pfx_suspend_def)

lemma pfxs_suspend_no_more: "no_more s (pfxs_suspend s)"
  unfolding pfxs_suspend_def
  by (rule fold_frame_rel [where R = no_more, OF no_more_refl no_more_trans]) (assumption+, rule pfx_suspend_no_more)

lemma pfx_abort_no_more: "no_more s (pfx_abort k s)"
  unfolding pfx_abort_def
  by (rule no_more_trans [OF no_more_finish_poll], rule no_more_trans; rule no_more_upd; simp)

lemma upload_notify_no_more: "no_more s (upload_notify_app net f s)"
  unfolding upload_notify_app_def
  by (rule fold_frame_rel [where R = no_more, OF no_more_refl no_more_trans]) (assumption+, simp add: no_more_upd)

lemma reread_no_more: "request_reread_prefs net p as s = Inr t \<Longrightarrow> no_more s t"
proof (induction as arbitrary: s)
  case (Cons a as)
  show ?case
  proof (cases "r_project (res s (at_result (task s a))) \<noteq> p \<or> \<not> process_exists (task s a)")
    case True
    then show ?thesis using Cons by auto
  next
    case False
    then obtain u where u: "request_reread_prefs_task net a s = Inr u" "request_reread_prefs net p as u = Inr t"
      using Cons.prems by (auto simp: andThen_Inr)
    have "no_more s u" using u(1) by (auto simp: request_reread_prefs_task_def no_more_upd split: if_splits)
    then show ?thesis using Cons.IH [OF u(2)] by (rule no_more_trans)
  qed
qed simp

lemma finish_upload_no_more: "no_more s (finish_upload net f s)"
proof -
  define s1 where "s1 = (if \<not> fi_sticky (finfo s f) then upd_finfo f delete_file s else s)"
  have "no_more s s1" by (simp add: s1_def no_more_upd delete_file_def)
  also have "no_more s1 (upd_finfo f (\<lambda>x. x\<lparr>fi_uploaded := True\<rparr>) s1)" by (simp add: no_more_upd)
  also have "no_more \<dots> (finish_upload net f s)"
    by (simp add: finish_upload_def s1_def [symmetric] upload_notify_no_more)
  finally show ?thesis .
qed

lemma finish_download_no_more:
  assumes "finish_download net f s = Inr t"
  shows "no_more s t"
proof -
  obtain e s1 where v: "verify_file (nt_disk net) True True f s = (e, s1)" by force
  define s2 where "s2 = upd_finfo f (\<lambda>x. x\<lparr>fi_status := (if e \<noteq> 0 then e else FILE_PRESENT)\<rparr>) s1"
  obtain s3 where s3: "(if fi_is_user_file (finfo s2 f)
        then request_reread_prefs net (fi_project (finfo s2 f)) (active_tasks s2) s2 else Inr s2) = (Inr s3 :: CLIENT_STATE xfer)"
    and t: "t = (if fi_is_project_file (finfo s3 f)
        then update_project_files_downloaded_time (fi_project (finfo s2 f)) s3 else s3)"
    using assms unfolding finish_download_def v prod.case Let_def s2_def [symmetric] by (auto simp: andThen_Inr)
  have "no_more s s1" using verify_no_more v by (metis snd_conv)
  also have "no_more s1 s2" by (simp add: s2_def no_more_upd)
  also have "no_more s2 s3" using s3 reread_no_more by (auto split: if_splits)
  also have "no_more s3 t" by (simp add: t update_project_files_downloaded_time_def no_more_upd)
  finally show ?thesis .
qed

lemma forget_pfx_keeps:
  assumes "xfers_ok s"
  shows "xfers_ok (upd_finfo f (\<lambda>x. x\<lparr>fi_pers_file_xfer := None\<rparr>)
    (s\<lparr>pers_file_xfers := remove1 k (pers_file_xfers s)\<rparr>))"
proof -
  have "xfers_ok (s\<lparr>pers_file_xfers := remove1 k (pers_file_xfers s)\<rparr>)"
    using assms set_remove1_subset [of k "pers_file_xfers s"]
    by (auto simp: xfers_ok_def within_limits_def n_total_def n_project_def linked_def queries_ok_def)
  then show ?thesis by (rule no_more_keeps [OF no_more_upd(1), rotated]) simp
qed

lemma finish_pfx_keeps:
  assumes "finish_pfx net k s = Inr t" "xfers_ok s"
  shows "xfers_ok t"
proof -
  define f where "f = pfx_fip (pxfer s k)"
  obtain s1 where s1: "(if fi_generated_locally (finfo s f) \<or> fi_upload_when_present (finfo s f)
         then Inr (finish_upload net f s)
         else if fi_status (finfo s f) \<ge> 0 then finish_download net f s
         else Inr s) = (Inr s1 :: CLIENT_STATE xfer)"
    and t: "t = upd_finfo f (\<lambda>x. x\<lparr>fi_pers_file_xfer := None\<rparr>)
                  (s1\<lparr>pers_file_xfers := remove1 k (pers_file_xfers s1)\<rparr>)"
    using assms(1) unfolding finish_pfx_def Let_def f_def [symmetric] andThen_Inr by blast
  have "no_more s s1" using s1 finish_upload_no_more finish_download_no_more by (auto split: if_splits)
  then show ?thesis unfolding t by (rule forget_pfx_keeps [OF no_more_keeps [OF _ assms(2)]])
qed

lemma finish_pfxs_keeps: "finish_pfxs net ks (a, s) = Inr (b, t) \<Longrightarrow> xfers_ok s \<Longrightarrow> xfers_ok t"
proof (induction ks arbitrary: a s)
  case (Cons k ks)
  show ?case
  proof (cases "pfx_pers_xfer_done (pxfer s k)")
    case True
    then obtain u where "finish_pfx net k s = Inr u" "finish_pfxs net ks (True, u) = Inr (b, t)"
      using Cons.prems(1) by (auto simp: andThen_Inr)
    then show ?thesis using Cons.IH finish_pfx_keeps Cons.prems(2) by blast
  next
    case False
    then show ?thesis using Cons.IH [of a s] Cons.prems by simp
  qed
qed simp

lemma new_pfx_keeps:
  assumes "new_pfx up f s = Inr t" "xfers_ok s"
  shows "xfers_ok t"
proof -
  define k where "k = fresh_pfxid s"
  have new: "k \<notin> set (pers_file_xfers s)"
    using fold_max_ge(2) [of k "pers_file_xfers s" 0] by (auto simp: k_def fresh_pfxid_def)
  obtain rv u where u: "pfx_init f up k (upd_pxfer k (PERS_FILE_XFER_new (now s)) s) = Inr (rv, u)"
    and t: "t = pfxs_insert k (upd_finfo f (\<lambda>x. x\<lparr>fi_pers_file_xfer := Some k\<rparr>) u)"
    using assms(1) by (auto simp: new_pfx_def k_def [symmetric] Let_def andThen_Inr)
  obtain y where y: "fi_project y = fi_project (finfo s f)"
    "u = upd_finfo f (\<lambda>_. y) (upd_pxfer k (\<lambda>p. p\<lparr>pfx_fxp := None, pfx_fip := f, pfx_is_upload := up,
            pfx_pers_xfer_done := False\<rparr>) (upd_pxfer k (PERS_FILE_XFER_new (now s)) s))"
    using u by (auto simp: pfx_init_def Let_def upd_defs split: option.splits
        dest!: get_url_url_free(1) url_free_fields(1))
  have "n_total t v = n_total s v" "n_project t v p = n_project s v p" for v p
    using y(1) by (auto simp: t y(2) n_total_def n_project_def upd_defs pfxs_insert_def intro!: arg_cong [where f = length] filter_cong)
  moreover have "linked t"
    using assms(2) new unfolding linked_def xfers_ok_def by (auto simp: t y(2) upd_defs pfxs_insert_def)
  ultimately show ?thesis
    using assms(2) by (auto simp: xfers_ok_def within_limits_def queries_ok_def t y(2) upd_defs pfxs_insert_def)
qed

lemma start_pfxs_keeps: "start_pfxs fs (a, s) = Inr (b, t) \<Longrightarrow> xfers_ok s \<Longrightarrow> xfers_ok t"
proof (induction fs arbitrary: a s)
  case (Cons f fs)
  have "start_pfxs fs (a, s) = Inr (b, t) \<or> (\<exists>up u. new_pfx up f s = Inr u \<and> start_pfxs fs (True, u) = Inr (b, t))"
    using Cons.prems(1) by (auto simp: andThen_Inr Let_def split: if_splits)
  then show ?case using Cons.IH new_pfx_keeps Cons.prems(2) by blast
qed simp

lemma handle_keeps:
  assumes "handle_pers_file_xfers net s = Inr (b, t)" "xfers_ok s"
  shows "xfers_ok t"
proof (cases "now s - hpfx_last_time s < 1")
  case True
  then show ?thesis using assms by (simp add: handle_pers_file_xfers_def)
next
  case False
  then obtain a u where "start_pfxs (file_infos s) (False, s\<lparr>hpfx_last_time := now s\<rparr>) = Inr (a, u)"
    "finish_pfxs net (pers_file_xfers u) (a, u) = Inr (b, t)"
    using assms(1) by (auto simp: handle_pers_file_xfers_def andThen_Inr)
  then show ?thesis
    using start_pfxs_keeps finish_pfxs_keeps no_more_keeps [OF no_more_fields(3) assms(2)] by blast
qed

text \<open>
  \<open>FILE_XFER_SET::poll\<close>: an upload that continues leaves the set and comes back; the operations in
  the set stay the same.
\<close>

definition same_set :: "CLIENT_STATE \<Rightarrow> CLIENT_STATE \<Rightarrow> bool" where
  "same_set s t = (no_more s t \<and> mset (file_xfers t) = mset (file_xfers s))"

lemma same_set_trans: "same_set s t \<Longrightarrow> same_set t u \<Longrightarrow> same_set s u"
  using no_more_trans by (auto simp: same_set_def)

lemma same_set_refl [simp]: "same_set s s"
  by (simp add: same_set_def)

lemma same_set_upd:
  "(\<And>x. fi_project (g x) = fi_project x) \<Longrightarrow> same_set s (upd_finfo f g s)"
  "(\<And>t. fx_is_upload (i t) = fx_is_upload t \<and> fx_fip (i t) = fx_fip t
      \<and> fx_file_size_query (i t) = fx_file_size_query t) \<Longrightarrow> same_set s (upd_fxfer x i s)"
  "same_set s (set_retval e x s)"
proof -
  show 1: "same_set s (upd_fxfer x i s)" if "\<And>t. fx_is_upload (i t) = fx_is_upload t \<and> fx_fip (i t) = fx_fip t
      \<and> fx_file_size_query (i t) = fx_file_size_query t" for i
    using no_more_upd(3) [of i s x] that by (simp add: same_set_def upd_defs)
  show "same_set s (set_retval e x s)" unfolding set_retval_def by (rule 1) simp
  show "same_set s (upd_finfo f g s)" if "\<And>x. fi_project (g x) = fi_project x"
    using no_more_upd(1) [of g s f] that by (simp add: same_set_def upd_defs)
qed

lemma bandwidth_set [simp]: "file_xfers (set_bandwidth_limits u s) = file_xfers s"
proof -
  have "file_xfers (fold (\<lambda>x s. if same_direction s u x
      then upd_fxfer x (\<lambda>f. f\<lparr>fx_speed_limit := share\<rparr>) s else s) xs t) = file_xfers t" for share xs t
    by (rule fold_frame [where v = file_xfers]) (simp add: upd_defs)
  then show ?thesis by (simp add: set_bandwidth_limits_def Let_def)
qed

lemma requeue_same_set:
  assumes "x \<in> set (file_xfers s)"
  shows "same_set s (snd (fxs_insert x (snd (fxs_remove x s))))"
proof -
  define t where "t = s\<lparr>file_xfers := remove1 x (file_xfers s)\<rparr>"
  define u where "u = set_bandwidth_limits (fx_is_upload (fxfer s x)) t"
  have u: "no_more t u" "file_xfers u = remove1 x (file_xfers s)"
    by (simp_all add: u_def no_more_bandwidth t_def)
  define v where "v = u\<lparr>file_xfers := file_xfers u @ [x]\<rparr>"
  have m: "mset (file_xfers v) = mset (file_xfers s)" using assms by (simp add: v_def u(2))
  have "no_more s v" using u(1) m by (auto simp: no_more_def v_def t_def)
  then have "same_set s v" using m by (simp add: same_set_def)
  moreover have "snd (fxs_insert x (snd (fxs_remove x s))) = set_bandwidth_limits (fx_is_upload (fxfer u x)) v"
    using assms by (simp add: fxs_insert_def fxs_remove_def v_def u_def t_def)
  ultimately show ?thesis
    using same_set_trans [of s v] no_more_bandwidth by (simp add: same_set_def)
qed

lemma size_query_same_set:
  assumes "size_query_done net x s = Inr t" "fx_is_upload (fxfer s x)" "x \<in> set (file_xfers s)"
  shows "same_set s t"
proof -
  define f where "f = fx_fip (fxfer s x)"
  define s0 where "s0 = upd_fxfer x (\<lambda>t. t\<lparr>fx_is_active := False\<rparr>) s"
  have s0: "same_set s s0" "fx_is_upload (fxfer s0 x)" "fx_fip (fxfer s0 x) = f"
    using assms(2) by (simp_all add: s0_def same_set_upd f_def, simp_all add: upd_defs)
  consider "t = upd_finfo f (\<lambda>i. i\<lparr>fi_upload_offset := -1\<rparr>) s"
    | "t = upd_fxfer x (\<lambda>t. t\<lparr>fx_file_xfer_done := True, fx_file_xfer_retval := 0\<rparr>) s"
    | rv s1 where "init_upload net f x s0 = Inr (rv, s1)"
        "t = set_retval rv x s1 \<or> t = upd_fxfer x (\<lambda>t. t\<lparr>fx_file_xfer_done := False,
           fx_file_xfer_retval := 0, fx_http_op_retval := 0\<rparr>) (snd (fxs_insert x (snd (fxs_remove x s1))))"
    using assms(1) unfolding size_query_done_def Let_def f_def [symmetric] s0_def [symmetric]
    by (auto simp: andThen_Inr fxs_insert_def split: if_splits)
  then show ?thesis
  proof cases
    case 3
    have i: "inits True f x s0 s1" using 3(1) by (rule init_upload_inits)
    then have "same_set s0 s1" using inits_no_more [OF i] s0(2,3) by (simp add: same_set_def inits_def)
    then have s1: "same_set s s1" using s0(1) same_set_trans by blast
    have "x \<in> set (file_xfers s1)" using i assms(3) by (simp add: inits_def s0_def upd_defs)
    note r = same_set_trans [OF s1 requeue_same_set [OF this]]
    show ?thesis
      using 3(2) same_set_trans [OF s1 same_set_upd(3)] same_set_trans [OF r same_set_upd(2)] by auto
  qed (simp_all add: same_set_upd)
qed

lemma http_result_same_set:
  assumes "http_result net rp x s = Inr t" "queries_ok s" "x \<in> set (file_xfers s)"
  shows "same_set s t"
proof -
  define s1 where "s1 = upd_fxfer x (\<lambda>f. f\<lparr>fx_file_xfer_done := True, fx_file_xfer_retval := fx_http_op_retval f\<rparr>) s"
  define f where "f = fx_fip (fxfer s1 x)"
  define s2 where "s2 = (if fx_is_upload (fxfer s1 x) then case parse_upload_response rp x of (status, nbytes) \<Rightarrow>
      set_retval status x (upd_finfo f (\<lambda>i. i\<lparr>fi_upload_offset := nbytes\<rparr>) s1) else s1)"
  have s1: "same_set s s1" by (simp add: s1_def same_set_upd)
  have "same_set s1 s2"
    using same_set_trans [OF same_set_upd(1) same_set_upd(3)] by (simp add: s2_def split: prod.split)
  then have s2: "same_set s s2" using s1 same_set_trans by blast
  have t: "t = s2 \<or> t = s1 \<or> t = upd_finfo f (\<lambda>i. i\<lparr>fi_error_msg := ''Local copy is at least as large as server copy''\<rparr>) s1
      \<or> fx_file_size_query (fxfer s2 x) \<and> size_query_done net x s2 = Inr t"
    using assms(1) unfolding http_result_def Let_def s1_def [symmetric] f_def [symmetric] s2_def [symmetric]
    by (auto split: if_splits)
  have "queries_ok s2" "x \<in> set (file_xfers s2)"
    using s2 assms(2,3) mset_eq_setD [of "file_xfers s2" "file_xfers s"]
    by (auto simp: same_set_def no_more_def queries_ok_def)
  then have "fx_file_size_query (fxfer s2 x) \<Longrightarrow> fx_is_upload (fxfer s2 x)" "x \<in> set (file_xfers s2)"
    by (auto simp: queries_ok_def)
  then have "size_query_done net x s2 = Inr t \<Longrightarrow> fx_file_size_query (fxfer s2 x) \<Longrightarrow> same_set s t"
    using size_query_same_set same_set_trans [OF s2] by blast
  then show ?thesis using t s1 s2 same_set_trans [OF s1 same_set_upd(1)] by auto
qed

lemma fxs_poll_one_same_set:
  assumes "fxs_poll_one net rp x (z, s) = Inr (z', t)" "queries_ok s" "x \<in> set (file_xfers s)"
  shows "same_set s t"
proof -
  have trim: "same_set u (snd (trim_head rp x z u))" for u z
    by (simp add: trim_head_def Let_def same_set_upd split: option.split)
  have "t = s \<or> (\<exists>u z. http_result net rp x s = Inr u \<and> (t = u \<or> t = snd (trim_head rp x z u)))"
    using assms(1) by (auto simp: fxs_poll_one_def andThen_Inr split: if_splits prod.splits) (metis snd_conv)+
  then show ?thesis
    using http_result_same_set [OF _ assms(2,3)] trim same_set_trans by auto blast+
qed

lemma fxs_poll_all_same_set:
  "fxs_poll_all net rp xs (z, s) = Inr (z', t) \<Longrightarrow> xfers_ok s \<Longrightarrow> set xs \<subseteq> set (file_xfers s) \<Longrightarrow> same_set s t"
proof (induction xs arbitrary: z s)
  case (Cons x xs)
  then obtain z1 u where u: "fxs_poll_one net rp x (z, s) = Inr (z1, u)" "fxs_poll_all net rp xs (z1, u) = Inr (z', t)"
    by (auto simp: andThen_Inr)
  have m: "same_set s u" using fxs_poll_one_same_set [OF u(1)] Cons.prems by (simp add: xfers_ok_def)
  then have "xfers_ok u" "set (file_xfers u) = set (file_xfers s)"
    using no_more_keeps Cons.prems(2) mset_eq_setD unfolding same_set_def by blast+
  then have "same_set u t" using Cons.IH [OF u(2)] Cons.prems(3) by simp
  then show ?case using same_set_trans [OF m] by blast
qed simp

lemma fxs_poll_keeps:
  assumes "fxs_poll net rp (z, s) = Inr (b, z', t)" "xfers_ok s"
  shows "xfers_ok t"
proof (cases "now s - fx_poll_last_time s < 1")
  case False
  then have "fxs_poll_all net rp (file_xfers s) (z, s\<lparr>fx_poll_last_time := now s\<rparr>) = Inr (z', t)"
    using assms(1) by (auto simp: fxs_poll_def andThen_Inr)
  then have "same_set (s\<lparr>fx_poll_last_time := now s\<rparr>) t"
    using fxs_poll_all_same_set no_more_keeps [OF no_more_fields(4) assms(2)] by auto
  then show ?thesis
    using no_more_keeps [OF _ no_more_keeps [OF no_more_fields(4) assms(2)]] by (auto simp: same_set_def)
qed (use assms in \<open>simp add: fxs_poll_def\<close>)

section \<open>Any interleaving of the transfer code\<close>

text \<open>
  A step is one call of the main loop into the transfer code, an abort requested by the user, the
  passing of time, or progress that libcurl reports on an operation.
\<close>

inductive xfer_step :: "CLIENT_STATE \<Rightarrow> CLIENT_STATE \<Rightarrow> bool" where
  poll: "pfxs_poll net s = Inr (b, t) \<Longrightarrow> xfer_step s t"
| http_poll: "fxs_poll net rp (sizes, s) = Inr (b, sizes', t) \<Longrightarrow> xfer_step s t"
| handle: "handle_pers_file_xfers net s = Inr (b, t) \<Longrightarrow> xfer_step s t"
| suspend: "xfer_step s (pfxs_suspend s)"
| abort: "xfer_step s (pfx_abort k s)"
| time: "xfer_step s (s\<lparr>now := t\<rparr>)"
| progress: "xfer_step s (upd_fxfer x (\<lambda>f. f\<lparr>fx_http_op_state := st, fx_http_op_retval := rv, fx_response := rs,
    fx_bytes_xferred := n, fx_is_active := a\<rparr>) s)"

lemma xfer_step_keeps: "xfer_step s t \<Longrightarrow> xfers_ok s \<Longrightarrow> xfers_ok t"
proof (induction rule: xfer_step.induct)
  case (time s t)
  have "no_more s (s\<lparr>now := t\<rparr>)" by (simp add: no_more_def)
  then show ?case using time no_more_keeps by blast
next
  case (progress s x st rv rs n a)
  show ?case by (rule no_more_keeps [OF no_more_upd(3) progress]) simp_all
qed (auto intro: pfxs_poll_keeps fxs_poll_keeps handle_keeps no_more_keeps [OF pfxs_suspend_no_more]
    no_more_keeps [OF pfx_abort_no_more])

text \<open>C6: From a state without HTTP operations, however the client polls its transfers, finishes,
  suspends and aborts them, and whatever libcurl and the servers answer, there are never more
  simultaneous uploads or downloads than \<open>max_file_xfers\<close>, and never more of one project than
  \<open>max_file_xfers_per_project\<close>.\<close>
theorem transfers_within_limits:
  assumes "xfer_step\<^sup>*\<^sup>* s t" "file_xfers s = []"
    "\<forall>k \<in> set (pers_file_xfers s). pfx_fxp (pxfer s k) = None"
    "0 \<le> cf_max_file_xfers (config t)" "0 \<le> cf_max_file_xfers_per_project (config t)"
  shows "int (length (filter (\<lambda>x. fx_is_upload (fxfer t x) = up) (file_xfers t))) \<le> cf_max_file_xfers (config t)
    \<and> int (length (filter (\<lambda>x. fx_is_upload (fxfer t x) = up \<and> fi_project (finfo t (fx_fip (fxfer t x))) = p)
         (file_xfers t))) \<le> cf_max_file_xfers_per_project (config t)"
proof -
  have "xfers_ok s"
    using assms(2,3) by (simp add: xfers_ok_def within_limits_def n_total_def n_project_def linked_def queries_ok_def)
  with assms(1) have "xfers_ok t" by (induction rule: rtranclp_induct) (auto intro: xfer_step_keeps)
  then have "n_total t up \<le> max 0 (cf_max_file_xfers (config t))"
    "n_project t up p \<le> max 0 (cf_max_file_xfers_per_project (config t))"
    by (simp_all add: xfers_ok_def within_limits_def)
  then show ?thesis using assms(4,5) by (simp add: n_total_def n_project_def max_def)
qed

text \<open>A client with one upload to start.\<close>

definition sample_net :: NET where
  "sample_net = \<lparr>nt_disk = sample_disk, nt_libcurl_exec = (\<lambda>_ _. (0, True)), nt_status_file = (\<lambda>_. True),
     nt_app_init_file = (\<lambda>_. 0)\<rparr>"

definition one_upload :: CLIENT_STATE where
  "one_upload = sample_state\<lparr>
     finfo := (\<lambda>_. sample_file_info\<lparr>fi_status := FILE_PRESENT, fi_urls := [''http://x/file_upload_handler''],
       fi_current_url := 0, fi_start_url := 0, fi_upload_when_present := True, fi_nbytes := 10\<rparr>),
     pers_file_xfers := [0], pxfer := (\<lambda>_. sample_pfx\<lparr>pfx_is_upload := True\<rparr>)\<rparr>"

lemma one_upload_poll: "\<exists>t. pfxs_poll sample_net one_upload = Inr (True, t) \<and> file_xfers t = [1]
    \<and> config t = sample_config"
  by (simp add: pfxs_poll_def one_upload_def sample_defs sample_net_def pfx_poll_def create_xfer_def
      start_new_file_xfer_def launch_xfer_def start_xfer_def init_upload_def current_url_def get_current_url_def
      init_post2_def fxs_insert_def set_bandwidth_limits_def max_bytes_sec_def upd_defs fresh_fxid_def Let_def
      FILE_XFER_new_def set_client_state_dirty_def List.map_filter_simps)

theorem transfers_within_limits_witness:
  "\<exists>t. xfer_step\<^sup>*\<^sup>* one_upload t \<and> file_xfers t = [1]
     \<and> int (length (filter (\<lambda>x. fx_is_upload (fxfer t x) = True) (file_xfers t))) \<le> 8"
proof -
  obtain t where t: "pfxs_poll sample_net one_upload = Inr (True, t)" "file_xfers t = [1]" "config t = sample_config"
    using one_upload_poll by blast
  have r: "xfer_step\<^sup>*\<^sup>* one_upload t" using xfer_step.poll [OF t(1)] by simp
  have "int (length (filter (\<lambda>x. fx_is_upload (fxfer t x) = True) (file_xfers t))) \<le> cf_max_file_xfers (config t)"
    by (rule transfers_within_limits [OF r, THEN conjunct1])
      (simp_all add: t(3) one_upload_def sample_defs)
  then show ?thesis using r t(2,3) by (auto simp: sample_config_def)
qed

end
