(* ===== verification/Transfer_Outcomes.thy ===== *)
theory Transfer_Outcomes
  imports Transfer_Limits
begin

text \<open>
  What becomes of a transfer: when a file counts as downloaded or uploaded, how long a failed
  transfer waits, what is kept of an interrupted download, how the bandwidth is shared, and where
  giving up goes wrong.
\<close>

section \<open>Waiting after a failure\<close>

lemma rand_ok_frame: "rand_src t = rand_src s \<Longrightarrow> rand_ok t = rand_ok s"
  by (simp add: rand_ok_def)

lemma exponential_backoff_frame:
  assumes "calculate_exponential_backoff n a b s = (d, t)"
  shows "\<exists>k. t = s\<lparr>rand_pos := k\<rparr>"
  using exponential_backoff_state [of n a b s] assms by simp

lemma file_xfer_failed_frame:
  "rand_src (file_xfer_failed u p s) = rand_src s" "now (file_xfer_failed u p s) = now s"
  "pers_retry_delay_min (file_xfer_failed u p s) = pers_retry_delay_min s"
  "pers_retry_delay_max (file_xfer_failed u p s) = pers_retry_delay_max s"
  "pxfer (file_xfer_failed u p s) = pxfer s"
  by (auto simp: file_xfer_failed_def Let_def upd_defs split: prod.split dest!: exponential_backoff_frame)

text \<open>After a failure on every URL, the next attempt is due between \<open>pers_retry_delay_min\<close> and
  \<open>pers_retry_delay_max\<close> from now.\<close>
theorem do_backoff_bounds:
  assumes "rand_ok s" "pers_retry_delay_min s \<le> pers_retry_delay_max s"
  shows "now s + pers_retry_delay_min s \<le> pfx_next_request_time (pxfer (do_backoff k s) k)
    \<and> pfx_next_request_time (pxfer (do_backoff k s) k) \<le> now s + pers_retry_delay_max s"
proof -
  define s1 where "s1 = (if \<not> ns_need_physical_connection (net_status s)
                then upd_pxfer k (\<lambda>p. p\<lparr>pfx_nretry := pfx_nretry p + 1\<rparr>) s else s)"
  define s2 where "s2 = file_xfer_failed (pfx_is_upload (pxfer s1 k)) (fi_project (finfo s1 (pfx_fip (pxfer s1 k)))) s1"
  obtain b s3 where b: "calculate_exponential_backoff (pfx_nretry (pxfer s2 k)) (pers_retry_delay_min s2)
      (pers_retry_delay_max s2) s2 = (b, s3)" by force
  have s2: "rand_ok s2" "now s2 = now s" "pers_retry_delay_min s2 = pers_retry_delay_min s"
    "pers_retry_delay_max s2 = pers_retry_delay_max s"
    using assms(1) by (simp_all add: s2_def s1_def file_xfer_failed_frame rand_ok_def upd_defs)
  have "pfx_next_request_time (pxfer (do_backoff k s) k) = now s + b"
    unfolding do_backoff_def s1_def [symmetric] s2_def [symmetric] Let_def b
    using exponential_backoff_frame [OF b] s2(2) by (auto simp: upd_defs)
  then show ?thesis
    using exponential_backoff_bounds [OF s2(1), of "pers_retry_delay_min s2" "pers_retry_delay_max s2"
        "pfx_nretry (pxfer s2 k)"] b s2(3,4) assms(2) by simp
qed

theorem do_backoff_bounds_witness:
  "1060 \<le> pfx_next_request_time (pxfer (do_backoff 0 sample_state) 0)"
  using do_backoff_bounds [of sample_state 0] by (simp add: sample_defs rand_ok_def)

section \<open>Giving up\<close>

text \<open>A transfer that has been failing for longer than the give-up period, and whose file has
  another URL to try, makes \<open>transient_failure\<close> dereference a \<open>NULL\<close> pointer: \<open>permanent_failure\<close>
  has freed the operation, and nothing returns before the next URL is started.\<close>
theorem give_up_dereferences_null:
  assumes "now s - pfx_first_request_time (pxfer s k) > file_xfer_giveup_period s"
    "permanent_failure ERR_TIMEOUT k s = Inr s1"
    "get_next_url (pfx_is_upload (pxfer s1 k)) (finfo s1 (pfx_fip (pxfer s k))) = Some (Some url, y)"
    "e \<noteq> HTTP_STATUS_RANGE_REQUEST_ERROR" "\<not> exit_before_upload s1"
  shows "transient_failure net e k s = Inl Null_Deref"
proof -
  have "pfx_fxp (pxfer s1 k) = None"
    using assms(2) by (auto simp: permanent_failure_def Let_def upd_defs split: option.splits)
  then show ?thesis
    using assms by (simp add: transient_failure_def Let_def next_url_def start_xfer_def upd_defs)
qed

definition hopeless :: CLIENT_STATE where
  "hopeless = sample_state\<lparr>now := 2000000,
     finfo := (\<lambda>_. sample_file_info\<lparr>fi_urls := [''http://a/f'', ''http://b/f''], fi_current_url := 0, fi_start_url := 0\<rparr>),
     pers_file_xfers := [0], pxfer := (\<lambda>_. sample_pfx\<lparr>pfx_fxp := Some 1\<rparr>), file_xfers := [1]\<rparr>"

lemma hopeless_facts:
  "\<exists>s1. permanent_failure ERR_TIMEOUT 0 hopeless = Inr s1 \<and> \<not> exit_before_upload s1
     \<and> pfx_is_upload (pxfer s1 0) = False \<and> fi_urls (finfo s1 0) = [''http://a/f'', ''http://b/f'']
     \<and> fi_current_url (finfo s1 0) = 0 \<and> fi_start_url (finfo s1 0) = 0"
  by (simp add: permanent_failure_def hopeless_def sample_defs fxs_remove_def set_bandwidth_limits_def
      max_bytes_sec_def delete_fxp_def upd_defs Let_def)

theorem give_up_dereferences_null_witness: "transient_failure sample_net 500 0 hopeless = Inl Null_Deref"
proof -
  obtain s1 where s1: "permanent_failure ERR_TIMEOUT 0 hopeless = Inr s1" "\<not> exit_before_upload s1"
    "pfx_is_upload (pxfer s1 0) = False" "fi_urls (finfo s1 0) = [''http://a/f'', ''http://b/f'']"
    "fi_current_url (finfo s1 0) = 0" "fi_start_url (finfo s1 0) = 0" using hopeless_facts by blast
  have "get_next_url False (finfo s1 0) = Some (Some ''http://b/f'', (finfo s1 0)\<lparr>fi_current_url := 1\<rparr>)"
    using s1(4-6) by (simp add: get_next_url_def next_url_loop.simps is_correct_url_type_def Let_def)
  then show ?thesis
    using give_up_dereferences_null [of hopeless 0 s1 _ _ 500 sample_net] s1
    by (simp add: hopeless_def sample_defs)
qed

section \<open>Downloads\<close>

lemma reread_files: "request_reread_prefs net p as s = Inr t \<Longrightarrow> finfo t = finfo s"
proof (induction as arbitrary: s)
  case (Cons a as)
  show ?case
  proof (cases "r_project (res s (at_result (task s a))) \<noteq> p \<or> \<not> process_exists (task s a)")
    case True
    then show ?thesis using Cons by auto
  next
    case False
    then obtain u where u: "request_reread_prefs_task net a s = Inr u" "request_reread_prefs net p as u = Inr t"
      using Cons.prems by (auto simp: andThen_Inr)
    have "finfo u = finfo s" using u(1) by (auto simp: request_reread_prefs_task_def upd_defs split: if_splits)
    then show ?thesis using Cons.IH [OF u(2)] by simp
  qed
qed simp


lemma checked_download: "\<exists>t. finish_download sample_net 7 checked_state = Inr t"
  by (simp add: finish_download_def verify_file_def check_md5_def checked_state_def sample_disk_def sample_net_def
      sample_defs Let_def upd_defs)


text \<open>When an HTTP error ends a download, the file keeps nothing of the last \<open>MIN_DOWNLOAD_INCREMENT\<close>
  bytes that arrived, which may be an error page, but all that was there before the operation
  started; only if the file cannot be truncated does it keep its length.\<close>
theorem http_error_cuts_tail:
  assumes "sizes (fx_fip (fxfer s x)) = Some n" "fx_http_op_retval (fxfer s x) \<noteq> 0"
    "fx_starting_size (fxfer s x) \<le> n" "rp_truncate rp (fx_fip (fxfer s x))"
  shows "cut_tail rp s x sizes = (False, sizes(fx_fip (fxfer s x) \<mapsto> max (fx_starting_size (fxfer s x)) (n - 5000)))"
  using assms by (auto simp: cut_tail_def Let_def max_def)

theorem http_error_cuts_tail_witness:
  "cut_tail \<lparr>rp_file_size = (\<lambda>_. None), rp_status = (\<lambda>_. None), rp_truncate = (\<lambda>_. True), rp_fopen = (\<lambda>_. True),
      rp_fopen_temp = True\<rparr>
    (sample_state\<lparr>fxfer := (\<lambda>_. sample_fx\<lparr>fx_starting_size := 2000, fx_http_op_retval := 500\<rparr>)\<rparr>) 1 (\<lambda>_. Some 20000)
   = (False, (\<lambda>_. Some 20000)(0 \<mapsto> 15000))"
  using http_error_cuts_tail [of "\<lambda>_. Some 20000"
      "sample_state\<lparr>fxfer := (\<lambda>_. sample_fx\<lparr>fx_starting_size := 2000, fx_http_op_retval := 500\<rparr>)\<rparr>" 1 20000
      "\<lparr>rp_file_size = (\<lambda>_. None), rp_status = (\<lambda>_. None), rp_truncate = (\<lambda>_. True), rp_fopen = (\<lambda>_. True),
      rp_fopen_temp = True\<rparr>"]
  by (simp add: sample_defs)

section \<open>Uploads\<close>

lemma upload_notify_files: "finfo (upload_notify_app net f s) = finfo s"
  unfolding upload_notify_app_def by (rule fold_frame) (simp add: upd_defs)

text \<open>An upload that failed for good is treated like one that succeeded when its persistent
  transfer is finished: the file is marked as uploaded, and unless it is sticky the error in its
  status is erased, so that the result no longer shows a failure for it.\<close>
theorem failed_upload_marked_uploaded:
  assumes "pfx_fip (pxfer s k) = f" "fi_upload_when_present (finfo s f)" "fi_status (finfo s f) = e" "e < 0"
    "finish_pfx net k s = Inr t"
  shows "fi_uploaded (finfo t f) \<and> had_failure (finfo s f) = Some e
    \<and> (\<not> fi_sticky (finfo s f) \<longrightarrow> had_failure (finfo t f) = None)"
proof -
  have t: "t = upd_finfo f (\<lambda>x. x\<lparr>fi_pers_file_xfer := None\<rparr>) ((finish_upload net f s)\<lparr>pers_file_xfers :=
      remove1 k (pers_file_xfers (finish_upload net f s))\<rparr>)"
    using assms(1,2,5) by (simp add: finish_pfx_def Let_def)
  have "finfo (finish_upload net f s) f =
      (if fi_sticky (finfo s f) then finfo s f else delete_file (finfo s f))\<lparr>fi_uploaded := True\<rparr>"
    by (simp add: finish_upload_def Let_def upload_notify_files upd_defs)
  then show ?thesis using assms(3,4) by (simp add: t upd_defs had_failure_def delete_file_def)
qed

definition failed_upload :: CLIENT_STATE where
  "failed_upload = one_upload\<lparr>finfo := (\<lambda>_. sample_file_info\<lparr>fi_status := ERR_UPLOAD_PERMANENT,
     fi_upload_when_present := True\<rparr>)\<rparr>"

lemma failed_upload_finishes: "\<exists>t. finish_pfx sample_net 0 failed_upload = Inr t"
  by (simp add: finish_pfx_def failed_upload_def one_upload_def sample_defs Let_def)

theorem failed_upload_marked_uploaded_witness:
  "\<exists>t. finish_pfx sample_net 0 failed_upload = Inr t \<and> fi_uploaded (finfo t 0) \<and> had_failure (finfo t 0) = None"
proof -
  obtain t where t: "finish_pfx sample_net 0 failed_upload = Inr t" using failed_upload_finishes by blast
  show ?thesis
    using failed_upload_marked_uploaded [OF _ _ _ _ t, of 0 ERR_UPLOAD_PERMANENT] t
    by (simp add: failed_upload_def one_upload_def sample_defs)
qed

section \<open>Bandwidth\<close>

lemma bandwidth_fold:
  assumes "distinct xs"
  shows "fxfer (fold (\<lambda>x s. if same_direction s u x then upd_fxfer x (\<lambda>f. f\<lparr>fx_speed_limit := share\<rparr>) s else s) xs s) y
    = (if y \<in> set xs \<and> same_direction s u y then (fxfer s y)\<lparr>fx_speed_limit := share\<rparr> else fxfer s y)"
  using assms
proof (induction xs arbitrary: s)
  case (Cons x xs)
  define t where "t = (if same_direction s u x then upd_fxfer x (\<lambda>f. f\<lparr>fx_speed_limit := share\<rparr>) s else s)"
  have dir: "same_direction t u y = same_direction s u y" by (simp add: t_def same_direction_def upd_defs)
  have "fxfer t y = (if y = x \<and> same_direction s u x then (fxfer s y)\<lparr>fx_speed_limit := share\<rparr> else fxfer s y)"
    by (simp add: t_def upd_defs)
  then show ?case using Cons.IH [of t] Cons.prems dir by (auto simp: t_def [symmetric])
qed simp

text \<open>When a transfer is inserted and a bandwidth limit is set for its direction, the active
  transfers of that direction together are allowed exactly the limit, and no two of them differ.\<close>
theorem insert_shares_bandwidth:
  assumes "snd (fxs_insert x s) = t" "distinct (file_xfers s)" "x \<notin> set (file_xfers s)" "fx_is_active (fxfer s x)"
    "fx_is_upload (fxfer s x) = u" "max_bytes_sec s u \<noteq> 0"
  shows "(\<Sum>y \<leftarrow> filter (same_direction t u) (file_xfers t). fx_speed_limit (fxfer t y)) = max_bytes_sec s u
    \<and> (\<forall>y \<in> set (file_xfers t). same_direction t u y \<longrightarrow> fx_speed_limit (fxfer t y) = fx_speed_limit (fxfer t x))"
proof -
  define s1 where "s1 = s\<lparr>file_xfers := file_xfers s @ [x]\<rparr>"
  define ys where "ys = filter (same_direction s1 u) (file_xfers s1)"
  define share where "share = max_bytes_sec s u / real (length ys)"
  have x: "x \<in> set ys" using assms(4,5) by (simp add: ys_def s1_def same_direction_def)
  then have n: "length ys \<noteq> 0" by auto
  have dist: "distinct (file_xfers s1)" using assms(2,3) by (simp add: s1_def)
  have "max_bytes_sec s1 u = max_bytes_sec s u" by (simp add: s1_def max_bytes_sec_def)
  then have t: "t = fold (\<lambda>x s. if same_direction s u x
      then upd_fxfer x (\<lambda>f. f\<lparr>fx_speed_limit := share\<rparr>) s else s) (file_xfers s1) s1"
    using assms(1,5,6) n unfolding share_def
    by (simp add: fxs_insert_def set_bandwidth_limits_def s1_def [symmetric] Let_def ys_def [symmetric])
  have fx: "fxfer t y = (if y \<in> set ys then (fxfer s1 y)\<lparr>fx_speed_limit := share\<rparr> else fxfer s1 y)" for y
    unfolding t bandwidth_fold [OF dist] by (simp add: ys_def)
  have dir: "same_direction t u y = same_direction s1 u y" for y by (simp add: same_direction_def fx)
  have xs: "file_xfers t = file_xfers s1" using assms(1) by (simp add: fxs_insert_def s1_def flip: assms(1))
  have ys: "filter (same_direction t u) (file_xfers t) = ys" unfolding xs ys_def by (rule filter_cong) (simp_all add: dir)
  have "(\<Sum>y \<leftarrow> ys. fx_speed_limit (fxfer t y)) = (\<Sum>y \<leftarrow> ys. share)"
    by (rule arg_cong [where f = sum_list], rule map_cong) (simp_all add: fx)
  also have "\<dots> = max_bytes_sec s u" using n by (simp add: sum_list_triv share_def)
  finally show ?thesis using x fx ys by (auto simp: dir xs ys_def)
qed

definition busy_uploads :: CLIENT_STATE where
  "busy_uploads = sample_state\<lparr>global_prefs := sample_prefs\<lparr>gp_max_bytes_sec_up := 1000\<rparr>, file_xfers := [1],
     fxfer := (\<lambda>_. sample_fx\<lparr>fx_is_upload := True, fx_is_active := True\<rparr>)\<rparr>"

theorem insert_shares_bandwidth_witness:
  "(\<Sum>y \<leftarrow> filter (same_direction (snd (fxs_insert 2 busy_uploads)) True) (file_xfers (snd (fxs_insert 2 busy_uploads))).
      fx_speed_limit (fxfer (snd (fxs_insert 2 busy_uploads)) y)) = 1000"
  using insert_shares_bandwidth [of 2 busy_uploads "snd (fxs_insert 2 busy_uploads)" True]
  by (simp add: busy_uploads_def sample_defs max_bytes_sec_def)

end
