(* ===== verification/Result_Lifecycle.thy ===== *)
theory Result_Lifecycle
  imports Enforce_Schedule File_Transfer
begin

text \<open>
  The states a result goes through once it is on the host: \<open>CLIENT_STATE::update_results\<close>
  (\<open>client/client_state.C\<close>), which waits for its files, and \<open>app_finished\<close> and
  \<open>handle_finished_apps\<close> (\<open>client/cs_apps.C\<close>), which take over the output of its task.
\<close>

section \<open>A task has finished\<close>

text \<open>
  What the disk says when a task is done: the sizes of the output files, the return values of
  \<open>FILE_INFO::gzip\<close>, and the return value, digest and length of \<open>md5_file\<close> after it.
\<close>

record OUTPUTS =
  od_file_size :: "fid \<Rightarrow> real option"
  od_gzip :: "fid \<Rightarrow> int"
  od_md5_file :: "fid \<Rightarrow> int \<times> string \<times> real"

text \<open>\<open>md5_file\<close> clears the length before it opens the file and writes the digest when it is done.\<close>

definition md5_into :: "OUTPUTS \<Rightarrow> fid \<Rightarrow> FILE_INFO \<Rightarrow> int \<times> FILE_INFO" where
  "md5_into od f x = (case od_md5_file od f of (retval, cksum, n) \<Rightarrow>
     (retval, if retval \<noteq> 0 then x\<lparr>fi_nbytes := 0\<rparr> else x\<lparr>fi_md5_cksum := cksum, fi_nbytes := n\<rparr>))"

text \<open>One output file: whether there was an error, and its new record.\<close>

definition keep_output :: "OUTPUTS \<Rightarrow> fid \<Rightarrow> FILE_INFO \<Rightarrow> bool \<times> FILE_INFO" where
  "keep_output od f x =
     (let retval = (if fi_gzip_when_done x then od_gzip od f else 0);
          (retval2, y) = (if retval = 0 then md5_into od f x else (retval, x))
      in if retval2 \<noteq> 0 then (True, y\<lparr>fi_status := retval2\<rparr>) else (False, y\<lparr>fi_status := FILE_PRESENT\<rparr>))"

definition finish_output :: "OUTPUTS \<Rightarrow> FILE_REF \<Rightarrow> FILE_INFO \<Rightarrow> bool \<times> FILE_INFO" where
  "finish_output od fr x =
     (if fi_uploaded x then (False, x)
      else case od_file_size od (fr_file_info fr) of
        None \<Rightarrow> if fr_optional fr then (False, x\<lparr>fi_upload_when_present := False\<rparr>)
                else (True, x\<lparr>fi_status := ERR_NOT_FOUND\<rparr>)
      | Some sz \<Rightarrow>
          if sz > fi_max_nbytes x then (True, (delete_file x)\<lparr>fi_status := ERR_FILE_TOO_BIG\<rparr>)
          else if \<not> fi_upload_when_present x \<and> \<not> fi_sticky x then (False, delete_file x)
          else keep_output od (fr_file_info fr) x)"

definition finish_outputs :: "OUTPUTS \<Rightarrow> FILE_REF list \<Rightarrow> CLIENT_STATE \<Rightarrow> bool \<times> CLIENT_STATE" where
  "finish_outputs od frs s = fold (\<lambda>fr (had_error, s).
     case finish_output od fr (finfo s (fr_file_info fr)) of (e, x) \<Rightarrow>
       (had_error \<or> e, upd_finfo (fr_file_info fr) (\<lambda>_. x) s)) frs (False, s)"

definition aborted_status :: "int \<Rightarrow> bool" where
  "aborted_status e = (e = ERR_ABORTED_VIA_GUI \<or> e = ERR_ABORTED_BY_PROJECT)"

definition charge_finished :: "aid \<Rightarrow> CLIENT_STATE \<Rightarrow> CLIENT_STATE" where
  "charge_finished a s =
     (let wall_cpu_time = now s - debt_interval_start s;
          s1 = upd_proj (r_project (res s (at_result (task s a)))) (\<lambda>p. p\<lparr>p_wall_cpu_time_this_debt_interval :=
                 p_wall_cpu_time_this_debt_interval p + wall_cpu_time\<rparr>) s
      in s1\<lparr>total_wall_cpu_time_this_debt_interval := total_wall_cpu_time_this_debt_interval s1 + wall_cpu_time,
            total_cpu_time_this_debt_interval := total_cpu_time_this_debt_interval s1
              + (at_current_cpu_time (task s1 a) - at_debt_interval_start_cpu_time (task s1 a))\<rparr>)"

definition app_finished :: "OUTPUTS \<Rightarrow> aid \<Rightarrow> CLIENT_STATE \<Rightarrow> CLIENT_STATE" where
  "app_finished od a s =
     (let r = at_result (task s a);
          e = r_exit_status (res s r);
          (bad_file, s1) = (if aborted_status e then (False, s) else finish_outputs od (r_output_files (res s r)) s);
          had_error = (bad_file \<or> e \<noteq> 0);
          s2 = (if had_error
                then set_state (if aborted_status e then RESULT_ABORTED else RESULT_COMPUTE_ERROR) r s1
                else update_duration_correction_factor r (r_avp (res s1 r)) (set_state RESULT_FILES_UPLOADING r s1))
      in charge_finished a s2)"

definition task_finished :: "TASK_STATE \<Rightarrow> bool" where
  "task_finished st = (st \<in> {PROCESS_EXITED, PROCESS_WAS_SIGNALED, PROCESS_EXIT_UNKNOWN,
     PROCESS_COULDNT_START, PROCESS_ABORTED})"

definition finish_task :: "OUTPUTS \<Rightarrow> aid \<Rightarrow> CLIENT_STATE \<Rightarrow> CLIENT_STATE" where
  "finish_task od a s =
     (let s1 = app_finished od a s
      in request_schedule_cpus (set_client_state_dirty (s1\<lparr>active_tasks := remove1 a (active_tasks s1)\<rparr>)))"

definition handle_finished_apps :: "OUTPUTS \<Rightarrow> CLIENT_STATE \<Rightarrow> bool \<times> CLIENT_STATE" where
  "handle_finished_apps od s =
     (if now s - finished_apps_last_time s < 1 then (False, s)
      else fold (\<lambda>a (action, s).
        if task_finished (at_task_state (task s a)) then (True, finish_task od a s) else (action, s))
        (active_tasks s) (False, s\<lparr>finished_apps_last_time := now s\<rparr>))"

section \<open>How far a task has got\<close>

definition force_fraction :: "real \<Rightarrow> real" where
  "force_fraction f = (if f < 0 then 0 else if f > 1 then 1 else f)"

definition get_fraction_done :: "CLIENT_STATE \<Rightarrow> rid \<Rightarrow> real" where
  "get_fraction_done s r = (case find (\<lambda>a. at_result (task s a) = r) (active_tasks s) of
     None \<Rightarrow> 0 | Some a \<Rightarrow> force_fraction (at_fraction_done (task s a)))"

section \<open>Waiting for files\<close>

text \<open>The files that are missing are wanted now.\<close>

definition want_missing :: "fid set \<Rightarrow> CLIENT_STATE \<Rightarrow> CLIENT_STATE" where
  "want_missing missing s = s\<lparr>finfo := (\<lambda>f.
     if f \<in> missing \<and> fi_status (finfo s f) = FILE_NOT_PRESENT_NOT_NEEDED
     then (finfo s f)\<lparr>fi_status := FILE_NOT_PRESENT\<rparr> else finfo s f)\<rparr>"

definition update_downloading :: "DISK \<Rightarrow> rid \<Rightarrow> CLIENT_STATE \<Rightarrow> bool \<times> CLIENT_STATE" where
  "update_downloading dk r s =
     (case input_files_available dk r False True s of (retval, missing, s1) \<Rightarrow>
      if retval = 0
      then let s2 = set_state RESULT_FILES_DOWNLOADED r s1
           in (True, if av_app_files (appver s2 (r_avp (res s2 r))) = []
                     then clear_uploaded_flags r (set_state RESULT_FILES_UPLOADING r s2)
                     else request_schedule_cpus s2)
      else (False, want_missing missing s1))"

definition mark_completed :: "rid \<Rightarrow> CLIENT_STATE \<Rightarrow> CLIENT_STATE" where
  "mark_completed r s = upd_res r (\<lambda>x. x\<lparr>r_ready_to_report := True, r_completed_time := now s\<rparr>) s"

definition update_result :: "DISK \<Rightarrow> rid \<Rightarrow> CLIENT_STATE \<Rightarrow> bool \<times> CLIENT_STATE" where
  "update_result dk r s =
     (let st = r_state (res s r) in
      if st = RESULT_NEW then (True, set_state RESULT_FILES_DOWNLOADING r s)
      else if st = RESULT_FILES_DOWNLOADING then update_downloading dk r s
      else if st = RESULT_FILES_UPLOADING
      then if is_upload_done s r then (True, set_state RESULT_FILES_UPLOADED r (mark_completed r s)) else (False, s)
      else if st = RESULT_ABORTED
      then if \<not> r_ready_to_report (res s r) then (True, mark_completed r s) else (False, s)
      else (False, s))"

definition update_results :: "DISK \<Rightarrow> CLIENT_STATE \<Rightarrow> bool \<times> CLIENT_STATE" where
  "update_results dk s =
     (if now s - update_results_last_time s < 1 then (False, s)
      else fold (\<lambda>r (action, s). case update_result dk r s of (b, s1) \<Rightarrow> (action \<or> b, s1))
        (results s) (False, s\<lparr>update_results_last_time := now s\<rparr>))"

section \<open>The outcome of a finished task\<close>

text \<open>\<open>output_ok\<close>: the file was uploaded before, or it may be absent and is, or it is within its limit
  and, if it is to be kept, could be compressed and read.\<close>

definition output_ok :: "OUTPUTS \<Rightarrow> CLIENT_STATE \<Rightarrow> FILE_REF \<Rightarrow> bool" where
  "output_ok od s fr =
     (let f = fr_file_info fr; x = finfo s f in
      fi_uploaded x
      \<or> (case od_file_size od f of
           None \<Rightarrow> fr_optional fr
         | Some sz \<Rightarrow> sz \<le> fi_max_nbytes x
             \<and> (fi_upload_when_present x \<or> fi_sticky x
                \<longrightarrow> (fi_gzip_when_done x \<longrightarrow> od_gzip od f = 0) \<and> fst (od_md5_file od f) = 0)))"

lemma finish_output_error: "fst (finish_output od fr (finfo s (fr_file_info fr))) = (\<not> output_ok od s fr)"
  by (auto simp: finish_output_def output_ok_def keep_output_def md5_into_def Let_def split: option.split prod.split if_splits)

lemma finish_outputs_result:
  assumes "distinct (map fr_file_info frs)"
  shows "fst (finish_outputs od frs s) = (\<not> list_all (output_ok od s) frs)"
    "fr \<in> set frs \<Longrightarrow> finfo (snd (finish_outputs od frs s)) (fr_file_info fr) = snd (finish_output od fr (finfo s (fr_file_info fr)))"
    "\<exists>g. snd (finish_outputs od frs s) = s\<lparr>finfo := g\<rparr>"
proof -
  define body where "body = (\<lambda>fr (had_error, s). case finish_output od fr (finfo s (fr_file_info fr)) of (e, x) \<Rightarrow>
       (had_error \<or> e, upd_finfo (fr_file_info fr) (\<lambda>_. x) s))"
  have "(fst (fold body frs (h, s)) = (h \<or> \<not> list_all (output_ok od s) frs))
    \<and> (\<forall>fr \<in> set frs. finfo (snd (fold body frs (h, s))) (fr_file_info fr) = snd (finish_output od fr (finfo s (fr_file_info fr))))
    \<and> (\<forall>f. f \<notin> fr_file_info ` set frs \<longrightarrow> finfo (snd (fold body frs (h, s))) f = finfo s f)
    \<and> (\<exists>g. snd (fold body frs (h, s)) = s\<lparr>finfo := g\<rparr>)" for h
    using assms
  proof (induction frs arbitrary: h s)
    case Nil
    show ?case by (auto intro: exI [of _ "finfo s"])
  next
    case (Cons fr frs)
    obtain e x where o: "finish_output od fr (finfo s (fr_file_info fr)) = (e, x)" by fastforce
    let ?s1 = "upd_finfo (fr_file_info fr) (\<lambda>_. x) s"
    have e: "e = (\<not> output_ok od s fr)" using finish_output_error [of od fr s] o by simp
    have other: "finfo ?s1 g = finfo s g" if "g \<noteq> fr_file_info fr" for g using that by (simp add: upd_finfo_def)
    have fn: "finfo ?s1 (fr_file_info q) = finfo s (fr_file_info q)" if "q \<in> set frs" for q
      using that Cons.prems by (intro other) (metis distinct.simps(2) image_eqI list.set_map list.simps(9))
    have "output_ok od ?s1 q = output_ok od s q" if "q \<in> set frs" for q
      using fn [OF that] by (simp add: output_ok_def)
    then have oks: "list_all (output_ok od ?s1) frs = list_all (output_ok od s) frs" by (auto simp: list_all_iff)
    have step: "fold body (fr # frs) (h, s) = fold body frs (h \<or> e, ?s1)" by (simp add: body_def o)
    have u: "\<exists>g. s\<lparr>finfo := F\<rparr>\<lparr>finfo := G\<rparr> = s\<lparr>finfo := g\<rparr>" for F G by (rule exI [of _ G]) simp
    note ih = Cons.IH [of "h \<or> e" ?s1] 
    have d: "distinct (map fr_file_info frs)" "fr_file_info fr \<notin> fr_file_info ` set frs" using Cons.prems by auto
    have "finfo (snd (fold body frs (h \<or> e, ?s1))) (fr_file_info fr) = x"
      using ih d by (simp add: upd_finfo_def)
    moreover have "\<exists>g. snd (fold body frs (h \<or> e, ?s1)) = s\<lparr>finfo := g\<rparr>"
      using ih d(1) u by (auto simp: upd_finfo_def)
    ultimately show ?case unfolding step using ih d fn oks e o other by auto
  qed
  from this [of False] show "fst (finish_outputs od frs s) = (\<not> list_all (output_ok od s) frs)"
    "fr \<in> set frs \<Longrightarrow> finfo (snd (finish_outputs od frs s)) (fr_file_info fr) = snd (finish_output od fr (finfo s (fr_file_info fr)))"
    "\<exists>g. snd (finish_outputs od frs s) = s\<lparr>finfo := g\<rparr>"
    by (simp_all add: finish_outputs_def body_def)
qed

lemma charge_finished_frame [frame_simps]:
  "res (charge_finished a s) = res s" "finfo (charge_finished a s) = finfo s"
  by (simp_all add: charge_finished_def Let_def upd_proj_def)

lemma set_state_frame [frame_simps]:
  "r_state (res (set_state v r s) r) = v" "finfo (set_state v r s) = finfo s"
  "q \<noteq> r \<Longrightarrow> res (set_state v r s) q = res s q"
  by (simp_all add: set_state_def upd_res_def)

lemma update_dcf_frame [frame_simps]:
  "res (update_duration_correction_factor r v s) = res s" "finfo (update_duration_correction_factor r v s) = finfo s"
  by (simp_all add: update_duration_correction_factor_def Let_def upd_appver_def)

lemma aborted_status_0 [simp]: "\<not> aborted_status 0"
  by (simp add: aborted_status_def)

text \<open>C15: When a task has finished, its result goes on to upload exactly if it exited with status zero
  and every output file is in order; it is marked as aborted if the user or the project aborted it, and
  as a compute error otherwise. Each output file that is kept is then marked present with the digest
  and the length that were read, and one that is unexpectedly absent or too large has a failure
  status.\<close>

theorem app_finished_outcome:
  assumes "distinct (map fr_file_info (r_output_files (res s (at_result (task s a)))))"
  shows "let r = at_result (task s a); e = r_exit_status (res s r); frs = r_output_files (res s r); t = app_finished od a s in
    r_state (res t r) = (if aborted_status e then RESULT_ABORTED
      else if e = 0 \<and> list_all (output_ok od s) frs then RESULT_FILES_UPLOADING else RESULT_COMPUTE_ERROR)
    \<and> (\<not> aborted_status e \<longrightarrow> (\<forall>fr \<in> set frs. let f = fr_file_info fr; x = finfo s f; y = finfo t f in \<not> fi_uploaded x \<longrightarrow>
        (case od_file_size od f of
           None \<Rightarrow> (if fr_optional fr then \<not> fi_upload_when_present y else had_failure y = Some ERR_NOT_FOUND)
         | Some sz \<Rightarrow> if sz > fi_max_nbytes x then had_failure y = Some ERR_FILE_TOO_BIG
             else if fi_upload_when_present x \<or> fi_sticky x
             then output_ok od s fr \<longrightarrow> fi_status y = FILE_PRESENT \<and> od_md5_file od f = (0, fi_md5_cksum y, fi_nbytes y)
             else fi_status y = FILE_NOT_PRESENT)))"
proof -
  let ?r = "at_result (task s a)"
  let ?frs = "r_output_files (res s ?r)"
  let ?e = "r_exit_status (res s ?r)"
  let ?fo = "finish_outputs od ?frs s"
  note fo = finish_outputs_result [OF assms, where od = od and s = s]
  obtain g where g: "snd ?fo = s\<lparr>finfo := g\<rparr>" using fo(3) by blast
  have st: "r_state (res (app_finished od a s) ?r) = (if aborted_status ?e then RESULT_ABORTED
      else if ?e = 0 \<and> list_all (output_ok od s) ?frs then RESULT_FILES_UPLOADING else RESULT_COMPUTE_ERROR)"
    using fo(1) by (auto simp: app_finished_def Let_def split_beta frame_simps aborted_status_def)
  have fi: "finfo (app_finished od a s) (fr_file_info fr) = snd (finish_output od fr (finfo s (fr_file_info fr)))"
    if "\<not> aborted_status ?e" "fr \<in> set ?frs" for fr
    using fo(2) [OF that(2)] that(1) by (simp add: app_finished_def Let_def split_beta frame_simps)
  show ?thesis
    unfolding Let_def using st
    by (auto simp: fi finish_output_def keep_output_def md5_into_def output_ok_def delete_file_def had_failure_def Let_def
        split: option.split prod.splits if_splits)
qed

text \<open>The task of result 0 has produced file 7, which is to be uploaded, and exited with status zero.\<close>

definition finished_state :: CLIENT_STATE where
  "finished_state = sample_state\<lparr>active_tasks := [0], file_infos := [7],
     finfo := (\<lambda>_. sample_file_info\<lparr>fi_upload_when_present := True, fi_max_nbytes := 100\<rparr>),
     res := (\<lambda>_. sample_result\<lparr>r_output_files := [\<lparr>fr_file_name = [], fr_open_name = [],
       fr_main_program = False, fr_file_info = 7, fr_copy_file = False, fr_optional = False\<rparr>]\<rparr>)\<rparr>"

definition sample_outputs :: OUTPUTS where
  "sample_outputs = \<lparr>od_file_size = (\<lambda>_. Some 10), od_gzip = (\<lambda>_. 0), od_md5_file = (\<lambda>_. (0, ''ab'', 10))\<rparr>"

theorem app_finished_outcome_witness:
  "r_state (res (app_finished sample_outputs 0 finished_state) 0) = RESULT_FILES_UPLOADING
   \<and> fi_status (finfo (app_finished sample_outputs 0 finished_state) 7) = FILE_PRESENT"
proof -
  have "task finished_state 0 = sample_task" "at_result sample_task = 0"
    "res finished_state 0 = sample_result\<lparr>r_output_files := [\<lparr>fr_file_name = [], fr_open_name = [],
       fr_main_program = False, fr_file_info = 7, fr_copy_file = False, fr_optional = False\<rparr>]\<rparr>"
    "finfo finished_state 7 = sample_file_info\<lparr>fi_upload_when_present := True, fi_max_nbytes := 100\<rparr>"
    by (simp_all add: finished_state_def sample_state_def sample_task_def)
  then show ?thesis
    using app_finished_outcome [of finished_state 0 sample_outputs]
    by (simp add: Let_def output_ok_def sample_outputs_def sample_result_def sample_file_info_def)
qed

section \<open>The states a result goes through\<close>

text \<open>\<open>good\<close>: the file is present and passes the check without signature and digest.\<close>

definition good :: "DISK \<Rightarrow> CLIENT_STATE \<Rightarrow> fid \<Rightarrow> bool" where
  "good dk s f = (fi_status (finfo s f) = FILE_PRESENT \<and> fst (verify_file dk False True f s) = 0)"

text \<open>\<open>calm s t\<close>: nothing was changed but files, and no good file became worse.\<close>

definition calm :: "DISK \<Rightarrow> CLIENT_STATE \<Rightarrow> CLIENT_STATE \<Rightarrow> bool" where
  "calm dk s t = ((\<exists>g. t = s\<lparr>finfo := g\<rparr>) \<and> (\<forall>f. good dk s f \<longrightarrow> good dk t f)
     \<and> (\<forall>f. fi_generated_locally (finfo t f) = fi_generated_locally (finfo s f)))"

lemma calmI:
  assumes "t = s\<lparr>finfo := g\<rparr>" "\<And>f. good dk s f \<Longrightarrow> good dk t f"
    "\<And>f. fi_generated_locally (g f) = fi_generated_locally (finfo s f)"
  shows "calm dk s t"
  using assms by (auto simp: calm_def)

lemma calm_refl [simp]: "calm dk s s"
  by (auto simp: calm_def intro: exI [of _ "finfo s"])

lemma calm_trans:
  assumes "calm dk s t" "calm dk t u"
  shows "calm dk s u"
proof -
  obtain g h where "t = s\<lparr>finfo := g\<rparr>" "u = t\<lparr>finfo := h\<rparr>" using assms by (auto simp: calm_def)
  then have "u = s\<lparr>finfo := h\<rparr>" by simp
  then show ?thesis using assms by (auto simp: calm_def)
qed

lemma verify_loose_cong:
  assumes "fi_name (finfo t f) = fi_name (finfo s f)" "fi_nbytes (finfo t f) = fi_nbytes (finfo s f)"
    "global_prefs t = global_prefs s" "config t = config s"
  shows "fst (verify_file dk False b f t) = fst (verify_file dk False b f s)"
  using assms by (simp add: verify_file_def Let_def split: option.split)

lemma calm_upd_finfo:
  assumes "\<not> good dk s f \<or> fi_status (h (finfo s f)) = fi_status (finfo s f)"
    "\<And>x. fi_name (h x) = fi_name x \<and> fi_nbytes (h x) = fi_nbytes x \<and> fi_generated_locally (h x) = fi_generated_locally x"
  shows "calm dk s (upd_finfo f h s)"
proof -
  have v: "fst (verify_file dk False True g (upd_finfo f h s)) = fst (verify_file dk False True g s)" for g
    using assms(2) by (intro verify_loose_cong) (simp_all add: upd_finfo_def)
  show ?thesis
  proof (rule calmI)
    show "upd_finfo f h s = s\<lparr>finfo := (finfo s)(f := h (finfo s f))\<rparr>" by (simp add: upd_finfo_def)
    show "good dk (upd_finfo f h s) g" if "good dk s g" for g
      using that assms(1) unfolding good_def v by (cases "g = f") (simp_all add: good_def upd_finfo_def)
  qed (simp add: assms(2))
qed

lemma verify_file_calm:
  assumes "fi_status (finfo s f) = FILE_PRESENT"
  shows "calm dk s (snd (verify_file dk False True f s))"
proof (cases "fst (verify_file dk False True f s) = 0")
  case True
  then show ?thesis using verify_file_frame by simp
next
  case False
  then have "\<not> good dk s f" by (simp add: good_def)
  then have "calm dk s (upd_finfo f (\<lambda>x. x\<lparr>fi_status := v\<rparr>) s)" for v by (intro calm_upd_finfo) auto
  then show ?thesis by (simp add: verify_file_def Let_def split: option.split)
qed

lemma files_available_calm:
  "files_available dk False c fs (e, m, s) = (b, e', m', t) \<Longrightarrow> calm dk s t"
proof (induction fs arbitrary: e m s)
  case Nil
  then show ?case by simp
next
  case (Cons fc fs)
  obtain f check where fc: "fc = (f, check)" by (cases fc)
  obtain rv s1 where v: "verify_file dk False True f s = (rv, s1)" by fastforce
  have "fi_status (finfo s f) = FILE_PRESENT \<Longrightarrow> calm dk s s1" using verify_file_calm [of s f dk] v by simp
  then show ?case using Cons.prems Cons.IH by (auto simp: fc v split: if_splits intro: calm_trans)
qed

lemma input_files_available_calm:
  assumes "input_files_available dk r False c s = (e, m, t)"
  shows "calm dk s t"
proof -
  obtain b e1 m1 s1 where a: "files_available dk False c (app_file_checks s r) (0, {}, s) = (b, e1, m1, s1)"
    by (metis prod_cases4)
  obtain b2 e2 m2 s2 where i: "files_available dk False c (input_file_checks s1 r) (e1, m1, s1) = (b2, e2, m2, s2)"
    by (metis prod_cases4)
  show ?thesis
    using assms files_available_calm [OF a] files_available_calm [OF i]
    by (auto simp: input_files_available_def a i split: bool.splits intro: calm_trans)
qed

lemma want_missing_calm: "calm dk s (want_missing m s)"
proof -
  have v: "fst (verify_file dk False True g (want_missing m s)) = fst (verify_file dk False True g s)" for g
    by (intro verify_loose_cong) (simp_all add: want_missing_def)
  show ?thesis
  proof (rule calmI [OF want_missing_def])
    show "good dk (want_missing m s) f" if "good dk s f" for f
      using that unfolding good_def v by (simp add: want_missing_def)
  qed (auto simp: want_missing_def)
qed

text \<open>The moves of one result: \<open>x\<close> before, \<open>y\<close> after, at time \<open>t\<close>.\<close>

definition moves :: "bool \<Rightarrow> real \<Rightarrow> RESULT \<Rightarrow> RESULT \<Rightarrow> bool" where
  "moves no_app_files t x y =
     (if r_state x = RESULT_NEW then y = x\<lparr>r_state := RESULT_FILES_DOWNLOADING\<rparr>
      else if r_state x = RESULT_FILES_DOWNLOADING
      then y = x \<or> y = x\<lparr>r_state := (if no_app_files then RESULT_FILES_UPLOADING else RESULT_FILES_DOWNLOADED)\<rparr>
      else if r_state x = RESULT_FILES_UPLOADING
      then y = x \<or> y = x\<lparr>r_ready_to_report := True, r_completed_time := t, r_state := RESULT_FILES_UPLOADED\<rparr>
      else if r_state x = RESULT_ABORTED \<and> \<not> r_ready_to_report x
      then y = x\<lparr>r_ready_to_report := True, r_completed_time := t\<rparr>
      else y = x)"

text \<open>The files of a result that \<open>input_files_available\<close> verifies.\<close>

definition checked_files :: "CLIENT_STATE \<Rightarrow> rid \<Rightarrow> fid list" where
  "checked_files s r = map fst (filter snd (app_file_checks s r @ input_file_checks s r))"

definition steady :: "DISK \<Rightarrow> CLIENT_STATE \<Rightarrow> CLIENT_STATE \<Rightarrow> bool" where
  "steady dk s t = (now t = now s \<and> results t = results s \<and> appver t = appver s \<and> wunit t = wunit s
     \<and> proj t = proj s \<and> global_prefs t = global_prefs s \<and> config t = config s
     \<and> (\<forall>f. fi_generated_locally (finfo t f) = fi_generated_locally (finfo s f))
     \<and> (\<forall>f. good dk s f \<longrightarrow> good dk t f))"

lemma steady_trans: "steady dk s t \<Longrightarrow> steady dk t u \<Longrightarrow> steady dk s u"
  by (simp add: steady_def)

lemma calm_steady: "calm dk s t \<Longrightarrow> steady dk s t \<and> res t = res s"
  by (auto simp: calm_def steady_def)

lemma good_cong:
  assumes "finfo t = finfo s" "global_prefs t = global_prefs s" "config t = config s"
  shows "good dk t f = good dk s f"
  using assms verify_loose_cong [of t f s dk True] by (simp add: good_def)

lemma steady_same_files:
  assumes "t = s\<lparr>res := R, must_schedule_cpus := m\<rparr>"
  shows "steady dk s t"
  using assms good_cong [of t s] by (simp add: steady_def)

lemma clear_uploaded_flags_calm: "calm dk s (clear_uploaded_flags r s)"
  unfolding clear_uploaded_flags_def
proof (rule fold_frame_rel [where R = "calm dk"], goal_cases)
  case (2 s t u)
  then show ?case by (rule calm_trans)
next
  case (3 fr s)
  have "calm dk s (upd_finfo (fr_file_info fr) (\<lambda>f. f\<lparr>fi_uploaded := False\<rparr>) s)" by (rule calm_upd_finfo) simp_all
  then show ?case by simp
qed simp

lemma moves_keeps:
  "moves n t x y \<Longrightarrow> r_avp y = r_avp x \<and> r_wup y = r_wup x \<and> r_project y = r_project x"
  by (auto simp: moves_def split: if_splits)

lemma update_downloading_step:
  assumes "update_downloading dk r s = (b, t)"
  shows "steady dk s t" "\<forall>q. q \<noteq> r \<longrightarrow> res t q = res s q"
    "res t r = res s r \<or> (\<forall>f \<in> set (checked_files s r). good dk s f)
       \<and> res t r = (res s r)\<lparr>r_state := (if av_app_files (appver s (r_avp (res s r))) = []
           then RESULT_FILES_UPLOADING else RESULT_FILES_DOWNLOADED)\<rparr>"
proof -
  obtain rv m s1 where i: "input_files_available dk r False True s = (rv, m, s1)" by (metis prod_cases3)
  have c: "calm dk s s1" using input_files_available_calm [OF i] .
  have "steady dk s t \<and> (\<forall>q. q \<noteq> r \<longrightarrow> res t q = res s q) \<and> (res t r = res s r
     \<or> (\<forall>f \<in> set (checked_files s r). good dk s f) \<and> res t r = (res s r)\<lparr>r_state :=
         (if av_app_files (appver s (r_avp (res s r))) = [] then RESULT_FILES_UPLOADING else RESULT_FILES_DOWNLOADED)\<rparr>)"
  proof (cases "rv = 0")
    case False
    then have "t = want_missing m s1" using assms i by (simp add: update_downloading_def)
    then show ?thesis using calm_steady [OF calm_trans [OF c want_missing_calm]] by simp
  next
    case True
    have s1: "s1 = s" and need: "needed_files_ok dk False r s" using input_files_available_ok i True by auto
    have g: "\<forall>f \<in> set (checked_files s r). good dk s f"
      using need by (auto simp: needed_files_ok_def checked_files_def good_def)
    let ?up = "set_state RESULT_FILES_UPLOADING r (set_state RESULT_FILES_DOWNLOADED r s)"
    have t: "t = (if av_app_files (appver s (r_avp (res s r))) = [] then clear_uploaded_flags r ?up
                  else request_schedule_cpus (set_state RESULT_FILES_DOWNLOADED r s))"
      using assms i True s1 by (simp add: update_downloading_def Let_def set_state_def upd_res_def cong: if_cong)
    show ?thesis
    proof (cases "av_app_files (appver s (r_avp (res s r))) = []")
      case True
      have "steady dk s ?up"
        by (rule steady_same_files [where R = "res ?up" and m = "must_schedule_cpus s"]) (simp add: set_state_def upd_res_def)
      then show ?thesis
        using t True g steady_trans calm_steady [OF clear_uploaded_flags_calm [of dk ?up r]]
        by (auto simp: set_state_def upd_res_def)
    next
      case False
      have "steady dk s t"
        by (rule steady_same_files [where R = "res t" and m = True])
          (simp add: t False set_state_def upd_res_def request_schedule_cpus_def)
      then show ?thesis using t False g by (simp add: set_state_def upd_res_def request_schedule_cpus_def)
    qed
  qed
  then show "steady dk s t" "\<forall>q. q \<noteq> r \<longrightarrow> res t q = res s q"
    "res t r = res s r \<or> (\<forall>f \<in> set (checked_files s r). good dk s f)
       \<and> res t r = (res s r)\<lparr>r_state := (if av_app_files (appver s (r_avp (res s r))) = []
           then RESULT_FILES_UPLOADING else RESULT_FILES_DOWNLOADED)\<rparr>"
    by blast+
qed

lemma update_result_step:
  assumes "update_result dk r s = (b, t)"
  shows "steady dk s t" "\<forall>q. q \<noteq> r \<longrightarrow> res t q = res s q"
    "moves (av_app_files (appver s (r_avp (res s r))) = []) (now s) (res s r) (res t r)"
    "r_state (res s r) = RESULT_FILES_DOWNLOADING \<and> res t r \<noteq> res s r
       \<longrightarrow> (\<forall>f \<in> set (checked_files s r). good dk s f)"
proof -
  have same: "steady dk s (s\<lparr>res := R\<rparr>)" for R
    by (rule steady_same_files [where R = R and m = "must_schedule_cpus s"]) simp
  have "steady dk s t \<and> (\<forall>q. q \<noteq> r \<longrightarrow> res t q = res s q)
    \<and> moves (av_app_files (appver s (r_avp (res s r))) = []) (now s) (res s r) (res t r)
    \<and> (r_state (res s r) = RESULT_FILES_DOWNLOADING \<and> res t r \<noteq> res s r \<longrightarrow> (\<forall>f \<in> set (checked_files s r). good dk s f))"
  proof (cases "r_state (res s r) = RESULT_FILES_DOWNLOADING")
    case True
    then have "update_downloading dk r s = (b, t)" using assms by (simp add: update_result_def)
    note u = update_downloading_step [OF this]
    then show ?thesis using True by (auto simp: moves_def)
  next
    case False
    have "steady dk s s" by (simp add: steady_def)
    then show ?thesis
      using False assms same
      by (auto simp: update_result_def moves_def set_state_def mark_completed_def upd_res_def Let_def split: if_splits)
  qed
  then show "steady dk s t" "\<forall>q. q \<noteq> r \<longrightarrow> res t q = res s q"
    "moves (av_app_files (appver s (r_avp (res s r))) = []) (now s) (res s r) (res t r)"
    "r_state (res s r) = RESULT_FILES_DOWNLOADING \<and> res t r \<noteq> res s r
       \<longrightarrow> (\<forall>f \<in> set (checked_files s r). good dk s f)"
    by blast+
qed

lemma checked_files_cong:
  assumes "steady dk s t" "r_avp (res t q) = r_avp (res s q)" "r_wup (res t q) = r_wup (res s q)"
    "r_project (res t q) = r_project (res s q)"
  shows "checked_files t q = checked_files s q"
  using assms by (simp add: checked_files_def app_file_checks_def input_file_checks_def steady_def)

lemma update_results_fold:
  fixes dk :: DISK
  assumes "distinct rs"
  defines "body \<equiv> \<lambda>r (action, s). case update_result dk r s of (b, s1) \<Rightarrow> (action \<or> b, s1)"
  shows "steady dk s (snd (fold body rs (a, s)))
    \<and> (\<forall>q. q \<notin> set rs \<longrightarrow> res (snd (fold body rs (a, s))) q = res s q)
    \<and> (\<forall>q \<in> set rs. moves (av_app_files (appver s (r_avp (res s q))) = []) (now s) (res s q) (res (snd (fold body rs (a, s))) q)
        \<and> (r_state (res s q) = RESULT_FILES_DOWNLOADING \<and> res (snd (fold body rs (a, s))) q \<noteq> res s q
             \<longrightarrow> (\<forall>f \<in> set (checked_files s q). good dk (snd (fold body rs (a, s))) f)))"
  using assms(1)
proof (induction rs arbitrary: a s)
  case Nil
  then show ?case by (simp add: steady_def)
next
  case (Cons r rs)
  obtain b s1 where u: "update_result dk r s = (b, s1)" by fastforce
  note st = update_result_step [OF u]
  have step: "fold body (r # rs) (a, s) = fold body rs (a \<or> b, s1)" by (simp add: body_def u)
  let ?t = "snd (fold body rs (a \<or> b, s1))"
  have ih: "steady dk s1 ?t" "\<And>q. q \<notin> set rs \<Longrightarrow> res ?t q = res s1 q"
    "\<And>q. q \<in> set rs \<Longrightarrow> moves (av_app_files (appver s1 (r_avp (res s1 q))) = []) (now s1) (res s1 q) (res ?t q)
        \<and> (r_state (res s1 q) = RESULT_FILES_DOWNLOADING \<and> res ?t q \<noteq> res s1 q
             \<longrightarrow> (\<forall>f \<in> set (checked_files s1 q). good dk ?t f))"
    using Cons.IH [of s1 "a \<or> b"] Cons.prems by auto
  have sp: "appver s1 = appver s" "now s1 = now s" using st(1) by (simp_all add: steady_def)
  have "res ?t r = res s1 r" using ih(2) Cons.prems by simp
  moreover have "\<forall>f \<in> set (checked_files s r). good dk ?t f" if "\<forall>f \<in> set (checked_files s r). good dk s f"
    using that steady_trans [OF st(1) ih(1)] by (simp add: steady_def)
  moreover have "res s1 q = res s q \<and> checked_files s1 q = checked_files s q" if "q \<in> set rs" for q
  proof -
    have "q \<noteq> r" using that Cons.prems by auto
    then have "res s1 q = res s q" using st(2) by simp
    then show ?thesis using checked_files_cong [OF st(1), of q] by simp
  qed
  ultimately show ?case
    unfolding step using ih steady_trans [OF st(1) ih(1)] st(2-4) sp by auto
qed

text \<open>C16: When the client updates its results, each one makes at most one step along the life of a
  result: a new one starts downloading; one that downloads stays so or, once every file that is
  verified for it is present with the announced size, becomes ready to run (or to upload, when its
  application has no files); one that uploads stays so or is completed and ready to report; an aborted
  one becomes ready to report. Other results are not changed.\<close>

theorem update_results_moves:
  fixes dk :: DISK
  assumes "distinct (results s)" "1 \<le> now s - update_results_last_time s"
  defines "t \<equiv> snd (update_results dk s)"
  shows "(\<forall>r. r \<notin> set (results s) \<longrightarrow> res t r = res s r) \<and> results t = results s
    \<and> (\<forall>r \<in> set (results s).
         moves (av_app_files (appver s (r_avp (res s r))) = []) (now s) (res s r) (res t r)
         \<and> (r_state (res s r) = RESULT_FILES_DOWNLOADING \<and> r_state (res t r) \<noteq> RESULT_FILES_DOWNLOADING
              \<longrightarrow> (\<forall>f \<in> set (checked_files s r). good dk t f)))"
proof -
  let ?s0 = "s\<lparr>update_results_last_time := now s\<rparr>"
  have t: "t = snd (fold (\<lambda>r (action, s). case update_result dk r s of (b, s1) \<Rightarrow> (action \<or> b, s1))
      (results s) (False, ?s0))"
    using assms(2) by (simp add: t_def update_results_def)
  have c: "checked_files ?s0 q = checked_files s q" for q
    by (simp add: checked_files_def app_file_checks_def input_file_checks_def)
  show ?thesis
    using update_results_fold [OF assms(1), of dk ?s0 False, folded t] by (auto simp: steady_def c)
qed

theorem update_results_moves_witness:
  "r_state (res (snd (update_results sample_disk
      (sample_state\<lparr>res := (\<lambda>_. sample_result\<lparr>r_state := RESULT_NEW\<rparr>)\<rparr>))) 0) = RESULT_FILES_DOWNLOADING"
proof -
  let ?s = "sample_state\<lparr>res := (\<lambda>_. sample_result\<lparr>r_state := RESULT_NEW\<rparr>)\<rparr>"
  have "distinct (results ?s)" "1 \<le> now ?s - update_results_last_time ?s" "0 \<in> set (results ?s)"
    by (simp_all add: sample_state_def)
  then have "moves (av_app_files (appver ?s (r_avp (res ?s 0))) = []) (now ?s) (res ?s 0)
      (res (snd (update_results sample_disk ?s)) 0)"
    using update_results_moves [of ?s sample_disk] by blast
  then show ?thesis by (simp add: moves_def)
qed

end
