(* ===== verification/Base64.thy ===== *)
theory Base64
  imports "HOL-Library.Word"
begin

text \<open>
  \<open>lib/base64.C\<close>: the encoding in which files and keys travel inside XML. A \<open>char\<close> is an
  \<open>8 word\<close>; the encoder reads it into an \<open>int\<close>, so it is sign-extended there, and the decoder
  collects six-bit groups in an \<open>unsigned long\<close>.
\<close>

unbundle bit_operations_syntax

type_synonym byte = "8 word"

section \<open>The tables\<close>

definition base64_value_to_char :: "byte list" where
  "base64_value_to_char =
     map of_char ''ABCDEFGHIJKLMNOPQRSTUVWXYZabcdefghijklmnopqrstuvwxyz0123456789+/''"

definition base64_char_to_value :: "int list" where
  "base64_char_to_value =
     [-1, -1, -1, -1, -1, -1, -1, -1, -1, -1,
      -1, -1, -1, -1, -1, -1, -1, -1, -1, -1,
      -1, -1, -1, -1, -1, -1, -1, -1, -1, -1,
      -1, -1, -1, -1, -1, -1, -1, -1, -1, -1,
      -1, -1, -1, 62, -1, -1, -1, 63, 52, 53,
      54, 55, 56, 57, 58, 59, 60, 61, -1, -1,
      -1, -1, -1, -1, -1, 0, 1, 2, 3, 4,
      5, 6, 7, 8, 9, 10, 11, 12, 13, 14,
      15, 16, 17, 18, 19, 20, 21, 22, 23, 24,
      25, -1, -1, -1, -1, -1, -1, 26, 27, 28,
      29, 30, 31, 32, 33, 34, 35, 36, 37, 38,
      39, 40, 41, 42, 43, 44, 45, 46, 47, 48,
      49, 50, 51, -1, -1, -1, -1, -1]"

section \<open>Encoding\<close>

definition to_char :: "32 word \<Rightarrow> byte" where
  "to_char i = base64_value_to_char ! unat i"

text \<open>\<open>value\<close> is what is left of the byte before; the operators associate as in C: shifts bind
  tighter than \<open>&\<close>.\<close>

definition group1 :: "byte \<Rightarrow> 32 word" where
  "group1 b = 0x3f AND signed_drop_bit 2 (scast b)"

definition rest1 :: "byte \<Rightarrow> 32 word" where
  "rest1 b = push_bit 4 (0x03 AND scast b)"

definition group2 :: "32 word \<Rightarrow> byte \<Rightarrow> 32 word" where
  "group2 v b = v OR (0x0f AND signed_drop_bit 4 (scast b))"

definition rest2 :: "byte \<Rightarrow> 32 word" where
  "rest2 b = push_bit 2 (0x0f AND scast b)"

definition group3 :: "32 word \<Rightarrow> byte \<Rightarrow> 32 word" where
  "group3 v b = v OR (0x03 AND signed_drop_bit 6 (scast b))"

definition group4 :: "byte \<Rightarrow> 32 word" where
  "group4 b = 0x3f AND scast b"

definition equals_sign :: byte where
  "equals_sign = of_char (CHR ''='')"

fun r_base64_encode :: "byte list \<Rightarrow> byte list" where
  "r_base64_encode [] = []"
| "r_base64_encode [a] = [to_char (group1 a), to_char (rest1 a), equals_sign, equals_sign]"
| "r_base64_encode [a, b] =
     [to_char (group1 a), to_char (group2 (rest1 a) b), to_char (rest2 b), equals_sign]"
| "r_base64_encode (a # b # c # rest) =
     [to_char (group1 a), to_char (group2 (rest1 a) b), to_char (group3 (rest2 b) c), to_char (group4 c)]
     @ r_base64_encode rest"

section \<open>Decoding\<close>

datatype base64_error = InvalidBase64Exception

definition is_base64 :: "byte \<Rightarrow> bool" where
  "is_base64 c = (c < 128 \<and> base64_char_to_value ! unat c \<ge> 0)"

definition is_base64_ignorable :: "byte \<Rightarrow> bool" where
  "is_base64_ignorable c = (c = of_char (CHR '' '') \<or> c = 9 \<or> c = 10 \<or> c = 12 \<or> c = 13)"

definition read_quadruplet_byte :: "byte list \<Rightarrow> (byte \<times> byte list) option" where
  "read_quadruplet_byte from = (case dropWhile is_base64_ignorable from of
     [] \<Rightarrow> None | c # cs \<Rightarrow> Some (c, cs))"

definition value_of :: "byte \<Rightarrow> 64 word" where
  "value_of c = word_of_int (base64_char_to_value ! unat c)"

lemma read_quadruplet_shorter:
  "read_quadruplet_byte from = Some (c, from') \<Longrightarrow> length from' < length from"
proof -
  assume "read_quadruplet_byte from = Some (c, from')"
  then have "dropWhile is_base64_ignorable from = c # from'"
    by (auto simp: read_quadruplet_byte_def split: list.splits)
  moreover have "length (dropWhile is_base64_ignorable from) \<le> length from" by (rule length_dropWhile_le)
  ultimately show ?thesis by simp
qed

text \<open>The loop: the input that is left and the result so far.\<close>

function decode_loop :: "byte list \<Rightarrow> byte list \<Rightarrow> base64_error + byte list" where
  "decode_loop from result =
     (case read_quadruplet_byte from of None \<Rightarrow> Inr result
      | Some (c1, from1) \<Rightarrow>
        if \<not> is_base64 c1 then Inl InvalidBase64Exception
        else let value1 = push_bit 18 (value_of c1) in
     (case read_quadruplet_byte from1 of None \<Rightarrow> Inr result
      | Some (c2, from2) \<Rightarrow>
        if \<not> is_base64 c2 then Inl InvalidBase64Exception
        else let value2 = value1 OR push_bit 12 (value_of c2);
                 result2 = result @ [ucast (drop_bit 16 value2)] in
     (case read_quadruplet_byte from2 of None \<Rightarrow> Inr result2
      | Some (c3, from3) \<Rightarrow>
        if c3 = equals_sign
        then (case read_quadruplet_byte from3 of None \<Rightarrow> Inr result2
              | Some (c4, from4) \<Rightarrow>
                if c4 \<noteq> equals_sign then Inl InvalidBase64Exception else decode_loop from4 result2)
        else if \<not> is_base64 c3 then Inl InvalidBase64Exception
        else let value3 = value2 OR push_bit 6 (value_of c3);
                 result3 = result2 @ [ucast (0xff AND drop_bit 8 value3)] in
     (case read_quadruplet_byte from3 of None \<Rightarrow> Inr result3
      | Some (c4, from4) \<Rightarrow>
        if c4 = equals_sign then decode_loop from4 result3
        else if \<not> is_base64 c4 then Inl InvalidBase64Exception
        else let value4 = value3 OR value_of c4
             in decode_loop from4 (result3 @ [ucast (0xff AND value4)])))))"
  by pat_completeness auto

termination
proof (relation "measure (\<lambda>(from, _). length from)", goal_cases)
  case 1
  show ?case by simp
next
  case (2 inp result x c1 from1 v1 y c2 from2 v2 r2 z c3 from3 u c4 from4)
  then show ?case by (auto dest!: read_quadruplet_shorter)
next
  case (3 inp result x c1 from1 v1 y c2 from2 v2 r2 z c3 from3 v3 r3 u c4 from4)
  then show ?case by (auto dest!: read_quadruplet_shorter)
next
  case (4 inp result x c1 from1 v1 y c2 from2 v2 r2 z c3 from3 v3 r3 u c4 from4 v4)
  then show ?case by (auto dest!: read_quadruplet_shorter)
qed

definition r_base64_decode :: "byte list \<Rightarrow> base64_error + byte list" where
  "r_base64_decode from = decode_loop from []"

declare decode_loop.simps [simp del]

section \<open>Every six-bit group survives\<close>

lemma table_inverse:
  "list_all (\<lambda>n. let c = base64_value_to_char ! n in
     is_base64 c \<and> \<not> is_base64_ignorable c \<and> c \<noteq> equals_sign \<and> base64_char_to_value ! unat c = int n) [0..<64]"
  by code_simp

lemma to_char_inverse:
  assumes "unat i < 64"
  shows "is_base64 (to_char i)" "\<not> is_base64_ignorable (to_char i)" "to_char i \<noteq> equals_sign"
    "value_of (to_char i) = ucast i"
proof -
  have "unat i \<in> set [0..<64]" using assms by simp
  from bspec [OF table_inverse [unfolded list_all_iff] this]
  show "is_base64 (to_char i)" "\<not> is_base64_ignorable (to_char i)" "to_char i \<noteq> equals_sign"
    "value_of (to_char i) = ucast i"
    by (simp_all add: to_char_def value_of_def Let_def)
qed

lemma equals_sign_not_ignorable [simp]: "\<not> is_base64_ignorable equals_sign"
  by code_simp

lemma masks: "(0x3f :: 32 word) = mask 6" "(0x0f :: 32 word) = mask 4" "(0x03 :: 32 word) = mask 2"
  "(0xff :: 64 word) = mask 8"
  by (simp_all add: mask_eq_exp_minus_1)

lemma take_bit_less_64:
  assumes "take_bit 6 i = (i :: 32 word)"
  shows "unat i < 64"
proof -
  have "take_bit 6 (unat i) = unat i" using assms by (metis unsigned_take_bit_eq)
  moreover have "take_bit 6 (unat i) < 2 ^ 6" by (rule take_bit_nat_less_exp)
  ultimately show ?thesis by simp
qed

lemma bit_sign_extended:
  fixes b :: byte
  assumes "n < 8"
  shows "bit (scast b :: 32 word) n = bit b n"
  using assms by (simp add: bit_signed_iff)

lemma bit_shifted:
  fixes b :: byte
  assumes "m + n < 8"
  shows "bit (signed_drop_bit m (scast b :: 32 word)) n = bit b (m + n)"
proof -
  have "\<not> 32 - m \<le> n" using assms by simp
  then show ?thesis using assms by (simp add: bit_signed_drop_bit_iff bit_sign_extended)
qed

lemma bit_group1: "bit (group1 a) n \<longleftrightarrow> n < 6 \<and> bit a (2 + n)"
  by (cases "n < 6") (simp_all add: group1_def masks bit_and_iff bit_mask_iff bit_shifted)

lemma bit_rest1: "bit (rest1 a) n \<longleftrightarrow> 4 \<le> n \<and> n < 6 \<and> bit a (n - 4)"
  by (cases "4 \<le> n \<and> n < 6") (auto simp: rest1_def masks bit_push_bit_iff bit_and_iff bit_mask_iff bit_sign_extended)

lemma bit_group2: "bit (group2 v b) n \<longleftrightarrow> bit v n \<or> n < 4 \<and> bit b (4 + n)"
  by (cases "n < 4") (auto simp: group2_def masks bit_or_iff bit_and_iff bit_mask_iff bit_shifted)

lemma bit_rest2: "bit (rest2 b) n \<longleftrightarrow> 2 \<le> n \<and> n < 6 \<and> bit b (n - 2)"
  by (cases "2 \<le> n \<and> n < 6") (auto simp: rest2_def masks bit_push_bit_iff bit_and_iff bit_mask_iff bit_sign_extended)

lemma bit_group3: "bit (group3 v c) n \<longleftrightarrow> bit v n \<or> n < 2 \<and> bit c (6 + n)"
  by (cases "n < 2") (auto simp: group3_def masks bit_or_iff bit_and_iff bit_mask_iff bit_shifted)

lemma bit_group4: "bit (group4 c) n \<longleftrightarrow> n < 6 \<and> bit c n"
  by (cases "n < 6") (auto simp: group4_def masks bit_and_iff bit_mask_iff bit_sign_extended)

lemmas bit_groups = bit_group1 bit_rest1 bit_group2 bit_rest2 bit_group3 bit_group4

lemma groups_bounded:
  "unat (group1 a) < 64" "unat (rest1 a) < 64" "unat (group2 (rest1 a) b) < 64" "unat (rest2 b) < 64"
  "unat (group3 (rest2 b) c) < 64" "unat (group4 c) < 64"
  by (rule take_bit_less_64, rule bit_word_eqI, auto simp: bit_take_bit_iff bit_groups)+

lemmas group_chars =
  to_char_inverse [OF groups_bounded(1)] to_char_inverse [OF groups_bounded(2)]
  to_char_inverse [OF groups_bounded(3)] to_char_inverse [OF groups_bounded(4)]
  to_char_inverse [OF groups_bounded(5)] to_char_inverse [OF groups_bounded(6)]

text \<open>What the decoder puts together from the groups of one, two and three bytes.\<close>

lemma bit_ucast_64: "bit (ucast (i :: 32 word) :: 64 word) n = bit i n"
  by (auto simp: bit_unsigned_iff dest: bit_imp_le_length)

lemma bit_ucast_8: "n < 8 \<Longrightarrow> bit (ucast (v :: 64 word) :: byte) n = bit v n"
  by (simp add: bit_unsigned_iff)

lemmas bit_decoded = bit_ucast_64 bit_ucast_8 bit_drop_bit_eq bit_or_iff bit_and_iff bit_push_bit_iff bit_mask_iff bit_groups

lemma byte_eqI:
  assumes "bit (x :: byte) 0 = bit y 0" "bit x 1 = bit y 1" "bit x 2 = bit y 2" "bit x 3 = bit y 3"
    "bit x 4 = bit y 4" "bit x 5 = bit y 5" "bit x 6 = bit y 6" "bit x 7 = bit y 7"
  shows "x = y"
proof (rule bit_word_eqI)
  fix n assume "n < LENGTH(8)"
  then have "n = 0 \<or> n = 1 \<or> n = 2 \<or> n = 3 \<or> n = 4 \<or> n = 5 \<or> n = 6 \<or> n = 7" by auto
  then show "bit x n = bit y n" using assms by (elim disjE) simp_all
qed

lemma first_byte:
  "ucast (drop_bit 16 (push_bit 18 (ucast (group1 a)) OR push_bit 12 (ucast (rest1 a)) :: 64 word)) = a"
  "ucast (drop_bit 16 (push_bit 18 (ucast (group1 a)) OR push_bit 12 (ucast (group2 (rest1 a) b)) :: 64 word)) = a"
  by (rule byte_eqI; simp add: bit_decoded)+

lemma second_byte:
  "ucast (0xff AND drop_bit 8 ((push_bit 18 u OR push_bit 12 (ucast (group2 (rest1 a) b)))
     OR push_bit 6 (ucast (rest2 b)) :: 64 word)) = b"
  "ucast (0xff AND drop_bit 8 ((push_bit 18 u OR push_bit 12 (ucast (group2 (rest1 a) b)))
     OR push_bit 6 (ucast (group3 (rest2 b) c)) :: 64 word)) = b"
  by (rule byte_eqI; simp add: masks bit_decoded)+

lemma third_byte:
  "ucast (0xff AND (((push_bit 18 u OR push_bit 12 v) OR push_bit 6 (ucast (group3 (rest2 b) c)))
     OR ucast (group4 c) :: 64 word)) = c"
  by (rule byte_eqI; simp add: masks bit_decoded)

section \<open>Decoding inverts encoding\<close>

lemma read_char [simp]:
  "\<not> is_base64_ignorable c \<Longrightarrow> read_quadruplet_byte (c # cs) = Some (c, cs)"
  "read_quadruplet_byte [] = None"
  by (simp_all add: read_quadruplet_byte_def)

lemma decode_encode: "decode_loop (r_base64_encode bs) result = Inr (result @ bs)"
proof (induction bs arbitrary: result rule: r_base64_encode.induct)
  case 1
  show ?case by (simp add: decode_loop.simps)
next
  case (2 a)
  have "decode_loop [] r = Inr r" for r by (simp add: decode_loop.simps)
  then show ?case by (subst decode_loop.simps) (simp add: group_chars Let_def first_byte del: drop_bit_or)
next
  case (3 a b)
  have "decode_loop [] r = Inr r" for r by (simp add: decode_loop.simps)
  then show ?case by (subst decode_loop.simps) (simp add: group_chars Let_def first_byte second_byte del: drop_bit_or)
next
  case (4 a b c rest)
  then show ?case
    by (subst decode_loop.simps) (simp add: group_chars Let_def first_byte second_byte third_byte del: drop_bit_or)
qed

text \<open>C17: Decoding the base64 encoding of any sequence of bytes gives the bytes back, without an
  exception.\<close>

theorem r_base64_roundtrip: "r_base64_decode (r_base64_encode bs) = Inr bs"
  by (simp add: r_base64_decode_def decode_encode)

text \<open>White space between the characters, as in a wrapped XML element, makes no difference.\<close>

lemma read_ignores:
  "read_quadruplet_byte (filter (\<lambda>c. \<not> is_base64_ignorable c) from)
     = map_option (\<lambda>(c, cs). (c, filter (\<lambda>c. \<not> is_base64_ignorable c) cs)) (read_quadruplet_byte from)"
  by (induction "from") (auto simp: read_quadruplet_byte_def)

lemma decode_ignores: "decode_loop (filter (\<lambda>c. \<not> is_base64_ignorable c) from) result = decode_loop from result"
proof (induction "length from" arbitrary: "from" result rule: less_induct)
  case less
  note two = decode_loop.simps [of "from"] decode_loop.simps [of "filter (\<lambda>c. \<not> is_base64_ignorable c) from"]
  show ?case
  proof (cases "read_quadruplet_byte from")
    case None
    then show ?thesis by (simp add: two read_ignores)
  next
    case 1: (Some p1)
    obtain c1 f1 where p1: "p1 = (c1, f1)" by fastforce
    show ?thesis
    proof (cases "read_quadruplet_byte f1")
      case None
      then show ?thesis using 1 by (simp add: two read_ignores p1 Let_def cong: if_cong del: drop_bit_or)
    next
      case 2: (Some p2)
      obtain c2 f2 where p2: "p2 = (c2, f2)" by fastforce
      show ?thesis
      proof (cases "read_quadruplet_byte f2")
        case None
        then show ?thesis using 1 2 by (simp add: two read_ignores p1 p2 Let_def cong: if_cong del: drop_bit_or)
      next
        case 3: (Some p3)
        obtain c3 f3 where p3: "p3 = (c3, f3)" by fastforce
        show ?thesis
        proof (cases "read_quadruplet_byte f3")
          case None
          then show ?thesis using 1 2 3 by (simp add: two read_ignores p1 p2 p3 Let_def cong: if_cong del: drop_bit_or)
        next
          case 4: (Some p4)
          obtain c4 f4 where p4: "p4 = (c4, f4)" by fastforce
          have "length f4 < length from"
            using read_quadruplet_shorter [OF 1 [unfolded p1]] read_quadruplet_shorter [OF 2 [unfolded p2]]
              read_quadruplet_shorter [OF 3 [unfolded p3]] read_quadruplet_shorter [OF 4 [unfolded p4]] by simp
          note ih = less [OF this]
          show ?thesis
            unfolding two read_ignores 1 2 3 4 p1 p2 p3 p4 Let_def option.case option.map prod.case ih ..

        qed
      qed
    qed
  qed
qed

text \<open>The decoder ignores white space wherever it stands: its result, exception or bytes, is that
  of the input without it; in particular an encoding that was broken into lines decodes to the original.\<close>

theorem r_base64_decode_whitespace:
  "r_base64_decode (filter (\<lambda>c. \<not> is_base64_ignorable c) from) = r_base64_decode from"
  by (simp add: r_base64_decode_def decode_ignores)

end
