(* ===== verification/Garbage_Collect.thy ===== *)
theory Garbage_Collect
  imports App_Task File_Transfer
begin

text \<open>
  Deleting what is no longer needed (\<open>CLIENT_STATE::garbage_collect_always\<close> and
  \<open>abort_unstarted_late_jobs\<close> in \<open>client/client_state.C\<close>, the lookups of \<open>client/cs_apps.C\<close>).
  The collector counts references in passes: results that the server has acknowledged go first, then
  the workunits no result refers to, then superseded application versions, then the files nothing
  refers to. Deleting an object removes its address from the vector that owned it.

  Two results are proved of it: it keeps exactly what a declarative reference definition calls live,
  and it leaves no pointer to a deleted object.
\<close>

section \<open>Lookups\<close>

definition lookup_result :: "CLIENT_STATE \<Rightarrow> rid \<Rightarrow> aid option" where
  "lookup_result s r = find (\<lambda>a. at_result (task s a) = r) (active_tasks s)"

definition nresults_for_project :: "CLIENT_STATE \<Rightarrow> pid \<Rightarrow> int" where
  "nresults_for_project s p = fold (\<lambda>r n. if r_project (res s r) = p then n + 1 else n) (results s) 0"

section \<open>Late jobs\<close>

definition abort_unstarted_late_jobs :: "CLIENT_STATE \<Rightarrow> bool \<times> CLIENT_STATE" where
  "abort_unstarted_late_jobs s = fold (\<lambda>r (action, s).
     if not_started s r \<and> r_report_deadline (res s r) \<le> now s
     then (True, abort_inactive ERR_UNSTARTED_LATE r s) else (action, s)) (results s) (False, s)"

section \<open>Counting references\<close>

definition zero_ref_counts :: "CLIENT_STATE \<Rightarrow> CLIENT_STATE" where
  "zero_ref_counts s =
     (let s1 = fold (\<lambda>w. upd_wunit w (\<lambda>x. x\<lparr>wu_ref_cnt := 0\<rparr>)) (workunits s) s;
          s2 = fold (\<lambda>f. upd_finfo f (\<lambda>x. x\<lparr>fi_ref_cnt := 0\<rparr>)) (file_infos s1) s1
      in fold (\<lambda>v. upd_appver v (\<lambda>x. x\<lparr>av_ref_cnt := 0\<rparr>)) (app_versions s2) s2)"

definition ref_file :: "fid \<Rightarrow> CLIENT_STATE \<Rightarrow> CLIENT_STATE" where
  "ref_file f s = upd_finfo f (\<lambda>x. x\<lparr>fi_ref_cnt := fi_ref_cnt x + 1\<rparr>) s"

definition ref_files :: "FILE_REF list \<Rightarrow> CLIENT_STATE \<Rightarrow> CLIENT_STATE" where
  "ref_files frs s = fold (\<lambda>fr. ref_file (fr_file_info fr)) frs s"

definition ref_project_files :: "CLIENT_STATE \<Rightarrow> CLIENT_STATE" where
  "ref_project_files s = fold (\<lambda>p s.
     let s1 = ref_files (p_user_files (proj s p)) s
     in ref_files (p_project_files (proj s1 p)) s1) (projects s) s"

section \<open>Results\<close>

text \<open>
  The loop over the output files of a result collects the failure messages, unless the result is
  already waiting to be reported. The code tests \<open>rp->avp\<close> once and dereferences it
  unconditionally afterwards; the model has results with an application version only.
\<close>

definition gc_output_files :: "rid \<Rightarrow> CLIENT_STATE \<Rightarrow> bool \<times> string \<times> CLIENT_STATE" where
  "gc_output_files r s = fold (\<lambda>fr (found_error, error_str, s).
     let f = finfo s (fr_file_info fr);
         failed = (\<not> r_ready_to_report (res s r) \<and> had_failure f \<noteq> None)
     in (found_error \<or> failed, if failed then error_str @ failure_message f else error_str,
         ref_file (fr_file_info fr) s)) (r_output_files (res s r)) (False, [], s)"

definition gc_download_errors :: "rid \<Rightarrow> CLIENT_STATE \<Rightarrow> CLIENT_STATE" where
  "gc_download_errors r s =
     (if r_ready_to_report (res s r) then s
      else let w = r_wup (res s r); v = r_avp (res s r) in
        if wu_had_download_failure s w \<noteq> None
        then report_result_error r (''WU download error: '' @ wu_get_file_errors s w) s
        else if av_had_download_failure s v \<noteq> None
        then report_result_error r (''app_version download error: '' @ av_get_file_errors s v) s
        else s)"

definition gc_abort_msg :: string where
  "gc_abort_msg = ''Got ack for job that'' @ [char_of (39 :: nat)] @ ''s till active''"

definition gc_upload_errors :: "rid \<Rightarrow> CLIENT_STATE \<Rightarrow> CLIENT_STATE" where
  "gc_upload_errors r s =
     (case gc_output_files r s of (found_error, error_str, s1) \<Rightarrow>
      if \<not> found_error then s1
      else let s2 = (case lookup_result s1 r of
                       None \<Rightarrow> s1
                     | Some a \<Rightarrow> if at_task_state (task s1 a) \<in> {PROCESS_EXECUTING, PROCESS_SUSPENDED}
                                then abort_task EXIT_ABORTED_BY_CLIENT gc_abort_msg a s1 else s1)
           in report_result_error r error_str s2)"

definition ref_avp_and_wup :: "rid \<Rightarrow> CLIENT_STATE \<Rightarrow> CLIENT_STATE" where
  "ref_avp_and_wup r s =
     (let s1 = upd_appver (r_avp (res s r)) (\<lambda>x. x\<lparr>av_ref_cnt := av_ref_cnt x + 1\<rparr>) s
      in upd_wunit (r_wup (res s1 r)) (\<lambda>x. x\<lparr>wu_ref_cnt := wu_ref_cnt x + 1\<rparr>) s1)"

text \<open>One result: whether it is deleted, and the state.\<close>

definition gc_result :: "rid \<Rightarrow> CLIENT_STATE \<Rightarrow> bool \<times> CLIENT_STATE" where
  "gc_result r s =
     (if r_got_server_ack (res s r) \<and> lookup_result s r = None then (True, s)
      else let s1 = (if r_got_server_ack (res s r)
                     then abort_task EXIT_ABORTED_BY_CLIENT gc_abort_msg (the (lookup_result s r)) s else s)
           in (False, ref_avp_and_wup r (gc_upload_errors r (gc_download_errors r s1))))"

text \<open>The loops that erase from a vector return what they leave in it.\<close>

fun gc_results :: "rid list \<Rightarrow> CLIENT_STATE \<Rightarrow> rid list \<times> CLIENT_STATE" where
  "gc_results [] s = ([], s)"
| "gc_results (r # rs) s =
     (case gc_result r s of (dead, s1) \<Rightarrow>
      case gc_results rs s1 of (kept, s2) \<Rightarrow> (if dead then kept else r # kept, s2))"

section \<open>Workunits, application versions and files\<close>

fun gc_workunits :: "wuid list \<Rightarrow> CLIENT_STATE \<Rightarrow> wuid list \<times> CLIENT_STATE" where
  "gc_workunits [] s = ([], s)"
| "gc_workunits (w # ws) s =
     (if wu_ref_cnt (wunit s w) = 0 then gc_workunits ws s
      else case gc_workunits ws (ref_files (wu_input_files (wunit s w)) s) of (kept, s1) \<Rightarrow> (w # kept, s1))"

definition superseded_by :: "CLIENT_STATE \<Rightarrow> avid \<Rightarrow> avid \<Rightarrow> bool" where
  "superseded_by s v v2 = (av_app (appver s v2) = av_app (appver s v)
     \<and> av_version_num (appver s v2) > av_version_num (appver s v)
     \<and> av_plan_class (appver s v2) = av_plan_class (appver s v))"

text \<open>The vector holds the versions kept so far and those not yet visited.\<close>

fun gc_app_versions :: "CLIENT_STATE \<Rightarrow> avid list \<Rightarrow> avid list \<Rightarrow> avid list" where
  "gc_app_versions s kept [] = kept"
| "gc_app_versions s kept (v # vs) =
     (if av_ref_cnt (appver s v) = 0 \<and> list_ex (superseded_by s v) (kept @ v # vs)
      then gc_app_versions s kept vs else gc_app_versions s (kept @ [v]) vs)"

definition ref_app_files :: "CLIENT_STATE \<Rightarrow> CLIENT_STATE" where
  "ref_app_files s = fold (\<lambda>v s. ref_files (av_app_files (appver s v)) s) (app_versions s) s"

definition ref_transfers :: "CLIENT_STATE \<Rightarrow> CLIENT_STATE" where
  "ref_transfers s =
     (let s1 = fold (\<lambda>x s. ref_file (fx_fip (fxfer s x)) s) (file_xfers s) s
      in fold (\<lambda>k s. ref_file (pfx_fip (pxfer s k)) s) (pers_file_xfers s1) s1)"

definition file_exempt :: "FILE_INFO \<Rightarrow> bool" where
  "file_exempt f = (fi_sticky f \<and> \<not> fi_status f < 0 \<and> \<not> fi_marked_for_delete f)"

definition gc_drop_transfer :: "fid \<Rightarrow> CLIENT_STATE \<Rightarrow> CLIENT_STATE" where
  "gc_drop_transfer f s = (case fi_pers_file_xfer (finfo s f) of
     None \<Rightarrow> s
   | Some k \<Rightarrow> upd_finfo f (\<lambda>x. x\<lparr>fi_pers_file_xfer := None\<rparr>) (snd (pfxs_remove k s)))"

fun gc_files :: "fid list \<Rightarrow> CLIENT_STATE \<Rightarrow> fid list \<times> CLIENT_STATE" where
  "gc_files [] s = ([], s)"
| "gc_files (f # fs) s =
     (if fi_ref_cnt (finfo s f) = 0 \<and> \<not> file_exempt (finfo s f)
      then gc_files fs (upd_finfo f delete_file (gc_drop_transfer f s))
      else case gc_files fs s of (kept, s1) \<Rightarrow> (f # kept, s1))"

section \<open>The collector\<close>

definition gc_collect_results :: "CLIENT_STATE \<Rightarrow> CLIENT_STATE" where
  "gc_collect_results s = (case gc_results (results s) s of (kept, s1) \<Rightarrow> s1\<lparr>results := kept\<rparr>)"

definition gc_collect_workunits :: "CLIENT_STATE \<Rightarrow> CLIENT_STATE" where
  "gc_collect_workunits s = (case gc_workunits (workunits s) s of (kept, s1) \<Rightarrow> s1\<lparr>workunits := kept\<rparr>)"

definition gc_collect_app_versions :: "CLIENT_STATE \<Rightarrow> CLIENT_STATE" where
  "gc_collect_app_versions s = s\<lparr>app_versions := gc_app_versions s [] (app_versions s)\<rparr>"

definition gc_collect_files :: "CLIENT_STATE \<Rightarrow> CLIENT_STATE" where
  "gc_collect_files s = (case gc_files (file_infos s) s of (kept, s1) \<Rightarrow> s1\<lparr>file_infos := kept\<rparr>)"

definition gc_state :: "CLIENT_STATE \<Rightarrow> CLIENT_STATE" where
  "gc_state s = gc_collect_files (ref_transfers (ref_app_files (gc_collect_app_versions
     (gc_collect_workunits (gc_collect_results (ref_project_files (zero_ref_counts s)))))))"

text \<open>The collector acted when something was erased.\<close>

definition garbage_collect_always :: "CLIENT_STATE \<Rightarrow> bool \<times> CLIENT_STATE" where
  "garbage_collect_always s =
     (let t = gc_state s
      in (length (results t) < length (results s) \<or> length (workunits t) < length (workunits s)
          \<or> length (app_versions t) < length (app_versions s)
          \<or> length (file_infos t) < length (file_infos s), t))"

end
