(* ===== verification/Collector_Correct.thy ===== *)
theory Collector_Correct
  imports Garbage_Collect
begin

text \<open>
  The garbage collector keeps exactly what is live, and leaves no dangling pointer.
\<close>

section \<open>What the collector does not touch\<close>

text \<open>
  \<open>links_view\<close>: the vectors and the pointers between objects. Reporting an error and aborting a
  task, which the collector does on its way, keep all of it.
\<close>

definition links_view where
  "links_view s =
     (projects s, results s, active_tasks s, app_versions s, workunits s, file_infos s,
      pers_file_xfers s, file_xfers s, pxfer s, fxfer s, appver s, wunit s, finfo s,
      (\<lambda>p. (p_user_files (proj s p), p_project_files (proj s p))),
      (\<lambda>r. (r_wup (res s r), r_avp (res s r), r_output_files (res s r), r_got_server_ack (res s r))),
      (\<lambda>a. (at_result (task s a), at_wup (task s a), at_app_version (task s a))))"

lemma links_viewI:
  assumes "projects t = projects s" "results t = results s" "active_tasks t = active_tasks s"
    "app_versions t = app_versions s" "workunits t = workunits s" "file_infos t = file_infos s"
    "pers_file_xfers t = pers_file_xfers s" "file_xfers t = file_xfers s" "pxfer t = pxfer s"
    "fxfer t = fxfer s" "appver t = appver s" "wunit t = wunit s" "finfo t = finfo s"
    "\<And>p. p_user_files (proj t p) = p_user_files (proj s p) \<and> p_project_files (proj t p) = p_project_files (proj s p)"
    "\<And>r. r_wup (res t r) = r_wup (res s r) \<and> r_avp (res t r) = r_avp (res s r)
       \<and> r_output_files (res t r) = r_output_files (res s r) \<and> r_got_server_ack (res t r) = r_got_server_ack (res s r)"
    "\<And>a. at_result (task t a) = at_result (task s a) \<and> at_wup (task t a) = at_wup (task s a)
       \<and> at_app_version (task t a) = at_app_version (task s a)"
  shows "links_view t = links_view s"
  using assms by (simp add: links_view_def)

lemma links_upd_proj:
  assumes "\<And>x. p_user_files (f x) = p_user_files x \<and> p_project_files (f x) = p_project_files x"
  shows "links_view (upd_proj p f s) = links_view s"
  using assms by (intro links_viewI) (auto simp: upd_proj_def)

lemma links_upd_res:
  assumes "\<And>x. r_wup (f x) = r_wup x \<and> r_avp (f x) = r_avp x \<and> r_output_files (f x) = r_output_files x
    \<and> r_got_server_ack (f x) = r_got_server_ack x"
  shows "links_view (upd_res r f s) = links_view s"
  using assms by (intro links_viewI) (auto simp: upd_res_def)

lemma links_upd_task:
  assumes "\<And>x. at_result (f x) = at_result x \<and> at_wup (f x) = at_wup x \<and> at_app_version (f x) = at_app_version x"
  shows "links_view (upd_task a f s) = links_view s"
  using assms by (intro links_viewI) (auto simp: upd_task_def)

lemma links_rand [simp]: "links_view (s\<lparr>rand_pos := k\<rparr>) = links_view s"
  by (intro links_viewI) simp_all

lemma links_set_min_rpc_time: "links_view (set_min_rpc_time t p s) = links_view s"
  by (simp add: set_min_rpc_time_def links_upd_proj)

lemma links_exponential_backoff: "links_view (snd (calculate_exponential_backoff n mn mx s)) = links_view s"
  using exponential_backoff_state [of n mn mx s] by auto

lemma links_backoff: "links_view (backoff p s) = links_view s"
  by (simp add: backoff_def Let_def split_beta links_set_min_rpc_time links_exponential_backoff links_upd_proj)

lemma links_report_result_error: "links_view (report_result_error r m s) = links_view s"
  by (simp add: report_result_error_def Let_def links_upd_res links_backoff)

lemma links_send_control: "links_view (send_control msg a s) = links_view s"
  unfolding send_control_def by (rule links_upd_task) (simp split: prod.split)

lemma links_abort_task: "links_view (abort_task e m a s) = links_view s"
  by (simp add: abort_task_def Let_def request_abort_def set_task_state_def links_upd_res links_upd_task
      links_report_result_error links_send_control)

section \<open>Reference counts\<close>

text \<open>
  \<open>owned\<close> are the vectors the collector erases from; \<open>shape_view\<close> is what it reads of the heaps and
  of the other vectors. \<open>counted s t fs vs ws\<close>: from \<open>s\<close> to \<open>t\<close> every file was counted as often as it
  occurs in \<open>fs\<close>, every application version as in \<open>vs\<close>, every workunit as in \<open>ws\<close>.
\<close>

definition owned where
  "owned s = (results s, app_versions s, workunits s, file_infos s)"

definition shape_view where
  "shape_view s =
     (projects s, active_tasks s, pers_file_xfers s, file_xfers s, pxfer s, fxfer s,
      (\<lambda>v. (av_app_files (appver s v), av_app (appver s v), av_version_num (appver s v), av_plan_class (appver s v))),
      (\<lambda>w. wu_input_files (wunit s w)),
      (\<lambda>f. (fi_sticky (finfo s f), fi_status (finfo s f), fi_marked_for_delete (finfo s f), fi_pers_file_xfer (finfo s f))),
      (\<lambda>p. (p_user_files (proj s p), p_project_files (proj s p))),
      (\<lambda>r. (r_wup (res s r), r_avp (res s r), r_output_files (res s r), r_got_server_ack (res s r))),
      (\<lambda>a. (at_result (task s a), at_wup (task s a), at_app_version (task s a))))"

lemma shape_viewD:
  assumes "shape_view t = shape_view s"
  shows "projects t = projects s" "active_tasks t = active_tasks s" "pers_file_xfers t = pers_file_xfers s"
    "file_xfers t = file_xfers s" "pxfer t = pxfer s" "fxfer t = fxfer s"
    "av_app_files (appver t v) = av_app_files (appver s v)" "av_app (appver t v) = av_app (appver s v)"
    "av_version_num (appver t v) = av_version_num (appver s v)" "av_plan_class (appver t v) = av_plan_class (appver s v)"
    "wu_input_files (wunit t w) = wu_input_files (wunit s w)"
    "fi_sticky (finfo t f) = fi_sticky (finfo s f)" "fi_status (finfo t f) = fi_status (finfo s f)"
    "fi_marked_for_delete (finfo t f) = fi_marked_for_delete (finfo s f)"
    "fi_pers_file_xfer (finfo t f) = fi_pers_file_xfer (finfo s f)"
    "p_user_files (proj t p) = p_user_files (proj s p)" "p_project_files (proj t p) = p_project_files (proj s p)"
    "r_wup (res t r) = r_wup (res s r)" "r_avp (res t r) = r_avp (res s r)"
    "r_output_files (res t r) = r_output_files (res s r)" "r_got_server_ack (res t r) = r_got_server_ack (res s r)"
    "at_result (task t a) = at_result (task s a)" "at_wup (task t a) = at_wup (task s a)"
    "at_app_version (task t a) = at_app_version (task s a)"
  using assms unfolding shape_view_def prod.inject fun_eq_iff by blast+

definition counted :: "CLIENT_STATE \<Rightarrow> CLIENT_STATE \<Rightarrow> fid list \<Rightarrow> avid list \<Rightarrow> wuid list \<Rightarrow> bool" where
  "counted s t fs vs ws = (shape_view t = shape_view s
     \<and> (\<forall>f. fi_ref_cnt (finfo t f) = fi_ref_cnt (finfo s f) + int (count_list fs f))
     \<and> (\<forall>v. av_ref_cnt (appver t v) = av_ref_cnt (appver s v) + int (count_list vs v))
     \<and> (\<forall>w. wu_ref_cnt (wunit t w) = wu_ref_cnt (wunit s w) + int (count_list ws w)))"

lemma counted_trans:
  "counted s t fs vs ws \<Longrightarrow> counted t u fs' vs' ws' \<Longrightarrow> counted s u (fs @ fs') (vs @ vs') (ws @ ws')"
  by (simp add: counted_def)

lemma links_counted:
  assumes "links_view t = links_view s"
  shows "counted s t [] [] []" "owned t = owned s"
  using assms by (auto simp: links_view_def shape_view_def counted_def owned_def fun_eq_iff)

lemma counted_shape: "counted s t fs vs ws \<Longrightarrow> shape_view t = shape_view s"
  by (simp add: counted_def)

lemma counted_same_heaps:
  assumes "counted s t fs vs ws" "shape_view u = shape_view t" "finfo u = finfo t" "appver u = appver t" "wunit u = wunit t"
  shows "counted s u fs vs ws"
  using assms by (simp add: counted_def)

lemma ref_file_counted: "counted s (ref_file f s) [f] [] []" "owned (ref_file f s) = owned s"
  by (simp_all add: counted_def ref_file_def upd_finfo_def shape_view_def owned_def fun_eq_iff)

text \<open>A loop whose body counts \<open>g x\<close>, where \<open>g\<close> depends on the shape only.\<close>

lemma fold_counted:
  assumes step: "\<And>x t. shape_view t = shape_view s \<Longrightarrow> counted t (h x t) (g x) [] [] \<and> owned (h x t) = owned t"
  shows "counted s (fold h xs s) (concat (map g xs)) [] [] \<and> owned (fold h xs s) = owned s"
proof (induction xs rule: rev_induct)
  case Nil
  then show ?case by (simp add: counted_def)
next
  case (snoc x xs)
  have "shape_view (fold h xs s) = shape_view s" using snoc counted_shape by blast
  from step [OF this, of x] snoc show ?case by (auto dest: counted_trans)
qed

lemma ref_files_counted:
  "counted s (ref_files frs s) (map fr_file_info frs) [] [] \<and> owned (ref_files frs s) = owned s"
proof -
  have "concat (map (\<lambda>fr. [fr_file_info fr]) frs) = map fr_file_info frs" by (induction frs) auto
  then show ?thesis
    unfolding ref_files_def
    using fold_counted [of s "\<lambda>fr. ref_file (fr_file_info fr)" "\<lambda>fr. [fr_file_info fr]" frs]
    by (simp add: ref_file_counted)
qed

definition project_refs :: "CLIENT_STATE \<Rightarrow> pid \<Rightarrow> fid list" where
  "project_refs s p = map fr_file_info (p_user_files (proj s p)) @ map fr_file_info (p_project_files (proj s p))"

lemma ref_project_files_counted:
  "counted s (ref_project_files s) (concat (map (project_refs s) (projects s))) [] []
   \<and> owned (ref_project_files s) = owned s"
  unfolding ref_project_files_def
proof (rule fold_counted, goal_cases)
  case (1 p t)
  let ?u = "ref_files (p_user_files (proj t p)) t"
  have u: "counted t ?u (map fr_file_info (p_user_files (proj t p))) [] []" "owned ?u = owned t"
    using ref_files_counted by blast+
  have "p_project_files (proj ?u p) = p_project_files (proj t p)"
    using shape_viewD [OF counted_shape [OF u(1)]] by simp
  then show ?case
    using counted_trans [OF u(1), OF conjunct1 [OF ref_files_counted]] u(2) ref_files_counted
    by (simp add: Let_def project_refs_def shape_viewD [OF 1])
qed

lemma ref_app_files_counted:
  "counted s (ref_app_files s) (concat (map (\<lambda>v. map fr_file_info (av_app_files (appver s v))) (app_versions s))) [] []
   \<and> owned (ref_app_files s) = owned s"
  unfolding ref_app_files_def
proof (rule fold_counted, goal_cases)
  case (1 v t)
  show ?case using ref_files_counted [of t "av_app_files (appver t v)"] by (simp add: shape_viewD [OF 1])
qed

lemma ref_each_counted:
  assumes "\<And>t. shape_view t = shape_view s \<Longrightarrow> g t = g s"
  shows "counted s (fold (\<lambda>x s. ref_file (g s x) s) xs s) (map (g s) xs) [] []
    \<and> owned (fold (\<lambda>x s. ref_file (g s x) s) xs s) = owned s"
proof -
  have "concat (map (\<lambda>x. [g s x]) xs) = map (g s) xs" by (induction xs) auto
  moreover have "counted s (fold (\<lambda>x s. ref_file (g s x) s) xs s) (concat (map (\<lambda>x. [g s x]) xs)) [] []
    \<and> owned (fold (\<lambda>x s. ref_file (g s x) s) xs s) = owned s"
  proof (rule fold_counted, goal_cases)
    case (1 x t)
    show ?case unfolding assms [OF 1] by (simp add: ref_file_counted)
  qed
  ultimately show ?thesis by simp
qed

lemma ref_transfers_counted:
  "counted s (ref_transfers s) (map (\<lambda>x. fx_fip (fxfer s x)) (file_xfers s)
      @ map (\<lambda>k. pfx_fip (pxfer s k)) (pers_file_xfers s)) [] []
   \<and> owned (ref_transfers s) = owned s"
proof -
  define s1 where "s1 = fold (\<lambda>x s. ref_file (fx_fip (fxfer s x)) s) (file_xfers s) s"
  have 1: "counted s s1 (map (\<lambda>x. fx_fip (fxfer s x)) (file_xfers s)) [] [] \<and> owned s1 = owned s"
    unfolding s1_def by (rule ref_each_counted [of s "\<lambda>s x. fx_fip (fxfer s x)"]) (drule shape_viewD(6), simp)
  have "counted s1 (ref_transfers s) (map (\<lambda>k. pfx_fip (pxfer s1 k)) (pers_file_xfers s1)) [] []
      \<and> owned (ref_transfers s) = owned s1"
    unfolding ref_transfers_def Let_def s1_def [symmetric]
    by (rule ref_each_counted [of s1 "\<lambda>s k. pfx_fip (pxfer s k)"]) (drule shape_viewD(5), simp)
  then show ?thesis
    using counted_trans [OF conjunct1 [OF 1]] 1 shape_viewD(3,5) [OF counted_shape [OF conjunct1 [OF 1]]] by simp
qed

section \<open>The loop over the results\<close>

definition output_refs :: "CLIENT_STATE \<Rightarrow> rid \<Rightarrow> fid list" where
  "output_refs s r = map fr_file_info (r_output_files (res s r))"

lemma gc_output_files_refs: "snd (snd (gc_output_files r s)) = ref_files (r_output_files (res s r)) s"
proof -
  define body where "body = (\<lambda>(fr :: FILE_REF) (found_error, error_str, s).
     let f = finfo s (fr_file_info fr);
         failed = (\<not> r_ready_to_report (res s r) \<and> had_failure f \<noteq> None)
     in (found_error \<or> failed, if failed then error_str @ failure_message f else error_str,
         ref_file (fr_file_info fr) s))"
  have "snd (snd (fold body frs st)) = ref_files frs (snd (snd st))" for frs st
    by (induction frs arbitrary: st) (auto simp: body_def ref_files_def Let_def split_beta)
  then show ?thesis unfolding gc_output_files_def body_def [symmetric] by simp
qed

lemma gc_output_files_counted:
  "counted s (snd (snd (gc_output_files r s))) (output_refs s r) [] []
   \<and> owned (snd (snd (gc_output_files r s))) = owned s"
  using ref_files_counted [of s "r_output_files (res s r)"] by (simp add: gc_output_files_refs output_refs_def)

lemma gc_download_errors_links: "links_view (gc_download_errors r s) = links_view s"
  by (simp add: gc_download_errors_def Let_def links_report_result_error)

lemma gc_upload_errors_counted:
  "counted s (gc_upload_errors r s) (output_refs s r) [] [] \<and> owned (gc_upload_errors r s) = owned s"
proof -
  obtain e str s1 where g: "gc_output_files r s = (e, str, s1)" by (cases "gc_output_files r s") auto
  have 1: "counted s s1 (output_refs s r) [] []" "owned s1 = owned s"
    using gc_output_files_counted [of s r] g by simp_all
  have "links_view (gc_upload_errors r s) = links_view s1"
    by (simp add: gc_upload_errors_def g Let_def links_report_result_error links_abort_task split: option.split)
  note 2 = links_counted [OF this]
  show ?thesis using counted_trans [OF 1(1) 2(1)] 1(2) 2(2) by simp
qed

lemma ref_avp_and_wup_counted:
  "counted s (ref_avp_and_wup r s) [] [r_avp (res s r)] [r_wup (res s r)] \<and> owned (ref_avp_and_wup r s) = owned s"
  by (simp add: counted_def ref_avp_and_wup_def Let_def upd_appver_def upd_wunit_def shape_view_def owned_def fun_eq_iff)

definition live_result :: "CLIENT_STATE \<Rightarrow> rid \<Rightarrow> bool" where
  "live_result s r = (\<not> r_got_server_ack (res s r) \<or> (\<exists>a \<in> set (active_tasks s). at_result (task s a) = r))"

lemma lookup_result_None: "lookup_result s r = None \<longleftrightarrow> (\<forall>a \<in> set (active_tasks s). at_result (task s a) \<noteq> r)"
  by (auto simp: lookup_result_def find_None_iff)

lemma gc_result_counted:
  assumes "gc_result r s = (dead, t)"
  shows "dead = (\<not> live_result s r)" "owned t = owned s"
    "if live_result s r then counted s t (output_refs s r) [r_avp (res s r)] [r_wup (res s r)] else counted s t [] [] []"
proof -
  have live: "live_result s r \<longleftrightarrow> \<not> (r_got_server_ack (res s r) \<and> lookup_result s r = None)"
    by (auto simp: live_result_def lookup_result_None)
  show "dead = (\<not> live_result s r)" using assms live by (auto simp: gc_result_def Let_def split: if_splits)
  define s1 where "s1 = (if r_got_server_ack (res s r)
     then abort_task EXIT_ABORTED_BY_CLIENT gc_abort_msg (the (lookup_result s r)) s else s)"
  define s2 where "s2 = gc_download_errors r s1"
  have "links_view s2 = links_view s"
    by (simp add: s2_def s1_def gc_download_errors_links links_abort_task)
  note 2 = links_counted [OF this]
  note sh2 = shape_viewD [OF counted_shape [OF 2(1)]]
  define s3 where "s3 = gc_upload_errors r s2"
  have 3: "counted s s3 (output_refs s r) [] []" "owned s3 = owned s"
    using counted_trans [OF 2(1), OF conjunct1 [OF gc_upload_errors_counted [of s2 r]]]
      gc_upload_errors_counted [of s2 r] 2(2) by (simp_all add: s3_def output_refs_def sh2)
  note sh3 = shape_viewD [OF counted_shape [OF 3(1)]]
  have 4: "counted s (ref_avp_and_wup r s3) (output_refs s r) [r_avp (res s r)] [r_wup (res s r)]"
    "owned (ref_avp_and_wup r s3) = owned s"
    using counted_trans [OF 3(1), OF conjunct1 [OF ref_avp_and_wup_counted [of s3 r]]]
      ref_avp_and_wup_counted [of s3 r] 3(2) by (simp_all add: sh3)
  have t: "t = (if live_result s r then ref_avp_and_wup r s3 else s)"
    using assms unfolding gc_result_def Let_def s1_def [symmetric] s2_def [symmetric] s3_def [symmetric]
    by (auto simp: live split: if_splits)
  show "owned t = owned s" using 4(2) by (simp add: t)
  show "if live_result s r then counted s t (output_refs s r) [r_avp (res s r)] [r_wup (res s r)] else counted s t [] [] []"
    using 4(1) by (simp add: t counted_def)
qed

lemma live_result_shape: "shape_view t = shape_view s \<Longrightarrow> live_result t = live_result s"
  using shape_viewD [of t s] by (simp add: live_result_def fun_eq_iff)

lemma gc_results_counted:
  assumes "gc_results rs s = (kept, t)"
  shows "kept = filter (live_result s) rs \<and> owned t = owned s
    \<and> counted s t (concat (map (output_refs s) kept)) (map (\<lambda>r. r_avp (res s r)) kept) (map (\<lambda>r. r_wup (res s r)) kept)"
  using assms
proof (induction rs arbitrary: s kept)
  case Nil
  then show ?case by (simp add: counted_def)
next
  case (Cons r rs)
  obtain dead s1 where g: "gc_result r s = (dead, s1)" by fastforce
  obtain kept1 where k: "gc_results rs s1 = (kept1, t)" "kept = (if dead then kept1 else r # kept1)"
    using Cons.prems g by (auto split: prod.splits)
  note c = gc_result_counted [OF g]
  have sh: "shape_view s1 = shape_view s" using c(3) by (auto simp: counted_def split: if_splits)
  have same: "output_refs s1 = output_refs s" "\<And>r. r_avp (res s1 r) = r_avp (res s r)"
    "\<And>r. r_wup (res s1 r) = r_wup (res s r)"
    using shape_viewD [OF sh] by (simp_all add: output_refs_def fun_eq_iff)
  have ih: "kept1 = filter (live_result s) rs" "owned t = owned s"
    "counted s1 t (concat (map (output_refs s) kept1)) (map (\<lambda>r. r_avp (res s r)) kept1) (map (\<lambda>r. r_wup (res s r)) kept1)"
    using Cons.IH [OF k(1)] c(2) by (auto simp: same live_result_shape [OF sh])
  show ?case
  proof (cases "live_result s r")
    case True
    then have "counted s s1 (output_refs s r) [r_avp (res s r)] [r_wup (res s r)]" using c(3) by simp
    from counted_trans [OF this ih(3)] show ?thesis using True c(1) ih k(2) by simp
  next
    case False
    then have "counted s s1 [] [] []" using c(3) by simp
    from counted_trans [OF this ih(3)] show ?thesis using False c(1) ih k(2) by simp
  qed
qed

section \<open>The loops over workunits, application versions and files\<close>

definition input_refs :: "CLIENT_STATE \<Rightarrow> wuid \<Rightarrow> fid list" where
  "input_refs s w = map fr_file_info (wu_input_files (wunit s w))"

lemma gc_workunits_counted:
  assumes "gc_workunits ws s = (kept, t)"
  shows "kept = filter (\<lambda>w. wu_ref_cnt (wunit s w) \<noteq> 0) ws \<and> owned t = owned s
    \<and> counted s t (concat (map (input_refs s) kept)) [] []"
  using assms
proof (induction ws arbitrary: s kept)
  case Nil
  then show ?case by (simp add: counted_def)
next
  case (Cons w ws)
  show ?case
  proof (cases "wu_ref_cnt (wunit s w) = 0")
    case True
    then show ?thesis using Cons by simp
  next
    case False
    let ?s1 = "ref_files (wu_input_files (wunit s w)) s"
    obtain kept1 where k: "gc_workunits ws ?s1 = (kept1, t)" "kept = w # kept1"
      using Cons.prems False by (auto split: prod.splits)
    have c: "counted s ?s1 (input_refs s w) [] []" "owned ?s1 = owned s"
      using ref_files_counted [of s] by (simp_all add: input_refs_def)
    have "\<And>w. wu_ref_cnt (wunit ?s1 w) = wu_ref_cnt (wunit s w)" "input_refs ?s1 = input_refs s"
      using c(1) shape_viewD [OF counted_shape [OF c(1)]] by (simp_all add: counted_def input_refs_def fun_eq_iff)
    then have ih: "kept1 = filter (\<lambda>w. wu_ref_cnt (wunit s w) \<noteq> 0) ws" "owned t = owned s"
      "counted ?s1 t (concat (map (input_refs s) kept1)) [] []"
      using Cons.IH [OF k(1)] c(2) by auto
    from counted_trans [OF c(1) ih(3)] show ?thesis using ih(1,2) k(2) False by simp
  qed
qed

text \<open>
  A version is erased when a newer one is still in the vector. The newest one of its kind never is,
  so this is the same as when a newer one was there at the beginning.
\<close>

lemma newest_version:
  assumes "superseded_by s v v2" "v2 \<in> set vs"
  obtains u where "u \<in> set vs" "superseded_by s v u" "\<And>u'. u' \<in> set vs \<Longrightarrow> \<not> superseded_by s u u'"
proof -
  let ?S = "{u \<in> set vs. superseded_by s v u}"
  have "finite ?S" "?S \<noteq> {}" using assms by auto
  then obtain u where u: "u \<in> ?S" "\<And>u'. u' \<in> ?S \<Longrightarrow> av_version_num (appver s u') \<le> av_version_num (appver s u)"
    using ex_is_arg_min_if_finite [of ?S "\<lambda>u. - av_version_num (appver s u)"]
    by (auto simp: is_arg_min_linorder)
  show thesis
  proof (rule that [of u])
    show "\<not> superseded_by s u u'" if "u' \<in> set vs" for u'
    proof
      assume "superseded_by s u u'"
      then have "u' \<in> ?S" using u(1) that by (auto simp: superseded_by_def)
      then show False using u(2) [of u'] \<open>superseded_by s u u'\<close> by (simp add: superseded_by_def)
    qed
  qed (use u(1) in auto)
qed

definition live_version :: "CLIENT_STATE \<Rightarrow> avid list \<Rightarrow> avid \<Rightarrow> bool" where
  "live_version s vs v = (av_ref_cnt (appver s v) \<noteq> 0 \<or> \<not> list_ex (superseded_by s v) vs)"

lemma gc_app_versions_filter:
  assumes "all = pre @ vs" "kept = filter (live_version s all) pre"
  shows "gc_app_versions s kept vs = filter (live_version s all) all"
  using assms
proof (induction vs arbitrary: pre kept)
  case Nil
  then show ?case by simp
next
  case (Cons v vs)
  have "list_ex (superseded_by s v) (kept @ v # vs) \<longleftrightarrow> list_ex (superseded_by s v) all"
  proof
    assume "list_ex (superseded_by s v) all"
    then obtain v2 where "superseded_by s v v2" "v2 \<in> set all" by (auto simp: list_ex_iff)
    then obtain u where u: "u \<in> set all" "superseded_by s v u" "\<And>u'. u' \<in> set all \<Longrightarrow> \<not> superseded_by s u u'"
      using newest_version by blast
    then have "live_version s all u" by (auto simp: live_version_def list_ex_iff)
    then have "u \<in> set (kept @ v # vs)" using u(1) Cons.prems by auto
    then show "list_ex (superseded_by s v) (kept @ v # vs)" using u(2) by (auto simp: list_ex_iff)
  qed (use Cons.prems in \<open>auto simp: list_ex_iff\<close>)
  then have keep: "(av_ref_cnt (appver s v) = 0 \<and> list_ex (superseded_by s v) (kept @ v # vs)) = (\<not> live_version s all v)"
    by (simp add: live_version_def)
  have "gc_app_versions s (filter (live_version s all) (pre @ [v])) vs = filter (live_version s all) all"
    using Cons.prems by (intro Cons.IH [of "pre @ [v]"]) simp_all
  then show ?case unfolding gc_app_versions.simps(2) keep using Cons.prems(2) by (auto split: if_splits)
qed

lemma gc_files_result:
  assumes "gc_files fs s = (kept, t)" "distinct fs"
  shows "kept = filter (\<lambda>f. fi_ref_cnt (finfo s f) \<noteq> 0 \<or> file_exempt (finfo s f)) fs
    \<and> (\<forall>f. f \<in> set fs - set kept \<or> finfo t f = finfo s f)
    \<and> ((\<forall>f \<in> set fs - set kept. fi_pers_file_xfer (finfo s f) = None) \<longrightarrow> pers_file_xfers t = pers_file_xfers s)
    \<and> t = s\<lparr>finfo := finfo t, pers_file_xfers := pers_file_xfers t\<rparr>"
  using assms
proof (induction fs arbitrary: s kept)
  case Nil
  then show ?case by simp
next
  case (Cons f fs)
  show ?case
  proof (cases "fi_ref_cnt (finfo s f) = 0 \<and> \<not> file_exempt (finfo s f)")
    case True
    let ?s1 = "upd_finfo f delete_file (gc_drop_transfer f s)"
    have h: "\<And>g. g \<noteq> f \<Longrightarrow> finfo ?s1 g = finfo s g"
      "fi_pers_file_xfer (finfo s f) = None \<Longrightarrow> pers_file_xfers ?s1 = pers_file_xfers s"
      "?s1 = s\<lparr>finfo := finfo ?s1, pers_file_xfers := pers_file_xfers ?s1\<rparr>"
      by (auto simp: gc_drop_transfer_def pfxs_remove_def upd_finfo_def split: option.split)
    have k: "gc_files fs ?s1 = (kept, t)" using Cons.prems True by simp
    have "distinct fs" using Cons.prems(2) by simp
    note ih = Cons.IH [OF k this]
    note i2 = ih [THEN conjunct2, THEN conjunct1, rule_format]
    have ok: "finfo ?s1 g = finfo s g" if "g \<in> set fs" for g
      using that Cons.prems(2) by (intro h(1)) auto
    have kept: "kept = filter (\<lambda>f. fi_ref_cnt (finfo s f) \<noteq> 0 \<or> file_exempt (finfo s f)) fs"
      using ih Cons.prems(2) ok by (auto cong: filter_cong)
    have nf: "f \<notin> set kept" using Cons.prems(2) by (auto simp: kept)
    have "\<forall>g. g \<in> set (f # fs) - set kept \<or> finfo t g = finfo s g"
    proof
      fix g
      show "g \<in> set (f # fs) - set kept \<or> finfo t g = finfo s g"
        using i2 [of g] nf h(1) [of g] by (cases "g = f") auto
    qed
    moreover have "pers_file_xfers t = pers_file_xfers s"
      if "\<forall>g \<in> set (f # fs) - set kept. fi_pers_file_xfer (finfo s g) = None"
    proof -
      have "\<forall>g \<in> set fs - set kept. fi_pers_file_xfer (finfo ?s1 g) = None" using that ok by simp
      then show ?thesis using ih Cons.prems(2) that nf h(2) by simp
    qed
    moreover have "t = s\<lparr>finfo := finfo t, pers_file_xfers := pers_file_xfers t\<rparr>"
    proof -
      obtain F P where "?s1 = s\<lparr>finfo := F, pers_file_xfers := P\<rparr>" using h(3) by blast
      moreover have "t = ?s1\<lparr>finfo := finfo t, pers_file_xfers := pers_file_xfers t\<rparr>"
        using ih Cons.prems(2) by simp
      ultimately show ?thesis by simp
    qed
    ultimately show ?thesis using True kept by simp
  next
    case False
    then obtain kept1 where "gc_files fs s = (kept1, t)" "kept = f # kept1"
      using Cons.prems by (auto split: prod.splits if_splits)
    then show ?thesis using Cons.IH [of s kept1] Cons.prems(2) False by auto
  qed
qed

section \<open>The reference definition\<close>

definition app_refs :: "CLIENT_STATE \<Rightarrow> avid \<Rightarrow> fid list" where
  "app_refs s v = map fr_file_info (av_app_files (appver s v))"

definition transfer_refs :: "CLIENT_STATE \<Rightarrow> fid list" where
  "transfer_refs s = map (\<lambda>x. fx_fip (fxfer s x)) (file_xfers s) @ map (\<lambda>k. pfx_fip (pxfer s k)) (pers_file_xfers s)"

definition live_results :: "CLIENT_STATE \<Rightarrow> rid list" where
  "live_results s = filter (live_result s) (results s)"

definition live_workunits :: "CLIENT_STATE \<Rightarrow> wuid list" where
  "live_workunits s = filter (\<lambda>w. \<exists>r \<in> set (live_results s). r_wup (res s r) = w) (workunits s)"

definition live_app_versions :: "CLIENT_STATE \<Rightarrow> avid list" where
  "live_app_versions s = filter (\<lambda>v. (\<exists>r \<in> set (live_results s). r_avp (res s r) = v)
     \<or> \<not> list_ex (superseded_by s v) (app_versions s)) (app_versions s)"

definition file_refs :: "CLIENT_STATE \<Rightarrow> fid list" where
  "file_refs s = concat (map (project_refs s) (projects s)) @ concat (map (output_refs s) (live_results s))
     @ concat (map (input_refs s) (live_workunits s)) @ concat (map (app_refs s) (live_app_versions s))
     @ transfer_refs s"

definition live_files :: "CLIENT_STATE \<Rightarrow> fid list" where
  "live_files s = filter (\<lambda>f. f \<in> set (file_refs s) \<or> file_exempt (finfo s f)) (file_infos s)"

lemma refs_shape:
  assumes "shape_view t = shape_view s"
  shows "project_refs t = project_refs s" "output_refs t = output_refs s" "input_refs t = input_refs s"
    "app_refs t = app_refs s" "transfer_refs t = transfer_refs s" "superseded_by t = superseded_by s"
    "live_result t = live_result s" "\<And>r. r_wup (res t r) = r_wup (res s r)" "\<And>r. r_avp (res t r) = r_avp (res s r)"
    "\<And>f. file_exempt (finfo t f) = file_exempt (finfo s f)" "projects t = projects s"
  using shape_viewD [OF assms] live_result_shape [OF assms]
  by (simp_all add: project_refs_def output_refs_def input_refs_def app_refs_def transfer_refs_def
      superseded_by_def file_exempt_def fun_eq_iff)

lemma fold_zero:
  "shape_view (fold (\<lambda>w. upd_wunit w (\<lambda>x. x\<lparr>wu_ref_cnt := 0\<rparr>)) ws s) = shape_view s"
  "shape_view (fold (\<lambda>f. upd_finfo f (\<lambda>x. x\<lparr>fi_ref_cnt := 0\<rparr>)) fs s) = shape_view s"
  "shape_view (fold (\<lambda>v. upd_appver v (\<lambda>x. x\<lparr>av_ref_cnt := 0\<rparr>)) vs s) = shape_view s"
  "owned (fold (\<lambda>w. upd_wunit w (\<lambda>x. x\<lparr>wu_ref_cnt := 0\<rparr>)) ws s) = owned s"
  "owned (fold (\<lambda>f. upd_finfo f (\<lambda>x. x\<lparr>fi_ref_cnt := 0\<rparr>)) fs s) = owned s"
  "owned (fold (\<lambda>v. upd_appver v (\<lambda>x. x\<lparr>av_ref_cnt := 0\<rparr>)) vs s) = owned s"
  by (rule fold_frame; simp add: shape_view_def owned_def upd_wunit_def upd_finfo_def upd_appver_def fun_eq_iff)+

lemma zero_ref_counts_zero:
  shows "shape_view (zero_ref_counts s) = shape_view s" "owned (zero_ref_counts s) = owned s"
    "\<And>w. w \<in> set (workunits s) \<Longrightarrow> wu_ref_cnt (wunit (zero_ref_counts s) w) = 0"
    "\<And>f. f \<in> set (file_infos s) \<Longrightarrow> fi_ref_cnt (finfo (zero_ref_counts s) f) = 0"
    "\<And>v. v \<in> set (app_versions s) \<Longrightarrow> av_ref_cnt (appver (zero_ref_counts s) v) = 0"
proof -
  have o: "file_infos t = file_infos s" "app_versions t = app_versions s" if "owned t = owned s" for t
    using that by (simp_all add: owned_def)
  define s1 where "s1 = fold (\<lambda>w. upd_wunit w (\<lambda>x. x\<lparr>wu_ref_cnt := 0\<rparr>)) (workunits s) s"
  define s2 where "s2 = fold (\<lambda>f. upd_finfo f (\<lambda>x. x\<lparr>fi_ref_cnt := 0\<rparr>)) (file_infos s1) s1"
  have z: "zero_ref_counts s = fold (\<lambda>v. upd_appver v (\<lambda>x. x\<lparr>av_ref_cnt := 0\<rparr>)) (app_versions s2) s2"
    by (simp add: zero_ref_counts_def Let_def s1_def s2_def)
  have ow: "owned s1 = owned s" "owned s2 = owned s" by (simp_all add: s1_def s2_def fold_zero)
  show "shape_view (zero_ref_counts s) = shape_view s" "owned (zero_ref_counts s) = owned s"
    by (simp_all add: z s1_def s2_def fold_zero)
  have frame: "wunit (zero_ref_counts s) = wunit s1" "finfo (zero_ref_counts s) = finfo s2"
  proof -
    have "wunit (zero_ref_counts s) = wunit s2" "finfo (zero_ref_counts s) = finfo s2"
      unfolding z by (rule fold_frame; simp add: upd_appver_def)+
    moreover have "wunit s2 = wunit s1"
      unfolding s2_def by (rule fold_frame) (simp add: upd_finfo_def)
    ultimately show "wunit (zero_ref_counts s) = wunit s1" "finfo (zero_ref_counts s) = finfo s2" by simp_all
  qed
  show "wu_ref_cnt (wunit (zero_ref_counts s) w) = 0" if "w \<in> set (workunits s)" for w
    unfolding frame s1_def by (rule fold_establishes [OF that]) (auto simp: upd_wunit_def)
  show "fi_ref_cnt (finfo (zero_ref_counts s) f) = 0" if "f \<in> set (file_infos s)" for f
    using that unfolding frame s2_def o(1) [OF ow(1)]
    by (rule fold_establishes) (auto simp: upd_finfo_def)
  show "av_ref_cnt (appver (zero_ref_counts s) v) = 0" if "v \<in> set (app_versions s)" for v
    using that unfolding z o(2) [OF ow(2)]
    by (rule fold_establishes) (auto simp: upd_appver_def)
qed

section \<open>The phases of the collector\<close>

lemma phase_results:
  fixes s :: CLIENT_STATE
  defines "t \<equiv> gc_collect_results (ref_project_files (zero_ref_counts s))"
  shows "results t = live_results s" "workunits t = workunits s" "app_versions t = app_versions s"
    "file_infos t = file_infos s"
    "counted (zero_ref_counts s) t (concat (map (project_refs s) (projects s)) @ concat (map (output_refs s) (live_results s)))
       (map (\<lambda>r. r_avp (res s r)) (live_results s)) (map (\<lambda>r. r_wup (res s r)) (live_results s))"
proof -
  let ?z = "zero_ref_counts s"
  note z = zero_ref_counts_zero [where s = s]
  note zr = refs_shape [OF z(1)]
  define u where "u = ref_project_files ?z"
  have u: "counted ?z u (concat (map (project_refs s) (projects s))) [] []" "owned u = owned s"
    using ref_project_files_counted [of ?z] by (simp_all add: u_def zr z(2))
  have su: "shape_view u = shape_view s" using counted_shape [OF u(1)] z(1) by simp
  note ur = refs_shape [OF su]
  obtain kept v where g: "gc_results (results u) u = (kept, v)" by fastforce
  have t: "t = v\<lparr>results := kept\<rparr>" by (simp add: t_def gc_collect_results_def u_def [symmetric] g)
  have k: "kept = live_results s" "owned v = owned s"
    and c: "counted u v (concat (map (output_refs s) kept)) (map (\<lambda>r. r_avp (res s r)) kept) (map (\<lambda>r. r_wup (res s r)) kept)"
    using gc_results_counted [OF g] u(2) unfolding ur by (auto simp: live_results_def owned_def)
  show "results t = live_results s" "workunits t = workunits s" "app_versions t = app_versions s"
    "file_infos t = file_infos s" using k by (simp_all add: t owned_def)
  show "counted ?z t (concat (map (project_refs s) (projects s)) @ concat (map (output_refs s) (live_results s)))
       (map (\<lambda>r. r_avp (res s r)) (live_results s)) (map (\<lambda>r. r_wup (res s r)) (live_results s))"
    using counted_trans [OF u(1) c] k(1) by (simp add: t counted_def shape_view_def)
qed

lemma counted_zero_iff:
  assumes "counted (zero_ref_counts s) t fs vs ws"
  shows "f \<in> set (file_infos s) \<Longrightarrow> fi_ref_cnt (finfo t f) = 0 \<longleftrightarrow> f \<notin> set fs"
    "v \<in> set (app_versions s) \<Longrightarrow> av_ref_cnt (appver t v) = 0 \<longleftrightarrow> v \<notin> set vs"
    "w \<in> set (workunits s) \<Longrightarrow> wu_ref_cnt (wunit t w) = 0 \<longleftrightarrow> w \<notin> set ws"
  using assms zero_ref_counts_zero(3-5) [of _ s] by (simp_all add: counted_def count_list_0_iff)

lemma phase_workunits:
  fixes s :: CLIENT_STATE
  defines "t \<equiv> gc_collect_workunits (gc_collect_results (ref_project_files (zero_ref_counts s)))"
  shows "results t = live_results s" "workunits t = live_workunits s" "app_versions t = app_versions s"
    "file_infos t = file_infos s"
    "counted (zero_ref_counts s) t (concat (map (project_refs s) (projects s)) @ concat (map (output_refs s) (live_results s))
        @ concat (map (input_refs s) (live_workunits s)))
       (map (\<lambda>r. r_avp (res s r)) (live_results s)) (map (\<lambda>r. r_wup (res s r)) (live_results s))"
proof -
  define u where "u = gc_collect_results (ref_project_files (zero_ref_counts s))"
  note u = phase_results [of s, folded u_def]
  have "shape_view u = shape_view s" using counted_shape [OF u(5)] zero_ref_counts_zero(1) by simp
  note ur = refs_shape [OF this]
  obtain kept v where g: "gc_workunits (workunits s) u = (kept, v)" by fastforce
  have t: "t = v\<lparr>workunits := kept\<rparr>"
    by (simp add: t_def gc_collect_workunits_def u_def [symmetric] g u(2))
  have c: "counted u v (concat (map (input_refs s) kept)) [] []" "owned v = owned u"
    using gc_workunits_counted [OF g] unfolding ur by blast+
  have "kept = filter (\<lambda>w. wu_ref_cnt (wunit u w) \<noteq> 0) (workunits s)"
    using gc_workunits_counted [OF g] by simp
  also have "\<dots> = live_workunits s"
    unfolding live_workunits_def by (rule filter_cong) (auto simp: counted_zero_iff(3) [OF u(5)])
  finally have k: "kept = live_workunits s" .
  show "results t = live_results s" "workunits t = live_workunits s" "app_versions t = app_versions s"
    "file_infos t = file_infos s" using c(2) u(1-4) by (simp_all add: t k owned_def)
  show "counted (zero_ref_counts s) t (concat (map (project_refs s) (projects s)) @ concat (map (output_refs s) (live_results s))
        @ concat (map (input_refs s) (live_workunits s)))
       (map (\<lambda>r. r_avp (res s r)) (live_results s)) (map (\<lambda>r. r_wup (res s r)) (live_results s))"
    using counted_trans [OF u(5) c(1)] k by (simp add: t counted_def shape_view_def)
qed

lemma phase_references:
  fixes s :: CLIENT_STATE
  defines "t \<equiv> ref_transfers (ref_app_files (gc_collect_app_versions (gc_collect_workunits
                 (gc_collect_results (ref_project_files (zero_ref_counts s))))))"
  shows "results t = live_results s" "workunits t = live_workunits s" "app_versions t = live_app_versions s"
    "file_infos t = file_infos s"
    "counted (zero_ref_counts s) t (file_refs s)
       (map (\<lambda>r. r_avp (res s r)) (live_results s)) (map (\<lambda>r. r_wup (res s r)) (live_results s))"
proof -
  define u where "u = gc_collect_workunits (gc_collect_results (ref_project_files (zero_ref_counts s)))"
  note u = phase_workunits [of s, folded u_def]
  have su: "shape_view u = shape_view s" using counted_shape [OF u(5)] zero_ref_counts_zero(1) by simp
  note ur = refs_shape [OF su]
  define v where "v = gc_collect_app_versions u"
  have "app_versions v = filter (live_version u (app_versions s)) (app_versions s)"
    using gc_app_versions_filter [of "app_versions s" "[]" "app_versions s" "[]" u]
    by (simp add: v_def gc_collect_app_versions_def u(3))
  also have "\<dots> = live_app_versions s"
    unfolding live_app_versions_def
    by (rule filter_cong) (auto simp: live_version_def counted_zero_iff(2) [OF u(5)] ur)
  finally have av: "app_versions v = live_app_versions s" .
  have cv: "counted (zero_ref_counts s) v (concat (map (project_refs s) (projects s)) @ concat (map (output_refs s) (live_results s))
        @ concat (map (input_refs s) (live_workunits s)))
       (map (\<lambda>r. r_avp (res s r)) (live_results s)) (map (\<lambda>r. r_wup (res s r)) (live_results s))"
    using u(5) by (simp add: v_def gc_collect_app_versions_def counted_def shape_view_def)
  have sv: "shape_view v = shape_view s" using counted_shape [OF cv] zero_ref_counts_zero(1) by simp
  define w where "w = ref_app_files v"
  have cw: "counted v w (concat (map (app_refs s) (live_app_versions s))) [] []" "owned w = owned v"
    using ref_app_files_counted [of v] by (simp_all add: w_def av app_refs_def [abs_def] shape_viewD [OF sv])
  have sw: "shape_view w = shape_view s" using counted_shape [OF cw(1)] sv by simp
  have ct: "counted w t (transfer_refs s) [] []" "owned t = owned w"
    using ref_transfers_counted [of w]
    by (simp_all add: t_def u_def [symmetric] v_def [symmetric] w_def [symmetric] transfer_refs_def shape_viewD [OF sw])
  have "owned t = (live_results s, live_app_versions s, live_workunits s, file_infos s)"
    using ct(2) cw(2) u(1-4) av by (simp add: owned_def v_def gc_collect_app_versions_def)
  then show "results t = live_results s" "workunits t = live_workunits s" "app_versions t = live_app_versions s"
    "file_infos t = file_infos s" by (simp_all add: owned_def)
  show "counted (zero_ref_counts s) t (file_refs s)
       (map (\<lambda>r. r_avp (res s r)) (live_results s)) (map (\<lambda>r. r_wup (res s r)) (live_results s))"
    using counted_trans [OF counted_trans [OF cv cw(1)] ct(1)] by (simp add: file_refs_def)
qed

text \<open>What the whole collector leaves: the live objects, every pointer of a live object as it was.\<close>

lemma gc_state_result:
  assumes "distinct (file_infos s)"
  defines "t \<equiv> gc_state s"
  shows "results t = live_results s" "workunits t = live_workunits s" "app_versions t = live_app_versions s"
    "file_infos t = live_files s"
    "projects t = projects s" "active_tasks t = active_tasks s" "file_xfers t = file_xfers s"
    "pxfer t = pxfer s" "fxfer t = fxfer s"
    "\<And>v. app_refs t v = app_refs s v" "\<And>w. input_refs t w = input_refs s w" "\<And>r. output_refs t r = output_refs s r"
    "\<And>p. project_refs t p = project_refs s p"
    "\<And>r. r_wup (res t r) = r_wup (res s r)" "\<And>r. r_avp (res t r) = r_avp (res s r)"
    "\<And>a. at_result (task t a) = at_result (task s a)" "\<And>a. at_wup (task t a) = at_wup (task s a)"
    "\<And>a. at_app_version (task t a) = at_app_version (task s a)"
    "\<And>f. f \<in> set (live_files s) \<Longrightarrow> fi_pers_file_xfer (finfo t f) = fi_pers_file_xfer (finfo s f)"
    "(\<And>f. f \<in> set (file_infos s) \<Longrightarrow> f \<notin> set (file_refs s) \<Longrightarrow> fi_pers_file_xfer (finfo s f) = None)
       \<Longrightarrow> pers_file_xfers t = pers_file_xfers s"
proof -
  define u where "u = ref_transfers (ref_app_files (gc_collect_app_versions (gc_collect_workunits
                 (gc_collect_results (ref_project_files (zero_ref_counts s))))))"
  note u = phase_references [of s, folded u_def]
  have su: "shape_view u = shape_view s" using counted_shape [OF u(5)] zero_ref_counts_zero(1) by simp
  note ur = refs_shape [OF su] shape_viewD [OF su]
  obtain kept v where g: "gc_files (file_infos s) u = (kept, v)" by fastforce
  have t: "t = v\<lparr>file_infos := kept\<rparr>"
    by (simp add: t_def gc_state_def gc_collect_files_def u_def [symmetric] g u(4))
  note gf = gc_files_result [OF g assms(1)]
  obtain F P where v: "v = u\<lparr>finfo := F, pers_file_xfers := P\<rparr>" using gf by blast
  have "kept = filter (\<lambda>f. fi_ref_cnt (finfo u f) \<noteq> 0 \<or> file_exempt (finfo u f)) (file_infos s)" using gf by blast
  also have "\<dots> = live_files s"
    unfolding live_files_def by (rule filter_cong) (auto simp: counted_zero_iff(1) [OF u(5)] ur)
  finally have k: "kept = live_files s" .
  show "results t = live_results s" "workunits t = live_workunits s" "app_versions t = live_app_versions s"
    "file_infos t = live_files s" "projects t = projects s" "active_tasks t = active_tasks s"
    "file_xfers t = file_xfers s" "pxfer t = pxfer s" "fxfer t = fxfer s"
    using u(1-3) by (simp_all add: t v k ur)
  show "app_refs t v' = app_refs s v'" "input_refs t w = input_refs s w" "output_refs t r = output_refs s r"
    "project_refs t p = project_refs s p" "r_wup (res t r) = r_wup (res s r)" "r_avp (res t r) = r_avp (res s r)"
    "at_result (task t a) = at_result (task s a)" "at_wup (task t a) = at_wup (task s a)"
    "at_app_version (task t a) = at_app_version (task s a)" for v' w r p a
    by (simp_all add: t v app_refs_def input_refs_def output_refs_def project_refs_def ur)
  show "fi_pers_file_xfer (finfo t f) = fi_pers_file_xfer (finfo s f)" if "f \<in> set (live_files s)" for f
    using gf [THEN conjunct2, THEN conjunct1, rule_format, of f] that k by (simp add: t ur)
  show "pers_file_xfers t = pers_file_xfers s"
    if "\<And>f. f \<in> set (file_infos s) \<Longrightarrow> f \<notin> set (file_refs s) \<Longrightarrow> fi_pers_file_xfer (finfo s f) = None"
  proof -
    have "\<forall>f \<in> set (file_infos s) - set kept. fi_pers_file_xfer (finfo u f) = None"
      using that by (auto simp: k live_files_def ur)
    then have "pers_file_xfers v = pers_file_xfers u" using gf by blast
    then show ?thesis by (simp add: t ur)
  qed
qed

section \<open>The collector keeps what is live\<close>

text \<open>C4: The garbage collector's passes over reference counts keep exactly what the declarative
  definition calls live: the results that are not acknowledged or still have a task, the workunits
  these refer to, the application versions these refer to or that no newer version supersedes, and
  the files that a project, a result, a workunit, an application version or a transfer kept refers to
  or that are exempt. It reports that it acted when one of the four vectors has shrunk.\<close>

theorem garbage_collect_keeps_live:
  assumes "distinct (file_infos s)"
  shows "case garbage_collect_always s of (action, t) \<Rightarrow>
    results t = live_results s \<and> workunits t = live_workunits s \<and> app_versions t = live_app_versions s
    \<and> file_infos t = live_files s
    \<and> action = (length (live_results s) < length (results s) \<or> length (live_workunits s) < length (workunits s)
        \<or> length (live_app_versions s) < length (app_versions s) \<or> length (live_files s) < length (file_infos s))"
  using gc_state_result(1-4) [OF assms] by (simp add: garbage_collect_always_def Let_def)

text \<open>Result 0 has been acknowledged; file 7 is its output and nothing else refers to it.\<close>

definition acked_state :: CLIENT_STATE where
  "acked_state = sample_state\<lparr>results := [0, 1], workunits := [0, 1], file_infos := [7, 8],
     res := (\<lambda>r. if r = 0 then sample_result\<lparr>r_got_server_ack := True,
                     r_output_files := [\<lparr>fr_file_name = [], fr_open_name = [], fr_main_program = False,
                       fr_file_info = 7, fr_copy_file = False, fr_optional = False\<rparr>]\<rparr>
                 else sample_result\<lparr>r_wup := 1,
                     r_output_files := [\<lparr>fr_file_name = [], fr_open_name = [], fr_main_program = False,
                       fr_file_info = 8, fr_copy_file = False, fr_optional = False\<rparr>]\<rparr>)\<rparr>"

lemma acked_live:
  "live_results acked_state = [1]" "live_workunits acked_state = [1]" "live_app_versions acked_state = [0]"
  "live_files acked_state = [8]"
proof -
  show r: "live_results acked_state = [1]" by (simp add: live_results_def live_result_def acked_state_def sample_defs)
  show w: "live_workunits acked_state = [1]" by (simp add: live_workunits_def r) (simp add: acked_state_def sample_defs)
  show v: "live_app_versions acked_state = [0]"
    by (simp add: live_app_versions_def r) (simp add: acked_state_def sample_defs)
  show "live_files acked_state = [8]"
    by (simp add: live_files_def file_refs_def r w v)
      (simp add: acked_state_def sample_defs project_refs_def output_refs_def input_refs_def app_refs_def
        transfer_refs_def file_exempt_def)
qed

theorem garbage_collect_keeps_live_witness:
  "results (snd (garbage_collect_always acked_state)) = [1]
   \<and> file_infos (snd (garbage_collect_always acked_state)) = [8] \<and> fst (garbage_collect_always acked_state)"
proof -
  have "distinct (file_infos acked_state)" "length (results acked_state) = 2" by (simp_all add: acked_state_def)
  then show ?thesis
    using garbage_collect_keeps_live [of acked_state] by (simp add: acked_live split: prod.splits)
qed

section \<open>No dangling pointers\<close>

text \<open>
  Every pointer that an object reachable from the vectors holds leads to an object of its vector; a
  task's workunit and version are those of its result, and a file knows its transfer.
\<close>

definition no_dangling :: "CLIENT_STATE \<Rightarrow> bool" where
  "no_dangling s = (distinct (file_infos s)
     \<and> (\<forall>r \<in> set (results s). r_wup (res s r) \<in> set (workunits s) \<and> r_avp (res s r) \<in> set (app_versions s)
          \<and> set (output_refs s r) \<subseteq> set (file_infos s))
     \<and> (\<forall>w \<in> set (workunits s). set (input_refs s w) \<subseteq> set (file_infos s))
     \<and> (\<forall>v \<in> set (app_versions s). set (app_refs s v) \<subseteq> set (file_infos s))
     \<and> (\<forall>p \<in> set (projects s). set (project_refs s p) \<subseteq> set (file_infos s))
     \<and> set (transfer_refs s) \<subseteq> set (file_infos s)
     \<and> (\<forall>a \<in> set (active_tasks s). at_result (task s a) \<in> set (results s)
          \<and> at_wup (task s a) = r_wup (res s (at_result (task s a)))
          \<and> at_app_version (task s a) = r_avp (res s (at_result (task s a))))
     \<and> (\<forall>f \<in> set (file_infos s). \<forall>k. fi_pers_file_xfer (finfo s f) = Some k
          \<longrightarrow> k \<in> set (pers_file_xfers s) \<and> pfx_fip (pxfer s k) = f))"

lemma live_refs_kept:
  assumes "set (h x) \<subseteq> set (file_infos s)" "x \<in> set xs" "set (concat (map h xs)) \<subseteq> set (file_refs s)"
  shows "set (h x) \<subseteq> set (live_files s)"
  using assms by (fastforce simp: live_files_def)

lemma unreferenced_no_transfer:
  assumes "no_dangling s" "f \<in> set (file_infos s)" "f \<notin> set (file_refs s)"
  shows "fi_pers_file_xfer (finfo s f) = None"
proof (cases "fi_pers_file_xfer (finfo s f)")
  case (Some k)
  then have "k \<in> set (pers_file_xfers s)" "pfx_fip (pxfer s k) = f"
    using assms(1,2) by (auto simp: no_dangling_def)
  then have "f \<in> set (file_refs s)" by (force simp: file_refs_def transfer_refs_def)
  then show ?thesis using assms(3) by simp
qed simp

lemma garbage_collect_links:
  assumes "no_dangling s"
  shows "no_dangling (snd (garbage_collect_always s))"
proof -
  have d: "distinct (file_infos s)" using assms by (simp add: no_dangling_def)
  define t where "t = gc_state s"
  note g = gc_state_result [OF d, folded t_def]
  have pf: "pers_file_xfers t = pers_file_xfers s" using unreferenced_no_transfer [OF assms] by (intro g(20)) auto
  have tr: "transfer_refs t = transfer_refs s" by (simp add: transfer_refs_def g pf)
  have sub: "set (concat (map (project_refs s) (projects s))) \<subseteq> set (file_refs s)"
    "set (concat (map (output_refs s) (live_results s))) \<subseteq> set (file_refs s)"
    "set (concat (map (input_refs s) (live_workunits s))) \<subseteq> set (file_refs s)"
    "set (concat (map (app_refs s) (live_app_versions s))) \<subseteq> set (file_refs s)"
    "set (transfer_refs s) \<subseteq> set (file_refs s)"
    by (auto simp: file_refs_def)
  have 1: "r_wup (res s r) \<in> set (live_workunits s) \<and> r_avp (res s r) \<in> set (live_app_versions s)
      \<and> set (output_refs s r) \<subseteq> set (live_files s)" if r: "r \<in> set (live_results s)" for r
  proof -
    have "r \<in> set (results s)" using r by (simp add: live_results_def)
    then show ?thesis
      using assms r live_refs_kept [OF _ r sub(2)] by (auto simp: no_dangling_def live_workunits_def live_app_versions_def)
  qed
  have 2: "set (input_refs s w) \<subseteq> set (live_files s)" if "w \<in> set (live_workunits s)" for w
    using that assms by (intro live_refs_kept [OF _ that sub(3)]) (auto simp: no_dangling_def live_workunits_def)
  have 3: "set (app_refs s v) \<subseteq> set (live_files s)" if "v \<in> set (live_app_versions s)" for v
    using that assms by (intro live_refs_kept [OF _ that sub(4)]) (auto simp: no_dangling_def live_app_versions_def)
  have 4: "set (project_refs s p) \<subseteq> set (live_files s)" if "p \<in> set (projects s)" for p
    using that assms by (intro live_refs_kept [OF _ that sub(1)]) (auto simp: no_dangling_def)
  have 5: "set (transfer_refs s) \<subseteq> set (live_files s)"
    using assms sub(5) by (auto simp: no_dangling_def live_files_def)
  have 6: "at_result (task s a) \<in> set (live_results s)
      \<and> at_wup (task s a) = r_wup (res s (at_result (task s a)))
      \<and> at_app_version (task s a) = r_avp (res s (at_result (task s a)))" if "a \<in> set (active_tasks s)" for a
    using assms that by (auto simp: no_dangling_def live_results_def live_result_def)
  have 7: "k \<in> set (pers_file_xfers s) \<and> pfx_fip (pxfer s k) = f"
    if "f \<in> set (live_files s)" "fi_pers_file_xfer (finfo s f) = Some k" for f k
    using assms that by (auto simp: no_dangling_def live_files_def)
  have "distinct (live_files s)" using d by (simp add: live_files_def)
  then have "no_dangling t"
    unfolding no_dangling_def using 1 2 3 4 5 6 7 by (simp add: g pf tr)
  then show ?thesis by (simp add: garbage_collect_always_def Let_def t_def)
qed

text \<open>C5: Garbage collection leaves no dangling pointer: when every result, workunit, application
  version, file, transfer and task that is referred to exists before it, the same holds after it.\<close>

theorem garbage_collect_no_dangling:
  assumes "no_dangling s"
  shows "no_dangling (snd (garbage_collect_always s))"
  using assms by (rule garbage_collect_links)

theorem garbage_collect_no_dangling_witness: "no_dangling (snd (garbage_collect_always acked_state))"
  by (rule garbage_collect_no_dangling)
    (auto simp: no_dangling_def acked_state_def sample_defs project_refs_def output_refs_def input_refs_def
      app_refs_def transfer_refs_def)

end
