(* ===== verification/State_Links.thy ===== *)
theory State_Links
  imports Collector_Correct File_Verify
begin

text \<open>
  Looking up objects by name and linking new ones to them (\<open>client/client_state.C\<close>,
  \<open>client/cs_platforms.C\<close>, \<open>CLIENT_STATE::latest_version\<close>). In XML the objects of the client
  refer to each other by name; \<open>link_*\<close> replace the names by pointers when an object is added.
  A new object is a value until it is put into its vector; \<open>new\<close> gives it an address that the vector
  does not hold.
\<close>

section \<open>Lookups\<close>

definition erase_slash :: "string \<Rightarrow> string" where
  "erase_slash url = (if ends_with url ''/'' then butlast url else url)"

definition lookup_project :: "CLIENT_STATE \<Rightarrow> string \<Rightarrow> pid option" where
  "lookup_project s master_url = find (\<lambda>p. erase_slash master_url = erase_slash (p_master_url (proj s p))) (projects s)"

definition lookup_app :: "CLIENT_STATE \<Rightarrow> pid \<Rightarrow> string \<Rightarrow> appid option" where
  "lookup_app s p name = find (\<lambda>a. app_project (appl s a) = p \<and> name = app_name (appl s a)) (apps s)"

definition lookup_result_name :: "CLIENT_STATE \<Rightarrow> pid \<Rightarrow> string \<Rightarrow> rid option" where
  "lookup_result_name s p name = find (\<lambda>r. r_project (res s r) = p \<and> name = r_name (res s r)) (results s)"

definition lookup_workunit :: "CLIENT_STATE \<Rightarrow> pid \<Rightarrow> string \<Rightarrow> wuid option" where
  "lookup_workunit s p name = find (\<lambda>w. wu_project (wunit s w) = p \<and> name = wu_name (wunit s w)) (workunits s)"

text \<open>The application is a pointer that may be \<open>NULL\<close>; no version belongs to that one.\<close>

definition lookup_app_version :: "CLIENT_STATE \<Rightarrow> appid option \<Rightarrow> string \<Rightarrow> int \<Rightarrow> string \<Rightarrow> avid option" where
  "lookup_app_version s a platform version_num plan_class =
     find (\<lambda>v. let x = appver s v in Some (av_app x) = a \<and> version_num = av_version_num x
                 \<and> av_platform x = platform \<and> av_plan_class x = plan_class) (app_versions s)"

definition lookup_file_info :: "CLIENT_STATE \<Rightarrow> pid \<Rightarrow> string \<Rightarrow> fid option" where
  "lookup_file_info s p name = find (\<lambda>f. fi_project (finfo s f) = p \<and> fi_name (finfo s f) = name) (file_infos s)"

definition latest_version :: "CLIENT_STATE \<Rightarrow> appid \<Rightarrow> string \<Rightarrow> int" where
  "latest_version s a platform = fold (\<lambda>v best.
     let x = appver s v in
     if av_app x \<noteq> a then best
     else if platform \<noteq> av_platform x then best
     else if av_version_num x < best then best
     else av_version_num x) (app_versions s) (-1)"

definition is_supported_platform :: "CLIENT_STATE \<Rightarrow> string \<Rightarrow> bool" where
  "is_supported_platform s p = (p \<in> set (platforms s))"

definition get_primary_platform :: "CLIENT_STATE \<Rightarrow> string" where
  "get_primary_platform s = platforms s ! 0"

section \<open>Links\<close>

definition link_app :: "CLIENT_STATE \<Rightarrow> pid \<Rightarrow> APP \<Rightarrow> int \<times> APP" where
  "link_app s p x = (if lookup_app s p (app_name x) \<noteq> None then (ERR_NOT_UNIQUE, x) else (0, x\<lparr>app_project := p\<rparr>))"

definition link_file_info :: "CLIENT_STATE \<Rightarrow> pid \<Rightarrow> FILE_INFO \<Rightarrow> int \<times> FILE_INFO" where
  "link_file_info s p x =
     (if lookup_file_info s p (fi_name x) \<noteq> None then (ERR_NOT_UNIQUE, x) else (0, x\<lparr>fi_project := p\<rparr>))"

text \<open>
  The files of an application version. Each must be signed from now on, also when a later one is
  missing; \<open>abs_path\<close> is \<open>relative_to_absolute(get_pathname(fip))\<close>.
\<close>

fun link_app_files :: "(fid \<Rightarrow> string) \<Rightarrow> pid \<Rightarrow> FILE_REF list \<Rightarrow> string \<Rightarrow> CLIENT_STATE
    \<Rightarrow> int \<times> FILE_REF list \<times> string \<times> CLIENT_STATE" where
  "link_app_files abs_path p [] gpath s = (0, [], gpath, s)"
| "link_app_files abs_path p (fr # frs) gpath s =
     (case lookup_file_info s p (fr_file_name fr) of
        None \<Rightarrow> (ERR_NOT_FOUND, fr # frs, gpath, s)
      | Some f \<Rightarrow>
          let gpath1 = (if fr_open_name fr = ''graphics_app'' then take 511 (abs_path f) else gpath)
          in case link_app_files abs_path p frs gpath1 (upd_finfo f (\<lambda>x. x\<lparr>fi_signature_required := True\<rparr>) s) of
               (retval, frs1, gpath2, s1) \<Rightarrow> (retval, fr\<lparr>fr_file_info := f\<rparr> # frs1, gpath2, s1))"

definition link_app_version ::
  "(fid \<Rightarrow> string) \<Rightarrow> pid \<Rightarrow> APP_VERSION \<Rightarrow> CLIENT_STATE \<Rightarrow> int \<times> APP_VERSION \<times> CLIENT_STATE" where
  "link_app_version abs_path p x s =
     (let x1 = x\<lparr>av_project := p\<rparr> in
      case lookup_app s p (av_app_name x1) of
        None \<Rightarrow> (ERR_NOT_FOUND, x1, s)
      | Some a \<Rightarrow>
          let x2 = x1\<lparr>av_app := a\<rparr> in
          if lookup_app_version s (Some a) (av_platform x2) (av_version_num x2) (av_plan_class x2) \<noteq> None
          then (ERR_NOT_UNIQUE, x2, s)
          else case link_app_files abs_path p (av_app_files x2) [] s of (retval, frs, gpath, s1) \<Rightarrow>
            (retval, x2\<lparr>av_app_files := frs, av_graphics_exec_path := gpath\<rparr>, s1))"

fun link_file_refs :: "CLIENT_STATE \<Rightarrow> pid \<Rightarrow> FILE_REF list \<Rightarrow> int \<times> FILE_REF list" where
  "link_file_refs s p [] = (0, [])"
| "link_file_refs s p (fr # frs) =
     (case lookup_file_info s p (fr_file_name fr) of
        None \<Rightarrow> (ERR_NOT_FOUND, fr # frs)
      | Some f \<Rightarrow> (case link_file_refs s p frs of (retval, frs1) \<Rightarrow> (retval, fr\<lparr>fr_file_info := f\<rparr> # frs1)))"

definition link_workunit :: "CLIENT_STATE \<Rightarrow> pid \<Rightarrow> WORKUNIT \<Rightarrow> int \<times> WORKUNIT" where
  "link_workunit s p x =
     (case lookup_app s p (wu_app_name x) of
        None \<Rightarrow> (ERR_NOT_FOUND, x)
      | Some a \<Rightarrow>
          (case link_file_refs s p (wu_input_files x) of (retval, frs) \<Rightarrow>
             (retval, x\<lparr>wu_project := p, wu_app := a, wu_input_files := frs\<rparr>)))"

definition link_result :: "CLIENT_STATE \<Rightarrow> pid \<Rightarrow> RESULT \<Rightarrow> int \<times> RESULT" where
  "link_result s p x =
     (case lookup_workunit s p (r_wu_name x) of
        None \<Rightarrow> (ERR_NOT_FOUND, x)
      | Some w \<Rightarrow>
          (case link_file_refs s p (r_output_files x) of (retval, frs) \<Rightarrow>
             (retval, x\<lparr>r_project := p, r_wup := w, r_app := wu_app (wunit s w), r_output_files := frs\<rparr>)))"

text \<open>The project files of a scheduler reply; references to unknown files are dropped. The symbolic
  links it recreates are files on the disk.\<close>

definition link_project_files :: "pid \<Rightarrow> CLIENT_STATE \<Rightarrow> CLIENT_STATE" where
  "link_project_files p s =
     (let frs = List.map_filter (\<lambda>fr. map_option (\<lambda>f. fr\<lparr>fr_file_info := f\<rparr>)
                  (lookup_file_info s p (fr_file_name fr))) (p_project_files (proj s p))
      in upd_proj p (\<lambda>x. x\<lparr>p_project_files := frs\<rparr>)
           (fold (\<lambda>fr. upd_finfo (fr_file_info fr) (\<lambda>x. x\<lparr>fi_is_project_file := True\<rparr>)) frs s))"

section \<open>New objects\<close>

definition fresh_in :: "nat list \<Rightarrow> nat" where
  "fresh_in xs = Suc (fold max xs 0)"

definition add_app :: "APP \<Rightarrow> CLIENT_STATE \<Rightarrow> CLIENT_STATE" where
  "add_app x s = (let a = fresh_in (apps s) in (upd_appl a (\<lambda>_. x) s)\<lparr>apps := apps s @ [a]\<rparr>)"

definition add_file_info :: "FILE_INFO \<Rightarrow> CLIENT_STATE \<Rightarrow> CLIENT_STATE" where
  "add_file_info x s = (let f = fresh_in (file_infos s) in (upd_finfo f (\<lambda>_. x) s)\<lparr>file_infos := file_infos s @ [f]\<rparr>)"

definition add_app_version :: "APP_VERSION \<Rightarrow> CLIENT_STATE \<Rightarrow> CLIENT_STATE" where
  "add_app_version x s =
     (let v = fresh_in (app_versions s) in (upd_appver v (\<lambda>_. x) s)\<lparr>app_versions := app_versions s @ [v]\<rparr>)"

definition add_workunit :: "WORKUNIT \<Rightarrow> CLIENT_STATE \<Rightarrow> CLIENT_STATE" where
  "add_workunit x s = (let w = fresh_in (workunits s) in (upd_wunit w (\<lambda>_. x) s)\<lparr>workunits := workunits s @ [w]\<rparr>)"

definition add_result :: "RESULT \<Rightarrow> CLIENT_STATE \<Rightarrow> CLIENT_STATE" where
  "add_result x s = (let r = fresh_in (results s) in (upd_res r (\<lambda>_. x) s)\<lparr>results := results s @ [r]\<rparr>)"

lemma fresh_in_new: "fresh_in xs \<notin> set xs"
proof
  assume "fresh_in xs \<in> set xs"
  then have "fresh_in xs \<le> fold max xs 0" by (rule fold_max_ge(2))
  then show False by (simp add: fresh_in_def)
qed

end
