(* ===== verification/Xml_Text.thy ===== *)
theory Xml_Text
  imports File_Info
begin

text \<open>
  Text inside XML elements (\<open>lib/parse.C\<close>): escaping and unescaping into a buffer of a given size,
  \<open>strip_whitespace\<close> (\<open>lib/str_util.C\<close>) and \<open>parse_str\<close>. A C string is a list of characters
  without the terminating zero.
\<close>

section \<open>Characters\<close>

abbreviation code :: "char \<Rightarrow> nat" where "code c \<equiv> of_char c"

abbreviation SEMI :: char where "SEMI \<equiv> CHR '';''"

definition is_digit :: "char \<Rightarrow> bool" where
  "is_digit c = (48 \<le> code c \<and> code c \<le> 57)"

definition is_space :: "char \<Rightarrow> bool" where
  "is_space c = (code c = 32 \<or> 9 \<le> code c \<and> code c \<le> 13)"

text \<open>\<open>atoi\<close>: white space, a sign, digits; what follows is ignored.\<close>

definition digits_value :: "string \<Rightarrow> int" where
  "digits_value ds = foldl (\<lambda>a c. 10 * a + (int (code c) - 48)) 0 (takeWhile is_digit ds)"

definition atoi :: "string \<Rightarrow> int" where
  "atoi str = (case dropWhile is_space str of
     [] \<Rightarrow> 0
   | c # cs \<Rightarrow> if c = CHR ''-'' then - digits_value cs
              else if c = CHR ''+'' then digits_value cs else digits_value (c # cs))"

section \<open>Escaping\<close>

definition escape_code :: "char \<Rightarrow> string" where
  "escape_code c = ''&#'' @ digits (code c) @ '';''"

definition xml_escape_char :: "char \<Rightarrow> string" where
  "xml_escape_char c =
     (if c = CHR ''<'' then ''&lt;''
      else if c = CHR ''&'' then ''&amp;''
      else if code c > 127 then escape_code c
      else if code c < 32
      then if code c = 9 \<or> code c = 10 \<or> code c = 13 then escape_code c else []
      else [c])"

fun xml_escape_loop :: "int \<Rightarrow> string \<Rightarrow> string \<Rightarrow> string" where
  "xml_escape_loop len out [] = out"
| "xml_escape_loop len out (c # cs) =
     (let out1 = out @ xml_escape_char c in
      if int (length out1) \<ge> len - 7
      then if int (length out1) > len - 1 then take (nat (len - 1)) out1 else out1
      else xml_escape_loop len out1 cs)"

definition xml_escape :: "string \<Rightarrow> int \<Rightarrow> string" where
  "xml_escape inp len = xml_escape_loop len [] inp"

section \<open>Unescaping\<close>

text \<open>
  One step of \<open>xml_unescape\<close> at a non-empty input: the character it appends and the rest. The number of
  a character reference is converted to \<open>char\<close>; a reference without a semicolon is copied.
\<close>

definition xml_unescape_step :: "string \<Rightarrow> char \<times> string" where
  "xml_unescape_step inp =
     (if hd inp \<noteq> CHR ''&'' then (hd inp, tl inp)
      else if take 4 inp = ''&lt;'' then (CHR ''<'', drop 4 inp)
      else if take 4 inp = ''&gt;'' then (CHR ''>'', drop 4 inp)
      else if take 5 inp = ''&amp;'' then (CHR ''&'', drop 5 inp)
      else if take 2 inp = ''&#''
      then (case dropWhile (\<lambda>c. c \<noteq> SEMI) inp of
              [] \<Rightarrow> (hd inp, tl inp)
            | _ # rest \<Rightarrow> (char_of (nat (atoi (drop 2 inp) mod 256)), rest))
      else (hd inp, tl inp))"

lemma xml_unescape_step_shorter:
  assumes "inp \<noteq> []"
  shows "length (snd (xml_unescape_step inp)) < length inp"
proof -
  have "length rest < length inp" if "dropWhile (\<lambda>c. c \<noteq> SEMI) inp = d # rest" for d rest
    using length_dropWhile_le [of "\<lambda>c. c \<noteq> SEMI" inp] that by simp
  then show ?thesis
    using assms by (simp add: xml_unescape_step_def split: list.split)
qed

function xml_unescape_loop :: "int \<Rightarrow> string \<Rightarrow> string \<Rightarrow> string" where
  "xml_unescape_loop len out inp =
     (if inp = [] then out
      else case xml_unescape_step inp of (c, rest) \<Rightarrow>
        let out1 = out @ [c] in
        if int (length out1) \<ge> len - 1 then take (nat (len - 1)) out1
        else xml_unescape_loop len out1 rest)"
  by pat_completeness auto
termination
  by (relation "measure (\<lambda>(len, out, inp). length inp)") (auto dest!: xml_unescape_step_shorter simp: prod_eq_iff split: prod.splits)

declare xml_unescape_loop.simps [simp del]

text \<open>The result is what the buffer holds before the first zero.\<close>

definition xml_unescape :: "string \<Rightarrow> int \<Rightarrow> string" where
  "xml_unescape inp len = takeWhile (\<lambda>c. code c \<noteq> 0) (xml_unescape_loop len [] inp)"

section \<open>White space and elements\<close>

definition strip_whitespace :: "string \<Rightarrow> string" where
  "strip_whitespace str = rev (dropWhile is_space (rev (dropWhile is_space str)))"

text \<open>\<open>strstr\<close> as a pointer: the input from the first occurrence on.\<close>

fun strstr_from :: "string \<Rightarrow> string \<Rightarrow> string option" where
  "strstr_from pat [] = (if pat = [] then Some [] else None)"
| "strstr_from pat (c # cs) =
     (if take (length pat) (c # cs) = pat then Some (c # cs) else strstr_from pat cs)"

lemma strstr_from_shorter: "strstr_from pat buf = Some rest \<Longrightarrow> length rest \<le> length buf"
  by (induction pat buf rule: strstr_from.induct) (auto split: if_splits)

lemma strstr_from_not_empty: "strstr_from pat buf = Some rest \<Longrightarrow> pat \<noteq> [] \<Longrightarrow> rest \<noteq> []"
  by (induction pat buf rule: strstr_from.induct) (auto split: if_splits)

text \<open>
  \<open>parse_str\<close> with a destination of \<open>destlen\<close> characters, at most the 1024 of its buffer. The code
  relies on the tag, or the text after it, to contain \<open>'>'\<close>; the outer \<open>None\<close> is the
  dereference of a null pointer otherwise.
\<close>

definition parse_str :: "string \<Rightarrow> string \<Rightarrow> nat \<Rightarrow> string option option" where
  "parse_str buf tag destlen =
     (case strstr_from tag buf of
        None \<Rightarrow> Some None
      | Some p \<Rightarrow>
        (case dropWhile (\<lambda>c. c \<noteq> CHR ''>'') p of
           [] \<Rightarrow> None
         | _ # p1 \<Rightarrow>
             if CHR ''<'' \<notin> set p1 then Some None
             else Some (Some (xml_unescape
                    (strip_whitespace (take (destlen - 1) (takeWhile (\<lambda>c. c \<noteq> CHR ''<'') p1))) (int destlen)))))"

section \<open>Unescaping inverts escaping\<close>

lemma digit_char: "d < 10 \<Longrightarrow> is_digit (char_of (48 + d)) \<and> code (char_of (48 + d)) = 48 + d"
  by (simp add: is_digit_def)

lemma digits_are_digits: "c \<in> set (digits n) \<Longrightarrow> is_digit c"
proof (induction n rule: digits.induct)
  case (1 n)
  have "n mod 10 < 10" by simp
  with 1 show ?case
    using digit_char [of n] digit_char [of "n mod 10"] by (auto simp: digits.simps [of n] split: if_splits)
qed

lemma digits_not_empty [simp]: "digits n \<noteq> []"
  by (subst digits.simps) simp

lemma digits_fold: "foldl (\<lambda>a c. 10 * a + (int (code c) - 48)) 0 (digits n) = int n"
proof (induction n rule: digits.induct)
  case (1 n)
  show ?case
  proof (cases "n < 10")
    case True
    then show ?thesis by (subst digits.simps) (simp add: digit_char)
  next
    case False
    have "n mod 10 < 10" by simp
    moreover have "10 * int (n div 10) + int (n mod 10) = int n" by presburger
    ultimately show ?thesis using False 1 by (subst digits.simps) (simp add: digit_char)
  qed
qed

lemma atoi_digits:
  assumes "\<not> is_digit d"
  shows "atoi (digits n @ d # rest) = int n"
proof -
  obtain c cs where c: "digits n = c # cs" by (cases "digits n") auto
  then have "is_digit c" using digits_are_digits [of c n] by simp
  then have "\<not> is_space c" "c \<noteq> CHR ''-''" "c \<noteq> CHR ''+''" by (auto simp: is_digit_def is_space_def)
  moreover have "takeWhile is_digit (digits n @ d # rest) = digits n"
    using digits_are_digits assms by (simp add: takeWhile_append)
  ultimately show ?thesis using digits_fold [of n] c by (simp add: atoi_def digits_value_def)
qed

text \<open>The characters that survive: everything but control characters other than tab, line feed and
  carriage return.\<close>

definition xml_char :: "char \<Rightarrow> bool" where
  "xml_char c = (code c \<ge> 32 \<or> code c = 9 \<or> code c = 10 \<or> code c = 13)"

lemma unescape_code: "xml_unescape_step (escape_code c @ rest) = (c, rest)"
proof -
  have sd: "\<not> is_digit SEMI" by (simp add: is_digit_def)
  have no: "x \<noteq> SEMI" if "x \<in> set (digits (code c))" for x using digits_are_digits [OF that] sd by auto
  have "dropWhile (\<lambda>c. c \<noteq> SEMI) (digits (code c) @ SEMI # rest) = SEMI # rest"
    using no by (simp add: dropWhile_append)
  moreover have "atoi (digits (code c) @ SEMI # rest) mod 256 = int (code c)"
    using atoi_digits [OF sd] by simp
  ultimately show ?thesis
    by (simp add: xml_unescape_step_def escape_code_def)
qed

lemma unescape_escape_char:
  assumes "xml_char c"
  shows "xml_unescape_step (xml_escape_char c @ rest) = (c, rest)" "xml_escape_char c \<noteq> []"
proof -
  have "xml_unescape_step (c # rest) = (c, rest)" if "c \<noteq> CHR ''&''"
    using that by (simp add: xml_unescape_step_def)
  moreover have "xml_unescape_step (''&lt;'' @ rest) = (CHR ''<'', rest)" "xml_unescape_step (''&amp;'' @ rest) = (CHR ''&'', rest)"
    by (simp_all add: xml_unescape_step_def)
  moreover have "xml_escape_char c = escape_code c" if "code c > 127 \<or> code c < 32"
    using that assms by (auto simp: xml_escape_char_def xml_char_def)
  moreover have "xml_escape_char c = [c]" if "\<not> (code c > 127 \<or> code c < 32)" "c \<noteq> CHR ''<''" "c \<noteq> CHR ''&''"
    using that by (simp add: xml_escape_char_def)
  moreover have "xml_escape_char (CHR ''<'') = ''&lt;''" "xml_escape_char (CHR ''&'') = ''&amp;''"
    by (simp_all add: xml_escape_char_def)
  ultimately show "xml_unescape_step (xml_escape_char c @ rest) = (c, rest)"
    using unescape_code [of c rest] by (metis append_Cons append_Nil)
  show "xml_escape_char c \<noteq> []"
    using assms by (auto simp: xml_escape_char_def xml_char_def escape_code_def)
qed

lemma digits_short: "n < 1000 \<Longrightarrow> length (digits n) \<le> 3"
proof -
  assume n: "n < 1000"
  have one: "length (digits k) = 1" if "k < 10" for k using that by (subst digits.simps) simp
  have two: "length (digits k) \<le> 2" if "k < 100" for k
    using that one [of "k div 10"] one [of k] by (cases "k < 10") (simp_all add: digits.simps [of k])
  show ?thesis using n two [of "n div 10"] one [of n] by (cases "n < 10") (simp_all add: digits.simps [of n])
qed

lemma escape_char_short: "length (xml_escape_char c) \<le> 6"
proof -
  have "code c < 256" by simp
  then have "code c < 1000" by (rule less_trans) simp
  then have "length (digits (code c)) \<le> 3" by (rule digits_short)
  then show ?thesis by (simp add: xml_escape_char_def escape_code_def)
qed

lemma xml_escape_loop_enough:
  assumes "int (length out) + 6 * int (length s) + 7 < len"
  shows "xml_escape_loop len out s = out @ concat (map xml_escape_char s)"
  using assms
proof (induction s arbitrary: out)
  case Nil
  then show ?case by simp
next
  case (Cons c s)
  then show ?case using escape_char_short [of c] by (simp add: Let_def)
qed

lemma xml_unescape_loop_enough:
  assumes "list_all xml_char s" "int (length out) + int (length s) + 1 < len"
  shows "xml_unescape_loop len out (concat (map xml_escape_char s)) = out @ s"
  using assms
proof (induction s arbitrary: out)
  case Nil
  then show ?case by (simp add: xml_unescape_loop.simps)
next
  case (Cons c s)
  then show ?case
    using unescape_escape_char [of c]
    by (subst xml_unescape_loop.simps) (simp add: Let_def)
qed

text \<open>C23: Text without control characters other than tab, line feed and carriage return survives
  escaping and unescaping, when the buffer for the escaped text has six bytes for each character and
  eight to spare and the other one has room for the text.\<close>

theorem xml_roundtrip:
  assumes "list_all xml_char s" "6 * int (length s) + 8 \<le> len" "int (length s) + 2 \<le> len'"
  shows "xml_unescape (xml_escape s len) len' = s"
proof -
  have "takeWhile (\<lambda>c. code c \<noteq> 0) s = s"
    using assms(1) by (auto simp: takeWhile_eq_all_conv list_all_iff xml_char_def)
  then show ?thesis
    using assms by (simp add: xml_unescape_def xml_escape_def xml_escape_loop_enough xml_unescape_loop_enough)
qed

theorem xml_roundtrip_witness: "xml_unescape (xml_escape ''a<b&c'' 64) 64 = ''a<b&c''"
  by (rule xml_roundtrip) (simp_all add: xml_char_def)

end
