(* ===== verification/Url_Text.thy ===== *)
theory Url_Text
  imports Xml_Text
begin

unbundle bit_operations_syntax

text \<open>
  URLs as text (\<open>lib/str_util.C\<close>): escaping and unescaping, the canonical form of a project's
  master URL. What the code reads beyond the end of a string is the error \<open>Past_End\<close>.
\<close>

datatype text_error = Past_End

section \<open>Escaping\<close>

definition isalnum :: "char \<Rightarrow> bool" where
  "isalnum c = (is_digit c \<or> 65 \<le> code c \<and> code c \<le> 90 \<or> 97 \<le> code c \<and> code c \<le> 122)"

definition hex_digit :: "nat \<Rightarrow> char" where
  "hex_digit d = char_of (if d < 10 then 48 + d else 55 + d)"

text \<open>
  The two characters after the percent sign: the first two of the buffer into which \<open>snprintf\<close> printed
  the (signed) character with \<open>%X\<close>. A code below 16 prints one digit and is followed by the
  terminating zero; a negative one prints eight digits that begin with \<open>FF\<close>.
\<close>

definition hex_escape :: "char \<Rightarrow> string" where
  "hex_escape c =
     (if code c < 16 then [hex_digit (code c), char_of (0 :: nat)]
      else if code c < 128 then [hex_digit (code c div 16), hex_digit (code c mod 16)]
      else ''FF'')"

definition escape_url :: "string \<Rightarrow> string" where
  "escape_url url = concat (map (\<lambda>c. if isalnum c then [c] else CHR ''%'' # hex_escape c) url)"

text \<open>A \<open>char\<close> in arithmetic is signed.\<close>

definition schar :: "char \<Rightarrow> int" where
  "schar c = (if code c < 128 then int (code c) else int (code c) - 256)"

definition hex_value :: "char \<Rightarrow> int" where
  "hex_value c = (if schar c \<ge> 65 then (schar c AND 0xdf) - 65 + 10 else schar c - 48)"

definition x2c :: "char \<Rightarrow> char \<Rightarrow> char" where
  "x2c a b = char_of (nat ((hex_value a * 16 + hex_value b) mod 256))"

text \<open>
  The loop of \<open>unescape_url\<close>; the argument is the text from the iterator on. After an escape the
  iterator is advanced by three in the body and by one more in the header of the loop.
\<close>

fun unescape_loop :: "string \<Rightarrow> string \<Rightarrow> text_error + string" where
  "unescape_loop result [] = Inr result"
| "unescape_loop result (c # cs) =
     (if c = CHR ''%''
      then if length (c # cs) \<le> 2 then Inr result
           else if length (c # cs) = 3 then Inl Past_End
           else unescape_loop (result @ [x2c (cs ! 0) (cs ! 1)]) (drop 3 cs)
      else unescape_loop (result @ [c]) cs)"

definition unescape_url :: "string \<Rightarrow> text_error + string" where
  "unescape_url url = unescape_loop [] url"

definition escape_url_readable :: "string \<Rightarrow> string" where
  "escape_url_readable inp =
     (let rest = (case strstr_from ''://'' inp of None \<Rightarrow> inp | Some p \<Rightarrow> drop 3 p)
      in map (\<lambda>c. if isalnum c \<or> c = CHR ''.'' \<or> c = CHR ''-'' \<or> c = CHR ''_'' then c else CHR ''_'') rest)"

section \<open>Master URLs\<close>

text \<open>\<open>while ((pos = buf.find("//")) != npos) buf.erase(pos, 1);\<close>\<close>

fun find_double_slash :: "string \<Rightarrow> nat option" where
  "find_double_slash (a # b # cs) =
     (if a = CHR ''/'' \<and> b = CHR ''/'' then Some 0 else map_option Suc (find_double_slash (b # cs)))"
| "find_double_slash _ = None"

lemma find_double_slash_less: "find_double_slash buf = Some i \<Longrightarrow> i < length buf"
  by (induction buf arbitrary: i rule: find_double_slash.induct) (auto split: if_splits)

function erase_double_slashes :: "string \<Rightarrow> string" where
  "erase_double_slashes buf = (case find_double_slash buf of
     None \<Rightarrow> buf | Some pos \<Rightarrow> erase_double_slashes (take pos buf @ drop (Suc pos) buf))"
  by pat_completeness auto
termination
  by (relation "measure length") (auto dest: find_double_slash_less)

declare erase_double_slashes.simps [simp del]

definition canonicalize_master_url :: "string \<Rightarrow> text_error + string" where
  "canonicalize_master_url url =
     (let found = strstr_from ''://'' url;
          bSSL = (found \<noteq> None \<and> take 8 url = ''https://'');
          buf1 = (case found of None \<Rightarrow> url | Some p \<Rightarrow> drop 3 p);
          buf2 = erase_double_slashes buf1
      in if buf2 = [] then Inl Past_End
         else let buf3 = (if last buf2 \<noteq> CHR ''/'' then buf2 @ ''/'' else buf2)
              in Inr (''http'' @ (if bSSL then ''s://'' else ''://'') @ buf3))"

definition valid_master_url :: "string \<Rightarrow> bool" where
  "valid_master_url url =
     (let bSSL = (take 7 url \<noteq> ''http://'' \<and> take 8 url = ''https://'')
      in if take 7 url \<noteq> ''http://'' \<and> \<not> bSSL then False
         else let q = drop (if bSSL then 8 else 7) url in
           case strstr_from ''.'' q of None \<Rightarrow> False
           | Some p \<Rightarrow> if p = q then False
             else let q1 = tl p in
               case strstr_from ''/'' q1 of None \<Rightarrow> False
               | Some p1 \<Rightarrow> p1 \<noteq> q1 \<and> last url = CHR ''/'')"

section \<open>Unescaping loses a character\<close>

text \<open>\<open>unescape_url\<close> skips the character after every escape sequence: what it computes does not depend
  on that character, and when the escape is the last thing in the URL the iterator leaves the string.
  So a URL that \<open>escape_url\<close> has escaped does not come back.\<close>

theorem unescape_url_skips_character:
  assumes "CHR ''%'' \<notin> set pre"
  shows "unescape_url (pre @ [CHR ''%'', a, b]) = Inl Past_End
    \<and> unescape_url (pre @ [CHR ''%'', a, b, c] @ rest) = unescape_url (pre @ [CHR ''%'', a, b, d] @ rest)
    \<and> unescape_url (pre @ [CHR ''%'', a, b, c]) = Inr (pre @ [x2c a b])"
proof -
  have "unescape_loop r (pre @ q) = unescape_loop (r @ pre) q" for r q
    using assms by (induction pre arbitrary: r) auto
  then show ?thesis by (simp add: unescape_url_def)
qed

theorem unescape_url_skips_character_witness:
  "escape_url ''a b'' = ''a%20b'' \<and> unescape_url ''a%20b'' = Inr ''a ''"
proof -
  have "escape_url ''a b'' = ''a%20b''" by code_simp
  moreover have "x2c (CHR ''2'') (CHR ''0'') = CHR '' ''" by code_simp
  ultimately show ?thesis
    using unescape_url_skips_character [of "''a''" "CHR ''2''" "CHR ''0''" "CHR ''b''" "[]" "CHR ''b''"] by simp
qed

section \<open>The canonical form is canonical\<close>

lemma erase_no_double: "find_double_slash (erase_double_slashes buf) = None"
proof (induction buf rule: erase_double_slashes.induct)
  case (1 buf)
  then show ?case by (subst erase_double_slashes.simps) (auto split: option.split)
qed

lemma erase_id: "find_double_slash buf = None \<Longrightarrow> erase_double_slashes buf = buf"
  by (subst erase_double_slashes.simps) simp

lemma no_double_append_slash:
  assumes "find_double_slash buf = None" "buf \<noteq> []" "last buf \<noteq> CHR ''/''"
  shows "find_double_slash (buf @ ''/'') = None"
  using assms by (induction buf rule: find_double_slash.induct) (auto split: if_splits)

text \<open>A master URL in canonical form is left as it is: canonicalizing twice is canonicalizing once.
  The result begins with \<open>http://\<close> or \<open>https://\<close>, ends with a slash and has no double slash
  after the scheme.\<close>

theorem canonicalize_master_url_idempotent:
  assumes "canonicalize_master_url url = Inr v"
  shows "canonicalize_master_url v = Inr v
    \<and> (\<exists>buf. (v = ''http://'' @ buf \<or> v = ''https://'' @ buf) \<and> last buf = CHR ''/'' \<and> find_double_slash buf = None)"
proof -
  define buf2 where "buf2 = erase_double_slashes (case strstr_from ''://'' url of None \<Rightarrow> url | Some p \<Rightarrow> drop 3 p)"
  define buf where "buf = (if last buf2 \<noteq> CHR ''/'' then buf2 @ ''/'' else buf2)"
  have ne: "buf2 \<noteq> []" and v: "v = ''http://'' @ buf \<or> v = ''https://'' @ buf"
    using assms by (auto simp: canonicalize_master_url_def Let_def buf_def buf2_def split: if_splits)
  have nd: "find_double_slash buf = None"
    using erase_no_double ne no_double_append_slash by (simp add: buf_def buf2_def)
  have l: "last buf = CHR ''/''" "buf \<noteq> []" using ne by (auto simp: buf_def)
  have "canonicalize_master_url v = Inr v"
    using v l nd by (elim disjE) (simp_all add: canonicalize_master_url_def Let_def erase_id)
  then show ?thesis using v l nd by blast
qed

theorem canonicalize_master_url_idempotent_witness:
  "canonicalize_master_url ''http://a.b/c/'' = Inr ''http://a.b/c/''"
proof -
  have "canonicalize_master_url ''ftp://a.b//c'' = Inr ''http://a.b/c/''" by code_simp
  from canonicalize_master_url_idempotent [OF this] show ?thesis by blast
qed

end
