(* ===== verification/Number_Text.thy ===== *)
theory Number_Text
  imports Xml_Text
begin

text \<open>
  Numbers as text: \<open>strtol\<close> and \<open>strtod\<close> of the C library as \<open>lib/parse.h\<close> and \<open>lib/parse.C\<close> use
  them, the line parser built on them (\<open>match_tag\<close>, \<open>parse_int\<close>, \<open>parse_double\<close>, \<open>parse_bool\<close>,
  \<open>parse_attr\<close>), and the stream output of \<open>lib/xml_write.h\<close>, which prints doubles in fixed notation.

  \<open>long\<close> has 64 bits and \<open>int\<close> 32. Doubles are real numbers: \<open>strtod\<close> reads decimal notation, and the
  words for infinity and not-a-number and hexadecimal fractions are not numbers here.
\<close>

section \<open>Reading numbers\<close>

definition skip_sign :: "string \<Rightarrow> bool \<times> string" where
  "skip_sign str = (case str of
     [] \<Rightarrow> (False, [])
   | c # cs \<Rightarrow> if c = CHR ''-'' then (True, cs) else if c = CHR ''+'' then (False, cs) else (False, c # cs))"

definition digit_value :: "char \<Rightarrow> nat" where
  "digit_value c =
     (if is_digit c then code c - 48
      else if 97 \<le> code c \<and> code c \<le> 102 then code c - 87
      else if 65 \<le> code c \<and> code c \<le> 70 then code c - 55
      else 99)"

definition based_value :: "nat \<Rightarrow> string \<Rightarrow> nat" where
  "based_value base ds = foldl (\<lambda>a c. base * a + digit_value c) 0 ds"

definition number_base :: "string \<Rightarrow> nat \<times> string" where
  "number_base str =
     (if (take 2 str = ''0x'' \<or> take 2 str = ''0X'') \<and> drop 2 str \<noteq> [] \<and> digit_value (hd (drop 2 str)) < 16
      then (16, drop 2 str)
      else if take 1 str = ''0'' then (8, str) else (10, str))"

text \<open>\<open>strtol\<close> with base 0: the value, whether it was out of range, and the text it stops at. Without
  digits it stops at the beginning.\<close>

definition strtol :: "string \<Rightarrow> int \<times> bool \<times> string" where
  "strtol str =
     (case skip_sign (dropWhile is_space str) of (neg, s1) \<Rightarrow>
      case number_base s1 of (base, s2) \<Rightarrow>
        let ds = takeWhile (\<lambda>c. digit_value c < base) s2;
            n = int (based_value base ds); v = (if neg then - n else n)
        in if ds = [] then (0, False, str)
           else if v > 2 ^ 63 - 1 then (2 ^ 63 - 1, True, dropWhile (\<lambda>c. digit_value c < base) s2)
           else if v < - (2 ^ 63) then (- (2 ^ 63), True, dropWhile (\<lambda>c. digit_value c < base) s2)
           else (v, False, dropWhile (\<lambda>c. digit_value c < base) s2))"

text \<open>The assignment of a \<open>long\<close> to an \<open>int\<close> keeps the low 32 bits.\<close>

definition int_of_long :: "int \<Rightarrow> int" where
  "int_of_long v = (v + 2 ^ 31) mod 2 ^ 32 - 2 ^ 31"

definition skip_fraction :: "string \<Rightarrow> string \<times> string" where
  "skip_fraction str = (case str of
     [] \<Rightarrow> ([], [])
   | c # cs \<Rightarrow> if c = CHR ''.'' then (takeWhile is_digit cs, dropWhile is_digit cs) else ([], str))"

definition skip_exponent :: "string \<Rightarrow> int \<times> string" where
  "skip_exponent str = (case str of
     [] \<Rightarrow> (0, [])
   | c # cs \<Rightarrow>
       if c = CHR ''e'' \<or> c = CHR ''E''
       then case skip_sign cs of (neg, s1) \<Rightarrow>
         if takeWhile is_digit s1 = [] then (0, str)
         else (if neg then - digits_value s1 else digits_value s1, dropWhile is_digit s1)
       else (0, str))"

definition power10 :: "int \<Rightarrow> real" where
  "power10 e = (if e \<ge> 0 then 10 ^ nat e else 1 / 10 ^ nat (- e))"

definition strtod :: "string \<Rightarrow> real \<times> string" where
  "strtod str =
     (case skip_sign (dropWhile is_space str) of (neg, s1) \<Rightarrow>
      case skip_fraction (dropWhile is_digit s1) of (fd, s2) \<Rightarrow>
        let whole = takeWhile is_digit s1 in
        if whole = [] \<and> fd = [] then (0, str)
        else case skip_exponent s2 of (e, s3) \<Rightarrow>
          let v = (real_of_int (digits_value whole) + real_of_int (digits_value fd) / 10 ^ length fd) * power10 e
          in (if neg then - v else v, s3))"

section \<open>The line parser\<close>

definition match_tag :: "string \<Rightarrow> string \<Rightarrow> bool" where
  "match_tag buf tag = (strstr_from tag buf \<noteq> None)"

text \<open>
  \<open>errno\<close> is not reset before \<open>strtol\<close> here: \<open>range_before\<close> says that it was left at \<open>ERANGE\<close> by an
  earlier call, and the returned flag what it is afterwards.
\<close>

definition parse_int_line :: "bool \<Rightarrow> string \<Rightarrow> string \<Rightarrow> int option \<times> bool" where
  "parse_int_line range_before buf tag =
     (case strstr_from tag buf of
        None \<Rightarrow> (None, range_before)
      | Some p \<Rightarrow>
          case strtol (drop (length tag) p) of (v, out_of_range, rest) \<Rightarrow>
            if range_before \<or> out_of_range then (None, True) else (Some (int_of_long v), False))"

definition parse_double_line :: "string \<Rightarrow> string \<Rightarrow> real option" where
  "parse_double_line buf tag = map_option (\<lambda>p. fst (strtod (drop (length tag) p))) (strstr_from tag buf)"

definition parse_bool_line :: "bool \<Rightarrow> string \<Rightarrow> string \<Rightarrow> bool option \<times> bool" where
  "parse_bool_line range_before buf tag =
     (if match_tag buf (''<'' @ tag @ ''/>'') then (Some True, range_before)
      else case parse_int_line range_before buf (''<'' @ tag @ ''>'') of (v, range_after) \<Rightarrow>
        (map_option (\<lambda>x. x \<noteq> 0) v, range_after))"

text \<open>\<open>strlcpy\<close> copies one character less than it is told, here at most the text between the quotes.\<close>

definition parse_attr :: "string \<Rightarrow> string \<Rightarrow> nat \<Rightarrow> string" where
  "parse_attr buf name len =
     (case strstr_from name buf of
        None \<Rightarrow> []
      | Some p \<Rightarrow>
          case dropWhile (\<lambda>c. c \<noteq> CHR 0x22) p of
            [] \<Rightarrow> []
          | _ # q \<Rightarrow>
              if CHR 0x22 \<notin> set q then []
              else let diff = length (takeWhile (\<lambda>c. c \<noteq> CHR 0x22) q) + 1
                   in take ((if len > diff then diff else len) - 1) q)"

section \<open>Printing numbers\<close>

text \<open>Fixed notation rounds to the nearest, ties to even.\<close>

definition round_even :: "real \<Rightarrow> int" where
  "round_even x =
     (let f = \<lfloor>x\<rfloor>; d = x - of_int f
      in if d < 1/2 then f else if d > 1/2 then f + 1 else if even f then f else f + 1)"

fun padded_digits :: "nat \<Rightarrow> nat \<Rightarrow> string" where
  "padded_digits 0 m = []"
| "padded_digits (Suc n) m = padded_digits n (m div 10) @ [char_of (48 + m mod 10)]"

definition show_fixed :: "nat \<Rightarrow> real \<Rightarrow> string" where
  "show_fixed n x =
     (let k = nat (round_even (\<bar>x\<bar> * 10 ^ n))
      in (if x < 0 then ''-'' else []) @ digits (k div 10 ^ n)
         @ (if n = 0 then [] else CHR ''.'' # padded_digits n (k mod 10 ^ n)))"

text \<open>What fixed notation keeps of a number.\<close>

definition fixed_value :: "nat \<Rightarrow> real \<Rightarrow> real" where
  "fixed_value n x = (if x < 0 then -1 else 1) * of_int (round_even (\<bar>x\<bar> * 10 ^ n)) / 10 ^ n"

section \<open>What is printed is read again\<close>

lemma round_even_int [simp]: "round_even (of_int k) = k"
  by (simp add: round_even_def)

lemma round_even_close: "\<bar>of_int (round_even x) - x\<bar> \<le> 1/2"
  unfolding round_even_def Let_def using of_int_floor_le [of x] real_of_int_floor_add_one_gt [of x]
  by (auto split: if_splits)

lemma round_even_nonneg: "0 \<le> x \<Longrightarrow> 0 \<le> round_even x"
  by (auto simp: round_even_def Let_def)

lemma fixed_value_exact:
  assumes "x * 10 ^ n = of_int k"
  shows "fixed_value n x = x"
proof -
  have "\<bar>x\<bar> * 10 ^ n = of_int \<bar>k\<bar>" using assms by (metis abs_mult abs_of_nonneg of_int_abs zero_le_numeral zero_le_power)
  then have "round_even (\<bar>x\<bar> * 10 ^ n) = \<bar>k\<bar>" by (simp only: round_even_int)
  moreover have "of_int \<bar>k\<bar> / 10 ^ n = \<bar>x\<bar>"
    using \<open>\<bar>x\<bar> * 10 ^ n = of_int \<bar>k\<bar>\<close> by (simp add: field_simps)
  ultimately show ?thesis by (simp add: fixed_value_def)
qed

lemma fixed_value_close: "\<bar>fixed_value n x - x\<bar> \<le> 1 / (2 * 10 ^ n)"
proof -
  have p: "(10::real) ^ n > 0" by simp
  have "\<bar>of_int (round_even (\<bar>x\<bar> * 10 ^ n)) / 10 ^ n - \<bar>x\<bar>\<bar>
      = \<bar>of_int (round_even (\<bar>x\<bar> * 10 ^ n)) - \<bar>x\<bar> * 10 ^ n\<bar> / 10 ^ n"
    using p by (simp add: field_simps flip: abs_divide abs_mult) (simp add: abs_divide field_simps)
  also have "\<dots> \<le> (1/2) / 10 ^ n"
    using round_even_close p by (intro divide_right_mono) auto
  finally show ?thesis by (auto simp: fixed_value_def abs_if split: if_splits)
qed

lemma padded_digits_are_digits: "c \<in> set (padded_digits n m) \<Longrightarrow> is_digit c"
proof (induction n arbitrary: m)
  case (Suc n)
  then show ?case using digit_char [of "m mod 10"] by auto
qed simp

lemma padded_digits_length [simp]: "length (padded_digits n m) = n"
  by (induction n arbitrary: m) simp_all

lemma padded_digits_fold: "foldl (\<lambda>a c. 10 * a + (int (code c) - 48)) 0 (padded_digits n m) = int (m mod 10 ^ n)"
proof (induction n arbitrary: m)
  case (Suc n)
  have "m mod 10 < 10" by simp
  moreover have "m mod (10 * 10 ^ n) = 10 * (m div 10 mod 10 ^ n) + m mod 10"
    by (simp add: mod_mult2_eq)
  ultimately show ?case using Suc by (simp add: digit_char)
qed simp

lemma takeWhile_digits [simp]: "takeWhile is_digit (digits n) = digits n" "dropWhile is_digit (digits n) = []"
  "takeWhile is_digit (padded_digits k m) = padded_digits k m" "dropWhile is_digit (padded_digits k m) = []"
  using digits_are_digits padded_digits_are_digits by (simp_all add: takeWhile_eq_all_conv dropWhile_eq_Nil_conv)

lemma digits_prefix [simp]:
  assumes "\<not> is_digit d"
  shows "takeWhile is_digit (digits n @ d # r) = digits n" "dropWhile is_digit (digits n @ d # r) = d # r"
  using digits_are_digits assms by (simp_all add: takeWhile_append dropWhile_append)

lemma digits_first:
  obtains c cs where "digits n = c # cs" "is_digit c" "\<not> is_space c" "c \<noteq> CHR ''-''" "c \<noteq> CHR ''+''"
proof -
  obtain c cs where c: "digits n = c # cs" by (cases "digits n") auto
  then have "is_digit c" using digits_are_digits [of c n] by simp
  then show thesis using c by (intro that [of c cs]) (auto simp: is_digit_def is_space_def)
qed

lemma skip_sign_digits [simp]:
  "skip_sign (dropWhile is_space (digits n)) = (False, digits n)"
  "skip_sign (dropWhile is_space (digits n @ r)) = (False, digits n @ r)"
  "skip_sign (dropWhile is_space (CHR ''-'' # u)) = (True, u)"
proof -
  obtain c cs where c: "digits n = c # cs" "\<not> is_space c" "c \<noteq> CHR ''-''" "c \<noteq> CHR ''+''" by (rule digits_first)
  then show "skip_sign (dropWhile is_space (digits n @ r)) = (False, digits n @ r)" by (simp add: skip_sign_def)
  show "skip_sign (dropWhile is_space (digits n)) = (False, digits n)" using c by (simp add: skip_sign_def)
  show "skip_sign (dropWhile is_space (CHR ''-'' # u)) = (True, u)" by (simp add: skip_sign_def is_space_def)
qed

lemma digits_value_digits [simp]: "digits_value [] = 0" "digits_value (digits n) = int n" "digits_value (padded_digits k m) = int (m mod 10 ^ k)"
  by (simp_all add: digits_value_def digits_fold padded_digits_fold)

lemma strtod_unsigned:
  defines "t k n \<equiv> digits (k div 10 ^ n) @ (if n = 0 then [] else CHR ''.'' # padded_digits n (k mod 10 ^ n))"
  shows "strtod (t k n) = (real k / 10 ^ n, [])" "strtod (CHR ''-'' # t k n) = (- (real k / 10 ^ n), [])"
proof -
  have dot: "\<not> is_digit CHR ''.''" by (simp add: is_digit_def)
  have k: "real k = real (k div 10 ^ n) * 10 ^ n + real (k mod 10 ^ n)"
    using arg_cong [OF div_mult_mod_eq [of k "10 ^ n"], of real] by (simp only: of_nat_add of_nat_mult of_nat_power of_nat_numeral)
  have eq: "real (k div 10 ^ n) + real (k mod 10 ^ n) / 10 ^ n = real k / 10 ^ n"
    by (subst k) (simp add: add_divide_distrib)
  show "strtod (t k n) = (real k / 10 ^ n, [])"
    by (cases "n = 0") (simp_all add: t_def strtod_def skip_fraction_def skip_exponent_def power10_def dot eq)
  show "strtod (CHR ''-'' # t k n) = (- (real k / 10 ^ n), [])"
    unfolding strtod_def skip_sign_digits
    by (cases "n = 0") (simp_all add: t_def skip_fraction_def skip_exponent_def power10_def dot eq)
qed

lemma strtod_show_fixed: "strtod (show_fixed n x) = (fixed_value n x, [])"
proof -
  define k where "k = nat (round_even (\<bar>x\<bar> * 10 ^ n))"
  have "real k = of_int (round_even (\<bar>x\<bar> * 10 ^ n))" by (simp add: k_def round_even_nonneg)
  then have "fixed_value n x = (if x < 0 then - (real k / 10 ^ n) else real k / 10 ^ n)"
    by (simp add: fixed_value_def)
  then show ?thesis using strtod_unsigned [of k n] unfolding show_fixed_def Let_def k_def [symmetric] by simp
qed

text \<open>The digits of a positive number do not begin with zero, so that \<open>strtol\<close> reads them as decimal.\<close>

lemma digits_leading: "0 < n \<Longrightarrow> hd (digits n) \<noteq> CHR ''0''"
proof (induction n rule: digits.induct)
  case (1 n)
  have c: "char_of (48 + k) \<noteq> CHR ''0''" if "0 < k" "k < 10" for k :: nat
  proof
    assume "char_of (48 + k) = CHR ''0''"
    then have "code (char_of (48 + k)) = code CHR ''0''" by simp
    then show False using that digit_char [of k] by simp
  qed
  show ?case
  proof (cases "n < 10")
    case True
    then show ?thesis using 1 c by (subst digits.simps) simp
  next
    case False
    then have "0 < n div 10" by simp
    then show ?thesis using False 1(1) by (subst digits.simps) (simp add: hd_append)
  qed
qed

lemma digit_value_digit: "is_digit c \<Longrightarrow> digit_value c = code c - 48 \<and> code c \<ge> 48 \<and> digit_value c < 10"
  by (auto simp: digit_value_def is_digit_def)

lemma based_value_digits: "based_value 10 (digits n) = n"
proof -
  have "int (foldl (\<lambda>a c. 10 * a + digit_value c) a ds) = foldl (\<lambda>a c. 10 * a + (int (code c) - 48)) (int a) ds"
    if "\<forall>c \<in> set ds. is_digit c" for ds a
    using that
  proof (induction ds arbitrary: a)
    case (Cons c ds)
    then have "int (10 * a + digit_value c) = 10 * int a + (int (code c) - 48)"
      using digit_value_digit [of c] by (simp add: of_nat_diff)
    then show ?case using Cons by simp
  qed simp
  from this [of "digits n" 0] have "int (based_value 10 (digits n)) = int n"
    using digits_are_digits digits_fold [of n] by (simp add: based_value_def)
  then show ?thesis by simp
qed

lemma strtol_digits:
  assumes "int n < 2 ^ 63"
  shows "strtol (digits n) = (int n, False, [])" "strtol (CHR ''-'' # digits n) = (- int n, False, [])"
proof -
  have w: "takeWhile (\<lambda>c. digit_value c < 10) (digits n) = digits n" "dropWhile (\<lambda>c. digit_value c < 10) (digits n) = []"
    using digits_are_digits digit_value_digit unfolding takeWhile_eq_all_conv dropWhile_eq_Nil_conv by blast+
  have w0: "takeWhile (\<lambda>c. digit_value c < 8) (digits 0) = digits 0" "dropWhile (\<lambda>c. digit_value c < 8) (digits 0) = []"
    "based_value 8 (digits 0) = 0" "number_base (digits 0) = (8, digits 0)" by code_simp+
  have nb: "number_base (digits n) = (10, digits n)" if "n \<noteq> 0"
  proof -
    obtain c cs where c: "digits n = c # cs" by (cases "digits n") auto
    then have "c \<noteq> CHR ''0''" using digits_leading [of n] that by simp
    then show ?thesis using c by (simp add: number_base_def)
  qed
  have b: "\<not> int n > 2 ^ 63 - 1" "\<not> int n < - (2 ^ 63)" "\<not> - int n > 2 ^ 63 - 1" "\<not> - int n < - (2 ^ 63)"
    using assms by simp_all
  show "strtol (digits n) = (int n, False, [])"
  proof (cases "n = 0")
    case True
    show ?thesis unfolding True strtol_def skip_sign_digits by (simp add: w0)
  next
    case False
    show ?thesis unfolding strtol_def skip_sign_digits
      by (simp only: nb [OF False] prod.case Let_def w based_value_digits b digits_not_empty if_False)
  qed
  show "strtol (CHR ''-'' # digits n) = (- int n, False, [])"
  proof (cases "n = 0")
    case True
    show ?thesis unfolding True strtol_def skip_sign_digits by (simp add: w0)
  next
    case False
    show ?thesis unfolding strtol_def skip_sign_digits
      by (simp only: nb [OF False] prod.case Let_def w based_value_digits b digits_not_empty if_False if_True)
  qed
qed

lemma strtol_string_of_int:
  assumes "\<bar>i\<bar> < 2 ^ 63"
  shows "strtol (string_of_int i) = (i, False, [])"
  using assms strtol_digits [of "nat i"] strtol_digits [of "nat (- i)"] by (auto simp: string_of_int_def)

lemma int_of_long_id: "- (2 ^ 31) \<le> i \<Longrightarrow> i < 2 ^ 31 \<Longrightarrow> int_of_long i = i"
  by (simp add: int_of_long_def)

end
