(* ===== verification/Xml_Parser.thy ===== *)
theory Xml_Parser
  imports Number_Text "HOL-Library.Word"
begin

text \<open>
  The class \<open>XML_PARSER\<close> (\<open>lib/parse.C\<close>): a scanner that reads tags and text from a file character by
  character, and the parsers of elements on top of it. The state of the parser is the text not yet
  read. The buffers of the caller have fixed sizes: a write behind the end of one is the error
  \<open>Overrun\<close> of the model. \<open>Invalid_Argument\<close> is the exception of that name, which the users of the
  parser throw, and \<open>Null_Pointer\<close> the use of a null pointer. Files do not contain the character zero, and a buffer does not keep what an earlier
  token left in it.
\<close>

section \<open>Errors\<close>

datatype xml_error = Overrun | Invalid_Argument | Null_Pointer

type_synonym 'a xml = "xml_error + 'a"

definition xml_then :: "'a xml \<Rightarrow> ('a \<Rightarrow> 'b xml) \<Rightarrow> 'b xml" where
  "xml_then m k = (case m of Inl e \<Rightarrow> Inl e | Inr x \<Rightarrow> k x)"

lemma xml_then_simps [simp]: "xml_then (Inl e) k = Inl e" "xml_then (Inr x) k = k x"
  by (simp_all add: xml_then_def)

lemma xml_then_Inr: "xml_then m k = Inr y \<longleftrightarrow> (\<exists>x. m = Inr x \<and> k x = Inr y)"
  by (cases m) auto

lemma xml_then_cong [fundef_cong]: "m = m' \<Longrightarrow> (\<And>x. m' = Inr x \<Longrightarrow> k x = k' x) \<Longrightarrow> xml_then m k = xml_then m' k'"
  by (cases m') auto

section \<open>Scanning\<close>

definition scan_nonws :: "string \<Rightarrow> (char \<times> string) option" where
  "scan_nonws inp = (case dropWhile is_space inp of [] \<Rightarrow> None | c # cs \<Rightarrow> Some (c, cs))"

text \<open>
  \<open>scan_comment\<close> looks for the end of a comment in a buffer. When the buffer has more than 32
  characters its second half is moved to the front, but the pointer to the next character is set to
  the front too: the next character overwrites what was kept.
\<close>

fun scan_comment :: "string \<Rightarrow> string \<Rightarrow> string option" where
  "scan_comment buf [] = None"
| "scan_comment buf (c # cs) =
     (let buf1 = buf @ [c] in
      if match_tag buf1 ''-->'' then Some cs
      else scan_comment (if length buf1 > 32 then [] else buf1) cs)"

text \<open>
  A buffer that \<open>scan_tag\<close> fills: its size, the text written, and the counter, a \<open>size_t\<close> that is
  decremented before it is compared with zero. \<open>None\<close> is a null pointer.
\<close>

record BUF =
  b_size :: nat
  b_text :: string
  b_len :: "64 word"

definition new_buf :: "nat \<Rightarrow> BUF" where
  "new_buf n = \<lparr>b_size = n, b_text = [], b_len = of_nat n\<rparr>"

definition put :: "char \<Rightarrow> BUF \<Rightarrow> BUF xml" where
  "put c b =
     (let b1 = b\<lparr>b_len := b_len b - 1\<rparr> in
      if b_len b1 > 0
      then if length (b_text b1) < b_size b1 then Inr (b1\<lparr>b_text := b_text b1 @ [c]\<rparr>) else Inl Overrun
      else Inr b1)"

definition terminate_buf :: "BUF \<Rightarrow> string xml" where
  "terminate_buf b = (if length (b_text b) < b_size b then Inr (b_text b) else Inl Overrun)"

datatype scan = Scan_Tag string string string | Scan_Comment string | Scan_Eof

fun scan_tag :: "nat \<Rightarrow> bool \<Rightarrow> BUF \<Rightarrow> BUF option \<Rightarrow> string \<Rightarrow> scan xml" where
  "scan_tag i found_space tag attr [] = Inr Scan_Eof"
| "scan_tag i found_space tag attr (c # cs) =
     (if c = CHR ''>''
      then xml_then (terminate_buf tag) (\<lambda>t.
             case attr of
               None \<Rightarrow> Inr (Scan_Tag t [] cs)
             | Some ab \<Rightarrow> xml_then (terminate_buf ab) (\<lambda>a. Inr (Scan_Tag t a cs)))
      else let found1 = (found_space \<or> is_space c) in
        xml_then
          (if c = CHR ''/'' \<or> \<not> found1 then map_sum id (\<lambda>tb. (tb, attr)) (put c tag)
           else case attr of
                  None \<Rightarrow> map_sum id (\<lambda>tb. (tb, None)) (put c tag)
                | Some ab \<Rightarrow> map_sum id (\<lambda>ab1. (tag, Some ab1)) (put c ab))
          (\<lambda>(tag1, attr1).
             if i = 2 \<and> take 3 (b_text tag1) = ''!--''
             then Inr (case scan_comment [] cs of None \<Rightarrow> Scan_Eof | Some rest \<Rightarrow> Scan_Comment rest)
             else scan_tag (Suc i) found1 tag1 attr1 cs))"

text \<open>\<open>copy_until_tag\<close> leaves the \<open><\<close> to be read again.\<close>

definition copy_until_tag :: "nat \<Rightarrow> string \<Rightarrow> (string \<times> string) option" where
  "copy_until_tag len inp =
     (case dropWhile (\<lambda>c. c \<noteq> CHR ''<'') inp of
        [] \<Rightarrow> None
      | rest \<Rightarrow> Some (take (len - 1) (takeWhile (\<lambda>c. c \<noteq> CHR ''<'') inp), rest))"

lemma scan_comment_shorter: "scan_comment buf inp = Some rest \<Longrightarrow> length rest < length inp"
proof (induction buf inp rule: scan_comment.induct)
  case (2 buf c cs)
  then show ?case by (auto simp: Let_def less_Suc_eq split: if_splits)
qed simp

lemma scan_tag_shorter:
  "scan_tag i fs tag attr inp = Inr (Scan_Tag t a rest) \<Longrightarrow> length rest < length inp"
  "scan_tag i fs tag attr inp = Inr (Scan_Comment rest) \<Longrightarrow> length rest < length inp"
proof (induction i fs tag attr inp rule: scan_tag.induct)
  case (2 i fs tag attr c cs)
  { case 1
    show ?case using 1 "2.IH"(1)
      by (fastforce simp: xml_then_Inr Let_def less_Suc_eq split: if_splits option.splits sum.splits) }
  { case 2
    show ?case using 2 "2.IH"(2) scan_comment_shorter [of "[]" cs rest]
      by (fastforce simp: xml_then_Inr Let_def less_Suc_eq split: if_splits option.splits sum.splits) }
qed simp_all

text \<open>
  \<open>get\<close>: the next token, its text, whether it is a tag, and its attributes; \<open>None\<close> at the end of the
  file.
\<close>

function get :: "nat \<Rightarrow> nat option \<Rightarrow> string \<Rightarrow> (string \<times> bool \<times> string \<times> string) option xml" where
  "get len attr_len inp =
     (case scan_nonws inp of
        None \<Rightarrow> Inr None
      | Some (c, cs) \<Rightarrow>
          if c = CHR ''<''
          then case scan_tag 0 False (new_buf len) (map_option new_buf attr_len) cs of
                 Inl e \<Rightarrow> Inl e
               | Inr Scan_Eof \<Rightarrow> Inr None
               | Inr (Scan_Comment rest) \<Rightarrow> get len attr_len rest
               | Inr (Scan_Tag t a rest) \<Rightarrow> Inr (Some (strip_whitespace t, True, a, rest))
          else case copy_until_tag (len - 1) cs of
                 None \<Rightarrow> Inr None
               | Some (t, rest) \<Rightarrow> Inr (Some (strip_whitespace (c # t), False, [], rest)))"
  by pat_completeness auto
termination
proof (relation "measure (\<lambda>(len, attr_len, inp). length inp)", goal_cases)
  case (2 len attr_len inp p c cs r rest)
  then have "length rest < length cs" using scan_tag_shorter(2) by blast
  moreover have "length cs < length inp"
    using 2 length_dropWhile_le [of is_space inp] by (auto simp: scan_nonws_def split: list.splits)
  ultimately show ?case by simp
qed simp

declare get.simps [simp del]

section \<open>Elements\<close>

text \<open>The end tag after the text of an element: whether it is there, and what follows.\<close>

definition get_end :: "string \<Rightarrow> string \<Rightarrow> (bool \<times> string) xml" where
  "get_end start_tag inp = xml_then (get 256 None inp) (\<lambda>tok.
     case tok of
       None \<Rightarrow> Inr (False, [])
     | Some (tag, is_tag, _, rest) \<Rightarrow> Inr (is_tag \<and> tag = CHR ''/'' # start_tag, rest))"

definition xml_parse_str :: "string \<Rightarrow> string \<Rightarrow> nat \<Rightarrow> string \<Rightarrow> (string option \<times> string) xml" where
  "xml_parse_str parsed_tag start_tag len inp =
     (if parsed_tag = start_tag @ ''/'' then Inr (Some [], inp)
      else if parsed_tag \<noteq> start_tag then Inr (None, inp)
      else xml_then (get 64000 None inp) (\<lambda>tok.
        case tok of
          None \<Rightarrow> Inr (None, [])
        | Some (tmp, is_tag, _, rest) \<Rightarrow>
            if is_tag then Inr (if tmp = CHR ''/'' # start_tag then Some [] else None, rest)
            else xml_then (get_end start_tag rest) (\<lambda>(ok, rest1).
              Inr (if ok then Some (take (len - 1) tmp) else None, rest1))))"

definition xml_parse_string :: "string \<Rightarrow> string \<Rightarrow> string \<Rightarrow> (string option \<times> string) xml" where
  "xml_parse_string parsed_tag start_tag inp = xml_parse_str parsed_tag start_tag 8192 inp"

text \<open>
  Numbers: \<open>value\<close> gives the number of a text, if all of it is one. An empty element is zero.
\<close>

definition xml_parse_number ::
  "(string \<Rightarrow> 'v option) \<Rightarrow> 'v \<Rightarrow> string \<Rightarrow> string \<Rightarrow> string \<Rightarrow> ('v option \<times> string) xml" where
  "xml_parse_number val zero parsed_tag start_tag inp =
     (if parsed_tag \<noteq> start_tag then Inr (None, inp)
      else xml_then (get 256 None inp) (\<lambda>tok.
        case tok of
          None \<Rightarrow> Inr (None, [])
        | Some (buf, is_tag, _, rest) \<Rightarrow>
            if is_tag then Inr (if buf = CHR ''/'' # start_tag then Some zero else None, rest)
            else case val buf of
                   None \<Rightarrow> Inr (None, rest)
                 | Some v \<Rightarrow> xml_then (get_end start_tag rest) (\<lambda>(ok, rest1).
                     Inr (if ok then Some v else None, rest1))))"

definition int_value :: "string \<Rightarrow> int option" where
  "int_value buf = (case strtol buf of (v, out_of_range, rest) \<Rightarrow>
     if out_of_range \<or> rest \<noteq> [] then None else Some (int_of_long v))"

definition double_value :: "string \<Rightarrow> real option" where
  "double_value buf = (case strtod buf of (v, rest) \<Rightarrow> if rest \<noteq> [] then None else Some v)"

definition xml_parse_int :: "string \<Rightarrow> string \<Rightarrow> string \<Rightarrow> (int option \<times> string) xml" where
  "xml_parse_int = xml_parse_number int_value 0"

definition xml_parse_double :: "string \<Rightarrow> string \<Rightarrow> string \<Rightarrow> (real option \<times> string) xml" where
  "xml_parse_double = xml_parse_number double_value 0"

definition xml_parse_bool :: "string \<Rightarrow> string \<Rightarrow> string \<Rightarrow> (bool option \<times> string) xml" where
  "xml_parse_bool parsed_tag start_tag inp =
     (if parsed_tag = start_tag @ ''/'' then Inr (Some True, inp)
      else if parsed_tag \<noteq> start_tag then Inr (None, inp)
      else xml_then (get 256 None inp) (\<lambda>tok.
        case tok of
          None \<Rightarrow> Inr (None, [])
        | Some (buf, is_tag, _, rest) \<Rightarrow>
            if is_tag then Inr (None, rest)
            else case strtol buf of (v, _, unread) \<Rightarrow>
              if unread \<noteq> [] then Inr (None, rest)
              else xml_then (get_end start_tag rest) (\<lambda>(ok, rest1).
                     Inr (if ok then Some (v \<noteq> 0) else None, rest1))))"

definition parse_start :: "string \<Rightarrow> string \<Rightarrow> (bool \<times> string) xml" where
  "parse_start start_tag inp = xml_then (get 256 None inp) (\<lambda>tok.
     case tok of
       None \<Rightarrow> Inr (False, [])
     | Some (tag, is_tag, _, rest) \<Rightarrow>
         if \<not> is_tag then Inr (False, rest)
         else if match_tag tag ''?xml''
         then xml_then (get 256 None rest) (\<lambda>tok1.
           case tok1 of
             None \<Rightarrow> Inr (False, [])
           | Some (tag1, is_tag1, _, rest1) \<Rightarrow> Inr (is_tag1 \<and> tag1 = start_tag, rest1))
         else Inr (tag = start_tag, rest))"

text \<open>\<open>element_contents\<close>: the error code, the text and the rest.\<close>

fun element_contents_loop :: "string \<Rightarrow> nat \<Rightarrow> string \<Rightarrow> string \<Rightarrow> int \<times> string \<times> string" where
  "element_contents_loop end_tag buflen buf inp =
     (if length buf = buflen - 1 then (ERR_XML_PARSE, strip_whitespace buf, inp)
      else case inp of
        [] \<Rightarrow> (ERR_XML_PARSE, strip_whitespace buf, [])
      | c # cs \<Rightarrow>
          let buf1 = buf @ [c] in
          if match_tag buf1 end_tag
          then (0, strip_whitespace (take (length buf1 - length (the (strstr_from end_tag buf1))) buf1), cs)
          else element_contents_loop end_tag buflen buf1 cs)"

declare element_contents_loop.simps [simp del]

definition element_contents :: "string \<Rightarrow> nat \<Rightarrow> string \<Rightarrow> int \<times> string \<times> string" where
  "element_contents end_tag buflen inp = element_contents_loop end_tag buflen [] inp"

section \<open>Tokens are consumed\<close>

lemma scan_nonws_shorter: "scan_nonws inp = Some (c, cs) \<Longrightarrow> length cs < length inp"
  using length_dropWhile_le [of is_space inp] by (auto simp: scan_nonws_def split: list.splits)

lemma copy_until_tag_shorter: "copy_until_tag len inp = Some (t, rest) \<Longrightarrow> length rest \<le> length inp"
  by (auto simp: copy_until_tag_def length_dropWhile_le split: list.splits)

lemma get_shorter: "get len attr_len inp = Inr (Some (t, is_tag, a, rest)) \<Longrightarrow> length rest < length inp"
proof (induction len attr_len inp rule: get.induct)
  case (1 len attr_len inp)
  obtain c cs where c: "scan_nonws inp = Some (c, cs)"
    using 1(2) by (subst (asm) get.simps) (auto split: option.splits)
  note cs = scan_nonws_shorter [OF c]
  show ?case
  proof (cases "c = CHR ''<''")
    case True
    have "length rest < length inp"
      if r: "scan_tag 0 False (new_buf len) (map_option new_buf attr_len) cs = Inr (Scan_Comment rest1)"
        "get len attr_len rest1 = Inr (Some (t, is_tag, a, rest))" for rest1
      using 1(1) [OF c refl True r(1) refl r(2)] scan_tag_shorter(2) [OF r(1)] cs by simp
    then show ?thesis
      using 1(2) cs True by (subst (asm) get.simps)
        (auto simp: c dest: scan_tag_shorter(1) split: sum.splits scan.splits)
  next
    case False
    then show ?thesis
      using 1(2) cs by (subst (asm) get.simps) (auto simp: c dest: copy_until_tag_shorter split: option.splits)
  qed
qed

text \<open>
  \<open>skip_unexpected\<close> calls itself for every tag it meets inside the element; the stack holds the end
  tags that the calls wait for. Its buffer for the end tag has 256 bytes.
\<close>

function skip_until :: "string list \<Rightarrow> string \<Rightarrow> string xml" where
  "skip_until ends inp =
     (case ends of
        [] \<Rightarrow> Inr inp
      | end_tag # outer \<Rightarrow>
          case get 256 None inp of
            Inl e \<Rightarrow> Inl e
          | Inr None \<Rightarrow> Inr []
          | Inr (Some (tag, is_tag, _, rest)) \<Rightarrow>
              if \<not> is_tag then skip_until ends rest
              else if tag = end_tag then skip_until outer rest
              else if CHR ''/'' \<in> set tag then skip_until ends rest
              else if length tag > 254 then Inl Overrun
              else skip_until ((CHR ''/'' # tag) # ends) rest)"
  by pat_completeness auto
termination
  by (relation "measure (\<lambda>(ends, inp). length inp)") (auto dest: get_shorter)

declare skip_until.simps [simp del]

definition skip_unexpected :: "string \<Rightarrow> string \<Rightarrow> string xml" where
  "skip_unexpected start_tag inp =
     (if CHR ''/'' \<in> set start_tag then Inr inp
      else if length start_tag > 254 then Inl Overrun
      else skip_until [CHR ''/'' # start_tag] inp)"

lemma skip_until_le: "skip_until ends inp = Inr rest \<Longrightarrow> length rest \<le> length inp"
proof (induction ends inp rule: skip_until.induct)
  case (1 ends inp)
  show ?case
  proof (cases ends)
    case Nil
    then show ?thesis using 1(5) by (simp add: skip_until.simps)
  next
    case (Cons end_tag outer)
    show ?thesis
    proof (cases "get 256 None inp")
      case (Inr r)
      show ?thesis
      proof (cases r)
        case (Some tok)
        obtain tag is_tag a rest1 where tok: "tok = (tag, is_tag, a, rest1)" by (cases tok)
        have g: "get 256 None inp = Inr (Some (tag, is_tag, a, rest1))" using Inr Some tok by simp
        note ih = 1(1-4) [OF Cons g refl refl refl refl]
        show ?thesis
          using 1(5) ih get_shorter [OF g] unfolding skip_until.simps [of ends inp]
          by (simp add: g Cons split: if_splits)
      qed (use 1(5) Cons Inr in \<open>simp add: skip_until.simps [of "end_tag # outer" inp]\<close>)
    qed (use 1(5) Cons in \<open>simp add: skip_until.simps [of "end_tag # outer" inp]\<close>)
  qed
qed

lemma skip_unexpected_le: "skip_unexpected start_tag inp = Inr rest \<Longrightarrow> length rest \<le> length inp"
  by (auto simp: skip_unexpected_def dest: skip_until_le split: if_splits)

section \<open>Tags and their buffers\<close>

lemma scan_tag_full:
  assumes "length (b_text b) = b_size b" "b_len b - 1 > 0" "\<not> is_space c"
  shows "scan_tag i False b attr (c # cs) = Inl Overrun"
  using assms by (simp add: terminate_buf_def put_def)

text \<open>
  \<open>tag_space b m\<close>: the counter of \<open>b\<close> stands at \<open>m\<close> and the text written so far fits it. At zero one
  character has been dropped.
\<close>

definition tag_space :: "BUF \<Rightarrow> nat \<Rightarrow> bool" where
  "tag_space b m = (b_len b = of_nat m \<and> m \<le> b_size b \<and> b_size b < 2 ^ 64 \<and> 0 < b_size b
     \<and> length (b_text b) = b_size b - max 1 m)"

lemma tag_space_new: "0 < n \<Longrightarrow> n < 2 ^ 64 \<Longrightarrow> tag_space (new_buf n) n"
  by (simp add: tag_space_def new_buf_def)

lemma of_nat_word_pos: "0 < m \<Longrightarrow> m < 2 ^ 64 \<Longrightarrow> (of_nat m :: 64 word) > 0"
  by (simp add: word_less_nat_alt unat_of_nat take_bit_nat_eq_self)

lemma put_space:
  assumes "tag_space b m" "1 < m"
  shows "\<exists>b1. put c b = Inr b1 \<and> tag_space b1 (m - 1) \<and> b_size b1 = b_size b \<and> b_text b1 = b_text b @ [c]"
proof -
  have "b_len b - 1 = of_nat (m - 1)" using assms by (simp add: tag_space_def of_nat_diff)
  moreover have "(of_nat (m - 1) :: 64 word) > 0" using assms by (intro of_nat_word_pos) (auto simp: tag_space_def)
  ultimately show ?thesis using assms by (auto simp: tag_space_def put_def)
qed

lemma put_last:
  assumes "tag_space b 1"
  shows "\<exists>b1. put c b = Inr b1 \<and> tag_space b1 0 \<and> b_size b1 = b_size b \<and> b_text b1 = b_text b"
  using assms by (simp add: tag_space_def put_def)

lemma put_wrapped:
  assumes "tag_space b 0"
  shows "\<exists>b1. put c b = Inr b1 \<and> length (b_text b1) = b_size b1 \<and> b_len b1 - 1 > 0"
proof -
  have "(- 1 :: 64 word) > 0" "(- 2 :: 64 word) > 0" by (simp_all add: word_gt_0)
  then show ?thesis using assms by (auto simp: tag_space_def put_def Let_def)
qed

definition name_ok :: "string \<Rightarrow> bool" where
  "name_ok t = (CHR ''>'' \<notin> set t \<and> list_all (\<lambda>c. \<not> is_space c) t)"

definition tag_result :: "string \<Rightarrow> BUF option \<Rightarrow> string \<Rightarrow> scan xml" where
  "tag_result t attr rest = (case attr of
     None \<Rightarrow> Inr (Scan_Tag t [] rest)
   | Some ab \<Rightarrow> xml_then (terminate_buf ab) (\<lambda>a. Inr (Scan_Tag t a rest)))"

lemma scan_tag_name:
  assumes "tag_space b m" "4 \<le> b_size b" "name_ok t"
    "i \<le> 2 \<Longrightarrow> length (b_text b) = i \<and> take 3 (b_text b @ t) \<noteq> ''!--''"
  shows "scan_tag i False b attr (t @ CHR ''>'' # rest)
    = (if length t \<le> m then tag_result (take (b_size b - 1) (b_text b @ t)) attr rest else Inl Overrun)"
  using assms
proof (induction t arbitrary: i b m)
  case Nil
  then have "length (b_text b) < b_size b" "length (b_text b) \<le> b_size b - 1" by (auto simp: tag_space_def)
  then show ?case by (simp add: terminate_buf_def tag_result_def)
next
  case (Cons c t)
  have c: "c \<noteq> CHR ''>''" "\<not> is_space c" and t: "name_ok t" using Cons.prems(3) by (auto simp: name_ok_def)
  have step: "scan_tag i False b attr ((c # t) @ CHR ''>'' # rest) = scan_tag (Suc i) False b1 attr (t @ CHR ''>'' # rest)"
    if "put c b = Inr b1" "i = 2 \<longrightarrow> take 3 (b_text b1) \<noteq> ''!--''" for b1
    using that c by auto
  consider (many) "1 < m" | (one) "m = 1" | (none) "m = 0" by linarith
  then show ?case
  proof cases
    case many
    obtain b1 where b1: "put c b = Inr b1" "tag_space b1 (m - 1)" "b_size b1 = b_size b" "b_text b1 = b_text b @ [c]"
      using put_space [OF Cons.prems(1) many] by blast
    have body: "b_text b1 @ t = b_text b @ c # t" by (simp add: b1(4))
    have st: "scan_tag i False b attr ((c # t) @ CHR ''>'' # rest) = scan_tag (Suc i) False b1 attr (t @ CHR ''>'' # rest)"
      by (rule step [OF b1(1)]) (use Cons.prems(4) b1(4) in auto)
    have "scan_tag (Suc i) False b1 attr (t @ CHR ''>'' # rest)
        = (if length t \<le> m - 1 then tag_result (take (b_size b1 - 1) (b_text b1 @ t)) attr rest else Inl Overrun)"
    proof (rule Cons.IH [OF b1(2) _ t])
      show "length (b_text b1) = Suc i \<and> take 3 (b_text b1 @ t) \<noteq> ''!--''" if "Suc i \<le> 2"
        unfolding body using Cons.prems(4) that b1(4) by auto
    qed (use Cons.prems(2) b1(3) in simp)
    then show ?thesis unfolding st body b1(3) using many by auto
  next
    case one
    obtain b1 where b1: "put c b = Inr b1" "tag_space b1 0" "b_size b1 = b_size b" "b_text b1 = b_text b"
      using put_last Cons.prems(1) one by blast
    have len: "length (b_text b) = b_size b - 1" using Cons.prems(1) one by (simp add: tag_space_def)
    then have "\<not> i \<le> 2" using Cons.prems(2,4) by auto
    then show ?thesis
      using step [OF b1(1)] Cons.IH [OF b1(2) _ t] Cons.prems(2) b1(3,4) one len by auto
  next
    case none
    obtain b1 where b1: "put c b = Inr b1" "length (b_text b1) = b_size b1" "b_len b1 - 1 > 0"
      using put_wrapped Cons.prems(1) none by blast
    have "length (b_text b) = b_size b - 1" using Cons.prems(1) none by (simp add: tag_space_def)
    then have "\<not> i \<le> 2" using Cons.prems(2,4) by auto
    moreover have "scan_tag (Suc i) False b1 attr (t @ CHR ''>'' # rest) = Inl Overrun"
    proof (cases t)
      case Nil
      have "\<not> is_space CHR ''>''" by (simp add: is_space_def)
      then show ?thesis using scan_tag_full [OF b1(2,3)] Nil by (simp del: scan_tag.simps)
    next
      case (Cons d u)
      then show ?thesis using scan_tag_full [OF b1(2,3), of d] t by (simp add: name_ok_def del: scan_tag.simps)
    qed
    ultimately show ?thesis using step [OF b1(1)] none by simp
  qed
qed

section \<open>Comments\<close>

lemma strstr_from_skip: "c \<notin> set b \<Longrightarrow> strstr_from (c # pat) (b @ r) = strstr_from (c # pat) r"
  by (induction b) auto

lemma match_tag_skip: "c \<notin> set b \<Longrightarrow> match_tag (b @ r) (c # pat) = match_tag r (c # pat)"
  by (simp add: match_tag_def strstr_from_skip)

lemma scan_comment_text:
  assumes "CHR ''-'' \<notin> set body" "CHR ''-'' \<notin> set buf" "length buf \<le> 32"
  shows "\<exists>buf1. scan_comment buf (body @ r) = scan_comment buf1 r \<and> CHR ''-'' \<notin> set buf1
    \<and> length buf1 = (length buf + length body) mod 33"
  using assms
proof (induction body arbitrary: buf)
  case (Cons c body)
  have "\<not> match_tag (buf @ [c]) ''-->''"
    using Cons.prems match_tag_skip [of "CHR ''-''" "buf @ [c]" "[]" "''->''"] by (simp add: match_tag_def)
  then have s: "scan_comment buf ((c # body) @ r) = scan_comment (if length buf = 32 then [] else buf @ [c]) (body @ r)"
    using Cons.prems by (auto simp: Let_def)
  show ?case
  proof (cases "length buf = 32")
    case True
    then have "(length buf + length (c # body)) mod 33 = length body mod 33" by (simp add: mod_add_eq)
    then show ?thesis using Cons.IH [of "[]"] Cons.prems s True by simp
  next
    case False
    then show ?thesis using Cons.IH [of "buf @ [c]"] Cons.prems s by simp
  qed
qed (auto intro: exI [of _ buf])

lemma match_tag_Cons: "match_tag (c # s) t \<longleftrightarrow> take (length t) (c # s) = t \<or> match_tag s t"
  by (simp add: match_tag_def)

lemma match_tag_iff: "match_tag s t \<longleftrightarrow> (\<exists>a b. s = a @ t @ b)"
proof (induction s)
  case (Cons c s)
  have "take (length t) (c # s) = t \<longleftrightarrow> (\<exists>b. c # s = t @ b)" by (metis append_take_drop_id append_eq_conv_conj)
  moreover have "(\<exists>a b. c # s = a @ t @ b) \<longleftrightarrow> (\<exists>b. c # s = t @ b) \<or> (\<exists>a b. s = a @ t @ b)"
    by (metis append_Cons append_Nil append_eq_Cons_conv)
  ultimately show ?case using Cons match_tag_Cons by metis
qed (simp add: match_tag_def)

lemma scan_comment_none: "\<not> match_tag (buf @ inp) ''-->'' \<Longrightarrow> scan_comment buf inp = None"
proof (induction buf inp rule: scan_comment.induct)
  case (2 buf c cs)
  have eq: "buf @ c # cs = (buf @ [c]) @ [] @ cs" by simp
  have "\<not> match_tag (buf @ [c]) ''-->''" "\<not> match_tag cs ''-->''"
    using 2(2) unfolding eq match_tag_iff by (metis append.assoc append_Nil)+
  then show ?case using 2 by (auto simp: Let_def)
qed simp

text \<open>The scanner of XML comments recognises the end of a comment only at some positions: after a
  text without a dash it is found when the length of the text modulo 33 is at most 30; otherwise the
  comment goes on, and without another end the rest of the file is taken as part of it.\<close>

theorem scan_comment_end:
  assumes "CHR ''-'' \<notin> set body"
  shows "scan_comment [] (body @ ''-->'' @ rest)
    = (if length body mod 33 \<le> 30 then Some rest
       else scan_comment (if length body mod 33 = 31 then ''>'' else ''->'') rest)
    \<and> (length body mod 33 > 30 \<and> \<not> match_tag rest ''-->'' \<longrightarrow> scan_comment [] (body @ ''-->'' @ rest) = None)"
proof -
  obtain buf where b: "scan_comment [] (body @ ''-->'' @ rest) = scan_comment buf (''-->'' @ rest)"
      "CHR ''-'' \<notin> set buf" "length buf = length body mod 33"
    using scan_comment_text [OF assms, of "[]" "''-->'' @ rest"] by auto
  have m: "match_tag (buf @ r) ''-->'' = match_tag r ''-->''" for r using match_tag_skip [OF b(2)] .
  have e: "\<not> match_tag ''-'' ''-->''" "\<not> match_tag ''--'' ''-->''" "match_tag ''-->'' ''-->''"
      "\<not> match_tag ''->'' ''-->''" "\<not> match_tag ''>'' ''-->''" "\<not> match_tag [] ''-->''"
    by (simp_all add: match_tag_def)
  have one: "scan_comment [] (body @ ''-->'' @ rest)
    = (if length body mod 33 \<le> 30 then Some rest
       else scan_comment (if length body mod 33 = 31 then ''>'' else ''->'') rest)"
  proof -
    have "length body mod 33 < 33" by simp
    then consider "length buf \<le> 30" | "length buf = 31" | "length buf = 32" using b(3) by linarith
    then show ?thesis
      unfolding b(1) b(3) [symmetric] by cases (simp_all add: Let_def m e)
  qed
  moreover have "scan_comment [] (body @ ''-->'' @ rest) = None"
    if "length body mod 33 > 30" "\<not> match_tag rest ''-->''"
  proof -
    have "\<not> match_tag (''>'' @ rest) ''-->''" "\<not> match_tag (''->'' @ rest) ''-->''"
      using that(2) by (auto simp: match_tag_Cons)
    then show ?thesis unfolding one using that(1) scan_comment_none by simp
  qed
  ultimately show ?thesis by blast
qed

theorem scan_comment_end_witness:
  "scan_comment [] (replicate 31 CHR ''x'' @ ''-->'' @ ''<a>1</a>'') = None
   \<and> scan_comment [] (replicate 30 CHR ''x'' @ ''-->'' @ ''<a>1</a>'') = Some ''<a>1</a>''"
  using scan_comment_end [of "replicate 31 CHR ''x''" "''<a>1</a>''"] scan_comment_end [of "replicate 30 CHR ''x''" "''<a>1</a>''"]
  by (simp add: match_tag_def)

section \<open>Tokens of a printed element\<close>

lemma strip_whitespace_id:
  assumes "t \<noteq> []" "\<not> is_space (hd t)" "\<not> is_space (last t)"
  shows "strip_whitespace t = t"
proof -
  have "dropWhile is_space t = t" using assms(1,2) by (cases t) auto
  moreover have "dropWhile is_space (rev t) = rev t" using assms(1,3) by (cases t rule: rev_cases) auto
  ultimately show ?thesis by (simp add: strip_whitespace_def)
qed

lemma strip_whitespace_name: "name_ok t \<Longrightarrow> strip_whitespace t = t"
proof (cases "t = []")
  case False
  moreover assume "name_ok t"
  ultimately show ?thesis by (intro strip_whitespace_id) (auto simp: name_ok_def list_all_iff)
qed (simp add: strip_whitespace_def)

lemma scan_nonws_spaces:
  assumes "list_all is_space ws" "\<not> is_space c"
  shows "scan_nonws (ws @ c # cs) = Some (c, cs)"
  using assms by (simp add: scan_nonws_def dropWhile_append list_all_iff)

text \<open>Reading a tag into a buffer of \<open>n\<close> bytes: a name of at most \<open>n\<close> characters is read, the last
  one being cut off when it does not fit; a longer name is written behind the end of the buffer, since
  the counter of free bytes is unsigned and wraps around.\<close>

theorem get_tag_buffer:
  assumes "4 \<le> n" "n < 2 ^ 64" "name_ok t" "take 3 t \<noteq> ''!--''" "list_all is_space ws"
  shows "get n None (ws @ CHR ''<'' # t @ CHR ''>'' # rest)
    = (if length t \<le> n then Inr (Some (take (n - 1) t, True, [], rest)) else Inl Overrun)"
proof -
  have "\<not> is_space CHR ''<''" by (simp add: is_space_def)
  then have sn: "scan_nonws (ws @ CHR ''<'' # t @ CHR ''>'' # rest) = Some (CHR ''<'', t @ CHR ''>'' # rest)"
    using assms(5) scan_nonws_spaces by simp
  have "scan_tag 0 False (new_buf n) None (t @ CHR ''>'' # rest)
      = (if length t \<le> n then tag_result (take (n - 1) t) None rest else Inl Overrun)"
    using scan_tag_name [OF tag_space_new, of n t 0 None rest] assms by (simp add: new_buf_def)
  moreover have "name_ok (take (n - 1) t)" using assms(3) by (auto simp: name_ok_def list_all_iff dest: in_set_takeD)
  ultimately show ?thesis
    by (subst get.simps) (simp add: sn tag_result_def strip_whitespace_name)
qed

theorem get_tag_buffer_witness:
  "get 256 None (''<'' @ replicate 257 CHR ''x'' @ ''>'') = Inl Overrun \<and>
   get 256 None ''<a>'' = Inr (Some (''a'', True, [], []))"
  using get_tag_buffer [of 256 "replicate 257 CHR ''x''" "[]" "[]"] get_tag_buffer [of 256 "''a''" "[]" "[]"]
  by (simp add: name_ok_def is_space_def list_all_iff numeral_3_eq_3)

definition tag_ok :: "string \<Rightarrow> bool" where
  "tag_ok t = (name_ok t \<and> length t < 256 \<and> take 3 t \<noteq> ''!--'')"

lemma get_tag:
  assumes "tag_ok t" "list_all is_space ws" "attr = None \<or> attr = Some 256"
  shows "get 256 attr (ws @ CHR ''<'' # t @ CHR ''>'' # rest) = Inr (Some (t, True, [], rest))"
proof -
  have "\<not> is_space CHR ''<''" by (simp add: is_space_def)
  then have sn: "scan_nonws (ws @ CHR ''<'' # t @ CHR ''>'' # rest) = Some (CHR ''<'', t @ CHR ''>'' # rest)"
    using assms(2) scan_nonws_spaces by simp
  have "scan_tag 0 False (new_buf 256) (map_option new_buf attr) (t @ CHR ''>'' # rest)
      = tag_result t (map_option new_buf attr) rest"
    using scan_tag_name [OF tag_space_new, of 256 t 0 "map_option new_buf attr" rest] assms(1)
    by (simp add: new_buf_def tag_ok_def)
  moreover have "strip_whitespace t = t" using assms(1) strip_whitespace_name by (simp add: tag_ok_def)
  ultimately show ?thesis
    using assms(3) by (subst get.simps) (auto simp: sn tag_result_def terminate_buf_def new_buf_def)
qed

definition text_ok :: "string \<Rightarrow> bool" where
  "text_ok t = (t \<noteq> [] \<and> \<not> is_space (hd t) \<and> \<not> is_space (last t) \<and> CHR ''<'' \<notin> set t)"

lemma get_text:
  assumes "text_ok t" "length t < len"
  shows "get len attr (t @ CHR ''<'' # rest) = Inr (Some (t, False, [], CHR ''<'' # rest))"
proof -
  obtain c u where t: "t = c # u" using assms(1) by (cases t) (auto simp: text_ok_def)
  then have "scan_nonws (t @ CHR ''<'' # rest) = Some (c, u @ CHR ''<'' # rest)" "c \<noteq> CHR ''<''" "CHR ''<'' \<notin> set u"
    using assms(1) by (auto simp: scan_nonws_def text_ok_def)
  moreover have "copy_until_tag (len - 1) (u @ CHR ''<'' # rest) = Some (u, CHR ''<'' # rest)"
    using \<open>CHR ''<'' \<notin> set u\<close> assms(2) t by (auto simp: copy_until_tag_def dropWhile_append takeWhile_append split: list.split)
  moreover have "strip_whitespace t = t" using assms(1) by (simp add: text_ok_def strip_whitespace_id)
  ultimately show ?thesis using t by (subst get.simps) simp
qed

lemma get_end_tag: "tag_ok (CHR ''/'' # name) \<Longrightarrow> get_end name (''</'' @ name @ CHR ''>'' # rest) = Inr (True, rest)"
  using get_tag [of "CHR ''/'' # name" "[]" None rest] by (simp add: get_end_def)

lemma xml_parse_number_element:
  assumes "tag_ok (CHR ''/'' # name)" "text_ok t" "length t < 256" "val t = Some v"
  shows "xml_parse_number val zero name name (t @ ''</'' @ name @ CHR ''>'' # rest) = Inr (Some v, rest)"
  using get_text [OF assms(2,3), of None "CHR ''/'' # name @ CHR ''>'' # rest"] get_end_tag [OF assms(1), of rest] assms(4)
  by (simp add: xml_parse_number_def)

lemma xml_parse_bool_element:
  assumes "tag_ok (CHR ''/'' # name)" "text_ok t" "length t < 256" "strtol t = (v, b, [])"
  shows "xml_parse_bool name name (t @ ''</'' @ name @ CHR ''>'' # rest) = Inr (Some (v \<noteq> 0), rest)"
  using get_text [OF assms(2,3), of None "CHR ''/'' # name @ CHR ''>'' # rest"] get_end_tag [OF assms(1), of rest] assms(4)
  by (simp add: xml_parse_bool_def)

lemma xml_parse_str_element:
  assumes "tag_ok (CHR ''/'' # name)" "text_ok t" "length t < 64000"
  shows "xml_parse_str name name len (t @ ''</'' @ name @ CHR ''>'' # rest) = Inr (Some (take (len - 1) t), rest)"
  using get_text [OF assms(2,3), of None "CHR ''/'' # name @ CHR ''>'' # rest"] get_end_tag [OF assms(1), of rest]
  by (simp add: xml_parse_str_def)

lemma xml_parse_other [simp]:
  "tag \<noteq> name \<Longrightarrow> xml_parse_number val zero tag name inp = Inr (None, inp)"
  "tag \<noteq> name \<Longrightarrow> tag \<noteq> name @ ''/'' \<Longrightarrow> xml_parse_bool tag name inp = Inr (None, inp)"
  "tag \<noteq> name \<Longrightarrow> tag \<noteq> name @ ''/'' \<Longrightarrow> xml_parse_str tag name len inp = Inr (None, inp)"
  by (simp_all add: xml_parse_number_def xml_parse_bool_def xml_parse_str_def)

lemma get_end_le: "get_end name inp = Inr (ok, rest) \<Longrightarrow> length rest \<le> length inp"
  by (auto simp: get_end_def xml_then_Inr dest!: get_shorter split: option.splits)

lemma get_le: "get len attr inp = Inr (Some (t, is_tag, a, rest)) \<Longrightarrow> length rest \<le> length inp"
  using get_shorter by fastforce

lemma get_then_le:
  assumes "xml_then (get len attr inp) k = Inr (x, rest)" "k None = Inr (x, rest) \<Longrightarrow> rest = []"
    "\<And>t is_tag a rest1. k (Some (t, is_tag, a, rest1)) = Inr (x, rest) \<Longrightarrow> length rest \<le> length rest1"
  shows "length rest \<le> length inp"
proof -
  obtain tok where tok: "get len attr inp = Inr tok" "k tok = Inr (x, rest)" using assms(1) by (auto simp: xml_then_Inr)
  show ?thesis
  proof (cases tok)
    case None
    then show ?thesis using tok assms(2) by simp
  next
    case (Some t)
    obtain t1 is_tag a rest1 where "t = (t1, is_tag, a, rest1)" by (cases t)
    then show ?thesis using tok Some assms(3) get_le le_trans by blast
  qed
qed

lemma get_end_then_le:
  assumes "xml_then (get_end name inp) (\<lambda>(ok, rest1). Inr (f ok, rest1)) = Inr (x, rest)"
  shows "length rest \<le> length inp"
  using assms get_end_le by (auto simp: xml_then_Inr)

lemma xml_parse_le:
  "xml_parse_number val zero tag name inp = Inr (v, rest) \<Longrightarrow> length rest \<le> length inp"
  "xml_parse_bool tag name inp = Inr (b, rest) \<Longrightarrow> length rest \<le> length inp"
  "xml_parse_str tag name len inp = Inr (t, rest) \<Longrightarrow> length rest \<le> length inp"
  unfolding xml_parse_number_def xml_parse_bool_def xml_parse_str_def
  by (auto split: if_splits elim!: get_then_le split: option.splits prod.splits dest: get_end_then_le)

end
