(* ===== verification/Prefs.thy ===== *)
theory Prefs
  imports Xml_Parser Work_Status
begin

text \<open>
  Global preferences (\<open>lib/prefs.C\<close>): time spans and the days of the week, the defaults, parsing the
  preference files from their text, and writing them. Writing goes to a stream that has a precision;
  \<open>Prefs_Correct\<close> has the properties.
\<close>

section \<open>Time spans\<close>

abbreviation DAY_SECONDS :: int where "DAY_SECONDS \<equiv> 24 * 3600"

definition span_suspended :: "TIME_SPAN \<Rightarrow> int \<Rightarrow> bool" where
  "span_suspended t point_in_time =
     (if m_start t = m_end t then False
      else if m_start t = 0 \<and> m_end t = DAY_SECONDS then False
      else if m_start t = DAY_SECONDS \<and> m_end t = 0 then True
      else if m_start t < m_end t then point_in_time < m_start t \<or> point_in_time > m_end t
      else point_in_time \<ge> m_end t \<and> point_in_time < m_start t)"

datatype TimeMode = Always | Never | Between

definition span_mode :: "TIME_SPAN \<Rightarrow> TimeMode" where
  "span_mode t =
     (if m_end t = m_start t \<or> m_start t = 0 \<and> m_end t = DAY_SECONDS then Always
      else if m_start t = DAY_SECONDS \<and> m_end t = 0 then Never
      else Between)"

definition span_clear :: "TIME_SPAN \<Rightarrow> TIME_SPAN" where
  "span_clear t = t\<lparr>m_start := 0, m_end := 0\<rparr>"

definition check_range :: "int \<Rightarrow> unit xml" where
  "check_range point_in_time =
     (if point_in_time < 0 \<or> point_in_time > DAY_SECONDS then Inl Invalid_Argument else Inr ())"

definition set_start :: "int \<Rightarrow> TIME_SPAN \<Rightarrow> TIME_SPAN xml" where
  "set_start v t = xml_then (check_range v) (\<lambda>_. Inr (t\<lparr>m_start := v\<rparr>))"

definition set_end :: "int \<Rightarrow> TIME_SPAN \<Rightarrow> TIME_SPAN xml" where
  "set_end v t = xml_then (check_range v) (\<lambda>_. Inr (t\<lparr>m_end := v\<rparr>))"

definition TIME_SPAN_new :: "int \<Rightarrow> int \<Rightarrow> TIME_SPAN xml" where
  "TIME_SPAN_new a b = xml_then (check_range a) (\<lambda>_. xml_then (check_range b) (\<lambda>_. Inr \<lparr>m_start = a, m_end = b\<rparr>))"

section \<open>Days of the week\<close>

definition week_get :: "TIME_SPAN option list \<Rightarrow> int \<Rightarrow> TIME_SPAN option" where
  "week_get w day = (if day < 0 \<or> day > 6 then None else w ! nat day)"

text \<open>The time span of the day is deleted before the constructor of the new one is called.\<close>

definition week_set :: "int \<Rightarrow> int \<Rightarrow> int \<Rightarrow> TIME_SPAN option list \<Rightarrow> TIME_SPAN option list xml" where
  "week_set day a b w =
     (if day < 0 \<or> day > 6 then Inr w
      else xml_then (TIME_SPAN_new a b) (\<lambda>t. Inr (w[nat day := Some t])))"

text \<open>The overload for a time span compares it with the one of the day without looking whether the day has one.\<close>

definition week_set_span :: "int \<Rightarrow> TIME_SPAN \<Rightarrow> TIME_SPAN option list \<Rightarrow> TIME_SPAN option list xml" where
  "week_set_span day t w =
     (if day < 0 \<or> day > 6 then Inr w
      else case w ! nat day of
        None \<Rightarrow> Inl Null_Pointer
      | Some u \<Rightarrow> if u = t then Inr w else Inr (w[nat day := Some t]))"

definition week_unset :: "int \<Rightarrow> TIME_SPAN option list \<Rightarrow> TIME_SPAN option list" where
  "week_unset day w = (if day < 0 \<or> day > 6 then w else w[nat day := None])"

definition week_clear :: "TIME_SPAN option list \<Rightarrow> TIME_SPAN option list" where
  "week_clear w = map (\<lambda>_. None) w"

fun week_copy :: "TIME_SPAN option list \<Rightarrow> nat \<Rightarrow> TIME_SPAN option list \<Rightarrow> TIME_SPAN option list" where
  "week_copy original 0 w = w"
| "week_copy original (Suc i) w =
     (let w1 = week_copy original i w in
      case original ! i of
        Some t \<Rightarrow> w1[i := Some t]
      | None \<Rightarrow> week_unset (int i) w1)"

definition time_prefs_clear :: "TIME_PREFS \<Rightarrow> TIME_PREFS" where
  "time_prefs_clear tp = tp\<lparr>tp_span := span_clear (tp_span tp), tp_week := week_clear (tp_week tp)\<rparr>"

text \<open>\<open>TIME_PREFS::suspended\<close>; \<open>localtime\<close> gives the day of the week and the time of the day.\<close>

definition time_prefs_suspended :: "int \<times> int \<Rightarrow> TIME_PREFS \<Rightarrow> bool" where
  "time_prefs_suspended local tp = (case local of (day, point_in_time) \<Rightarrow>
     span_suspended (case week_get (tp_week tp) day of Some t \<Rightarrow> t | None \<Rightarrow> tp_span tp) point_in_time)"

section \<open>The mask\<close>

record GLOBAL_PREFS_MASK =
  gm_run_on_batteries :: bool
  gm_run_if_user_active :: bool
  gm_idle_time_to_run :: bool
  gm_suspend_if_no_recent_input :: bool
  gm_start_hour :: bool
  gm_end_hour :: bool
  gm_net_start_hour :: bool
  gm_net_end_hour :: bool
  gm_leave_apps_in_memory :: bool
  gm_confirm_before_connecting :: bool
  gm_hangup_if_dialed :: bool
  gm_dont_verify_images :: bool
  gm_work_buf_min_days :: bool
  gm_work_buf_additional_days :: bool
  gm_max_cpus :: bool
  gm_max_ncpus_pct :: bool
  gm_cpu_scheduling_period_minutes :: bool
  gm_disk_interval :: bool
  gm_disk_max_used_gb :: bool
  gm_disk_max_used_pct :: bool
  gm_disk_min_free_gb :: bool
  gm_vm_max_used_frac :: bool
  gm_ram_max_used_busy_frac :: bool
  gm_ram_max_used_idle_frac :: bool
  gm_max_bytes_sec_up :: bool
  gm_max_bytes_sec_down :: bool
  gm_cpu_usage_limit :: bool

definition all_prefs :: "bool \<Rightarrow> GLOBAL_PREFS_MASK" where
  "all_prefs b = \<lparr>gm_run_on_batteries = b, gm_run_if_user_active = b, gm_idle_time_to_run = b,
     gm_suspend_if_no_recent_input = b, gm_start_hour = b, gm_end_hour = b, gm_net_start_hour = b,
     gm_net_end_hour = b, gm_leave_apps_in_memory = b, gm_confirm_before_connecting = b,
     gm_hangup_if_dialed = b, gm_dont_verify_images = b, gm_work_buf_min_days = b,
     gm_work_buf_additional_days = b, gm_max_cpus = b, gm_max_ncpus_pct = b,
     gm_cpu_scheduling_period_minutes = b, gm_disk_interval = b, gm_disk_max_used_gb = b,
     gm_disk_max_used_pct = b, gm_disk_min_free_gb = b, gm_vm_max_used_frac = b,
     gm_ram_max_used_busy_frac = b, gm_ram_max_used_idle_frac = b, gm_max_bytes_sec_up = b,
     gm_max_bytes_sec_down = b, gm_cpu_usage_limit = b\<rparr>"

definition mask_clear :: GLOBAL_PREFS_MASK where "mask_clear = all_prefs False"

definition mask_set_all :: GLOBAL_PREFS_MASK where "mask_set_all = all_prefs True"

definition are_prefs_set :: "GLOBAL_PREFS_MASK \<Rightarrow> bool" where
  "are_prefs_set m = (gm_run_on_batteries m \<or> gm_run_if_user_active m \<or> gm_idle_time_to_run m
     \<or> gm_suspend_if_no_recent_input m \<or> gm_start_hour m \<or> gm_end_hour m \<or> gm_net_start_hour m
     \<or> gm_net_end_hour m \<or> gm_leave_apps_in_memory m \<or> gm_confirm_before_connecting m
     \<or> gm_hangup_if_dialed m \<or> gm_dont_verify_images m \<or> gm_work_buf_min_days m
     \<or> gm_work_buf_additional_days m \<or> gm_max_cpus m \<or> gm_max_ncpus_pct m
     \<or> gm_cpu_scheduling_period_minutes m \<or> gm_disk_interval m \<or> gm_disk_max_used_gb m
     \<or> gm_disk_max_used_pct m \<or> gm_disk_min_free_gb m \<or> gm_vm_max_used_frac m
     \<or> gm_ram_max_used_busy_frac m \<or> gm_ram_max_used_idle_frac m \<or> gm_max_bytes_sec_up m
     \<or> gm_max_bytes_sec_down m \<or> gm_cpu_usage_limit m)"

definition are_simple_prefs_set :: "GLOBAL_PREFS_MASK \<Rightarrow> bool" where
  "are_simple_prefs_set m = (gm_start_hour m \<or> gm_end_hour m \<or> gm_net_start_hour m \<or> gm_net_end_hour m
     \<or> gm_disk_max_used_gb m \<or> gm_cpu_usage_limit m \<or> gm_run_on_batteries m \<or> gm_run_if_user_active m
     \<or> gm_idle_time_to_run m)"

section \<open>Defaults\<close>

definition GLOBAL_PREFS_defaults :: "GLOBAL_PREFS \<Rightarrow> GLOBAL_PREFS" where
  "GLOBAL_PREFS_defaults g = g\<lparr>gp_run_on_batteries := True, gp_run_if_user_active := True,
     gp_idle_time_to_run := 3, gp_suspend_if_no_recent_input := 0,
     gp_cpu_times := time_prefs_clear (gp_cpu_times g), gp_net_times := time_prefs_clear (gp_net_times g),
     gp_leave_apps_in_memory := False, gp_confirm_before_connecting := True, gp_hangup_if_dialed := False,
     gp_dont_verify_images := False, gp_work_buf_min_days := 1/10, gp_work_buf_additional_days := 1/4,
     gp_max_cpus := 16, gp_max_ncpus_pct := 100, gp_cpu_scheduling_period_minutes := 60,
     gp_disk_interval := 60, gp_disk_max_used_gb := 10, gp_disk_max_used_pct := 50,
     gp_disk_min_free_gb := 1/10, gp_vm_max_used_frac := 3/4, gp_ram_max_used_busy_frac := 1/2,
     gp_ram_max_used_idle_frac := 9/10, gp_max_bytes_sec_up := 0, gp_max_bytes_sec_down := 0,
     gp_cpu_usage_limit := 100\<rparr>"

definition clear_bools :: "GLOBAL_PREFS \<Rightarrow> GLOBAL_PREFS" where
  "clear_bools g = g\<lparr>gp_run_on_batteries := False, gp_run_if_user_active := False,
     gp_leave_apps_in_memory := False, gp_confirm_before_connecting := False, gp_hangup_if_dialed := False,
     gp_dont_verify_images := False\<rparr>"

definition GLOBAL_PREFS_init :: "GLOBAL_PREFS \<Rightarrow> GLOBAL_PREFS" where
  "GLOBAL_PREFS_init g = (GLOBAL_PREFS_defaults g)\<lparr>gp_source_project := [], gp_source_scheduler := [],
     gp_mod_time := 0, gp_host_specific := False\<rparr>"

section \<open>Fields of an element\<close>

text \<open>
  A parser of elements tries its fields one after the other until one recognises the tag. A field
  gets the tag, the object being filled and the text after the tag; it says whether it recognised the
  tag. A field that recognises the tag but not what follows has consumed text, and the next fields and
  \<open>skip_unexpected\<close> go on from there.
\<close>

type_synonym 'a field = "string \<Rightarrow> 'a \<Rightarrow> string \<Rightarrow> (bool \<times> 'a \<times> string) xml"

definition field :: "(string \<Rightarrow> string \<Rightarrow> ('v option \<times> string) xml) \<Rightarrow> ('v \<Rightarrow> 'a \<Rightarrow> 'a xml) \<Rightarrow> 'a field" where
  "field parse upd tag x inp = xml_then (parse tag inp) (\<lambda>(v, rest).
     case v of
       None \<Rightarrow> Inr (False, x, rest)
     | Some v \<Rightarrow> xml_then (upd v x) (\<lambda>y. Inr (True, y, rest)))"

fun first_field :: "'a field list \<Rightarrow> 'a field" where
  "first_field [] tag x inp = Inr (False, x, inp)"
| "first_field (f # fs) tag x inp = xml_then (f tag x inp) (\<lambda>(found, y, rest).
     if found then Inr (True, y, rest) else first_field fs tag y rest)"

definition double_field :: "string \<Rightarrow> (real \<Rightarrow> 'a \<Rightarrow> 'a) \<Rightarrow> 'a field" where
  "double_field name upd = field (\<lambda>tag. xml_parse_double tag name) (\<lambda>v x. Inr (upd v x))"

definition int_field :: "string \<Rightarrow> (int \<Rightarrow> 'a \<Rightarrow> 'a) \<Rightarrow> 'a field" where
  "int_field name upd = field (\<lambda>tag. xml_parse_int tag name) (\<lambda>v x. Inr (upd v x))"

definition bool_field :: "string \<Rightarrow> (bool \<Rightarrow> 'a \<Rightarrow> 'a) \<Rightarrow> 'a field" where
  "bool_field name upd = field (\<lambda>tag. xml_parse_bool tag name) (\<lambda>v x. Inr (upd v x))"

definition str_field :: "string \<Rightarrow> nat \<Rightarrow> (string \<Rightarrow> 'a \<Rightarrow> 'a) \<Rightarrow> 'a field" where
  "str_field name len upd = field (\<lambda>tag. xml_parse_str tag name len) (\<lambda>v x. Inr (upd v x))"

text \<open>The cast of a double to \<open>time_t\<close> drops the fraction.\<close>

definition time_t_of :: "real \<Rightarrow> int" where
  "time_t_of x = (if x \<ge> 0 then \<lfloor>x\<rfloor> else \<lceil>x\<rceil>)"

definition hour_field :: "string \<Rightarrow> (int \<Rightarrow> 'a \<Rightarrow> 'a xml) \<Rightarrow> 'a field" where
  "hour_field name upd = field (\<lambda>tag. xml_parse_double tag name) (\<lambda>v. upd (time_t_of (v * 3600)))"

lemma field_le: "(\<And>v rest. parse tag inp = Inr (v, rest) \<Longrightarrow> length rest \<le> length inp)
    \<Longrightarrow> field parse upd tag x inp = Inr (b, y, rest) \<Longrightarrow> length rest \<le> length inp"
  by (auto simp: field_def xml_then_Inr split: option.splits)

definition consumes :: "'a field \<Rightarrow> bool" where
  "consumes f = (\<forall>tag x inp b y rest. f tag x inp = Inr (b, y, rest) \<longrightarrow> length rest \<le> length inp)"

lemma consumesD: "consumes f \<Longrightarrow> f tag x inp = Inr (b, y, rest) \<Longrightarrow> length rest \<le> length inp"
  by (auto simp: consumes_def)

lemma consumes_fields [simp]:
  "consumes (double_field name u1)" "consumes (int_field name u2)" "consumes (bool_field name u3)"
  "consumes (str_field name len u4)" "consumes (hour_field name u5)"
  unfolding consumes_def double_field_def int_field_def bool_field_def str_field_def hour_field_def
    xml_parse_double_def xml_parse_int_def
  by (intro allI impI, erule field_le [rotated], erule xml_parse_le)+

lemma consumes_first: "\<forall>f \<in> set fs. consumes f \<Longrightarrow> consumes (first_field fs)"
proof (induction fs)
  case (Cons f fs)
  have "length rest \<le> length inp" if h: "first_field (f # fs) tag x inp = Inr (b, y, rest)" for tag x inp b y rest
  proof -
    obtain found z rest1 where f: "f tag x inp = Inr (found, z, rest1)"
      "(if found then Inr (True, z, rest1) else first_field fs tag z rest1) = Inr (b, y, rest)"
      using h by (auto simp: xml_then_Inr)
    moreover have "length rest1 \<le> length inp" using Cons.prems consumesD f(1) by fastforce
    moreover have "length rest \<le> length rest1" if "\<not> found"
      using f(2) that Cons by (auto dest: consumesD)
    ultimately show ?thesis by (cases found) auto
  qed
  then show ?case unfolding consumes_def by blast
qed (simp add: consumes_def)

section \<open>Parsing a day\<close>

record DAY_PREFS =
  dp_day_of_week :: int
  dp_has_cpu :: bool
  dp_has_net :: bool
  dp_start_hour :: real
  dp_end_hour :: real
  dp_net_start_hour :: real
  dp_net_end_hour :: real

definition new_day :: DAY_PREFS where
  "new_day = \<lparr>dp_day_of_week = -1, dp_has_cpu = False, dp_has_net = False, dp_start_hour = 0, dp_end_hour = 0,
     dp_net_start_hour = 0, dp_net_end_hour = 0\<rparr>"

definition day_fields :: "DAY_PREFS field list" where
  "day_fields =
     [int_field ''day_of_week'' (\<lambda>v d. d\<lparr>dp_day_of_week := v\<rparr>),
      double_field ''start_hour'' (\<lambda>v d. d\<lparr>dp_start_hour := v, dp_has_cpu := True\<rparr>),
      double_field ''end_hour'' (\<lambda>v d. d\<lparr>dp_end_hour := v, dp_has_cpu := True\<rparr>),
      double_field ''net_start_hour'' (\<lambda>v d. d\<lparr>dp_net_start_hour := v, dp_has_net := True\<rparr>),
      double_field ''net_end_hour'' (\<lambda>v d. d\<lparr>dp_net_end_hour := v, dp_has_net := True\<rparr>)]"

definition set_day :: "bool \<Rightarrow> int \<Rightarrow> real \<Rightarrow> real \<Rightarrow> TIME_PREFS \<Rightarrow> TIME_PREFS xml" where
  "set_day has day start_hour end_hour tp =
     (if has
      then xml_then (week_set day (time_t_of (start_hour * 3600)) (time_t_of (end_hour * 3600)) (tp_week tp))
             (\<lambda>w. Inr (tp\<lparr>tp_week := w\<rparr>))
      else Inr tp)"

definition end_of_day :: "DAY_PREFS \<Rightarrow> GLOBAL_PREFS \<Rightarrow> (int \<times> GLOBAL_PREFS) xml" where
  "end_of_day d g =
     (if dp_day_of_week d < 0 \<or> dp_day_of_week d > 6 then Inr (ERR_XML_PARSE, g)
      else xml_then (set_day (dp_has_cpu d) (dp_day_of_week d) (dp_start_hour d) (dp_end_hour d) (gp_cpu_times g)) (\<lambda>c.
           xml_then (set_day (dp_has_net d) (dp_day_of_week d) (dp_net_start_hour d) (dp_net_end_hour d) (gp_net_times g)) (\<lambda>n.
           Inr (0, g\<lparr>gp_cpu_times := c, gp_net_times := n\<rparr>))))"

text \<open>The result of \<open>parse_day\<close>, the preferences and the rest of the text.\<close>

function parse_day :: "DAY_PREFS \<Rightarrow> GLOBAL_PREFS \<Rightarrow> string \<Rightarrow> (int \<times> GLOBAL_PREFS \<times> string) xml" where
  "parse_day d g inp = xml_then (get 256 None inp) (\<lambda>tok.
     case tok of
       None \<Rightarrow> Inr (ERR_XML_PARSE, g, [])
     | Some (tag, is_tag, _, rest) \<Rightarrow>
         if \<not> is_tag then parse_day d g rest
         else if tag = ''/day_prefs'' then xml_then (end_of_day d g) (\<lambda>(retval, g1). Inr (retval, g1, rest))
         else xml_then (first_field day_fields tag d rest) (\<lambda>(found, d1, rest1).
           if found then parse_day d1 g rest1
           else xml_then (skip_unexpected tag rest1) (\<lambda>rest2. parse_day d1 g rest2)))"
  by pat_completeness auto
termination
proof -
  have le: "first_field day_fields tag d rest = Inr (b, d1, rest1) \<Longrightarrow> length rest1 \<le> length rest" for tag d rest b d1 rest1
    by (erule consumesD [OF consumes_first, rotated]) (auto simp: day_fields_def)
  show ?thesis
    by (relation "measure (\<lambda>(d, g, inp). length inp)") (auto dest!: get_shorter le skip_unexpected_le)
qed

declare parse_day.simps [simp del]

lemma parse_day_le: "parse_day d g inp = Inr (retval, g1, rest) \<Longrightarrow> length rest \<le> length inp"
proof (induction d g inp rule: parse_day.induct)
  case (1 d g inp)
  have le: "first_field day_fields tag d rest = Inr (b, d1, rest1) \<Longrightarrow> length rest1 \<le> length rest" for tag d rest b d1 rest1
    by (erule consumesD [OF consumes_first, rotated]) (auto simp: day_fields_def)
  obtain tok where tok: "get 256 None inp = Inr tok"
    using 1(4) by (subst (asm) parse_day.simps) (auto simp: xml_then_Inr)
  show ?case
  proof (cases tok)
    case None
    then show ?thesis using 1(4) tok by (subst (asm) parse_day.simps) simp
  next
    case (Some t)
    obtain tag is_tag a rest1 where t: "t = (tag, is_tag, a, rest1)" by (cases t)
    have g: "get 256 None inp = Inr (Some (tag, is_tag, a, rest1))" using tok Some t by simp
    note lt = get_shorter [OF g]
    consider (plain) "\<not> is_tag" | (close) "is_tag" "tag = ''/day_prefs''" | (other) "is_tag" "tag \<noteq> ''/day_prefs''" by blast
    then show ?thesis
    proof cases
      case plain
      then have "parse_day d g rest1 = Inr (retval, g1, rest)" using 1(4) g by (subst (asm) parse_day.simps) simp
      then show ?thesis using 1(1) [OF g refl refl refl refl plain] lt by simp
    next
      case close
      then show ?thesis using 1(4) g lt by (subst (asm) parse_day.simps) (auto simp: xml_then_Inr)
    next
      case other
      obtain found d1 rest2 where f: "first_field day_fields tag d rest1 = Inr (found, d1, rest2)"
        "(if found then parse_day d1 g rest2 else xml_then (skip_unexpected tag rest2) (parse_day d1 g)) = Inr (retval, g1, rest)"
        using 1(4) g other by (subst (asm) parse_day.simps) (auto simp: xml_then_Inr)
      show ?thesis
      proof (cases found)
        case True
        then have "length rest \<le> length rest2"
          using 1(2) [OF g refl refl refl refl _ other(2) f(1) refl refl] f(2) other(1) by simp
        then show ?thesis using le [OF f(1)] lt by simp
      next
        case False
        then obtain rest3 where r: "skip_unexpected tag rest2 = Inr rest3" "parse_day d1 g rest3 = Inr (retval, g1, rest)"
          using f(2) by (auto simp: xml_then_Inr)
        then have "length rest \<le> length rest3"
          using 1(3) [OF g refl refl refl refl _ other(2) f(1) refl refl False r(1)] other(1) by simp
        then show ?thesis using le [OF f(1)] lt skip_unexpected_le [OF r(1)] by simp
      qed
    qed
  qed
qed

section \<open>Parsing preferences\<close>

type_synonym prefs_mask = "GLOBAL_PREFS \<times> GLOBAL_PREFS_MASK"

definition both :: "(GLOBAL_PREFS \<Rightarrow> GLOBAL_PREFS) \<Rightarrow> (GLOBAL_PREFS_MASK \<Rightarrow> GLOBAL_PREFS_MASK) \<Rightarrow> prefs_mask \<Rightarrow> prefs_mask" where
  "both f h x = (f (fst x), h (snd x))"

definition set_span :: "(int \<Rightarrow> TIME_SPAN \<Rightarrow> TIME_SPAN xml) \<Rightarrow> int \<Rightarrow> TIME_PREFS \<Rightarrow> TIME_PREFS xml" where
  "set_span setter v tp = xml_then (setter v (tp_span tp)) (\<lambda>t. Inr (tp\<lparr>tp_span := t\<rparr>))"

definition cpu_hour :: "(int \<Rightarrow> TIME_SPAN \<Rightarrow> TIME_SPAN xml) \<Rightarrow> (GLOBAL_PREFS_MASK \<Rightarrow> GLOBAL_PREFS_MASK) \<Rightarrow> int \<Rightarrow> prefs_mask \<Rightarrow> prefs_mask xml" where
  "cpu_hour setter h v x = xml_then (set_span setter v (gp_cpu_times (fst x)))
     (\<lambda>tp. Inr (both (\<lambda>g. g\<lparr>gp_cpu_times := tp\<rparr>) h x))"

definition net_hour :: "(int \<Rightarrow> TIME_SPAN \<Rightarrow> TIME_SPAN xml) \<Rightarrow> (GLOBAL_PREFS_MASK \<Rightarrow> GLOBAL_PREFS_MASK) \<Rightarrow> int \<Rightarrow> prefs_mask \<Rightarrow> prefs_mask xml" where
  "net_hour setter h v x = xml_then (set_span setter v (gp_net_times (fst x)))
     (\<lambda>tp. Inr (both (\<lambda>g. g\<lparr>gp_net_times := tp\<rparr>) h x))"

text \<open>The return value of \<open>parse_day\<close> is not looked at.\<close>

definition day_field :: "prefs_mask field" where
  "day_field tag x inp =
     (if tag \<noteq> ''day_prefs'' then Inr (False, x, inp)
      else xml_then (parse_day new_day (fst x) inp) (\<lambda>(_, g, rest). Inr (True, (g, snd x), rest)))"

text \<open>The fields in the order in which \<open>parse_override\<close> tries them; \<open>dtime\<close> is the time of day.\<close>

definition override_fields :: "real \<Rightarrow> prefs_mask field list" where
  "override_fields dtime =
     [str_field ''source_project'' 256 (\<lambda>v. both (\<lambda>g. g\<lparr>gp_source_project := v\<rparr>) id),
      str_field ''source_scheduler'' 256 (\<lambda>v. both (\<lambda>g. g\<lparr>gp_source_scheduler := v\<rparr>) id),
      double_field ''mod_time'' (\<lambda>v. both (\<lambda>g. g\<lparr>gp_mod_time := (if v > dtime then dtime else v)\<rparr>) id),
      bool_field ''run_on_batteries'' (\<lambda>v. both (\<lambda>g. g\<lparr>gp_run_on_batteries := v\<rparr>) (\<lambda>m. m\<lparr>gm_run_on_batteries := True\<rparr>)),
      bool_field ''run_if_user_active'' (\<lambda>v. both (\<lambda>g. g\<lparr>gp_run_if_user_active := v\<rparr>) (\<lambda>m. m\<lparr>gm_run_if_user_active := True\<rparr>)),
      double_field ''idle_time_to_run'' (\<lambda>v. both (\<lambda>g. g\<lparr>gp_idle_time_to_run := v\<rparr>) (\<lambda>m. m\<lparr>gm_idle_time_to_run := True\<rparr>)),
      double_field ''suspend_if_no_recent_input''
        (\<lambda>v. both (\<lambda>g. g\<lparr>gp_suspend_if_no_recent_input := v\<rparr>) (\<lambda>m. m\<lparr>gm_suspend_if_no_recent_input := True\<rparr>)),
      hour_field ''start_hour'' (cpu_hour set_start (\<lambda>m. m\<lparr>gm_start_hour := True\<rparr>)),
      hour_field ''end_hour'' (cpu_hour set_end (\<lambda>m. m\<lparr>gm_end_hour := True\<rparr>)),
      hour_field ''net_start_hour'' (net_hour set_start (\<lambda>m. m\<lparr>gm_net_start_hour := True\<rparr>)),
      hour_field ''net_end_hour'' (net_hour set_end (\<lambda>m. m\<lparr>gm_net_end_hour := True\<rparr>)),
      day_field,
      bool_field ''leave_apps_in_memory'' (\<lambda>v. both (\<lambda>g. g\<lparr>gp_leave_apps_in_memory := v\<rparr>) (\<lambda>m. m\<lparr>gm_leave_apps_in_memory := True\<rparr>)),
      bool_field ''confirm_before_connecting''
        (\<lambda>v. both (\<lambda>g. g\<lparr>gp_confirm_before_connecting := v\<rparr>) (\<lambda>m. m\<lparr>gm_confirm_before_connecting := True\<rparr>)),
      bool_field ''hangup_if_dialed'' (\<lambda>v. both (\<lambda>g. g\<lparr>gp_hangup_if_dialed := v\<rparr>) (\<lambda>m. m\<lparr>gm_hangup_if_dialed := True\<rparr>)),
      bool_field ''dont_verify_images'' (\<lambda>v. both (\<lambda>g. g\<lparr>gp_dont_verify_images := v\<rparr>) (\<lambda>m. m\<lparr>gm_dont_verify_images := True\<rparr>)),
      double_field ''work_buf_min_days''
        (\<lambda>v. both (\<lambda>g. g\<lparr>gp_work_buf_min_days := (if v < 1/100000 then 1/100000 else v)\<rparr>) (\<lambda>m. m\<lparr>gm_work_buf_min_days := True\<rparr>)),
      double_field ''work_buf_additional_days''
        (\<lambda>v. both (\<lambda>g. g\<lparr>gp_work_buf_additional_days := (if v < 0 then 0 else v)\<rparr>) (\<lambda>m. m\<lparr>gm_work_buf_additional_days := True\<rparr>)),
      int_field ''max_cpus'' (\<lambda>v. both (\<lambda>g. g\<lparr>gp_max_cpus := (if v < 1 then 1 else v)\<rparr>) (\<lambda>m. m\<lparr>gm_max_cpus := True\<rparr>)),
      double_field ''max_ncpus_pct''
        (\<lambda>v. both (\<lambda>g. g\<lparr>gp_max_ncpus_pct := (let v1 = (if v < 0 then 0 else v) in if v1 > 100 then 100 else v1)\<rparr>)
               (\<lambda>m. m\<lparr>gm_max_ncpus_pct := True\<rparr>)),
      double_field ''disk_interval'' (\<lambda>v. both (\<lambda>g. g\<lparr>gp_disk_interval := (if v < 0 then 0 else v)\<rparr>) (\<lambda>m. m\<lparr>gm_disk_interval := True\<rparr>)),
      double_field ''cpu_scheduling_period_minutes''
        (\<lambda>v. both (\<lambda>g. g\<lparr>gp_cpu_scheduling_period_minutes := (if v < 1/10000 then 60 else v)\<rparr>)
               (\<lambda>m. m\<lparr>gm_cpu_scheduling_period_minutes := True\<rparr>)),
      double_field ''disk_max_used_gb'' (\<lambda>v. both (\<lambda>g. g\<lparr>gp_disk_max_used_gb := v\<rparr>) (\<lambda>m. m\<lparr>gm_disk_max_used_gb := True\<rparr>)),
      double_field ''disk_max_used_pct'' (\<lambda>v. both (\<lambda>g. g\<lparr>gp_disk_max_used_pct := v\<rparr>) (\<lambda>m. m\<lparr>gm_disk_max_used_pct := True\<rparr>)),
      double_field ''disk_min_free_gb'' (\<lambda>v. both (\<lambda>g. g\<lparr>gp_disk_min_free_gb := v\<rparr>) (\<lambda>m. m\<lparr>gm_disk_min_free_gb := True\<rparr>)),
      double_field ''vm_max_used_pct'' (\<lambda>v. both (\<lambda>g. g\<lparr>gp_vm_max_used_frac := v / 100\<rparr>) (\<lambda>m. m\<lparr>gm_vm_max_used_frac := True\<rparr>)),
      double_field ''ram_max_used_busy_pct''
        (\<lambda>v. both (\<lambda>g. g\<lparr>gp_ram_max_used_busy_frac := (if v = 0 then 100 else v) / 100\<rparr>) (\<lambda>m. m\<lparr>gm_ram_max_used_busy_frac := True\<rparr>)),
      double_field ''ram_max_used_idle_pct''
        (\<lambda>v. both (\<lambda>g. g\<lparr>gp_ram_max_used_idle_frac := (if v = 0 then 100 else v) / 100\<rparr>) (\<lambda>m. m\<lparr>gm_ram_max_used_idle_frac := True\<rparr>)),
      double_field ''max_bytes_sec_up'' (\<lambda>v. both (\<lambda>g. g\<lparr>gp_max_bytes_sec_up := (if v < 0 then 0 else v)\<rparr>) (\<lambda>m. m\<lparr>gm_max_bytes_sec_up := True\<rparr>)),
      double_field ''max_bytes_sec_down'' (\<lambda>v. both (\<lambda>g. g\<lparr>gp_max_bytes_sec_down := (if v < 0 then 0 else v)\<rparr>) (\<lambda>m. m\<lparr>gm_max_bytes_sec_down := True\<rparr>)),
      double_field ''cpu_usage_limit'' (\<lambda>v x. if v > 0 \<and> v \<le> 100
         then both (\<lambda>g. g\<lparr>gp_cpu_usage_limit := v\<rparr>) (\<lambda>m. m\<lparr>gm_cpu_usage_limit := True\<rparr>) x else x),
      bool_field ''host_specific'' (\<lambda>v. both (\<lambda>g. g\<lparr>gp_host_specific := v\<rparr>) id)]"

lemma consumes_override: "consumes (first_field (override_fields dtime))"
proof -
  have "consumes day_field"
    unfolding consumes_def day_field_def by (auto simp: xml_then_Inr dest!: parse_day_le split: if_splits)
  then show ?thesis by (intro consumes_first) (simp add: override_fields_def)
qed

text \<open>The loop of \<open>parse_override\<close>: the return value, \<open>found_venue\<close>, preferences and mask, and the rest of the text.\<close>

record VENUE_STATE =
  in_venue :: bool
  in_correct_venue :: bool
  found_venue :: bool

definition enter_venue :: "prefs_mask \<Rightarrow> prefs_mask" where
  "enter_venue x = ((clear_bools (GLOBAL_PREFS_defaults (fst x)))\<lparr>gp_max_ncpus_pct := 0\<rparr>, mask_clear)"

function override_loop :: "real \<Rightarrow> string \<Rightarrow> VENUE_STATE \<Rightarrow> prefs_mask \<Rightarrow> string \<Rightarrow> (int \<times> bool \<times> prefs_mask \<times> string) xml" where
  "override_loop dtime host_venue v x inp = xml_then (get 256 (Some 256) inp) (\<lambda>tok.
     case tok of
       None \<Rightarrow> Inr (ERR_XML_PARSE, found_venue v, x, [])
     | Some (tag, is_tag, attrs, rest) \<Rightarrow>
         if \<not> is_tag then override_loop dtime host_venue v x rest
         else if tag = ''global_preferences'' then override_loop dtime host_venue v x rest
         else if tag = ''/global_preferences'' then Inr (0, found_venue v, x, rest)
         else if in_venue v \<and> tag = ''/venue''
         then if in_correct_venue v then Inr (0, found_venue v, x, rest)
              else override_loop dtime host_venue (v\<lparr>in_venue := False\<rparr>) x rest
         else if in_venue v \<and> \<not> in_correct_venue v then override_loop dtime host_venue v x rest
         else if \<not> in_venue v \<and> match_tag tag ''venue''
         then if parse_attr attrs ''name'' 256 = host_venue
              then override_loop dtime host_venue (v\<lparr>in_venue := True, in_correct_venue := True, found_venue := True\<rparr>) (enter_venue x) rest
              else override_loop dtime host_venue (v\<lparr>in_venue := True, in_correct_venue := False\<rparr>) x rest
         else xml_then (first_field (override_fields dtime) tag x rest) (\<lambda>(found, x1, rest1).
           if found then override_loop dtime host_venue v x1 rest1
           else xml_then (skip_unexpected tag rest1) (\<lambda>rest2. override_loop dtime host_venue v x1 rest2)))"
  by pat_completeness auto
termination
  by (relation "measure (\<lambda>(dtime, host_venue, v, x, inp). length inp)")
    (auto dest!: get_shorter consumesD [OF consumes_override] skip_unexpected_le)

declare override_loop.simps [simp del]

definition parse_override :: "real \<Rightarrow> string \<Rightarrow> GLOBAL_PREFS \<Rightarrow> string \<Rightarrow> (int \<times> bool \<times> prefs_mask \<times> string) xml" where
  "parse_override dtime host_venue g inp =
     override_loop dtime host_venue \<lparr>in_venue = False, in_correct_venue = False, found_venue = False\<rparr>
       (g\<lparr>gp_max_ncpus_pct := 0\<rparr>, mask_clear) inp"

definition GLOBAL_PREFS_parse :: "real \<Rightarrow> string \<Rightarrow> GLOBAL_PREFS \<Rightarrow> string \<Rightarrow> (int \<times> bool \<times> prefs_mask \<times> string) xml" where
  "GLOBAL_PREFS_parse dtime host_venue g inp = parse_override dtime host_venue (clear_bools (GLOBAL_PREFS_init g)) inp"

text \<open>\<open>None\<close>: the file cannot be opened.\<close>

definition parse_file :: "real \<Rightarrow> string option \<Rightarrow> string \<Rightarrow> GLOBAL_PREFS \<Rightarrow> (int \<times> GLOBAL_PREFS) xml" where
  "parse_file dtime file host_venue g =
     (case file of
        None \<Rightarrow> Inr (ERR_FOPEN, g)
      | Some inp \<Rightarrow> xml_then (GLOBAL_PREFS_parse dtime host_venue g inp) (\<lambda>(retval, _, x, _). Inr (retval, fst x)))"

section \<open>Writing preferences\<close>

text \<open>
  An output stream has a precision. \<open>XmlTag\<close> prints in fixed notation and restores the flags of the
  stream afterwards; the precision is not among the flags.
\<close>

record OSTREAM =
  os_text :: string
  os_precision :: nat

definition emit :: "string \<Rightarrow> OSTREAM \<Rightarrow> OSTREAM" where
  "emit t os = os\<lparr>os_text := os_text os @ t\<rparr>"

definition tag_double :: "string \<Rightarrow> real \<Rightarrow> OSTREAM \<Rightarrow> OSTREAM" where
  "tag_double name v os = emit (write_tag name (show_fixed (os_precision os) v)) os"

definition tag_int :: "string \<Rightarrow> int \<Rightarrow> OSTREAM \<Rightarrow> OSTREAM" where
  "tag_int name v os = emit (write_tag name (string_of_int v)) os"

definition tag_bool :: "string \<Rightarrow> bool \<Rightarrow> OSTREAM \<Rightarrow> OSTREAM" where
  "tag_bool name v os = tag_int name (if v then 1 else 0) os"

definition tag_str :: "string \<Rightarrow> string \<Rightarrow> OSTREAM \<Rightarrow> OSTREAM" where
  "tag_str name v os = emit (write_tag name v) os"

definition put_if :: "bool \<Rightarrow> (OSTREAM \<Rightarrow> OSTREAM) \<Rightarrow> OSTREAM \<Rightarrow> OSTREAM" where
  "put_if b f os = (if b then f os else os)"

definition tag_flag :: "string \<Rightarrow> bool \<Rightarrow> OSTREAM \<Rightarrow> OSTREAM" where
  "tag_flag name b os = put_if b (emit (''<'' @ name @ ''/>'' @ NL)) os"

definition set_precision :: "nat \<Rightarrow> OSTREAM \<Rightarrow> OSTREAM" where
  "set_precision n os = os\<lparr>os_precision := n\<rparr>"

definition hours :: "int \<Rightarrow> real" where
  "hours t = of_int t / 3600"

definition write_span :: "string \<Rightarrow> string \<Rightarrow> TIME_SPAN option \<Rightarrow> OSTREAM \<Rightarrow> OSTREAM" where
  "write_span start_name end_name t os =
     (case t of
        None \<Rightarrow> os
      | Some u \<Rightarrow> tag_double end_name (hours (m_end u)) (tag_double start_name (hours (m_start u)) (set_precision 2 os)))"

definition write_day :: "GLOBAL_PREFS \<Rightarrow> nat \<Rightarrow> OSTREAM \<Rightarrow> OSTREAM" where
  "write_day g i os =
     (let cpu = week_get (tp_week (gp_cpu_times g)) (int i); net = week_get (tp_week (gp_net_times g)) (int i) in
      if net \<noteq> None \<or> cpu \<noteq> None
      then emit (''</day_prefs>'' @ NL) (write_span ''net_start_hour'' ''net_end_hour'' net
             (write_span ''start_hour'' ''end_hour'' cpu (tag_int ''day_of_week'' (int i) (emit (''<day_prefs>'' @ NL) os))))
      else os)"

definition write_day_prefs :: "GLOBAL_PREFS \<Rightarrow> OSTREAM \<Rightarrow> OSTREAM" where
  "write_day_prefs g os = fold (write_day g) [0..<7] os"

definition GLOBAL_PREFS_write :: "GLOBAL_PREFS \<Rightarrow> OSTREAM \<Rightarrow> OSTREAM" where
  "GLOBAL_PREFS_write g os = emit (''</global_preferences>'' @ NL) (write_day_prefs g (fold (\<lambda>f. f)
     [emit (''<global_preferences>'' @ NL),
      tag_str ''source_project'' (gp_source_project g),
      tag_double ''mod_time'' (gp_mod_time g),
      tag_flag ''run_on_batteries'' (gp_run_on_batteries g),
      tag_flag ''run_if_user_active'' (gp_run_if_user_active g),
      tag_double ''suspend_if_no_recent_input'' (gp_suspend_if_no_recent_input g),
      tag_double ''start_hour'' (hours (m_start (tp_span (gp_cpu_times g)))),
      tag_double ''end_hour'' (hours (m_end (tp_span (gp_cpu_times g)))),
      tag_double ''net_start_hour'' (hours (m_start (tp_span (gp_net_times g)))),
      tag_double ''net_end_hour'' (hours (m_end (tp_span (gp_net_times g)))),
      tag_flag ''leave_apps_in_memory'' (gp_leave_apps_in_memory g),
      tag_flag ''confirm_before_connecting'' (gp_confirm_before_connecting g),
      tag_flag ''hangup_if_dialed'' (gp_hangup_if_dialed g),
      tag_flag ''dont_verify_images'' (gp_dont_verify_images g),
      tag_double ''work_buf_min_days'' (gp_work_buf_min_days g),
      tag_double ''work_buf_additional_days'' (gp_work_buf_additional_days g),
      tag_int ''max_cpus'' (gp_max_cpus g),
      tag_double ''max_ncpus_pct'' (gp_max_ncpus_pct g),
      tag_double ''cpu_scheduling_period_minutes'' (gp_cpu_scheduling_period_minutes g),
      tag_double ''disk_interval'' (gp_disk_interval g),
      tag_double ''disk_max_used_gb'' (gp_disk_max_used_gb g),
      tag_double ''disk_max_used_pct'' (gp_disk_max_used_pct g),
      tag_double ''disk_min_free_gb'' (gp_disk_min_free_gb g),
      tag_double ''vm_max_used_pct'' (gp_vm_max_used_frac g * 100),
      tag_double ''ram_max_used_busy_pct'' (gp_ram_max_used_busy_frac g * 100),
      tag_double ''ram_max_used_idle_pct'' (gp_ram_max_used_idle_frac g * 100),
      tag_double ''idle_time_to_run'' (gp_idle_time_to_run g),
      tag_double ''max_bytes_sec_up'' (gp_max_bytes_sec_up g),
      tag_double ''max_bytes_sec_down'' (gp_max_bytes_sec_down g),
      tag_double ''cpu_usage_limit'' (gp_cpu_usage_limit g)] os))"

definition write_subset :: "GLOBAL_PREFS \<Rightarrow> GLOBAL_PREFS_MASK \<Rightarrow> OSTREAM \<Rightarrow> OSTREAM" where
  "write_subset g m os =
     (if \<not> are_prefs_set m then os
      else emit (''</global_preferences>'' @ NL) (write_day_prefs g (fold (\<lambda>f. f)
        [emit (''<global_preferences>'' @ NL),
         put_if (gm_run_on_batteries m) (tag_bool ''run_on_batteries'' (gp_run_on_batteries g)),
         put_if (gm_run_if_user_active m) (tag_bool ''run_if_user_active'' (gp_run_if_user_active g)),
         put_if (gm_idle_time_to_run m) (tag_double ''idle_time_to_run'' (gp_idle_time_to_run g)),
         put_if (gm_suspend_if_no_recent_input m) (tag_double ''suspend_if_no_recent_input'' (gp_suspend_if_no_recent_input g)),
         put_if (gm_start_hour m) (tag_double ''start_hour'' (hours (m_start (tp_span (gp_cpu_times g))))),
         put_if (gm_end_hour m) (tag_double ''end_hour'' (hours (m_end (tp_span (gp_cpu_times g))))),
         put_if (gm_net_start_hour m) (tag_double ''net_start_hour'' (hours (m_start (tp_span (gp_net_times g))))),
         put_if (gm_net_end_hour m) (tag_double ''net_end_hour'' (hours (m_end (tp_span (gp_net_times g))))),
         put_if (gm_leave_apps_in_memory m) (tag_bool ''leave_apps_in_memory'' (gp_leave_apps_in_memory g)),
         put_if (gm_confirm_before_connecting m) (tag_bool ''confirm_before_connecting'' (gp_confirm_before_connecting g)),
         put_if (gm_hangup_if_dialed m) (tag_bool ''hangup_if_dialed'' (gp_hangup_if_dialed g)),
         put_if (gm_dont_verify_images m) (tag_bool ''dont_verify_images'' (gp_dont_verify_images g)),
         put_if (gm_work_buf_min_days m) (tag_double ''work_buf_min_days'' (gp_work_buf_min_days g)),
         put_if (gm_work_buf_additional_days m) (tag_double ''work_buf_additional_days'' (gp_work_buf_additional_days g)),
         put_if (gm_max_cpus m) (tag_int ''max_cpus'' (gp_max_cpus g)),
         put_if (gm_max_ncpus_pct m) (tag_double ''max_ncpus_pct'' (gp_max_ncpus_pct g)),
         put_if (gm_cpu_scheduling_period_minutes m)
           (tag_double ''cpu_scheduling_period_minutes'' (gp_cpu_scheduling_period_minutes g)),
         put_if (gm_disk_interval m) (tag_double ''disk_interval'' (gp_disk_interval g)),
         put_if (gm_disk_max_used_gb m) (tag_double ''disk_max_used_gb'' (gp_disk_max_used_gb g)),
         put_if (gm_disk_max_used_pct m) (tag_double ''disk_max_used_pct'' (gp_disk_max_used_pct g)),
         put_if (gm_disk_min_free_gb m) (tag_double ''disk_min_free_gb'' (gp_disk_min_free_gb g)),
         put_if (gm_vm_max_used_frac m) (tag_double ''vm_max_used_pct'' (gp_vm_max_used_frac g * 100)),
         put_if (gm_ram_max_used_busy_frac m) (tag_double ''ram_max_used_busy_pct'' (gp_ram_max_used_busy_frac g * 100)),
         put_if (gm_ram_max_used_idle_frac m) (tag_double ''ram_max_used_idle_pct'' (gp_ram_max_used_idle_frac g * 100)),
         put_if (gm_max_bytes_sec_up m) (tag_double ''max_bytes_sec_up'' (gp_max_bytes_sec_up g)),
         put_if (gm_max_bytes_sec_down m) (tag_double ''max_bytes_sec_down'' (gp_max_bytes_sec_down g)),
         put_if (gm_cpu_usage_limit m) (tag_double ''cpu_usage_limit'' (gp_cpu_usage_limit g))] os)))"

end
