(* ===== verification/Account_File.thy ===== *)
theory Account_File
  imports State_Links Url_Text Enforce_Schedule Prefs
begin

text \<open>
  Account files, preferences and user files (\<open>client/cs_account.C\<close>, \<open>client/cs_prefs.C\<close>,
  \<open>lib/prefs.C\<close>). A file is the list of its elements, as \<open>parse_str\<close>, \<open>parse_double\<close>,
  \<open>match_tag\<close> and \<open>copy_element_contents\<close> recognise them; \<open>None\<close> is a file that cannot be opened.
\<close>

section \<open>The account file\<close>

text \<open>
  The flag of an element with contents says whether its closing tag was found; otherwise its
  contents are the rest of the file, a closing tag of the account included, and
  \<open>copy_element_contents\<close> fails.
\<close>

datatype account_element =
    A_Master_Url string | A_Authenticator string | A_Resource_Share real | A_Project_Name string
  | A_Gui_Urls bool string | A_Project_Specific bool string | A_Venue string | A_Venue_End
  | A_Close | A_Other

definition in_gui_urls :: "string \<Rightarrow> string" where
  "in_gui_urls str = ''<gui_urls>'' @ NL @ str @ ''</gui_urls>'' @ NL"

text \<open>\<open>copy_element_contents(in, "</venue>", devnull)\<close>.\<close>

definition skip_venue :: "account_element list \<Rightarrow> account_element list option" where
  "skip_venue es = (case dropWhile (\<lambda>e. e \<noteq> A_Venue_End) es of [] \<Rightarrow> None | _ # rest \<Rightarrow> Some rest)"

lemma skip_venue_shorter: "skip_venue es = Some rest \<Longrightarrow> length rest < length es"
  using length_dropWhile_le [of "\<lambda>e. e \<noteq> A_Venue_End" es] by (auto simp: skip_venue_def split: list.splits)

text \<open>The loop of \<open>parse_account\<close>; a text fault is a master URL that cannot be canonicalized.\<close>

function parse_account_loop :: "account_element list \<Rightarrow> PROJECT \<Rightarrow> text_error + int \<times> PROJECT" where
  "parse_account_loop [] x = Inr (ERR_XML_PARSE, x)"
| "parse_account_loop (e # es) x =
     (case e of
        A_Close \<Rightarrow> Inr (0, x)
      | A_Venue name \<Rightarrow>
          (case skip_venue es of None \<Rightarrow> Inr (ERR_XML_PARSE, x) | Some rest \<Rightarrow> parse_account_loop rest x)
      | A_Master_Url url \<Rightarrow>
          (case canonicalize_master_url url of
             Inl err \<Rightarrow> Inl err | Inr u \<Rightarrow> parse_account_loop es (x\<lparr>p_master_url := u\<rparr>))
      | A_Authenticator a \<Rightarrow> parse_account_loop es (x\<lparr>p_authenticator := a\<rparr>)
      | A_Resource_Share r \<Rightarrow> parse_account_loop es (x\<lparr>p_resource_share := r\<rparr>)
      | A_Project_Name n \<Rightarrow> parse_account_loop es (x\<lparr>p_project_name := n\<rparr>)
      | A_Gui_Urls ended str \<Rightarrow>
          if \<not> ended then Inr (ERR_XML_PARSE, x)
          else parse_account_loop es (x\<lparr>p_gui_urls := in_gui_urls str\<rparr>)
      | A_Project_Specific ended str \<Rightarrow>
          let y = x\<lparr>p_project_specific_prefs := str\<rparr> in
          if \<not> ended then Inr (ERR_XML_PARSE, y) else parse_account_loop es y
      | A_Venue_End \<Rightarrow> parse_account_loop es x
      | A_Other \<Rightarrow> parse_account_loop es x)"
  by pat_completeness auto
termination
  by (relation "measure (\<lambda>(es, x). length es)") (auto dest: skip_venue_shorter)

definition parse_account :: "account_element list \<Rightarrow> PROJECT \<Rightarrow> text_error + int \<times> PROJECT" where
  "parse_account es x = parse_account_loop es (x\<lparr>p_master_url := [], p_authenticator := []\<rparr>)"

definition parse_account_file :: "account_element list option \<Rightarrow> PROJECT \<Rightarrow> text_error + int \<times> PROJECT" where
  "parse_account_file file x = (case file of None \<Rightarrow> Inr (ERR_FOPEN, x) | Some es \<Rightarrow> parse_account es x)"

text \<open>\<open>parse_account_file_venue\<close>: only the elements inside the venue of this host count.\<close>

function parse_venue_loop :: "bool \<Rightarrow> account_element list \<Rightarrow> PROJECT \<Rightarrow> int \<times> PROJECT" where
  "parse_venue_loop in_right_venue [] x = (ERR_XML_PARSE, x)"
| "parse_venue_loop in_right_venue (e # es) x =
     (case e of
        A_Close \<Rightarrow> (0, x)
      | A_Venue name \<Rightarrow>
          if name = p_host_venue x then parse_venue_loop True es (x\<lparr>p_using_venue_specific_prefs := True\<rparr>)
          else (case skip_venue es of
                  None \<Rightarrow> (ERR_XML_PARSE, x) | Some rest \<Rightarrow> parse_venue_loop in_right_venue rest x)
      | A_Venue_End \<Rightarrow> parse_venue_loop False es x
      | A_Project_Specific ended str \<Rightarrow>
          if \<not> in_right_venue then parse_venue_loop in_right_venue es x
          else let y = x\<lparr>p_project_specific_prefs := str\<rparr> in
            if \<not> ended then (ERR_XML_PARSE, y) else parse_venue_loop in_right_venue es y
      | A_Resource_Share r \<Rightarrow>
          if \<not> in_right_venue then parse_venue_loop in_right_venue es x
          else parse_venue_loop in_right_venue es (x\<lparr>p_resource_share := r\<rparr>)
      | _ \<Rightarrow> parse_venue_loop in_right_venue es x)"
  by pat_completeness auto
termination
  by (relation "measure (\<lambda>(b, es, x). length es)") (auto dest: skip_venue_shorter)

definition parse_account_file_venue :: "account_element list option \<Rightarrow> PROJECT \<Rightarrow> int \<times> PROJECT" where
  "parse_account_file_venue file x =
     (case file of None \<Rightarrow> (ERR_FOPEN, x) | Some es \<Rightarrow> parse_venue_loop False es x)"

section \<open>User files\<close>

text \<open>
  \<open>parse_preferences_for_user_files\<close>: the text of one \<open>app_file\<close> element gives a time stamp, a name
  and a URL; the loop stops at the first element that has not all three.
\<close>

definition parse_elem :: "string \<Rightarrow> string \<Rightarrow> string option" where
  "parse_elem buf tag = (case parse_str buf tag 1024 of Some (Some str) \<Rightarrow> Some str | _ \<Rightarrow> None)"

definition app_file :: "string \<Rightarrow> (string \<times> string \<times> string) option" where
  "app_file xml =
     (case (parse_elem xml ''<timestamp>'', parse_elem xml ''<open_name>'', parse_elem xml ''<url>'') of
        (Some timestamp, Some open_name, Some url) \<Rightarrow> Some (open_name @ ''_'' @ timestamp, open_name, url)
      | _ \<Rightarrow> None)"

function app_files :: "string \<Rightarrow> (string \<times> string \<times> string) list" where
  "app_files prefs =
     (case strstr_from ''<app_file>'' prefs of
        None \<Rightarrow> []
      | Some begins \<Rightarrow>
          (case strstr_from ''</app_file>'' begins of
             None \<Rightarrow> []
           | Some fin \<Rightarrow>
               (case app_file (take (length begins - length fin) begins) of
                  None \<Rightarrow> []
                | Some x \<Rightarrow> x # app_files (drop 11 fin))))"
  by pat_completeness auto
termination
proof (relation "measure length", goal_cases)
  case (2 prefs begins fin x)
  have "fin \<noteq> []" using 2(2) strstr_from_not_empty [of "''</app_file>''"] by simp
  moreover have "length fin \<le> length prefs"
    using strstr_from_shorter [OF 2(1)] strstr_from_shorter [OF 2(2)] by simp
  ultimately show ?case by (cases fin) auto
qed simp

declare app_files.simps [simp del]

text \<open>The constructor of \<open>FILE_INFO\<close>; what it leaves out is set before it is used.\<close>

definition FILE_INFO_new :: FILE_INFO where
  "FILE_INFO_new = \<lparr>fi_name = [], fi_md5_cksum = [], fi_max_nbytes = 0, fi_nbytes = 0, fi_upload_offset = -1,
     fi_generated_locally = False, fi_status = FILE_NOT_PRESENT, fi_executable = False, fi_uploaded = False,
     fi_upload_when_present = False, fi_sticky = False, fi_report_on_rpc = False, fi_marked_for_delete = False,
     fi_signature_required = False, fi_is_user_file = False, fi_is_project_file = False,
     fi_gzip_when_done = False, fi_pers_file_xfer = None, fi_project = 0, fi_urls = [], fi_start_url = -1,
     fi_current_url = -1, fi_signed_xml = [], fi_xml_signature = [], fi_file_signature = [],
     fi_error_msg = [], fi_ref_cnt = 0\<rparr>"

definition add_user_file :: "pid \<Rightarrow> string \<times> string \<times> string \<Rightarrow> CLIENT_STATE \<Rightarrow> CLIENT_STATE" where
  "add_user_file p x s =
     (case x of (filename, open_name, url) \<Rightarrow>
        case (case lookup_file_info s p filename of
                Some f \<Rightarrow> (f, s)
              | None \<Rightarrow> (fresh_in (file_infos s),
                  add_file_info (FILE_INFO_new\<lparr>fi_project := p, fi_urls := [url], fi_name := filename, fi_is_user_file := True\<rparr>) s)) of
          (f, s1) \<Rightarrow> upd_proj p (\<lambda>y. y\<lparr>p_user_files := p_user_files y @
            [\<lparr>fr_file_name = [], fr_open_name = open_name, fr_main_program = False, fr_file_info = f,
              fr_copy_file = False, fr_optional = False\<rparr>]\<rparr>) s1)"

definition parse_preferences_for_user_files :: "pid \<Rightarrow> CLIENT_STATE \<Rightarrow> CLIENT_STATE" where
  "parse_preferences_for_user_files p s =
     fold (add_user_file p) (app_files (p_project_specific_prefs (proj s p)))
       (upd_proj p (\<lambda>y. y\<lparr>p_user_files := []\<rparr>) s)"

section \<open>Global preferences\<close>

definition global_prefs_source_project :: "CLIENT_STATE \<Rightarrow> pid option" where
  "global_prefs_source_project s = lookup_project s (gp_source_project (global_prefs s))"

text \<open>
  The texts of \<open>global_prefs.xml\<close> and of the override file, \<open>None\<close> when the file cannot be opened, and the
  time of day. An exception of the parser ends the client.
\<close>

record PREFS_FILES =
  pr_prefs :: "string option"
  pr_override :: "string option"
  pr_time :: real

definition override_venue :: "PREFS_FILES \<Rightarrow> CLIENT_STATE \<Rightarrow> CLIENT_STATE xml" where
  "override_venue fs s =
     (case pr_override fs of
        None \<Rightarrow> Inr s
      | Some foo \<Rightarrow>
          (case parse_str foo ''<host_venue>'' 256 of
             None \<Rightarrow> Inl Null_Pointer
           | Some None \<Rightarrow> Inr s
           | Some (Some v) \<Rightarrow> Inr (s\<lparr>main_host_venue := v\<rparr>)))"

definition read_prefs_file :: "PREFS_FILES \<Rightarrow> CLIENT_STATE \<Rightarrow> CLIENT_STATE xml" where
  "read_prefs_file fs s =
     xml_then (parse_file (pr_time fs) (pr_prefs fs) (main_host_venue s) (global_prefs s)) (\<lambda>(retval, g).
        if retval \<noteq> 0
        then if retval = ERR_FOPEN then Inr s else Inr (s\<lparr>global_prefs := GLOBAL_PREFS_init g\<rparr>)
        else let s1 = s\<lparr>global_prefs := g\<rparr> in
          case global_prefs_source_project s1 of
            None \<Rightarrow> Inr s1
          | Some p \<Rightarrow>
              if main_host_venue s1 = p_host_venue (proj s1 p) then Inr s1
              else let s2 = s1\<lparr>main_host_venue := p_host_venue (proj s1 p)\<rparr>
                   in xml_then (parse_file (pr_time fs) (pr_prefs fs) (main_host_venue s2) (global_prefs s2))
                        (\<lambda>(_, g1). Inr (s2\<lparr>global_prefs := g1\<rparr>)))"

definition read_override_file :: "PREFS_FILES \<Rightarrow> CLIENT_STATE \<Rightarrow> CLIENT_STATE xml" where
  "read_override_file fs s =
     (case pr_override fs of
        None \<Rightarrow> Inr s
      | Some foo \<Rightarrow> xml_then (parse_override (pr_time fs) [] (global_prefs s) foo)
          (\<lambda>(_, _, x, _). Inr (s\<lparr>global_prefs := fst x\<rparr>)))"

text \<open>What follows a change of preferences.\<close>

definition prefs_changed :: "CLIENT_STATE \<Rightarrow> CLIENT_STATE" where
  "prefs_changed s = request_work_fetch (request_schedule_cpus
     (set_bandwidth_limits False (set_bandwidth_limits True (set_ncpus s))))"

definition read_global_prefs :: "PREFS_FILES \<Rightarrow> CLIENT_STATE \<Rightarrow> CLIENT_STATE xml" where
  "read_global_prefs fs s =
     xml_then (override_venue fs s) (\<lambda>s1. xml_then (read_prefs_file fs s1) (\<lambda>s2. xml_then (read_override_file fs s2) (\<lambda>s3.
       Inr (prefs_changed s3))))"

lemma venue_prefs_comm: "s\<lparr>main_host_venue := v, global_prefs := g\<rparr> = s\<lparr>global_prefs := g, main_host_venue := v\<rparr>"
  for s :: CLIENT_STATE
  by (cases s) simp

lemma read_prefs_file_result:
  assumes "read_prefs_file fs s = Inr t"
  obtains g v where "t = s\<lparr>global_prefs := g, main_host_venue := v\<rparr>"
proof -
  obtain retval g where p: "parse_file (pr_time fs) (pr_prefs fs) (main_host_venue s) (global_prefs s) = Inr (retval, g)"
    using assms by (auto simp: read_prefs_file_def xml_then_Inr)
  note t = assms [unfolded read_prefs_file_def p xml_then_simps prod.case Let_def]
  show thesis
  proof (cases "retval \<noteq> 0")
    case bad: True
    show thesis
    proof (cases "retval = ERR_FOPEN")
      case True
      then have "t = s" using t bad by simp
      then have "t = s\<lparr>global_prefs := global_prefs s, main_host_venue := main_host_venue s\<rparr>" by simp
      then show thesis by (rule that)
    next
      case False
      then have "t = s\<lparr>global_prefs := GLOBAL_PREFS_init g\<rparr>" using t bad by simp
      then have "t = s\<lparr>global_prefs := GLOBAL_PREFS_init g, main_host_venue := main_host_venue s\<rparr>" by simp
      then show thesis by (rule that)
    qed
  next
    case False
    show thesis
    proof (cases "global_prefs_source_project (s\<lparr>global_prefs := g\<rparr>)")
      case None
      then have "t = s\<lparr>global_prefs := g\<rparr>" using t False by simp
      then have "t = s\<lparr>global_prefs := g, main_host_venue := main_host_venue s\<rparr>" by simp
      then show thesis by (rule that)
    next
      case (Some p)
      show thesis
      proof (cases "main_host_venue s = p_host_venue (proj s p)")
        case True
        then have "t = s\<lparr>global_prefs := g\<rparr>" using t False Some by simp
        then have "t = s\<lparr>global_prefs := g, main_host_venue := main_host_venue s\<rparr>" by simp
        then show thesis by (rule that)
      next
        case other: False
        then obtain g1 where "t = s\<lparr>global_prefs := g1, main_host_venue := p_host_venue (proj s p)\<rparr>"
          using t [unfolded Some option.case] False by (clarsimp simp: xml_then_Inr venue_prefs_comm)
        then show thesis by (rule that)
      qed
    qed
  qed
qed

lemma read_global_prefs_result:
  assumes "read_global_prefs fs s = Inr t"
  obtains g v where "t = prefs_changed (s\<lparr>global_prefs := g, main_host_venue := v\<rparr>)"
proof -
  obtain s1 s2 s3 where s: "override_venue fs s = Inr s1" "read_prefs_file fs s1 = Inr s2" "read_override_file fs s2 = Inr s3"
    "t = prefs_changed s3" using assms by (auto simp: read_global_prefs_def xml_then_Inr)
  obtain v1 where v1: "s1 = s\<lparr>main_host_venue := v1\<rparr>"
    using s(1) by (cases s) (auto simp: override_venue_def split: option.splits)
  obtain g2 v2 where v2: "s2 = s1\<lparr>global_prefs := g2, main_host_venue := v2\<rparr>" using s(2) by (rule read_prefs_file_result)
  obtain g3 where v3: "s3 = s2\<lparr>global_prefs := g3\<rparr>"
    using s(3) by (cases s2) (auto simp: read_override_file_def xml_then_Inr split: option.splits)
  show thesis using that [of v2 g3] s(4) by (simp add: v1 v2 v3 venue_prefs_comm)
qed

end
