(* ===== verification/Sched_Op.thy ===== *)
theory Sched_Op
  imports Work_Fetch Url_Text
begin

text \<open>
  Contacting a project (\<open>client/scheduler_op.C\<close>, \<open>CLIENT_STATE::make_scheduler_request\<close> and
  \<open>scheduler_rpc_poll\<close> in \<open>client/cs_scheduler.C\<close>). One operation at a time is in progress: the
  download of a master file, which lists the project's schedulers, or an RPC to one of them. What libcurl
  and the file system answer is the record \<open>SCHED_NET\<close>; the handling of a reply is
  an argument of \<open>poll\<close>.
\<close>

record SCHED_NET =
  sn_request_file :: bool
  sn_request_size :: "real option"
  sn_get_host_info :: "HOST_INFO \<Rightarrow> HOST_INFO"
  sn_libcurl_exec :: "string \<Rightarrow> int"
  sn_master_file :: "pid \<Rightarrow> string list option"

definition upd_op :: "(SCHEDULER_OP \<Rightarrow> SCHEDULER_OP) \<Rightarrow> CLIENT_STATE \<Rightarrow> CLIENT_STATE" where
  "upd_op f s = s\<lparr>sched_op := f (sched_op s)\<rparr>"

section \<open>The request\<close>

text \<open>\<open>operator<\<close> of \<open>std::string\<close>.\<close>

fun string_less :: "string \<Rightarrow> string \<Rightarrow> bool" where
  "string_less xs [] = False"
| "string_less [] (y # ys) = True"
| "string_less (x # xs) (y # ys) = (code x < code y \<or> x = y \<and> string_less xs ys)"

text \<open>Of the projects with the same e-mail hash, the one with the oldest cross-project identifier.\<close>

definition cpid_consider :: "CLIENT_STATE \<Rightarrow> pid \<Rightarrow> pid \<Rightarrow> pid \<Rightarrow> pid" where
  "cpid_consider s p q winner =
     (if q = p then winner
      else if p_email_hash (proj s q) \<noteq> p_email_hash (proj s p) then winner
      else if p_cpid_time (proj s q) < p_cpid_time (proj s winner) then q
      else if p_cpid_time (proj s q) = p_cpid_time (proj s winner)
              \<and> string_less (p_master_url (proj s q)) (p_master_url (proj s winner)) then q
      else winner)"

definition cpid_winner :: "CLIENT_STATE \<Rightarrow> pid \<Rightarrow> pid" where
  "cpid_winner s p = fold (cpid_consider s p) (projects s) p"

text \<open>The elements of the request file that describe the client's state.\<close>

record SCHEDULER_REQUEST =
  rq_authenticator :: string
  rq_hostid :: int
  rq_rpc_seqno :: int
  rq_work_req_seconds :: real
  rq_resource_share_fraction :: real
  rq_rrs_fraction :: real
  rq_prrs_fraction :: real
  rq_estimated_delay :: real
  rq_duration_correction_factor :: real
  rq_sandbox :: bool
  rq_app_versions :: "avid list"
  rq_code_sign_key :: string
  rq_cross_project_id :: string
  rq_results :: "rid list"
  rq_file_infos :: "fid list"
  rq_other_results :: "rid list"
  rq_in_progress_results :: "(rid \<times> real) list"

definition share_fraction :: "real \<Rightarrow> real \<Rightarrow> real" where
  "share_fraction share tot = (if tot \<noteq> 0 then share / tot else 1)"

definition req_app_versions :: "CLIENT_STATE \<Rightarrow> pid \<Rightarrow> avid list" where
  "req_app_versions s p =
     (if p_anonymous_platform (proj s p) then filter (\<lambda>v. av_project (appver s v) = p) (app_versions s) else [])"

definition req_results :: "CLIENT_STATE \<Rightarrow> pid \<Rightarrow> rid list" where
  "req_results s p = filter (\<lambda>r. r_project (res s r) = p \<and> r_ready_to_report (res s r)) (results s)"

definition req_file_infos :: "CLIENT_STATE \<Rightarrow> pid \<Rightarrow> fid list" where
  "req_file_infos s p = filter (\<lambda>f. fi_project (finfo s f) = p \<and> fi_report_on_rpc (finfo s f)
                                  \<and> \<not> fi_marked_for_delete (finfo s f)) (file_infos s)"

definition req_other_results :: "CLIENT_STATE \<Rightarrow> pid \<Rightarrow> rid list" where
  "req_other_results s p = filter (\<lambda>r. r_project (res s r) = p \<and> \<not> r_ready_to_report (res s r)) (results s)"

definition req_in_progress :: "CLIENT_STATE \<Rightarrow> (rid \<times> real) list" where
  "req_in_progress s = filter (\<lambda>(r, t). t \<noteq> 0) (map (\<lambda>r. (r, estimated_cpu_time_remaining s r)) (results s))"

text \<open>
  Not represented: preferences, platforms, statistics, host information, disk usage and trickle
  messages, which the request copies from elsewhere.
\<close>

definition make_request :: "CLIENT_STATE \<Rightarrow> pid \<Rightarrow> SCHEDULER_REQUEST" where
  "make_request s p =
     (let x = proj s p; prrs = potentially_runnable_resource_share s in
      \<lparr>rq_authenticator = p_authenticator x, rq_hostid = p_hostid x, rq_rpc_seqno = p_rpc_seqno x,
       rq_work_req_seconds = p_work_request x,
       rq_resource_share_fraction = share_fraction (p_resource_share x) (total_resource_share s),
       rq_rrs_fraction = share_fraction (p_resource_share x) (runnable_resource_share s),
       rq_prrs_fraction = share_fraction (p_resource_share x) prrs,
       rq_estimated_delay = time_until_work_done s p (proj_min_results s p prrs - 1) prrs,
       rq_duration_correction_factor = calculate_avg_dcf s p,
       rq_sandbox = use_sandbox s,
       rq_app_versions = req_app_versions s p,
       rq_code_sign_key = p_code_sign_key x,
       rq_cross_project_id = p_cross_project_id (proj s (cpid_winner s p)),
       rq_results = req_results s p,
       rq_file_infos = req_file_infos s p,
       rq_other_results = req_other_results s p,
       rq_in_progress_results = req_in_progress s\<rparr>)"

text \<open>The shares are computed before the sequence number is reset; neither depends on the other.\<close>

definition make_scheduler_request ::
  "SCHED_NET \<Rightarrow> pid \<Rightarrow> CLIENT_STATE \<Rightarrow> int \<times> SCHEDULER_REQUEST option \<times> CLIENT_STATE" where
  "make_scheduler_request net p s =
     (if \<not> sn_request_file net then (ERR_FOPEN, None, s)
      else let
        s1 = (if p_hostid (proj s p) = 0 then upd_proj p (\<lambda>x. x\<lparr>p_rpc_seqno := 0\<rparr>) s else s);
        rq = make_request s1 p;
        s2 = s1\<lparr>host_info := sn_get_host_info net (host_info s1)\<rparr>
      in (0, Some rq, upd_proj p (\<lambda>x. x\<lparr>p_nresults_returned := int (length (rq_results rq))\<rparr>) s2))"

section \<open>Starting an operation\<close>

definition get_scheduler_url :: "CLIENT_STATE \<Rightarrow> pid \<Rightarrow> int \<Rightarrow> real \<Rightarrow> string" where
  "get_scheduler_url s p index r =
     (let n = int (length (p_scheduler_urls (proj s p)));
          ir = trunc_int (r * real_of_int n);
          i = (index + ir) mod n
      in p_scheduler_urls (proj s p) ! nat i)"

definition init_master_fetch :: "SCHED_NET \<Rightarrow> pid \<Rightarrow> CLIENT_STATE \<Rightarrow> int \<times> CLIENT_STATE" where
  "init_master_fetch net p s =
     (let retval = sn_libcurl_exec net (p_master_url (proj s p));
          s1 = upd_op (\<lambda>q. q\<lparr>so_http_op_state := HTTP_STATE_CONNECTING\<rparr>) s
      in if retval \<noteq> 0 then (retval, s1)
         else (0, upd_op (\<lambda>q. q\<lparr>so_cur_proj := Some p, so_state := SCHEDULER_OP_STATE_GET_MASTER\<rparr>) s1))"

definition check_master_fetch_start :: "SCHED_NET \<Rightarrow> CLIENT_STATE \<Rightarrow> bool \<times> CLIENT_STATE" where
  "check_master_fetch_start net s =
     (case next_project_master_pending s of
        None \<Rightarrow> (False, s)
      | Some p \<Rightarrow>
        (case init_master_fetch net p s of (retval, s1) \<Rightarrow>
         if retval \<noteq> 0
         then (False, backoff p (upd_proj p (\<lambda>x. x\<lparr>p_master_fetch_failures := p_master_fetch_failures x + 1\<rparr>) s1))
         else (True, s1)))"

text \<open>\<open>init_post\<close> with the request file: nothing is started when its size cannot be read.\<close>

definition op_init_post :: "SCHED_NET \<Rightarrow> string \<Rightarrow> CLIENT_STATE \<Rightarrow> int \<times> CLIENT_STATE" where
  "op_init_post net url s =
     (case sn_request_size net of
        None \<Rightarrow> (ERR_NOT_FOUND, s)
      | Some _ \<Rightarrow> (sn_libcurl_exec net url, upd_op (\<lambda>q. q\<lparr>so_http_op_state := HTTP_STATE_CONNECTING\<rparr>) s))"

definition start_rpc :: "SCHED_NET \<Rightarrow> pid \<Rightarrow> CLIENT_STATE \<Rightarrow> int \<times> CLIENT_STATE" where
  "start_rpc net p s =
     (let s1 = (if p_work_request (proj s p) > 0 \<and> p_work_request (proj s p) < 1
                then upd_proj p (\<lambda>x. x\<lparr>p_work_request := 1\<rparr>) s else s);
          url = get_scheduler_url s1 p (so_url_index (sched_op s1)) (so_url_random (sched_op s1));
          s2 = upd_op (\<lambda>q. q\<lparr>so_scheduler_url := take 255 url\<rparr>) s1
      in case op_init_post net (take 255 url) s2 of (retval, s3) \<Rightarrow>
         if retval \<noteq> 0 then (retval, backoff p s3)
         else (0, upd_op (\<lambda>q. q\<lparr>so_cur_proj := Some p, so_state := SCHEDULER_OP_STATE_RPC\<rparr>)
                    (upd_proj p (\<lambda>x. x\<lparr>p_rpc_seqno := p_rpc_seqno x + 1\<rparr>) s3)))"

abbreviation DEFAULT_FPOPS :: real where "DEFAULT_FPOPS \<equiv> 1000000000"
abbreviation DEFAULT_CACHE :: real where "DEFAULT_CACHE \<equiv> 1000000"

definition cpu_benchmarks_done :: "CLIENT_STATE \<Rightarrow> bool" where
  "cpu_benchmarks_done s = (hi_p_calculated (host_info s) \<noteq> 0)"

definition cpu_benchmarks_set_defaults :: "CLIENT_STATE \<Rightarrow> CLIENT_STATE" where
  "cpu_benchmarks_set_defaults s = s\<lparr>host_info := (let h = host_info s in
     h\<lparr>hi_p_fpops := (if hi_p_fpops h = 0 then DEFAULT_FPOPS else hi_p_fpops h),
       hi_p_iops := (if hi_p_iops h = 0 then DEFAULT_FPOPS else hi_p_iops h),
       hi_p_membw := (if hi_p_membw h = 0 then DEFAULT_FPOPS else hi_p_membw h),
       hi_m_cache := (if hi_m_cache h = 0 then DEFAULT_CACHE else hi_m_cache h)\<rparr>)\<rparr>"

definition init_op_project :: "SCHED_NET \<Rightarrow> pid \<Rightarrow> rpc_reason \<Rightarrow> CLIENT_STATE \<Rightarrow> int \<times> CLIENT_STATE" where
  "init_op_project net p r s =
     (let s1 = upd_op (\<lambda>q. q\<lparr>so_reason := r\<rparr>) s in
      if p_scheduler_urls (proj s1 p) = []
      then (case init_master_fetch net p s1 of (retval, s2) \<Rightarrow>
              (retval, if retval \<noteq> 0 then backoff p s2 else s2))
      else let
        s2 = (if r = RPC_REASON_INIT
              then let s' = upd_proj p (\<lambda>x. x\<lparr>p_work_request := 1\<rparr>) s1
                   in if \<not> cpu_benchmarks_done s' then cpu_benchmarks_set_defaults s' else s'
              else s1);
        s3 = upd_op (\<lambda>q. q\<lparr>so_url_index := 0\<rparr>) s2
      in case make_scheduler_request net p s3 of (retval, _, s4) \<Rightarrow>
         case (if retval = 0 then start_rpc net p s4 else (retval, s4)) of (retval2, s5) \<Rightarrow>
           (retval2, if retval2 \<noteq> 0 then backoff p s5 else s5))"

definition init_get_work :: "SCHED_NET \<Rightarrow> CLIENT_STATE \<Rightarrow> int \<times> CLIENT_STATE" where
  "init_get_work net s =
     (case next_project_need_work s of
        (None, s1) \<Rightarrow> (0, s1)
      | (Some p, s1) \<Rightarrow> init_op_project net p RPC_REASON_NEED_WORK s1)"

section \<open>The master file\<close>

definition push_unique :: "string \<Rightarrow> string list \<Rightarrow> string list" where
  "push_unique str v = (if str \<in> set v then v else v @ [str])"

text \<open>\<open>buf2.erase(0, pos + 12)\<close> happens only if the closing tag is found; otherwise the same tag is
  parsed again.\<close>

partial_function (option) scheduler_tags :: "string \<Rightarrow> string list \<Rightarrow> string list option" where
  [code]: "scheduler_tags buf2 urls =
     (case parse_str buf2 ''<scheduler>'' 1024 of
        Some (Some str) \<Rightarrow>
          scheduler_tags (case strstr_from ''</scheduler>'' buf2 of None \<Rightarrow> buf2 | Some rest \<Rightarrow> drop 12 rest)
            (push_unique str urls)
      | _ \<Rightarrow> Some urls)"

definition QUOTE :: char where "QUOTE = CHR 0x22"

definition link_prefix :: string where
  "link_prefix = ''<link rel='' @ [QUOTE] @ ''boinc_scheduler'' @ [QUOTE] @ '' href='' @ [QUOTE]"

function link_tags :: "string \<Rightarrow> string list \<Rightarrow> string list" where
  "link_tags buf urls =
     (case strstr_from link_prefix buf of
        None \<Rightarrow> urls
      | Some rest \<Rightarrow>
          let rest1 = drop 34 rest;
              urls1 = (if QUOTE \<in> set rest1
                       then push_unique (strip_whitespace (takeWhile (\<lambda>c. c \<noteq> QUOTE) rest1)) urls else urls)
          in link_tags rest1 urls1)"
  by pat_completeness auto
termination
proof (relation "measure (\<lambda>(buf, urls). length buf)", goal_cases)
  case 1
  show ?case by simp
next
  case (2 buf urls rest)
  then have "rest \<noteq> []" using strstr_from_not_empty [of link_prefix] by (simp add: link_prefix_def)
  then show ?case using 2 strstr_from_shorter [of link_prefix buf rest] by (cases rest) auto
qed

declare link_tags.simps [simp del]

fun master_lines :: "string list \<Rightarrow> string list \<Rightarrow> string list option" where
  "master_lines [] urls = Some urls"
| "master_lines (buf # bufs) urls =
     (case scheduler_tags buf urls of None \<Rightarrow> None
      | Some urls1 \<Rightarrow> master_lines bufs (link_tags buf urls1))"

text \<open>The outer \<open>None\<close>: parsing does not come to an end.\<close>

definition parse_master_file :: "SCHED_NET \<Rightarrow> pid \<Rightarrow> CLIENT_STATE \<Rightarrow> (string list \<times> CLIENT_STATE) option" where
  "parse_master_file net p s =
     (case sn_master_file net p of
        None \<Rightarrow> Some ([], s)
      | Some bufs \<Rightarrow>
          (case master_lines bufs [] of None \<Rightarrow> None
           | Some urls \<Rightarrow> Some (urls, upd_proj p (\<lambda>x. x\<lparr>p_scheduler_urls := []\<rparr>) s)))"

definition update_urls :: "pid \<Rightarrow> string list \<Rightarrow> CLIENT_STATE \<Rightarrow> bool \<times> CLIENT_STATE" where
  "update_urls p urls s =
     (\<not> list_all (\<lambda>u. u \<in> set (p_scheduler_urls (proj s p))) urls,
      upd_proj p (\<lambda>x. x\<lparr>p_scheduler_urls := urls\<rparr>) s)"

section \<open>Polling\<close>

definition master_failed :: "pid \<Rightarrow> CLIENT_STATE \<Rightarrow> CLIENT_STATE" where
  "master_failed p s = backoff p (upd_proj p (\<lambda>x. x\<lparr>p_master_fetch_failures := p_master_fetch_failures x + 1\<rparr>) s)"

definition master_done :: "SCHED_NET \<Rightarrow> pid \<Rightarrow> CLIENT_STATE \<Rightarrow> CLIENT_STATE option" where
  "master_done net p s =
     (if so_http_op_retval (sched_op s) \<noteq> 0 then Some (master_failed p s)
      else case parse_master_file net p s of
        None \<Rightarrow> None
      | Some (urls, s1) \<Rightarrow> Some (
          if urls = [] then master_failed p s1
          else case update_urls p urls (upd_proj p (\<lambda>x. x\<lparr>p_master_fetch_failures := 0\<rparr>) s1) of
            (changed, s2) \<Rightarrow>
              if changed then upd_proj p (\<lambda>x. x\<lparr>p_min_rpc_time := 0, p_nrpc_failures := 0\<rparr>) s2 else s2))"

text \<open>Trying the other schedulers: the loop ends when one request was started (\<open>True\<close>) or the index
  has reached the end of the list.\<close>

partial_function (option) try_schedulers :: "SCHED_NET \<Rightarrow> pid \<Rightarrow> CLIENT_STATE \<Rightarrow> (bool \<times> CLIENT_STATE) option" where
  [code]: "try_schedulers net p s =
     (let s1 = upd_op (\<lambda>q. q\<lparr>so_url_index := so_url_index q + 1\<rparr>) s in
      if so_url_index (sched_op s1) = int (length (p_scheduler_urls (proj s1 p))) then Some (False, s1)
      else case start_rpc net p s1 of (retval, s2) \<Rightarrow>
        if retval = 0 then Some (True, s2) else try_schedulers net p s2)"

definition rpc_complete :: "CLIENT_STATE \<Rightarrow> CLIENT_STATE" where
  "rpc_complete s = request_work_fetch (set_client_state_dirty (upd_op (\<lambda>q. q\<lparr>so_cur_proj := None\<rparr>) s))"

definition rpc_failed :: "SCHED_NET \<Rightarrow> pid \<Rightarrow> CLIENT_STATE \<Rightarrow> CLIENT_STATE option" where
  "rpc_failed net p s =
     (case try_schedulers net p s of
        None \<Rightarrow> None
      | Some (True, s1) \<Rightarrow> Some s1
      | Some (False, s1) \<Rightarrow>
          let s2 = backoff p s1;
              s3 = (if p_suspended_via_gui (proj s2 p)
                    then upd_proj p (\<lambda>x. x\<lparr>p_sched_rpc_pending := NO_RPC_REASON\<rparr>) s2 else s2)
          in Some (rpc_complete s3))"

text \<open>The handler of the reply is an argument; it may not return.\<close>

definition rpc_succeeded ::
  "(pid \<Rightarrow> CLIENT_STATE \<Rightarrow> (int \<times> CLIENT_STATE) option) \<Rightarrow> pid \<Rightarrow> CLIENT_STATE \<Rightarrow> CLIENT_STATE option" where
  "rpc_succeeded handle_scheduler_reply p s =
     (case handle_scheduler_reply p s of
        None \<Rightarrow> None
      | Some (retval, s1) \<Rightarrow>
          let s2 = (if retval \<noteq> 0 then backoff p s1 else s1)
          in Some (rpc_complete (upd_proj p (\<lambda>x. x\<lparr>p_work_request := 0\<rparr>) s2)))"

definition set_idle :: "CLIENT_STATE \<Rightarrow> CLIENT_STATE" where
  "set_idle s = upd_op (\<lambda>q. q\<lparr>so_state := SCHEDULER_OP_STATE_IDLE\<rparr>) s"

definition op_poll ::
  "(pid \<Rightarrow> CLIENT_STATE \<Rightarrow> (int \<times> CLIENT_STATE) option) \<Rightarrow> SCHED_NET \<Rightarrow> CLIENT_STATE \<Rightarrow> (bool \<times> CLIENT_STATE) option" where
  "op_poll handle net s =
     (let op = sched_op s in
      case so_cur_proj op of
        None \<Rightarrow> Some (False, s)
      | Some p \<Rightarrow>
          if so_http_op_state op \<noteq> HTTP_STATE_DONE then Some (False, s)
          else if so_state op = SCHEDULER_OP_STATE_GET_MASTER
          then map_option (\<lambda>s1. (True, rpc_complete s1))
                 (master_done net p (upd_proj p (\<lambda>x. x\<lparr>p_master_url_fetch_pending := False\<rparr>) (set_idle s)))
          else if so_state op = SCHEDULER_OP_STATE_RPC
          then if so_http_op_retval op \<noteq> 0
               then map_option (Pair True) (rpc_failed net p (set_idle s))
               else map_option (Pair True) (rpc_succeeded handle p (set_idle s))
          else Some (False, s))"

definition op_abort :: "pid \<Rightarrow> CLIENT_STATE \<Rightarrow> CLIENT_STATE" where
  "op_abort p s =
     (if so_state (sched_op s) \<noteq> SCHEDULER_OP_STATE_IDLE \<and> so_cur_proj (sched_op s) = Some p
      then upd_op (\<lambda>q. q\<lparr>so_state := SCHEDULER_OP_STATE_IDLE, so_cur_proj := None\<rparr>) s else s)"

section \<open>The client's poll\<close>

definition start_some_rpc :: "SCHED_NET \<Rightarrow> CLIENT_STATE \<Rightarrow> bool \<times> CLIENT_STATE" where
  "start_some_rpc net s =
     (case check_master_fetch_start net s of
        (True, s1) \<Rightarrow> (True, s1)
      | (False, s1) \<Rightarrow>
        if hi_p_calculated (host_info s1) = 0 then (False, s1)
        else case next_project_sched_rpc_pending s1 of
          (Some p, s2) \<Rightarrow> (True, snd (init_op_project net p (p_sched_rpc_pending (proj s2 p)) s2))
        | (None, s2) \<Rightarrow>
          if network_suspended s2 then (False, s2)
          else case next_project_trickle_up_pending s2 of
            Some p \<Rightarrow> (True, snd (init_op_project net p RPC_REASON_TRICKLE_UP s2))
          | None \<Rightarrow>
            (case find_project_with_overdue_results s2 of
               Some p \<Rightarrow> (True, snd (init_op_project net p RPC_REASON_RESULTS_DUE s2))
             | None \<Rightarrow>
                 if \<not> (exit_when_idle s2 \<and> contacted_sched_server s2)
                 then (False, snd (init_get_work net s2)) else (False, s2)))"

definition scheduler_rpc_poll ::
  "(pid \<Rightarrow> CLIENT_STATE \<Rightarrow> (int \<times> CLIENT_STATE) option) \<Rightarrow> SCHED_NET \<Rightarrow> CLIENT_STATE \<Rightarrow> (bool \<times> CLIENT_STATE) option" where
  "scheduler_rpc_poll handle net s =
     (if now s - sched_poll_last_time s < 5 then Some (False, s)
      else let s1 = s\<lparr>sched_poll_last_time := now s\<rparr> in
        if so_state (sched_op s1) = SCHEDULER_OP_STATE_IDLE then Some (start_some_rpc net s1)
        else map_option (\<lambda>(_, s2). (so_state (sched_op s2) = SCHEDULER_OP_STATE_IDLE, s2)) (op_poll handle net s1))"

section \<open>What backing off leaves alone\<close>

definition op_view where
  "op_view s = (sched_op s, projects s, results s, res s, (\<lambda>p. p_scheduler_urls (proj s p)))"

lemma op_view_upd_proj:
  assumes "\<And>x. p_scheduler_urls (f x) = p_scheduler_urls x"
  shows "op_view (upd_proj p f s) = op_view s"
  using assms by (auto simp: op_view_def upd_proj_def)

lemma op_view_backoff: "op_view (backoff p s) = op_view s"
proof -
  have m: "op_view (set_min_rpc_time t p s) = op_view s" for t p s
    by (simp add: set_min_rpc_time_def op_view_upd_proj)
  have c: "op_view (snd (calculate_exponential_backoff n mn mx s)) = op_view s" for n mn mx s
    using exponential_backoff_state [of n mn mx s] by (auto simp: op_view_def)
  show ?thesis by (simp add: backoff_def Let_def split_beta m c op_view_upd_proj)
qed

lemma op_viewD:
  assumes "op_view t = op_view s"
  shows "sched_op t = sched_op s" "projects t = projects s" "results t = results s" "res t = res s"
    "p_scheduler_urls (proj t p) = p_scheduler_urls (proj s p)"
  using assms by (auto simp: op_view_def fun_eq_iff)

lemmas backoff_op [simp] = op_viewD [OF op_view_backoff]

lemma upd_op_simps [simp]:
  "sched_op (upd_op f s) = f (sched_op s)" "projects (upd_op f s) = projects s" "proj (upd_op f s) = proj s"
  "host_info (upd_op f s) = host_info s" "results (upd_op f s) = results s" "res (upd_op f s) = res s"
  by (simp_all add: upd_op_def)

lemma upd_proj_op [simp]:
  "sched_op (upd_proj p f s) = sched_op s" "projects (upd_proj p f s) = projects s"
  "results (upd_proj p f s) = results s" "res (upd_proj p f s) = res s"
  by (simp_all add: upd_proj_def)

section \<open>Every scheduler has its turn\<close>

lemma scheduler_url_index:
  assumes "p_scheduler_urls (proj s p) = urls" "urls \<noteq> []" "0 \<le> r" "r \<le> 1" "i < length urls"
  shows "get_scheduler_url s p (int i) r = urls ! ((nat \<lfloor>r * real (length urls)\<rfloor> + i) mod length urls)"
proof -
  let ?n = "length urls"
  have "0 \<le> r * real ?n" using assms(3) by simp
  then have t: "trunc_int (r * real ?n) = int (nat \<lfloor>r * real ?n\<rfloor>)" by (simp add: trunc_int_def)
  have "nat ((int i + int (nat \<lfloor>r * real ?n\<rfloor>)) mod int ?n) = (nat \<lfloor>r * real ?n\<rfloor> + i) mod ?n"
    by (simp add: nat_mod_distrib nat_add_distrib add.commute flip: of_nat_add zmod_int)
  then show ?thesis using assms(1) by (simp add: get_scheduler_url_def Let_def t)
qed

text \<open>The schedulers of a project are tried in the order of its list, rotated by a random offset:
  counting the index up from zero visits every scheduler once.\<close>

theorem scheduler_urls_rotated:
  assumes "0 \<le> r" "r \<le> 1"
  shows "map (\<lambda>i. get_scheduler_url s p (int i) r) [0..<length (p_scheduler_urls (proj s p))]
    = rotate (nat \<lfloor>r * real (length (p_scheduler_urls (proj s p)))\<rfloor>) (p_scheduler_urls (proj s p))"
proof (rule nth_equalityI)
  fix i assume "i < length (map (\<lambda>i. get_scheduler_url s p (int i) r) [0..<length (p_scheduler_urls (proj s p))])"
  then have i: "i < length (p_scheduler_urls (proj s p))" by simp
  then have "p_scheduler_urls (proj s p) \<noteq> []" by auto
  from scheduler_url_index [OF refl this assms i] i
  show "map (\<lambda>i. get_scheduler_url s p (int i) r) [0..<length (p_scheduler_urls (proj s p))] ! i
    = rotate (nat \<lfloor>r * real (length (p_scheduler_urls (proj s p)))\<rfloor>) (p_scheduler_urls (proj s p)) ! i"
    by (simp add: nth_rotate)
qed simp

theorem scheduler_urls_rotated_witness:
  "map (\<lambda>i. get_scheduler_url (sample_state\<lparr>proj := (\<lambda>_. sample_project\<lparr>p_scheduler_urls := [''a'', ''b'', ''c'']\<rparr>)\<rparr>) 0 (int i) (1/2)) [0..<3]
   = [''b'', ''c'', ''a'']"
  using scheduler_urls_rotated [of "1/2" "sample_state\<lparr>proj := (\<lambda>_. sample_project\<lparr>p_scheduler_urls := [''a'', ''b'', ''c'']\<rparr>)\<rparr>" 0]
  by (simp add: numeral_3_eq_3)

section \<open>A failed RPC\<close>

definition cannot_start :: "SCHED_NET \<Rightarrow> string \<Rightarrow> bool" where
  "cannot_start net url = (sn_request_size net = None \<or> sn_libcurl_exec net (take 255 url) \<noteq> 0)"

lemma start_rpc_result:
  assumes "start_rpc net p s = (retval, t)"
  shows "so_url_index (sched_op t) = so_url_index (sched_op s)" "so_url_random (sched_op t) = so_url_random (sched_op s)"
    "projects t = projects s \<and> results t = results s \<and> res t = res s"
    "p_scheduler_urls (proj t q) = p_scheduler_urls (proj s q)"
    "retval = 0 \<longleftrightarrow> \<not> cannot_start net (get_scheduler_url s p (so_url_index (sched_op s)) (so_url_random (sched_op s)))"
    "retval = 0 \<Longrightarrow> so_state (sched_op t) = SCHEDULER_OP_STATE_RPC \<and> so_cur_proj (sched_op t) = Some p"
    "retval \<noteq> 0 \<Longrightarrow> so_state (sched_op t) = so_state (sched_op s) \<and> so_cur_proj (sched_op t) = so_cur_proj (sched_op s)"
proof -
  define s1 where "s1 = (if p_work_request (proj s p) > 0 \<and> p_work_request (proj s p) < 1
    then upd_proj p (\<lambda>x. x\<lparr>p_work_request := 1\<rparr>) s else s)"
  have v: "op_view s1 = op_view s" by (simp add: s1_def op_view_upd_proj)
  note e = op_viewD [OF v]
  have url: "get_scheduler_url s1 p i r = get_scheduler_url s p i r" for i r by (simp add: get_scheduler_url_def e)
  have up: "p_scheduler_urls (proj (upd_proj p (\<lambda>x. x\<lparr>p_rpc_seqno := p_rpc_seqno x + 1\<rparr>) u) q) = p_scheduler_urls (proj u q)" for u
    by (simp add: upd_proj_def)
  show "so_url_index (sched_op t) = so_url_index (sched_op s)" "so_url_random (sched_op t) = so_url_random (sched_op s)"
    "projects t = projects s \<and> results t = results s \<and> res t = res s"
    "p_scheduler_urls (proj t q) = p_scheduler_urls (proj s q)"
    "retval = 0 \<longleftrightarrow> \<not> cannot_start net (get_scheduler_url s p (so_url_index (sched_op s)) (so_url_random (sched_op s)))"
    "retval = 0 \<Longrightarrow> so_state (sched_op t) = SCHEDULER_OP_STATE_RPC \<and> so_cur_proj (sched_op t) = Some p"
    "retval \<noteq> 0 \<Longrightarrow> so_state (sched_op t) = so_state (sched_op s) \<and> so_cur_proj (sched_op t) = so_cur_proj (sched_op s)"
    using assms unfolding start_rpc_def Let_def s1_def [symmetric]
    by (auto simp: op_init_post_def cannot_start_def e url up split: option.splits if_splits)
qed

lemma try_schedulers_result:
  assumes "0 \<le> so_url_index (sched_op s)" "so_url_index (sched_op s) < int (length (p_scheduler_urls (proj s p)))"
  shows "\<exists>ok t. try_schedulers net p s = Some (ok, t)
    \<and> so_url_index (sched_op s) < so_url_index (sched_op t)
    \<and> (if ok then so_state (sched_op t) = SCHEDULER_OP_STATE_RPC \<and> so_cur_proj (sched_op t) = Some p
                 \<and> so_url_index (sched_op t) < int (length (p_scheduler_urls (proj s p)))
       else so_url_index (sched_op t) = int (length (p_scheduler_urls (proj s p))))
    \<and> (\<forall>i. so_url_index (sched_op s) < i \<and> i < so_url_index (sched_op t)
          \<longrightarrow> cannot_start net (get_scheduler_url s p i (so_url_random (sched_op s))))"
  using assms
proof (induction "nat (int (length (p_scheduler_urls (proj s p))) - so_url_index (sched_op s))" arbitrary: s rule: less_induct)
  case less
  let ?n = "int (length (p_scheduler_urls (proj s p)))"
  define s1 where "s1 = upd_op (\<lambda>q. q\<lparr>so_url_index := so_url_index q + 1\<rparr>) s"
  have i1: "so_url_index (sched_op s1) = so_url_index (sched_op s) + 1" "proj s1 = proj s"
    "so_url_random (sched_op s1) = so_url_random (sched_op s)"
    by (simp_all add: s1_def)
  have u1: "get_scheduler_url s1 = get_scheduler_url s" by (simp add: get_scheduler_url_def i1 fun_eq_iff)
  show ?case
  proof (cases "so_url_index (sched_op s1) = ?n")
    case True
    then have "try_schedulers net p s = Some (False, s1)"
      by (subst try_schedulers.simps) (simp add: Let_def s1_def [symmetric] i1)
    moreover have "\<not> (so_url_index (sched_op s) < i \<and> i < so_url_index (sched_op s1))" for i using i1(1) by simp
    moreover have "so_url_index (sched_op s) < so_url_index (sched_op s1)" using i1(1) by simp
    ultimately show ?thesis using True by (intro exI [of _ False] exI [of _ s1]) auto
  next
    case False
    obtain retval s2 where st: "start_rpc net p s1 = (retval, s2)" by fastforce
    note r = start_rpc_result [OF st]
    have n2: "p_scheduler_urls (proj s2 p) = p_scheduler_urls (proj s p)" using r(4) i1 by simp
    have u2: "get_scheduler_url s2 p = get_scheduler_url s p" by (simp add: get_scheduler_url_def n2 fun_eq_iff)
    show ?thesis
    proof (cases "retval = 0")
      case True
      then have "try_schedulers net p s = Some (True, s2)"
        using False st by (subst try_schedulers.simps) (simp add: Let_def s1_def [symmetric] i1)
      moreover have "\<not> (so_url_index (sched_op s) < i \<and> i < so_url_index (sched_op s2))" for i using i1(1) r(1) by simp
      moreover have "so_url_index (sched_op s) < so_url_index (sched_op s2)" "so_url_index (sched_op s2) < ?n"
        using r(1) i1(1) less.prems(2) False by simp_all
      ultimately show ?thesis using r(6) [OF True] by (intro exI [of _ True] exI [of _ s2]) auto
    next
      case bad: False
      have step: "try_schedulers net p s = try_schedulers net p s2"
        using False bad st by (subst try_schedulers.simps) (simp add: Let_def s1_def [symmetric] i1)
      have "nat (int (length (p_scheduler_urls (proj s2 p))) - so_url_index (sched_op s2)) < nat (?n - so_url_index (sched_op s))"
        "0 \<le> so_url_index (sched_op s2)" "so_url_index (sched_op s2) < int (length (p_scheduler_urls (proj s2 p)))"
        using less.prems r(1) i1 False n2 by auto
      from less.hyps [OF this] obtain ok t where t: "try_schedulers net p s2 = Some (ok, t)"
        "so_url_index (sched_op s2) < so_url_index (sched_op t)"
        "if ok then so_state (sched_op t) = SCHEDULER_OP_STATE_RPC \<and> so_cur_proj (sched_op t) = Some p
            \<and> so_url_index (sched_op t) < ?n else so_url_index (sched_op t) = ?n"
        "\<And>i. so_url_index (sched_op s2) < i \<Longrightarrow> i < so_url_index (sched_op t)
            \<Longrightarrow> cannot_start net (get_scheduler_url s p i (so_url_random (sched_op s2)))"
        unfolding n2 u2 by blast
      have "cannot_start net (get_scheduler_url s p (so_url_index (sched_op s) + 1) (so_url_random (sched_op s)))"
        using r(5) bad by (simp add: i1 u1)
      then have "cannot_start net (get_scheduler_url s p i (so_url_random (sched_op s)))"
        if "so_url_index (sched_op s) < i" "i < so_url_index (sched_op t)" for i
        using t(4) [of i] that r(1,2) i1 by (cases "i = so_url_index (sched_op s) + 1") auto
      moreover have "so_url_index (sched_op s) < so_url_index (sched_op t)" using t(2) r(1) i1(1) by simp
      ultimately show ?thesis unfolding step t(1) using t(3) by blast
    qed
  qed
qed

text \<open>After a failed scheduler RPC the loop over the other schedulers always comes to an end. Either
  it has started a request to a scheduler further down the list, and those it passed over could not
  be contacted; or none of the remaining ones could be contacted.\<close>

theorem try_schedulers_returns:
  assumes "0 \<le> so_url_index (sched_op s)" "so_url_index (sched_op s) < int (length (p_scheduler_urls (proj s p)))"
  shows "\<exists>ok t. try_schedulers net p s = Some (ok, t)
    \<and> so_url_index (sched_op s) < so_url_index (sched_op t)
    \<and> (if ok then so_state (sched_op t) = SCHEDULER_OP_STATE_RPC \<and> so_cur_proj (sched_op t) = Some p
                 \<and> so_url_index (sched_op t) < int (length (p_scheduler_urls (proj s p)))
       else so_url_index (sched_op t) = int (length (p_scheduler_urls (proj s p))))
    \<and> (\<forall>i. so_url_index (sched_op s) < i \<and> i < so_url_index (sched_op t)
          \<longrightarrow> cannot_start net (get_scheduler_url s p i (so_url_random (sched_op s))))"
  using assms by (rule try_schedulers_result)

text \<open>Three schedulers; the RPC to the first one has failed and only the third one can be contacted.\<close>

definition failed_rpc :: CLIENT_STATE where
  "failed_rpc = sample_state\<lparr>proj := (\<lambda>_. sample_project\<lparr>p_scheduler_urls := [''a'', ''b'', ''c'']\<rparr>)\<rparr>"

definition sample_sched_net :: SCHED_NET where
  "sample_sched_net = \<lparr>sn_request_file = True, sn_request_size = Some 10, sn_get_host_info = (\<lambda>h. h),
     sn_libcurl_exec = (\<lambda>url. if url = ''c'' then 0 else 1), sn_master_file = (\<lambda>_. None)\<rparr>"

theorem try_schedulers_returns_witness:
  "\<exists>ok t. try_schedulers sample_sched_net 0 failed_rpc = Some (ok, t)
     \<and> 0 < so_url_index (sched_op t) \<and> so_url_index (sched_op t) \<le> 3"
proof -
  have "so_url_index (sched_op failed_rpc) = 0" "length (p_scheduler_urls (proj failed_rpc 0)) = 3"
    by (simp_all add: failed_rpc_def sample_defs)
  then obtain ok t where "try_schedulers sample_sched_net 0 failed_rpc = Some (ok, t)" "0 < so_url_index (sched_op t)"
    "if ok then so_url_index (sched_op t) < 3 else so_url_index (sched_op t) = 3"
    using try_schedulers_returns [of failed_rpc 0 sample_sched_net] by (auto split: if_splits)
  then show ?thesis by (auto split: if_splits)
qed

section \<open>One operation at a time\<close>

definition op_ok :: "CLIENT_STATE \<Rightarrow> bool" where
  "op_ok s = (case so_cur_proj (sched_op s) of
     None \<Rightarrow> so_state (sched_op s) = SCHEDULER_OP_STATE_IDLE
   | Some p \<Rightarrow> p \<in> set (projects s)
       \<and> (so_state (sched_op s) = SCHEDULER_OP_STATE_GET_MASTER \<or> so_state (sched_op s) = SCHEDULER_OP_STATE_RPC))"

text \<open>\<open>starts p s t\<close>: from \<open>s\<close> to \<open>t\<close> nothing was started, or an operation for \<open>p\<close>.\<close>

definition starts :: "pid \<Rightarrow> CLIENT_STATE \<Rightarrow> CLIENT_STATE \<Rightarrow> bool" where
  "starts p s t = (projects t = projects s \<and> results t = results s \<and> res t = res s \<and>
     (so_cur_proj (sched_op t) = so_cur_proj (sched_op s) \<and> so_state (sched_op t) = so_state (sched_op s)
      \<or> so_cur_proj (sched_op t) = Some p
        \<and> (so_state (sched_op t) = SCHEDULER_OP_STATE_GET_MASTER \<or> so_state (sched_op t) = SCHEDULER_OP_STATE_RPC)))"

lemma starts_op_ok: "starts p s t \<Longrightarrow> op_ok s \<Longrightarrow> p \<in> set (projects s) \<Longrightarrow> op_ok t"
  by (auto simp: starts_def op_ok_def split: option.splits)

lemma starts_refl [simp]: "starts p s s"
  by (simp add: starts_def)

lemma starts_trans: "starts p s t \<Longrightarrow> starts p t u \<Longrightarrow> starts p s u"
  by (auto simp: starts_def)

lemma starts_backoff [simp]: "starts p s (backoff q t) = starts p s t"
  by (simp add: starts_def)

lemma starts_upd_proj [simp]: "starts p s (upd_proj q f t) = starts p s t"
  by (simp add: starts_def)

lemma starts_upd_op [simp]:
  "(\<And>q. so_cur_proj (f q) = so_cur_proj q) \<Longrightarrow> (\<And>q. so_state (f q) = so_state q) \<Longrightarrow> starts p s (upd_op f t) = starts p s t"
  by (simp add: starts_def)

lemma init_master_fetch_starts: "starts p s (snd (init_master_fetch net p s))"
  by (simp add: init_master_fetch_def starts_def Let_def)

lemma start_rpc_starts: "starts p s (snd (start_rpc net p s))"
proof -
  obtain retval t where st: "start_rpc net p s = (retval, t)" by fastforce
  show ?thesis using start_rpc_result [OF st] st by (cases "retval = 0") (auto simp: starts_def)
qed

lemma make_scheduler_request_starts: "starts p s (snd (snd (make_scheduler_request net p s)))"
  by (simp add: make_scheduler_request_def Let_def starts_def)

lemma init_op_project_starts: "starts p s (snd (init_op_project net p r s))"
proof -
  define s1 where "s1 = upd_op (\<lambda>q. q\<lparr>so_reason := r\<rparr>) s"
  have s1: "starts p s s1" by (simp add: s1_def)
  show ?thesis
  proof (cases "p_scheduler_urls (proj s1 p) = []")
    case True
    then show ?thesis using starts_trans [OF s1 init_master_fetch_starts]
      by (simp add: init_op_project_def Let_def s1_def [symmetric] split_beta)
  next
    case False
    define s3 where "s3 = upd_op (\<lambda>q. q\<lparr>so_url_index := 0\<rparr>) (if r = RPC_REASON_INIT
              then if \<not> cpu_benchmarks_done (upd_proj p (\<lambda>x. x\<lparr>p_work_request := 1\<rparr>) s1)
                   then cpu_benchmarks_set_defaults (upd_proj p (\<lambda>x. x\<lparr>p_work_request := 1\<rparr>) s1)
                   else upd_proj p (\<lambda>x. x\<lparr>p_work_request := 1\<rparr>) s1
              else s1)"
    obtain retval rq s4 where m: "make_scheduler_request net p s3 = (retval, rq, s4)" by (metis prod_cases3)
    have eq: "init_op_project net p r s = (case make_scheduler_request net p s3 of (retval, _, s4) \<Rightarrow>
         case (if retval = 0 then start_rpc net p s4 else (retval, s4)) of (retval2, s5) \<Rightarrow>
           (retval2, if retval2 \<noteq> 0 then backoff p s5 else s5))"
      by (simp only: init_op_project_def Let_def s1_def [symmetric] False if_False s3_def)
    have "starts p s s3" by (simp add: s3_def s1_def starts_def cpu_benchmarks_set_defaults_def)
    then have s4: "starts p s s4" using make_scheduler_request_starts [of p s3 net] m by (auto intro: starts_trans)
    show ?thesis using s4 starts_trans [OF s4 start_rpc_starts [of p s4 net]] by (simp add: eq m split_beta)
  qed
qed

text \<open>The choices of a project to contact.\<close>

lemma find_in: "find P xs = Some x \<Longrightarrow> x \<in> set xs"
  by (auto simp: find_Some_iff)

lemma sched_rpc_pending_loop_starts: "starts p s (snd (sched_rpc_pending_loop ps s))"
proof (induction ps arbitrary: s)
  case (Cons q ps)
  define s1 where "s1 = (if p_next_rpc_time (proj s q) \<noteq> 0 \<and> p_next_rpc_time (proj s q) < now s
    then upd_proj q (\<lambda>x. x\<lparr>p_sched_rpc_pending := RPC_REASON_PROJECT_REQ, p_next_rpc_time := 0\<rparr>) s else s)"
  have "starts p s s1" by (simp add: s1_def)
  then show ?case using starts_trans [OF _ Cons.IH [of s1]]
    unfolding sched_rpc_pending_loop.simps Let_def s1_def [symmetric] by simp
qed simp

lemma sched_rpc_pending_loop_in: "fst (sched_rpc_pending_loop ps s) = Some p \<Longrightarrow> p \<in> set ps"
  by (induction ps arbitrary: s) (auto simp: Let_def split: if_splits)

lemma need_work_in: "fold (need_work_consider s) ps None = Some p \<Longrightarrow> p \<in> set ps"
proof -
  have "need_work_consider s p x = x \<or> need_work_consider s p x = Some p" for p x
    by (simp add: need_work_consider_def Let_def split: option.splits)
  then have "fold (need_work_consider s) ps x = Some p \<Longrightarrow> x = Some p \<or> p \<in> set ps" for x
  proof (induction ps arbitrary: x)
    case (Cons q ps)
    then show ?case by (metis fold_simps(2) list.set_intros(1,2) option.sel)
  qed simp
  then show "fold (need_work_consider s) ps None = Some p \<Longrightarrow> p \<in> set ps" by blast
qed

text \<open>\<open>safe_start s t\<close>: a step that starts at most one operation, of a project the client is attached to.\<close>

definition safe_start :: "CLIENT_STATE \<Rightarrow> CLIENT_STATE \<Rightarrow> bool" where
  "safe_start s t = (projects t = projects s \<and> results t = results s \<and> res t = res s \<and> (op_ok s \<longrightarrow> op_ok t))"

lemma safe_start_refl [simp]: "safe_start s s"
  by (simp add: safe_start_def)

lemma safe_start_trans: "safe_start s t \<Longrightarrow> safe_start t u \<Longrightarrow> safe_start s u"
  by (simp add: safe_start_def)

lemma starts_safe: "starts p s t \<Longrightarrow> p \<in> set (projects s) \<Longrightarrow> safe_start s t"
  using starts_op_ok [of p s t] by (auto simp: safe_start_def starts_def)

lemma init_op_project_safe: "p \<in> set (projects s) \<Longrightarrow> safe_start s (snd (init_op_project net p r s))"
  by (rule starts_safe [OF init_op_project_starts])

lemma init_get_work_safe: "safe_start s (snd (init_get_work net s))"
proof (cases "fold (need_work_consider s) (projects s) None")
  case None
  then show ?thesis by (simp add: init_get_work_def next_project_need_work_def)
next
  case (Some p)
  note pin = need_work_in [OF Some]
  let ?t = "if p_work_request (proj s p) \<le> 0 then upd_proj p (\<lambda>x. x\<lparr>p_work_request := 1\<rparr>) s else s"
  have t: "safe_start s ?t" by (rule starts_safe [OF _ pin]) simp
  have "p \<in> set (projects ?t)" using pin by simp
  from safe_start_trans [OF t init_op_project_safe [OF this]] show ?thesis
    using Some by (simp add: init_get_work_def next_project_need_work_def)
qed

lemma check_master_fetch_safe: "safe_start s (snd (check_master_fetch_start net s))"
proof (cases "next_project_master_pending s")
  case (Some p)
  then have "p \<in> set (projects s)" unfolding next_project_master_pending_def by (rule find_in)
  then show ?thesis using Some init_master_fetch_starts [of p s net]
    by (auto simp: check_master_fetch_start_def split_beta intro: starts_safe)
qed (simp add: check_master_fetch_start_def)

lemma next_sched_rpc_safe: "safe_start s (snd (next_project_sched_rpc_pending s))"
proof (cases "projects s")
  case Nil
  then show ?thesis by (simp add: next_project_sched_rpc_pending_def)
next
  case (Cons p ps)
  then have "p \<in> set (projects s)" by simp
  from starts_safe [OF sched_rpc_pending_loop_starts this] show ?thesis by (simp add: next_project_sched_rpc_pending_def)
qed

definition owners_ok :: "CLIENT_STATE \<Rightarrow> bool" where
  "owners_ok s = list_all (\<lambda>r. r_project (res s r) \<in> set (projects s)) (results s)"

lemma overdue_in: "find_project_with_overdue_results s = Some p \<Longrightarrow> owners_ok s \<Longrightarrow> p \<in> set (projects s)"
  by (auto simp: find_project_with_overdue_results_def owners_ok_def list_all_iff dest: find_in)

lemma start_some_rpc_safe:
  assumes "owners_ok s"
  shows "safe_start s (snd (start_some_rpc net s))"
proof -
  obtain b s1 where c: "check_master_fetch_start net s = (b, s1)" by fastforce
  obtain q s2 where n: "next_project_sched_rpc_pending s1 = (q, s2)" by fastforce
  have s1: "safe_start s s1" using check_master_fetch_safe [of s net] c by simp
  have s2: "safe_start s s2" using next_sched_rpc_safe [of s1] n s1 safe_start_trans by auto
  have own: "owners_ok s2" using s2 assms by (simp add: owners_ok_def safe_start_def)
  have go: "p \<in> set (projects s2) \<Longrightarrow> safe_start s (snd (init_op_project net p r s2))" for p r
    using safe_start_trans [OF s2 init_op_project_safe] by simp
  have p1: "q = Some p \<Longrightarrow> p \<in> set (projects s2)" for p
    using n sched_rpc_pending_loop_in [of "projects s1" s1 p] next_sched_rpc_safe [of s1]
    by (simp add: next_project_sched_rpc_pending_def safe_start_def)
  have p2: "next_project_trickle_up_pending s2 = Some p \<Longrightarrow> p \<in> set (projects s2)" for p
    unfolding next_project_trickle_up_pending_def by (rule find_in)
  note choices = go p1 p2 overdue_in [OF _ own] s1 s2 safe_start_trans [OF s2 init_get_work_safe]
  show ?thesis using choices
    by (auto simp: start_some_rpc_def c n split: option.splits bool.splits)
qed

text \<open>The end of an operation.\<close>

definition handler_ok :: "(pid \<Rightarrow> CLIENT_STATE \<Rightarrow> (int \<times> CLIENT_STATE) option) \<Rightarrow> bool" where
  "handler_ok handle = (\<forall>p u retval v. handle p u = Some (retval, v) \<longrightarrow> sched_op v = sched_op u \<and> projects v = projects u)"

lemma rpc_complete_simps [simp]:
  "sched_op (rpc_complete s) = (sched_op s)\<lparr>so_cur_proj := None\<rparr>" "projects (rpc_complete s) = projects s"
  by (simp_all add: rpc_complete_def request_work_fetch_def set_client_state_dirty_def)

lemma master_done_view: "master_done net p s = Some t \<Longrightarrow> sched_op t = sched_op s \<and> projects t = projects s"
  by (auto simp: master_done_def parse_master_file_def master_failed_def update_urls_def split: if_splits option.splits)

definition tried :: "pid \<Rightarrow> CLIENT_STATE \<Rightarrow> bool \<times> CLIENT_STATE \<Rightarrow> bool" where
  "tried p s r = (case r of (ok, t) \<Rightarrow> projects t = projects s \<and>
     (if ok then so_cur_proj (sched_op t) = Some p \<and> so_state (sched_op t) = SCHEDULER_OP_STATE_RPC
      else so_cur_proj (sched_op t) = so_cur_proj (sched_op s) \<and> so_state (sched_op t) = so_state (sched_op s)))"

lemma try_schedulers_tried:
  assumes "try_schedulers net p s = Some r"
  shows "tried p s r"
proof (rule try_schedulers.raw_induct [where P = "\<lambda>net. tried", OF _ assms], goal_cases)
  case (1 f net p s r)
  let ?s1 = "upd_op (\<lambda>q. q\<lparr>so_url_index := so_url_index q + 1\<rparr>) s"
  obtain retval s2 where st: "start_rpc net p ?s1 = (retval, s2)" by fastforce
  show ?case
  proof (cases "so_url_index (sched_op ?s1) = int (length (p_scheduler_urls (proj ?s1 p))) \<or> retval = 0")
    case True
    then show ?thesis using 1(2) start_rpc_result [OF st]
      by (auto simp: st tried_def Let_def split: if_splits)
  next
    case False
    then have "f net p s2 = Some r" using 1(2) by (simp add: st Let_def)
    then have "tried p s2 r" by (rule 1(1))
    then show ?thesis using start_rpc_result [OF st] False by (auto simp: tried_def)
  qed
qed

lemma set_idle_simps [simp]:
  "sched_op (set_idle s) = (sched_op s)\<lparr>so_state := SCHEDULER_OP_STATE_IDLE\<rparr>" "projects (set_idle s) = projects s"
  by (simp_all add: set_idle_def)

lemma rpc_failed_outcome:
  assumes "rpc_failed net p s = Some t" "so_state (sched_op s) = SCHEDULER_OP_STATE_IDLE"
  obtains "tried p s (True, t)"
    | u where "t = rpc_complete u" "projects u = projects s" "so_state (sched_op u) = SCHEDULER_OP_STATE_IDLE"
proof -
  obtain ok u where u: "try_schedulers net p s = Some (ok, u)"
    "if ok then t = u else t = rpc_complete (if p_suspended_via_gui (proj (backoff p u) p)
       then upd_proj p (\<lambda>x. x\<lparr>p_sched_rpc_pending := NO_RPC_REASON\<rparr>) (backoff p u) else backoff p u)"
    using assms(1) by (auto simp: rpc_failed_def Let_def split: option.splits bool.splits)
  from try_schedulers_tried [OF u(1)] u(2) assms(2) that show thesis
    by (cases ok) (auto simp: tried_def)
qed

lemma rpc_succeeded_outcome:
  assumes "handler_ok handle" "rpc_succeeded handle p s = Some t"
  obtains u where "t = rpc_complete u" "projects u = projects s" "sched_op u = sched_op s"
proof -
  obtain retval u where h: "handle p s = Some (retval, u)"
    "t = rpc_complete (upd_proj p (\<lambda>x. x\<lparr>p_work_request := 0\<rparr>) (if retval \<noteq> 0 then backoff p u else u))"
    using assms(2) by (auto simp: rpc_succeeded_def Let_def split: option.splits)
  then have u: "sched_op u = sched_op s" "projects u = projects s"
    using assms(1) unfolding handler_ok_def by blast+
  show thesis by (rule that [OF h(2)]) (simp_all add: u)
qed

text \<open>A poll does nothing, ends the operation, or has gone on to another scheduler of the same project.\<close>

lemma op_poll_outcome:
  assumes "op_ok s" "handler_ok handle" "op_poll handle net s = Some (a, t)" "so_cur_proj (sched_op s) = Some p"
  obtains "t = s" | "tried p (set_idle s) (True, t)"
    | u where "t = rpc_complete u" "projects u = projects s" "so_state (sched_op u) = SCHEDULER_OP_STATE_IDLE"
proof (cases "so_http_op_state (sched_op s) = HTTP_STATE_DONE")
  case False
  then show thesis using assms(3,4) that(1) by (simp add: op_poll_def Let_def)
next
  case http: True
  consider "so_state (sched_op s) = SCHEDULER_OP_STATE_GET_MASTER" | "so_state (sched_op s) = SCHEDULER_OP_STATE_RPC"
    using assms(1,4) by (auto simp: op_ok_def)
  then show thesis
  proof cases
    case 1
    let ?s1 = "upd_proj p (\<lambda>x. x\<lparr>p_master_url_fetch_pending := False\<rparr>) (set_idle s)"
    obtain u where "master_done net p ?s1 = Some u" "t = rpc_complete u"
      using 1 assms(3,4) http by (auto simp: op_poll_def Let_def)
    then show thesis using master_done_view [of net p ?s1 u] that(3) [of u] by simp
  next
    case 2
    show thesis
    proof (cases "so_http_op_retval (sched_op s) = 0")
      case True
      then have "rpc_succeeded handle p (set_idle s) = Some t" using assms(3,4) http 2 by (auto simp: op_poll_def Let_def)
      then obtain u where "t = rpc_complete u" "projects u = projects (set_idle s)" "sched_op u = sched_op (set_idle s)"
        by (rule rpc_succeeded_outcome [OF assms(2)])
      then show thesis by (intro that(3) [of u]) simp_all
    next
      case False
      then have f: "rpc_failed net p (set_idle s) = Some t" using assms(3,4) http 2 by (simp add: op_poll_def Let_def)
      have i: "so_state (sched_op (set_idle s)) = SCHEDULER_OP_STATE_IDLE" by simp
      from f i show thesis
      proof (cases rule: rpc_failed_outcome)
        case 1
        then show thesis by (rule that(2))
      next
        case (2 u)
        then show thesis using that(3) [of u] by simp
      qed
    qed
  qed
qed

lemma op_poll_ok:
  assumes "op_ok s" "handler_ok handle" "op_poll handle net s = Some (a, t)"
  shows "op_ok t \<and> projects t = projects s
    \<and> (so_cur_proj (sched_op t) = None \<or> so_cur_proj (sched_op t) = so_cur_proj (sched_op s))"
proof (cases "so_cur_proj (sched_op s)")
  case None
  then show ?thesis using assms by (simp add: op_poll_def Let_def)
next
  case (Some p)
  then have pin: "p \<in> set (projects s)" using assms(1) by (simp add: op_ok_def)
  from op_poll_outcome [OF assms Some] show ?thesis
    by cases (use assms(1) Some pin in \<open>auto simp: op_ok_def tried_def\<close>)
qed

lemma scheduler_rpc_poll_ok:
  assumes "op_ok s" "owners_ok s" "handler_ok handle" "scheduler_rpc_poll handle net s = Some (a, t)"
  shows "op_ok t \<and> projects t = projects s
    \<and> (so_cur_proj (sched_op s) \<noteq> None \<longrightarrow>
         so_cur_proj (sched_op t) = None \<or> so_cur_proj (sched_op t) = so_cur_proj (sched_op s))"
proof -
  define s1 where "s1 = s\<lparr>sched_poll_last_time := now s\<rparr>"
  have s1: "op_ok s1" "owners_ok s1" "projects s1 = projects s" "sched_op s1 = sched_op s"
    using assms(1,2) by (simp_all add: s1_def op_ok_def owners_ok_def cong: option.case_cong)
  consider "t = s" | "so_state (sched_op s) = SCHEDULER_OP_STATE_IDLE" "t = snd (start_some_rpc net s1)"
    | b where "op_poll handle net s1 = Some (b, t)"
  proof (cases "now s - sched_poll_last_time s < 5")
    case True
    then show ?thesis using assms(4) that(1) by (simp add: scheduler_rpc_poll_def)
  next
    case False
    note poll = assms(4) [unfolded scheduler_rpc_poll_def Let_def s1_def [symmetric] s1(4)]
    show ?thesis
    proof (cases "so_state (sched_op s) = SCHEDULER_OP_STATE_IDLE")
      case True
      with poll False have "start_some_rpc net s1 = (a, t)" by simp
      then show ?thesis by (intro that(2) [OF True]) simp
    next
      case busy: False
      with poll False obtain b u where "op_poll handle net s1 = Some (b, u)" "u = t" by auto
      then show ?thesis using that(3) by simp
    qed
  qed
  then show ?thesis
  proof cases
    case 1
    then show ?thesis using assms(1) by simp
  next
    case 2
    have "so_cur_proj (sched_op s) = None" using assms(1) 2(1) by (simp add: op_ok_def split: option.splits)
    then show ?thesis using start_some_rpc_safe [OF s1(2), of net] s1 2(2) by (simp add: safe_start_def)
  next
    case (3 b)
    then show ?thesis using op_poll_ok [OF s1(1) assms(3) 3] s1 by auto
  qed
qed

section \<open>A request that cannot be started\<close>

definition counters :: "pid \<Rightarrow> CLIENT_STATE \<Rightarrow> int \<times> int \<times> int \<times> bool" where
  "counters p s = (p_master_fetch_failures (proj s p), master_fetch_retry_cap s, master_fetch_period s,
     ns_need_physical_connection (net_status s))"

definition rpc_counted :: "pid \<Rightarrow> int \<Rightarrow> CLIENT_STATE \<Rightarrow> CLIENT_STATE \<Rightarrow> bool" where
  "rpc_counted p n s t = (counters p t = counters p s \<and> p_nrpc_failures (proj t p) = p_nrpc_failures (proj s p) + n)"

lemma counted_upd_op [simp]: "rpc_counted p n s (upd_op f t) = rpc_counted p n s t"
  by (simp add: rpc_counted_def counters_def upd_op_def)

lemma counted_upd_proj [simp]:
  "(\<And>x. p_master_fetch_failures (f x) = p_master_fetch_failures x) \<Longrightarrow> (\<And>x. p_nrpc_failures (f x) = p_nrpc_failures x)
    \<Longrightarrow> rpc_counted p n s (upd_proj q f t) = rpc_counted p n s t"
  by (simp add: rpc_counted_def counters_def upd_proj_def)

lemma counted_refl [simp]: "rpc_counted p 0 s s"
  by (simp add: rpc_counted_def)

lemma counted_chain: "rpc_counted p n s t \<Longrightarrow> rpc_counted p m t u \<Longrightarrow> rpc_counted p (n + m) s u"
  by (simp add: rpc_counted_def)

lemma backoff_counted:
  assumes "p_master_fetch_failures (proj s p) < master_fetch_retry_cap s" "p_nrpc_failures (proj s p) \<noteq> master_fetch_period s"
    "\<not> ns_need_physical_connection (net_status s)"
  shows "rpc_counted p 1 s (backoff p s)"
proof -
  have m: "rpc_counted p n s (set_min_rpc_time t q u) = rpc_counted p n s u" for n s t q u
    by (simp add: set_min_rpc_time_def)
  have c: "rpc_counted p n s (snd (calculate_exponential_backoff k mn mx u)) = rpc_counted p n s u" for n s k mn mx u
    using exponential_backoff_state [of k mn mx u] by (auto simp: rpc_counted_def counters_def)
  show ?thesis using assms by (simp add: backoff_def Let_def split_beta m c) (simp add: rpc_counted_def counters_def upd_proj_def)
qed

lemma make_scheduler_request_counted: "rpc_counted p n s (snd (snd (make_scheduler_request net p u))) = rpc_counted p n s u"
proof -
  have "rpc_counted p n s (t\<lparr>host_info := h\<rparr>) = rpc_counted p n s t" for t h by (simp add: rpc_counted_def counters_def)
  then show ?thesis by (simp add: make_scheduler_request_def Let_def)
qed

lemma make_scheduler_request_op:
  "sched_op (snd (snd (make_scheduler_request net p u))) = sched_op u
   \<and> p_scheduler_urls (proj (snd (snd (make_scheduler_request net p u))) p) = p_scheduler_urls (proj u p)"
  by (simp add: make_scheduler_request_def Let_def) (simp add: upd_proj_def)

text \<open>A scheduler request that cannot be started counts as two failures of the project, not one:
  \<open>start_rpc\<close> backs off, and \<open>init_op_project\<close> backs off again on its return value. The delay before
  the next request is therefore computed for one failure more than there was.\<close>

theorem failed_request_counted_twice:
  assumes "p_scheduler_urls (proj s p) \<noteq> []" "sn_request_file net" "r \<noteq> RPC_REASON_INIT"
    "cannot_start net (get_scheduler_url s p 0 (so_url_random (sched_op s)))"
    "p_master_fetch_failures (proj s p) < master_fetch_retry_cap s" "\<not> ns_need_physical_connection (net_status s)"
    "p_nrpc_failures (proj s p) \<noteq> master_fetch_period s" "p_nrpc_failures (proj s p) + 1 \<noteq> master_fetch_period s"
  shows "fst (init_op_project net p r s) \<noteq> 0
    \<and> p_nrpc_failures (proj (snd (init_op_project net p r s)) p) = p_nrpc_failures (proj s p) + 2"
proof -
  define s3 where "s3 = upd_op (\<lambda>q. q\<lparr>so_url_index := 0\<rparr>) (upd_op (\<lambda>q. q\<lparr>so_reason := r\<rparr>) s)"
  have s3: "rpc_counted p 0 s s3" "proj s3 = proj s" by (simp_all add: s3_def)
  obtain rq s4 where m: "make_scheduler_request net p s3 = (0, rq, s4)"
    using assms(2) by (simp add: make_scheduler_request_def Let_def)
  have c4: "rpc_counted p 0 s s4" and v4: "sched_op s4 = sched_op s3" "p_scheduler_urls (proj s4 p) = p_scheduler_urls (proj s p)"
    using make_scheduler_request_counted [of p 0 s net s3] make_scheduler_request_op [of net p s3] s3
    by (simp_all add: m)
  have cs: "cannot_start net (get_scheduler_url s4 p (so_url_index (sched_op s4)) (so_url_random (sched_op s4)))"
    using assms(4) by (simp add: v4 s3_def get_scheduler_url_def)
  obtain retval s5 where st: "start_rpc net p s4 = (retval, s5)" by fastforce
  have bad: "retval \<noteq> 0" using start_rpc_result(5) [OF st] cs by simp
  have c5: "rpc_counted p 1 s s5"
  proof -
    define u where "u = (if p_work_request (proj s4 p) > 0 \<and> p_work_request (proj s4 p) < 1
                then upd_proj p (\<lambda>x. x\<lparr>p_work_request := 1\<rparr>) s4 else s4)"
    obtain v where v: "s5 = backoff p v" "rpc_counted p 0 u v"
      using st bad by (auto simp: start_rpc_def Let_def op_init_post_def u_def split: option.splits if_splits)
    have "rpc_counted p 0 s4 u" by (simp add: u_def)
    from counted_chain [OF c4 counted_chain [OF this v(2)]] have c: "rpc_counted p 0 s v" by simp
    then have "rpc_counted p 1 v (backoff p v)" using assms(5-8) by (intro backoff_counted) (auto simp: rpc_counted_def counters_def)
    from counted_chain [OF c this] show ?thesis by (simp add: v(1))
  qed
  then have "rpc_counted p 1 s5 (backoff p s5)" using assms(5-8) by (intro backoff_counted) (auto simp: rpc_counted_def counters_def)
  from counted_chain [OF c5 this] have "rpc_counted p 2 s (backoff p s5)" by simp
  moreover have "init_op_project net p r s = (retval, backoff p s5)"
    using assms(1,3) bad by (simp add: init_op_project_def Let_def s3_def [symmetric] m st)
  ultimately show ?thesis using bad by (simp add: rpc_counted_def)
qed

theorem failed_request_counted_twice_witness:
  "p_nrpc_failures (proj (snd (init_op_project sample_sched_net 0 RPC_REASON_NEED_WORK failed_rpc)) 0)
     = p_nrpc_failures (proj failed_rpc 0) + 2"
proof -
  have c: "cannot_start sample_sched_net (get_scheduler_url failed_rpc 0 0 (so_url_random (sched_op failed_rpc)))"
    by (simp add: cannot_start_def sample_sched_net_def failed_rpc_def get_scheduler_url_def sample_defs trunc_int_def)
  show ?thesis
    using failed_request_counted_twice [of failed_rpc 0 sample_sched_net RPC_REASON_NEED_WORK] c
    by (simp add: failed_rpc_def sample_sched_net_def sample_defs)
qed

end
