(* ===== verification/Sched_Reply.thy ===== *)
theory Sched_Reply
  imports Account_File Sched_Op
begin

text \<open>
  Handling the reply of a scheduler (\<open>SCHEDULER_REPLY::parse\<close> in \<open>client/scheduler_op.C\<close>,
  \<open>CLIENT_STATE::handle_scheduler_reply\<close> in \<open>client/cs_scheduler.C\<close>,
  \<open>CLIENT_STATE::handle_trickle_down\<close> in \<open>client/cs_trickle.C\<close>). The reply file is the list of its
  elements, as the line parser recognises them; \<open>Inl\<close> in an element is the error its own parser
  returned.
\<close>

section \<open>The reply\<close>

datatype (plugins only: code size) reply_element =
    E_Project_Name string | E_Master_Url string | E_Symstore string | E_User_Name string
  | E_User_Total_Credit real | E_User_Expavg_Credit real | E_User_Create_Time real | E_Cpid_Time real
  | E_Team_Name string | E_Hostid int | E_Host_Total_Credit real | E_Host_Expavg_Credit real
  | E_Host_Venue string | E_Host_Create_Time real | E_Request_Delay real | E_Next_Rpc_Delay real
  | E_Global_Preferences "int + string" | E_Project_Preferences "int + string" | E_Gui_Urls "int + string"
  | E_Code_Sign_Key "int + string" | E_Code_Sign_Key_Signature "int + string"
  | E_App "int + APP" | E_File_Info "int + FILE_INFO" | E_App_Version "int + APP_VERSION"
  | E_Workunit "int + WORKUNIT" | E_Result "int + RESULT"
  | E_Result_Ack "int + string" | E_Result_Abort "int + string" | E_Result_Abort_If_Not_Started "int + string"
  | E_Delete_File_Info string | E_Message string string | E_Message_Ack | E_Project_Is_Down
  | E_Email_Hash string | E_Cross_Project_Id string | E_Trickle_Down string bool
  | E_Non_Cpu_Intensive bool | E_Ended bool | E_Request_File_List | E_Scheduler_Version int
  | E_Project_Files "FILE_REF list" | E_Other | E_Close

record SCHEDULER_REPLY =
  sr_hostid :: int
  sr_request_delay :: real
  sr_next_rpc_delay :: real
  sr_messages :: "(string \<times> string) list"
  sr_global_prefs_xml :: "string option"
  sr_project_prefs_xml :: "string option"
  sr_master_url :: string
  sr_host_venue :: string
  sr_apps :: "APP list"
  sr_file_infos :: "FILE_INFO list"
  sr_file_deletes :: "string list"
  sr_app_versions :: "APP_VERSION list"
  sr_workunits :: "WORKUNIT list"
  sr_results :: "RESULT list"
  sr_result_acks :: "string list"
  sr_result_abort :: "string list"
  sr_result_abort_if_not_started :: "string list"
  sr_code_sign_key :: "string option"
  sr_code_sign_key_signature :: "string option"
  sr_message_ack :: bool
  sr_project_is_down :: bool
  sr_send_file_list :: bool
  sr_scheduler_version :: int

text \<open>The project keeps its venue when the reply does not name one.\<close>

definition blank_reply :: "PROJECT \<Rightarrow> SCHEDULER_REPLY" where
  "blank_reply x = \<lparr>sr_hostid = 0, sr_request_delay = 0, sr_next_rpc_delay = 0, sr_messages = [],
     sr_global_prefs_xml = None, sr_project_prefs_xml = None, sr_master_url = [],
     sr_host_venue = p_host_venue x, sr_apps = [], sr_file_infos = [], sr_file_deletes = [],
     sr_app_versions = [], sr_workunits = [], sr_results = [], sr_result_acks = [], sr_result_abort = [],
     sr_result_abort_if_not_started = [], sr_code_sign_key = None, sr_code_sign_key_signature = None,
     sr_message_ack = False, sr_project_is_down = False, sr_send_file_list = False, sr_scheduler_version = 0\<rparr>"

text \<open>Elements that go straight to the project.\<close>

definition element_project :: "reply_element \<Rightarrow> PROJECT \<Rightarrow> PROJECT" where
  "element_project e x =
     (case e of
        E_Project_Name v \<Rightarrow> x\<lparr>p_project_name := v\<rparr>
      | E_Symstore v \<Rightarrow> x\<lparr>p_symstore := v\<rparr>
      | E_User_Name v \<Rightarrow> x\<lparr>p_user_name := v\<rparr>
      | E_User_Total_Credit v \<Rightarrow> x\<lparr>p_user_total_credit := v\<rparr>
      | E_User_Expavg_Credit v \<Rightarrow> x\<lparr>p_user_expavg_credit := v\<rparr>
      | E_User_Create_Time v \<Rightarrow> x\<lparr>p_user_create_time := v\<rparr>
      | E_Team_Name v \<Rightarrow> x\<lparr>p_team_name := v\<rparr>
      | E_Host_Total_Credit v \<Rightarrow> x\<lparr>p_host_total_credit := v\<rparr>
      | E_Host_Expavg_Credit v \<Rightarrow> x\<lparr>p_host_expavg_credit := v\<rparr>
      | E_Host_Create_Time v \<Rightarrow> x\<lparr>p_host_create_time := v\<rparr>
      | E_Gui_Urls (Inr v) \<Rightarrow> x\<lparr>p_gui_urls := in_gui_urls v\<rparr>
      | E_Email_Hash v \<Rightarrow> x\<lparr>p_email_hash := v\<rparr>
      | E_Cross_Project_Id v \<Rightarrow> x\<lparr>p_cross_project_id := v\<rparr>
      | E_Non_Cpu_Intensive v \<Rightarrow> x\<lparr>p_non_cpu_intensive := v\<rparr>
      | E_Ended v \<Rightarrow> x\<lparr>p_ended := v\<rparr>
      | E_Project_Files v \<Rightarrow> x\<lparr>p_project_files := v\<rparr>
      | _ \<Rightarrow> x)"

text \<open>Elements that go into the reply object; those whose own parser failed are skipped.\<close>

definition element_reply :: "reply_element \<Rightarrow> SCHEDULER_REPLY \<Rightarrow> SCHEDULER_REPLY" where
  "element_reply e sr =
     (case e of
        E_Master_Url v \<Rightarrow> sr\<lparr>sr_master_url := v\<rparr>
      | E_Hostid v \<Rightarrow> sr\<lparr>sr_hostid := v\<rparr>
      | E_Host_Venue v \<Rightarrow> sr\<lparr>sr_host_venue := v\<rparr>
      | E_Request_Delay v \<Rightarrow> sr\<lparr>sr_request_delay := v\<rparr>
      | E_Next_Rpc_Delay v \<Rightarrow> sr\<lparr>sr_next_rpc_delay := v\<rparr>
      | E_Global_Preferences (Inr v) \<Rightarrow> sr\<lparr>sr_global_prefs_xml := Some v\<rparr>
      | E_Project_Preferences (Inr v) \<Rightarrow> sr\<lparr>sr_project_prefs_xml := Some v\<rparr>
      | E_Code_Sign_Key (Inr v) \<Rightarrow> sr\<lparr>sr_code_sign_key := Some v\<rparr>
      | E_Code_Sign_Key_Signature (Inr v) \<Rightarrow> sr\<lparr>sr_code_sign_key_signature := Some v\<rparr>
      | E_App (Inr v) \<Rightarrow> sr\<lparr>sr_apps := sr_apps sr @ [v]\<rparr>
      | E_File_Info (Inr v) \<Rightarrow> sr\<lparr>sr_file_infos := sr_file_infos sr @ [v]\<rparr>
      | E_App_Version (Inr v) \<Rightarrow> sr\<lparr>sr_app_versions := sr_app_versions sr @ [v]\<rparr>
      | E_Workunit (Inr v) \<Rightarrow> sr\<lparr>sr_workunits := sr_workunits sr @ [v]\<rparr>
      | E_Result (Inr v) \<Rightarrow> sr\<lparr>sr_results := sr_results sr @ [v]\<rparr>
      | E_Result_Ack (Inr v) \<Rightarrow> sr\<lparr>sr_result_acks := sr_result_acks sr @ [v]\<rparr>
      | E_Result_Abort (Inr v) \<Rightarrow> sr\<lparr>sr_result_abort := sr_result_abort sr @ [v]\<rparr>
      | E_Result_Abort_If_Not_Started (Inr v) \<Rightarrow>
          sr\<lparr>sr_result_abort_if_not_started := sr_result_abort_if_not_started sr @ [v]\<rparr>
      | E_Delete_File_Info v \<Rightarrow> sr\<lparr>sr_file_deletes := sr_file_deletes sr @ [v]\<rparr>
      | E_Message m prio \<Rightarrow> sr\<lparr>sr_messages := sr_messages sr @ [(m, prio)]\<rparr>
      | E_Message_Ack \<Rightarrow> sr\<lparr>sr_message_ack := True\<rparr>
      | E_Project_Is_Down \<Rightarrow> sr\<lparr>sr_project_is_down := True\<rparr>
      | E_Request_File_List \<Rightarrow> sr\<lparr>sr_send_file_list := True\<rparr>
      | E_Scheduler_Version v \<Rightarrow> sr\<lparr>sr_scheduler_version := v\<rparr>
      | _ \<Rightarrow> sr)"

text \<open>Preferences, URLs and keys that cannot be parsed end the parsing.\<close>

definition element_error :: "reply_element \<Rightarrow> int option" where
  "element_error e =
     (case e of
        E_Global_Preferences (Inl retval) \<Rightarrow> Some retval
      | E_Project_Preferences (Inl retval) \<Rightarrow> Some retval
      | E_Gui_Urls (Inl retval) \<Rightarrow> Some retval
      | E_Code_Sign_Key (Inl _) \<Rightarrow> Some ERR_XML_PARSE
      | E_Code_Sign_Key_Signature (Inl _) \<Rightarrow> Some ERR_XML_PARSE
      | _ \<Rightarrow> None)"

text \<open>The trickle-down message is written to the slot of the task, if it runs and the file opens.\<close>

definition handle_trickle_down :: "pid \<Rightarrow> string \<Rightarrow> bool \<Rightarrow> CLIENT_STATE \<Rightarrow> int \<times> CLIENT_STATE" where
  "handle_trickle_down p name opened s =
     (case lookup_result_name s p name of
        None \<Rightarrow> (ERR_NULL, s)
      | Some r \<Rightarrow>
          (case lookup_active_task_by_result s r of
             None \<Rightarrow> (ERR_NULL, s)
           | Some a \<Rightarrow> if \<not> opened then (ERR_FOPEN, s)
                       else (0, upd_task a (\<lambda>t. t\<lparr>at_have_trickle_down := True\<rparr>) s)))"

text \<open>The statistics of the project get one record per day; old ones are deleted when a day begins.\<close>

definition update_statistics :: "real \<Rightarrow> int \<Rightarrow> PROJECT \<Rightarrow> PROJECT" where
  "update_statistics day save_days x =
     (let ds = \<lparr>ds_user_total_credit = p_user_total_credit x, ds_user_expavg_credit = p_user_expavg_credit x,
                ds_host_total_credit = p_host_total_credit x, ds_host_expavg_credit = p_host_expavg_credit x,
                ds_day = day\<rparr>;
          st = p_statistics x
      in x\<lparr>p_statistics :=
           (if st = [] \<or> ds_day (last st) \<noteq> day
            then dropWhile (\<lambda>d. day - ds_day d > real_of_int save_days * 86400) st
            else butlast st) @ [ds]\<rparr>)"

definition end_of_reply :: "real \<Rightarrow> real \<Rightarrow> pid \<Rightarrow> CLIENT_STATE \<Rightarrow> CLIENT_STATE" where
  "end_of_reply day cpid_time p s = upd_proj p (\<lambda>x.
     let y = update_statistics day (cf_save_stats_days (config s)) x
     in y\<lparr>p_cpid_time := (if cpid_time \<noteq> 0 then cpid_time else p_user_create_time y)\<rparr>) s"

fun parse_reply :: "real \<Rightarrow> pid \<Rightarrow> reply_element list \<Rightarrow> real \<Rightarrow> SCHEDULER_REPLY \<Rightarrow> CLIENT_STATE
    \<Rightarrow> int \<times> SCHEDULER_REPLY \<times> CLIENT_STATE" where
  "parse_reply day p [] cpid_time sr s = (ERR_XML_PARSE, sr, s)"
| "parse_reply day p (e # es) cpid_time sr s =
     (case e of
        E_Close \<Rightarrow> (0, sr, end_of_reply day cpid_time p s)
      | E_Cpid_Time t \<Rightarrow> parse_reply day p es t sr s
      | E_Trickle_Down name opened \<Rightarrow> parse_reply day p es cpid_time sr (snd (handle_trickle_down p name opened s))
      | _ \<Rightarrow> (case element_error e of
                Some retval \<Rightarrow> (retval, sr, s)
              | None \<Rightarrow> parse_reply day p es cpid_time (element_reply e sr) (upd_proj p (element_project e) s)))"

section \<open>Preferences and account\<close>

text \<open>
  The answers of the environment: the reply file, with a flag whether its start tag is found, the day,
  whether the preference file can be written and what it then holds, the account file before
  and after writing it, the check of a signature (\<open>verify_string2\<close>, \<open>None\<close> when it
  fails), a new host identifier, and absolute paths.
\<close>

record REPLY_IO =
  io_reply :: "(bool \<times> reply_element list) option"
  io_day :: real
  io_save_prefs :: bool
  io_prefs :: PREFS_FILES
  io_write_account :: int
  io_account :: "account_element list option"
  io_net :: NET
  io_verify :: "string \<Rightarrow> string \<Rightarrow> string \<Rightarrow> bool option"
  io_host_cpid :: string
  io_abs_path :: "fid \<Rightarrow> string"

definition save_reply_prefs :: "REPLY_IO \<Rightarrow> SCHEDULER_REPLY \<Rightarrow> CLIENT_STATE \<Rightarrow> int \<times> bool" where
  "save_reply_prefs io sr s =
     (if sr_global_prefs_xml sr \<noteq> None
         \<and> (\<not> gp_host_specific (global_prefs s) \<or> sr_scheduler_version sr \<ge> 507)
      then if io_save_prefs io then (0, True) else (ERR_FOPEN, False)
      else (0, False))"

definition new_venue :: "pid \<Rightarrow> SCHEDULER_REPLY \<Rightarrow> bool \<Rightarrow> CLIENT_STATE \<Rightarrow> bool \<times> bool \<times> CLIENT_STATE" where
  "new_venue p sr update_global s =
     (if p_host_venue (proj s p) = sr_host_venue sr then (False, update_global, s)
      else let s1 = upd_proj p (\<lambda>x. x\<lparr>p_host_venue := take 255 (sr_host_venue sr)\<rparr>) s in
        if global_prefs_source_project s1 = Some p
        then (True, True, s1\<lparr>main_host_venue := sr_host_venue sr\<rparr>)
        else (True, update_global, s1))"

definition new_project_prefs :: "pid \<Rightarrow> SCHEDULER_REPLY \<Rightarrow> bool \<Rightarrow> CLIENT_STATE \<Rightarrow> bool \<times> CLIENT_STATE" where
  "new_project_prefs p sr update s =
     (case sr_project_prefs_xml sr of
        None \<Rightarrow> (update, s)
      | Some xml \<Rightarrow> if p_project_prefs (proj s p) = xml then (update, s)
                    else (True, upd_proj p (\<lambda>x. x\<lparr>p_project_prefs := xml\<rparr>) s))"

definition reread_account :: "REPLY_IO \<Rightarrow> pid \<Rightarrow> CLIENT_STATE \<Rightarrow> CLIENT_STATE option" where
  "reread_account io p s =
     (case parse_account_file (io_account io) (proj s p) of
        Inl _ \<Rightarrow> None
      | Inr (_, x) \<Rightarrow>
          let s1 = upd_proj p (\<lambda>_. x) s;
              s2 = (if p_host_venue (proj s1 p) = [] then s1
                    else upd_proj p (\<lambda>y. snd (parse_account_file_venue (io_account io) y)) s1);
              s3 = parse_preferences_for_user_files p s2
          in case request_reread_prefs (io_net io) p (active_tasks s3) s3 of Inl _ \<Rightarrow> None | Inr s4 \<Rightarrow> Some s4)"

text \<open>A new key is accepted if there is none yet, or if it is signed with the present one.\<close>

definition new_code_sign_key :: "REPLY_IO \<Rightarrow> pid \<Rightarrow> SCHEDULER_REPLY \<Rightarrow> CLIENT_STATE \<Rightarrow> CLIENT_STATE" where
  "new_code_sign_key io p sr s =
     (case sr_code_sign_key sr of
        None \<Rightarrow> s
      | Some key \<Rightarrow>
          let accept = upd_proj p (\<lambda>x. x\<lparr>p_code_sign_key := take 4095 key\<rparr>) s in
          if p_code_sign_key (proj s p) = [] then accept
          else (case sr_code_sign_key_signature sr of
                  None \<Rightarrow> s
                | Some sig \<Rightarrow> if io_verify io key sig (p_code_sign_key (proj s p)) = Some True then accept else s))"

section \<open>New objects\<close>

definition reply_app :: "pid \<Rightarrow> APP \<Rightarrow> CLIENT_STATE \<Rightarrow> CLIENT_STATE" where
  "reply_app p x s =
     (case lookup_app s p (app_name x) of
        Some a \<Rightarrow> upd_appl a (\<lambda>y. y\<lparr>app_user_friendly_name := app_user_friendly_name x\<rparr>) s
      | None \<Rightarrow> (case link_app s p x of (retval, y) \<Rightarrow> if retval \<noteq> 0 then s else add_app y s))"

definition reply_file :: "pid \<Rightarrow> FILE_INFO \<Rightarrow> CLIENT_STATE \<Rightarrow> CLIENT_STATE" where
  "reply_file p x s =
     (case lookup_file_info s p (fi_name x) of
        Some f \<Rightarrow> upd_finfo f (merge_info x) s
      | None \<Rightarrow> (case link_file_info s p x of (retval, y) \<Rightarrow> if retval \<noteq> 0 then s else add_file_info y s))"

definition reply_delete :: "pid \<Rightarrow> string \<Rightarrow> CLIENT_STATE \<Rightarrow> CLIENT_STATE" where
  "reply_delete p name s =
     (case lookup_file_info s p name of
        None \<Rightarrow> s | Some f \<Rightarrow> upd_finfo f (\<lambda>y. y\<lparr>fi_marked_for_delete := True\<rparr>) s)"

definition reply_app_version :: "REPLY_IO \<Rightarrow> pid \<Rightarrow> APP_VERSION \<Rightarrow> CLIENT_STATE \<Rightarrow> CLIENT_STATE" where
  "reply_app_version io p x s =
     (if av_platform x \<noteq> [] \<and> \<not> is_supported_platform s (av_platform x) then s
      else let
        x1 = (if av_platform x = [] then x\<lparr>av_platform := take 255 (get_primary_platform s)\<rparr> else x)
      in case lookup_app_version s (lookup_app s p (av_app_name x1)) (av_platform x1) (av_version_num x1)
                (av_plan_class x1) of
           Some v \<Rightarrow> av_clear_errors v (upd_appver v (\<lambda>y. y\<lparr>av_avg_ncpus := av_avg_ncpus x1,
               av_max_ncpus := av_max_ncpus x1, av_flops := av_flops x1, av_cmdline := av_cmdline x1,
               av_api_version := take 15 (av_api_version x1)\<rparr>) s)
         | None \<Rightarrow> (case link_app_version (io_abs_path io) p x1 s of (retval, y, s1) \<Rightarrow>
                      if retval \<noteq> 0 then s1 else add_app_version y s1))"

definition reply_workunit :: "pid \<Rightarrow> WORKUNIT \<Rightarrow> CLIENT_STATE \<Rightarrow> CLIENT_STATE" where
  "reply_workunit p x s =
     (if lookup_workunit s p (wu_name x) \<noteq> None then s
      else case link_workunit s p (x\<lparr>wu_project := p\<rparr>) of (retval, y) \<Rightarrow>
        if retval \<noteq> 0 then s else add_workunit y (clear_file_errors (wu_input_files y) s))"

text \<open>A result is added if its workunit, its files and its application version are known.\<close>

definition reply_result :: "pid \<Rightarrow> RESULT \<Rightarrow> int \<times> CLIENT_STATE \<Rightarrow> int \<times> CLIENT_STATE" where
  "reply_result p x st =
     (case st of (nresults, s) \<Rightarrow>
      if lookup_result_name s p (r_name x) \<noteq> None then (nresults, s)
      else case link_result s p x of (retval, y) \<Rightarrow>
        if retval \<noteq> 0 then (nresults, s)
        else let
          a = wu_app (wunit s (r_wup y));
          platform = (if r_platform y = [] then take 255 (get_primary_platform s) else r_platform y);
          version_num = (if r_platform y = [] then latest_version s a platform else r_version_num y)
        in case lookup_app_version s (Some a) platform version_num (r_plan_class y) of
             None \<Rightarrow> (nresults, s)
           | Some v \<Rightarrow>
               (nresults + 1,
                add_result (y\<lparr>r_platform := platform, r_version_num := version_num, r_avp := v,
                              r_received_time := now s, r_state := RESULT_NEW\<rparr>)
                  (upd_wunit (r_wup y) (\<lambda>w. w\<lparr>wu_version_num := version_num\<rparr>) s)))"

definition reply_ack :: "pid \<Rightarrow> string \<Rightarrow> CLIENT_STATE \<Rightarrow> CLIENT_STATE" where
  "reply_ack p name s =
     (case lookup_result_name s p name of
        None \<Rightarrow> s | Some r \<Rightarrow> upd_res r (\<lambda>x. x\<lparr>r_got_server_ack := True\<rparr>) s)"

definition reply_abort :: "pid \<Rightarrow> string \<Rightarrow> CLIENT_STATE \<Rightarrow> CLIENT_STATE" where
  "reply_abort p name s =
     (case lookup_result_name s p name of
        None \<Rightarrow> s
      | Some r \<Rightarrow>
          (case lookup_active_task_by_result s r of
             Some a \<Rightarrow> abort_task ERR_ABORTED_BY_PROJECT ''aborted by project - no longer usable'' a s
           | None \<Rightarrow> abort_inactive ERR_ABORTED_BY_PROJECT r s))"

definition reply_abort_if_not_started :: "pid \<Rightarrow> string \<Rightarrow> CLIENT_STATE \<Rightarrow> CLIENT_STATE" where
  "reply_abort_if_not_started p name s =
     (case lookup_result_name s p name of
        None \<Rightarrow> s
      | Some r \<Rightarrow> if lookup_active_task_by_result s r = None then abort_inactive ERR_ABORTED_BY_PROJECT r s else s)"

section \<open>The project\<close>

definition generate_new_host_cpid :: "string \<Rightarrow> CLIENT_STATE \<Rightarrow> CLIENT_STATE" where
  "generate_new_host_cpid cpid s =
     fold (\<lambda>q s. if p_attached_via_acct_mgr (proj s q)
                 then set_min_rpc_time (now s + 15) q
                        (upd_proj q (\<lambda>x. x\<lparr>p_sched_rpc_pending := RPC_REASON_ACCT_MGR_REQ\<rparr>) s)
                 else s) (projects s) (s\<lparr>host_info := (host_info s)\<lparr>hi_host_cpid := cpid\<rparr>\<rparr>)"

definition reply_flags :: "pid \<Rightarrow> SCHEDULER_REPLY \<Rightarrow> CLIENT_STATE \<Rightarrow> CLIENT_STATE" where
  "reply_flags p sr s = upd_proj p (\<lambda>x. x\<lparr>p_send_file_list := sr_send_file_list sr \<or> p_send_file_list x,
     p_sched_rpc_pending := NO_RPC_REASON, p_trickle_up_pending := False\<rparr>) s"

definition reply_hostid :: "REPLY_IO \<Rightarrow> pid \<Rightarrow> SCHEDULER_REPLY \<Rightarrow> CLIENT_STATE \<Rightarrow> CLIENT_STATE" where
  "reply_hostid io p sr s =
     (if sr_hostid sr = 0 then s
      else let s1 = (if p_hostid (proj s p) \<noteq> 0 then generate_new_host_cpid (io_host_cpid io) s else s)
           in upd_proj p (\<lambda>x. x\<lparr>p_hostid := sr_hostid sr, p_rpc_seqno := 0\<rparr>) s1)"

definition reply_delays :: "pid \<Rightarrow> SCHEDULER_REPLY \<Rightarrow> int \<Rightarrow> CLIENT_STATE \<Rightarrow> CLIENT_STATE" where
  "reply_delays p sr nresults s =
     (let s1 = upd_proj p (\<lambda>x. x\<lparr>p_next_rpc_time :=
                  (if sr_next_rpc_delay sr \<noteq> 0 then now s + sr_next_rpc_delay sr else 0)\<rparr>) s;
          s2 = (if p_work_request (proj s1 p) \<noteq> 0 \<and> nresults = 0 then backoff p s1
                else upd_proj p (\<lambda>x. x\<lparr>p_nrpc_failures := 0, p_min_rpc_time := 0\<rparr>) s1)
      in if sr_request_delay sr \<noteq> 0 then set_min_rpc_time (now s2 + sr_request_delay sr) p s2 else s2)"

section \<open>The handler\<close>

definition reply_entities :: "REPLY_IO \<Rightarrow> pid \<Rightarrow> SCHEDULER_REPLY \<Rightarrow> CLIENT_STATE \<Rightarrow> int \<times> CLIENT_STATE" where
  "reply_entities io p sr s =
     (let s1 = fold (reply_app p) (sr_apps sr) s;
          s2 = fold (reply_file p) (sr_file_infos sr) s1;
          s3 = fold (reply_delete p) (sr_file_deletes sr) s2;
          s4 = fold (reply_app_version io p) (sr_app_versions sr) s3;
          s5 = fold (reply_workunit p) (sr_workunits sr) s4
      in fold (reply_result p) (sr_results sr) (0, s5))"

definition reply_results :: "pid \<Rightarrow> SCHEDULER_REPLY \<Rightarrow> CLIENT_STATE \<Rightarrow> CLIENT_STATE" where
  "reply_results p sr s =
     fold (reply_abort_if_not_started p) (sr_result_abort_if_not_started sr)
       (fold (reply_abort p) (sr_result_abort sr) (fold (reply_ack p) (sr_result_acks sr) s))"

text \<open>From the code signing key on nothing can fail.\<close>

definition accept_reply :: "REPLY_IO \<Rightarrow> pid \<Rightarrow> SCHEDULER_REPLY \<Rightarrow> CLIENT_STATE \<Rightarrow> int \<times> CLIENT_STATE" where
  "accept_reply io p sr s =
     (case reply_entities io p sr (new_code_sign_key io p sr s) of (nresults, s1) \<Rightarrow>
        let s2 = reply_hostid io p sr (reply_flags p sr (reply_results p sr s1));
            s3 = set_client_state_dirty (link_project_files p s2);
            s4 = reply_delays p sr nresults s3
        in (0, snd (garbage_collect_always s4)))"

definition reply_prefs :: "REPLY_IO \<Rightarrow> string \<Rightarrow> pid \<Rightarrow> SCHEDULER_REPLY \<Rightarrow> CLIENT_STATE \<Rightarrow> (int \<times> CLIENT_STATE) option" where
  "reply_prefs io old_gui_urls p sr s =
     (case save_reply_prefs io sr s of (retval, update_global) \<Rightarrow>
      if retval \<noteq> 0 then Some (retval, s)
      else case new_venue p sr update_global s of (update1, update_global1, s1) \<Rightarrow>
        case (if update_global1 then read_global_prefs (io_prefs io) s1 else Inr s1) of
          Inl _ \<Rightarrow> None
        | Inr s2 \<Rightarrow>
          (case new_project_prefs p sr update1 s2 of (update2, s3) \<Rightarrow>
             if (p_gui_urls (proj s3 p) \<noteq> old_gui_urls \<or> update2) \<and> io_write_account io \<noteq> 0
             then Some (io_write_account io, s3)
             else if update2 then map_option (Pair 0) (reread_account io p s3) else Some (0, s3)))"

text \<open>\<open>None\<close>: the code reads outside a string, follows a null pointer, or an exception is not caught.\<close>

definition handle_scheduler_reply :: "REPLY_IO \<Rightarrow> pid \<Rightarrow> CLIENT_STATE \<Rightarrow> (int \<times> CLIENT_STATE) option" where
  "handle_scheduler_reply io p s =
     (let s1 = upd_proj p (\<lambda>x. x\<lparr>p_last_rpc_time := now s\<rparr>) (s\<lparr>contacted_sched_server := True\<rparr>) in
      case io_reply io of
        None \<Rightarrow> Some (ERR_FOPEN, s1)
      | Some (found_start_tag, es) \<Rightarrow>
          (case parse_reply (io_day io) p (if found_start_tag then es else []) 0 (blank_reply (proj s1 p)) s1 of
             (retval, sr, s2) \<Rightarrow>
               if retval \<noteq> 0 then Some (retval, s2)
               else if sr_master_url sr \<noteq> [] \<and> isl (canonicalize_master_url (sr_master_url sr)) then None
               else if sr_project_is_down sr
               then Some (ERR_PROJECT_DOWN,
                      if sr_request_delay sr \<noteq> 0 then set_min_rpc_time (now s2 + sr_request_delay sr) p s2 else s2)
               else case reply_prefs io (p_gui_urls (proj s p)) p sr s2 of
                 None \<Rightarrow> None
               | Some (retval2, s3) \<Rightarrow>
                   if retval2 \<noteq> 0 then Some (retval2, s3) else Some (accept_reply io p sr s3)))"

end
