(* ===== verification/View_Frame.thy ===== *)
theory View_Frame
  imports Sched_Reply
begin

text \<open>
  What the handling of a reply and the garbage collector leave alone. A view of the state that does not
  depend on the heaps of files, results, workunits, versions, tasks and transfers, and depends on a
  project only through \<open>key\<close>, is the same after every operation that keeps \<open>key\<close>. The lemmas are
  proved once for such a view, in the locale \<open>project_view\<close>, and used through its interpretations.
\<close>

locale project_view =
  fixes view :: "CLIENT_STATE \<Rightarrow> 'a" and key :: "PROJECT \<Rightarrow> 'k"
  assumes view_finfo [simp]: "view (s\<lparr>finfo := v1\<rparr>) = view s"
    and view_res [simp]: "view (s\<lparr>res := v2\<rparr>) = view s"
    and view_wunit [simp]: "view (s\<lparr>wunit := v3\<rparr>) = view s"
    and view_appver [simp]: "view (s\<lparr>appver := v4\<rparr>) = view s"
    and view_task [simp]: "view (s\<lparr>task := v5\<rparr>) = view s"
    and view_appl [simp]: "view (s\<lparr>appl := v6\<rparr>) = view s"
    and view_rand [simp]: "view (s\<lparr>rand_pos := v7\<rparr>) = view s"
    and view_file_infos [simp]: "view (s\<lparr>file_infos := v8\<rparr>) = view s"
    and view_results [simp]: "view (s\<lparr>results := v9\<rparr>) = view s"
    and view_workunits [simp]: "view (s\<lparr>workunits := v10\<rparr>) = view s"
    and view_app_versions [simp]: "view (s\<lparr>app_versions := v11\<rparr>) = view s"
    and view_apps [simp]: "view (s\<lparr>apps := v12\<rparr>) = view s"
    and view_pers_file_xfers [simp]: "view (s\<lparr>pers_file_xfers := v13\<rparr>) = view s"
    and view_fxfer [simp]: "view (s\<lparr>fxfer := v14\<rparr>) = view s"
    and view_dirty [simp]: "view (s\<lparr>client_state_dirty := v15\<rparr>) = view s"
    and view_host_info [simp]: "view (s\<lparr>host_info := v16\<rparr>) = view s"
    and view_venue [simp]: "view (s\<lparr>main_host_venue := v17\<rparr>) = view s"
    and view_prefs [simp]: "view (s\<lparr>global_prefs := v18\<rparr>) = view s"
    and view_ncpus [simp]: "view (s\<lparr>ncpus := v19\<rparr>) = view s"
    and view_benchmarks [simp]: "view (s\<lparr>run_cpu_benchmarks := v20\<rparr>) = view s"
    and view_schedule [simp]: "view (s\<lparr>must_schedule_cpus := v21\<rparr>) = view s"
    and view_fetch [simp]: "view (s\<lparr>must_check_work_fetch := v22\<rparr>) = view s"
    and view_contacted [simp]: "view (s\<lparr>contacted_sched_server := v23\<rparr>) = view s"
    and view_proj: "key (upd (proj s p)) = key (proj s p) \<Longrightarrow> view (upd_proj p upd s) = view s"
    and key_rpc [simp]: "key (x\<lparr>p_min_rpc_time := w1\<rparr>) = key x" "key (x\<lparr>p_possibly_backed_off := w2\<rparr>) = key x"
      "key (x\<lparr>p_nrpc_failures := w3\<rparr>) = key x" "key (x\<lparr>p_master_fetch_failures := w4\<rparr>) = key x"
      "key (x\<lparr>p_master_url_fetch_pending := w5\<rparr>) = key x"
begin

lemma view_upds [simp]:
  "view (upd_finfo i1 f1 s) = view s" "view (upd_res i2 f2 s) = view s" "view (upd_wunit i3 f3 s) = view s"
  "view (upd_appver i4 f4 s) = view s" "view (upd_task i5 f5 s) = view s" "view (upd_appl i6 f6 s) = view s"
  "view (upd_fxfer i7 f7 s) = view s"
  by (simp_all add: upd_finfo_def upd_res_def upd_wunit_def upd_appver_def upd_task_def upd_appl_def upd_fxfer_def)

lemma view_set_min_rpc_time [simp]: "view (set_min_rpc_time t p s) = view s"
  by (simp add: set_min_rpc_time_def view_proj)

lemma view_exponential_backoff [simp]: "view (snd (calculate_exponential_backoff n mn mx s)) = view s"
  using exponential_backoff_state [of n mn mx s] by auto

lemma view_backoff [simp]: "view (backoff p s) = view s"
  by (simp add: backoff_def Let_def split_beta view_proj)

lemma view_report_result_error [simp]: "view (report_result_error r m s) = view s"
  by (simp add: report_result_error_def Let_def)

lemma view_abort_task [simp]: "view (abort_task e m a s) = view s"
  by (simp add: abort_task_def Let_def request_abort_def send_control_def set_task_state_def)

lemma view_abort_inactive [simp]: "view (abort_inactive e r s) = view s"
  by (simp add: abort_inactive_def)

text \<open>The garbage collector.\<close>

lemma view_ref_files [simp]: "view (ref_files frs s) = view s"
  unfolding ref_files_def by (rule fold_frame) (simp add: ref_file_def)

lemma view_gc_result [simp]: "view (snd (gc_result r s)) = view s"
proof -
  have up: "view (gc_upload_errors r s) = view s" for s
    by (simp add: gc_upload_errors_def Let_def split_beta gc_output_files_refs split: option.split)
  have down: "view (gc_download_errors r s) = view s" for s by (simp add: gc_download_errors_def Let_def)
  show ?thesis by (simp add: gc_result_def Let_def ref_avp_and_wup_def up down)
qed

lemma view_gc_loops [simp]:
  "view (snd (gc_results rs s)) = view s" "view (snd (gc_workunits ws s)) = view s" "view (snd (gc_files fs s)) = view s"
proof -
  show "view (snd (gc_results rs s)) = view s"
  proof (induction rs arbitrary: s)
    case (Cons r rs)
    show ?case using Cons [of "snd (gc_result r s)"] by (simp add: split_beta)
  qed simp
  show "view (snd (gc_workunits ws s)) = view s" by (induction ws arbitrary: s) (auto simp: split_beta)
  have "view (gc_drop_transfer f s) = view s" for f s
    by (simp add: gc_drop_transfer_def pfxs_remove_def split: option.split)
  then show "view (snd (gc_files fs s)) = view s" by (induction fs arbitrary: s) (auto simp: split_beta)
qed

lemma view_garbage_collect [simp]: "view (snd (garbage_collect_always s)) = view s"
proof -
  have z: "view (zero_ref_counts s) = view s" for s
    unfolding zero_ref_counts_def Let_def by (simp add: fold_frame [of _ view])
  have p: "view (ref_project_files s) = view s" for s
    unfolding ref_project_files_def by (rule fold_frame) (simp add: Let_def)
  have a: "view (ref_app_files s) = view s" for s unfolding ref_app_files_def by (rule fold_frame) simp
  have t: "view (ref_transfers s) = view s" for s
    unfolding ref_transfers_def Let_def by (simp add: fold_frame [of _ view] ref_file_def)
  show ?thesis
    by (simp add: garbage_collect_always_def Let_def gc_state_def gc_collect_files_def gc_collect_results_def
        gc_collect_workunits_def gc_collect_app_versions_def split_beta z p a t)
qed

end

text \<open>
  A view that the reply of a scheduler does not touch: \<open>key\<close> depends on none of the fields that the
  reply, the account file and the preferences set.
\<close>

locale reply_view = project_view +
  assumes key_reply [simp]:
      "key (x\<lparr>p_last_rpc_time := u1\<rparr>) = key x" "key (x\<lparr>p_project_name := u2\<rparr>) = key x" "key (x\<lparr>p_symstore := u3\<rparr>) = key x"
      "key (x\<lparr>p_user_name := u4\<rparr>) = key x" "key (x\<lparr>p_user_total_credit := u5\<rparr>) = key x" "key (x\<lparr>p_user_expavg_credit := u6\<rparr>) = key x"
      "key (x\<lparr>p_user_create_time := u7\<rparr>) = key x" "key (x\<lparr>p_team_name := u8\<rparr>) = key x" "key (x\<lparr>p_host_total_credit := u9\<rparr>) = key x"
      "key (x\<lparr>p_host_expavg_credit := u10\<rparr>) = key x" "key (x\<lparr>p_host_create_time := u11\<rparr>) = key x" "key (x\<lparr>p_gui_urls := u12\<rparr>) = key x"
      "key (x\<lparr>p_email_hash := u13\<rparr>) = key x" "key (x\<lparr>p_cross_project_id := u14\<rparr>) = key x" "key (x\<lparr>p_non_cpu_intensive := u15\<rparr>) = key x"
      "key (x\<lparr>p_ended := u16\<rparr>) = key x" "key (x\<lparr>p_project_files := u17\<rparr>) = key x" "key (x\<lparr>p_statistics := u18\<rparr>) = key x"
      "key (x\<lparr>p_cpid_time := u19\<rparr>) = key x" "key (x\<lparr>p_host_venue := u20\<rparr>) = key x" "key (x\<lparr>p_project_prefs := u21\<rparr>) = key x"
      "key (x\<lparr>p_master_url := u22\<rparr>) = key x" "key (x\<lparr>p_authenticator := u23\<rparr>) = key x" "key (x\<lparr>p_resource_share := u24\<rparr>) = key x"
      "key (x\<lparr>p_project_specific_prefs := u25\<rparr>) = key x" "key (x\<lparr>p_using_venue_specific_prefs := u26\<rparr>) = key x" "key (x\<lparr>p_user_files := u27\<rparr>) = key x"
      "key (x\<lparr>p_send_file_list := u28\<rparr>) = key x" "key (x\<lparr>p_sched_rpc_pending := u29\<rparr>) = key x" "key (x\<lparr>p_trickle_up_pending := u30\<rparr>) = key x"
      "key (x\<lparr>p_hostid := u31\<rparr>) = key x" "key (x\<lparr>p_rpc_seqno := u32\<rparr>) = key x" "key (x\<lparr>p_next_rpc_time := u33\<rparr>) = key x"
begin

lemma key_element [simp]: "key (element_project e x) = key x"
  by (cases e) (auto simp: element_project_def split: sum.splits)

lemma view_trickle [simp]: "view (snd (handle_trickle_down p name opened s)) = view s"
  by (simp add: handle_trickle_down_def split: option.split)

lemma key_update_statistics [simp]: "key (update_statistics day n x) = key x"
  by (simp add: update_statistics_def Let_def)

lemma view_end_of_reply [simp]: "view (end_of_reply day t p s) = view s"
  unfolding end_of_reply_def by (rule view_proj) (simp add: Let_def)

lemma view_parse_reply: "parse_reply day p es t sr s = (retval, sr', s') \<Longrightarrow> view s' = view s"
proof (induction es arbitrary: t sr s)
  case (Cons e es)
  have e: "view (upd_proj p (element_project e) s) = view s" by (simp add: view_proj)
  show ?case
  proof (cases e)
    case (E_Cpid_Time t')
    then show ?thesis using Cons.IH Cons.prems by simp
  next
    case (E_Trickle_Down name opened)
    then show ?thesis using Cons.IH [of t sr "snd (handle_trickle_down p name opened s)"] Cons.prems by simp
  next
    case E_Close
    then show ?thesis using Cons.prems by auto
  qed (use Cons.prems e Cons.IH [of t "element_reply e sr" "upd_proj p (element_project e) s"] in
      \<open>simp split: option.splits\<close>)+
qed simp

lemma key_parse_account: "parse_account_file file x = Inr (retval, y) \<Longrightarrow> key y = key x"
proof -
  have loop: "parse_account_loop es x = Inr (retval, y) \<Longrightarrow> key y = key x" for es x
    by (induction es x rule: parse_account_loop.induct)
      (auto simp: Let_def split: account_element.splits option.splits sum.splits if_splits)
  show "parse_account_file file x = Inr (retval, y) \<Longrightarrow> key y = key x"
    by (auto simp: parse_account_file_def parse_account_def dest: loop split: option.splits)
qed

lemma key_parse_venue [simp]: "key (snd (parse_account_file_venue file x)) = key x"
proof -
  have "key (snd (parse_venue_loop b es x)) = key x" for b es x
    by (induction b es x rule: parse_venue_loop.induct)
      (auto simp: Let_def split: account_element.splits option.splits)
  then show ?thesis by (simp add: parse_account_file_venue_def split: option.split)
qed

lemma view_add [simp]:
  "view (add_app x1 s) = view s" "view (add_file_info x2 s) = view s" "view (add_app_version x3 s) = view s"
  "view (add_workunit x4 s) = view s" "view (add_result x5 s) = view s"
  by (simp_all add: add_app_def add_file_info_def add_app_version_def add_workunit_def add_result_def Let_def)

lemma view_user_files [simp]: "view (parse_preferences_for_user_files p s) = view s"
proof -
  have "view (add_user_file p x s) = view s" for x s
    by (auto simp: add_user_file_def view_proj split: prod.split option.split)
  then show ?thesis unfolding parse_preferences_for_user_files_def by (simp add: fold_frame [of _ view] view_proj)
qed

lemma view_reread_prefs: "request_reread_prefs net p as s = Inr t \<Longrightarrow> view t = view s"
proof (induction as arbitrary: s)
  case (Cons a as)
  have "request_reread_prefs_task net a s = Inr u \<Longrightarrow> view u = view s" for u
    by (auto simp: request_reread_prefs_task_def split: if_splits)
  then show ?case using Cons by (fastforce simp: andThen_Inr split: if_splits)
qed simp

lemma view_reread_account: "reread_account io p s = Some t \<Longrightarrow> view t = view s"
  by (auto simp: reread_account_def Let_def view_proj dest!: view_reread_prefs key_parse_account
      split: sum.splits if_splits)

lemma view_bandwidth [simp]: "view (set_bandwidth_limits up s) = view s"
proof -
  have "view (fold (\<lambda>x s. if same_direction s up x then upd_fxfer x (\<lambda>f. f\<lparr>fx_speed_limit := y\<rparr>) s else s) xs s) = view s"
    for y xs s by (rule fold_frame) simp
  then show ?thesis by (simp add: set_bandwidth_limits_def Let_def)
qed

lemma view_read_global_prefs: "read_global_prefs fs s = Inr t \<Longrightarrow> view t = view s"
proof -
  have n: "view (set_ncpus s) = view s" for s
    by (simp add: set_ncpus_def Let_def request_work_fetch_def request_schedule_cpus_def)
  then have c: "view (prefs_changed s) = view s" for s
    by (simp add: prefs_changed_def request_work_fetch_def request_schedule_cpus_def)
  show "read_global_prefs fs s = Inr t \<Longrightarrow> view t = view s"
    by (erule read_global_prefs_result) (simp add: c)
qed

lemma view_reply_prefs: "reply_prefs io urls p sr s = Some (retval, t) \<Longrightarrow> view t = view s"
proof -
  have v: "view (snd (snd (new_venue p sr b s))) = view s" for b s by (simp add: new_venue_def Let_def view_proj)
  have n: "view (snd (new_project_prefs p sr b s)) = view s" for b s
    by (simp add: new_project_prefs_def view_proj split: option.split)
  show "reply_prefs io urls p sr s = Some (retval, t) \<Longrightarrow> view t = view s"
    using v n by (auto simp: reply_prefs_def Let_def split_beta dest!: view_reread_account view_read_global_prefs
        split: if_splits sum.splits)
qed

text \<open>New objects.\<close>

lemma view_clear_file_errors [simp]: "view (clear_file_errors frs s) = view s"
  unfolding clear_file_errors_def by (rule fold_frame) simp

lemma view_link_app_version: "link_app_version path p x s = (retval, y, t) \<Longrightarrow> view t = view s"
proof -
  have files: "link_app_files path p frs g s = (retval, frs', g', t) \<Longrightarrow> view t = view s" for frs g s retval frs' g' t
    by (induction frs arbitrary: g s frs') (auto simp: Let_def split: option.splits prod.splits)
  show "link_app_version path p x s = (retval, y, t) \<Longrightarrow> view t = view s"
    by (auto simp: link_app_version_def Let_def dest!: files split: option.splits prod.splits if_splits)
qed

lemma view_reply_steps [simp]:
  "view (reply_app p x1 s) = view s" "view (reply_file p x2 s) = view s" "view (reply_delete p x3 s) = view s"
  "view (reply_app_version io p x4 s) = view s" "view (reply_workunit p x5 s) = view s"
  "view (snd (reply_result p x6 st)) = view (snd st)" "view (reply_ack p x7 s) = view s"
  "view (reply_abort p x8 s) = view s" "view (reply_abort_if_not_started p x9 s) = view s"
  by (simp_all add: reply_app_def reply_file_def reply_delete_def reply_app_version_def Let_def av_clear_errors_def
      reply_workunit_def reply_result_def reply_ack_def reply_abort_def reply_abort_if_not_started_def view_link_app_version
      split: option.split prod.split)

lemma view_reply_entities [simp]: "view (snd (reply_entities io p sr s)) = view s"
proof -
  have "view (snd (fold (reply_result p) xs st)) = view (snd st)" for xs and st :: "int \<times> CLIENT_STATE"
    by (induction xs arbitrary: st) simp_all
  then show ?thesis unfolding reply_entities_def Let_def by (simp add: fold_frame [of _ view])
qed

lemma view_reply_results [simp]: "view (reply_results p sr s) = view s"
  unfolding reply_results_def by (simp add: fold_frame [of _ view])

lemma view_reply_hostid [simp]: "view (reply_hostid io p sr s) = view s"
proof -
  have "view (generate_new_host_cpid c s) = view s" for c s
    unfolding generate_new_host_cpid_def by (simp add: fold_frame [of _ view] view_proj)
  then show ?thesis by (simp add: reply_hostid_def Let_def view_proj)
qed

lemma view_link_project_files [simp]: "view (link_project_files p s) = view s"
  unfolding link_project_files_def Let_def by (simp add: view_proj fold_frame [of _ view])

lemma view_accept_reply:
  "accept_reply io p sr s = (retval, t) \<Longrightarrow> view t = view (new_code_sign_key io p sr s)"
  by (auto simp: accept_reply_def Let_def reply_delays_def reply_flags_def set_client_state_dirty_def view_proj split_beta)

text \<open>The whole handler: either it ended before the key was looked at, or after.\<close>

lemma view_handle_scheduler_reply:
  assumes "handle_scheduler_reply io p s = Some (retval, t)"
  shows "view t = view s \<or> (\<exists>sr u. view u = view s \<and> view t = view (new_code_sign_key io p sr u))"
proof -
  define s1 where "s1 = upd_proj p (\<lambda>x. x\<lparr>p_last_rpc_time := now s\<rparr>) (s\<lparr>contacted_sched_server := True\<rparr>)"
  have s1: "view s1 = view s" by (simp add: s1_def view_proj)
  show ?thesis
  proof (cases "io_reply io")
    case None
    then show ?thesis using assms s1 by (simp add: handle_scheduler_reply_def s1_def [symmetric] Let_def)
  next
    case (Some r)
    obtain found es where r: "r = (found, es)" by fastforce
    obtain retval1 sr s2 where p: "parse_reply (io_day io) p (if found then es else []) 0 (blank_reply (proj s1 p)) s1
        = (retval1, sr, s2)" by (metis prod_cases3)
    have s2: "view s2 = view s" using view_parse_reply [OF p] s1 by simp
    show ?thesis
      using assms s2 unfolding handle_scheduler_reply_def Let_def s1_def [symmetric] Some r
      by (auto simp: p split: if_splits option.splits dest!: view_reply_prefs view_accept_reply) blast+
  qed
qed

end

end
