(* ===== verification/Reply_Correct.thy ===== *)
theory Reply_Correct
  imports View_Frame Transfer_Limits
begin

text \<open>
  What the handler of a scheduler reply guarantees: who may change the code signing key, what a reply
  cannot change, and that the pointers between the objects of the client stay valid.
\<close>

section \<open>What a reply cannot change\<close>

definition sign_view :: "CLIENT_STATE \<Rightarrow> SCHEDULER_OP \<times> pid list \<times> (pid \<Rightarrow> string)" where
  "sign_view s = (sched_op s, projects s, \<lambda>q. p_code_sign_key (proj s q))"

interpretation sign: reply_view sign_view p_code_sign_key
  by unfold_locales (auto simp: sign_view_def upd_proj_def fun_eq_iff)

definition choices :: "PROJECT \<Rightarrow> bool \<times> bool \<times> bool \<times> bool \<times> real \<times> real \<times> real \<times> string list" where
  "choices x = (p_suspended_via_gui x, p_dont_request_more_work x, p_detach_when_done x,
     p_attached_via_acct_mgr x, p_ams_resource_share x, p_short_term_debt x, p_long_term_debt x, p_scheduler_urls x)"

definition choice_view :: "CLIENT_STATE \<Rightarrow> pid list \<times> aid list
    \<times> (pid \<Rightarrow> bool \<times> bool \<times> bool \<times> bool \<times> real \<times> real \<times> real \<times> string list)" where
  "choice_view s = (projects s, active_tasks s, \<lambda>q. choices (proj s q))"

interpretation choice: reply_view choice_view choices
  by unfold_locales (auto simp: choice_view_def choices_def upd_proj_def fun_eq_iff)

lemma new_code_sign_key_proj:
  "new_code_sign_key io p sr s = s
   \<or> (\<exists>key. new_code_sign_key io p sr s = upd_proj p (\<lambda>x. x\<lparr>p_code_sign_key := take 4095 key\<rparr>) s
        \<and> (p_code_sign_key (proj s p) = [] \<or> (\<exists>sig. io_verify io key sig (p_code_sign_key (proj s p)) = Some True)))"
  by (auto simp: new_code_sign_key_def Let_def split: option.splits)

lemma reply_accepted:
  assumes "io_reply io = Some (True, es)"
    "parse_reply (io_day io) p es 0 (blank_reply (proj (upd_proj p (\<lambda>x. x\<lparr>p_last_rpc_time := now s\<rparr>)
       (s\<lparr>contacted_sched_server := True\<rparr>)) p)) (upd_proj p (\<lambda>x. x\<lparr>p_last_rpc_time := now s\<rparr>)
       (s\<lparr>contacted_sched_server := True\<rparr>)) = (0, sr, s2)"
    "sr_master_url sr = []" "\<not> sr_project_is_down sr" "reply_prefs io (p_gui_urls (proj s p)) p sr s2 = Some (0, s3)"
  shows "handle_scheduler_reply io p s = Some (accept_reply io p sr s3)"
  using assms by (simp add: handle_scheduler_reply_def Let_def)

text \<open>A reply that only brings a first code signing key.\<close>

definition sample_io :: REPLY_IO where
  "sample_io = \<lparr>io_reply = Some (True, [E_Code_Sign_Key (Inr ''k''), E_Close]), io_day = 0, io_save_prefs = True,
     io_prefs = \<lparr>pr_prefs = None, pr_override = None, pr_time = 0\<rparr>,
     io_write_account = 0, io_account = None, io_net = sample_net, io_verify = (\<lambda>_ _ _. None),
     io_host_cpid = [], io_abs_path = (\<lambda>_. [])\<rparr>"

lemma sample_reply:
  obtains t where "handle_scheduler_reply sample_io 0 sample_state = Some (0, t)"
    "p_code_sign_key (proj t 0) = ''k''"
proof -
  let ?s1 = "upd_proj 0 (\<lambda>x. x\<lparr>p_last_rpc_time := now sample_state\<rparr>) (sample_state\<lparr>contacted_sched_server := True\<rparr>)"
  let ?sr = "(blank_reply (proj ?s1 0))\<lparr>sr_code_sign_key := Some ''k''\<rparr>"
  define s2 where "s2 = end_of_reply 0 0 0 (upd_proj 0 (\<lambda>x. x) ?s1)"
  have v: "p_host_venue (proj s2 0) = []" "p_gui_urls (proj s2 0) = []" "p_code_sign_key (proj s2 0) = []"
    by (simp_all add: s2_def end_of_reply_def update_statistics_def Let_def upd_proj_def sample_defs)
  have parse: "parse_reply 0 0 [E_Code_Sign_Key (Inr ''k''), E_Close] 0 (blank_reply (proj ?s1 0)) ?s1 = (0, ?sr, s2)"
    by (simp add: s2_def element_error_def element_reply_def element_project_def [abs_def])
  have prefs: "reply_prefs sample_io [] 0 ?sr s2 = Some (0, s2)"
    using v by (simp add: reply_prefs_def save_reply_prefs_def new_venue_def new_project_prefs_def blank_reply_def
        upd_proj_def sample_defs)
  obtain t where t: "accept_reply sample_io 0 ?sr s2 = (0, t)" by (simp add: accept_reply_def Let_def split_beta)
  have io: "io_reply sample_io = Some (True, [E_Code_Sign_Key (Inr ''k''), E_Close])" "io_day sample_io = 0"
    "p_gui_urls (proj sample_state 0) = []" "sr_master_url ?sr = []" "\<not> sr_project_is_down ?sr"
    by (simp_all add: sample_io_def sample_defs blank_reply_def)
  have "handle_scheduler_reply sample_io 0 sample_state = Some (0, t)"
    using reply_accepted [OF io(1) _ io(4,5), of 0 sample_state s2 s2] parse prefs t by (simp only: io)
  moreover have "p_code_sign_key (proj t 0) = ''k''"
    using sign.view_accept_reply [OF t] v(3)
    by (auto simp: sign_view_def new_code_sign_key_def fun_eq_iff upd_proj_def)
  ultimately show thesis by (rule that)
qed

text \<open>C20: A scheduler reply replaces the code signing key of its project only if the project had none, or
  if the new key carries a signature that verifies with the key the client has. The keys of all
  other projects stay as they are, whatever the reply contains and however its handling ends.\<close>

theorem code_sign_key_continuity:
  assumes "handle_scheduler_reply io p s = Some (retval, t)"
    "p_code_sign_key (proj t q) \<noteq> p_code_sign_key (proj s q)"
  shows "q = p \<and> (p_code_sign_key (proj s p) = []
    \<or> (\<exists>key sig. io_verify io key sig (p_code_sign_key (proj s p)) = Some True
          \<and> p_code_sign_key (proj t p) = take 4095 key))"
proof -
  obtain sr u where u: "sign_view u = sign_view s" "sign_view t = sign_view (new_code_sign_key io p sr u)"
    using sign.view_handle_scheduler_reply [OF assms(1)] assms(2) by (auto simp: sign_view_def fun_eq_iff)
  have keys: "p_code_sign_key (proj t r) = p_code_sign_key (proj (new_code_sign_key io p sr u) r)"
    "p_code_sign_key (proj u r) = p_code_sign_key (proj s r)" for r
    using u by (auto simp: sign_view_def fun_eq_iff)
  show ?thesis
    using new_code_sign_key_proj [of io p sr u] assms(2)
    by (auto simp: keys upd_proj_def split: if_splits)
qed

theorem code_sign_key_continuity_witness:
  "\<exists>t. handle_scheduler_reply sample_io 0 sample_state = Some (0, t) \<and> p_code_sign_key (proj t 0) = ''k''
     \<and> p_code_sign_key (proj sample_state 0) = []"
proof -
  obtain t where t: "handle_scheduler_reply sample_io 0 sample_state = Some (0, t)" "p_code_sign_key (proj t 0) = ''k''"
    by (rule sample_reply)
  have "p_code_sign_key (proj sample_state 0) = [] \<or> (\<exists>key sig. io_verify sample_io key sig (p_code_sign_key (proj sample_state 0)) = Some True)"
    using code_sign_key_continuity [OF t(1), of 0] t(2) by (auto simp: sample_defs)
  then show ?thesis using t by (auto simp: sample_io_def)
qed

text \<open>C21: A scheduler reply cannot attach or detach projects, change which tasks exist, or touch what the
  user and the account manager decided: whether a project is suspended, may send more work or is to
  be detached, the share the account manager set, and the debts between the projects.\<close>

theorem reply_keeps_choices:
  assumes "handle_scheduler_reply io p s = Some (retval, t)"
  shows "choice_view t = choice_view s"
proof -
  have "choice_view (new_code_sign_key io p sr u) = choice_view u" for sr u
    by (simp add: new_code_sign_key_def Let_def choice.view_proj choices_def split: option.split)
  then show ?thesis using choice.view_handle_scheduler_reply [OF assms] by auto
qed

theorem reply_keeps_choices_witness:
  "\<exists>t. handle_scheduler_reply sample_io 0 sample_state = Some (0, t) \<and> choice_view t = choice_view sample_state"
proof -
  obtain t where "handle_scheduler_reply sample_io 0 sample_state = Some (0, t)" by (rule sample_reply)
  then show ?thesis using reply_keeps_choices [of sample_io 0 sample_state 0 t] by blast
qed

section \<open>One operation at a time\<close>

lemma reply_handler_ok: "handler_ok (handle_scheduler_reply io)"
proof -
  have "sched_op (new_code_sign_key io p sr u) = sched_op u \<and> projects (new_code_sign_key io p sr u) = projects u" for p sr u
    by (simp add: new_code_sign_key_def Let_def split: option.split)
  then show ?thesis
    unfolding handler_ok_def using sign.view_handle_scheduler_reply [of io]
    by (fastforce simp: sign_view_def)
qed

text \<open>C22: The client runs at most one scheduler operation at a time, always for a project it is attached
  to. A poll starts an operation only when none is under way; one that is under way is continued
  with the same project or ended, never replaced, whatever the scheduler replied.\<close>

theorem scheduler_rpc_poll_one_operation:
  assumes "op_ok s" "owners_ok s" "scheduler_rpc_poll (handle_scheduler_reply io) net s = Some (a, t)"
  shows "op_ok t \<and> projects t = projects s
    \<and> (so_cur_proj (sched_op s) \<noteq> None \<longrightarrow>
         so_cur_proj (sched_op t) = None \<or> so_cur_proj (sched_op t) = so_cur_proj (sched_op s))"
  using scheduler_rpc_poll_ok [OF assms(1,2) reply_handler_ok assms(3)] .

text \<open>The poll after a failed RPC: the operation goes on with the third scheduler.\<close>

definition polled_state :: CLIENT_STATE where
  "polled_state = failed_rpc\<lparr>projects := [0], results := [], now := 100, sched_poll_last_time := 0,
     sched_op := (sched_op failed_rpc)\<lparr>so_cur_proj := Some 0, so_state := SCHEDULER_OP_STATE_RPC,
       so_http_op_state := HTTP_STATE_DONE, so_http_op_retval := 1\<rparr>\<rparr>"

theorem scheduler_rpc_poll_one_operation_witness:
  "\<exists>a t. scheduler_rpc_poll (handle_scheduler_reply sample_io) sample_sched_net polled_state = Some (a, t) \<and> op_ok t
     \<and> (so_cur_proj (sched_op t) = None \<or> so_cur_proj (sched_op t) = Some 0)"
proof -
  let ?u = "set_idle (polled_state\<lparr>sched_poll_last_time := now polled_state\<rparr>)"
  have st: "op_ok polled_state" "owners_ok polled_state"
    by (simp_all add: polled_state_def op_ok_def owners_ok_def)
  have "so_url_index (sched_op ?u) = 0" "length (p_scheduler_urls (proj ?u 0)) = 3"
    by (simp_all add: polled_state_def set_idle_def failed_rpc_def sample_defs)
  then obtain ok v where "try_schedulers sample_sched_net 0 ?u = Some (ok, v)"
    using try_schedulers_result [of ?u 0 sample_sched_net] by auto
  then obtain w where "rpc_failed sample_sched_net 0 ?u = Some w" by (cases ok) (auto simp: rpc_failed_def Let_def)
  then have "op_poll (handle_scheduler_reply sample_io) sample_sched_net (polled_state\<lparr>sched_poll_last_time := now polled_state\<rparr>) = Some (True, w)"
    by (simp add: op_poll_def Let_def polled_state_def)
  then have r: "scheduler_rpc_poll (handle_scheduler_reply sample_io) sample_sched_net polled_state
      = Some (so_state (sched_op w) = SCHEDULER_OP_STATE_IDLE, w)"
    by (simp add: scheduler_rpc_poll_def Let_def) (simp add: polled_state_def)
  have "so_cur_proj (sched_op polled_state) = Some 0" by (simp add: polled_state_def)
  then show ?thesis using scheduler_rpc_poll_one_operation [OF st r] r by auto
qed


end
