(* ===== verification/Reply_Links.thy ===== *)
theory Reply_Links
  imports Reply_Correct
begin

text \<open>
  The pointers between objects while a reply is handled. From the parsing of the reply on, the project
  files of its project are names only, until \<open>link_project_files\<close> has looked them up; every other
  pointer is valid all the time.
\<close>

section \<open>All pointers but those of the project files\<close>

definition user_refs :: "CLIENT_STATE \<Rightarrow> pid \<Rightarrow> fid list" where
  "user_refs s q = map fr_file_info (p_user_files (proj s q))"

definition file_refs_of_project :: "CLIENT_STATE \<Rightarrow> pid \<Rightarrow> fid list" where
  "file_refs_of_project s q = map fr_file_info (p_project_files (proj s q))"

definition pending_ok :: "pid \<Rightarrow> CLIENT_STATE \<Rightarrow> bool" where
  "pending_ok p s = (distinct (file_infos s)
     \<and> (\<forall>r \<in> set (results s). r_wup (res s r) \<in> set (workunits s) \<and> r_avp (res s r) \<in> set (app_versions s)
          \<and> set (output_refs s r) \<subseteq> set (file_infos s))
     \<and> (\<forall>w \<in> set (workunits s). set (input_refs s w) \<subseteq> set (file_infos s))
     \<and> (\<forall>v \<in> set (app_versions s). set (app_refs s v) \<subseteq> set (file_infos s))
     \<and> (\<forall>q \<in> set (projects s). set (user_refs s q) \<subseteq> set (file_infos s)
          \<and> (q \<noteq> p \<longrightarrow> set (file_refs_of_project s q) \<subseteq> set (file_infos s)))
     \<and> set (transfer_refs s) \<subseteq> set (file_infos s)
     \<and> (\<forall>a \<in> set (active_tasks s). at_result (task s a) \<in> set (results s)
          \<and> at_wup (task s a) = r_wup (res s (at_result (task s a)))
          \<and> at_app_version (task s a) = r_avp (res s (at_result (task s a))))
     \<and> (\<forall>f \<in> set (file_infos s). \<forall>k. fi_pers_file_xfer (finfo s f) = Some k
          \<longrightarrow> k \<in> set (pers_file_xfers s) \<and> pfx_fip (pxfer s k) = f))"

lemmas refs_defs = user_refs_def file_refs_of_project_def output_refs_def input_refs_def app_refs_def
  transfer_refs_def project_refs_def

lemma no_dangling_pending:
  "no_dangling s \<longleftrightarrow> pending_ok p s \<and> (p \<in> set (projects s) \<longrightarrow> set (file_refs_of_project s p) \<subseteq> set (file_infos s))"
proof -
  have e: "set (project_refs s q) \<subseteq> F \<longleftrightarrow> set (user_refs s q) \<subseteq> F \<and> set (file_refs_of_project s q) \<subseteq> F" for q F
    by (simp add: project_refs_def user_refs_def file_refs_of_project_def)
  have c: "(\<forall>q \<in> set (projects s). set (project_refs s q) \<subseteq> F) \<longleftrightarrow>
    (\<forall>q \<in> set (projects s). set (user_refs s q) \<subseteq> F \<and> (q \<noteq> p \<longrightarrow> set (file_refs_of_project s q) \<subseteq> F))
    \<and> (p \<in> set (projects s) \<longrightarrow> set (file_refs_of_project s p) \<subseteq> F)" for F
    unfolding e by metis
  show ?thesis unfolding no_dangling_def pending_ok_def c by (rule iffI; elim conjE; intro conjI; assumption)
qed

text \<open>What \<open>pending_ok\<close> reads.\<close>

definition pending_view where
  "pending_view p s =
     (projects s, results s, active_tasks s, app_versions s, workunits s, file_infos s, pers_file_xfers s, file_xfers s,
      pxfer s, (\<lambda>x. fx_fip (fxfer s x)), (\<lambda>v. av_app_files (appver s v)), (\<lambda>w. wu_input_files (wunit s w)),
      (\<lambda>f. fi_pers_file_xfer (finfo s f)),
      (\<lambda>q. (p_user_files (proj s q), if q = p then [] else p_project_files (proj s q))),
      (\<lambda>r. (r_wup (res s r), r_avp (res s r), r_output_files (res s r))),
      (\<lambda>a. (at_result (task s a), at_wup (task s a), at_app_version (task s a))))"

lemma pending_view_ok: "pending_view p t = pending_view p s \<Longrightarrow> pending_ok p t = pending_ok p s"
  unfolding pending_view_def prod.inject fun_eq_iff pending_ok_def refs_defs
  by (simp split: if_splits cong: map_cong ball_cong) (smt (verit))

lemma pending_upds [simp]:
  "(\<And>x. fi_pers_file_xfer (f1 x) = fi_pers_file_xfer x) \<Longrightarrow> pending_view p (upd_finfo i1 f1 s) = pending_view p s"
  "(\<And>x. r_wup (f2 x) = r_wup x \<and> r_avp (f2 x) = r_avp x \<and> r_output_files (f2 x) = r_output_files x)
    \<Longrightarrow> pending_view p (upd_res i2 f2 s) = pending_view p s"
  "(\<And>x. wu_input_files (f3 x) = wu_input_files x) \<Longrightarrow> pending_view p (upd_wunit i3 f3 s) = pending_view p s"
  "(\<And>x. av_app_files (f4 x) = av_app_files x) \<Longrightarrow> pending_view p (upd_appver i4 f4 s) = pending_view p s"
  "(\<And>x. at_result (f5 x) = at_result x \<and> at_wup (f5 x) = at_wup x \<and> at_app_version (f5 x) = at_app_version x)
    \<Longrightarrow> pending_view p (upd_task i5 f5 s) = pending_view p s"
  "pending_view p (upd_appl i6 f6 s) = pending_view p s"
  "(\<And>x. fx_fip (f7 x) = fx_fip x) \<Longrightarrow> pending_view p (upd_fxfer i7 f7 s) = pending_view p s"
  by (auto simp: pending_view_def upd_finfo_def upd_res_def upd_wunit_def upd_appver_def upd_task_def upd_appl_def
      upd_fxfer_def fun_eq_iff)

lemma pending_upd_proj:
  assumes "p_user_files (f (proj s q)) = p_user_files (proj s q)"
    "q \<noteq> p \<Longrightarrow> p_project_files (f (proj s q)) = p_project_files (proj s q)"
  shows "pending_view p (upd_proj q f s) = pending_view p s"
  using assms by (auto simp: pending_view_def upd_proj_def fun_eq_iff)

lemma links_pending: "links_view t = links_view s \<Longrightarrow> pending_view p t = pending_view p s"
  unfolding links_view_def pending_view_def prod.inject fun_eq_iff by simp

text \<open>Adding an object.\<close>

lemma add_file_info_ok:
  assumes "pending_ok p s" "fi_pers_file_xfer x = None"
  shows "pending_ok p (add_file_info x s)"
  using assms fresh_in_new [of "file_infos s"]
  unfolding pending_ok_def refs_defs add_file_info_def Let_def upd_finfo_def
  by (simp add: subset_insertI2)

lemma add_app_version_ok:
  assumes "pending_ok p s" "set (map fr_file_info (av_app_files x)) \<subseteq> set (file_infos s)"
  shows "pending_ok p (add_app_version x s)"
  using assms fresh_in_new [of "app_versions s"]
  unfolding pending_ok_def refs_defs add_app_version_def Let_def upd_appver_def
  by (simp cong: conj_cong)

lemma add_workunit_ok:
  assumes "pending_ok p s" "set (map fr_file_info (wu_input_files x)) \<subseteq> set (file_infos s)"
  shows "pending_ok p (add_workunit x s)"
  using assms fresh_in_new [of "workunits s"]
  unfolding pending_ok_def refs_defs add_workunit_def Let_def upd_wunit_def
  by (simp cong: conj_cong)

lemma add_result_ok:
  assumes "pending_ok p s" "set (map fr_file_info (r_output_files x)) \<subseteq> set (file_infos s)"
    "r_wup x \<in> set (workunits s)" "r_avp x \<in> set (app_versions s)"
  shows "pending_ok p (add_result x s)"
  using assms fresh_in_new [of "results s"]
  unfolding pending_ok_def refs_defs add_result_def Let_def upd_res_def
  by (simp cong: conj_cong) metis

section \<open>The steps of the handler\<close>

lemma pending_fold:
  assumes "\<And>x t. x \<in> set xs \<Longrightarrow> pending_view p (f x t) = pending_view p t"
  shows "pending_view p (fold f xs s) = pending_view p s"
  using assms by (rule fold_frame)

lemma pending_element: "p_user_files (element_project e x) = p_user_files x"
  by (cases e) (auto simp: element_project_def split: sum.splits)

lemma pending_parse_reply:
  "parse_reply day p es t sr s = (retval, sr', s') \<Longrightarrow> pending_view p s' = pending_view p s"
proof (induction es arbitrary: t sr s)
  case (Cons e es)
  have e: "pending_view p (upd_proj p (element_project e) s) = pending_view p s"
    by (simp add: pending_upd_proj pending_element)
  show ?case
  proof (cases e)
    case (E_Cpid_Time t')
    then show ?thesis using Cons.IH Cons.prems by simp
  next
    case (E_Trickle_Down name opened)
    have "pending_view p (snd (handle_trickle_down p name opened s)) = pending_view p s"
      by (simp add: handle_trickle_down_def split: option.split)
    then show ?thesis using Cons.IH Cons.prems E_Trickle_Down by simp
  next
    case E_Close
    then show ?thesis using Cons.prems by (auto simp: end_of_reply_def pending_upd_proj update_statistics_def Let_def)
  qed (use Cons.prems e Cons.IH [of t "element_reply e sr" "upd_proj p (element_project e) s"] in
      \<open>simp split: option.splits\<close>)+
qed simp

lemma pending_prefs_updates [simp]:
  "pending_view p (s\<lparr>main_host_venue := v1\<rparr>) = pending_view p s" "pending_view p (s\<lparr>global_prefs := v2\<rparr>) = pending_view p s"
  "pending_view p (s\<lparr>ncpus := v3\<rparr>) = pending_view p s" "pending_view p (s\<lparr>run_cpu_benchmarks := v4\<rparr>) = pending_view p s"
  "pending_view p (s\<lparr>must_schedule_cpus := v5\<rparr>) = pending_view p s"
  "pending_view p (s\<lparr>must_check_work_fetch := v6\<rparr>) = pending_view p s"
  "pending_view p (s\<lparr>contacted_sched_server := v7\<rparr>) = pending_view p s"
  "pending_view p (s\<lparr>host_info := v8\<rparr>) = pending_view p s" "pending_view p (s\<lparr>client_state_dirty := v9\<rparr>) = pending_view p s"
  by (simp_all add: pending_view_def cong: if_cong)

lemma pending_read_global_prefs: "read_global_prefs fs s = Inr t \<Longrightarrow> pending_view p t = pending_view p s"
proof -
  have "pending_view p (fold (\<lambda>x s. if same_direction s up x then upd_fxfer x (\<lambda>f. f\<lparr>fx_speed_limit := y\<rparr>) s else s) xs s)
    = pending_view p s" for up y xs s
    by (rule pending_fold) simp
  then have b: "pending_view p (set_bandwidth_limits up s) = pending_view p s" for up s
    by (simp add: set_bandwidth_limits_def Let_def)
  have n: "pending_view p (set_ncpus s) = pending_view p s" for s
    by (simp add: set_ncpus_def Let_def request_work_fetch_def request_schedule_cpus_def)
  have c: "pending_view p (prefs_changed s) = pending_view p s" for s
    by (simp add: prefs_changed_def request_work_fetch_def request_schedule_cpus_def b n)
  show "read_global_prefs fs s = Inr t \<Longrightarrow> pending_view p t = pending_view p s"
    by (erule read_global_prefs_result) (simp add: c)
qed

lemma lookup_file_info_in: "lookup_file_info s p name = Some f \<Longrightarrow> f \<in> set (file_infos s)"
  unfolding lookup_file_info_def by (rule find_in)

lemma link_file_refs_in:
  "link_file_refs s p frs = (0, frs') \<Longrightarrow> set (map fr_file_info frs') \<subseteq> set (file_infos s)"
  by (induction frs arbitrary: frs')
    (auto simp: image_subset_iff lookup_file_info_in split: option.splits prod.splits)

text \<open>User files.\<close>

lemma user_file_ok:
  assumes "pending_ok p s" "f \<in> set (file_infos s)" "fr_file_info fr = f"
  shows "pending_ok p (upd_proj p (\<lambda>y. y\<lparr>p_user_files := p_user_files y @ [fr]\<rparr>) s)"
  using assms unfolding pending_ok_def refs_defs upd_proj_def by simp

lemma add_user_file_ok:
  assumes "pending_ok p s"
  shows "pending_ok p (add_user_file p x s)"
proof -
  obtain filename open_name url where x: "x = (filename, open_name, url)" by (cases x)
  let ?new = "add_file_info (FILE_INFO_new\<lparr>fi_project := p, fi_urls := [url], fi_name := filename, fi_is_user_file := True\<rparr>) s"
  show ?thesis
  proof (cases "lookup_file_info s p filename")
    case None
    have "pending_ok p ?new" by (rule add_file_info_ok [OF assms]) (simp add: FILE_INFO_new_def)
    moreover have "fresh_in (file_infos s) \<in> set (file_infos ?new)" by (simp add: add_file_info_def Let_def)
    ultimately show ?thesis by (simp add: add_user_file_def x None user_file_ok)
  next
    case (Some f)
    show ?thesis using user_file_ok [OF assms lookup_file_info_in [OF Some]] by (simp add: add_user_file_def x Some)
  qed
qed

lemma user_files_ok:
  assumes "pending_ok p s"
  shows "pending_ok p (parse_preferences_for_user_files p s)"
proof -
  have "pending_ok p (upd_proj p (\<lambda>y. y\<lparr>p_user_files := []\<rparr>) s)"
    using assms unfolding pending_ok_def refs_defs upd_proj_def by simp
  then show ?thesis unfolding parse_preferences_for_user_files_def
    by (rule fold_preserves) (rule add_user_file_ok)
qed

lemma parse_account_user_files: "parse_account_file file x = Inr (retval, y) \<Longrightarrow> p_user_files y = p_user_files x"
proof -
  have loop: "parse_account_loop es x = Inr (retval, y) \<Longrightarrow> p_user_files y = p_user_files x" for es x
    by (induction es x rule: parse_account_loop.induct)
      (auto simp: Let_def split: account_element.splits option.splits sum.splits if_splits)
  show "parse_account_file file x = Inr (retval, y) \<Longrightarrow> p_user_files y = p_user_files x"
    by (auto simp: parse_account_file_def parse_account_def dest: loop split: option.splits)
qed

lemma parse_venue_user_files [simp]: "p_user_files (snd (parse_account_file_venue file x)) = p_user_files x"
proof -
  have "p_user_files (snd (parse_venue_loop b es x)) = p_user_files x" for b es x
    by (induction b es x rule: parse_venue_loop.induct)
      (auto simp: Let_def split: account_element.splits option.splits)
  then show ?thesis by (simp add: parse_account_file_venue_def split: option.split)
qed

lemma pending_reread_prefs: "request_reread_prefs net q as s = Inr t \<Longrightarrow> pending_view p t = pending_view p s"
proof (induction as arbitrary: s)
  case (Cons a as)
  have "request_reread_prefs_task net a s = Inr u \<Longrightarrow> pending_view p u = pending_view p s" for u
    by (auto simp: request_reread_prefs_task_def split: if_splits prod.splits)
  then show ?case using Cons by (fastforce simp: andThen_Inr split: if_splits)
qed simp

lemma reread_account_ok:
  assumes "pending_ok p s" "reread_account io p s = Some t"
  shows "pending_ok p t"
proof -
  obtain retval x where a: "parse_account_file (io_account io) (proj s p) = Inr (retval, x)"
    using assms(2) by (auto simp: reread_account_def split: sum.splits)
  define s1 where "s1 = upd_proj p (\<lambda>_. x) s"
  define s2 where "s2 = (if p_host_venue (proj s1 p) = [] then s1
    else upd_proj p (\<lambda>y. snd (parse_account_file_venue (io_account io) y)) s1)"
  have t: "request_reread_prefs (io_net io) p (active_tasks (parse_preferences_for_user_files p s2))
      (parse_preferences_for_user_files p s2) = Inr t"
    using assms(2) unfolding reread_account_def a sum.case prod.case Let_def s1_def [symmetric] s2_def [symmetric]
    by (auto split: sum.splits)
  have "pending_view p s1 = pending_view p s"
    unfolding s1_def using parse_account_user_files [OF a] by (intro pending_upd_proj) auto
  moreover have "pending_view p s2 = pending_view p s1" by (simp add: s2_def pending_upd_proj)
  ultimately have "pending_ok p s2" using assms(1) pending_view_ok by metis
  then show ?thesis using user_files_ok pending_view_ok [OF pending_reread_prefs [OF t]] by blast
qed

lemma reply_prefs_ok:
  assumes "pending_ok p s" "reply_prefs io urls p sr s = Some (retval, t)"
  shows "pending_ok p t"
proof -
  obtain r ug where sv: "save_reply_prefs io sr s = (r, ug)" by fastforce
  obtain u1 ug1 s1 where nv: "new_venue p sr ug s = (u1, ug1, s1)" by (metis prod_cases3)
  have v1: "pending_view p s1 = pending_view p s"
    using nv by (auto simp: new_venue_def Let_def pending_upd_proj split: if_splits)
  show ?thesis
  proof (cases "(if ug1 then read_global_prefs (io_prefs io) s1 else Inr s1)")
    case (Inl e)
    then show ?thesis using assms unfolding reply_prefs_def sv nv prod.case Inl sum.case by (auto split: if_splits)
  next
    case (Inr s2)
    obtain u2 s3 where np: "new_project_prefs p sr u1 s2 = (u2, s3)" by fastforce
    have "pending_view p s2 = pending_view p s1" using Inr pending_read_global_prefs by (auto split: if_splits)
    moreover have "pending_view p s3 = pending_view p s2"
      using np by (auto simp: new_project_prefs_def pending_upd_proj split: option.splits if_splits)
    ultimately have "pending_ok p s3" using assms(1) pending_view_ok v1 by metis
    then show ?thesis
      using assms unfolding reply_prefs_def sv nv prod.case Inr sum.case np
      by (auto dest: reread_account_ok split: if_splits)
  qed
qed

text \<open>New objects.\<close>

lemma pending_clear_file_errors [simp]: "pending_view p (clear_file_errors frs s) = pending_view p s"
proof -
  have "fi_pers_file_xfer (FILE_INFO_reset x) = fi_pers_file_xfer x" for x
    by (simp add: FILE_INFO_reset_def delete_file_def)
  then show ?thesis unfolding clear_file_errors_def by (intro pending_fold) simp
qed

lemma reply_file_ok:
  assumes "pending_ok p s" "fi_pers_file_xfer x = None"
  shows "pending_ok p (reply_file p x s)"
proof (cases "lookup_file_info s p (fi_name x)")
  case None
  then show ?thesis using add_file_info_ok [OF assms(1), of "x\<lparr>fi_project := p\<rparr>"] assms(2)
    by (simp add: reply_file_def link_file_info_def)
next
  case (Some f)
  have "pending_view p (upd_finfo f (merge_info x) s) = pending_view p s" by (simp add: merge_info_def Let_def)
  from pending_view_ok [OF this] show ?thesis using assms(1) by (simp add: reply_file_def Some)
qed

lemma link_app_files_view: "link_app_files path p frs g s = (retval, frs', g', t) \<Longrightarrow> pending_view q t = pending_view q s"
  by (induction frs arbitrary: g s frs') (auto simp: Let_def split: option.splits prod.splits)

lemma link_app_files_in:
  "link_app_files path p frs g s = (0, frs', g', t) \<Longrightarrow> set (map fr_file_info frs') \<subseteq> set (file_infos s)"
proof (induction frs arbitrary: g s frs')
  case (Cons fr frs)
  from Cons.prems obtain f g1 frs1 where f: "lookup_file_info s p (fr_file_name fr) = Some f"
    and r: "link_app_files path p frs g1 (upd_finfo f (\<lambda>x. x\<lparr>fi_signature_required := True\<rparr>) s) = (0, frs1, g', t)"
    and e: "frs' = fr\<lparr>fr_file_info := f\<rparr> # frs1"
    by (auto simp: Let_def split: option.splits prod.splits)
  show ?case using Cons.IH [OF r] lookup_file_info_in [OF f] by (simp add: e upd_finfo_def)
qed simp

lemma reply_app_version_ok:
  assumes "pending_ok p s"
  shows "pending_ok p (reply_app_version io p x s)"
proof -
  define x1 where "x1 = (if av_platform x = [] then x\<lparr>av_platform := take 255 (get_primary_platform s)\<rparr> else x)"
  obtain retval y s1 where l: "link_app_version (io_abs_path io) p x1 s = (retval, y, s1)" by (metis prod_cases3)
  have v: "pending_view p s1 = pending_view p s"
    and refs: "retval = 0 \<Longrightarrow> set (map fr_file_info (av_app_files y)) \<subseteq> set (file_infos s)"
    using l by (auto simp: link_app_version_def Let_def dest: link_app_files_view
        dest!: link_app_files_in [simplified] split: option.splits prod.splits if_splits)
  have "pending_ok p s1" using assms pending_view_ok [OF v] by simp
  moreover have "file_infos s1 = file_infos s" using v by (simp add: pending_view_def)
  ultimately have new: "pending_ok p (if retval \<noteq> 0 then s1 else add_app_version y s1)"
    using refs by (simp add: add_app_version_ok)
  have old: "pending_ok p (av_clear_errors v (upd_appver v (\<lambda>z. z\<lparr>av_avg_ncpus := a1, av_max_ncpus := a2, av_flops := a3,
      av_cmdline := a4, av_api_version := a5\<rparr>) s))" for v a1 a2 a3 a4 a5
    using assms pending_view_ok [of p "av_clear_errors v (upd_appver v (\<lambda>z. z\<lparr>av_avg_ncpus := a1, av_max_ncpus := a2,
      av_flops := a3, av_cmdline := a4, av_api_version := a5\<rparr>) s)" s] by (simp add: av_clear_errors_def)
  show ?thesis using assms new old
    unfolding reply_app_version_def Let_def x1_def [symmetric] l prod.case by (auto split: option.split)
qed

lemma reply_workunit_ok:
  assumes "pending_ok p s"
  shows "pending_ok p (reply_workunit p x s)"
proof -
  obtain retval y where l: "link_workunit s p (x\<lparr>wu_project := p\<rparr>) = (retval, y)" by fastforce
  let ?s1 = "clear_file_errors (wu_input_files y) s"
  have v: "pending_view p ?s1 = pending_view p s" by simp
  have "file_infos ?s1 = file_infos s" using v unfolding pending_view_def prod.inject by blast
  moreover have "retval = 0 \<Longrightarrow> set (map fr_file_info (wu_input_files y)) \<subseteq> set (file_infos s)"
    using l by (auto simp: link_workunit_def dest!: link_file_refs_in [simplified] split: option.splits prod.splits)
  ultimately have "retval = 0 \<Longrightarrow> pending_ok p (add_workunit y ?s1)"
    using assms pending_view_ok [OF v] by (intro add_workunit_ok) simp_all
  then show ?thesis using assms by (simp add: reply_workunit_def l)
qed

lemma lookup_in:
  "lookup_workunit s p name = Some w \<Longrightarrow> w \<in> set (workunits s)"
  "lookup_app_version s a pl n c = Some v \<Longrightarrow> v \<in> set (app_versions s)"
  "lookup_result_name s p name = Some r \<Longrightarrow> r \<in> set (results s)"
  unfolding lookup_workunit_def lookup_app_version_def lookup_result_name_def by (rule find_in, assumption)+

lemma link_result_in:
  assumes "link_result s p x = (0, y)"
  shows "set (map fr_file_info (r_output_files y)) \<subseteq> set (file_infos s)" "r_wup y \<in> set (workunits s)"
proof -
  obtain w frs where w: "lookup_workunit s p (r_wu_name x) = Some w" "link_file_refs s p (r_output_files x) = (0, frs)"
    "y = x\<lparr>r_project := p, r_wup := w, r_app := wu_app (wunit s w), r_output_files := frs\<rparr>"
    using assms by (auto simp: link_result_def split: option.splits prod.splits)
  show "set (map fr_file_info (r_output_files y)) \<subseteq> set (file_infos s)" "r_wup y \<in> set (workunits s)"
    using link_file_refs_in [OF w(2)] lookup_in(1) [OF w(1)] by (simp_all add: w(3))
qed

lemma reply_result_ok:
  assumes "pending_ok p (snd st)"
  shows "pending_ok p (snd (reply_result p x st))"
proof -
  obtain n s where st: "st = (n, s)" by fastforce
  obtain retval y where l: "link_result s p x = (retval, y)" by fastforce
  have new: "pending_ok p (add_result (y\<lparr>r_platform := a1, r_version_num := a2, r_avp := v, r_received_time := a3,
      r_state := RESULT_NEW\<rparr>) (upd_wunit (r_wup y) (\<lambda>w. w\<lparr>wu_version_num := a4\<rparr>) s))"
    if "retval = 0" "v \<in> set (app_versions s)" for a1 a2 a3 a4 v
  proof (rule add_result_ok)
    have "pending_view p (upd_wunit (r_wup y) (\<lambda>w. w\<lparr>wu_version_num := a4\<rparr>) s) = pending_view p s" by simp
    from pending_view_ok [OF this] show "pending_ok p (upd_wunit (r_wup y) (\<lambda>w. w\<lparr>wu_version_num := a4\<rparr>) s)"
      using assms by (simp add: st)
  qed (use that link_result_in [of s p x y] l in \<open>simp_all add: upd_wunit_def\<close>)
  define pl where "pl = (if r_platform y = [] then take 255 (get_primary_platform s) else r_platform y)"
  define vn where "vn = (if r_platform y = [] then latest_version s (wu_app (wunit s (r_wup y))) pl else r_version_num y)"
  have "reply_result p x st = (if lookup_result_name s p (r_name x) \<noteq> None \<or> retval \<noteq> 0 then (n, s)
      else case lookup_app_version s (Some (wu_app (wunit s (r_wup y)))) pl vn (r_plan_class y) of
        None \<Rightarrow> (n, s)
      | Some v \<Rightarrow> (n + 1, add_result (y\<lparr>r_platform := pl, r_version_num := vn, r_avp := v, r_received_time := now s,
          r_state := RESULT_NEW\<rparr>) (upd_wunit (r_wup y) (\<lambda>w. w\<lparr>wu_version_num := vn\<rparr>) s)))"
    unfolding reply_result_def st l prod.case Let_def pl_def [symmetric] vn_def [symmetric] by simp
  then show ?thesis using assms new lookup_in(2) by (simp add: st split: option.split)
qed

lemma reply_entities_ok:
  assumes "pending_ok p s" "\<And>x. x \<in> set (sr_file_infos sr) \<Longrightarrow> fi_pers_file_xfer x = None"
  shows "pending_ok p (snd (reply_entities io p sr s))"
proof -
  define s1 where "s1 = fold (reply_app p) (sr_apps sr) s"
  define s2 where "s2 = fold (reply_file p) (sr_file_infos sr) s1"
  define s3 where "s3 = fold (reply_delete p) (sr_file_deletes sr) s2"
  define s4 where "s4 = fold (reply_app_version io p) (sr_app_versions sr) s3"
  define s5 where "s5 = fold (reply_workunit p) (sr_workunits sr) s4"
  have add: "pending_view p (add_app y t) = pending_view p t" for y t
    by (simp add: add_app_def Let_def pending_view_def upd_appl_def cong: if_cong)
  have "pending_view p s1 = pending_view p s" unfolding s1_def
    by (rule pending_fold) (simp add: reply_app_def add split: option.split prod.split)
  then have "pending_ok p s1" using assms(1) pending_view_ok by blast
  then have "pending_ok p s2" unfolding s2_def by (rule fold_preserves) (simp add: reply_file_ok assms(2))
  moreover have "pending_view p s3 = pending_view p s2" unfolding s3_def
    by (rule pending_fold) (simp add: reply_delete_def split: option.split)
  ultimately have "pending_ok p s3" using pending_view_ok by blast
  then have "pending_ok p s4" unfolding s4_def by (rule fold_preserves) (rule reply_app_version_ok)
  then have "pending_ok p s5" unfolding s5_def by (rule fold_preserves) (rule reply_workunit_ok)
  moreover have "pending_ok p (snd (fold (reply_result p) xs st))" if "pending_ok p (snd st)" for xs st
    using that by (induction xs arbitrary: st) (simp_all add: reply_result_ok)
  ultimately show ?thesis unfolding reply_entities_def Let_def
    by (simp add: s1_def [symmetric] s2_def [symmetric] s3_def [symmetric] s4_def [symmetric] s5_def [symmetric])
qed

lemma pending_reply_results: "pending_view p (reply_results p sr s) = pending_view p s"
proof -
  have ab: "pending_view p (abort_task e m a t) = pending_view p t" for e m a t
    by (rule links_pending [OF links_abort_task])
  have ina: "pending_view p (abort_inactive e r t) = pending_view p t" for e r t by (simp add: abort_inactive_def)
  have "pending_view p (reply_ack p n t) = pending_view p t" "pending_view p (reply_abort p n t) = pending_view p t"
    "pending_view p (reply_abort_if_not_started p n t) = pending_view p t" for n t
    by (simp_all add: reply_ack_def reply_abort_def reply_abort_if_not_started_def ab ina split: option.split)
  then show ?thesis unfolding reply_results_def by (simp add: pending_fold)
qed

lemma pending_reply_hostid: "pending_view p (reply_hostid io p sr s) = pending_view p s"
proof -
  have m: "pending_view p (set_min_rpc_time t q u) = pending_view p u" for t q u
    by (rule links_pending [OF links_set_min_rpc_time])
  have "pending_view p (generate_new_host_cpid c t) = pending_view p t" for c t
    unfolding generate_new_host_cpid_def by (simp add: pending_fold m pending_upd_proj)
  then show ?thesis by (simp add: reply_hostid_def Let_def pending_upd_proj)
qed

text \<open>The project files are linked.\<close>

lemma link_project_files_ok:
  assumes "pending_ok p s"
  shows "no_dangling (link_project_files p s)"
proof -
  define frs where "frs = List.map_filter (\<lambda>fr. map_option (\<lambda>f. fr\<lparr>fr_file_info := f\<rparr>)
    (lookup_file_info s p (fr_file_name fr))) (p_project_files (proj s p))"
  define s1 where "s1 = fold (\<lambda>fr. upd_finfo (fr_file_info fr) (\<lambda>x. x\<lparr>fi_is_project_file := True\<rparr>)) frs s"
  have e: "link_project_files p s = upd_proj p (\<lambda>x. x\<lparr>p_project_files := frs\<rparr>) s1"
    by (simp add: link_project_files_def Let_def frs_def s1_def)
  have v: "pending_view p s1 = pending_view p s" unfolding s1_def by (rule pending_fold) simp
  have v2: "pending_view p (link_project_files p s) = pending_view p s1" unfolding e by (rule pending_upd_proj) simp_all
  have fi: "file_infos (link_project_files p s) = file_infos s" using v v2 unfolding pending_view_def prod.inject by metis
  have "pending_ok p (link_project_files p s)" using assms pending_view_ok [OF v] pending_view_ok [OF v2] by simp
  moreover have "set (map fr_file_info frs) \<subseteq> set (file_infos s)"
    by (auto simp: frs_def map_filter_def lookup_file_info_in)
  then have "set (file_refs_of_project (link_project_files p s) p) \<subseteq> set (file_infos (link_project_files p s))"
    by (simp only: fi) (simp add: e file_refs_of_project_def upd_proj_def)
  ultimately show ?thesis by (subst no_dangling_pending [of _ p]) simp
qed

lemma links_no_dangling: "links_view t = links_view s \<Longrightarrow> no_dangling t = no_dangling s"
  unfolding no_dangling_def links_view_def prod.inject fun_eq_iff refs_defs by simp

lemma links_reply_delays:
  "links_view (reply_delays p sr n s) = links_view (upd_proj p (\<lambda>x. x\<lparr>p_next_rpc_time := 0\<rparr>) s)"
  by (simp add: reply_delays_def Let_def links_set_min_rpc_time links_backoff links_upd_proj)

lemma accept_reply_ok:
  assumes "pending_ok p s" "\<And>x. x \<in> set (sr_file_infos sr) \<Longrightarrow> fi_pers_file_xfer x = None"
  shows "no_dangling (snd (accept_reply io p sr s))"
proof -
  define s0 where "s0 = new_code_sign_key io p sr s"
  obtain n s1 where e: "reply_entities io p sr s0 = (n, s1)" by fastforce
  define s2 where "s2 = reply_hostid io p sr (reply_flags p sr (reply_results p sr s1))"
  define s3 where "s3 = set_client_state_dirty (link_project_files p s2)"
  have "pending_view p s0 = pending_view p s"
    by (simp add: s0_def new_code_sign_key_def Let_def pending_upd_proj split: option.split)
  then have "pending_ok p s0" using assms(1) pending_view_ok by blast
  then have "pending_ok p s1" using reply_entities_ok [OF _ assms(2), where io = io] e by (metis snd_conv)
  moreover have "pending_view p s2 = pending_view p s1"
    by (simp add: s2_def pending_reply_hostid pending_reply_results reply_flags_def pending_upd_proj)
  ultimately have "pending_ok p s2" using pending_view_ok by blast
  then have "no_dangling (link_project_files p s2)" by (rule link_project_files_ok)
  moreover have "links_view s3 = links_view (link_project_files p s2)"
    unfolding s3_def by (rule links_viewI) (simp_all add: set_client_state_dirty_def)
  ultimately have "no_dangling s3" using links_no_dangling by blast
  moreover have "links_view (reply_delays p sr n s3) = links_view s3"
    unfolding links_reply_delays by (rule links_upd_proj) simp
  ultimately have "no_dangling (reply_delays p sr n s3)" using links_no_dangling by blast
  from garbage_collect_links [OF this] show ?thesis
    unfolding accept_reply_def s0_def [symmetric] e prod.case Let_def s2_def [symmetric] s3_def [symmetric] by simp
qed

section \<open>The whole reply\<close>

lemma parse_reply_files:
  "parse_reply day p es t sr s = (retval, sr', s') \<Longrightarrow> x \<in> set (sr_file_infos sr')
    \<Longrightarrow> x \<in> set (sr_file_infos sr) \<or> E_File_Info (Inr x) \<in> set es"
proof (induction es arbitrary: t sr s)
  case (Cons e es)
  have e: "x \<in> set (sr_file_infos (element_reply e sr)) \<Longrightarrow> x \<in> set (sr_file_infos sr) \<or> e = E_File_Info (Inr x)"
    by (cases e) (auto simp: element_reply_def split: sum.splits)
  show ?case
  proof (cases e)
    case (E_Cpid_Time t')
    then show ?thesis using Cons by auto
  next
    case (E_Trickle_Down name opened)
    then show ?thesis using Cons by auto
  next
    case E_Close
    then show ?thesis using Cons.prems by auto
  qed (use Cons.prems e Cons.IH [of t "element_reply e sr" "upd_proj p (element_project e) s"] in
      \<open>auto split: option.splits\<close>)
qed simp



text \<open>A reply that lists project files and says that the project is down leaves pointers to nowhere: the
  list of project files is replaced while the reply is parsed, and the handler returns before
  \<open>link_project_files\<close> has set the pointers, which \<open>FILE_REF::parse\<close> does not initialize. The next
  garbage collection follows them.\<close>

theorem down_reply_unlinked_files:
  assumes "io_reply io = Some (True, [E_Project_Files frs, E_Project_Is_Down, E_Close])" "p \<in> set (projects s)"
    "fr \<in> set frs" "fr_file_info fr \<notin> set (file_infos s)"
  shows "\<exists>t. handle_scheduler_reply io p s = Some (ERR_PROJECT_DOWN, t) \<and> file_infos t = file_infos s
    \<and> fr_file_info fr \<in> set (project_refs t p) \<and> \<not> no_dangling t"
proof -
  define s1 where "s1 = upd_proj p (\<lambda>x. x\<lparr>p_last_rpc_time := now s\<rparr>) (s\<lparr>contacted_sched_server := True\<rparr>)"
  define sr where "sr = (blank_reply (proj s1 p))\<lparr>sr_project_is_down := True\<rparr>"
  define t where "t = end_of_reply (io_day io) 0 p (upd_proj p (element_project E_Project_Is_Down)
    (upd_proj p (element_project (E_Project_Files frs)) s1))"
  have "parse_reply (io_day io) p [E_Project_Files frs, E_Project_Is_Down, E_Close] 0 (blank_reply (proj s1 p)) s1 = (0, sr, t)"
    by (simp add: element_error_def element_reply_def sr_def t_def)
  then have h: "handle_scheduler_reply io p s = Some (ERR_PROJECT_DOWN, t)"
    using assms(1) by (simp add: handle_scheduler_reply_def Let_def s1_def [symmetric]) (simp add: sr_def blank_reply_def)
  have refs: "p_project_files (proj t p) = frs" "file_infos t = file_infos s" "projects t = projects s"
    by (simp_all add: t_def s1_def end_of_reply_def update_statistics_def Let_def upd_proj_def element_project_def)
  then have "fr_file_info fr \<in> set (project_refs t p)" using assms(3) by (simp add: project_refs_def)
  moreover from this have "\<not> no_dangling t" using assms(2,4) refs(2,3) by (auto simp: no_dangling_def)
  ultimately show ?thesis using h refs(2) by blast
qed

definition unlinked_ref :: FILE_REF where
  "unlinked_ref = \<lparr>fr_file_name = ''f'', fr_open_name = [], fr_main_program = False, fr_file_info = 7,
     fr_copy_file = False, fr_optional = False\<rparr>"

theorem down_reply_unlinked_files_witness:
  "\<exists>t. handle_scheduler_reply (sample_io\<lparr>io_reply := Some (True, [E_Project_Files [unlinked_ref],
       E_Project_Is_Down, E_Close])\<rparr>) 0 sample_state = Some (ERR_PROJECT_DOWN, t) \<and> \<not> no_dangling t"
proof -
  let ?io = "sample_io\<lparr>io_reply := Some (True, [E_Project_Files [unlinked_ref], E_Project_Is_Down, E_Close])\<rparr>"
  have "io_reply ?io = Some (True, [E_Project_Files [unlinked_ref], E_Project_Is_Down, E_Close])"
    "0 \<in> set (projects sample_state)" "unlinked_ref \<in> set [unlinked_ref]"
    "fr_file_info unlinked_ref \<notin> set (file_infos sample_state)"
    by (simp_all add: sample_defs unlinked_ref_def)
  from down_reply_unlinked_files [OF this] show ?thesis by blast
qed

end
