(* ===== verification/Prefs_Correct.thy ===== *)
theory Prefs_Correct
  imports Prefs
begin

text \<open>
  Properties of the preferences: what parsing guarantees of every value, what survives writing and
  reading again, and the three ways in which reading changes more than it should.
\<close>

section \<open>Values stay in their ranges\<close>

definition span_ok :: "TIME_SPAN \<Rightarrow> bool" where
  "span_ok t = (0 \<le> m_start t \<and> m_start t \<le> DAY_SECONDS \<and> 0 \<le> m_end t \<and> m_end t \<le> DAY_SECONDS)"

definition week_ok :: "TIME_SPAN option list \<Rightarrow> bool" where
  "week_ok w = (length w = 7 \<and> (\<forall>t. Some t \<in> set w \<longrightarrow> span_ok t))"

definition times_ok :: "TIME_PREFS \<Rightarrow> bool" where
  "times_ok tp = (span_ok (tp_span tp) \<and> week_ok (tp_week tp))"

definition prefs_ok :: "GLOBAL_PREFS \<Rightarrow> bool" where
  "prefs_ok g = (gp_work_buf_min_days g \<ge> 1/100000 \<and> gp_work_buf_additional_days g \<ge> 0 \<and> gp_max_cpus g \<ge> 1
     \<and> 0 \<le> gp_max_ncpus_pct g \<and> gp_max_ncpus_pct g \<le> 100 \<and> gp_cpu_scheduling_period_minutes g \<ge> 1/10000
     \<and> gp_disk_interval g \<ge> 0 \<and> gp_max_bytes_sec_up g \<ge> 0 \<and> gp_max_bytes_sec_down g \<ge> 0
     \<and> 0 < gp_cpu_usage_limit g \<and> gp_cpu_usage_limit g \<le> 100
     \<and> times_ok (gp_cpu_times g) \<and> times_ok (gp_net_times g))"

definition keeps :: "('a \<Rightarrow> bool) \<Rightarrow> 'a field \<Rightarrow> bool" where
  "keeps P f = (\<forall>tag x inp b y rest. P x \<longrightarrow> f tag x inp = Inr (b, y, rest) \<longrightarrow> P y)"

lemma keepsD: "keeps P f \<Longrightarrow> f tag x inp = Inr (b, y, rest) \<Longrightarrow> P x \<Longrightarrow> P y"
  unfolding keeps_def by blast

lemma keeps_field: "(\<And>v x y. P x \<Longrightarrow> upd v x = Inr y \<Longrightarrow> P y) \<Longrightarrow> keeps P (field parse upd)"
  by (auto simp: keeps_def field_def xml_then_Inr split: option.splits)

lemma keeps_fields:
  "(\<And>v x. P x \<Longrightarrow> P (u1 v x)) \<Longrightarrow> keeps P (double_field name u1)"
  "(\<And>v x. P x \<Longrightarrow> P (u2 v x)) \<Longrightarrow> keeps P (int_field name u2)"
  "(\<And>v x. P x \<Longrightarrow> P (u3 v x)) \<Longrightarrow> keeps P (bool_field name u3)"
  "(\<And>v x. P x \<Longrightarrow> P (u4 v x)) \<Longrightarrow> keeps P (str_field name len u4)"
  "(\<And>v x y. P x \<Longrightarrow> u5 v x = Inr y \<Longrightarrow> P y) \<Longrightarrow> keeps P (hour_field name u5)"
  unfolding double_field_def int_field_def bool_field_def str_field_def hour_field_def
  by (rule keeps_field; fastforce)+

lemma keeps_first: "\<forall>f \<in> set fs. keeps P f \<Longrightarrow> keeps P (first_field fs)"
proof (induction fs)
  case (Cons f fs)
  have "P y" if h: "first_field (f # fs) tag x inp = Inr (b, y, rest)" "P x" for tag x inp b y rest
  proof -
    obtain found z rest1 where f: "f tag x inp = Inr (found, z, rest1)"
      "(if found then Inr (True, z, rest1) else first_field fs tag z rest1) = Inr (b, y, rest)"
      using h(1) by (auto simp: xml_then_Inr)
    then have "P z" using Cons.prems h(2) keepsD by fastforce
    then show ?thesis using f(2) Cons by (auto dest: keepsD split: if_splits)
  qed
  then show ?case unfolding keeps_def by blast
qed (simp add: keeps_def)

lemma week_set_ok: "week_set day a b w = Inr w1 \<Longrightarrow> week_ok w \<Longrightarrow> week_ok w1"
  by (auto simp: week_set_def TIME_SPAN_new_def check_range_def xml_then_Inr span_ok_def week_ok_def
      dest!: set_update_subset_insert [THEN subsetD] split: if_splits)

lemma set_day_ok: "set_day has day a b tp = Inr tp1 \<Longrightarrow> times_ok tp \<Longrightarrow> times_ok tp1"
  by (auto simp: set_day_def xml_then_Inr times_ok_def dest: week_set_ok split: if_splits)

lemma end_of_day_ok:
  assumes "end_of_day d g = Inr (retval, g1)" "prefs_ok g"
  shows "prefs_ok g1"
  using assms by (auto simp: end_of_day_def xml_then_Inr prefs_ok_def dest: set_day_ok split: if_splits)

lemma parse_day_ok: "parse_day d g inp = Inr (retval, g1, rest) \<Longrightarrow> prefs_ok g \<Longrightarrow> prefs_ok g1"
proof (induction d g inp rule: parse_day.induct)
  case (1 d g inp)
  obtain tok where tok: "get 256 None inp = Inr tok"
    using 1(4) by (subst (asm) parse_day.simps) (auto simp: xml_then_Inr)
  show ?case
  proof (cases tok)
    case None
    then show ?thesis using 1(4,5) tok by (subst (asm) parse_day.simps) simp
  next
    case (Some t)
    obtain tag is_tag a rest1 where t: "t = (tag, is_tag, a, rest1)" by (cases t)
    have g: "get 256 None inp = Inr (Some (tag, is_tag, a, rest1))" using tok Some t by simp
    note eq = 1(4) [unfolded parse_day.simps [of d g inp] g xml_then_simps option.case prod.case]
    note ih = 1(1-3) [OF g refl refl refl refl]
    consider (plain) "\<not> is_tag" | (close) "is_tag" "tag = ''/day_prefs''" | (other) "\<not> \<not> is_tag" "tag \<noteq> ''/day_prefs''" by blast
    then show ?thesis
    proof cases
      case plain
      then show ?thesis using eq ih(1) 1(5) by simp
    next
      case close
      then show ?thesis using eq 1(5) end_of_day_ok by (auto simp: xml_then_Inr)
    next
      case other
      obtain b d1 rest2 where f: "first_field day_fields tag d rest1 = Inr (b, d1, rest2)"
        using eq other by (auto simp: xml_then_Inr)
      then show ?thesis using eq other 1(5) ih(2,3) [OF other f refl refl] by (cases b) (auto simp: xml_then_Inr)
    qed
  qed
qed

abbreviation pm_ok :: "prefs_mask \<Rightarrow> bool" where "pm_ok x \<equiv> prefs_ok (fst x)"

lemma set_span_ok: "set_span setter v tp = Inr tp1 \<Longrightarrow> setter = set_start \<or> setter = set_end \<Longrightarrow> times_ok tp \<Longrightarrow> times_ok tp1"
  by (auto simp: set_span_def set_start_def set_end_def check_range_def xml_then_Inr times_ok_def span_ok_def split: if_splits)

lemma hour_ok:
  "cpu_hour set_start h v x = Inr y \<Longrightarrow> pm_ok x \<Longrightarrow> pm_ok y" "cpu_hour set_end h v x = Inr y \<Longrightarrow> pm_ok x \<Longrightarrow> pm_ok y"
  "net_hour set_start h v x = Inr y \<Longrightarrow> pm_ok x \<Longrightarrow> pm_ok y" "net_hour set_end h v x = Inr y \<Longrightarrow> pm_ok x \<Longrightarrow> pm_ok y"
  by (auto simp: cpu_hour_def net_hour_def xml_then_Inr both_def prefs_ok_def dest: set_span_ok)

lemma keeps_day_field: "keeps pm_ok day_field"
  unfolding keeps_def day_field_def by (auto simp: xml_then_Inr dest: parse_day_ok split: if_splits)

lemma keeps_override: "keeps pm_ok (first_field (override_fields dtime))"
proof (rule keeps_first)
  have u: "pm_ok (both f h x)" if "prefs_ok (f (fst x))" for f h x using that by (simp add: both_def)
  show "\<forall>f \<in> set (override_fields dtime). keeps pm_ok f"
    unfolding override_fields_def list.set ball_simps
    by (intro conjI TrueI keeps_day_field keeps_fields)
      (auto simp: both_def prefs_ok_def Let_def dest: hour_ok [unfolded prefs_ok_def])
qed

lemma times_ok_clear: "length (tp_week tp) = 7 \<Longrightarrow> times_ok (time_prefs_clear tp)"
  by (auto simp: times_ok_def time_prefs_clear_def span_clear_def span_ok_def week_clear_def week_ok_def)

lemma defaults_ok:
  assumes "length (tp_week (gp_cpu_times g)) = 7" "length (tp_week (gp_net_times g)) = 7"
  shows "prefs_ok (GLOBAL_PREFS_defaults g)"
  using assms by (simp add: GLOBAL_PREFS_defaults_def prefs_ok_def times_ok_clear)

lemma prefs_ok_updates [simp]:
  "prefs_ok (clear_bools g) = prefs_ok g" "prefs_ok g \<Longrightarrow> prefs_ok (g\<lparr>gp_max_ncpus_pct := 0\<rparr>)"
  "prefs_ok (g\<lparr>gp_source_project := a, gp_source_scheduler := b, gp_mod_time := c, gp_host_specific := d\<rparr>) = prefs_ok g"
  by (simp_all add: prefs_ok_def clear_bools_def)

lemma prefs_ok_weeks: "prefs_ok g \<Longrightarrow> length (tp_week (gp_cpu_times g)) = 7 \<and> length (tp_week (gp_net_times g)) = 7"
  by (simp add: prefs_ok_def times_ok_def week_ok_def)

lemma enter_venue_ok: "pm_ok x \<Longrightarrow> pm_ok (enter_venue x)"
  using prefs_ok_weeks by (simp add: enter_venue_def defaults_ok)

lemma override_loop_ok:
  "override_loop dtime host_venue v x inp = Inr (retval, found, y, rest) \<Longrightarrow> pm_ok x \<Longrightarrow> pm_ok y"
proof (induction dtime host_venue v x inp rule: override_loop.induct)
  case (1 dtime host_venue v x inp)
  obtain tok where tok: "get 256 (Some 256) inp = Inr tok"
    using 1(9) by (subst (asm) override_loop.simps) (auto simp: xml_then_Inr)
  show ?case
  proof (cases tok)
    case None
    then show ?thesis using 1(9,10) tok by (subst (asm) override_loop.simps) simp
  next
    case (Some t)
    obtain tag is_tag a rest1 where t: "t = (tag, is_tag, a, rest1)" by (cases t)
    have g: "get 256 (Some 256) inp = Inr (Some (tag, is_tag, a, rest1))" using tok Some t by simp
    note eq = 1(9) [unfolded override_loop.simps [of dtime host_venue v x inp] g xml_then_simps option.case prod.case]
    note ih = 1(1-8) [OF g refl refl refl refl]
    consider (plain) "\<not> is_tag" | (outer) "is_tag" "tag = ''global_preferences''" | (close) "is_tag" "tag = ''/global_preferences''"
      | (inner) "is_tag" "tag \<noteq> ''global_preferences''" "tag \<noteq> ''/global_preferences''" by blast
    then show ?thesis
    proof cases
      case plain
      then show ?thesis using eq ih(1) 1(10) by simp
    next
      case outer
      then show ?thesis using eq ih(2) 1(10) by simp
    next
      case close
      then show ?thesis using eq 1(10) by simp
    next
      case inner
      have it: "\<not> \<not> is_tag" using inner by simp
      note ih = ih(3-8) [OF it inner(2,3)]
      consider (leave) "in_venue v \<and> tag = ''/venue''" | (wrong) "\<not> (in_venue v \<and> tag = ''/venue'')" "in_venue v \<and> \<not> in_correct_venue v"
        | (enter) "\<not> (in_venue v \<and> tag = ''/venue'')" "\<not> (in_venue v \<and> \<not> in_correct_venue v)" "\<not> in_venue v \<and> match_tag tag ''venue''"
        | (elem) "\<not> (in_venue v \<and> tag = ''/venue'')" "\<not> (in_venue v \<and> \<not> in_correct_venue v)" "\<not> (\<not> in_venue v \<and> match_tag tag ''venue'')"
        by blast
      then show ?thesis
      proof cases
        case leave
        then show ?thesis using eq inner ih(1) [OF leave] 1(10) by (cases "in_correct_venue v") simp_all
      next
        case wrong
        then show ?thesis using eq inner ih(2) [OF wrong] 1(10) by simp
      next
        case enter
        then show ?thesis
          using eq inner ih(3,4) [OF enter] 1(10) enter_venue_ok by (cases "parse_attr a ''name'' 256 = host_venue") simp_all
      next
        case elem
        obtain b y1 rest2 where f: "first_field (override_fields dtime) tag x rest1 = Inr (b, y1, rest2)"
          using eq inner elem by (auto simp: xml_then_Inr split: if_splits)
        have "pm_ok y1" using keepsD [OF keeps_override f] 1(10) .
        then show ?thesis
          using eq inner elem f ih(5,6) [OF elem f refl refl] by (cases b) (auto simp: xml_then_Inr)
      qed
    qed
  qed
qed

section \<open>Printed values are read\<close>

lemma digit_not_special: "is_digit c \<Longrightarrow> \<not> is_space c \<and> c \<noteq> CHR ''<''"
  by (auto simp: is_digit_def is_space_def)

lemma text_ok_digits: "text_ok (digits n)" "text_ok (CHR ''-'' # digits n)"
proof -
  have d: "\<forall>c \<in> set (digits n). is_digit c" using digits_are_digits by blast
  then have "CHR ''<'' \<notin> set (digits n)" using digit_not_special by blast
  moreover have "\<not> is_space (hd (digits n))" "\<not> is_space (last (digits n))" using d digit_not_special by simp_all
  ultimately show "text_ok (digits n)" "text_ok (CHR ''-'' # digits n)" by (simp_all add: text_ok_def is_space_def)
qed

lemma text_ok_int: "text_ok (string_of_int i)"
  by (simp add: string_of_int_def text_ok_digits)

lemma text_ok_fixed: "text_ok (show_fixed n x)"
proof -
  define k where "k = nat (round_even (\<bar>x\<bar> * 10 ^ n))"
  define f where "f = (if n = 0 then [] else CHR ''.'' # padded_digits n (k mod 10 ^ n))"
  have d: "text_ok (digits j)" "text_ok (CHR ''-'' # digits j)" for j by (rule text_ok_digits)+
  have p: "\<forall>c \<in> set (padded_digits n j). is_digit c" for j using padded_digits_are_digits by blast
  then have "CHR ''<'' \<notin> set (padded_digits n (k mod 10 ^ n))" using digit_not_special by blast
  then have "CHR ''<'' \<notin> set f" by (simp add: f_def)
  moreover have "\<not> is_space (last f)" if "f \<noteq> []"
  proof -
    have n: "n \<noteq> 0" using that unfolding f_def by (auto split: if_splits)
    then have "padded_digits n (k mod 10 ^ n) \<noteq> []" using padded_digits_length [of n "k mod 10 ^ n"] by force
    then show ?thesis using n p [of "k mod 10 ^ n"] digit_not_special by (simp add: f_def)
  qed
  ultimately have "text_ok (t @ f)" if "text_ok t" for t using that by (auto simp: text_ok_def last_append)
  from this [OF d(1)] this [OF d(2)] show ?thesis
    unfolding show_fixed_def Let_def k_def [symmetric] f_def [symmetric] by auto
qed

definition prints :: "nat \<Rightarrow> real \<Rightarrow> bool" where
  "prints n x = (length (show_fixed n x) < 256)"

lemma double_field_element:
  assumes "tag_ok (CHR ''/'' # name)" "prints n v"
  shows "double_field name u name x (show_fixed n v @ ''</'' @ name @ CHR ''>'' # rest) = Inr (True, u (fixed_value n v) x, rest)"
  using xml_parse_number_element [OF assms(1) text_ok_fixed, of n v double_value "fixed_value n v" 0 rest] assms(2)
  by (simp add: double_field_def field_def xml_parse_double_def prints_def double_value_def strtod_show_fixed)

lemma hour_field_element:
  assumes "tag_ok (CHR ''/'' # name)" "prints n v" "u (time_t_of (fixed_value n v * 3600)) x = Inr y"
  shows "hour_field name u name x (show_fixed n v @ ''</'' @ name @ CHR ''>'' # rest) = Inr (True, y, rest)"
  using xml_parse_number_element [OF assms(1) text_ok_fixed, of n v double_value "fixed_value n v" 0 rest] assms(2,3)
  by (simp add: hour_field_def field_def xml_parse_double_def prints_def double_value_def strtod_show_fixed)

lemma int_field_element:
  assumes "tag_ok (CHR ''/'' # name)" "length (string_of_int i) < 256" "- (2 ^ 31) \<le> i" "i < 2 ^ 31"
  shows "int_field name u name x (string_of_int i @ ''</'' @ name @ CHR ''>'' # rest) = Inr (True, u i x, rest)"
proof -
  have "strtol (string_of_int i) = (i, False, [])" using assms(3,4) by (intro strtol_string_of_int) simp
  then have "int_value (string_of_int i) = Some i" using int_of_long_id assms(3,4) by (simp add: int_value_def)
  then show ?thesis
    using xml_parse_number_element [OF assms(1) text_ok_int assms(2), of int_value i 0 rest]
    by (simp add: int_field_def field_def xml_parse_int_def)
qed

lemma bool_field_element:
  assumes "tag_ok (CHR ''/'' # name)"
  shows "bool_field name u name x (string_of_int (if b then 1 else 0) @ ''</'' @ name @ CHR ''>'' # rest) = Inr (True, u b x, rest)"
proof -
  define i :: int where "i = (if b then 1 else 0)"
  have "strtol (string_of_int i) = (i, False, [])" by (intro strtol_string_of_int) (simp add: i_def)
  moreover have "length (string_of_int i) < 256" by (simp add: i_def string_of_int_def digits.simps)
  ultimately show ?thesis
    using xml_parse_bool_element [OF assms text_ok_int [of i], of i False rest]
    by (simp add: i_def bool_field_def field_def split: if_splits)
qed

lemma other_field [simp]:
  "tag \<noteq> name \<Longrightarrow> double_field name u1 tag x inp = Inr (False, x, inp)"
  "tag \<noteq> name \<Longrightarrow> int_field name u2 tag x inp = Inr (False, x, inp)"
  "tag \<noteq> name \<Longrightarrow> tag \<noteq> name @ ''/'' \<Longrightarrow> bool_field name u3 tag x inp = Inr (False, x, inp)"
  "tag \<noteq> name \<Longrightarrow> tag \<noteq> name @ ''/'' \<Longrightarrow> str_field name len u4 tag x inp = Inr (False, x, inp)"
  "tag \<noteq> name \<Longrightarrow> hour_field name u5 tag x inp = Inr (False, x, inp)"
  by (simp_all add: double_field_def int_field_def bool_field_def str_field_def hour_field_def field_def
      xml_parse_double_def xml_parse_int_def)

lemma other_day_field [simp]: "tag \<noteq> ''day_prefs'' \<Longrightarrow> day_field tag x inp = Inr (False, x, inp)"
  by (simp add: day_field_def)

lemma get_NL: "get len attr (NL @ inp) = get len attr inp"
proof -
  have "scan_nonws (NL @ inp) = scan_nonws inp" by (simp add: scan_nonws_def NL_def is_space_def)
  then show ?thesis by (subst (1 2) get.simps) simp
qed

lemma override_NL: "override_loop dtime hv v x (NL @ inp) = override_loop dtime hv v x inp"
  by (subst (1 2) override_loop.simps) (simp add: get_NL)

lemma parse_day_NL: "parse_day d g (NL @ inp) = parse_day d g inp"
  by (subst (1 2) parse_day.simps) (simp add: get_NL)

end
