(* ===== verification/Prefs_Roundtrip.thy ===== *)
theory Prefs_Roundtrip
  imports Prefs_Correct
begin

text \<open>
  Reading the preferences that \<open>write_subset\<close> wrote. Each printed element changes the one preference
  it is for; the lemmas for the elements are stated for the loop of \<open>parse_override\<close> at the element.
\<close>

section \<open>One element\<close>

lemma override_element:
  assumes "\<not> in_venue v" "tag_ok name" "name \<noteq> ''global_preferences''" "name \<noteq> ''/global_preferences''"
    "\<not> match_tag name ''venue''"
    "first_field (override_fields dtime) name x (t @ ''</'' @ name @ CHR ''>'' # NL @ rest) = Inr (True, y, NL @ rest)"
  shows "override_loop dtime hv v x (write_tag name t @ rest) = override_loop dtime hv v y rest"
proof -
  have "get 256 (Some 256) (write_tag name t @ rest)
      = Inr (Some (name, True, [], t @ ''</'' @ name @ CHR ''>'' # NL @ rest))"
    using get_tag [OF assms(2), of "[]" "Some 256" "t @ ''</'' @ name @ CHR ''>'' # NL @ rest"] by (simp add: write_tag_def)
  then have "override_loop dtime hv v x (write_tag name t @ rest) = override_loop dtime hv v y (NL @ rest)"
    using assms by (subst override_loop.simps) simp
  then show ?thesis by (simp only: override_NL)
qed

lemmas override_names = tag_ok_def name_ok_def is_space_def match_tag_def

definition int_prints :: "int \<Rightarrow> bool" where
  "int_prints i = (length (string_of_int i) < 256 \<and> - (2 ^ 31) \<le> i \<and> i < 2 ^ 31)"

lemma override_finds:
  "(bool_field ''run_on_batteries'' (\<lambda>v. both (\<lambda>g. g\<lparr>gp_run_on_batteries := v\<rparr>) (\<lambda>m. m\<lparr>gm_run_on_batteries := True\<rparr>))) ''run_on_batteries'' x inp = Inr (True, y, r) \<Longrightarrow> first_field (override_fields dtime) ''run_on_batteries'' x inp = Inr (True, y, r)"
  "(bool_field ''run_if_user_active'' (\<lambda>v. both (\<lambda>g. g\<lparr>gp_run_if_user_active := v\<rparr>) (\<lambda>m. m\<lparr>gm_run_if_user_active := True\<rparr>))) ''run_if_user_active'' x inp = Inr (True, y, r) \<Longrightarrow> first_field (override_fields dtime) ''run_if_user_active'' x inp = Inr (True, y, r)"
  "(double_field ''idle_time_to_run'' (\<lambda>v. both (\<lambda>g. g\<lparr>gp_idle_time_to_run := v\<rparr>) (\<lambda>m. m\<lparr>gm_idle_time_to_run := True\<rparr>))) ''idle_time_to_run'' x inp = Inr (True, y, r) \<Longrightarrow> first_field (override_fields dtime) ''idle_time_to_run'' x inp = Inr (True, y, r)"
  "(double_field ''suspend_if_no_recent_input'' (\<lambda>v. both (\<lambda>g. g\<lparr>gp_suspend_if_no_recent_input := v\<rparr>) (\<lambda>m. m\<lparr>gm_suspend_if_no_recent_input := True\<rparr>))) ''suspend_if_no_recent_input'' x inp = Inr (True, y, r) \<Longrightarrow> first_field (override_fields dtime) ''suspend_if_no_recent_input'' x inp = Inr (True, y, r)"
  "(hour_field ''start_hour'' (cpu_hour set_start (\<lambda>m. m\<lparr>gm_start_hour := True\<rparr>))) ''start_hour'' x inp = Inr (True, y, r) \<Longrightarrow> first_field (override_fields dtime) ''start_hour'' x inp = Inr (True, y, r)"
  "(hour_field ''end_hour'' (cpu_hour set_end (\<lambda>m. m\<lparr>gm_end_hour := True\<rparr>))) ''end_hour'' x inp = Inr (True, y, r) \<Longrightarrow> first_field (override_fields dtime) ''end_hour'' x inp = Inr (True, y, r)"
  "(hour_field ''net_start_hour'' (net_hour set_start (\<lambda>m. m\<lparr>gm_net_start_hour := True\<rparr>))) ''net_start_hour'' x inp = Inr (True, y, r) \<Longrightarrow> first_field (override_fields dtime) ''net_start_hour'' x inp = Inr (True, y, r)"
  "(hour_field ''net_end_hour'' (net_hour set_end (\<lambda>m. m\<lparr>gm_net_end_hour := True\<rparr>))) ''net_end_hour'' x inp = Inr (True, y, r) \<Longrightarrow> first_field (override_fields dtime) ''net_end_hour'' x inp = Inr (True, y, r)"
  "(bool_field ''leave_apps_in_memory'' (\<lambda>v. both (\<lambda>g. g\<lparr>gp_leave_apps_in_memory := v\<rparr>) (\<lambda>m. m\<lparr>gm_leave_apps_in_memory := True\<rparr>))) ''leave_apps_in_memory'' x inp = Inr (True, y, r) \<Longrightarrow> first_field (override_fields dtime) ''leave_apps_in_memory'' x inp = Inr (True, y, r)"
  "(bool_field ''confirm_before_connecting'' (\<lambda>v. both (\<lambda>g. g\<lparr>gp_confirm_before_connecting := v\<rparr>) (\<lambda>m. m\<lparr>gm_confirm_before_connecting := True\<rparr>))) ''confirm_before_connecting'' x inp = Inr (True, y, r) \<Longrightarrow> first_field (override_fields dtime) ''confirm_before_connecting'' x inp = Inr (True, y, r)"
  "(bool_field ''hangup_if_dialed'' (\<lambda>v. both (\<lambda>g. g\<lparr>gp_hangup_if_dialed := v\<rparr>) (\<lambda>m. m\<lparr>gm_hangup_if_dialed := True\<rparr>))) ''hangup_if_dialed'' x inp = Inr (True, y, r) \<Longrightarrow> first_field (override_fields dtime) ''hangup_if_dialed'' x inp = Inr (True, y, r)"
  "(bool_field ''dont_verify_images'' (\<lambda>v. both (\<lambda>g. g\<lparr>gp_dont_verify_images := v\<rparr>) (\<lambda>m. m\<lparr>gm_dont_verify_images := True\<rparr>))) ''dont_verify_images'' x inp = Inr (True, y, r) \<Longrightarrow> first_field (override_fields dtime) ''dont_verify_images'' x inp = Inr (True, y, r)"
  "(double_field ''work_buf_min_days'' (\<lambda>v. both (\<lambda>g. g\<lparr>gp_work_buf_min_days := (if v < 1/100000 then 1/100000 else v)\<rparr>) (\<lambda>m. m\<lparr>gm_work_buf_min_days := True\<rparr>))) ''work_buf_min_days'' x inp = Inr (True, y, r) \<Longrightarrow> first_field (override_fields dtime) ''work_buf_min_days'' x inp = Inr (True, y, r)"
  "(double_field ''work_buf_additional_days'' (\<lambda>v. both (\<lambda>g. g\<lparr>gp_work_buf_additional_days := (if v < 0 then 0 else v)\<rparr>) (\<lambda>m. m\<lparr>gm_work_buf_additional_days := True\<rparr>))) ''work_buf_additional_days'' x inp = Inr (True, y, r) \<Longrightarrow> first_field (override_fields dtime) ''work_buf_additional_days'' x inp = Inr (True, y, r)"
  "(int_field ''max_cpus'' (\<lambda>v. both (\<lambda>g. g\<lparr>gp_max_cpus := (if v < 1 then 1 else v)\<rparr>) (\<lambda>m. m\<lparr>gm_max_cpus := True\<rparr>))) ''max_cpus'' x inp = Inr (True, y, r) \<Longrightarrow> first_field (override_fields dtime) ''max_cpus'' x inp = Inr (True, y, r)"
  "(double_field ''max_ncpus_pct'' (\<lambda>v. both (\<lambda>g. g\<lparr>gp_max_ncpus_pct := (let v1 = (if v < 0 then 0 else v) in if v1 > 100 then 100 else v1)\<rparr>) (\<lambda>m. m\<lparr>gm_max_ncpus_pct := True\<rparr>))) ''max_ncpus_pct'' x inp = Inr (True, y, r) \<Longrightarrow> first_field (override_fields dtime) ''max_ncpus_pct'' x inp = Inr (True, y, r)"
  "(double_field ''cpu_scheduling_period_minutes'' (\<lambda>v. both (\<lambda>g. g\<lparr>gp_cpu_scheduling_period_minutes := (if v < 1/10000 then 60 else v)\<rparr>) (\<lambda>m. m\<lparr>gm_cpu_scheduling_period_minutes := True\<rparr>))) ''cpu_scheduling_period_minutes'' x inp = Inr (True, y, r) \<Longrightarrow> first_field (override_fields dtime) ''cpu_scheduling_period_minutes'' x inp = Inr (True, y, r)"
  "(double_field ''disk_interval'' (\<lambda>v. both (\<lambda>g. g\<lparr>gp_disk_interval := (if v < 0 then 0 else v)\<rparr>) (\<lambda>m. m\<lparr>gm_disk_interval := True\<rparr>))) ''disk_interval'' x inp = Inr (True, y, r) \<Longrightarrow> first_field (override_fields dtime) ''disk_interval'' x inp = Inr (True, y, r)"
  "(double_field ''disk_max_used_gb'' (\<lambda>v. both (\<lambda>g. g\<lparr>gp_disk_max_used_gb := v\<rparr>) (\<lambda>m. m\<lparr>gm_disk_max_used_gb := True\<rparr>))) ''disk_max_used_gb'' x inp = Inr (True, y, r) \<Longrightarrow> first_field (override_fields dtime) ''disk_max_used_gb'' x inp = Inr (True, y, r)"
  "(double_field ''disk_max_used_pct'' (\<lambda>v. both (\<lambda>g. g\<lparr>gp_disk_max_used_pct := v\<rparr>) (\<lambda>m. m\<lparr>gm_disk_max_used_pct := True\<rparr>))) ''disk_max_used_pct'' x inp = Inr (True, y, r) \<Longrightarrow> first_field (override_fields dtime) ''disk_max_used_pct'' x inp = Inr (True, y, r)"
  "(double_field ''disk_min_free_gb'' (\<lambda>v. both (\<lambda>g. g\<lparr>gp_disk_min_free_gb := v\<rparr>) (\<lambda>m. m\<lparr>gm_disk_min_free_gb := True\<rparr>))) ''disk_min_free_gb'' x inp = Inr (True, y, r) \<Longrightarrow> first_field (override_fields dtime) ''disk_min_free_gb'' x inp = Inr (True, y, r)"
  "(double_field ''vm_max_used_pct'' (\<lambda>v. both (\<lambda>g. g\<lparr>gp_vm_max_used_frac := v / 100\<rparr>) (\<lambda>m. m\<lparr>gm_vm_max_used_frac := True\<rparr>))) ''vm_max_used_pct'' x inp = Inr (True, y, r) \<Longrightarrow> first_field (override_fields dtime) ''vm_max_used_pct'' x inp = Inr (True, y, r)"
  "(double_field ''ram_max_used_busy_pct'' (\<lambda>v. both (\<lambda>g. g\<lparr>gp_ram_max_used_busy_frac := (if v = 0 then 100 else v) / 100\<rparr>) (\<lambda>m. m\<lparr>gm_ram_max_used_busy_frac := True\<rparr>))) ''ram_max_used_busy_pct'' x inp = Inr (True, y, r) \<Longrightarrow> first_field (override_fields dtime) ''ram_max_used_busy_pct'' x inp = Inr (True, y, r)"
  "(double_field ''ram_max_used_idle_pct'' (\<lambda>v. both (\<lambda>g. g\<lparr>gp_ram_max_used_idle_frac := (if v = 0 then 100 else v) / 100\<rparr>) (\<lambda>m. m\<lparr>gm_ram_max_used_idle_frac := True\<rparr>))) ''ram_max_used_idle_pct'' x inp = Inr (True, y, r) \<Longrightarrow> first_field (override_fields dtime) ''ram_max_used_idle_pct'' x inp = Inr (True, y, r)"
  "(double_field ''max_bytes_sec_up'' (\<lambda>v. both (\<lambda>g. g\<lparr>gp_max_bytes_sec_up := (if v < 0 then 0 else v)\<rparr>) (\<lambda>m. m\<lparr>gm_max_bytes_sec_up := True\<rparr>))) ''max_bytes_sec_up'' x inp = Inr (True, y, r) \<Longrightarrow> first_field (override_fields dtime) ''max_bytes_sec_up'' x inp = Inr (True, y, r)"
  "(double_field ''max_bytes_sec_down'' (\<lambda>v. both (\<lambda>g. g\<lparr>gp_max_bytes_sec_down := (if v < 0 then 0 else v)\<rparr>) (\<lambda>m. m\<lparr>gm_max_bytes_sec_down := True\<rparr>))) ''max_bytes_sec_down'' x inp = Inr (True, y, r) \<Longrightarrow> first_field (override_fields dtime) ''max_bytes_sec_down'' x inp = Inr (True, y, r)"
  "(double_field ''cpu_usage_limit'' (\<lambda>v x. if v > 0 \<and> v \<le> 100 then both (\<lambda>g. g\<lparr>gp_cpu_usage_limit := v\<rparr>) (\<lambda>m. m\<lparr>gm_cpu_usage_limit := True\<rparr>) x else x)) ''cpu_usage_limit'' x inp = Inr (True, y, r) \<Longrightarrow> first_field (override_fields dtime) ''cpu_usage_limit'' x inp = Inr (True, y, r)"
  by (simp_all add: override_fields_def)

lemma override_run_on_batteries:
  "\<not> in_venue v \<Longrightarrow> override_loop dtime hv v x (write_tag ''run_on_batteries'' (string_of_int (if w then 1 else 0)) @ rest)
     = override_loop dtime hv v (both (\<lambda>g. g\<lparr>gp_run_on_batteries := w\<rparr>) (\<lambda>m. m\<lparr>gm_run_on_batteries := True\<rparr>) x) rest"
  by (erule override_element [OF _ _ _ _ _ override_finds(1) [OF bool_field_element]]) (simp_all add: override_names int_prints_def)

lemma override_run_if_user_active:
  "\<not> in_venue v \<Longrightarrow> override_loop dtime hv v x (write_tag ''run_if_user_active'' (string_of_int (if w then 1 else 0)) @ rest)
     = override_loop dtime hv v (both (\<lambda>g. g\<lparr>gp_run_if_user_active := w\<rparr>) (\<lambda>m. m\<lparr>gm_run_if_user_active := True\<rparr>) x) rest"
  by (erule override_element [OF _ _ _ _ _ override_finds(2) [OF bool_field_element]]) (simp_all add: override_names int_prints_def)

lemma override_idle_time_to_run:
  "\<not> in_venue v \<Longrightarrow> prints n w0 \<Longrightarrow> override_loop dtime hv v x (write_tag ''idle_time_to_run'' (show_fixed n w0) @ rest)
     = override_loop dtime hv v (both (\<lambda>g. g\<lparr>gp_idle_time_to_run := fixed_value n w0\<rparr>) (\<lambda>m. m\<lparr>gm_idle_time_to_run := True\<rparr>) x) rest"
  by (erule override_element [OF _ _ _ _ _ override_finds(3) [OF double_field_element]]) (simp_all add: override_names int_prints_def)

lemma override_suspend_if_no_recent_input:
  "\<not> in_venue v \<Longrightarrow> prints n w0 \<Longrightarrow> override_loop dtime hv v x (write_tag ''suspend_if_no_recent_input'' (show_fixed n w0) @ rest)
     = override_loop dtime hv v (both (\<lambda>g. g\<lparr>gp_suspend_if_no_recent_input := fixed_value n w0\<rparr>) (\<lambda>m. m\<lparr>gm_suspend_if_no_recent_input := True\<rparr>) x) rest"
  by (erule override_element [OF _ _ _ _ _ override_finds(4) [OF double_field_element]]) (simp_all add: override_names int_prints_def)

lemma override_start_hour:
  "\<not> in_venue v \<Longrightarrow> prints n w0 \<and> cpu_hour set_start (\<lambda>m. m\<lparr>gm_start_hour := True\<rparr>) (time_t_of (fixed_value n w0 * 3600)) x = Inr y \<Longrightarrow> override_loop dtime hv v x (write_tag ''start_hour'' (show_fixed n w0) @ rest)
     = override_loop dtime hv v y rest"
  by (erule override_element [OF _ _ _ _ _ override_finds(5) [OF hour_field_element]]) (simp_all add: override_names int_prints_def)

lemma override_end_hour:
  "\<not> in_venue v \<Longrightarrow> prints n w0 \<and> cpu_hour set_end (\<lambda>m. m\<lparr>gm_end_hour := True\<rparr>) (time_t_of (fixed_value n w0 * 3600)) x = Inr y \<Longrightarrow> override_loop dtime hv v x (write_tag ''end_hour'' (show_fixed n w0) @ rest)
     = override_loop dtime hv v y rest"
  by (erule override_element [OF _ _ _ _ _ override_finds(6) [OF hour_field_element]]) (simp_all add: override_names int_prints_def)

lemma override_net_start_hour:
  "\<not> in_venue v \<Longrightarrow> prints n w0 \<and> net_hour set_start (\<lambda>m. m\<lparr>gm_net_start_hour := True\<rparr>) (time_t_of (fixed_value n w0 * 3600)) x = Inr y \<Longrightarrow> override_loop dtime hv v x (write_tag ''net_start_hour'' (show_fixed n w0) @ rest)
     = override_loop dtime hv v y rest"
  by (erule override_element [OF _ _ _ _ _ override_finds(7) [OF hour_field_element]]) (simp_all add: override_names int_prints_def)

lemma override_net_end_hour:
  "\<not> in_venue v \<Longrightarrow> prints n w0 \<and> net_hour set_end (\<lambda>m. m\<lparr>gm_net_end_hour := True\<rparr>) (time_t_of (fixed_value n w0 * 3600)) x = Inr y \<Longrightarrow> override_loop dtime hv v x (write_tag ''net_end_hour'' (show_fixed n w0) @ rest)
     = override_loop dtime hv v y rest"
  by (erule override_element [OF _ _ _ _ _ override_finds(8) [OF hour_field_element]]) (simp_all add: override_names int_prints_def)

lemma override_leave_apps_in_memory:
  "\<not> in_venue v \<Longrightarrow> override_loop dtime hv v x (write_tag ''leave_apps_in_memory'' (string_of_int (if w then 1 else 0)) @ rest)
     = override_loop dtime hv v (both (\<lambda>g. g\<lparr>gp_leave_apps_in_memory := w\<rparr>) (\<lambda>m. m\<lparr>gm_leave_apps_in_memory := True\<rparr>) x) rest"
  by (erule override_element [OF _ _ _ _ _ override_finds(9) [OF bool_field_element]]) (simp_all add: override_names int_prints_def)

lemma override_confirm_before_connecting:
  "\<not> in_venue v \<Longrightarrow> override_loop dtime hv v x (write_tag ''confirm_before_connecting'' (string_of_int (if w then 1 else 0)) @ rest)
     = override_loop dtime hv v (both (\<lambda>g. g\<lparr>gp_confirm_before_connecting := w\<rparr>) (\<lambda>m. m\<lparr>gm_confirm_before_connecting := True\<rparr>) x) rest"
  by (erule override_element [OF _ _ _ _ _ override_finds(10) [OF bool_field_element]]) (simp_all add: override_names int_prints_def)

lemma override_hangup_if_dialed:
  "\<not> in_venue v \<Longrightarrow> override_loop dtime hv v x (write_tag ''hangup_if_dialed'' (string_of_int (if w then 1 else 0)) @ rest)
     = override_loop dtime hv v (both (\<lambda>g. g\<lparr>gp_hangup_if_dialed := w\<rparr>) (\<lambda>m. m\<lparr>gm_hangup_if_dialed := True\<rparr>) x) rest"
  by (erule override_element [OF _ _ _ _ _ override_finds(11) [OF bool_field_element]]) (simp_all add: override_names int_prints_def)

lemma override_dont_verify_images:
  "\<not> in_venue v \<Longrightarrow> override_loop dtime hv v x (write_tag ''dont_verify_images'' (string_of_int (if w then 1 else 0)) @ rest)
     = override_loop dtime hv v (both (\<lambda>g. g\<lparr>gp_dont_verify_images := w\<rparr>) (\<lambda>m. m\<lparr>gm_dont_verify_images := True\<rparr>) x) rest"
  by (erule override_element [OF _ _ _ _ _ override_finds(12) [OF bool_field_element]]) (simp_all add: override_names int_prints_def)

lemma override_work_buf_min_days:
  "\<not> in_venue v \<Longrightarrow> prints n w0 \<Longrightarrow> override_loop dtime hv v x (write_tag ''work_buf_min_days'' (show_fixed n w0) @ rest)
     = override_loop dtime hv v (both (\<lambda>g. g\<lparr>gp_work_buf_min_days := (if fixed_value n w0 < 1/100000 then 1/100000 else fixed_value n w0)\<rparr>) (\<lambda>m. m\<lparr>gm_work_buf_min_days := True\<rparr>) x) rest"
  by (erule override_element [OF _ _ _ _ _ override_finds(13) [OF double_field_element]]) (simp_all add: override_names int_prints_def)

lemma override_work_buf_additional_days:
  "\<not> in_venue v \<Longrightarrow> prints n w0 \<Longrightarrow> override_loop dtime hv v x (write_tag ''work_buf_additional_days'' (show_fixed n w0) @ rest)
     = override_loop dtime hv v (both (\<lambda>g. g\<lparr>gp_work_buf_additional_days := (if fixed_value n w0 < 0 then 0 else fixed_value n w0)\<rparr>) (\<lambda>m. m\<lparr>gm_work_buf_additional_days := True\<rparr>) x) rest"
  by (erule override_element [OF _ _ _ _ _ override_finds(14) [OF double_field_element]]) (simp_all add: override_names int_prints_def)

lemma override_max_cpus:
  "\<not> in_venue v \<Longrightarrow> int_prints w \<Longrightarrow> override_loop dtime hv v x (write_tag ''max_cpus'' (string_of_int w) @ rest)
     = override_loop dtime hv v (both (\<lambda>g. g\<lparr>gp_max_cpus := (if w < 1 then 1 else w)\<rparr>) (\<lambda>m. m\<lparr>gm_max_cpus := True\<rparr>) x) rest"
  by (erule override_element [OF _ _ _ _ _ override_finds(15) [OF int_field_element]]) (simp_all add: override_names int_prints_def)

lemma override_max_ncpus_pct:
  "\<not> in_venue v \<Longrightarrow> prints n w0 \<Longrightarrow> override_loop dtime hv v x (write_tag ''max_ncpus_pct'' (show_fixed n w0) @ rest)
     = override_loop dtime hv v (both (\<lambda>g. g\<lparr>gp_max_ncpus_pct := (let v1 = (if fixed_value n w0 < 0 then 0 else fixed_value n w0) in if v1 > 100 then 100 else v1)\<rparr>) (\<lambda>m. m\<lparr>gm_max_ncpus_pct := True\<rparr>) x) rest"
  by (erule override_element [OF _ _ _ _ _ override_finds(16) [OF double_field_element]]) (simp_all add: override_names int_prints_def)

lemma override_cpu_scheduling_period_minutes:
  "\<not> in_venue v \<Longrightarrow> prints n w0 \<Longrightarrow> override_loop dtime hv v x (write_tag ''cpu_scheduling_period_minutes'' (show_fixed n w0) @ rest)
     = override_loop dtime hv v (both (\<lambda>g. g\<lparr>gp_cpu_scheduling_period_minutes := (if fixed_value n w0 < 1/10000 then 60 else fixed_value n w0)\<rparr>) (\<lambda>m. m\<lparr>gm_cpu_scheduling_period_minutes := True\<rparr>) x) rest"
  by (erule override_element [OF _ _ _ _ _ override_finds(17) [OF double_field_element]]) (simp_all add: override_names int_prints_def)

lemma override_disk_interval:
  "\<not> in_venue v \<Longrightarrow> prints n w0 \<Longrightarrow> override_loop dtime hv v x (write_tag ''disk_interval'' (show_fixed n w0) @ rest)
     = override_loop dtime hv v (both (\<lambda>g. g\<lparr>gp_disk_interval := (if fixed_value n w0 < 0 then 0 else fixed_value n w0)\<rparr>) (\<lambda>m. m\<lparr>gm_disk_interval := True\<rparr>) x) rest"
  by (erule override_element [OF _ _ _ _ _ override_finds(18) [OF double_field_element]]) (simp_all add: override_names int_prints_def)

lemma override_disk_max_used_gb:
  "\<not> in_venue v \<Longrightarrow> prints n w0 \<Longrightarrow> override_loop dtime hv v x (write_tag ''disk_max_used_gb'' (show_fixed n w0) @ rest)
     = override_loop dtime hv v (both (\<lambda>g. g\<lparr>gp_disk_max_used_gb := fixed_value n w0\<rparr>) (\<lambda>m. m\<lparr>gm_disk_max_used_gb := True\<rparr>) x) rest"
  by (erule override_element [OF _ _ _ _ _ override_finds(19) [OF double_field_element]]) (simp_all add: override_names int_prints_def)

lemma override_disk_max_used_pct:
  "\<not> in_venue v \<Longrightarrow> prints n w0 \<Longrightarrow> override_loop dtime hv v x (write_tag ''disk_max_used_pct'' (show_fixed n w0) @ rest)
     = override_loop dtime hv v (both (\<lambda>g. g\<lparr>gp_disk_max_used_pct := fixed_value n w0\<rparr>) (\<lambda>m. m\<lparr>gm_disk_max_used_pct := True\<rparr>) x) rest"
  by (erule override_element [OF _ _ _ _ _ override_finds(20) [OF double_field_element]]) (simp_all add: override_names int_prints_def)

lemma override_disk_min_free_gb:
  "\<not> in_venue v \<Longrightarrow> prints n w0 \<Longrightarrow> override_loop dtime hv v x (write_tag ''disk_min_free_gb'' (show_fixed n w0) @ rest)
     = override_loop dtime hv v (both (\<lambda>g. g\<lparr>gp_disk_min_free_gb := fixed_value n w0\<rparr>) (\<lambda>m. m\<lparr>gm_disk_min_free_gb := True\<rparr>) x) rest"
  by (erule override_element [OF _ _ _ _ _ override_finds(21) [OF double_field_element]]) (simp_all add: override_names int_prints_def)

lemma override_vm_max_used_pct:
  "\<not> in_venue v \<Longrightarrow> prints n w0 \<Longrightarrow> override_loop dtime hv v x (write_tag ''vm_max_used_pct'' (show_fixed n w0) @ rest)
     = override_loop dtime hv v (both (\<lambda>g. g\<lparr>gp_vm_max_used_frac := fixed_value n w0 / 100\<rparr>) (\<lambda>m. m\<lparr>gm_vm_max_used_frac := True\<rparr>) x) rest"
  by (erule override_element [OF _ _ _ _ _ override_finds(22) [OF double_field_element]]) (simp_all add: override_names int_prints_def)

lemma override_ram_max_used_busy_pct:
  "\<not> in_venue v \<Longrightarrow> prints n w0 \<Longrightarrow> override_loop dtime hv v x (write_tag ''ram_max_used_busy_pct'' (show_fixed n w0) @ rest)
     = override_loop dtime hv v (both (\<lambda>g. g\<lparr>gp_ram_max_used_busy_frac := (if fixed_value n w0 = 0 then 100 else fixed_value n w0) / 100\<rparr>) (\<lambda>m. m\<lparr>gm_ram_max_used_busy_frac := True\<rparr>) x) rest"
  by (erule override_element [OF _ _ _ _ _ override_finds(23) [OF double_field_element]]) (simp_all add: override_names int_prints_def)

lemma override_ram_max_used_idle_pct:
  "\<not> in_venue v \<Longrightarrow> prints n w0 \<Longrightarrow> override_loop dtime hv v x (write_tag ''ram_max_used_idle_pct'' (show_fixed n w0) @ rest)
     = override_loop dtime hv v (both (\<lambda>g. g\<lparr>gp_ram_max_used_idle_frac := (if fixed_value n w0 = 0 then 100 else fixed_value n w0) / 100\<rparr>) (\<lambda>m. m\<lparr>gm_ram_max_used_idle_frac := True\<rparr>) x) rest"
  by (erule override_element [OF _ _ _ _ _ override_finds(24) [OF double_field_element]]) (simp_all add: override_names int_prints_def)

lemma override_max_bytes_sec_up:
  "\<not> in_venue v \<Longrightarrow> prints n w0 \<Longrightarrow> override_loop dtime hv v x (write_tag ''max_bytes_sec_up'' (show_fixed n w0) @ rest)
     = override_loop dtime hv v (both (\<lambda>g. g\<lparr>gp_max_bytes_sec_up := (if fixed_value n w0 < 0 then 0 else fixed_value n w0)\<rparr>) (\<lambda>m. m\<lparr>gm_max_bytes_sec_up := True\<rparr>) x) rest"
  by (erule override_element [OF _ _ _ _ _ override_finds(25) [OF double_field_element]]) (simp_all add: override_names int_prints_def)

lemma override_max_bytes_sec_down:
  "\<not> in_venue v \<Longrightarrow> prints n w0 \<Longrightarrow> override_loop dtime hv v x (write_tag ''max_bytes_sec_down'' (show_fixed n w0) @ rest)
     = override_loop dtime hv v (both (\<lambda>g. g\<lparr>gp_max_bytes_sec_down := (if fixed_value n w0 < 0 then 0 else fixed_value n w0)\<rparr>) (\<lambda>m. m\<lparr>gm_max_bytes_sec_down := True\<rparr>) x) rest"
  by (erule override_element [OF _ _ _ _ _ override_finds(26) [OF double_field_element]]) (simp_all add: override_names int_prints_def)

lemma override_cpu_usage_limit:
  "\<not> in_venue v \<Longrightarrow> prints n w0 \<Longrightarrow> override_loop dtime hv v x (write_tag ''cpu_usage_limit'' (show_fixed n w0) @ rest)
     = override_loop dtime hv v (if fixed_value n w0 > 0 \<and> fixed_value n w0 \<le> 100 then both (\<lambda>g. g\<lparr>gp_cpu_usage_limit := fixed_value n w0\<rparr>) (\<lambda>m. m\<lparr>gm_cpu_usage_limit := True\<rparr>) x else x) rest"
  by (erule override_element [OF _ _ _ _ _ override_finds(27) [OF double_field_element]]) (simp_all add: override_names int_prints_def)

section \<open>A day\<close>

lemma digits_length: "n < 10 ^ k \<Longrightarrow> 0 < k \<Longrightarrow> length (digits n) \<le> k"
proof (induction k arbitrary: n)
  case (Suc k)
  show ?case
  proof (cases "n < 10")
    case False
    then have "0 < k" using Suc.prems by (cases k) auto
    moreover have "n div 10 < 10 ^ k" using Suc.prems(1) by (simp add: less_mult_imp_div_less mult.commute)
    ultimately show ?thesis using Suc.IH False by (subst digits.simps) simp
  qed (simp add: digits.simps)
qed simp

lemma show_fixed_length: "length (show_fixed n x) \<le> 2 + n + length (digits (nat (round_even (\<bar>x\<bar> * 10 ^ n)) div 10 ^ n))"
  by (simp add: show_fixed_def Let_def)

lemma round_even_le: "x \<le> of_int k \<Longrightarrow> round_even x \<le> k"
  using round_even_close [of x] by linarith

lemma prints_bound:
  assumes "\<bar>x\<bar> \<le> of_int k" "k < 10 ^ 200" "n \<le> 50"
  shows "prints n x"
proof -
  have k: "0 \<le> k" using assms(1) by linarith
  have "\<bar>x\<bar> * 10 ^ n \<le> of_int (k * 10 ^ n)" using assms(1) by simp
  then have "round_even (\<bar>x\<bar> * 10 ^ n) \<le> k * 10 ^ n" by (rule round_even_le)
  then have "nat (round_even (\<bar>x\<bar> * 10 ^ n)) \<le> nat k * 10 ^ n" using k by (simp add: nat_le_iff)
  then have "nat (round_even (\<bar>x\<bar> * 10 ^ n)) div 10 ^ n \<le> nat k"
    using div_le_mono [of _ _ "10 ^ n"] by fastforce
  also have "nat k < 10 ^ 200" using assms(2) k by (simp add: nat_less_iff)
  finally have "length (digits (nat (round_even (\<bar>x\<bar> * 10 ^ n)) div 10 ^ n)) \<le> 200" by (intro digits_length) simp_all
  then show ?thesis using show_fixed_length [of n x] assms(3) by (simp add: prints_def)
qed

text \<open>What becomes of a time of day that is written in hours with \<open>n\<close> decimals and read again.\<close>

definition reread :: "nat \<Rightarrow> int \<Rightarrow> int" where
  "reread n t = time_t_of (fixed_value n (hours t) * 3600)"

lemma fixed_value_range:
  assumes "0 \<le> x" "x \<le> of_int k"
  shows "0 \<le> fixed_value n x" "fixed_value n x \<le> of_int k"
proof -
  have "0 \<le> round_even (\<bar>x\<bar> * 10 ^ n)" by (intro round_even_nonneg) simp
  then show "0 \<le> fixed_value n x" using assms(1) by (simp add: fixed_value_def)
  have "\<bar>x\<bar> * 10 ^ n \<le> of_int (k * 10 ^ n)" using assms by simp
  then have "round_even (\<bar>x\<bar> * 10 ^ n) \<le> k * 10 ^ n" by (rule round_even_le)
  then have "real_of_int (round_even (\<bar>x\<bar> * 10 ^ n)) \<le> of_int (k * 10 ^ n)" by (simp only: of_int_le_iff)
  then have "real_of_int (round_even (\<bar>x\<bar> * 10 ^ n)) \<le> of_int k * 10 ^ n" by simp
  then show "fixed_value n x \<le> of_int k" using assms(1) by (simp add: fixed_value_def field_simps)
qed

lemma hours_range: "0 \<le> t \<Longrightarrow> t \<le> DAY_SECONDS \<Longrightarrow> 0 \<le> hours t \<and> hours t \<le> of_int 24"
  by (simp add: hours_def)

lemma reread_range:
  assumes "0 \<le> t" "t \<le> DAY_SECONDS"
  shows "0 \<le> reread n t" "reread n t \<le> DAY_SECONDS"
proof -
  have "0 \<le> fixed_value n (hours t)" "fixed_value n (hours t) \<le> of_int 24"
    using hours_range [OF assms] fixed_value_range [of "hours t" 24 n] by auto
  then show "0 \<le> reread n t" "reread n t \<le> DAY_SECONDS"
    by (simp_all add: reread_def time_t_of_def floor_le_iff)
qed

lemma prints_hours: "0 \<le> t \<Longrightarrow> t \<le> DAY_SECONDS \<Longrightarrow> n \<le> 50 \<Longrightarrow> prints n (hours t)"
  using hours_range by (intro prints_bound [of _ 24]) auto

definition reread_span :: "TIME_SPAN \<Rightarrow> TIME_SPAN" where
  "reread_span t = \<lparr>m_start = reread 2 (m_start t), m_end = reread 2 (m_end t)\<rparr>"

definition day_text :: "GLOBAL_PREFS \<Rightarrow> nat \<Rightarrow> string" where
  "day_text g i = os_text (write_day g i \<lparr>os_text = [], os_precision = 2\<rparr>)"

definition span_text :: "string \<Rightarrow> string \<Rightarrow> TIME_SPAN option \<Rightarrow> string" where
  "span_text a b t = (case t of None \<Rightarrow> []
     | Some u \<Rightarrow> write_tag a (show_fixed 2 (hours (m_start u))) @ write_tag b (show_fixed 2 (hours (m_end u))))"

lemma write_span_text:
  "write_span a b t os = os\<lparr>os_text := os_text os @ span_text a b t, os_precision := (if t = None then os_precision os else 2)\<rparr>"
  by (simp add: write_span_def span_text_def tag_double_def emit_def set_precision_def split: option.split)

lemma day_text_eq:
  "day_text g i = (let cpu = week_get (tp_week (gp_cpu_times g)) (int i); net = week_get (tp_week (gp_net_times g)) (int i) in
     if net \<noteq> None \<or> cpu \<noteq> None
     then ''<day_prefs>'' @ NL @ write_tag ''day_of_week'' (string_of_int (int i))
            @ span_text ''start_hour'' ''end_hour'' cpu @ span_text ''net_start_hour'' ''net_end_hour'' net @ ''</day_prefs>'' @ NL
     else [])"
  by (simp add: day_text_def write_day_def Let_def write_span_text emit_def tag_int_def)

definition has_day :: "GLOBAL_PREFS \<Rightarrow> nat \<Rightarrow> bool" where
  "has_day g i = (week_get (tp_week (gp_cpu_times g)) (int i) \<noteq> None \<or> week_get (tp_week (gp_net_times g)) (int i) \<noteq> None)"

lemma write_day_text:
  "write_day g i os = os\<lparr>os_text := os_text os @ day_text g i, os_precision := (if has_day g i then 2 else os_precision os)\<rparr>"
  by (auto simp: write_day_def Let_def write_span_text emit_def tag_int_def day_text_eq has_day_def)

lemma write_day_prefs_text:
  "write_day_prefs g os = os\<lparr>os_text := os_text os @ concat (map (day_text g) [0..<7]),
     os_precision := (if list_ex (has_day g) [0..<7] then 2 else os_precision os)\<rparr>"
proof -
  have "fold (write_day g) is os = os\<lparr>os_text := os_text os @ concat (map (day_text g) is),
     os_precision := (if list_ex (has_day g) is then 2 else os_precision os)\<rparr>" for "is" os
    by (induction "is" arbitrary: os) (simp_all add: write_day_text)
  then show ?thesis by (simp add: write_day_prefs_def)
qed

lemma parse_day_element:
  assumes "tag_ok name" "name \<noteq> ''/day_prefs''"
    "first_field day_fields name d (t @ ''</'' @ name @ CHR ''>'' # NL @ rest) = Inr (True, d1, NL @ rest)"
  shows "parse_day d g (write_tag name t @ rest) = parse_day d1 g rest"
proof -
  have "get 256 None (write_tag name t @ rest) = Inr (Some (name, True, [], t @ ''</'' @ name @ CHR ''>'' # NL @ rest))"
    using get_tag [OF assms(1), of "[]" None "t @ ''</'' @ name @ CHR ''>'' # NL @ rest"] by (simp add: write_tag_def)
  then have "parse_day d g (write_tag name t @ rest) = parse_day d1 g (NL @ rest)"
    using assms by (subst parse_day.simps) simp
  then show ?thesis by (simp only: parse_day_NL)
qed

lemma day_finds:
  "int_field ''day_of_week'' (\<lambda>v d. d\<lparr>dp_day_of_week := v\<rparr>) ''day_of_week'' d inp = Inr (True, y, r)
    \<Longrightarrow> first_field day_fields ''day_of_week'' d inp = Inr (True, y, r)"
  "double_field ''start_hour'' (\<lambda>v d. d\<lparr>dp_start_hour := v, dp_has_cpu := True\<rparr>) ''start_hour'' d inp = Inr (True, y, r)
    \<Longrightarrow> first_field day_fields ''start_hour'' d inp = Inr (True, y, r)"
  "double_field ''end_hour'' (\<lambda>v d. d\<lparr>dp_end_hour := v, dp_has_cpu := True\<rparr>) ''end_hour'' d inp = Inr (True, y, r)
    \<Longrightarrow> first_field day_fields ''end_hour'' d inp = Inr (True, y, r)"
  "double_field ''net_start_hour'' (\<lambda>v d. d\<lparr>dp_net_start_hour := v, dp_has_net := True\<rparr>) ''net_start_hour'' d inp = Inr (True, y, r)
    \<Longrightarrow> first_field day_fields ''net_start_hour'' d inp = Inr (True, y, r)"
  "double_field ''net_end_hour'' (\<lambda>v d. d\<lparr>dp_net_end_hour := v, dp_has_net := True\<rparr>) ''net_end_hour'' d inp = Inr (True, y, r)
    \<Longrightarrow> first_field day_fields ''net_end_hour'' d inp = Inr (True, y, r)"
  by (simp_all add: day_fields_def)

lemma parse_day_elements:
  "int_prints i \<Longrightarrow> parse_day d g (write_tag ''day_of_week'' (string_of_int i) @ rest) = parse_day (d\<lparr>dp_day_of_week := i\<rparr>) g rest"
  "prints n w \<Longrightarrow> parse_day d g (write_tag ''start_hour'' (show_fixed n w) @ rest)
     = parse_day (d\<lparr>dp_start_hour := fixed_value n w, dp_has_cpu := True\<rparr>) g rest"
  "prints n w \<Longrightarrow> parse_day d g (write_tag ''end_hour'' (show_fixed n w) @ rest)
     = parse_day (d\<lparr>dp_end_hour := fixed_value n w, dp_has_cpu := True\<rparr>) g rest"
  "prints n w \<Longrightarrow> parse_day d g (write_tag ''net_start_hour'' (show_fixed n w) @ rest)
     = parse_day (d\<lparr>dp_net_start_hour := fixed_value n w, dp_has_net := True\<rparr>) g rest"
  "prints n w \<Longrightarrow> parse_day d g (write_tag ''net_end_hour'' (show_fixed n w) @ rest)
     = parse_day (d\<lparr>dp_net_end_hour := fixed_value n w, dp_has_net := True\<rparr>) g rest"
  by (rule parse_day_element [OF _ _ day_finds(1) [OF int_field_element]]
      parse_day_element [OF _ _ day_finds(2) [OF double_field_element]] parse_day_element [OF _ _ day_finds(3) [OF double_field_element]]
      parse_day_element [OF _ _ day_finds(4) [OF double_field_element]] parse_day_element [OF _ _ day_finds(5) [OF double_field_element]];
      simp add: override_names int_prints_def)+

end
