(* ===== verification/Prefs_Subset.thy ===== *)
theory Prefs_Subset
  imports Prefs_Roundtrip
begin

text \<open>
  The whole of \<open>write_subset\<close> read by \<open>parse_override\<close>: the days of the week, and the preferences the
  mask selects.
\<close>

section \<open>The days of the week\<close>

definition set_days :: "GLOBAL_PREFS \<Rightarrow> nat \<Rightarrow> GLOBAL_PREFS \<Rightarrow> GLOBAL_PREFS" where
  "set_days g i h = h
     \<lparr>gp_cpu_times := (gp_cpu_times h)\<lparr>tp_week := (case week_get (tp_week (gp_cpu_times g)) (int i) of
          None \<Rightarrow> tp_week (gp_cpu_times h) | Some t \<Rightarrow> (tp_week (gp_cpu_times h))[i := Some (reread_span t)])\<rparr>,
      gp_net_times := (gp_net_times h)\<lparr>tp_week := (case week_get (tp_week (gp_net_times g)) (int i) of
          None \<Rightarrow> tp_week (gp_net_times h) | Some t \<Rightarrow> (tp_week (gp_net_times h))[i := Some (reread_span t)])\<rparr>\<rparr>"

lemma set_day_reread:
  assumes "span_ok t" "i < 7"
  shows "set_day True (int i) (fixed_value 2 (hours (m_start t))) (fixed_value 2 (hours (m_end t))) tp
    = Inr (tp\<lparr>tp_week := (tp_week tp)[i := Some (reread_span t)]\<rparr>)"
  using assms reread_range [of "m_start t" 2] reread_range [of "m_end t" 2]
  by (simp add: set_day_def week_set_def TIME_SPAN_new_def check_range_def reread_span_def reread_def span_ok_def)

lemma week_get_ok:
  assumes "week_ok w" "week_get w i = Some t"
  shows "span_ok t"
proof -
  have "\<not> i < 0" "\<not> i > 6" "w ! nat i = Some t" using assms(2) by (auto simp: week_get_def split: if_splits)
  moreover from this have "nat i < length w" using assms(1) by (simp add: week_ok_def)
  ultimately show ?thesis using assms(1) nth_mem [of "nat i" w] by (auto simp: week_ok_def)
qed

lemma parse_day_close:
  "parse_day d g (''</day_prefs>'' @ NL @ rest) = xml_then (end_of_day d g) (\<lambda>(retval, g1). Inr (retval, g1, NL @ rest))"
proof -
  have "get 256 None (''</day_prefs>'' @ NL @ rest) = Inr (Some (''/day_prefs'', True, [], NL @ rest))"
    using get_tag [of "''/day_prefs''" "[]" None "NL @ rest"] by (simp add: override_names)
  then show ?thesis by (subst parse_day.simps) simp
qed

lemma parse_day_text:
  assumes "prefs_ok g" "i < 7" "has_day g i"
    "day_text g i = ''<day_prefs>'' @ NL @ body"
  shows "parse_day new_day h (NL @ body @ rest) = Inr (0, set_days g i h, NL @ rest)"
proof -
  define cpu net where "cpu = week_get (tp_week (gp_cpu_times g)) (int i)" and "net = week_get (tp_week (gp_net_times g)) (int i)"
  have body: "body = write_tag ''day_of_week'' (string_of_int (int i)) @ span_text ''start_hour'' ''end_hour'' cpu
      @ span_text ''net_start_hour'' ''net_end_hour'' net @ ''</day_prefs>'' @ NL"
    using assms(3,4) by (auto simp: day_text_eq cpu_def net_def has_day_def Let_def)
  have ip: "int_prints (int i)" using assms(2) digits_length [of i 1] by (simp add: int_prints_def string_of_int_def)
  have ok: "span_ok t" if "cpu = Some t \<or> net = Some t" for t
    using that week_get_ok assms(1) by (auto simp: cpu_def net_def prefs_ok_def times_ok_def)
  have pr: "prints 2 (hours (m_start t)) \<and> prints 2 (hours (m_end t))" if "cpu = Some t \<or> net = Some t" for t
    using ok [OF that] prints_hours by (simp add: span_ok_def)
  have w: "week_get (tp_week (gp_cpu_times g)) (int i) = cpu" "week_get (tp_week (gp_net_times g)) (int i) = net"
    by (simp_all add: cpu_def net_def)
  have i: "\<not> int i < 0" "\<not> int i > 6" using assms(2) by auto
  note simps = parse_day_NL body append_assoc parse_day_elements(1) [OF ip] span_text_def parse_day_close [simplified]
  show ?thesis
  proof (cases cpu; cases net)
    fix t u assume t: "cpu = Some t" and u: "net = Some u"
    then show ?thesis
      using pr [of t] pr [of u] ok [of t] ok [of u] assms(2) i
      by (simp add: simps parse_day_elements end_of_day_def set_day_reread new_day_def set_days_def w)
  next
    fix t assume t: "cpu = Some t" and u: "net = None"
    then show ?thesis
      using pr [of t] ok [of t] assms(2) i
      by (simp add: simps parse_day_elements end_of_day_def set_day_reread new_day_def set_days_def w set_day_def [of False])
  next
    fix u assume t: "cpu = None" and u: "net = Some u"
    then show ?thesis
      using pr [of u] ok [of u] assms(2) i
      by (simp add: simps parse_day_elements end_of_day_def set_day_reread new_day_def set_days_def w set_day_def [of False])
  next
    assume "cpu = None" "net = None"
    then show ?thesis using assms(3) by (simp add: has_day_def cpu_def net_def)
  qed
qed

lemma override_day:
  assumes "prefs_ok g" "i < 7" "\<not> in_venue v"
  shows "override_loop dtime hv v x (day_text g i @ rest) = override_loop dtime hv v (set_days g i (fst x), snd x) rest"
proof (cases "has_day g i")
  case False
  then have "set_days g i (fst x) = fst x" "day_text g i = []" by (simp_all add: set_days_def has_day_def day_text_eq)
  then show ?thesis by simp
next
  case True
  then obtain body where body: "day_text g i = ''<day_prefs>'' @ NL @ body" by (auto simp: day_text_eq has_day_def Let_def)
  have "get 256 (Some 256) (day_text g i @ rest) = Inr (Some (''day_prefs'', True, [], NL @ body @ rest))"
    using get_tag [of "''day_prefs''" "[]" "Some 256" "NL @ body @ rest"] by (simp add: body override_names)
  moreover have "first_field (override_fields dtime) ''day_prefs'' x (NL @ body @ rest)
      = Inr (True, (set_days g i (fst x), snd x), NL @ rest)"
    using parse_day_text [OF assms(1,2) True body, of "fst x" rest] by (simp add: override_fields_def day_field_def)
  ultimately have "override_loop dtime hv v x (day_text g i @ rest)
      = override_loop dtime hv v (set_days g i (fst x), snd x) (NL @ rest)"
    using assms(3) by (subst override_loop.simps) (simp add: match_tag_def)
  then show ?thesis by (simp only: override_NL)
qed

lemma override_days:
  assumes "prefs_ok g" "\<not> in_venue v" "set is \<subseteq> {..<7}"
  shows "override_loop dtime hv v x (concat (map (day_text g) is) @ rest)
    = override_loop dtime hv v (fold (set_days g) is (fst x), snd x) rest"
  using assms(3)
proof (induction "is" arbitrary: x)
  case (Cons i "is")
  then show ?case using override_day [OF assms(1) _ assms(2)] by simp
qed simp

section \<open>Elements that the mask may leave out\<close>

text \<open>A number that six decimals keep, of a size that fits the buffer of the parser.\<close>

definition exact6 :: "real \<Rightarrow> bool" where
  "exact6 x = (x * 10 ^ 6 = of_int \<lfloor>x * 10 ^ 6\<rfloor> \<and> \<bar>x\<bar> \<le> 10 ^ 199)"

lemma exact6_prints: "exact6 x \<Longrightarrow> prints 6 x \<and> fixed_value 6 x = x"
  using fixed_value_exact [of x 6 "\<lfloor>x * 10 ^ 6\<rfloor>"] prints_bound [of x "10 ^ 199" 6] by (simp add: exact6_def)

lemma hour_element:
  assumes "0 \<le> t" "t \<le> DAY_SECONDS"
  shows "prints 6 (hours t)"
    "cpu_hour set_start h (time_t_of (fixed_value 6 (hours t) * 3600)) x
      = Inr (both (\<lambda>g. g\<lparr>gp_cpu_times := (gp_cpu_times (fst x))\<lparr>tp_span := (tp_span (gp_cpu_times (fst x)))\<lparr>m_start := reread 6 t\<rparr>\<rparr>\<rparr>) h x)"
    "cpu_hour set_end h (time_t_of (fixed_value 6 (hours t) * 3600)) x
      = Inr (both (\<lambda>g. g\<lparr>gp_cpu_times := (gp_cpu_times (fst x))\<lparr>tp_span := (tp_span (gp_cpu_times (fst x)))\<lparr>m_end := reread 6 t\<rparr>\<rparr>\<rparr>) h x)"
    "net_hour set_start h (time_t_of (fixed_value 6 (hours t) * 3600)) x
      = Inr (both (\<lambda>g. g\<lparr>gp_net_times := (gp_net_times (fst x))\<lparr>tp_span := (tp_span (gp_net_times (fst x)))\<lparr>m_start := reread 6 t\<rparr>\<rparr>\<rparr>) h x)"
    "net_hour set_end h (time_t_of (fixed_value 6 (hours t) * 3600)) x
      = Inr (both (\<lambda>g. g\<lparr>gp_net_times := (gp_net_times (fst x))\<lparr>tp_span := (tp_span (gp_net_times (fst x)))\<lparr>m_end := reread 6 t\<rparr>\<rparr>\<rparr>) h x)"
  using prints_hours [of t 6] reread_range [OF assms, of 6] assms
  by (simp_all add: cpu_hour_def net_hour_def set_span_def set_start_def set_end_def check_range_def reread_def)

definition select_if :: "bool \<Rightarrow> 'a \<Rightarrow> 'a \<Rightarrow> 'a" where
  "select_if b w a = (if b then w else a)"

lemma select_if_True: "select_if True w = (\<lambda>a. w)" and select_if_False: "select_if False w = (\<lambda>a. a)"
  by (simp_all add: select_if_def fun_eq_iff)

lemma keep_prefs:
  "gp_confirm_before_connecting_update (\<lambda>a. a) g = g"
  "gp_cpu_scheduling_period_minutes_update (\<lambda>a. a) g = g"
  "gp_cpu_times_update (\<lambda>a. a) g = g"
  "gp_cpu_usage_limit_update (\<lambda>a. a) g = g"
  "gp_disk_interval_update (\<lambda>a. a) g = g"
  "gp_disk_max_used_gb_update (\<lambda>a. a) g = g"
  "gp_disk_max_used_pct_update (\<lambda>a. a) g = g"
  "gp_disk_min_free_gb_update (\<lambda>a. a) g = g"
  "gp_dont_verify_images_update (\<lambda>a. a) g = g"
  "gp_hangup_if_dialed_update (\<lambda>a. a) g = g"
  "gp_idle_time_to_run_update (\<lambda>a. a) g = g"
  "gp_leave_apps_in_memory_update (\<lambda>a. a) g = g"
  "gp_max_bytes_sec_down_update (\<lambda>a. a) g = g"
  "gp_max_bytes_sec_up_update (\<lambda>a. a) g = g"
  "gp_max_cpus_update (\<lambda>a. a) g = g"
  "gp_max_ncpus_pct_update (\<lambda>a. a) g = g"
  "gp_net_times_update (\<lambda>a. a) g = g"
  "gp_ram_max_used_busy_frac_update (\<lambda>a. a) g = g"
  "gp_ram_max_used_idle_frac_update (\<lambda>a. a) g = g"
  "gp_run_if_user_active_update (\<lambda>a. a) g = g"
  "gp_run_on_batteries_update (\<lambda>a. a) g = g"
  "gp_suspend_if_no_recent_input_update (\<lambda>a. a) g = g"
  "gp_vm_max_used_frac_update (\<lambda>a. a) g = g"
  "gp_work_buf_additional_days_update (\<lambda>a. a) g = g"
  "gp_work_buf_min_days_update (\<lambda>a. a) g = g"
  by (cases g, simp)+

lemma keep_mask:
  "gm_run_on_batteries_update (\<lambda>a. a) m = m"
  "gm_run_if_user_active_update (\<lambda>a. a) m = m"
  "gm_idle_time_to_run_update (\<lambda>a. a) m = m"
  "gm_suspend_if_no_recent_input_update (\<lambda>a. a) m = m"
  "gm_start_hour_update (\<lambda>a. a) m = m"
  "gm_end_hour_update (\<lambda>a. a) m = m"
  "gm_net_start_hour_update (\<lambda>a. a) m = m"
  "gm_net_end_hour_update (\<lambda>a. a) m = m"
  "gm_leave_apps_in_memory_update (\<lambda>a. a) m = m"
  "gm_confirm_before_connecting_update (\<lambda>a. a) m = m"
  "gm_hangup_if_dialed_update (\<lambda>a. a) m = m"
  "gm_dont_verify_images_update (\<lambda>a. a) m = m"
  "gm_work_buf_min_days_update (\<lambda>a. a) m = m"
  "gm_work_buf_additional_days_update (\<lambda>a. a) m = m"
  "gm_max_cpus_update (\<lambda>a. a) m = m"
  "gm_max_ncpus_pct_update (\<lambda>a. a) m = m"
  "gm_cpu_scheduling_period_minutes_update (\<lambda>a. a) m = m"
  "gm_disk_interval_update (\<lambda>a. a) m = m"
  "gm_disk_max_used_gb_update (\<lambda>a. a) m = m"
  "gm_disk_max_used_pct_update (\<lambda>a. a) m = m"
  "gm_disk_min_free_gb_update (\<lambda>a. a) m = m"
  "gm_vm_max_used_frac_update (\<lambda>a. a) m = m"
  "gm_ram_max_used_busy_frac_update (\<lambda>a. a) m = m"
  "gm_ram_max_used_idle_frac_update (\<lambda>a. a) m = m"
  "gm_max_bytes_sec_up_update (\<lambda>a. a) m = m"
  "gm_max_bytes_sec_down_update (\<lambda>a. a) m = m"
  "gm_cpu_usage_limit_update (\<lambda>a. a) m = m"
  by (cases m, simp)+

lemma keep_span: "tp_span_update (\<lambda>a. a) = (\<lambda>tp. tp)" "m_start_update (\<lambda>a. a) = (\<lambda>t. t)" "m_end_update (\<lambda>a. a) = (\<lambda>t. t)"
  by (auto simp: fun_eq_iff)

lemma optional:
  "(b \<longrightarrow> override_loop dtime hv v x (t @ rest) = override_loop dtime hv v y rest)
   \<Longrightarrow> (if b then y else x) = z
   \<Longrightarrow> override_loop dtime hv v x ((if b then t else []) @ rest) = override_loop dtime hv v z rest"
  by auto

lemma optional_run_on_batteries:
  "\<not> in_venue v \<Longrightarrow> override_loop dtime hv v x ((if b then write_tag ''run_on_batteries'' (string_of_int (if w then 1 else 0)) else []) @ rest)
     = override_loop dtime hv v (both (gp_run_on_batteries_update (select_if b w)) (gm_run_on_batteries_update (select_if b True)) x) rest"
  by (rule optional [OF impI [OF override_run_on_batteries]]; cases b; auto simp: exact6_prints both_def keep_prefs keep_mask keep_span select_if_True select_if_False)

lemma optional_run_if_user_active:
  "\<not> in_venue v \<Longrightarrow> override_loop dtime hv v x ((if b then write_tag ''run_if_user_active'' (string_of_int (if w then 1 else 0)) else []) @ rest)
     = override_loop dtime hv v (both (gp_run_if_user_active_update (select_if b w)) (gm_run_if_user_active_update (select_if b True)) x) rest"
  by (rule optional [OF impI [OF override_run_if_user_active]]; cases b; auto simp: exact6_prints both_def keep_prefs keep_mask keep_span select_if_True select_if_False)

lemma optional_idle_time_to_run:
  "\<not> in_venue v \<Longrightarrow> (b \<longrightarrow> exact6 (w)) \<Longrightarrow> override_loop dtime hv v x ((if b then write_tag ''idle_time_to_run'' (show_fixed 6 (w)) else []) @ rest)
     = override_loop dtime hv v (both (gp_idle_time_to_run_update (select_if b w)) (gm_idle_time_to_run_update (select_if b True)) x) rest"
  by (rule optional [OF impI [OF override_idle_time_to_run]]; cases b; auto simp: exact6_prints both_def keep_prefs keep_mask keep_span select_if_True select_if_False)

lemma optional_suspend_if_no_recent_input:
  "\<not> in_venue v \<Longrightarrow> (b \<longrightarrow> exact6 (w)) \<Longrightarrow> override_loop dtime hv v x ((if b then write_tag ''suspend_if_no_recent_input'' (show_fixed 6 (w)) else []) @ rest)
     = override_loop dtime hv v (both (gp_suspend_if_no_recent_input_update (select_if b w)) (gm_suspend_if_no_recent_input_update (select_if b True)) x) rest"
  by (rule optional [OF impI [OF override_suspend_if_no_recent_input]]; cases b; auto simp: exact6_prints both_def keep_prefs keep_mask keep_span select_if_True select_if_False)

lemma optional_start_hour:
  "\<not> in_venue v \<Longrightarrow> 0 \<le> t \<Longrightarrow> t \<le> DAY_SECONDS \<Longrightarrow> override_loop dtime hv v x ((if b then write_tag ''start_hour'' (show_fixed 6 (hours t)) else []) @ rest)
     = override_loop dtime hv v (both (gp_cpu_times_update (tp_span_update (m_start_update (select_if b (reread 6 t))))) (gm_start_hour_update (select_if b True)) x) rest"
  by (rule optional [OF impI [OF override_start_hour]]; cases b; auto simp: hour_element both_def keep_prefs keep_mask keep_span select_if_True select_if_False)

lemma optional_end_hour:
  "\<not> in_venue v \<Longrightarrow> 0 \<le> t \<Longrightarrow> t \<le> DAY_SECONDS \<Longrightarrow> override_loop dtime hv v x ((if b then write_tag ''end_hour'' (show_fixed 6 (hours t)) else []) @ rest)
     = override_loop dtime hv v (both (gp_cpu_times_update (tp_span_update (m_end_update (select_if b (reread 6 t))))) (gm_end_hour_update (select_if b True)) x) rest"
  by (rule optional [OF impI [OF override_end_hour]]; cases b; auto simp: hour_element both_def keep_prefs keep_mask keep_span select_if_True select_if_False)

lemma optional_net_start_hour:
  "\<not> in_venue v \<Longrightarrow> 0 \<le> t \<Longrightarrow> t \<le> DAY_SECONDS \<Longrightarrow> override_loop dtime hv v x ((if b then write_tag ''net_start_hour'' (show_fixed 6 (hours t)) else []) @ rest)
     = override_loop dtime hv v (both (gp_net_times_update (tp_span_update (m_start_update (select_if b (reread 6 t))))) (gm_net_start_hour_update (select_if b True)) x) rest"
  by (rule optional [OF impI [OF override_net_start_hour]]; cases b; auto simp: hour_element both_def keep_prefs keep_mask keep_span select_if_True select_if_False)

lemma optional_net_end_hour:
  "\<not> in_venue v \<Longrightarrow> 0 \<le> t \<Longrightarrow> t \<le> DAY_SECONDS \<Longrightarrow> override_loop dtime hv v x ((if b then write_tag ''net_end_hour'' (show_fixed 6 (hours t)) else []) @ rest)
     = override_loop dtime hv v (both (gp_net_times_update (tp_span_update (m_end_update (select_if b (reread 6 t))))) (gm_net_end_hour_update (select_if b True)) x) rest"
  by (rule optional [OF impI [OF override_net_end_hour]]; cases b; auto simp: hour_element both_def keep_prefs keep_mask keep_span select_if_True select_if_False)

lemma optional_leave_apps_in_memory:
  "\<not> in_venue v \<Longrightarrow> override_loop dtime hv v x ((if b then write_tag ''leave_apps_in_memory'' (string_of_int (if w then 1 else 0)) else []) @ rest)
     = override_loop dtime hv v (both (gp_leave_apps_in_memory_update (select_if b w)) (gm_leave_apps_in_memory_update (select_if b True)) x) rest"
  by (rule optional [OF impI [OF override_leave_apps_in_memory]]; cases b; auto simp: exact6_prints both_def keep_prefs keep_mask keep_span select_if_True select_if_False)

lemma optional_confirm_before_connecting:
  "\<not> in_venue v \<Longrightarrow> override_loop dtime hv v x ((if b then write_tag ''confirm_before_connecting'' (string_of_int (if w then 1 else 0)) else []) @ rest)
     = override_loop dtime hv v (both (gp_confirm_before_connecting_update (select_if b w)) (gm_confirm_before_connecting_update (select_if b True)) x) rest"
  by (rule optional [OF impI [OF override_confirm_before_connecting]]; cases b; auto simp: exact6_prints both_def keep_prefs keep_mask keep_span select_if_True select_if_False)

lemma optional_hangup_if_dialed:
  "\<not> in_venue v \<Longrightarrow> override_loop dtime hv v x ((if b then write_tag ''hangup_if_dialed'' (string_of_int (if w then 1 else 0)) else []) @ rest)
     = override_loop dtime hv v (both (gp_hangup_if_dialed_update (select_if b w)) (gm_hangup_if_dialed_update (select_if b True)) x) rest"
  by (rule optional [OF impI [OF override_hangup_if_dialed]]; cases b; auto simp: exact6_prints both_def keep_prefs keep_mask keep_span select_if_True select_if_False)

lemma optional_dont_verify_images:
  "\<not> in_venue v \<Longrightarrow> override_loop dtime hv v x ((if b then write_tag ''dont_verify_images'' (string_of_int (if w then 1 else 0)) else []) @ rest)
     = override_loop dtime hv v (both (gp_dont_verify_images_update (select_if b w)) (gm_dont_verify_images_update (select_if b True)) x) rest"
  by (rule optional [OF impI [OF override_dont_verify_images]]; cases b; auto simp: exact6_prints both_def keep_prefs keep_mask keep_span select_if_True select_if_False)

lemma optional_work_buf_min_days:
  "\<not> in_venue v \<Longrightarrow> (b \<longrightarrow> exact6 (w)) \<Longrightarrow> w \<ge> 1/100000 \<Longrightarrow> override_loop dtime hv v x ((if b then write_tag ''work_buf_min_days'' (show_fixed 6 (w)) else []) @ rest)
     = override_loop dtime hv v (both (gp_work_buf_min_days_update (select_if b w)) (gm_work_buf_min_days_update (select_if b True)) x) rest"
  by (rule optional [OF impI [OF override_work_buf_min_days]]; cases b; auto simp: exact6_prints both_def keep_prefs keep_mask keep_span select_if_True select_if_False)

lemma optional_work_buf_additional_days:
  "\<not> in_venue v \<Longrightarrow> (b \<longrightarrow> exact6 (w)) \<Longrightarrow> w \<ge> 0 \<Longrightarrow> override_loop dtime hv v x ((if b then write_tag ''work_buf_additional_days'' (show_fixed 6 (w)) else []) @ rest)
     = override_loop dtime hv v (both (gp_work_buf_additional_days_update (select_if b w)) (gm_work_buf_additional_days_update (select_if b True)) x) rest"
  by (rule optional [OF impI [OF override_work_buf_additional_days]]; cases b; auto simp: exact6_prints both_def keep_prefs keep_mask keep_span select_if_True select_if_False)

lemma optional_max_cpus:
  "\<not> in_venue v \<Longrightarrow> (b \<longrightarrow> int_prints w) \<Longrightarrow> w \<ge> 1 \<Longrightarrow> override_loop dtime hv v x ((if b then write_tag ''max_cpus'' (string_of_int w) else []) @ rest)
     = override_loop dtime hv v (both (gp_max_cpus_update (select_if b w)) (gm_max_cpus_update (select_if b True)) x) rest"
  by (rule optional [OF impI [OF override_max_cpus]]; cases b; auto simp: exact6_prints both_def keep_prefs keep_mask keep_span select_if_True select_if_False)

lemma optional_max_ncpus_pct:
  "\<not> in_venue v \<Longrightarrow> (b \<longrightarrow> exact6 (w)) \<Longrightarrow> 0 \<le> w \<and> w \<le> 100 \<Longrightarrow> override_loop dtime hv v x ((if b then write_tag ''max_ncpus_pct'' (show_fixed 6 (w)) else []) @ rest)
     = override_loop dtime hv v (both (gp_max_ncpus_pct_update (select_if b w)) (gm_max_ncpus_pct_update (select_if b True)) x) rest"
  by (rule optional [OF impI [OF override_max_ncpus_pct]]; cases b; auto simp: exact6_prints both_def keep_prefs keep_mask keep_span select_if_True select_if_False)

lemma optional_cpu_scheduling_period_minutes:
  "\<not> in_venue v \<Longrightarrow> (b \<longrightarrow> exact6 (w)) \<Longrightarrow> w \<ge> 1/10000 \<Longrightarrow> override_loop dtime hv v x ((if b then write_tag ''cpu_scheduling_period_minutes'' (show_fixed 6 (w)) else []) @ rest)
     = override_loop dtime hv v (both (gp_cpu_scheduling_period_minutes_update (select_if b w)) (gm_cpu_scheduling_period_minutes_update (select_if b True)) x) rest"
  by (rule optional [OF impI [OF override_cpu_scheduling_period_minutes]]; cases b; auto simp: exact6_prints both_def keep_prefs keep_mask keep_span select_if_True select_if_False)

lemma optional_disk_interval:
  "\<not> in_venue v \<Longrightarrow> (b \<longrightarrow> exact6 (w)) \<Longrightarrow> w \<ge> 0 \<Longrightarrow> override_loop dtime hv v x ((if b then write_tag ''disk_interval'' (show_fixed 6 (w)) else []) @ rest)
     = override_loop dtime hv v (both (gp_disk_interval_update (select_if b w)) (gm_disk_interval_update (select_if b True)) x) rest"
  by (rule optional [OF impI [OF override_disk_interval]]; cases b; auto simp: exact6_prints both_def keep_prefs keep_mask keep_span select_if_True select_if_False)

lemma optional_disk_max_used_gb:
  "\<not> in_venue v \<Longrightarrow> (b \<longrightarrow> exact6 (w)) \<Longrightarrow> override_loop dtime hv v x ((if b then write_tag ''disk_max_used_gb'' (show_fixed 6 (w)) else []) @ rest)
     = override_loop dtime hv v (both (gp_disk_max_used_gb_update (select_if b w)) (gm_disk_max_used_gb_update (select_if b True)) x) rest"
  by (rule optional [OF impI [OF override_disk_max_used_gb]]; cases b; auto simp: exact6_prints both_def keep_prefs keep_mask keep_span select_if_True select_if_False)

lemma optional_disk_max_used_pct:
  "\<not> in_venue v \<Longrightarrow> (b \<longrightarrow> exact6 (w)) \<Longrightarrow> override_loop dtime hv v x ((if b then write_tag ''disk_max_used_pct'' (show_fixed 6 (w)) else []) @ rest)
     = override_loop dtime hv v (both (gp_disk_max_used_pct_update (select_if b w)) (gm_disk_max_used_pct_update (select_if b True)) x) rest"
  by (rule optional [OF impI [OF override_disk_max_used_pct]]; cases b; auto simp: exact6_prints both_def keep_prefs keep_mask keep_span select_if_True select_if_False)

lemma optional_disk_min_free_gb:
  "\<not> in_venue v \<Longrightarrow> (b \<longrightarrow> exact6 (w)) \<Longrightarrow> override_loop dtime hv v x ((if b then write_tag ''disk_min_free_gb'' (show_fixed 6 (w)) else []) @ rest)
     = override_loop dtime hv v (both (gp_disk_min_free_gb_update (select_if b w)) (gm_disk_min_free_gb_update (select_if b True)) x) rest"
  by (rule optional [OF impI [OF override_disk_min_free_gb]]; cases b; auto simp: exact6_prints both_def keep_prefs keep_mask keep_span select_if_True select_if_False)

lemma optional_vm_max_used_pct:
  "\<not> in_venue v \<Longrightarrow> (b \<longrightarrow> exact6 (w * 100)) \<Longrightarrow> override_loop dtime hv v x ((if b then write_tag ''vm_max_used_pct'' (show_fixed 6 (w * 100)) else []) @ rest)
     = override_loop dtime hv v (both (gp_vm_max_used_frac_update (select_if b w)) (gm_vm_max_used_frac_update (select_if b True)) x) rest"
  by (rule optional [OF impI [OF override_vm_max_used_pct]]; cases b; auto simp: exact6_prints both_def keep_prefs keep_mask keep_span select_if_True select_if_False)

lemma optional_ram_max_used_busy_pct:
  "\<not> in_venue v \<Longrightarrow> (b \<longrightarrow> exact6 (w * 100)) \<Longrightarrow> w \<noteq> 0 \<Longrightarrow> override_loop dtime hv v x ((if b then write_tag ''ram_max_used_busy_pct'' (show_fixed 6 (w * 100)) else []) @ rest)
     = override_loop dtime hv v (both (gp_ram_max_used_busy_frac_update (select_if b w)) (gm_ram_max_used_busy_frac_update (select_if b True)) x) rest"
  by (rule optional [OF impI [OF override_ram_max_used_busy_pct]]; cases b; auto simp: exact6_prints both_def keep_prefs keep_mask keep_span select_if_True select_if_False)

lemma optional_ram_max_used_idle_pct:
  "\<not> in_venue v \<Longrightarrow> (b \<longrightarrow> exact6 (w * 100)) \<Longrightarrow> w \<noteq> 0 \<Longrightarrow> override_loop dtime hv v x ((if b then write_tag ''ram_max_used_idle_pct'' (show_fixed 6 (w * 100)) else []) @ rest)
     = override_loop dtime hv v (both (gp_ram_max_used_idle_frac_update (select_if b w)) (gm_ram_max_used_idle_frac_update (select_if b True)) x) rest"
  by (rule optional [OF impI [OF override_ram_max_used_idle_pct]]; cases b; auto simp: exact6_prints both_def keep_prefs keep_mask keep_span select_if_True select_if_False)

lemma optional_max_bytes_sec_up:
  "\<not> in_venue v \<Longrightarrow> (b \<longrightarrow> exact6 (w)) \<Longrightarrow> w \<ge> 0 \<Longrightarrow> override_loop dtime hv v x ((if b then write_tag ''max_bytes_sec_up'' (show_fixed 6 (w)) else []) @ rest)
     = override_loop dtime hv v (both (gp_max_bytes_sec_up_update (select_if b w)) (gm_max_bytes_sec_up_update (select_if b True)) x) rest"
  by (rule optional [OF impI [OF override_max_bytes_sec_up]]; cases b; auto simp: exact6_prints both_def keep_prefs keep_mask keep_span select_if_True select_if_False)

lemma optional_max_bytes_sec_down:
  "\<not> in_venue v \<Longrightarrow> (b \<longrightarrow> exact6 (w)) \<Longrightarrow> w \<ge> 0 \<Longrightarrow> override_loop dtime hv v x ((if b then write_tag ''max_bytes_sec_down'' (show_fixed 6 (w)) else []) @ rest)
     = override_loop dtime hv v (both (gp_max_bytes_sec_down_update (select_if b w)) (gm_max_bytes_sec_down_update (select_if b True)) x) rest"
  by (rule optional [OF impI [OF override_max_bytes_sec_down]]; cases b; auto simp: exact6_prints both_def keep_prefs keep_mask keep_span select_if_True select_if_False)

lemma optional_cpu_usage_limit:
  "\<not> in_venue v \<Longrightarrow> (b \<longrightarrow> exact6 (w)) \<Longrightarrow> 0 < w \<and> w \<le> 100 \<Longrightarrow> override_loop dtime hv v x ((if b then write_tag ''cpu_usage_limit'' (show_fixed 6 (w)) else []) @ rest)
     = override_loop dtime hv v (both (gp_cpu_usage_limit_update (select_if b w)) (gm_cpu_usage_limit_update (select_if b True)) x) rest"
  by (rule optional [OF impI [OF override_cpu_usage_limit]]; cases b; auto simp: exact6_prints both_def keep_prefs keep_mask keep_span select_if_True select_if_False)

lemmas optional_elements = optional_run_on_batteries optional_run_if_user_active optional_idle_time_to_run optional_suspend_if_no_recent_input 
  optional_start_hour optional_end_hour optional_net_start_hour optional_net_end_hour 
  optional_leave_apps_in_memory optional_confirm_before_connecting optional_hangup_if_dialed optional_dont_verify_images 
  optional_work_buf_min_days optional_work_buf_additional_days optional_max_cpus optional_max_ncpus_pct 
  optional_cpu_scheduling_period_minutes optional_disk_interval optional_disk_max_used_gb optional_disk_max_used_pct 
  optional_disk_min_free_gb optional_vm_max_used_pct optional_ram_max_used_busy_pct optional_ram_max_used_idle_pct 
  optional_max_bytes_sec_up optional_max_bytes_sec_down optional_cpu_usage_limit

section \<open>The file\<close>

text \<open>The preferences the mask selects can be printed with six decimals.\<close>

definition writable :: "GLOBAL_PREFS_MASK \<Rightarrow> GLOBAL_PREFS \<Rightarrow> bool" where
  "writable m g = (
     (gm_idle_time_to_run m \<longrightarrow> exact6 (gp_idle_time_to_run g)) \<and> (gm_suspend_if_no_recent_input m \<longrightarrow> exact6 (gp_suspend_if_no_recent_input g)) \<and> 
     (gm_work_buf_min_days m \<longrightarrow> exact6 (gp_work_buf_min_days g)) \<and> (gm_work_buf_additional_days m \<longrightarrow> exact6 (gp_work_buf_additional_days g)) \<and> 
     (gm_max_cpus m \<longrightarrow> int_prints (gp_max_cpus g)) \<and> (gm_max_ncpus_pct m \<longrightarrow> exact6 (gp_max_ncpus_pct g)) \<and> 
     (gm_cpu_scheduling_period_minutes m \<longrightarrow> exact6 (gp_cpu_scheduling_period_minutes g)) \<and> (gm_disk_interval m \<longrightarrow> exact6 (gp_disk_interval g)) \<and> 
     (gm_disk_max_used_gb m \<longrightarrow> exact6 (gp_disk_max_used_gb g)) \<and> (gm_disk_max_used_pct m \<longrightarrow> exact6 (gp_disk_max_used_pct g)) \<and> 
     (gm_disk_min_free_gb m \<longrightarrow> exact6 (gp_disk_min_free_gb g)) \<and> (gm_vm_max_used_frac m \<longrightarrow> exact6 (gp_vm_max_used_frac g * 100)) \<and> 
     (gm_ram_max_used_busy_frac m \<longrightarrow> exact6 (gp_ram_max_used_busy_frac g * 100)) \<and> (gm_ram_max_used_idle_frac m \<longrightarrow> exact6 (gp_ram_max_used_idle_frac g * 100)) \<and> 
     (gm_max_bytes_sec_up m \<longrightarrow> exact6 (gp_max_bytes_sec_up g)) \<and> (gm_max_bytes_sec_down m \<longrightarrow> exact6 (gp_max_bytes_sec_down g)) \<and> 
     (gm_cpu_usage_limit m \<longrightarrow> exact6 (gp_cpu_usage_limit g)) \<and> gp_ram_max_used_busy_frac g \<noteq> 0 \<and> 
     gp_ram_max_used_idle_frac g \<noteq> 0)"

text \<open>
  What reading the file does to the preferences \<open>h\<close>: those the mask selects come from \<open>g\<close>, the times of
  day rounded to what the file holds; the percentage of processors is reset when the mask does not
  select it; the days of the week that \<open>g\<close> has are set.
\<close>

definition merge_selected :: "GLOBAL_PREFS_MASK \<Rightarrow> GLOBAL_PREFS \<Rightarrow> GLOBAL_PREFS \<Rightarrow> GLOBAL_PREFS" where
  "merge_selected m g h = h\<lparr>
     gp_run_on_batteries := (if gm_run_on_batteries m then gp_run_on_batteries g else gp_run_on_batteries h), 
     gp_run_if_user_active := (if gm_run_if_user_active m then gp_run_if_user_active g else gp_run_if_user_active h), 
     gp_idle_time_to_run := (if gm_idle_time_to_run m then gp_idle_time_to_run g else gp_idle_time_to_run h), 
     gp_suspend_if_no_recent_input := (if gm_suspend_if_no_recent_input m then gp_suspend_if_no_recent_input g else gp_suspend_if_no_recent_input h), 
     gp_leave_apps_in_memory := (if gm_leave_apps_in_memory m then gp_leave_apps_in_memory g else gp_leave_apps_in_memory h), 
     gp_confirm_before_connecting := (if gm_confirm_before_connecting m then gp_confirm_before_connecting g else gp_confirm_before_connecting h), 
     gp_hangup_if_dialed := (if gm_hangup_if_dialed m then gp_hangup_if_dialed g else gp_hangup_if_dialed h), 
     gp_dont_verify_images := (if gm_dont_verify_images m then gp_dont_verify_images g else gp_dont_verify_images h), 
     gp_work_buf_min_days := (if gm_work_buf_min_days m then gp_work_buf_min_days g else gp_work_buf_min_days h), 
     gp_work_buf_additional_days := (if gm_work_buf_additional_days m then gp_work_buf_additional_days g else gp_work_buf_additional_days h), 
     gp_max_cpus := (if gm_max_cpus m then gp_max_cpus g else gp_max_cpus h), 
     gp_cpu_scheduling_period_minutes := (if gm_cpu_scheduling_period_minutes m then gp_cpu_scheduling_period_minutes g else gp_cpu_scheduling_period_minutes h), 
     gp_disk_interval := (if gm_disk_interval m then gp_disk_interval g else gp_disk_interval h), 
     gp_disk_max_used_gb := (if gm_disk_max_used_gb m then gp_disk_max_used_gb g else gp_disk_max_used_gb h), 
     gp_disk_max_used_pct := (if gm_disk_max_used_pct m then gp_disk_max_used_pct g else gp_disk_max_used_pct h), 
     gp_disk_min_free_gb := (if gm_disk_min_free_gb m then gp_disk_min_free_gb g else gp_disk_min_free_gb h), 
     gp_vm_max_used_frac := (if gm_vm_max_used_frac m then gp_vm_max_used_frac g else gp_vm_max_used_frac h), 
     gp_ram_max_used_busy_frac := (if gm_ram_max_used_busy_frac m then gp_ram_max_used_busy_frac g else gp_ram_max_used_busy_frac h), 
     gp_ram_max_used_idle_frac := (if gm_ram_max_used_idle_frac m then gp_ram_max_used_idle_frac g else gp_ram_max_used_idle_frac h), 
     gp_max_bytes_sec_up := (if gm_max_bytes_sec_up m then gp_max_bytes_sec_up g else gp_max_bytes_sec_up h), 
     gp_max_bytes_sec_down := (if gm_max_bytes_sec_down m then gp_max_bytes_sec_down g else gp_max_bytes_sec_down h), 
     gp_cpu_usage_limit := (if gm_cpu_usage_limit m then gp_cpu_usage_limit g else gp_cpu_usage_limit h), 
     gp_max_ncpus_pct := (if gm_max_ncpus_pct m then gp_max_ncpus_pct g else 0), 
     gp_cpu_times := (gp_cpu_times h)\<lparr>tp_span := (tp_span (gp_cpu_times h))\<lparr>m_start := (if gm_start_hour m then reread 6 (m_start (tp_span (gp_cpu_times g))) else m_start (tp_span (gp_cpu_times h))),
          m_end := (if gm_end_hour m then reread 6 (m_end (tp_span (gp_cpu_times g))) else m_end (tp_span (gp_cpu_times h)))\<rparr>\<rparr>, 
     gp_net_times := (gp_net_times h)\<lparr>tp_span := (tp_span (gp_net_times h))\<lparr>m_start := (if gm_net_start_hour m then reread 6 (m_start (tp_span (gp_net_times g))) else m_start (tp_span (gp_net_times h))),
          m_end := (if gm_net_end_hour m then reread 6 (m_end (tp_span (gp_net_times g))) else m_end (tp_span (gp_net_times h)))\<rparr>\<rparr>\<rparr>"

definition merge_prefs :: "GLOBAL_PREFS_MASK \<Rightarrow> GLOBAL_PREFS \<Rightarrow> GLOBAL_PREFS \<Rightarrow> GLOBAL_PREFS" where
  "merge_prefs m g h = fold (set_days g) [0..<7] (merge_selected m g h)"

lemma put_if_text:
  "os_text (put_if b (tag_double name v) os) = os_text os @ (if b then write_tag name (show_fixed (os_precision os) v) else [])"
  "os_text (put_if b (tag_int name i) os) = os_text os @ (if b then write_tag name (string_of_int i) else [])"
  "os_text (put_if b (tag_bool name c) os) = os_text os @ (if b then write_tag name (string_of_int (if c then 1 else 0)) else [])"
  "os_precision (put_if b (tag_double name v) os) = os_precision os" "os_precision (put_if b (tag_int name i) os) = os_precision os"
  "os_precision (put_if b (tag_bool name c) os) = os_precision os"
  "os_text (emit t os) = os_text os @ t" "os_precision (emit t os) = os_precision os"
  by (simp_all add: put_if_def tag_double_def tag_int_def tag_bool_def emit_def)

lemma write_day_prefs_os: "os_text (write_day_prefs g os) = os_text os @ concat (map (day_text g) [0..<7])"
  by (simp add: write_day_prefs_text del: upt_rec_numeral upt.simps)

lemma write_subset_text:
  assumes "are_prefs_set m"
  shows "os_text (write_subset g m \<lparr>os_text = [], os_precision = 6\<rparr>) = ''<global_preferences>'' @ NL @
     (if gm_run_on_batteries m then write_tag ''run_on_batteries'' (string_of_int (if gp_run_on_batteries g then 1 else 0)) else []) @ 
     (if gm_run_if_user_active m then write_tag ''run_if_user_active'' (string_of_int (if gp_run_if_user_active g then 1 else 0)) else []) @ 
     (if gm_idle_time_to_run m then write_tag ''idle_time_to_run'' (show_fixed 6 (gp_idle_time_to_run g)) else []) @ 
     (if gm_suspend_if_no_recent_input m then write_tag ''suspend_if_no_recent_input'' (show_fixed 6 (gp_suspend_if_no_recent_input g)) else []) @ 
     (if gm_start_hour m then write_tag ''start_hour'' (show_fixed 6 (hours (m_start (tp_span (gp_cpu_times g))))) else []) @ 
     (if gm_end_hour m then write_tag ''end_hour'' (show_fixed 6 (hours (m_end (tp_span (gp_cpu_times g))))) else []) @ 
     (if gm_net_start_hour m then write_tag ''net_start_hour'' (show_fixed 6 (hours (m_start (tp_span (gp_net_times g))))) else []) @ 
     (if gm_net_end_hour m then write_tag ''net_end_hour'' (show_fixed 6 (hours (m_end (tp_span (gp_net_times g))))) else []) @ 
     (if gm_leave_apps_in_memory m then write_tag ''leave_apps_in_memory'' (string_of_int (if gp_leave_apps_in_memory g then 1 else 0)) else []) @ 
     (if gm_confirm_before_connecting m then write_tag ''confirm_before_connecting'' (string_of_int (if gp_confirm_before_connecting g then 1 else 0)) else []) @ 
     (if gm_hangup_if_dialed m then write_tag ''hangup_if_dialed'' (string_of_int (if gp_hangup_if_dialed g then 1 else 0)) else []) @ 
     (if gm_dont_verify_images m then write_tag ''dont_verify_images'' (string_of_int (if gp_dont_verify_images g then 1 else 0)) else []) @ 
     (if gm_work_buf_min_days m then write_tag ''work_buf_min_days'' (show_fixed 6 (gp_work_buf_min_days g)) else []) @ 
     (if gm_work_buf_additional_days m then write_tag ''work_buf_additional_days'' (show_fixed 6 (gp_work_buf_additional_days g)) else []) @ 
     (if gm_max_cpus m then write_tag ''max_cpus'' (string_of_int (gp_max_cpus g)) else []) @ 
     (if gm_max_ncpus_pct m then write_tag ''max_ncpus_pct'' (show_fixed 6 (gp_max_ncpus_pct g)) else []) @ 
     (if gm_cpu_scheduling_period_minutes m then write_tag ''cpu_scheduling_period_minutes'' (show_fixed 6 (gp_cpu_scheduling_period_minutes g)) else []) @ 
     (if gm_disk_interval m then write_tag ''disk_interval'' (show_fixed 6 (gp_disk_interval g)) else []) @ 
     (if gm_disk_max_used_gb m then write_tag ''disk_max_used_gb'' (show_fixed 6 (gp_disk_max_used_gb g)) else []) @ 
     (if gm_disk_max_used_pct m then write_tag ''disk_max_used_pct'' (show_fixed 6 (gp_disk_max_used_pct g)) else []) @ 
     (if gm_disk_min_free_gb m then write_tag ''disk_min_free_gb'' (show_fixed 6 (gp_disk_min_free_gb g)) else []) @ 
     (if gm_vm_max_used_frac m then write_tag ''vm_max_used_pct'' (show_fixed 6 (gp_vm_max_used_frac g * 100)) else []) @ 
     (if gm_ram_max_used_busy_frac m then write_tag ''ram_max_used_busy_pct'' (show_fixed 6 (gp_ram_max_used_busy_frac g * 100)) else []) @ 
     (if gm_ram_max_used_idle_frac m then write_tag ''ram_max_used_idle_pct'' (show_fixed 6 (gp_ram_max_used_idle_frac g * 100)) else []) @ 
     (if gm_max_bytes_sec_up m then write_tag ''max_bytes_sec_up'' (show_fixed 6 (gp_max_bytes_sec_up g)) else []) @ 
     (if gm_max_bytes_sec_down m then write_tag ''max_bytes_sec_down'' (show_fixed 6 (gp_max_bytes_sec_down g)) else []) @ 
     (if gm_cpu_usage_limit m then write_tag ''cpu_usage_limit'' (show_fixed 6 (gp_cpu_usage_limit g)) else []) @
     concat (map (day_text g) [0..<7]) @ ''</global_preferences>'' @ NL"
  unfolding write_subset_def
  by (simp only: assms not_True_eq_False if_False fold_simps put_if_text write_day_prefs_os OSTREAM.simps append_assoc append_Nil)

lemma override_open: "override_loop dtime hv v x (''<global_preferences>'' @ NL @ rest) = override_loop dtime hv v x rest"
proof -
  have "get 256 (Some 256) (''<global_preferences>'' @ NL @ rest) = Inr (Some (''global_preferences'', True, [], NL @ rest))"
    using get_tag [of "''global_preferences''" "[]" "Some 256" "NL @ rest"] by (simp add: override_names)
  then show ?thesis by (subst override_loop.simps) (simp add: override_NL)
qed

lemma override_close: "override_loop dtime hv v x (''</global_preferences>'' @ rest) = Inr (0, found_venue v, x, rest)"
proof -
  have "get 256 (Some 256) (''</global_preferences>'' @ rest) = Inr (Some (''/global_preferences'', True, [], rest))"
    using get_tag [of "''/global_preferences''" "[]" "Some 256" rest] by (simp add: override_names)
  then show ?thesis by (subst override_loop.simps) simp
qed

lemma result_eq: "a = b \<Longrightarrow> c = d \<Longrightarrow> Inr (0, False, (fold F xs a, c), NL) = Inr (0, False, (fold F xs b, d), NL)"
  by simp

lemma both_pair: "both f h (a, b) = (f a, h b)"
  by (simp add: both_def)

lemma subset_conditions:
  assumes "writable m g" "prefs_ok g"
  shows "gm_idle_time_to_run m \<longrightarrow> exact6 (gp_idle_time_to_run g)"
    "gm_suspend_if_no_recent_input m \<longrightarrow> exact6 (gp_suspend_if_no_recent_input g)"
    "0 \<le> m_start (tp_span (gp_cpu_times g))"
    "m_start (tp_span (gp_cpu_times g)) \<le> DAY_SECONDS"
    "0 \<le> m_end (tp_span (gp_cpu_times g))"
    "m_end (tp_span (gp_cpu_times g)) \<le> DAY_SECONDS"
    "0 \<le> m_start (tp_span (gp_net_times g))"
    "m_start (tp_span (gp_net_times g)) \<le> DAY_SECONDS"
    "0 \<le> m_end (tp_span (gp_net_times g))"
    "m_end (tp_span (gp_net_times g)) \<le> DAY_SECONDS"
    "gm_work_buf_min_days m \<longrightarrow> exact6 (gp_work_buf_min_days g)"
    "gp_work_buf_min_days g \<ge> 1/100000"
    "gm_work_buf_additional_days m \<longrightarrow> exact6 (gp_work_buf_additional_days g)"
    "gp_work_buf_additional_days g \<ge> 0"
    "gm_max_cpus m \<longrightarrow> int_prints (gp_max_cpus g)"
    "gp_max_cpus g \<ge> 1"
    "gm_max_ncpus_pct m \<longrightarrow> exact6 (gp_max_ncpus_pct g)"
    "0 \<le> gp_max_ncpus_pct g \<and> gp_max_ncpus_pct g \<le> 100"
    "gm_cpu_scheduling_period_minutes m \<longrightarrow> exact6 (gp_cpu_scheduling_period_minutes g)"
    "gp_cpu_scheduling_period_minutes g \<ge> 1/10000"
    "gm_disk_interval m \<longrightarrow> exact6 (gp_disk_interval g)"
    "gp_disk_interval g \<ge> 0"
    "gm_disk_max_used_gb m \<longrightarrow> exact6 (gp_disk_max_used_gb g)"
    "gm_disk_max_used_pct m \<longrightarrow> exact6 (gp_disk_max_used_pct g)"
    "gm_disk_min_free_gb m \<longrightarrow> exact6 (gp_disk_min_free_gb g)"
    "gm_vm_max_used_frac m \<longrightarrow> exact6 (gp_vm_max_used_frac g * 100)"
    "gm_ram_max_used_busy_frac m \<longrightarrow> exact6 (gp_ram_max_used_busy_frac g * 100)"
    "gp_ram_max_used_busy_frac g \<noteq> 0"
    "gm_ram_max_used_idle_frac m \<longrightarrow> exact6 (gp_ram_max_used_idle_frac g * 100)"
    "gp_ram_max_used_idle_frac g \<noteq> 0"
    "gm_max_bytes_sec_up m \<longrightarrow> exact6 (gp_max_bytes_sec_up g)"
    "gp_max_bytes_sec_up g \<ge> 0"
    "gm_max_bytes_sec_down m \<longrightarrow> exact6 (gp_max_bytes_sec_down g)"
    "gp_max_bytes_sec_down g \<ge> 0"
    "gm_cpu_usage_limit m \<longrightarrow> exact6 (gp_cpu_usage_limit g)"
    "0 < gp_cpu_usage_limit g \<and> gp_cpu_usage_limit g \<le> 100"
  using assms unfolding writable_def prefs_ok_def times_ok_def span_ok_def by - (elim conjE, (intro conjI)?, assumption+)+

lemma read_written_subset:
  assumes "prefs_ok g" "are_prefs_set m" "writable m g"
  shows "parse_override dtime hv h (os_text (write_subset g m \<lparr>os_text = [], os_precision = 6\<rparr>))
    = Inr (0, False, (merge_prefs m g h, m), NL)"
proof -
  define v where "v = \<lparr>in_venue = False, in_correct_venue = False, found_venue = False\<rparr>"
  have v: "\<not> in_venue v" "found_venue v = False" by (simp_all add: v_def)
  have days: "set [0..<7] \<subseteq> {..<7::nat}" by auto
  note c = subset_conditions [OF assms(3,1)]
  note e = optional_run_on_batteries [OF v(1)] optional_run_if_user_active [OF v(1)] optional_idle_time_to_run [OF v(1) c(1)]
    optional_suspend_if_no_recent_input [OF v(1) c(2)] optional_start_hour [OF v(1) c(3,4)] optional_end_hour [OF v(1) c(5,6)]
    optional_net_start_hour [OF v(1) c(7,8)] optional_net_end_hour [OF v(1) c(9,10)] optional_leave_apps_in_memory [OF v(1)]
    optional_confirm_before_connecting [OF v(1)] optional_hangup_if_dialed [OF v(1)] optional_dont_verify_images [OF v(1)]
    optional_work_buf_min_days [OF v(1) c(11,12)] optional_work_buf_additional_days [OF v(1) c(13,14)] optional_max_cpus [OF v(1) c(15,16)]
    optional_max_ncpus_pct [OF v(1) c(17,18)] optional_cpu_scheduling_period_minutes [OF v(1) c(19,20)] optional_disk_interval [OF v(1) c(21,22)]
    optional_disk_max_used_gb [OF v(1) c(23)] optional_disk_max_used_pct [OF v(1) c(24)] optional_disk_min_free_gb [OF v(1) c(25)]
    optional_vm_max_used_pct [OF v(1) c(26)] optional_ram_max_used_busy_pct [OF v(1) c(27,28)] optional_ram_max_used_idle_pct [OF v(1) c(29,30)]
    optional_max_bytes_sec_up [OF v(1) c(31,32)] optional_max_bytes_sec_down [OF v(1) c(33,34)] optional_cpu_usage_limit [OF v(1) c(35,36)]
  show ?thesis
    unfolding parse_override_def write_subset_text [OF assms(2)] v_def [symmetric] override_open e
      override_days [OF assms(1) v(1) days] override_close merge_prefs_def both_pair fst_conv snd_conv v(2)
  proof (rule result_eq, rule GLOBAL_PREFS.equality)
  qed (simp_all add: merge_selected_def mask_clear_def all_prefs_def select_if_def)
qed



text \<open>A time of day survives being written and read again up to one second, and up to 18 seconds when it
  belongs to a single day of the week; two minutes past midnight, though, come back as one minute and 59
  seconds, and twenty past as 0:19:48 for a day.\<close>

theorem reread_error:
  assumes "0 \<le> t" "t \<le> DAY_SECONDS"
  shows "reread 6 t \<in> {t - 1, t} \<and> \<bar>reread 2 t - t\<bar> \<le> 18 \<and> reread 6 120 = 119 \<and> reread 2 1200 = 1188"
proof -
  have near: "\<bar>fixed_value n (hours t) * 3600 - of_int t\<bar> \<le> 1800 / 10 ^ n" for n
  proof -
    have "\<bar>fixed_value n (hours t) - hours t\<bar> * 3600 \<le> 1 / (2 * 10 ^ n) * 3600"
      by (intro mult_right_mono fixed_value_close) simp
    moreover have "\<bar>fixed_value n (hours t) - hours t\<bar> * 3600 = \<bar>fixed_value n (hours t) * 3600 - of_int t\<bar>"
      by (simp add: hours_def abs_if field_simps)
    ultimately show ?thesis by simp
  qed
  have pos: "0 \<le> fixed_value n (hours t) * 3600" for n using fixed_value_range(1) [of "hours t" 24 n] hours_range [OF assms] by auto
  have "reread 6 t \<in> {t - 1, t}"
    using near [of 6] pos [of 6] by (auto simp: reread_def time_t_of_def abs_le_iff floor_eq_iff)
  moreover have "\<bar>reread 2 t - t\<bar> \<le> 18"
    using near [of 2] pos [of 2] by (auto simp: reread_def time_t_of_def abs_le_iff) linarith+
  moreover have "reread 6 120 = 119" "reread 2 1200 = 1188"
    by (simp_all add: reread_def time_t_of_def fixed_value_def hours_def round_even_def Let_def floor_eq_iff)
  ultimately show ?thesis by blast
qed

theorem reread_error_witness: "reread 6 3600 \<in> {3599, 3600} \<and> \<bar>reread 2 3600 - 3600\<bar> \<le> 18"
  using reread_error [of 3600] by simp

section \<open>What reading changes besides\<close>

text \<open>An override file that says nothing about processors still changes how many are used: after reading
  it the percentage of the other preferences no longer counts and the absolute limit does.\<close>

theorem override_drops_percentage:
  assumes "prefs_ok g" "are_prefs_set m" "writable m g" "\<not> gm_max_ncpus_pct m" "\<not> gm_max_cpus m"
  shows "\<exists>h1 m1 rest. parse_override dtime hv h (os_text (write_subset g m \<lparr>os_text = [], os_precision = 6\<rparr>)) = Inr (0, False, (h1, m1), rest)
    \<and> \<not> gm_max_ncpus_pct m1 \<and> (\<forall>n. GetMaxCPUs h1 n = max 1 (min n (gp_max_cpus h)))"
proof -
  have "override_days_frame": "gp_max_ncpus_pct (fold (set_days g) is x) = gp_max_ncpus_pct x \<and> gp_max_cpus (fold (set_days g) is x) = gp_max_cpus x"
    for "is" x by (induction "is" arbitrary: x) (simp_all add: set_days_def)
  have "gp_max_ncpus_pct (merge_prefs m g h) = 0" "gp_max_cpus (merge_prefs m g h) = gp_max_cpus h"
    using override_days_frame assms(4,5) unfolding merge_prefs_def by (simp_all add: merge_selected_def)
  then have "\<forall>n. GetMaxCPUs (merge_prefs m g h) n = max 1 (min n (gp_max_cpus h))" by (auto simp: GetMaxCPUs_def Let_def)
  then show ?thesis using read_written_subset [OF assms(1-3)] assms(4) by auto
qed

theorem override_drops_percentage_witness:
  "\<exists>h1 m1 rest. parse_override 0 [] (sample_prefs\<lparr>gp_max_ncpus_pct := 50\<rparr>) (os_text (write_subset sample_prefs
       (mask_clear\<lparr>gm_cpu_usage_limit := True\<rparr>) \<lparr>os_text = [], os_precision = 6\<rparr>)) = Inr (0, False, (h1, m1), rest)
    \<and> GetMaxCPUs (sample_prefs\<lparr>gp_max_ncpus_pct := 50\<rparr>) 8 = 4 \<and> GetMaxCPUs h1 8 = 8"
proof -
  define m where "m = mask_clear\<lparr>gm_cpu_usage_limit := True\<rparr>"
  have "prefs_ok sample_prefs"
    by (simp add: prefs_ok_def sample_prefs_def sample_times_def times_ok_def week_ok_def span_ok_def)
  moreover have "are_prefs_set m" "\<not> gm_max_ncpus_pct m" "\<not> gm_max_cpus m"
    by (simp_all add: m_def are_prefs_set_def mask_clear_def all_prefs_def)
  moreover have "writable m sample_prefs"
    by (simp add: m_def writable_def mask_clear_def all_prefs_def sample_prefs_def exact6_def)
  moreover have "GetMaxCPUs (sample_prefs\<lparr>gp_max_ncpus_pct := 50\<rparr>) 8 = 4" "gp_max_cpus sample_prefs = 16"
    by (simp_all add: GetMaxCPUs_def sample_prefs_def trunc_int_def)
  ultimately show ?thesis
    using override_drops_percentage [of sample_prefs m 0 "[]" "sample_prefs\<lparr>gp_max_ncpus_pct := 50\<rparr>"]
    unfolding m_def by fastforce
qed

lemma override_skip:
  assumes "tag_ok tag" "CHR ''/'' \<in> set tag" "tag \<noteq> ''/global_preferences''" "in_venue v \<longrightarrow> tag \<noteq> ''/venue'' \<and> in_correct_venue v"
    "\<not> in_venue v \<longrightarrow> \<not> match_tag tag ''venue''"
    "first_field (override_fields dtime) tag x rest = Inr (False, x, rest)"
  shows "override_loop dtime hv v x (CHR ''<'' # tag @ CHR ''>'' # rest) = override_loop dtime hv v x rest"
proof -
  have "tag \<noteq> ''global_preferences''" using assms(2) by auto
  then show ?thesis
    using get_tag [OF assms(1), of "[]" "Some 256" rest] assms
    by (subst override_loop.simps) (auto simp: skip_unexpected_def)
qed

lemma override_text:
  assumes "text_ok t" "length t < 256"
  shows "override_loop dtime hv v x (t @ CHR ''<'' # rest) = override_loop dtime hv v x (CHR ''<'' # rest)"
  using get_text [OF assms, of "Some 256" rest] by (subst override_loop.simps) simp

text \<open>The element \<open>host_venue\<close>, which the client looks for in the override file, is taken for a venue when the
  file is parsed, because its name contains the word and no attribute names another: all preferences read
  before are replaced by the defaults, with every switch off.\<close>

theorem host_venue_resets:
  assumes "text_ok t" "length t < 256"
  shows "parse_override dtime [] h (''<global_preferences><host_venue>'' @ t @ ''</host_venue></global_preferences>'')
    = Inr (0, True, ((clear_bools (GLOBAL_PREFS_defaults h))\<lparr>gp_max_ncpus_pct := 0\<rparr>, mask_clear), [])"
proof -
  define v where "v = \<lparr>in_venue = True, in_correct_venue = True, found_venue = True\<rparr>"
  define rest where "rest = ''</host_venue></global_preferences>''"
  define x where "x = enter_venue (h\<lparr>gp_max_ncpus_pct := 0\<rparr>, mask_clear)"
  have r: "rest = CHR ''<'' # ''/host_venue'' @ CHR ''>'' # ''</global_preferences>''" by (simp add: rest_def)
  have g1: "get 256 (Some 256) (''<global_preferences><host_venue>'' @ t @ rest)
      = Inr (Some (''global_preferences'', True, [], ''<host_venue>'' @ t @ rest))"
    using get_tag [of "''global_preferences''" "[]" "Some 256" "''<host_venue>'' @ t @ rest"] by (simp add: override_names)
  have g2: "get 256 (Some 256) (''<host_venue>'' @ t @ rest) = Inr (Some (''host_venue'', True, [], t @ rest))"
    using get_tag [of "''host_venue''" "[]" "Some 256" "t @ rest"] by (simp add: override_names)
  have "parse_override dtime [] h (''<global_preferences><host_venue>'' @ t @ rest) = override_loop dtime [] v x (t @ rest)"
    unfolding parse_override_def
    by (subst override_loop.simps, simp add: g1 [simplified], subst override_loop.simps, simp add: g2 [simplified])
      (simp add: v_def x_def match_tag_def parse_attr_def)
  also have "\<dots> = override_loop dtime [] v x rest" using override_text [OF assms] unfolding r by blast
  also have "\<dots> = override_loop dtime [] v x ''</global_preferences>''"
  proof -
    have f: "first_field (override_fields dtime) ''/host_venue'' x inp = Inr (False, x, inp)" for inp
      by (simp add: override_fields_def)
    show ?thesis unfolding r by (rule override_skip [OF _ _ _ _ _ f]) (simp_all add: override_names v_def)
  qed
  also have "\<dots> = Inr (0, True, x, [])" using override_close [of dtime "[]" v x "[]"] by (simp add: v_def)
  finally show ?thesis by (simp add: x_def enter_venue_def rest_def GLOBAL_PREFS_defaults_def clear_bools_def)
qed

theorem host_venue_resets_witness:
  "\<exists>h1. parse_override 0 [] (sample_prefs\<lparr>gp_cpu_usage_limit := 10\<rparr>)
      (''<global_preferences><host_venue>'' @ ''home'' @ ''</host_venue></global_preferences>'') = Inr (0, True, (h1, mask_clear), [])
    \<and> gp_cpu_usage_limit h1 = 100 \<and> \<not> gp_run_on_batteries h1"
proof -
  have "text_ok ''home''" "length ''home'' < 256" by (simp_all add: text_ok_def is_space_def)
  from host_venue_resets [OF this, of 0 "sample_prefs\<lparr>gp_cpu_usage_limit := 10\<rparr>"] show ?thesis
    by (simp add: GLOBAL_PREFS_defaults_def clear_bools_def)
qed

text \<open>A start of the computing time after midnight of the next day ends the client: the exception that
  \<open>set_start\<close> throws for it is caught neither by the parser nor by its callers.\<close>

theorem late_start_hour_throws:
  assumes "24 < fixed_value n w - 1 / 3600" "prints n w"
  shows "parse_override dtime hv h (''<global_preferences>'' @ NL @ write_tag ''start_hour'' (show_fixed n w) @ rest) = Inl Invalid_Argument"
proof -
  define x where "x = (h\<lparr>gp_max_ncpus_pct := 0\<rparr>, mask_clear)"
  define v where "v = \<lparr>in_venue = False, in_correct_venue = False, found_venue = False\<rparr>"
  define body where "body = show_fixed n w @ ''</'' @ ''start_hour'' @ CHR ''>'' # NL @ rest"
  have "time_t_of (fixed_value n w * 3600) > DAY_SECONDS"
  proof -
    have "fixed_value n w * 3600 > 86401" using assms(1) by simp
    then show ?thesis by (simp add: time_t_of_def)
  qed
  then have throws: "cpu_hour set_start k (time_t_of (fixed_value n w * 3600)) y = Inl Invalid_Argument" for k y
    by (simp add: cpu_hour_def set_span_def set_start_def check_range_def)
  have "tag_ok (CHR ''/'' # ''start_hour'')" by (simp add: override_names)
  from xml_parse_number_element [OF this text_ok_fixed, of n w double_value "fixed_value n w" 0 "NL @ rest"]
  have p: "xml_parse_double ''start_hour'' ''start_hour'' body = Inr (Some (fixed_value n w), NL @ rest)"
    using assms(2) by (simp only: xml_parse_double_def body_def prints_def double_value_def strtod_show_fixed prod.case)  simp
  have h: "hour_field ''start_hour'' (cpu_hour set_start k) ''start_hour'' x body = Inl Invalid_Argument" for k
    by (simp add: hour_field_def field_def p throws)
  have "first_field (override_fields dtime) ''start_hour'' x body = Inl Invalid_Argument"
    by (simp add: override_fields_def h)
  moreover have "get 256 (Some 256) (write_tag ''start_hour'' (show_fixed n w) @ rest) = Inr (Some (''start_hour'', True, [], body))"
    using get_tag [of "''start_hour''" "[]" "Some 256" body] by (simp add: override_names write_tag_def body_def)
  ultimately have "override_loop dtime hv v x (write_tag ''start_hour'' (show_fixed n w) @ rest) = Inl Invalid_Argument"
    by (subst override_loop.simps) (simp add: v_def match_tag_def)
  then show ?thesis
    unfolding parse_override_def v_def [symmetric] x_def [symmetric] override_open .
qed

theorem late_start_hour_throws_witness:
  "parse_override 0 [] sample_prefs (''<global_preferences>'' @ NL @ write_tag ''start_hour'' (show_fixed 2 25) @ ''</global_preferences>'')
   = Inl Invalid_Argument"
proof -
  have "fixed_value 2 25 = 25" by (rule fixed_value_exact [of _ _ 2500]) simp
  moreover have "prints 2 25" by (rule prints_bound [of _ 25]) simp_all
  ultimately show ?thesis using late_start_hour_throws [of 2 25] by simp
qed

text \<open>Writing preferences that have a time span for a day of the week changes the precision of the stream
  for everything written to it later: two decimals instead of what the caller had set.\<close>

theorem precision_after_write:
  "os_precision (GLOBAL_PREFS_write g os) = (if \<exists>i < 7. has_day g i then 2 else os_precision os)
   \<and> os_precision (write_subset g m os) = (if are_prefs_set m \<and> (\<exists>i < 7. has_day g i) then 2 else os_precision os)"
proof -
  have tags: "os_precision (tag_double name w os) = os_precision os" "os_precision (tag_int name i os) = os_precision os"
    "os_precision (tag_str name t os) = os_precision os" "os_precision (tag_flag name b os) = os_precision os"
    for name w i t b and os :: OSTREAM
    by (simp_all add: tag_double_def tag_int_def tag_str_def tag_flag_def emit_def put_if_def)
  have "list_ex (has_day g) [0..<7] = (\<exists>i < 7. has_day g i)" by (auto simp: list_ex_iff)
  then have days: "os_precision (write_day_prefs g os) = (if \<exists>i < 7. has_day g i then 2 else os_precision os)" for os
    by (simp add: write_day_prefs_text del: upt_rec_numeral upt.simps)
  show ?thesis
    unfolding GLOBAL_PREFS_write_def write_subset_def fold_simps by (simp only: put_if_text days tags if_distrib simp_thms if_cancel split: if_split) auto
qed

end
