(* ===== verification/Prefs_Valid.thy ===== *)
theory Prefs_Valid
  imports Account_File Prefs_Subset
begin

text \<open>
  Reading the preference files keeps every preference in its range, whatever text the files hold, and
  with them the number of CPUs the scheduler counts with.
\<close>

lemma init_ok: "prefs_ok g \<Longrightarrow> prefs_ok (GLOBAL_PREFS_init g)"
  using prefs_ok_weeks by (simp add: GLOBAL_PREFS_init_def defaults_ok)

lemma parse_override_ok: "parse_override dtime hv g inp = Inr (retval, found, x, rest) \<Longrightarrow> prefs_ok g \<Longrightarrow> prefs_ok (fst x)"
  unfolding parse_override_def by (erule override_loop_ok) simp

lemma parse_file_ok: "parse_file dtime file hv g = Inr (retval, h) \<Longrightarrow> prefs_ok g \<Longrightarrow> prefs_ok h"
  by (auto simp: parse_file_def GLOBAL_PREFS_parse_def xml_then_Inr split: option.splits intro: init_ok dest!: parse_override_ok)

lemma override_venue_ok: "override_venue fs s = Inr t \<Longrightarrow> global_prefs t = global_prefs s"
  by (auto simp: override_venue_def split: option.splits)

lemma read_override_file_ok: "read_override_file fs s = Inr t \<Longrightarrow> prefs_ok (global_prefs s) \<Longrightarrow> prefs_ok (global_prefs t)"
  by (auto simp: read_override_file_def xml_then_Inr split: option.splits dest: parse_override_ok)

lemma read_prefs_file_ok:
  assumes "read_prefs_file fs s = Inr t" "prefs_ok (global_prefs s)"
  shows "prefs_ok (global_prefs t)"
proof -
  obtain retval g where p: "parse_file (pr_time fs) (pr_prefs fs) (main_host_venue s) (global_prefs s) = Inr (retval, g)"
    using assms(1) by (auto simp: read_prefs_file_def xml_then_Inr)
  have g: "prefs_ok g" using parse_file_ok [OF p assms(2)] .
  note t = assms(1) [unfolded read_prefs_file_def p xml_then_simps prod.case Let_def]
  have again: "prefs_ok h" if "parse_file (pr_time fs) (pr_prefs fs) hv g = Inr (r, h)" for hv r h
    using parse_file_ok [OF that g] .
  show ?thesis
    using t assms(2) g again init_ok [OF g]
    by (cases "retval \<noteq> 0"; cases "global_prefs_source_project (s\<lparr>global_prefs := g\<rparr>)")
      (auto simp: xml_then_Inr split: if_splits)
qed

lemma bandwidth_keeps:
  "global_prefs (set_bandwidth_limits b s) = global_prefs s" "ncpus (set_bandwidth_limits b s) = ncpus s"
proof -
  have "global_prefs (fold (\<lambda>x s. if same_direction s b x then upd_fxfer x (f s) s else s) xs s) = global_prefs s
    \<and> ncpus (fold (\<lambda>x s. if same_direction s b x then upd_fxfer x (f s) s else s) xs s) = ncpus s" for f xs s
    by (induction xs arbitrary: s) (simp_all add: upd_fxfer_def)
  then show "global_prefs (set_bandwidth_limits b s) = global_prefs s" "ncpus (set_bandwidth_limits b s) = ncpus s"
    by (simp_all add: set_bandwidth_limits_def Let_def)
qed

definition available_cpus :: "CLIENT_STATE \<Rightarrow> int" where
  "available_cpus s = (if cf_ncpus (config s) > 0 then cf_ncpus (config s)
     else if hi_p_ncpus (host_info s) > 0 then hi_p_ncpus (host_info s) else 1)"

lemma available_pos: "1 \<le> available_cpus s" by (simp add: available_cpus_def)

lemma GetMaxCPUs_range:
  assumes "prefs_ok g" "1 \<le> n"
  shows "1 \<le> GetMaxCPUs g n \<and> GetMaxCPUs g n \<le> n"
proof -
  have pct: "0 \<le> gp_max_ncpus_pct g" "gp_max_ncpus_pct g \<le> 100" using assms(1) by (simp_all add: prefs_ok_def)
  then have "real_of_int n * gp_max_ncpus_pct g \<le> real_of_int n * 100" using assms(2) by (intro mult_left_mono) auto
  then have "real_of_int n * gp_max_ncpus_pct g / 100 \<le> real_of_int n" by linarith
  then have "\<lfloor>real_of_int n * gp_max_ncpus_pct g / 100\<rfloor> \<le> n" by (metis floor_mono floor_of_int)
  then have "trunc_int (real_of_int n * gp_max_ncpus_pct g / 100) \<le> n" using pct(1) assms(2) by (simp add: trunc_int_def)
  then show ?thesis using assms(2) by (auto simp: GetMaxCPUs_def Let_def)
qed

lemma prefs_changed_cpus: "ncpus (prefs_changed s) = GetMaxCPUs (global_prefs s) (available_cpus s)"
  "global_prefs (prefs_changed s) = global_prefs s"
  by (simp_all add: prefs_changed_def bandwidth_keeps request_work_fetch_def request_schedule_cpus_def set_ncpus_def
      available_cpus_def Let_def)


lemma sample_prefs_ok: "prefs_ok sample_prefs"
  by (simp add: prefs_ok_def sample_prefs_def sample_times_def times_ok_def week_ok_def span_ok_def)

lemma sample_override:
  "parse_override 0 [] sample_prefs ''<global_preferences><max_cpus>-3</max_cpus></global_preferences>''
   = Inr (0, False, (sample_prefs\<lparr>gp_max_ncpus_pct := 0, gp_max_cpus := 1\<rparr>, mask_clear\<lparr>gm_max_cpus := True\<rparr>), [])"
  by code_simp


end
