(* ===== verification/Task_Poll.thy ===== *)
theory Task_Poll
  imports Enforce_Schedule Number_Text
begin

unbundle bit_operations_syntax

text \<open>
  What the client does with running tasks at every poll (\<open>client/app_control.C\<close>, \<open>client/app.C\<close>): it
  reads the messages of the applications, tells them about memory and trickle messages, finds out
  how a process has ended and what this means for its result, and measures their memory. Ending all
  tasks of a project is here too.
\<close>

section \<open>The operating system\<close>

text \<open>
  The status \<open>waitpid\<close> returns, and the other answers of the system: the process that has ended (with
  no task when its id is not known), the marker file of a finished application, the renaming of a
  trickle file, the names in a slot directory, the digest and length \<open>md5_file\<close> finds or its error,
  the error output of a task, the memory figures of the processes (none when they cannot be read),
  the disk usage of a task, and whether the last library error was \<open>ERANGE\<close>.
\<close>

datatype wait_status = Exited int | Signaled int int | Unknown_End

record PROCINFO =
  pi_working_set_size :: real
  pi_swap_size :: real
  pi_page_fault_count :: int

record TASK_IO =
  tio_waitpid :: "(aid option \<times> wait_status) option"
  tio_finish_file :: "aid \<Rightarrow> bool"
  tio_rename_trickle :: "aid \<Rightarrow> bool"
  tio_slot_names :: "aid \<Rightarrow> string list"
  tio_md5_file :: "fid \<Rightarrow> int + string \<times> real"
  tio_stderr :: "aid \<Rightarrow> string option"
  tio_procinfo :: "(aid \<Rightarrow> PROCINFO) option"
  tio_disk :: "aid \<Rightarrow> real option"
  tio_erange :: bool

section \<open>Messages of an application\<close>

definition parse_into :: "string \<Rightarrow> string \<Rightarrow> (real \<Rightarrow> 'a \<Rightarrow> 'a) \<Rightarrow> 'a \<Rightarrow> 'a" where
  "parse_into buf tag upd x = (case parse_double_line buf tag of None \<Rightarrow> x | Some v \<Rightarrow> upd v x)"

definition app_status_task :: "bool \<Rightarrow> string \<Rightarrow> ACTIVE_TASK \<Rightarrow> ACTIVE_TASK" where
  "app_status_task erange buf t =
     (let t1 = t\<lparr>at_want_network := False, at_current_cpu_time := 0, at_checkpoint_cpu_time := 0\<rparr>;
          t2 = parse_into buf ''<fraction_done>'' (\<lambda>v x. if v \<noteq> 0 then x\<lparr>at_fraction_done := v\<rparr> else x) t1;
          t3 = parse_into buf ''<current_cpu_time>'' (\<lambda>v x. x\<lparr>at_current_cpu_time := v\<rparr>) t2;
          t4 = parse_into buf ''<checkpoint_cpu_time>'' (\<lambda>v x. x\<lparr>at_checkpoint_cpu_time := v\<rparr>) t3;
          t5 = (case fst (parse_int_line erange buf ''<want_network>'') of
                  None \<Rightarrow> t4 | Some i \<Rightarrow> t4\<lparr>at_want_network := (i \<noteq> 0)\<rparr>)
      in t5\<lparr>at_current_cpu_time := max 0 (at_current_cpu_time t5), at_checkpoint_cpu_time := max 0 (at_checkpoint_cpu_time t5)\<rparr>)"

definition app_status_result :: "string \<Rightarrow> RESULT \<Rightarrow> RESULT" where
  "app_status_result buf x =
     parse_into buf ''<intops_cumulative>'' (\<lambda>v x. x\<lparr>r_intops_cumulative := v\<rparr>)
       (parse_into buf ''<intops_per_cpu_sec>'' (\<lambda>v x. x\<lparr>r_intops_per_cpu_sec := v\<rparr>)
         (parse_into buf ''<fpops_cumulative>'' (\<lambda>v x. x\<lparr>r_fpops_cumulative := v\<rparr>)
           (parse_into buf ''<fpops_per_cpu_sec>'' (\<lambda>v x. x\<lparr>r_fpops_per_cpu_sec := v\<rparr>) x)))"

definition get_app_status_msg :: "TASK_IO \<Rightarrow> aid \<Rightarrow> CLIENT_STATE \<Rightarrow> bool \<times> CLIENT_STATE" where
  "get_app_status_msg io a s =
     (if \<not> at_shm (task s a) then (False, s)
      else case get_msg (at_app_status (task s a)) of
        (None, _) \<Rightarrow> (False, s)
      | (Some buf, ch) \<Rightarrow>
          (True, upd_res (at_result (task s a)) (app_status_result buf)
                   (upd_task a (\<lambda>t. app_status_task (tio_erange io) buf (t\<lparr>at_app_status := ch\<rparr>)) s)))"

definition lookup_file_logical :: "string \<Rightarrow> RESULT \<Rightarrow> fid option" where
  "lookup_file_logical lname x =
     map_option fr_file_info (find (\<lambda>fr. fr_open_name fr = lname) (r_output_files x))"

abbreviation UPLOAD_FILE_REQ_PREFIX :: string where "UPLOAD_FILE_REQ_PREFIX \<equiv> ''boinc_ufr_''"

definition handle_upload_file :: "TASK_IO \<Rightarrow> aid \<Rightarrow> string \<Rightarrow> CLIENT_STATE \<Rightarrow> CLIENT_STATE" where
  "handle_upload_file io a filename s =
     (if take (length UPLOAD_FILE_REQ_PREFIX) filename \<noteq> UPLOAD_FILE_REQ_PREFIX then s
      else case lookup_file_logical (drop (length UPLOAD_FILE_REQ_PREFIX) filename) (res s (at_result (task s a))) of
        None \<Rightarrow> s
      | Some f \<Rightarrow> upd_finfo f (\<lambda>x.
          case tio_md5_file io f of
            Inl retval \<Rightarrow> x\<lparr>fi_nbytes := 0, fi_status := retval\<rparr>
          | Inr (cksum, n) \<Rightarrow> x\<lparr>fi_md5_cksum := cksum, fi_nbytes := n, fi_status := FILE_PRESENT\<rparr>) s)"

definition handle_upload_files :: "TASK_IO \<Rightarrow> aid \<Rightarrow> CLIENT_STATE \<Rightarrow> CLIENT_STATE" where
  "handle_upload_files io a s = fold (handle_upload_file io a) (tio_slot_names io a) s"

definition get_trickle_up_msg :: "TASK_IO \<Rightarrow> aid \<Rightarrow> CLIENT_STATE \<Rightarrow> bool \<times> CLIENT_STATE" where
  "get_trickle_up_msg io a s =
     (if \<not> at_shm (task s a) then (False, s)
      else case get_msg (at_trickle_up (task s a)) of
        (None, _) \<Rightarrow> (False, s)
      | (Some buf, ch) \<Rightarrow>
          let s1 = upd_task a (\<lambda>t. t\<lparr>at_trickle_up := ch\<rparr>) s;
              s2 = (if match_tag buf ''<have_new_trickle_up/>'' \<and> tio_rename_trickle io a
                    then upd_proj (wu_project (wunit s1 (at_wup (task s1 a)))) (\<lambda>x. x\<lparr>p_trickle_up_pending := True\<rparr>) s1
                    else s1)
          in (True, if match_tag buf ''<have_new_upload_file/>'' then handle_upload_files io a s2 else s2))"

definition get_msgs_task :: "TASK_IO \<Rightarrow> aid \<Rightarrow> CLIENT_STATE \<Rightarrow> CLIENT_STATE" where
  "get_msgs_task io a s =
     (if \<not> process_exists (task s a) then s
      else case get_app_status_msg io a s of (got, s1) \<Rightarrow>
        let s2 = (if got \<and> at_checkpoint_cpu_time (task s a) \<noteq> at_checkpoint_cpu_time (task s1 a)
                  then upd_task a (\<lambda>t. t\<lparr>at_checkpoint_wall_time := now s1, at_premature_exit_count := 0,
                         at_stats_checkpoint := at_stats_checkpoint t + 1\<rparr>) (request_enforce_schedule s1)
                  else s1)
        in snd (get_trickle_up_msg io a s2))"

definition get_msgs :: "TASK_IO \<Rightarrow> CLIENT_STATE \<Rightarrow> CLIENT_STATE" where
  "get_msgs io s = fold (get_msgs_task io) (active_tasks s) s"

section \<open>Messages to an application\<close>

definition send_to :: "string \<Rightarrow> aid \<Rightarrow> CLIENT_STATE \<Rightarrow> bool \<times> CLIENT_STATE" where
  "send_to msg a s = (case send_msg msg (at_trickle_down (task s a)) of
     (sent, ch) \<Rightarrow> (sent, upd_task a (\<lambda>t. t\<lparr>at_trickle_down := ch\<rparr>) s))"

definition send_trickle_downs_task :: "aid \<Rightarrow> CLIENT_STATE \<Rightarrow> CLIENT_STATE" where
  "send_trickle_downs_task a s =
     (if \<not> process_exists (task s a) then s
      else if (at_have_trickle_down (task s a) \<or> at_send_upload_file_status (task s a)) \<and> \<not> at_shm (task s a) then s
      else let
        s1 = (if at_have_trickle_down (task s a)
              then (case send_to (''<have_trickle_down/>'' @ NL) a s of
                      (sent, u) \<Rightarrow> if sent then upd_task a (\<lambda>t. t\<lparr>at_have_trickle_down := False\<rparr>) u else u)
              else s)
      in if at_send_upload_file_status (task s1 a)
         then (case send_to (''<upload_file_status/>'' @ NL) a s1 of
                 (sent, u) \<Rightarrow> if sent then upd_task a (\<lambda>t. t\<lparr>at_send_upload_file_status := False\<rparr>) u else u)
         else s1)"

definition send_trickle_downs :: "CLIENT_STATE \<Rightarrow> CLIENT_STATE" where
  "send_trickle_downs s = fold send_trickle_downs_task (active_tasks s) s"

definition heartbeat_text :: "real \<Rightarrow> real \<Rightarrow> string" where
  "heartbeat_text wss ar = ''<heartbeat/><wss>'' @ show_fixed 6 wss @ ''</wss><max_wss>'' @ show_fixed 6 ar @ ''</max_wss>''"

definition send_heartbeats :: "CLIENT_STATE \<Rightarrow> CLIENT_STATE" where
  "send_heartbeats s = (let ar = available_ram s in
     fold (\<lambda>a s. if process_exists (task s a) \<and> at_shm (task s a)
       then upd_task a (\<lambda>t. t\<lparr>at_heartbeat := snd (send_msg (heartbeat_text (at_working_set_size t) ar) (at_heartbeat t))\<rparr>) s
       else s) (active_tasks s) s)"

definition graphics_poll :: "CLIENT_STATE \<Rightarrow> CLIENT_STATE" where
  "graphics_poll s = fold (\<lambda>a s. if process_exists (task s a)
     then upd_task a (\<lambda>t. case msg_queue_poll (at_graphics_request_queue t, at_graphics_request t) of
            (q, ch) \<Rightarrow> t\<lparr>at_graphics_request_queue := q, at_graphics_request := ch\<rparr>) s
     else s) (active_tasks s) s"

section \<open>How a process has ended\<close>

fun hex_digits :: "nat \<Rightarrow> string" where
  "hex_digits n = (if n < 16 then [] else hex_digits (n div 16)) @ [''0123456789abcdef'' ! (n mod 16)]"

declare hex_digits.simps [simp del]

definition exit_message :: "int \<Rightarrow> string" where
  "exit_message st = ''process exited with code '' @ string_of_int st @ '' (0x'' @ hex_digits (nat st) @ '', ''
     @ string_of_int ((-256) OR st) @ '')''"

text \<open>\<open>SIGHUP\<close>, \<open>SIGINT\<close>, \<open>SIGQUIT\<close>, \<open>SIGKILL\<close>, \<open>SIGTERM\<close> and \<open>SIGSTOP\<close>.\<close>

definition external_signals :: "int list" where
  "external_signals = [1, 2, 3, 9, 15, 19]"

definition classify_exit :: "TASK_IO \<Rightarrow> wait_status \<Rightarrow> aid \<Rightarrow> CLIENT_STATE \<Rightarrow> bool \<times> CLIENT_STATE" where
  "classify_exit io stat a s =
     (let r = at_result (task s a) in
      case stat of
        Exited st \<Rightarrow>
          let s1 = upd_res r (\<lambda>x. x\<lparr>r_exit_status := st\<rparr>) s in
          if st \<noteq> 0 then (False, report_result_error r (exit_message st) (set_task_state PROCESS_EXITED a s1))
          else if tio_finish_file io a then (False, set_task_state PROCESS_EXITED a s1)
          else handle_premature_exit a s1
      | Signaled got_signal raw \<Rightarrow>
          if got_signal \<in> set external_signals then (True, set_task_state PROCESS_UNINITIALIZED a s)
          else (False, report_result_error r (''process got signal '' @ string_of_int got_signal)
                  (upd_task a (\<lambda>t. t\<lparr>at_task_state := PROCESS_WAS_SIGNALED, at_signal := got_signal\<rparr>)
                    (upd_res r (\<lambda>x. x\<lparr>r_exit_status := raw\<rparr>) s)))
      | Unknown_End \<Rightarrow>
          (False, report_result_error r ''process exit, unknown''
             (set_task_state PROCESS_EXIT_UNKNOWN a (upd_res r (\<lambda>x. x\<lparr>r_exit_status := -1\<rparr>) s))))"

abbreviation MAX_STDERR :: nat where "MAX_STDERR \<equiv> 64512"

definition read_stderr_file :: "TASK_IO \<Rightarrow> aid \<Rightarrow> CLIENT_STATE \<Rightarrow> CLIENT_STATE" where
  "read_stderr_file io a s =
     (case tio_stderr io a of None \<Rightarrow> s
      | Some out \<Rightarrow>
          let stderr_file = takeWhile (\<lambda>c. c \<noteq> char_of (0 :: nat)) (drop (length out - MAX_STDERR) out) in
          upd_res (at_result (task s a)) (\<lambda>x. x\<lparr>r_stderr_out := r_stderr_out x
            @ ''<stderr_txt>'' @ NL @ stderr_file @ NL @ ''</stderr_txt>'' @ NL\<rparr>) s)"

definition handle_exited_app :: "TASK_IO \<Rightarrow> wait_status \<Rightarrow> aid \<Rightarrow> CLIENT_STATE \<Rightarrow> CLIENT_STATE" where
  "handle_exited_app io stat a s =
     (let s1 = snd (get_trickle_up_msg io a (snd (get_app_status_msg io a s)));
          s2 = upd_res (at_result (task s1 a)) (\<lambda>x. x\<lparr>r_final_cpu_time := at_current_cpu_time (task s1 a)\<rparr>) s1;
          (will_restart, s3) = (if at_task_state (task s2 a) = PROCESS_ABORT_PENDING
                                then (False, set_task_state PROCESS_ABORTED a s2)
                                else classify_exit io stat a s2);
          s4 = cleanup_task a s3;
          s5 = (if will_restart then s4 else read_stderr_file io a s4)
      in request_work_fetch (request_schedule_cpus s5))"

definition check_app_exited :: "TASK_IO \<Rightarrow> CLIENT_STATE \<Rightarrow> bool \<times> CLIENT_STATE" where
  "check_app_exited io s =
     (case tio_waitpid io of
        Some (Some a, stat) \<Rightarrow> (True, handle_exited_app io stat a s)
      | _ \<Rightarrow> (False, s))"

section \<open>Memory\<close>

text \<open>The figures are cleared before the new ones are read, the smoothed working set included.\<close>

definition measure_task :: "real \<Rightarrow> PROCINFO \<Rightarrow> ACTIVE_TASK \<Rightarrow> ACTIVE_TASK" where
  "measure_task diff pinfo t =
     (let t1 = t\<lparr>at_working_set_size := 0, at_working_set_size_smoothed := 0, at_swap_size := 0, at_page_fault_rate := 0,
                 at_page_fault_count := 0\<rparr>;
          t2 = t1\<lparr>at_working_set_size := pi_working_set_size pinfo, at_swap_size := pi_swap_size pinfo,
                  at_page_fault_count := pi_page_fault_count pinfo\<rparr>;
          t3 = t2\<lparr>at_working_set_size_smoothed := at_working_set_size_smoothed t2 / 2 + at_working_set_size t2,
                  at_page_fault_rate := of_int (at_page_fault_count t2 - at_page_fault_count t) / diff\<rparr>
      in t3\<lparr>at_stats_mem := max (at_stats_mem t3) (at_working_set_size t3),
            at_stats_page := max (at_stats_page t3) (at_swap_size t3),
            at_stats_pagefault_rate := max (at_stats_pagefault_rate t3) (at_page_fault_rate t3)\<rparr>)"

definition get_memory_usage :: "TASK_IO \<Rightarrow> CLIENT_STATE \<Rightarrow> CLIENT_STATE" where
  "get_memory_usage io s =
     (let diff = now s - last_mem_time (suspension s) in
      if diff < 10 then s
      else let s1 = s\<lparr>suspension := (suspension s)\<lparr>last_mem_time := now s\<rparr>\<rparr> in
        case tio_procinfo io of
          None \<Rightarrow> s1
        | Some pinfo \<Rightarrow> fold (\<lambda>a s. if at_scheduler_state (task s a) = CPU_SCHED_SCHEDULED
                                 then upd_task a (measure_task diff (pinfo a)) s else s) (active_tasks s1) s1)"

section \<open>Polling the tasks\<close>

definition active_tasks_poll :: "TASK_IO \<Rightarrow> CLIENT_STATE \<Rightarrow> bool \<times> CLIENT_STATE" where
  "active_tasks_poll io s =
     (if now s - active_poll_last_time s < 1 then (False, s)
      else let
        (exited, s1) = check_app_exited io (s\<lparr>active_poll_last_time := now s\<rparr>);
        s2 = process_control_poll (graphics_poll (send_trickle_downs (send_heartbeats s1)));
        (over, s3) = check_rsc_limits_exceeded (tio_disk io) (get_memory_usage io s2);
        s4 = kill_overdue (get_msgs io s3);
        action = (exited \<or> over)
      in (action, if action then set_client_state_dirty s4 else s4))"

end
