(* ===== verification/Task_Exit.thy ===== *)
theory Task_Exit
  imports Task_Poll
begin

text \<open>
  How tasks end: what the end of a process makes of its task and its result, and the shutdown of all
  tasks of a project (\<open>exit_tasks\<close>, \<open>wait_for_exit\<close>, \<open>abort_project\<close> of \<open>client/app_control.C\<close>).
\<close>

section \<open>Ending the tasks of a project\<close>

text \<open>\<open>reaped i a\<close>: whether \<open>waitpid\<close> finds the process of task \<open>a\<close> ended in round \<open>i\<close>.\<close>

fun wait_round :: "(aid \<Rightarrow> bool) \<Rightarrow> pid option \<Rightarrow> aid list \<Rightarrow> CLIENT_STATE \<Rightarrow> bool \<times> CLIENT_STATE" where
  "wait_round reaped p [] s = (True, s)"
| "wait_round reaped p (a # as) s =
     (if \<not> concerns p s a then wait_round reaped p as s
      else case has_task_exited (reaped a) a s of
        (True, s1) \<Rightarrow> wait_round reaped p as s1
      | (False, s1) \<Rightarrow> (False, s1))"

fun wait_rounds :: "(nat \<Rightarrow> aid \<Rightarrow> bool) \<Rightarrow> pid option \<Rightarrow> nat list \<Rightarrow> CLIENT_STATE \<Rightarrow> int \<times> CLIENT_STATE" where
  "wait_rounds reaped p [] s = (ERR_NOT_EXITED, s)"
| "wait_rounds reaped p (i # rounds) s =
     (case wait_round (reaped i) p (active_tasks s) s of
        (True, s1) \<Rightarrow> (0, s1)
      | (False, s1) \<Rightarrow> wait_rounds reaped p rounds s1)"

definition wait_for_exit :: "(nat \<Rightarrow> aid \<Rightarrow> bool) \<Rightarrow> nat \<Rightarrow> pid option \<Rightarrow> CLIENT_STATE \<Rightarrow> int \<times> CLIENT_STATE" where
  "wait_for_exit reaped i p s = wait_rounds reaped p [i..<i + 10] s"

definition exit_tasks :: "TASK_IO \<Rightarrow> (nat \<Rightarrow> aid \<Rightarrow> bool) \<Rightarrow> pid option \<Rightarrow> CLIENT_STATE \<Rightarrow> CLIENT_STATE" where
  "exit_tasks io reaped p s =
     (case wait_for_exit reaped 0 p (request_tasks_exit p s) of (retval, s1) \<Rightarrow>
      let s2 = (if retval \<noteq> 0 then kill_tasks p s1 else s1);
          s3 = snd (wait_for_exit reaped 10 p s2)
      in request_schedule_cpus (get_msgs io s3))"

definition abort_project :: "TASK_IO \<Rightarrow> (nat \<Rightarrow> aid \<Rightarrow> bool) \<Rightarrow> pid \<Rightarrow> CLIENT_STATE \<Rightarrow> CLIENT_STATE" where
  "abort_project io reaped p s =
     (let s1 = exit_tasks io reaped (Some p) s;
          s2 = s1\<lparr>active_tasks := filter (\<lambda>a. r_project (res s1 (at_result (task s1 a))) \<noteq> p) (active_tasks s1)\<rparr>
      in upd_proj p (\<lambda>x. x\<lparr>p_long_term_debt := 0\<rparr>) s2)"

section \<open>What the operations leave alone\<close>

lemma task_backoff [frame_simps]: "task (backoff p s) = task s"
proof -
  have e: "task (snd (calculate_exponential_backoff n mn mx s)) = task s" for n mn mx s
    using exponential_backoff_state [of n mn mx s] by auto
  show ?thesis by (simp add: backoff_def Let_def split_beta e set_min_rpc_time_def upd_proj_def)
qed

lemma task_report [frame_simps]: "task (report_result_error r m s) = task s"
  by (simp add: report_result_error_def Let_def upd_res_def task_backoff)

lemma report_result [frame_simps]:
  assumes "\<not> r_ready_to_report (res s r)"
  shows "r_ready_to_report (res (report_result_error r m s) r)"
    and "r_state (res s r) = RESULT_FILES_DOWNLOADED \<Longrightarrow> r_state (res (report_result_error r m s) r) = RESULT_COMPUTE_ERROR"
    and "r_exit_status (res s r) \<noteq> 0 \<Longrightarrow> r_exit_status (res (report_result_error r m s) r) = r_exit_status (res s r)"
  using assms by (simp_all add: report_result_error_def Let_def frame_simps upd_res_def)

lemma parse_into_view: "(\<And>v y. V (upd v y) = V y) \<Longrightarrow> V (parse_into buf tag upd x) = V x"
  by (simp add: parse_into_def split: option.split)

lemma app_status_task_view:
  assumes "\<And>x w. V (x\<lparr>at_want_network := w\<rparr>) = V x" "\<And>x c. V (x\<lparr>at_current_cpu_time := c\<rparr>) = V x"
    "\<And>x k. V (x\<lparr>at_checkpoint_cpu_time := k\<rparr>) = V x" "\<And>x f. V (x\<lparr>at_fraction_done := f\<rparr>) = V x"
  shows "V (app_status_task e buf t) = V t"
proof -
  have w: "V (case fst (parse_int_line e buf tag) of None \<Rightarrow> x | Some i \<Rightarrow> x\<lparr>at_want_network := (i \<noteq> 0)\<rparr>) = V x" for x tag
    by (simp add: assms(1) split: option.split)
  show ?thesis
    unfolding app_status_task_def Let_def assms(2,3) w by (simp add: parse_into_view [of V] assms)
qed

lemma app_status_task_frame [simp]:
  "at_task_state (app_status_task e buf t) = at_task_state t" "at_result (app_status_task e buf t) = at_result t"
  "at_premature_exit_count (app_status_task e buf t) = at_premature_exit_count t" "at_shm (app_status_task e buf t) = at_shm t"
  "at_wup (app_status_task e buf t) = at_wup t" "at_scheduler_state (app_status_task e buf t) = at_scheduler_state t"
  by (rule app_status_task_view; simp)+

lemma app_status_result_view:
  assumes "\<And>x v. V (x\<lparr>r_fpops_per_cpu_sec := v\<rparr>) = V x" "\<And>x v. V (x\<lparr>r_fpops_cumulative := v\<rparr>) = V x"
    "\<And>x v. V (x\<lparr>r_intops_per_cpu_sec := v\<rparr>) = V x" "\<And>x v. V (x\<lparr>r_intops_cumulative := v\<rparr>) = V x"
  shows "V (app_status_result buf x) = V x"
  unfolding app_status_result_def by (simp add: parse_into_view [of V] assms)

lemma app_status_result_frame [simp]:
  "r_ready_to_report (app_status_result buf x) = r_ready_to_report x" "r_state (app_status_result buf x) = r_state x"
  "r_exit_status (app_status_result buf x) = r_exit_status x" "r_project (app_status_result buf x) = r_project x"
  by (rule app_status_result_view; simp)+

text \<open>What the messages of an application cannot change.\<close>

definition msg_view where
  "msg_view s = ((\<lambda>a. (at_task_state (task s a), at_result (task s a), at_premature_exit_count (task s a), at_shm (task s a), at_wup (task s a))),
     (\<lambda>r. (r_ready_to_report (res s r), r_state (res s r), r_exit_status (res s r), r_project (res s r))),
     active_tasks s, wunit s)"

lemma msg_viewD:
  assumes "msg_view t = msg_view s"
  shows "at_task_state (task t a) = at_task_state (task s a)" "at_result (task t a) = at_result (task s a)"
    "at_premature_exit_count (task t a) = at_premature_exit_count (task s a)" "at_shm (task t a) = at_shm (task s a)"
    "at_wup (task t a) = at_wup (task s a)"
    "r_ready_to_report (res t r) = r_ready_to_report (res s r)" "r_state (res t r) = r_state (res s r)"
    "r_exit_status (res t r) = r_exit_status (res s r)" "r_project (res t r) = r_project (res s r)"
    "active_tasks t = active_tasks s" "wunit t = wunit s"
  using assms unfolding msg_view_def prod.inject fun_eq_iff by blast+

lemma view_get_app_status_msg: "msg_view (snd (get_app_status_msg io a s)) = msg_view s"
  by (simp add: get_app_status_msg_def msg_view_def fun_eq_iff upd_defs split: option.split prod.split)

lemma view_handle_upload_files: "msg_view (handle_upload_files io a s) = msg_view s"
  unfolding handle_upload_files_def
  by (rule fold_frame) (simp add: handle_upload_file_def msg_view_def upd_finfo_def split: option.split)

lemma view_get_trickle_up_msg: "msg_view (snd (get_trickle_up_msg io a s)) = msg_view s"
proof -
  have p: "msg_view (upd_proj p f u) = msg_view u" for p f u by (simp add: msg_view_def upd_proj_def)
  have t: "msg_view (upd_task a (\<lambda>t. t\<lparr>at_trickle_up := ch\<rparr>) s) = msg_view s" for ch
    by (auto simp: msg_view_def upd_task_def fun_eq_iff)
  show ?thesis
    by (simp add: get_trickle_up_msg_def Let_def view_handle_upload_files p t split: option.split prod.split)
qed

section \<open>The outcome of a process\<close>

text \<open>The state of a task after its process has ended, and whether this is a failure of its result.\<close>

definition exit_state :: "TASK_IO \<Rightarrow> wait_status \<Rightarrow> aid \<Rightarrow> ACTIVE_TASK \<Rightarrow> TASK_STATE" where
  "exit_state io stat a t =
     (if at_task_state t = PROCESS_ABORT_PENDING then PROCESS_ABORTED
      else case stat of
        Exited st \<Rightarrow> if st \<noteq> 0 \<or> tio_finish_file io a then PROCESS_EXITED
                    else if at_task_state t \<noteq> PROCESS_QUIT_PENDING \<and> at_premature_exit_count t \<ge> 100 then PROCESS_ABORTED
                    else PROCESS_UNINITIALIZED
      | Signaled got_signal raw \<Rightarrow> if got_signal \<in> set external_signals then PROCESS_UNINITIALIZED else PROCESS_WAS_SIGNALED
      | Unknown_End \<Rightarrow> PROCESS_EXIT_UNKNOWN)"

definition exit_fails :: "TASK_IO \<Rightarrow> wait_status \<Rightarrow> aid \<Rightarrow> ACTIVE_TASK \<Rightarrow> bool" where
  "exit_fails io stat a t =
     (at_task_state t \<noteq> PROCESS_ABORT_PENDING
      \<and> (case stat of
           Exited st \<Rightarrow> st \<noteq> 0 \<or> \<not> tio_finish_file io a \<and> at_task_state t \<noteq> PROCESS_QUIT_PENDING \<and> at_premature_exit_count t \<ge> 100
         | Signaled got_signal raw \<Rightarrow> got_signal \<notin> set external_signals
         | Unknown_End \<Rightarrow> True))"

definition ended_ok :: "TASK_IO \<Rightarrow> wait_status \<Rightarrow> aid \<Rightarrow> CLIENT_STATE \<Rightarrow> CLIENT_STATE \<Rightarrow> bool" where
  "ended_ok io stat a s t =
     (let r = at_result (task s a) in
      at_task_state (task t a) = exit_state io stat a (task s a)
      \<and> (if exit_fails io stat a (task s a)
         then r_ready_to_report (res t r) \<and> r_state (res t r) \<in> {RESULT_COMPUTE_ERROR, RESULT_ABORTED}
         else r_ready_to_report (res t r) = r_ready_to_report (res s r) \<and> r_state (res t r) = r_state (res s r)))"

lemma premature_exit_ok:
  assumes "\<not> r_ready_to_report (res s (at_result (task s a)))" "at_task_state (task s a) \<noteq> PROCESS_ABORT_PENDING" "\<not> tio_finish_file io a"
  shows "ended_ok io (Exited 0) a s (snd (handle_premature_exit a s))"
  using assms
  by (simp add: handle_premature_exit_def Let_def ended_ok_def exit_state_def exit_fails_def set_task_state_def upd_defs task_report
      report_result)

lemma ended_ok_cong:
  assumes "task s1 a = task s a" "r_ready_to_report (res s1 (at_result (task s a))) = r_ready_to_report (res s (at_result (task s a)))"
    "r_state (res s1 (at_result (task s a))) = r_state (res s (at_result (task s a)))"
  shows "ended_ok io stat a s1 t = ended_ok io stat a s t"
  using assms by (simp add: ended_ok_def Let_def)

lemma classify_exit_ok:
  assumes "\<not> r_ready_to_report (res s (at_result (task s a)))" "r_state (res s (at_result (task s a))) = RESULT_FILES_DOWNLOADED"
    "at_task_state (task s a) \<noteq> PROCESS_ABORT_PENDING"
  shows "ended_ok io stat a s (snd (classify_exit io stat a s))"
proof (cases stat)
  case (Exited st)
  define s1 where "s1 = upd_res (at_result (task s a)) (\<lambda>x. x\<lparr>r_exit_status := st\<rparr>) s"
  show ?thesis
  proof (cases "st = 0 \<and> \<not> tio_finish_file io a")
    case True
    have "ended_ok io (Exited 0) a s1 (snd (handle_premature_exit a s1))"
      using assms True by (intro premature_exit_ok) (simp_all add: s1_def upd_defs)
    moreover have "ended_ok io stat a s1 t = ended_ok io stat a s t" for t
      by (rule ended_ok_cong) (simp_all add: s1_def upd_defs)
    ultimately show ?thesis using True Exited by (simp add: classify_exit_def s1_def)
  next
    case False
    then show ?thesis
      using assms Exited
      by (auto simp: report_result classify_exit_def Let_def ended_ok_def exit_state_def exit_fails_def task_report s1_def
          set_task_state_def upd_defs)
  qed
next
  case (Signaled sig raw)
  then show ?thesis
    using assms
    by (simp add: report_result classify_exit_def Let_def ended_ok_def exit_state_def exit_fails_def task_report set_task_state_def upd_defs)
next
  case Unknown_End
  then show ?thesis
    using assms
    by (simp add: report_result classify_exit_def Let_def ended_ok_def exit_state_def exit_fails_def task_report set_task_state_def upd_defs)
qed

lemma ended_ok_after:
  assumes "at_task_state (task u a) = at_task_state (task t a)"
    "r_ready_to_report (res u (at_result (task s a))) = r_ready_to_report (res t (at_result (task s a)))"
    "r_state (res u (at_result (task s a))) = r_state (res t (at_result (task s a)))"
  shows "ended_ok io stat a s u = ended_ok io stat a s t"
  using assms by (simp add: ended_ok_def Let_def)

lemma classify_exit_result: "at_result (task (snd (classify_exit io stat a s)) b) = at_result (task s b)"
  by (simp add: classify_exit_def Let_def handle_premature_exit_def set_task_state_def upd_defs task_report split: wait_status.split)

lemma exit_state_gone: "\<not> process_exists t" if "at_task_state t = exit_state io stat a u" for t
  using that by (auto simp: exit_state_def process_exists_def split: wait_status.splits if_splits)

lemma ended_ok_msgs:
  assumes "msg_view s1 = msg_view s"
  shows "ended_ok io stat a s1 t = ended_ok io stat a s t"
proof -
  note v = msg_viewD [OF assms]
  have "exit_state io stat a (task s1 a) = exit_state io stat a (task s a)" "exit_fails io stat a (task s1 a) = exit_fails io stat a (task s a)"
    by (cases stat; simp add: exit_state_def exit_fails_def v)+
  then show ?thesis by (simp add: ended_ok_def Let_def v)
qed


definition sample_task_io :: TASK_IO where
  "sample_task_io = \<lparr>tio_waitpid = None, tio_finish_file = (\<lambda>_. False), tio_rename_trickle = (\<lambda>_. True), tio_slot_names = (\<lambda>_. []),
     tio_md5_file = (\<lambda>_. Inl (-108)), tio_stderr = (\<lambda>_. None), tio_procinfo = None, tio_disk = (\<lambda>_. None), tio_erange = False\<rparr>"


section \<open>After the shutdown no process is left\<close>

definition quit_view where
  "quit_view s = ((\<lambda>a. (at_wup (task s a), at_result (task s a), at_checkpoint_cpu_time (task s a))), active_tasks s, wunit s, res s)"

definition gone :: "CLIENT_STATE \<Rightarrow> CLIENT_STATE \<Rightarrow> bool" where
  "gone s t = (\<forall>a. \<not> process_exists (task s a) \<longrightarrow> \<not> process_exists (task t a))"

lemma gone_refl: "gone s s" by (simp add: gone_def)

lemma gone_trans: "gone s t \<Longrightarrow> gone t u \<Longrightarrow> gone s u" by (simp add: gone_def)

lemma quit_viewD:
  assumes "quit_view t = quit_view s"
  shows "at_wup (task t a) = at_wup (task s a)" "at_result (task t a) = at_result (task s a)"
    "at_checkpoint_cpu_time (task t a) = at_checkpoint_cpu_time (task s a)"
    "active_tasks t = active_tasks s" "wunit t = wunit s" "res t = res s" "concerns p t a = concerns p s a"
  using assms unfolding quit_view_def prod.inject fun_eq_iff by (auto simp: concerns_def split: option.split)

lemma quit_request_exit: "quit_view (snd (request_exit a s)) = quit_view s"
  by (auto simp: request_exit_def send_control_def quit_view_def upd_defs fun_eq_iff split: prod.split)

lemma quit_request_tasks_exit: "quit_view (request_tasks_exit p s) = quit_view s"
  unfolding request_tasks_exit_def by (rule fold_frame) (simp add: quit_request_exit)

lemma has_task_exited_steps:
  "quit_view (snd (has_task_exited b a s)) = quit_view s" "gone s (snd (has_task_exited b a s))"
  "fst (has_task_exited b a s) \<Longrightarrow> \<not> process_exists (task (snd (has_task_exited b a s)) a)"
  by (auto simp: has_task_exited_def cleanup_task_def set_task_state_def quit_view_def gone_def upd_defs fun_eq_iff process_exists_def)

lemma kill_task_steps:
  "quit_view (kill_task False a s) = quit_view s" "gone s (kill_task False a s)" "\<not> process_exists (task (kill_task False a s) a)"
  by (auto simp: kill_task_def cleanup_task_def set_task_state_def quit_view_def gone_def upd_defs fun_eq_iff process_exists_def Let_def)

lemma wait_round_steps:
  "quit_view (snd (wait_round reaped p as s)) = quit_view s \<and> gone s (snd (wait_round reaped p as s))
   \<and> (fst (wait_round reaped p as s) \<longrightarrow> (\<forall>a \<in> set as. concerns p s a \<longrightarrow> \<not> process_exists (task (snd (wait_round reaped p as s)) a)))"
proof (induction as arbitrary: s)
  case (Cons a as)
  show ?case
  proof (cases "concerns p s a")
    case True
    obtain b s1 where h: "has_task_exited (reaped a) a s = (b, s1)" by fastforce
    note e = has_task_exited_steps [where b = "reaped a" and a = a and s = s, unfolded h fst_conv snd_conv]
    note c = quit_viewD(7) [OF e(1)]
    show ?thesis using True h e Cons.IH [of s1] by (cases b) (auto simp: c gone_def)
  next
    case False
    then show ?thesis using Cons.IH [of s] by auto
  qed
qed (simp add: gone_refl)

lemma wait_rounds_steps:
  "quit_view (snd (wait_rounds reaped p is s)) = quit_view s \<and> gone s (snd (wait_rounds reaped p is s))
   \<and> (fst (wait_rounds reaped p is s) = 0 \<longrightarrow>
      (\<forall>a \<in> set (active_tasks s). concerns p s a \<longrightarrow> \<not> process_exists (task (snd (wait_rounds reaped p is s)) a)))"
proof (induction "is" arbitrary: s)
  case (Cons i "is")
  obtain b s1 where w: "wait_round (reaped i) p (active_tasks s) s = (b, s1)" by fastforce
  note e = wait_round_steps [of "reaped i" p "active_tasks s" s, unfolded w fst_conv snd_conv]
  note v = quit_viewD [OF conjunct1 [OF e]]
  show ?case using w e Cons.IH [of s1] by (cases b) (auto simp: v gone_def)
qed (simp add: gone_refl)

lemma kill_tasks_steps:
  "quit_view (kill_tasks p s) = quit_view s" "a \<in> set (active_tasks s) \<Longrightarrow> concerns p s a \<Longrightarrow> \<not> process_exists (task (kill_tasks p s) a)"
proof -
  define f where "f a s = (if concerns p s a \<and> process_exists (task s a) then kill_task False a s else s)" for a s
  have f: "quit_view (f a s) = quit_view s" "gone s (f a s)" for a s by (simp_all add: f_def kill_task_steps gone_refl)
  have k: "kill_tasks p s = fold f (active_tasks s) s" by (simp add: kill_tasks_def f_def [abs_def])
  show "quit_view (kill_tasks p s) = quit_view s" unfolding k by (rule fold_frame) (rule f)
  have "\<not> process_exists (task (fold f as s) a)" if "a \<in> set as" "concerns p s a" for as s
    using that
  proof (induction as arbitrary: s)
    case (Cons b as)
    have c: "concerns p (f b s) a" using Cons.prems quit_viewD(7) [OF f(1)] by simp
    show ?case
    proof (cases "a = b")
      case True
      then have "\<not> process_exists (task (f b s) a)" using Cons.prems by (simp add: f_def kill_task_steps)
      moreover have "gone (f b s) (fold f as (f b s))" by (rule fold_frame_rel) (auto intro: gone_refl gone_trans f)
      ultimately show ?thesis by (simp add: gone_def)
    qed (use Cons c in simp)
  qed simp
  then show "a \<in> set (active_tasks s) \<Longrightarrow> concerns p s a \<Longrightarrow> \<not> process_exists (task (kill_tasks p s) a)" unfolding k by blast
qed

lemma get_msgs_skips:
  assumes "\<not> process_exists (task s a)"
  shows "task (get_msgs io s) a = task s a"
proof -
  have other: "task (get_msgs_task io b u) a = task u a" if "b = a \<longrightarrow> \<not> process_exists (task u a)" for b u
  proof (cases "b = a \<or> \<not> process_exists (task u b)")
    case False
    have "task (snd (get_app_status_msg io b u)) a = task u a" for u
      using False by (simp add: get_app_status_msg_def upd_defs split: option.split prod.split)
    moreover have "task (snd (get_trickle_up_msg io b u)) a = task u a" for u
    proof -
      have "task (handle_upload_files io b u) = task u" for u
        unfolding handle_upload_files_def
        by (rule fold_frame) (simp add: handle_upload_file_def upd_finfo_def split: option.split)
      then show ?thesis using False by (simp add: get_trickle_up_msg_def upd_defs Let_def split: option.split prod.split)
    qed
    ultimately show ?thesis
      using False by (simp add: get_msgs_task_def Let_def split_beta request_enforce_schedule_def upd_task_def)
  qed (use that in \<open>auto simp: get_msgs_task_def\<close>)
  have "task (fold (get_msgs_task io) as u) a = task u a" if "\<not> process_exists (task u a)" for as u
    using that by (induction as arbitrary: u) (simp_all add: other)
  then show ?thesis using assms by (simp add: get_msgs_def)
qed

lemma exit_tasks_before_msgs:
  assumes "a \<in> set (active_tasks s)" "concerns p s a"
  obtains u where "exit_tasks io reaped p s = request_schedule_cpus (get_msgs io u)" "quit_view u = quit_view s" "\<not> process_exists (task u a)"
proof -
  define s0 where "s0 = request_tasks_exit p s"
  obtain retval s1 where w: "wait_for_exit reaped 0 p s0 = (retval, s1)" by fastforce
  define s2 where "s2 = (if retval \<noteq> 0 then kill_tasks p s1 else s1)"
  define s3 where "s3 = snd (wait_for_exit reaped 10 p s2)"
  have v0: "quit_view s0 = quit_view s" by (simp add: s0_def quit_request_tasks_exit)
  note w1 = wait_rounds_steps [of reaped p "[0..<0 + 10]" s0, folded wait_for_exit_def, unfolded w fst_conv snd_conv]
  have v1: "quit_view s1 = quit_view s" using w1 v0 by simp
  have a0: "a \<in> set (active_tasks s0)" "concerns p s0 a" "a \<in> set (active_tasks s1)" "concerns p s1 a"
    using assms quit_viewD [OF v0] quit_viewD [OF v1] by simp_all
  have v2: "quit_view s2 = quit_view s" using v1 kill_tasks_steps(1) by (simp add: s2_def)
  have g2: "\<not> process_exists (task s2 a)" using w1 a0 kill_tasks_steps(2) by (auto simp: s2_def)
  note w2 = wait_rounds_steps [of reaped p "[10..<10 + 10]" s2, folded wait_for_exit_def, folded s3_def]
  have "quit_view s3 = quit_view s" using w2 v2 by simp
  moreover have "\<not> process_exists (task s3 a)" using w2 g2 by (auto simp: gone_def)
  moreover have "exit_tasks io reaped p s = request_schedule_cpus (get_msgs io s3)"
    by (simp add: exit_tasks_def s0_def [symmetric] w s2_def [symmetric] s3_def Let_def)
  ultimately show thesis using that by blast
qed

text \<open>C27: When the tasks of a project, or all tasks, are made to exit, no process of theirs is left at the end,
  however they react; and the checkpoint times are those from before the request: the messages that
  the applications left when they quit are never read, since their processes are gone by then.\<close>
theorem exit_tasks_ends_all:
  assumes "a \<in> set (active_tasks s)" "concerns p s a"
  shows "\<not> process_exists (task (exit_tasks io reaped p s) a)
    \<and> at_checkpoint_cpu_time (task (exit_tasks io reaped p s) a) = at_checkpoint_cpu_time (task s a)"
proof -
  obtain u where u: "exit_tasks io reaped p s = request_schedule_cpus (get_msgs io u)" "quit_view u = quit_view s" "\<not> process_exists (task u a)"
    using exit_tasks_before_msgs [OF assms] by blast
  then show ?thesis using get_msgs_skips [OF u(3)] quit_viewD(3) [OF u(2)] by (simp add: request_schedule_cpus_def)
qed

theorem exit_tasks_ends_all_witness:
  "let s = sample_state\<lparr>active_tasks := [0], task := (\<lambda>_. sample_task\<lparr>at_task_state := PROCESS_EXECUTING, at_shm := True,
             at_checkpoint_cpu_time := 5, at_app_status := Some ''<checkpoint_cpu_time>9</checkpoint_cpu_time>''\<rparr>)\<rparr>;
       t = exit_tasks sample_task_io (\<lambda>_ _. False) (Some 0) s
   in \<not> process_exists (task t 0) \<and> at_checkpoint_cpu_time (task t 0) = 5"
proof -
  define s where "s = sample_state\<lparr>active_tasks := [0], task := (\<lambda>_. sample_task\<lparr>at_task_state := PROCESS_EXECUTING, at_shm := True,
    at_checkpoint_cpu_time := 5, at_app_status := Some ''<checkpoint_cpu_time>9</checkpoint_cpu_time>''\<rparr>)\<rparr>"
  have "0 \<in> set (active_tasks s)" "concerns (Some 0) s 0" "at_checkpoint_cpu_time (task s 0) = 5"
    by (simp_all add: s_def concerns_def sample_defs)
  then show ?thesis
    using exit_tasks_ends_all [of 0 s "Some 0" sample_task_io "\<lambda>_ _. False"] unfolding s_def [symmetric] by (simp add: Let_def)
qed

end
