(* ===== verification/Project_Reset.thy ===== *)
theory Project_Reset
  imports View_Frame Task_Exit
begin

text \<open>
  Resetting a project and detaching from it, and the end of the client (\<open>reset_project\<close>, \<open>detach_project\<close> and
  \<open>quit_activities\<close> of \<open>client/client_state.C\<close>). The objects of a project refer to each other only; so
  when its tasks, transfers, results, versions, applications and files go in the right order, no
  pointer to any of them is left. The files on the disk that detaching deletes are not modelled.
\<close>

section \<open>Resetting\<close>

text \<open>The destructors \<open>~FILE_XFER\<close> and \<open>~PERS_FILE_XFER\<close> are \<open>delete_fxp\<close> and the update of the file.\<close>

definition reset_transfer :: "pid \<Rightarrow> pfxid \<Rightarrow> CLIENT_STATE \<Rightarrow> CLIENT_STATE" where
  "reset_transfer p k s =
     (if fi_project (finfo s (pfx_fip (pxfer s k))) \<noteq> p then s
      else let s1 = (case pfx_fxp (pxfer s k) of None \<Rightarrow> s | Some x \<Rightarrow> delete_fxp x (snd (fxs_remove x s)));
               s2 = snd (pfxs_remove k s1)
           in upd_finfo (pfx_fip (pxfer s2 k)) (\<lambda>f. f\<lparr>fi_pers_file_xfer := None\<rparr>) s2)"

definition reset_transfers :: "pid \<Rightarrow> CLIENT_STATE \<Rightarrow> CLIENT_STATE" where
  "reset_transfers p s = fold (reset_transfer p) (pers_file_xfers s) s"

definition ack_results :: "pid \<Rightarrow> CLIENT_STATE \<Rightarrow> CLIENT_STATE" where
  "ack_results p s = fold (\<lambda>r s. if r_project (res s r) = p then upd_res r (\<lambda>x. x\<lparr>r_got_server_ack := True\<rparr>) s else s) (results s) s"

definition erase_apps :: "pid \<Rightarrow> CLIENT_STATE \<Rightarrow> CLIENT_STATE" where
  "erase_apps p s = s\<lparr>app_versions := filter (\<lambda>v. av_project (appver s v) \<noteq> p) (app_versions s),
     apps := filter (\<lambda>a. app_project (appl s a) \<noteq> p) (apps s)\<rparr>"

definition reset_project :: "TASK_IO \<Rightarrow> (nat \<Rightarrow> aid \<Rightarrow> bool) \<Rightarrow> pid \<Rightarrow> bool \<Rightarrow> CLIENT_STATE \<Rightarrow> CLIENT_STATE" where
  "reset_project io reaped p detaching s =
     (let s1 = op_abort p (reset_transfers p (abort_project io reaped p s));
          s2 = upd_proj p (\<lambda>x. x\<lparr>p_user_files := [], p_project_files := []\<rparr>) (ack_results p s1);
          s3 = (snd (garbage_collect_always s2))\<lparr>ordered_scheduled_results := []\<rparr>;
          s4 = (if \<not> p_anonymous_platform (proj s3 p) \<or> detaching
                then snd (garbage_collect_always (erase_apps p s3)) else s3)
      in upd_proj p (\<lambda>x. x\<lparr>p_ams_resource_share := -1, p_min_rpc_time := 0\<rparr>) s4)"

text \<open>
  The destructor \<open>~FILE_INFO\<close> would clear the pointer of a transfer to the file; the files that are
  erased here have none, as shown below.
\<close>

definition detach_project :: "TASK_IO \<Rightarrow> (nat \<Rightarrow> aid \<Rightarrow> bool) \<Rightarrow> pid \<Rightarrow> CLIENT_STATE \<Rightarrow> CLIENT_STATE" where
  "detach_project io reaped p s =
     (let s1 = reset_project io reaped p True s;
          s2 = s1\<lparr>file_infos := filter (\<lambda>f. fi_project (finfo s1 f) \<noteq> p) (file_infos s1)\<rparr>;
          s3 = (if lookup_project s2 (gp_source_project (global_prefs s2)) = Some p
                then s2\<lparr>global_prefs := GLOBAL_PREFS_defaults (global_prefs s2)\<rparr> else s2);
          s4 = s3\<lparr>projects := remove1 p (projects s3)\<rparr>
      in request_work_fetch (request_schedule_cpus (adjust_debts s4)))"

definition quit_activities :: "TASK_IO \<Rightarrow> (nat \<Rightarrow> aid \<Rightarrow> bool) \<Rightarrow> CLIENT_STATE \<Rightarrow> CLIENT_STATE" where
  "quit_activities io reaped s = exit_tasks io reaped None (adjust_debts s)"

section \<open>Who owns what\<close>

text \<open>Every object belongs to an attached project and refers to objects of the same project only.\<close>

definition refs_within :: "CLIENT_STATE \<Rightarrow> pid \<Rightarrow> fid list \<Rightarrow> bool" where
  "refs_within s p fs = (\<forall>f \<in> set fs. fi_project (finfo s f) = p)"

definition app_within :: "CLIENT_STATE \<Rightarrow> pid \<Rightarrow> appid \<Rightarrow> bool" where
  "app_within s p a = (a \<in> set (apps s) \<and> app_project (appl s a) = p)"

definition same_project :: "CLIENT_STATE \<Rightarrow> bool" where
  "same_project s =
     ((\<forall>r \<in> set (results s). r_project (res s r) \<in> set (projects s)
         \<and> wu_project (wunit s (r_wup (res s r))) = r_project (res s r)
         \<and> av_project (appver s (r_avp (res s r))) = r_project (res s r)
         \<and> app_within s (r_project (res s r)) (r_app (res s r)) \<and> refs_within s (r_project (res s r)) (output_refs s r))
      \<and> (\<forall>w \<in> set (workunits s). wu_project (wunit s w) \<in> set (projects s)
         \<and> app_within s (wu_project (wunit s w)) (wu_app (wunit s w)) \<and> refs_within s (wu_project (wunit s w)) (input_refs s w))
      \<and> (\<forall>v \<in> set (app_versions s). av_project (appver s v) \<in> set (projects s)
         \<and> app_within s (av_project (appver s v)) (av_app (appver s v)) \<and> refs_within s (av_project (appver s v)) (app_refs s v))
      \<and> (\<forall>a \<in> set (apps s). app_project (appl s a) \<in> set (projects s))
      \<and> (\<forall>p \<in> set (projects s). refs_within s p (project_refs s p))
      \<and> (\<forall>f \<in> set (file_infos s). fi_project (finfo s f) \<in> set (projects s)))"

text \<open>A file and its transfer know each other, and every operation belongs to a transfer.\<close>

definition transfers_linked :: "CLIENT_STATE \<Rightarrow> bool" where
  "transfers_linked s =
     (distinct (pers_file_xfers s) \<and> distinct (file_xfers s)
      \<and> (\<forall>k \<in> set (pers_file_xfers s). fi_pers_file_xfer (finfo s (pfx_fip (pxfer s k))) = Some k
          \<and> (\<forall>x. pfx_fxp (pxfer s k) = Some x \<longrightarrow> fx_fip (fxfer s x) = pfx_fip (pxfer s k)))
      \<and> (\<forall>x \<in> set (file_xfers s). \<exists>k \<in> set (pers_file_xfers s). pfx_fxp (pxfer s k) = Some x))"

definition well_owned :: "CLIENT_STATE \<Rightarrow> bool" where
  "well_owned s = (no_dangling s \<and> same_project s \<and> transfers_linked s
     \<and> (so_state (sched_op s) \<noteq> SCHEDULER_OP_STATE_IDLE \<longrightarrow> (\<exists>p \<in> set (projects s). so_cur_proj (sched_op s) = Some p)))"

text \<open>What all this depends on.\<close>

definition reach_view where
  "reach_view s =
     (projects s, results s, active_tasks s, app_versions s, workunits s, file_infos s, pers_file_xfers s, file_xfers s,
      apps s, appl s, pxfer s, sched_op s, (\<lambda>x. fx_fip (fxfer s x)),
      (\<lambda>v. (av_app_files (appver s v), av_project (appver s v), av_app (appver s v))),
      (\<lambda>w. (wu_input_files (wunit s w), wu_project (wunit s w), wu_app (wunit s w))),
      (\<lambda>f. (fi_pers_file_xfer (finfo s f), fi_project (finfo s f))),
      (\<lambda>p. (p_user_files (proj s p), p_project_files (proj s p), p_anonymous_platform (proj s p))),
      (\<lambda>r. (r_wup (res s r), r_avp (res s r), r_output_files (res s r), r_project (res s r), r_app (res s r),
            r_got_server_ack (res s r))),
      (\<lambda>a. (at_result (task s a), at_wup (task s a), at_app_version (task s a))))"

lemma reach_viewD:
  assumes "reach_view t = reach_view s"
  shows "projects t = projects s" "results t = results s" "active_tasks t = active_tasks s" "app_versions t = app_versions s"
    "workunits t = workunits s" "file_infos t = file_infos s" "pers_file_xfers t = pers_file_xfers s" "file_xfers t = file_xfers s"
    "apps t = apps s" "appl t = appl s" "pxfer t = pxfer s" "sched_op t = sched_op s"
    "fx_fip (fxfer t x) = fx_fip (fxfer s x)"
    "av_app_files (appver t v) = av_app_files (appver s v)" "av_project (appver t v) = av_project (appver s v)"
    "av_app (appver t v) = av_app (appver s v)"
    "wu_input_files (wunit t w) = wu_input_files (wunit s w)" "wu_project (wunit t w) = wu_project (wunit s w)"
    "wu_app (wunit t w) = wu_app (wunit s w)"
    "fi_pers_file_xfer (finfo t f) = fi_pers_file_xfer (finfo s f)" "fi_project (finfo t f) = fi_project (finfo s f)"
    "p_user_files (proj t p) = p_user_files (proj s p)" "p_project_files (proj t p) = p_project_files (proj s p)"
    "p_anonymous_platform (proj t p) = p_anonymous_platform (proj s p)"
    "r_wup (res t r) = r_wup (res s r)" "r_avp (res t r) = r_avp (res s r)" "r_output_files (res t r) = r_output_files (res s r)"
    "r_project (res t r) = r_project (res s r)" "r_app (res t r) = r_app (res s r)"
    "r_got_server_ack (res t r) = r_got_server_ack (res s r)"
    "at_result (task t a) = at_result (task s a)" "at_wup (task t a) = at_wup (task s a)"
    "at_app_version (task t a) = at_app_version (task s a)"
  using assms unfolding reach_view_def prod.inject fun_eq_iff by blast+

lemma reach_pointers:
  assumes "reach_view t = reach_view s"
  shows "no_dangling t = no_dangling s" "same_project t = same_project s" "transfers_linked t = transfers_linked s"
    "project_refs t = project_refs s"
proof -
  note v = reach_viewD [OF assms]
  have refs: "output_refs t = output_refs s" "input_refs t = input_refs s" "app_refs t = app_refs s"
    "project_refs t = project_refs s" "transfer_refs t = transfer_refs s"
    by (simp_all add: fun_eq_iff output_refs_def input_refs_def app_refs_def project_refs_def transfer_refs_def v)
  show "no_dangling t = no_dangling s" by (simp add: no_dangling_def refs v)
  show "same_project t = same_project s" by (simp add: same_project_def refs_within_def app_within_def refs v)
  show "transfers_linked t = transfers_linked s" by (simp add: transfers_linked_def v)
  show "project_refs t = project_refs s" by (rule refs)
qed

lemma reach_well_owned:
  assumes "reach_view t = reach_view s"
  shows "well_owned t = well_owned s"
  by (simp add: well_owned_def reach_pointers [OF assms] reach_viewD(1,12) [OF assms])

lemma reach_upds [simp]:
  "(\<And>x. fi_pers_file_xfer (f1 x) = fi_pers_file_xfer x \<and> fi_project (f1 x) = fi_project x)
    \<Longrightarrow> reach_view (upd_finfo i1 f1 s) = reach_view s"
  "(\<And>x. r_wup (f2 x) = r_wup x \<and> r_avp (f2 x) = r_avp x \<and> r_output_files (f2 x) = r_output_files x \<and> r_project (f2 x) = r_project x
      \<and> r_app (f2 x) = r_app x \<and> r_got_server_ack (f2 x) = r_got_server_ack x) \<Longrightarrow> reach_view (upd_res i2 f2 s) = reach_view s"
  "(\<And>x. at_result (f5 x) = at_result x \<and> at_wup (f5 x) = at_wup x \<and> at_app_version (f5 x) = at_app_version x)
    \<Longrightarrow> reach_view (upd_task i5 f5 s) = reach_view s"
  "(\<And>x. p_user_files (f6 x) = p_user_files x \<and> p_project_files (f6 x) = p_project_files x \<and> p_anonymous_platform (f6 x) = p_anonymous_platform x)
    \<Longrightarrow> reach_view (upd_proj i6 f6 s) = reach_view s"
  by (auto simp: reach_view_def upd_defs fun_eq_iff)

lemma reach_fields [simp]:
  "reach_view (s\<lparr>retry_shmem_time := v1\<rparr>) = reach_view s" "reach_view (s\<lparr>must_enforce_cpu_schedule := v2\<rparr>) = reach_view s"
  "reach_view (s\<lparr>must_schedule_cpus := v3\<rparr>) = reach_view s" "reach_view (s\<lparr>must_check_work_fetch := v4\<rparr>) = reach_view s"
  "reach_view (s\<lparr>ordered_scheduled_results := v5\<rparr>) = reach_view s" "reach_view (s\<lparr>global_prefs := v6\<rparr>) = reach_view s"
  "reach_view (s\<lparr>time_stats := v7\<rparr>) = reach_view s" "reach_view (s\<lparr>debt_interval_start := v8\<rparr>) = reach_view s"
  "reach_view (s\<lparr>total_wall_cpu_time_this_debt_interval := v9\<rparr>) = reach_view s"
  "reach_view (s\<lparr>total_cpu_time_this_debt_interval := v10\<rparr>) = reach_view s"
  by (simp_all add: reach_view_def)

section \<open>Making the tasks exit keeps the pointers\<close>

lemma reach_exit_steps [simp]:
  "reach_view (snd (request_exit a s)) = reach_view s" "reach_view (snd (has_task_exited b a s)) = reach_view s"
  "reach_view (kill_task restart a s) = reach_view s"
proof -
  have c: "reach_view (cleanup_task a s) = reach_view s" for s by (simp add: cleanup_task_def)
  show "reach_view (snd (request_exit a s)) = reach_view s" by (simp add: request_exit_def send_control_def split: prod.split)
  show "reach_view (snd (has_task_exited b a s)) = reach_view s" by (simp add: has_task_exited_def set_task_state_def c)
  show "reach_view (kill_task restart a s) = reach_view s"
    by (simp add: kill_task_def Let_def set_task_state_def request_enforce_schedule_def c)
qed

lemma reach_wait_round [simp]: "reach_view (snd (wait_round reaped p as s)) = reach_view s"
proof (induction as arbitrary: s)
  case (Cons a as)
  obtain b s1 where h: "has_task_exited (reaped a) a s = (b, s1)" by fastforce
  have "reach_view s1 = reach_view s" using reach_exit_steps(2) [of "reaped a" a s] h by simp
  then show ?case using Cons.IH h by (cases b) simp_all
qed simp

lemma reach_wait_for_exit [simp]: "reach_view (snd (wait_for_exit reaped i p s)) = reach_view s"
proof -
  have "reach_view (snd (wait_rounds reaped p js s)) = reach_view s" for js
  proof (induction js arbitrary: s)
    case (Cons j js)
    obtain b s1 where w: "wait_round (reaped j) p (active_tasks s) s = (b, s1)" by fastforce
    have "reach_view s1 = reach_view s" using reach_wait_round [of "reaped j" p "active_tasks s" s] w by simp
    then show ?case using Cons.IH w by (cases b) simp_all
  qed simp
  then show ?thesis by (simp add: wait_for_exit_def)
qed

lemma app_status_links [simp]:
  "at_app_version (app_status_task e buf t) = at_app_version t"
  "r_wup (app_status_result buf x) = r_wup x" "r_avp (app_status_result buf x) = r_avp x"
  "r_output_files (app_status_result buf x) = r_output_files x" "r_app (app_status_result buf x) = r_app x"
  "r_got_server_ack (app_status_result buf x) = r_got_server_ack x"
  by (rule app_status_task_view app_status_result_view; simp)+

lemma reach_get_msgs [simp]: "reach_view (get_msgs io s) = reach_view s"
proof -
  have st: "reach_view (snd (get_app_status_msg io a s)) = reach_view s" for a s
    by (simp add: get_app_status_msg_def split: option.split prod.split)
  have up: "reach_view (handle_upload_files io a s) = reach_view s" for a s
    unfolding handle_upload_files_def
    by (rule fold_frame) (simp add: handle_upload_file_def split: option.split sum.split prod.split)
  have tr: "reach_view (snd (get_trickle_up_msg io a s)) = reach_view s" for a s
    by (simp add: get_trickle_up_msg_def Let_def up split: option.split prod.split)
  have "reach_view (get_msgs_task io a s) = reach_view s" for a s
    by (simp add: get_msgs_task_def Let_def split_beta tr st request_enforce_schedule_def)
  then show ?thesis unfolding get_msgs_def by (intro fold_frame)
qed

lemma reach_exit_tasks: "reach_view (exit_tasks io reaped p s) = reach_view s"
proof -
  have r: "reach_view (request_tasks_exit p s) = reach_view s" unfolding request_tasks_exit_def by (rule fold_frame) simp
  have k: "reach_view (kill_tasks p s) = reach_view s" for s unfolding kill_tasks_def by (rule fold_frame) simp
  obtain retval s1 where w: "wait_for_exit reaped 0 p (request_tasks_exit p s) = (retval, s1)" by fastforce
  have "reach_view s1 = reach_view s" using reach_wait_for_exit [of reaped 0 p "request_tasks_exit p s"] w r by simp
  then show ?thesis by (simp add: exit_tasks_def w Let_def request_schedule_cpus_def k)
qed

lemma reach_adjust_debts: "reach_view (adjust_debts s) = reach_view s"
proof -
  have r: "reach_view (reset_debt_accounting s) = reach_view s" for s
    unfolding reset_debt_accounting_def Let_def by (simp add: fold_frame [of _ reach_view])
  have c: "reach_view (fold (charge_task w) as s) = reach_view s" for w as s
    by (rule fold_frame) (simp add: charge_task_def Let_def)
  have n: "reach_view (fold (normalize_project al ast) ps s) = reach_view s" for al ast ps s
    by (rule fold_frame) (simp add: normalize_project_def Let_def)
  have "reach_view (fst (fold (credit_project prrs rrs) ps st)) = reach_view (fst st)" for prrs rrs ps st
    using fold_frame [of ps "\<lambda>st. reach_view (fst st)" "credit_project prrs rrs" st]
    by (simp add: credit_project_def Let_def split: prod.split)
  then have k: "fold (credit_project prrs rrs) ps (t, d) = (u, d') \<Longrightarrow> reach_view u = reach_view t" for prrs rrs ps t d u d'
    by (metis fst_conv)
  show ?thesis by (auto simp: adjust_debts_def Let_def c n r dest!: k split: prod.split)
qed

section \<open>Removing the transfers\<close>

lemma set_bandwidth_limits_state:
  obtains F where "set_bandwidth_limits up s = s\<lparr>fxfer := F\<rparr>" "\<And>x. fx_fip (F x) = fx_fip (fxfer s x)"
proof -
  define f where "f sh x s = (if same_direction s up x then upd_fxfer x (\<lambda>f. f\<lparr>fx_speed_limit := sh\<rparr>) s else s)" for sh x s
  have "\<exists>F. fold (f sh) xs s = s\<lparr>fxfer := F\<rparr> \<and> (\<forall>x. fx_fip (F x) = fx_fip (fxfer s x))" for sh xs s
  proof (induction xs arbitrary: s)
    case Nil
    show ?case by (rule exI [of _ "fxfer s"]) simp
  next
    case (Cons y xs)
    obtain G where g: "f sh y s = s\<lparr>fxfer := G\<rparr>" "\<And>x. fx_fip (G x) = fx_fip (fxfer s x)"
    proof (cases "same_direction s up y")
      case True
      show ?thesis by (rule that [of "(fxfer s)(y := (fxfer s y)\<lparr>fx_speed_limit := sh\<rparr>)"]) (auto simp: f_def True upd_fxfer_def)
    next
      case False
      show ?thesis by (rule that [of "fxfer s"]) (simp_all add: f_def False)
    qed
    then show ?case using Cons.IH [of "f sh y s"] by fastforce
  qed
  then have "\<exists>F. set_bandwidth_limits up s = s\<lparr>fxfer := F\<rparr> \<and> (\<forall>x. fx_fip (F x) = fx_fip (fxfer s x))"
    unfolding set_bandwidth_limits_def f_def [symmetric, abs_def] by (auto simp: Let_def intro: exI [of _ "fxfer s"])
  then show thesis using that by blast
qed

lemma fxs_remove_state:
  obtains F where "snd (fxs_remove x s) = s\<lparr>fxfer := F, file_xfers := remove1 x (file_xfers s)\<rparr>"
    "\<And>x. fx_fip (F x) = fx_fip (fxfer s x)"
proof (cases "x \<in> set (file_xfers s)")
  case True
  define t where "t = s\<lparr>file_xfers := remove1 x (file_xfers s)\<rparr>"
  obtain F where F: "set_bandwidth_limits (fx_is_upload (fxfer s x)) t = t\<lparr>fxfer := F\<rparr>" "\<And>x. fx_fip (F x) = fx_fip (fxfer t x)"
    using set_bandwidth_limits_state [of "fx_is_upload (fxfer s x)" t] by blast
  show thesis by (rule that [of F]) (use F True in \<open>simp_all add: fxs_remove_def t_def [symmetric]\<close>, simp_all add: t_def)
next
  case False
  show thesis by (rule that [of "fxfer s"]) (simp_all add: fxs_remove_def False remove1_idem)
qed

lemma reset_transfer_state:
  assumes "transfers_linked s" "k \<in> set (pers_file_xfers s)" "fi_project (finfo s (pfx_fip (pxfer s k))) = p"
  obtains F where "\<And>x. fx_fip (F x) = fx_fip (fxfer s x)"
    "reset_transfer p k s = s\<lparr>fxfer := F,
       file_xfers := (case pfx_fxp (pxfer s k) of None \<Rightarrow> file_xfers s | Some x \<Rightarrow> remove1 x (file_xfers s)),
       pxfer := (pxfer s)(k := (pxfer s k)\<lparr>pfx_fxp := None\<rparr>), pers_file_xfers := remove1 k (pers_file_xfers s),
       finfo := (finfo s)(pfx_fip (pxfer s k) := (finfo s (pfx_fip (pxfer s k)))\<lparr>fi_pers_file_xfer := None\<rparr>)\<rparr>"
proof (cases "pfx_fxp (pxfer s k)")
  case None
  then have "(pxfer s)(k := (pxfer s k)\<lparr>pfx_fxp := None\<rparr>) = pxfer s" by (simp add: fun_upd_idem)
  then show thesis
    using that [of "fxfer s"] None assms(2,3) by (simp add: reset_transfer_def pfxs_remove_def upd_finfo_def Let_def)
next
  case (Some x)
  obtain F where F: "snd (fxs_remove x s) = s\<lparr>fxfer := F, file_xfers := remove1 x (file_xfers s)\<rparr>"
    "\<And>y. fx_fip (F y) = fx_fip (fxfer s y)"
    using fxs_remove_state by blast
  have "fx_fip (F x) = pfx_fip (pxfer s k)" "fi_pers_file_xfer (finfo s (pfx_fip (pxfer s k))) = Some k"
    using assms Some F(2) by (auto simp: transfers_linked_def)
  then show thesis
    using that [OF F(2)] Some assms(2,3)
    by (simp add: reset_transfer_def F(1) delete_fxp_def upd_pxfer_def pfxs_remove_def upd_finfo_def Let_def)
qed

text \<open>What removing a transfer leaves alone.\<close>

definition transfer_frame where
  "transfer_frame s = ((projects s, results s, active_tasks s, app_versions s, workunits s, file_infos s, apps s, appl s, sched_op s),
     (appver s, wunit s, proj s, res s, task s, global_prefs s),
     (\<lambda>k. pfx_fip (pxfer s k)), (\<lambda>x. fx_fip (fxfer s x)), (\<lambda>f. fi_project (finfo s f)))"

lemma transfer_frameD:
  assumes "transfer_frame t = transfer_frame s"
  shows "projects t = projects s" "results t = results s" "active_tasks t = active_tasks s" "app_versions t = app_versions s"
    "workunits t = workunits s" "file_infos t = file_infos s" "apps t = apps s" "appl t = appl s" "sched_op t = sched_op s"
    "appver t = appver s" "wunit t = wunit s" "proj t = proj s" "res t = res s" "task t = task s" "global_prefs t = global_prefs s"
    "pfx_fip (pxfer t k) = pfx_fip (pxfer s k)" "fx_fip (fxfer t x) = fx_fip (fxfer s x)" "fi_project (finfo t f) = fi_project (finfo s f)"
  using assms unfolding transfer_frame_def prod.inject fun_eq_iff by blast+

lemma transfer_frame_refs:
  assumes "transfer_frame t = transfer_frame s"
  shows "output_refs t = output_refs s" "input_refs t = input_refs s" "app_refs t = app_refs s" "project_refs t = project_refs s"
    "same_project t = same_project s"
proof -
  note v = transfer_frameD [OF assms]
  show refs: "output_refs t = output_refs s" "input_refs t = input_refs s" "app_refs t = app_refs s" "project_refs t = project_refs s"
    by (simp_all add: fun_eq_iff output_refs_def input_refs_def app_refs_def project_refs_def v)
  show "same_project t = same_project s" by (simp add: same_project_def refs_within_def app_within_def refs v)
qed

abbreviation pfx_project :: "CLIENT_STATE \<Rightarrow> pfxid \<Rightarrow> pid" where
  "pfx_project s k \<equiv> fi_project (finfo s (pfx_fip (pxfer s k)))"

lemma reset_transfer_frame:
  assumes "transfers_linked s" "k \<in> set (pers_file_xfers s)"
  shows "transfer_frame (reset_transfer p k s) = transfer_frame s"
proof (cases "pfx_project s k = p")
  case True
  obtain F where F: "\<And>x. fx_fip (F x) = fx_fip (fxfer s x)"
    "reset_transfer p k s = s\<lparr>fxfer := F,
       file_xfers := (case pfx_fxp (pxfer s k) of None \<Rightarrow> file_xfers s | Some x \<Rightarrow> remove1 x (file_xfers s)),
       pxfer := (pxfer s)(k := (pxfer s k)\<lparr>pfx_fxp := None\<rparr>), pers_file_xfers := remove1 k (pers_file_xfers s),
       finfo := (finfo s)(pfx_fip (pxfer s k) := (finfo s (pfx_fip (pxfer s k)))\<lparr>fi_pers_file_xfer := None\<rparr>)\<rparr>"
    using reset_transfer_state [OF assms True] by blast
  show ?thesis unfolding F(2) by (auto simp: transfer_frame_def F(1) fun_eq_iff)
qed (simp add: reset_transfer_def)

lemma reset_transfer_vectors:
  assumes "transfers_linked s" "k \<in> set (pers_file_xfers s)" "pfx_project s k = p"
  defines "t \<equiv> reset_transfer p k s"
  shows "pers_file_xfers t = remove1 k (pers_file_xfers s)"
    "file_xfers t = (case pfx_fxp (pxfer s k) of None \<Rightarrow> file_xfers s | Some x \<Rightarrow> remove1 x (file_xfers s))"
    "pfx_fxp (pxfer t j) = (if j = k then None else pfx_fxp (pxfer s j))"
    "fi_pers_file_xfer (finfo t f) = (if f = pfx_fip (pxfer s k) then None else fi_pers_file_xfer (finfo s f))"
proof -
  obtain F where "t = s\<lparr>fxfer := F,
       file_xfers := (case pfx_fxp (pxfer s k) of None \<Rightarrow> file_xfers s | Some x \<Rightarrow> remove1 x (file_xfers s)),
       pxfer := (pxfer s)(k := (pxfer s k)\<lparr>pfx_fxp := None\<rparr>), pers_file_xfers := remove1 k (pers_file_xfers s),
       finfo := (finfo s)(pfx_fip (pxfer s k) := (finfo s (pfx_fip (pxfer s k)))\<lparr>fi_pers_file_xfer := None\<rparr>)\<rparr>"
    unfolding t_def using reset_transfer_state [OF assms(1-3)] by blast
  then show "pers_file_xfers t = remove1 k (pers_file_xfers s)"
    "file_xfers t = (case pfx_fxp (pxfer s k) of None \<Rightarrow> file_xfers s | Some x \<Rightarrow> remove1 x (file_xfers s))"
    "pfx_fxp (pxfer t j) = (if j = k then None else pfx_fxp (pxfer s j))"
    "fi_pers_file_xfer (finfo t f) = (if f = pfx_fip (pxfer s k) then None else fi_pers_file_xfer (finfo s f))"
    by simp_all
qed

lemma reset_transfer_linked:
  assumes "transfers_linked s" "k \<in> set (pers_file_xfers s)"
  shows "transfers_linked (reset_transfer p k s)"
proof (cases "pfx_project s k = p")
  case True
  define t where "t = reset_transfer p k s"
  note d = transfer_frameD [OF reset_transfer_frame [OF assms, of p], folded t_def]
  note v = reset_transfer_vectors [OF assms True, folded t_def]
  have l: "distinct (pers_file_xfers s)" "distinct (file_xfers s)"
    "\<And>j. j \<in> set (pers_file_xfers s) \<Longrightarrow> fi_pers_file_xfer (finfo s (pfx_fip (pxfer s j))) = Some j"
    "\<And>j x. j \<in> set (pers_file_xfers s) \<Longrightarrow> pfx_fxp (pxfer s j) = Some x \<Longrightarrow> fx_fip (fxfer s x) = pfx_fip (pxfer s j)"
    "\<And>x. x \<in> set (file_xfers s) \<Longrightarrow> \<exists>j \<in> set (pers_file_xfers s). pfx_fxp (pxfer s j) = Some x"
    using assms(1) by (auto simp: transfers_linked_def)
  have inj: "pfx_fip (pxfer s j) \<noteq> pfx_fip (pxfer s k)" if "j \<in> set (pers_file_xfers s)" "j \<noteq> k" for j
    using l(3) [OF that(1)] l(3) [OF assms(2)] that(2) by auto
  have "\<exists>j \<in> set (pers_file_xfers t). pfx_fxp (pxfer t j) = Some x" if x: "x \<in> set (file_xfers t)" for x
  proof -
    have "x \<in> set (file_xfers s)" "pfx_fxp (pxfer s k) \<noteq> Some x"
      using x l(2) by (auto simp: v(2) set_remove1_eq dest: notin_set_remove1 split: option.splits)
    then obtain j where "j \<in> set (pers_file_xfers s)" "pfx_fxp (pxfer s j) = Some x" "j \<noteq> k" using l(5) by blast
    then show ?thesis using l(1) by (auto simp: v set_remove1_eq)
  qed
  moreover have "distinct (file_xfers t)" using l(2) by (simp add: v split: option.split)
  ultimately show ?thesis
    using l inj unfolding t_def [symmetric] transfers_linked_def by (auto simp: v d set_remove1_eq)
qed (use assms in \<open>simp add: reset_transfer_def\<close>)

lemma reset_transfer_no_dangling:
  assumes "transfers_linked s" "k \<in> set (pers_file_xfers s)" "no_dangling s"
  shows "no_dangling (reset_transfer p k s)"
proof (cases "pfx_project s k = p")
  case True
  define t where "t = reset_transfer p k s"
  note d = transfer_frameD [OF reset_transfer_frame [OF assms(1,2), of p], folded t_def]
  note r = transfer_frame_refs [OF reset_transfer_frame [OF assms(1,2), of p], folded t_def]
  note v = reset_transfer_vectors [OF assms(1,2) True, folded t_def]
  have "set (file_xfers t) \<subseteq> set (file_xfers s)" "set (pers_file_xfers t) \<subseteq> set (pers_file_xfers s)"
    by (simp_all add: v set_remove1_subset split: option.split)
  then have tr: "set (transfer_refs t) \<subseteq> set (transfer_refs s)" by (auto simp: transfer_refs_def d)
  have "j \<in> set (pers_file_xfers t) \<and> pfx_fip (pxfer t j) = f"
    if "f \<in> set (file_infos s)" "fi_pers_file_xfer (finfo t f) = Some j" for f j
  proof -
    have f: "f \<noteq> pfx_fip (pxfer s k)" "fi_pers_file_xfer (finfo s f) = Some j" using that(2) by (auto simp: v split: if_splits)
    then have j: "j \<in> set (pers_file_xfers s)" "pfx_fip (pxfer s j) = f" using assms(3) that(1) by (auto simp: no_dangling_def)
    then have "j \<noteq> k" using f(1) by auto
    then show ?thesis using j by (simp add: v d)
  qed
  then show ?thesis
    using assms(3) tr unfolding t_def [symmetric] no_dangling_def d r by blast
qed (use assms in \<open>simp add: reset_transfer_def\<close>)

lemma reset_transfers_keep:
  fixes p :: pid
  assumes "no_dangling s" "transfers_linked s"
  defines "t \<equiv> reset_transfers p s"
  shows "transfer_frame t = transfer_frame s" "no_dangling t" "transfers_linked t"
    "pers_file_xfers t = filter (\<lambda>k. pfx_project s k \<noteq> p) (pers_file_xfers s)"
proof -
  have "transfer_frame (fold (reset_transfer p) ks u) = transfer_frame u \<and> no_dangling (fold (reset_transfer p) ks u)
      \<and> transfers_linked (fold (reset_transfer p) ks u)
      \<and> pers_file_xfers (fold (reset_transfer p) ks u) = filter (\<lambda>k. k \<in> set ks \<longrightarrow> pfx_project u k \<noteq> p) (pers_file_xfers u)"
    if "no_dangling u" "transfers_linked u" "set ks \<subseteq> set (pers_file_xfers u)" "distinct ks" for ks u
    using that
  proof (induction ks arbitrary: u)
    case (Cons k ks)
    define w where "w = reset_transfer p k u"
    have k: "k \<in> set (pers_file_xfers u)" using Cons.prems(3) by simp
    note fr = reset_transfer_frame [OF Cons.prems(2) k, of p, folded w_def]
    note d = transfer_frameD [OF fr]
    have "distinct (pers_file_xfers u)" using Cons.prems(2) by (simp add: transfers_linked_def)
    then have rm: "remove1 k (pers_file_xfers u) = filter (\<lambda>j. j \<noteq> k) (pers_file_xfers u)"
      by (auto simp: distinct_remove1_removeAll removeAll_filter_not_eq intro: filter_cong)
    have pers: "pers_file_xfers w = filter (\<lambda>j. j = k \<longrightarrow> pfx_project u k \<noteq> p) (pers_file_xfers u)"
    proof (cases "pfx_project u k = p")
      case True
      then show ?thesis using reset_transfer_vectors(1) [OF Cons.prems(2) k True] rm by (simp add: w_def)
    qed (simp add: w_def reset_transfer_def)
    have "no_dangling w" "transfers_linked w"
      using reset_transfer_no_dangling reset_transfer_linked Cons.prems(1,2) k by (simp_all add: w_def)
    moreover have "set ks \<subseteq> set (pers_file_xfers w)" using Cons.prems(3,4) by (auto simp: pers)
    ultimately have "transfer_frame (fold (reset_transfer p) ks w) = transfer_frame u \<and> no_dangling (fold (reset_transfer p) ks w)
      \<and> transfers_linked (fold (reset_transfer p) ks w)
      \<and> pers_file_xfers (fold (reset_transfer p) ks w) = filter (\<lambda>j. j \<in> set ks \<longrightarrow> pfx_project w j \<noteq> p) (pers_file_xfers w)"
      using Cons.IH [of w] Cons.prems(4) fr by simp
    then show ?case by (auto simp: w_def [symmetric] pers d intro!: filter_cong)
  qed simp
  note this [of s "pers_file_xfers s", OF assms(1,2) order_refl]
  then show "transfer_frame t = transfer_frame s" "no_dangling t" "transfers_linked t"
    "pers_file_xfers t = filter (\<lambda>k. pfx_project s k \<noteq> p) (pers_file_xfers s)"
    using assms(2) unfolding t_def reset_transfers_def by (auto simp: transfers_linked_def intro!: filter_cong)
qed

section \<open>The collector keeps the owners\<close>

definition owner_view where
  "owner_view s = ((apps s, appl s, sched_op s, global_prefs s),
     (\<lambda>v. (av_project (appver s v), av_app (appver s v))), (\<lambda>w. (wu_project (wunit s w), wu_app (wunit s w))),
     (\<lambda>f. fi_project (finfo s f)), (\<lambda>r. (r_project (res s r), r_app (res s r), r_got_server_ack (res s r))),
     (\<lambda>p. p_anonymous_platform (proj s p)))"

lemma owner_viewD:
  assumes "owner_view t = owner_view s"
  shows "apps t = apps s" "appl t = appl s" "sched_op t = sched_op s" "global_prefs t = global_prefs s"
    "av_project (appver t v) = av_project (appver s v)" "av_app (appver t v) = av_app (appver s v)"
    "wu_project (wunit t w) = wu_project (wunit s w)" "wu_app (wunit t w) = wu_app (wunit s w)"
    "fi_project (finfo t f) = fi_project (finfo s f)" "r_project (res t r) = r_project (res s r)"
    "r_app (res t r) = r_app (res s r)" "r_got_server_ack (res t r) = r_got_server_ack (res s r)"
    "p_anonymous_platform (proj t p) = p_anonymous_platform (proj s p)"
  using assms unfolding owner_view_def prod.inject fun_eq_iff by blast+

lemma owner_upds [simp]:
  "(\<And>x. fi_project (f1 x) = fi_project x) \<Longrightarrow> owner_view (upd_finfo i1 f1 s) = owner_view s"
  "(\<And>x. r_project (f2 x) = r_project x \<and> r_app (f2 x) = r_app x \<and> r_got_server_ack (f2 x) = r_got_server_ack x)
    \<Longrightarrow> owner_view (upd_res i2 f2 s) = owner_view s"
  "(\<And>x. wu_project (f3 x) = wu_project x \<and> wu_app (f3 x) = wu_app x) \<Longrightarrow> owner_view (upd_wunit i3 f3 s) = owner_view s"
  "(\<And>x. av_project (f4 x) = av_project x \<and> av_app (f4 x) = av_app x) \<Longrightarrow> owner_view (upd_appver i4 f4 s) = owner_view s"
  "owner_view (upd_task i5 f5 s) = owner_view s"
  "(\<And>x. p_anonymous_platform (f6 x) = p_anonymous_platform x) \<Longrightarrow> owner_view (upd_proj i6 f6 s) = owner_view s"
  by (auto simp: owner_view_def upd_defs fun_eq_iff)

lemma owner_fields [simp]:
  "owner_view (s\<lparr>rand_pos := v1\<rparr>) = owner_view s" "owner_view (s\<lparr>results := v2\<rparr>) = owner_view s"
  "owner_view (s\<lparr>workunits := v3\<rparr>) = owner_view s" "owner_view (s\<lparr>app_versions := v4\<rparr>) = owner_view s"
  "owner_view (s\<lparr>file_infos := v5\<rparr>) = owner_view s" "owner_view (s\<lparr>pers_file_xfers := v6\<rparr>) = owner_view s"
  by (simp_all add: owner_view_def)

lemma owner_errors [simp]:
  "owner_view (report_result_error r m s) = owner_view s" "owner_view (abort_task e m a s) = owner_view s"
proof -
  have e: "owner_view (snd (calculate_exponential_backoff n mn mx s)) = owner_view s" for n mn mx s
    using exponential_backoff_state [of n mn mx s] by auto
  have "owner_view (backoff p s) = owner_view s" for p s
    by (simp add: backoff_def Let_def split_beta set_min_rpc_time_def e)
  then show "owner_view (report_result_error r m s) = owner_view s" for r m s
    by (simp add: report_result_error_def Let_def)
  then show "owner_view (abort_task e m a s) = owner_view s"
    by (simp add: abort_task_def Let_def request_abort_def send_control_def set_task_state_def)
qed

lemma owner_ref_files [simp]: "owner_view (ref_files frs s) = owner_view s"
  unfolding ref_files_def by (rule fold_frame) (simp add: ref_file_def)

lemma owner_gc_result [simp]: "owner_view (snd (gc_result r s)) = owner_view s"
proof -
  have up: "owner_view (gc_upload_errors r s) = owner_view s" for s
    by (simp add: gc_upload_errors_def Let_def split_beta gc_output_files_refs split: option.split)
  have down: "owner_view (gc_download_errors r s) = owner_view s" for s by (simp add: gc_download_errors_def Let_def)
  show ?thesis by (simp add: gc_result_def Let_def ref_avp_and_wup_def up down)
qed

lemma owner_gc_loops [simp]:
  "owner_view (snd (gc_results rs s)) = owner_view s" "owner_view (snd (gc_workunits ws s)) = owner_view s"
  "owner_view (snd (gc_files fs s)) = owner_view s"
proof -
  show "owner_view (snd (gc_results rs s)) = owner_view s"
  proof (induction rs arbitrary: s)
    case (Cons r rs)
    show ?case using Cons [of "snd (gc_result r s)"] by (simp add: split_beta)
  qed simp
  show "owner_view (snd (gc_workunits ws s)) = owner_view s" by (induction ws arbitrary: s) (auto simp: split_beta)
  have "owner_view (gc_drop_transfer f s) = owner_view s" for f s
    by (simp add: gc_drop_transfer_def pfxs_remove_def split: option.split)
  moreover have "fi_project (delete_file x) = fi_project x" for x by (simp add: delete_file_def)
  ultimately show "owner_view (snd (gc_files fs s)) = owner_view s" by (induction fs arbitrary: s) (auto simp: split_beta)
qed

lemma owner_garbage_collect: "owner_view (snd (garbage_collect_always s)) = owner_view s"
proof -
  have z: "owner_view (zero_ref_counts s) = owner_view s" for s
    unfolding zero_ref_counts_def Let_def by (simp add: fold_frame [of _ owner_view])
  have p: "owner_view (ref_project_files s) = owner_view s" for s
    unfolding ref_project_files_def by (rule fold_frame) (simp add: Let_def)
  have a: "owner_view (ref_app_files s) = owner_view s" for s unfolding ref_app_files_def by (rule fold_frame) simp
  have t: "owner_view (ref_transfers s) = owner_view s" for s
    unfolding ref_transfers_def Let_def by (simp add: fold_frame [of _ owner_view] ref_file_def)
  show ?thesis
    by (simp add: garbage_collect_always_def Let_def gc_state_def gc_collect_files_def gc_collect_results_def
        gc_collect_workunits_def gc_collect_app_versions_def split_beta z p a t)
qed

text \<open>What the collector makes of a state whose pointers are in order.\<close>

lemma collect:
  assumes "no_dangling s" "same_project s" "transfers_linked s"
  defines "t \<equiv> snd (garbage_collect_always s)"
  shows "no_dangling t" "same_project t" "transfers_linked t" "owner_view t = owner_view s"
    "results t = live_results s" "workunits t = live_workunits s" "app_versions t = live_app_versions s" "projects t = projects s"
    "active_tasks t = active_tasks s" "pers_file_xfers t = pers_file_xfers s" "file_xfers t = file_xfers s" "pxfer t = pxfer s"
    "fxfer t = fxfer s" "\<And>a. at_result (task t a) = at_result (task s a)" "\<And>r. r_wup (res t r) = r_wup (res s r)"
    "set (file_infos t) \<subseteq> set (file_infos s)"
proof -
  show o: "owner_view t = owner_view s" unfolding t_def by (rule owner_garbage_collect)
  show nd: "no_dangling t" unfolding t_def by (rule garbage_collect_links [OF assms(1)])
  have "distinct (file_infos s)" using assms(1) by (simp add: no_dangling_def)
  note g = gc_state_result [OF this]
  have t: "t = gc_state s" by (simp add: t_def garbage_collect_always_def Let_def)
  note g = g [folded t]
  show "results t = live_results s" "workunits t = live_workunits s" "app_versions t = live_app_versions s" "projects t = projects s"
    "active_tasks t = active_tasks s" "file_xfers t = file_xfers s" "pxfer t = pxfer s" "fxfer t = fxfer s"
    "\<And>a. at_result (task t a) = at_result (task s a)" "\<And>r. r_wup (res t r) = r_wup (res s r)"
    by (simp_all add: g)
  show "set (file_infos t) \<subseteq> set (file_infos s)" by (auto simp: g live_files_def)
  show pf: "pers_file_xfers t = pers_file_xfers s" using unreferenced_no_transfer [OF assms(1)] by (intro g(20)) auto
  note od = owner_viewD [OF o]
  have sub: "r \<in> set (live_results s) \<Longrightarrow> r \<in> set (results s)" "w \<in> set (live_workunits s) \<Longrightarrow> w \<in> set (workunits s)"
    "v \<in> set (live_app_versions s) \<Longrightarrow> v \<in> set (app_versions s)" "f \<in> set (live_files s) \<Longrightarrow> f \<in> set (file_infos s)" for r w v f
    by (simp_all add: live_results_def live_workunits_def live_app_versions_def live_files_def)
  show "same_project t"
    using assms(2) sub unfolding same_project_def refs_within_def app_within_def g od by blast
  have "fi_pers_file_xfer (finfo t (pfx_fip (pxfer s k))) = Some k" if k: "k \<in> set (pers_file_xfers s)" for k
  proof -
    have "pfx_fip (pxfer s k) \<in> set (transfer_refs s)" using k by (auto simp: transfer_refs_def)
    then have "pfx_fip (pxfer s k) \<in> set (live_files s)"
      using assms(1) by (auto simp: no_dangling_def live_files_def file_refs_def)
    then show ?thesis using g(19) assms(3) k by (simp add: transfers_linked_def)
  qed
  then show "transfers_linked t" using assms(3) by (auto simp: transfers_linked_def pf g)
qed

section \<open>The other steps\<close>

abbreviation pointers_ok :: "CLIENT_STATE \<Rightarrow> bool" where
  "pointers_ok s \<equiv> no_dangling s \<and> same_project s \<and> transfers_linked s"

lemmas pointer_defs = no_dangling_def same_project_def transfers_linked_def refs_within_def app_within_def
lemmas ref_list_defs = output_refs_def input_refs_def app_refs_def project_refs_def transfer_refs_def

lemma fewer_tasks:
  assumes "pointers_ok s" "set as \<subseteq> set (active_tasks s)"
  shows "pointers_ok (s\<lparr>active_tasks := as\<rparr>)"
proof -
  define t where "t = s\<lparr>active_tasks := as\<rparr>"
  have refs: "output_refs t = output_refs s" "input_refs t = input_refs s" "app_refs t = app_refs s" "project_refs t = project_refs s"
    "transfer_refs t = transfer_refs s"
    by (simp_all add: fun_eq_iff ref_list_defs t_def)
  have "no_dangling t" using assms unfolding no_dangling_def refs by (auto simp: t_def)
  moreover have "same_project t" using assms unfolding same_project_def refs_within_def app_within_def refs by (simp add: t_def)
  moreover have "transfers_linked t" using assms by (simp add: transfers_linked_def t_def)
  ultimately show ?thesis by (simp add: t_def)
qed

lemma ack_results_state:
  "ack_results p s = s\<lparr>res := (\<lambda>r. if r \<in> set (results s) \<and> r_project (res s r) = p then (res s r)\<lparr>r_got_server_ack := True\<rparr> else res s r)\<rparr>"
proof -
  define f where "f r s = (if r_project (res s r) = p then upd_res r (\<lambda>x. x\<lparr>r_got_server_ack := True\<rparr>) s else s)" for r s
  have "fold f rs s = s\<lparr>res := (\<lambda>r. if r \<in> set rs \<and> r_project (res s r) = p then (res s r)\<lparr>r_got_server_ack := True\<rparr> else res s r)\<rparr>" for rs
  proof (induction rs arbitrary: s)
    case (Cons r rs)
    have "f r s = s\<lparr>res := (\<lambda>q. if q = r \<and> r_project (res s q) = p then (res s q)\<lparr>r_got_server_ack := True\<rparr> else res s q)\<rparr>"
      by (auto simp: f_def upd_res_def fun_eq_iff intro!: CLIENT_STATE.equality)
    then show ?case using Cons.IH [of "f r s"] by (auto simp: fun_eq_iff intro!: CLIENT_STATE.equality)
  qed simp
  then show ?thesis by (simp add: ack_results_def f_def [abs_def])
qed

lemma ack_results_pointers: "pointers_ok (ack_results p s) = pointers_ok s"
proof -
  define t where "t = ack_results p s"
  have f: "r_wup (res t r) = r_wup (res s r)" "r_avp (res t r) = r_avp (res s r)" "r_output_files (res t r) = r_output_files (res s r)"
    "r_project (res t r) = r_project (res s r)" "r_app (res t r) = r_app (res s r)" for r
    by (simp_all add: t_def ack_results_state)
  obtain R where t: "t = s\<lparr>res := R\<rparr>" by (simp add: t_def ack_results_state)
  have refs: "output_refs t = output_refs s" "input_refs t = input_refs s" "app_refs t = app_refs s" "project_refs t = project_refs s"
    "transfer_refs t = transfer_refs s"
    by (simp_all add: fun_eq_iff ref_list_defs f) (simp_all add: t)
  have "no_dangling t = no_dangling s" unfolding no_dangling_def refs f by (simp add: t)
  moreover have "same_project t = same_project s" unfolding same_project_def refs_within_def app_within_def refs f by (simp add: t)
  moreover have "transfers_linked t = transfers_linked s" by (simp add: transfers_linked_def t)
  ultimately show ?thesis by (simp add: t_def)
qed

lemma clear_files_pointers:
  fixes p :: pid
  assumes "pointers_ok s"
  defines "t \<equiv> upd_proj p (\<lambda>x. x\<lparr>p_user_files := [], p_project_files := []\<rparr>) s"
  shows "pointers_ok t" "project_refs t p = []"
proof -
  have refs: "output_refs t = output_refs s" "input_refs t = input_refs s" "app_refs t = app_refs s" "transfer_refs t = transfer_refs s"
    "project_refs t q = (if q = p then [] else project_refs s q)" for q
    by (simp_all add: fun_eq_iff ref_list_defs t_def upd_proj_def)
  show "project_refs t p = []" by (simp add: refs)
  have "no_dangling t" using assms(1) unfolding no_dangling_def refs by (simp add: t_def upd_proj_def)
  moreover have "same_project t"
    using assms(1) unfolding same_project_def refs_within_def app_within_def refs by (simp add: t_def upd_proj_def)
  moreover have "transfers_linked t" using assms(1) by (simp add: transfers_linked_def t_def upd_proj_def)
  ultimately show "pointers_ok t" by simp
qed

lemma erase_apps_pointers:
  assumes "pointers_ok s" "\<forall>r \<in> set (results s). r_project (res s r) \<noteq> p" "\<forall>w \<in> set (workunits s). wu_project (wunit s w) \<noteq> p"
  shows "pointers_ok (erase_apps p s)"
proof -
  define t where "t = erase_apps p s"
  have refs: "output_refs t = output_refs s" "input_refs t = input_refs s" "app_refs t = app_refs s" "project_refs t = project_refs s"
    "transfer_refs t = transfer_refs s"
    by (simp_all add: fun_eq_iff ref_list_defs t_def erase_apps_def)
  have a: "app_within t q a = app_within s q a" if "q \<noteq> p" for q a using that by (auto simp: app_within_def t_def erase_apps_def)
  have "r_avp (res s r) \<in> set (app_versions t)" if "r \<in> set (results s)" for r
  proof -
    have "av_project (appver s (r_avp (res s r))) \<noteq> p" "r_avp (res s r) \<in> set (app_versions s)"
      using assms that by (auto simp: same_project_def no_dangling_def)
    then show ?thesis by (simp add: t_def erase_apps_def)
  qed
  then have "no_dangling t" using assms(1) unfolding no_dangling_def refs by (auto simp: t_def erase_apps_def)
  moreover have "same_project t"
  proof -
    have f: "results t = results s" "res t = res s" "workunits t = workunits s" "wunit t = wunit s" "appver t = appver s"
      "projects t = projects s" "file_infos t = file_infos s" "finfo t = finfo s" "appl t = appl s"
      "set (app_versions t) = {v \<in> set (app_versions s). av_project (appver s v) \<noteq> p}"
      "set (apps t) = {a \<in> set (apps s). app_project (appl s a) \<noteq> p}"
      by (auto simp: t_def erase_apps_def)
    show ?thesis using assms unfolding same_project_def refs_within_def refs f by (simp add: a)
  qed
  moreover have "transfers_linked t" using assms(1) by (simp add: transfers_linked_def t_def erase_apps_def)
  ultimately show ?thesis by (simp add: t_def)
qed

section \<open>What is left of a project\<close>

lemma reach_abort_project:
  "reach_view (abort_project io reaped p s)
   = reach_view (s\<lparr>active_tasks := filter (\<lambda>a. r_project (res s (at_result (task s a))) \<noteq> p) (active_tasks s)\<rparr>)"
proof -
  define u where "u = exit_tasks io reaped (Some p) s"
  have ru: "reach_view u = reach_view s" by (simp add: u_def reach_exit_tasks)
  note v = reach_viewD [OF ru]
  define as where "as = filter (\<lambda>a. r_project (res s (at_result (task s a))) \<noteq> p) (active_tasks s)"
  have "abort_project io reaped p s = upd_proj p (\<lambda>x. x\<lparr>p_long_term_debt := 0\<rparr>) (u\<lparr>active_tasks := as\<rparr>)"
    by (simp add: abort_project_def Let_def u_def [symmetric] v as_def)
  moreover have "reach_view (u\<lparr>active_tasks := as\<rparr>) = reach_view (s\<lparr>active_tasks := as\<rparr>)"
    using ru unfolding reach_view_def prod.inject by simp
  ultimately show ?thesis by (simp add: as_def)
qed

text \<open>The state before the first garbage collection.\<close>

definition reset_prepare :: "TASK_IO \<Rightarrow> (nat \<Rightarrow> aid \<Rightarrow> bool) \<Rightarrow> pid \<Rightarrow> CLIENT_STATE \<Rightarrow> CLIENT_STATE" where
  "reset_prepare io reaped p s = upd_proj p (\<lambda>x. x\<lparr>p_user_files := [], p_project_files := []\<rparr>)
     (ack_results p (op_abort p (reset_transfers p (abort_project io reaped p s))))"

lemma reset_prepare:
  assumes "well_owned s" "t = reset_prepare io reaped p s"
  shows "pointers_ok t" "project_refs t p = []" "projects t = projects s" "results t = results s"
    "r_project (res t r) = r_project (res s r)"
    "r_got_server_ack (res t r) \<longleftrightarrow> r_got_server_ack (res s r) \<or> r \<in> set (results s) \<and> r_project (res s r) = p"
    "active_tasks t = filter (\<lambda>a. r_project (res s (at_result (task s a))) \<noteq> p) (active_tasks s)"
    "at_result (task t a) = at_result (task s a)"
    "pers_file_xfers t = filter (\<lambda>k. pfx_project s k \<noteq> p) (pers_file_xfers s)" "pfx_project t k = pfx_project s k"
    "p_anonymous_platform (proj t q) = p_anonymous_platform (proj s q)"
    "so_state (sched_op t) \<noteq> SCHEDULER_OP_STATE_IDLE \<Longrightarrow> sched_op t = sched_op s \<and> so_cur_proj (sched_op t) \<noteq> Some p"
proof -
  define s0 where "s0 = s\<lparr>active_tasks := filter (\<lambda>a. r_project (res s (at_result (task s a))) \<noteq> p) (active_tasks s)\<rparr>"
  define s1 where "s1 = abort_project io reaped p s"
  define s2 where "s2 = reset_transfers p s1"
  define s3 where "s3 = ack_results p (op_abort p s2)"
  have t: "t = upd_proj p (\<lambda>x. x\<lparr>p_user_files := [], p_project_files := []\<rparr>) s3"
    by (simp add: assms(2) reset_prepare_def s3_def s2_def s1_def)
  have r1: "reach_view s1 = reach_view s0" unfolding s1_def s0_def by (rule reach_abort_project)
  note v1 = reach_viewD [OF r1]
  have w: "pointers_ok s" using assms(1) by (simp add: well_owned_def)
  have w0: "pointers_ok s0" unfolding s0_def by (rule fewer_tasks [OF w]) auto
  have w1: "pointers_ok s1" using w0 reach_pointers [OF r1] by simp
  note k2 = reset_transfers_keep [of s1 p, folded s2_def, OF _ _] w1
  have fr: "transfer_frame s2 = transfer_frame s1" and w2: "pointers_ok s2"
    and p2: "pers_file_xfers s2 = filter (\<lambda>k. pfx_project s1 k \<noteq> p) (pers_file_xfers s1)"
    using k2 transfer_frame_refs(5) [of s2 s1] by simp_all
  note v2 = transfer_frameD [OF fr]
  have "pointers_ok (op_abort p s2) = pointers_ok s2"
    by (simp add: pointer_defs ref_list_defs op_abort_def upd_op_def)
  then have w3: "pointers_ok s3" using w2 by (simp add: s3_def ack_results_pointers)
  show "pointers_ok t" "project_refs t p = []" unfolding t by (rule clear_files_pointers [OF w3])+
  define R where "R r = (if r \<in> set (results s2) \<and> r_project (res s2 r) = p then (res s2 r)\<lparr>r_got_server_ack := True\<rparr> else res s2 r)" for r
  have "res (op_abort p s2) = res s2" "results (op_abort p s2) = results s2" by (simp_all add: op_abort_def upd_op_def)
  then have s3: "s3 = (op_abort p s2)\<lparr>res := R\<rparr>" by (simp only: s3_def ack_results_state R_def [abs_def])
  show "projects t = projects s" "results t = results s" "r_project (res t r) = r_project (res s r)"
    "active_tasks t = filter (\<lambda>a. r_project (res s (at_result (task s a))) \<noteq> p) (active_tasks s)"
    "at_result (task t a) = at_result (task s a)" "pfx_project t k = pfx_project s k"
    "p_anonymous_platform (proj t q) = p_anonymous_platform (proj s q)"
    by (simp_all add: t s3 R_def op_abort_def upd_op_def upd_proj_def v2 v1) (simp_all add: s0_def)
  show "r_got_server_ack (res t r) \<longleftrightarrow> r_got_server_ack (res s r) \<or> r \<in> set (results s) \<and> r_project (res s r) = p"
    by (simp add: t s3 R_def upd_proj_def v2 v1) (auto simp: s0_def)
  show "pers_file_xfers t = filter (\<lambda>k. pfx_project s k \<noteq> p) (pers_file_xfers s)"
    by (simp add: t s3 op_abort_def upd_op_def upd_proj_def p2 v1) (simp add: s0_def)
  show "so_state (sched_op t) \<noteq> SCHEDULER_OP_STATE_IDLE \<Longrightarrow> sched_op t = sched_op s \<and> so_cur_proj (sched_op t) \<noteq> Some p"
    by (simp add: t s3 op_abort_def upd_op_def upd_proj_def v2 v1 split: if_splits) (simp_all add: s0_def)
qed

text \<open>What is left of project \<open>p\<close> and of the others, from \<open>s\<close> to \<open>t\<close>.\<close>

definition others_kept :: "pid \<Rightarrow> CLIENT_STATE \<Rightarrow> CLIENT_STATE \<Rightarrow> bool" where
  "others_kept p s t =
     (results t = filter (\<lambda>r. r_project (res s r) \<noteq> p \<and> live_result s r) (results s)
      \<and> active_tasks t = filter (\<lambda>a. r_project (res s (at_result (task s a))) \<noteq> p) (active_tasks s)
      \<and> pers_file_xfers t = filter (\<lambda>k. pfx_project s k \<noteq> p) (pers_file_xfers s))"

definition no_work_of :: "pid \<Rightarrow> CLIENT_STATE \<Rightarrow> bool" where
  "no_work_of p s =
     ((\<forall>r \<in> set (results s). r_project (res s r) \<noteq> p) \<and> (\<forall>w \<in> set (workunits s). wu_project (wunit s w) \<noteq> p)
      \<and> (\<forall>a \<in> set (active_tasks s). r_project (res s (at_result (task s a))) \<noteq> p)
      \<and> (\<forall>k \<in> set (pers_file_xfers s). pfx_project s k \<noteq> p) \<and> (\<forall>x \<in> set (file_xfers s). fi_project (finfo s (fx_fip (fxfer s x))) \<noteq> p)
      \<and> (so_state (sched_op s) \<noteq> SCHEDULER_OP_STATE_IDLE \<longrightarrow> so_cur_proj (sched_op s) \<noteq> Some p)
      \<and> project_refs s p = [])"

lemma reset_first_collect:
  assumes "well_owned s" "u = reset_prepare io reaped p s" "t = (snd (garbage_collect_always u))\<lparr>ordered_scheduled_results := []\<rparr>"
  shows "well_owned t" "others_kept p s t" "no_work_of p t" "projects t = projects s" "\<forall>r \<in> set (results t). live_result t r"
    "p_anonymous_platform (proj t q) = p_anonymous_platform (proj s q)"
proof -
  note u = reset_prepare [OF assms(1,2)]
  define g where "g = snd (garbage_collect_always u)"
  note c = collect [of u, folded g_def, OF u(1) [THEN conjunct1] u(1) [THEN conjunct2, THEN conjunct1] u(1) [THEN conjunct2, THEN conjunct2]]
  note oc = owner_viewD [OF c(4)]
  have t: "reach_view t = reach_view g" by (simp add: assms(3) g_def)
  note v = reach_viewD [OF t]
  have live: "live_result u r \<longleftrightarrow> r_project (res s r) \<noteq> p \<and> live_result s r" if "r \<in> set (results s)" for r
    using that by (auto simp: live_result_def u)
  have res: "results t = filter (\<lambda>r. r_project (res s r) \<noteq> p \<and> live_result s r) (results s)"
    by (auto simp: v c live_results_def u live intro: filter_cong)
  have tasks: "active_tasks t = filter (\<lambda>a. r_project (res s (at_result (task s a))) \<noteq> p) (active_tasks s)" by (simp add: v c u)
  have pers: "pers_file_xfers t = filter (\<lambda>k. pfx_project s k \<noteq> p) (pers_file_xfers s)" by (simp add: v c u)
  show "others_kept p s t" using res tasks pers by (simp add: others_kept_def)
  show "projects t = projects s" by (simp add: v c u)
  show "p_anonymous_platform (proj t q) = p_anonymous_platform (proj s q)" by (simp add: v oc u)
  show "\<forall>r \<in> set (results t). live_result t r"
  proof
    fix r
    assume "r \<in> set (results t)"
    then have "live_result u r" by (simp add: v c live_results_def)
    then show "live_result t r" by (simp add: live_result_def v c oc)
  qed
  have pj: "r_project (res t r) = r_project (res s r)" "pfx_project t k = pfx_project s k" "at_result (task t a) = at_result (task s a)" for r k a
    using u by (simp_all add: v oc c)
  have so: "so_state (sched_op t) \<noteq> SCHEDULER_OP_STATE_IDLE \<Longrightarrow> sched_op t = sched_op s \<and> so_cur_proj (sched_op t) \<noteq> Some p"
    using u(12) unfolding v(12) oc(3) .
  show w: "well_owned t"
    using assms(1) c(1-3) so by (auto simp: well_owned_def reach_pointers [OF t] v c u)
  have wu: "wu_project (wunit t w) \<noteq> p" if "w \<in> set (workunits t)" for w
  proof -
    have "w \<in> set (live_workunits u)" using that by (simp add: v c)
    then obtain r where "r \<in> set (live_results u)" "r_wup (res u r) = w" by (auto simp: live_workunits_def)
    then have r: "r \<in> set (results t)" "r_wup (res u r) = w" by (simp_all add: v c)
    then have "wu_project (wunit t w) = r_project (res t r)" using w by (auto simp: well_owned_def same_project_def v c)
    then show ?thesis using r(1) by (simp add: res pj)
  qed
  have fx: "fi_project (finfo t (fx_fip (fxfer t x))) \<noteq> p" if x: "x \<in> set (file_xfers t)" for x
  proof -
    obtain k where "k \<in> set (pers_file_xfers t)" "fx_fip (fxfer t x) = pfx_fip (pxfer t k)"
      using w x by (fastforce simp: well_owned_def transfers_linked_def)
    then show ?thesis using pj(2) by (simp add: pers)
  qed
  have pr: "project_refs t p = []"
  proof -
    have "distinct (file_infos u)" using u(1) by (simp add: no_dangling_def)
    then have "project_refs g p = project_refs u p"
      using gc_state_result(13) by (simp add: g_def garbage_collect_always_def Let_def)
    then show ?thesis by (simp add: reach_pointers(4) [OF t] u)
  qed
  show "no_work_of p t" using wu fx so pr by (auto simp: no_work_of_def res tasks pers pj)
qed

interpretation scheduled: project_view ordered_scheduled_results p_master_url
  by unfold_locales (simp_all add: upd_proj_def)

lemma reset_second_collect:
  assumes "well_owned s" "no_work_of p s" "\<forall>r \<in> set (results s). live_result s r"
    and "t = snd (garbage_collect_always (erase_apps p s))"
  shows "well_owned t" "no_work_of p t" "projects t = projects s" "results t = results s" "active_tasks t = active_tasks s"
    "pers_file_xfers t = pers_file_xfers s"
    "\<forall>v \<in> set (app_versions t). av_project (appver t v) \<noteq> p" "\<forall>a \<in> set (apps t). app_project (appl t a) \<noteq> p"
    "ordered_scheduled_results s = [] \<Longrightarrow> ordered_scheduled_results t = []"
proof -
  define u where "u = erase_apps p s"
  have nw: "\<forall>r \<in> set (results s). r_project (res s r) \<noteq> p" "\<forall>w \<in> set (workunits s). wu_project (wunit s w) \<noteq> p"
    using assms(2) by (simp_all add: no_work_of_def)
  have pu: "pointers_ok u" using erase_apps_pointers [of s p] nw assms(1) by (simp add: well_owned_def u_def)
  have t: "t = snd (garbage_collect_always u)" by (simp add: assms(4) u_def)
  note c = collect [of u, folded t, OF pu [THEN conjunct1] pu [THEN conjunct2, THEN conjunct1] pu [THEN conjunct2, THEN conjunct2]]
  note oc = owner_viewD [OF c(4)]
  have u: "projects u = projects s" "results u = results s" "res u = res s" "active_tasks u = active_tasks s" "task u = task s"
    "workunits u = workunits s" "wunit u = wunit s" "finfo u = finfo s" "pxfer u = pxfer s" "fxfer u = fxfer s" "appver u = appver s"
    "pers_file_xfers u = pers_file_xfers s" "file_xfers u = file_xfers s" "sched_op u = sched_op s" "appl u = appl s"
    "app_versions u = filter (\<lambda>v. av_project (appver s v) \<noteq> p) (app_versions s)" "apps u = filter (\<lambda>a. app_project (appl s a) \<noteq> p) (apps s)"
    "ordered_scheduled_results u = ordered_scheduled_results s" "live_result u = live_result s" "project_refs u = project_refs s"
    by (simp_all add: u_def erase_apps_def live_result_def fun_eq_iff project_refs_def)
  show "projects t = projects s" "active_tasks t = active_tasks s" "pers_file_xfers t = pers_file_xfers s" by (simp_all add: c u)
  show r: "results t = results s" using assms(3) by (simp add: c live_results_def u)
  show "well_owned t" using assms(1) c(1-3) by (simp add: well_owned_def c oc u)
  show "\<forall>v \<in> set (app_versions t). av_project (appver t v) \<noteq> p" "\<forall>a \<in> set (apps t). app_project (appl t a) \<noteq> p"
    by (simp_all add: c oc live_app_versions_def u)
  have "distinct (file_infos u)" using pu by (simp add: no_dangling_def)
  then have "project_refs t p = project_refs s p"
    using gc_state_result(13) [of u] by (simp add: t garbage_collect_always_def Let_def u)
  then show "no_work_of p t" using assms(2) unfolding no_work_of_def r by (auto simp: c oc u live_workunits_def)
  show "ordered_scheduled_results t = []" if "ordered_scheduled_results s = []"
    using that scheduled.view_garbage_collect [of u] by (simp add: t u)
qed

lemma reset_project_state:
  assumes "well_owned s" "t = reset_project io reaped p detaching s"
  shows "well_owned t" "projects t = projects s" "no_work_of p t" "others_kept p s t" "ordered_scheduled_results t = []"
    "detaching \<or> \<not> p_anonymous_platform (proj s p) \<Longrightarrow>
        (\<forall>v \<in> set (app_versions t). av_project (appver t v) \<noteq> p) \<and> (\<forall>a \<in> set (apps t). app_project (appl t a) \<noteq> p)"
proof -
  define u where "u = reset_prepare io reaped p s"
  define s3 where "s3 = (snd (garbage_collect_always u))\<lparr>ordered_scheduled_results := []\<rparr>"
  define s4 where "s4 = (if \<not> p_anonymous_platform (proj s3 p) \<or> detaching then snd (garbage_collect_always (erase_apps p s3)) else s3)"
  have t: "t = upd_proj p (\<lambda>x. x\<lparr>p_ams_resource_share := -1, p_min_rpc_time := 0\<rparr>) s4"
    by (simp only: assms(2) reset_project_def Let_def u_def reset_prepare_def s3_def s4_def)
  note f = reset_first_collect [OF assms(1) u_def s3_def]
  note g = reset_second_collect [OF f(1,3,5) refl]
  have o3: "ordered_scheduled_results s3 = []" by (simp add: s3_def)
  have s4: "well_owned s4" "projects s4 = projects s" "no_work_of p s4" "others_kept p s s4" "ordered_scheduled_results s4 = []"
    "detaching \<or> \<not> p_anonymous_platform (proj s p) \<Longrightarrow>
        (\<forall>v \<in> set (app_versions s4). av_project (appver s4 v) \<noteq> p) \<and> (\<forall>a \<in> set (apps s4). app_project (appl s4 a) \<noteq> p)"
    using f(1-4) g(1-6) g(7-8) g(9) [OF o3] o3 by (auto simp: s4_def f(6) others_kept_def)
  have "reach_view t = reach_view s4" by (simp add: t)
  note v = reach_viewD [OF this] reach_pointers [OF this] reach_well_owned [OF this]
  show "well_owned t" "projects t = projects s" using s4 by (simp_all add: v)
  show "no_work_of p t" using s4(3) by (simp add: no_work_of_def v)
  show "others_kept p s t" using s4(4) by (simp add: others_kept_def v)
  show "ordered_scheduled_results t = []" using s4(5) by (simp add: t upd_proj_def)
  show "(\<forall>v \<in> set (app_versions t). av_project (appver t v) \<noteq> p) \<and> (\<forall>a \<in> set (apps t). app_project (appl t a) \<noteq> p)"
    if "detaching \<or> \<not> p_anonymous_platform (proj s p)"
    using s4(6) [OF that] by (simp add: v)
qed

text \<open>C34: Resetting a project removes all its work and nothing else: afterwards it has no result, workunit, task, transfer
  or scheduler operation, and unless its applications are the user's own (anonymous platform) no application or
  version; the tasks and transfers of the other projects and their results, but for those the server has
  acknowledged, are all there; and no pointer leads to a deleted object or to another project's.\<close>
theorem reset_project_removes_work:
  assumes "well_owned s" "t = reset_project io reaped p detaching s"
  shows "well_owned t \<and> projects t = projects s \<and> no_work_of p t \<and> others_kept p s t \<and> ordered_scheduled_results t = []
    \<and> (detaching \<or> \<not> p_anonymous_platform (proj s p) \<longrightarrow>
        (\<forall>v \<in> set (app_versions t). av_project (appver t v) \<noteq> p) \<and> (\<forall>a \<in> set (apps t). app_project (appl t a) \<noteq> p))"
  using reset_project_state [OF assms] by blast

text \<open>Two projects, each with a result, a task, an application, a version, a file and a transfer of it.\<close>

definition two_projects :: CLIENT_STATE where
  "two_projects = sample_state\<lparr>projects := [0, 1], results := [0, 1], workunits := [0, 1], app_versions := [0, 1], apps := [0, 1],
     active_tasks := [0, 1], file_infos := [0, 1], pers_file_xfers := [0, 1], file_xfers := [1],
     res := (\<lambda>r. sample_result\<lparr>r_project := r, r_wup := r, r_avp := r, r_app := r\<rparr>),
     wunit := (\<lambda>w. (wunit sample_state 0)\<lparr>wu_project := w, wu_app := w\<rparr>),
     appver := (\<lambda>v. (appver sample_state 0)\<lparr>av_project := v, av_app := v\<rparr>),
     appl := (\<lambda>a. (appl sample_state 0)\<lparr>app_project := a\<rparr>),
     task := (\<lambda>a. sample_task\<lparr>at_result := a, at_wup := a, at_app_version := a, at_task_state := PROCESS_EXECUTING\<rparr>),
     finfo := (\<lambda>f. sample_file_info\<lparr>fi_project := f, fi_pers_file_xfer := Some f, fi_sticky := True\<rparr>),
     pxfer := (\<lambda>k. sample_pfx\<lparr>pfx_fip := k, pfx_fxp := (if k = 1 then Some 1 else None)\<rparr>),
     fxfer := (\<lambda>x. sample_fx\<lparr>fx_fip := x\<rparr>)\<rparr>"

lemma two_projects_ok: "well_owned two_projects" "distinct (projects two_projects)"
proof -
  have "output_refs two_projects r = []" "input_refs two_projects r = []" "app_refs two_projects r = []"
    "project_refs two_projects r = []" "transfer_refs two_projects = [1, 0, 1]" for r
    by (simp_all add: ref_list_defs two_projects_def sample_defs)
  note r = this
  have "no_dangling two_projects" unfolding no_dangling_def r by (simp add: two_projects_def sample_defs)
  moreover have "same_project two_projects"
    unfolding same_project_def refs_within_def r by (simp add: app_within_def two_projects_def sample_defs)
  moreover have "transfers_linked two_projects" by (simp add: transfers_linked_def two_projects_def sample_defs)
  ultimately show "well_owned two_projects" by (simp add: well_owned_def two_projects_def sample_defs)
  show "distinct (projects two_projects)" by (simp add: two_projects_def)
qed

theorem reset_project_removes_work_witness:
  "let t = reset_project sample_task_io (\<lambda>_ _. False) 1 False two_projects
   in results t = [0] \<and> active_tasks t = [0] \<and> pers_file_xfers t = [0] \<and> projects t = [0, 1] \<and> no_work_of 1 t \<and> well_owned t"
proof -
  define t where "t = reset_project sample_task_io (\<lambda>_ _. False) 1 False two_projects"
  have "others_kept 1 two_projects t \<and> projects t = projects two_projects \<and> no_work_of 1 t \<and> well_owned t"
    using reset_project_removes_work [OF two_projects_ok(1) t_def] by blast
  then show ?thesis
    unfolding t_def [symmetric] Let_def others_kept_def by (simp add: live_result_def two_projects_def sample_defs)
qed

section \<open>Detaching\<close>

lemma erase_project_pointers:
  assumes "pointers_ok s" "no_work_of p s" "\<forall>v \<in> set (app_versions s). av_project (appver s v) \<noteq> p"
    "\<forall>a \<in> set (apps s). app_project (appl s a) \<noteq> p" "distinct (projects s)"
  shows "pointers_ok (s\<lparr>file_infos := filter (\<lambda>f. fi_project (finfo s f) \<noteq> p) (file_infos s), projects := remove1 p (projects s)\<rparr>)"
proof -
  define t where "t = s\<lparr>file_infos := filter (\<lambda>f. fi_project (finfo s f) \<noteq> p) (file_infos s), projects := remove1 p (projects s)\<rparr>"
  have refs: "output_refs t = output_refs s" "input_refs t = input_refs s" "app_refs t = app_refs s" "project_refs t = project_refs s"
    "transfer_refs t = transfer_refs s"
    by (simp_all add: fun_eq_iff ref_list_defs t_def)
  have f: "results t = results s" "res t = res s" "workunits t = workunits s" "wunit t = wunit s" "app_versions t = app_versions s"
    "appver t = appver s" "apps t = apps s" "appl t = appl s" "finfo t = finfo s" "active_tasks t = active_tasks s" "task t = task s"
    "pers_file_xfers t = pers_file_xfers s" "pxfer t = pxfer s" "set (projects t) = set (projects s) - {p}"
    "set (file_infos t) = {f \<in> set (file_infos s). fi_project (finfo s f) \<noteq> p}"
    "distinct (file_infos s) \<Longrightarrow> distinct (file_infos t)"
    using assms(5) by (auto simp: t_def)
  have n: "\<And>r. r \<in> set (results s) \<Longrightarrow> r_project (res s r) \<noteq> p" "\<And>w. w \<in> set (workunits s) \<Longrightarrow> wu_project (wunit s w) \<noteq> p"
    "\<And>x. x \<in> set (transfer_refs s) \<Longrightarrow> fi_project (finfo s x) \<noteq> p"
    using assms(2) by (auto simp: no_work_of_def transfer_refs_def)
  have same: "same_project s" and nd: "no_dangling s" using assms(1) by blast+
  have sub: "set fs \<subseteq> set (file_infos t)" if "set fs \<subseteq> set (file_infos s)" "refs_within s q fs" "q \<noteq> p" for fs q
    using that by (auto simp: f refs_within_def)
  have "no_dangling t"
    unfolding no_dangling_def refs f(1-13)
  proof (intro conjI ballI allI impI)
    show "distinct (file_infos t)" using nd f(16) by (simp add: no_dangling_def)
    show "set (output_refs s r) \<subseteq> set (file_infos t)" if "r \<in> set (results s)" for r
      using that nd same n(1) by (intro sub [of _ "r_project (res s r)"]) (auto simp: no_dangling_def same_project_def)
    show "set (input_refs s w) \<subseteq> set (file_infos t)" if "w \<in> set (workunits s)" for w
      using that nd same n(2) by (intro sub [of _ "wu_project (wunit s w)"]) (auto simp: no_dangling_def same_project_def)
    show "set (app_refs s v) \<subseteq> set (file_infos t)" if "v \<in> set (app_versions s)" for v
      using that nd same assms(3) by (intro sub [of _ "av_project (appver s v)"]) (auto simp: no_dangling_def same_project_def)
    show "set (project_refs s q) \<subseteq> set (file_infos t)" if "q \<in> set (projects t)" for q
      using that nd same by (intro sub [of _ q]) (auto simp: no_dangling_def same_project_def f)
    show "set (transfer_refs s) \<subseteq> set (file_infos t)" using nd n(3) by (auto simp: no_dangling_def f)
  qed (use nd in \<open>auto simp: no_dangling_def f\<close>)
  moreover have "same_project t"
    using same n(1,2) assms(3,4) unfolding same_project_def refs_within_def app_within_def refs f by simp
  moreover have "transfers_linked t" using assms(1) by (simp add: transfers_linked_def t_def)
  ultimately show ?thesis by (simp add: t_def)
qed

text \<open>C35: Detaching from a project leaves nothing of it: the project is no longer in the list, every remaining object
  belongs to one of the projects that are, and no pointer leads to a deleted object. The other projects keep
  their tasks, transfers and unacknowledged results.\<close>
theorem detach_project_leaves_nothing:
  assumes "well_owned s" "distinct (projects s)" "t = detach_project io reaped p s"
  shows "well_owned t \<and> projects t = remove1 p (projects s) \<and> p \<notin> set (projects t) \<and> others_kept p s t"
proof -
  define s1 where "s1 = reset_project io reaped p True s"
  define s2 where "s2 = s1\<lparr>file_infos := filter (\<lambda>f. fi_project (finfo s1 f) \<noteq> p) (file_infos s1)\<rparr>"
  define s3 where "s3 = (if lookup_project s2 (gp_source_project (global_prefs s2)) = Some p
    then s2\<lparr>global_prefs := GLOBAL_PREFS_defaults (global_prefs s2)\<rparr> else s2)"
  define s4 where "s4 = s3\<lparr>projects := remove1 p (projects s3)\<rparr>"
  define u where "u = s1\<lparr>file_infos := filter (\<lambda>f. fi_project (finfo s1 f) \<noteq> p) (file_infos s1), projects := remove1 p (projects s1)\<rparr>"
  have t: "t = request_work_fetch (request_schedule_cpus (adjust_debts s4))"
    by (simp only: assms(3) detach_project_def Let_def s1_def s2_def s3_def s4_def)
  note r = reset_project_state [OF assms(1) s1_def]
  have "pointers_ok u" unfolding u_def
    using r(1,3,6) assms(2) by (intro erase_project_pointers) (simp_all add: well_owned_def r(2))
  moreover have "so_state (sched_op s1) \<noteq> SCHEDULER_OP_STATE_IDLE \<Longrightarrow> \<exists>q \<in> set (projects u). so_cur_proj (sched_op s1) = Some q"
    using r(1,3) assms(2) by (auto simp: well_owned_def no_work_of_def u_def r(2))
  ultimately have wu: "well_owned u" by (simp add: well_owned_def u_def)
  have "reach_view s4 = reach_view u" by (simp add: s4_def s3_def s2_def u_def reach_view_def)
  then have v: "reach_view t = reach_view u"
    by (simp add: t request_work_fetch_def request_schedule_cpus_def reach_adjust_debts)
  have "projects t = remove1 p (projects s)" by (simp add: reach_viewD(1) [OF v] u_def r(2))
  moreover have "others_kept p s t" using r(4) by (simp add: others_kept_def reach_viewD [OF v] u_def)
  ultimately show ?thesis using wu assms(2) by (simp add: reach_well_owned [OF v])
qed

theorem detach_project_leaves_nothing_witness:
  "let t = detach_project sample_task_io (\<lambda>_ _. False) 1 two_projects
   in projects t = [0] \<and> results t = [0] \<and> active_tasks t = [0] \<and> pers_file_xfers t = [0] \<and> well_owned t"
proof -
  define t where "t = detach_project sample_task_io (\<lambda>_ _. False) 1 two_projects"
  have "others_kept 1 two_projects t \<and> projects t = remove1 1 (projects two_projects) \<and> well_owned t"
    using detach_project_leaves_nothing [OF two_projects_ok t_def] by blast
  then show ?thesis
    unfolding t_def [symmetric] Let_def others_kept_def by (simp add: live_result_def two_projects_def sample_defs)
qed

text \<open>When the client quits, no process of a task is left.\<close>

theorem quit_activities_ends_all:
  assumes "a \<in> set (active_tasks s)"
  shows "\<not> process_exists (task (quit_activities io reaped s) a)"
proof -
  have "a \<in> set (active_tasks (adjust_debts s))" using assms reach_viewD(3) [OF reach_adjust_debts] by simp
  then obtain u where "exit_tasks io reaped None (adjust_debts s) = request_schedule_cpus (get_msgs io u)" "\<not> process_exists (task u a)"
    using exit_tasks_before_msgs [of a "adjust_debts s" None io reaped] by (auto simp: concerns_def)
  then show ?thesis using get_msgs_skips by (simp add: quit_activities_def request_schedule_cpus_def)
qed

end
