(* ===== verification/Line_File.thy ===== *)
theory Line_File
  imports Prefs_Subset
begin

text \<open>
  Reading a file line by line (\<open>MIOFILE::fgets\<close> of \<open>lib/miofile.C\<close>, the loops of the \<open>parse\<close> methods in
  \<open>client/client_types.C\<close>, \<open>client/app.C\<close>, \<open>client/time_stats.C\<close> and \<open>client/net_stats.C\<close>). A line goes into a
  buffer, and a chain of conditions looks for the tag of each field in it; the first one that is found
  sets its field. The lemmas say what this makes of the lines that \<open>XmlTag\<close> of \<open>lib/xml_write.h\<close> writes.
\<close>

section \<open>Lines\<close>

abbreviation newline :: char where "newline \<equiv> char_of (10 :: nat)"

text \<open>\<open>fgets\<close> with a buffer of \<open>n\<close> bytes: at most \<open>n - 1\<close> characters, up to the end of the line.\<close>

definition fgets :: "nat \<Rightarrow> string \<Rightarrow> (string \<times> string) option" where
  "fgets n inp =
     (if inp = [] then None
      else let k = min (n - 1) (Suc (length (takeWhile (\<lambda>c. c \<noteq> newline) inp))) in Some (take k inp, drop k inp))"

text \<open>
  A loop over lines: the body gets the line and the rest of the file and goes on with a rest, or
  returns a value. It never gives input back, so the loop ends with the file.
\<close>

datatype 'a step = Continue 'a string | Return int 'a string

function line_loop :: "nat \<Rightarrow> (string \<Rightarrow> string \<Rightarrow> 'a \<Rightarrow> 'a step) \<Rightarrow> string \<Rightarrow> 'a \<Rightarrow> int \<times> 'a \<times> string" where
  "line_loop n body inp x =
     (case fgets n inp of
        None \<Rightarrow> (ERR_XML_PARSE, x, inp)
      | Some (buf, rest) \<Rightarrow>
          case body buf rest x of
            Return retval y r \<Rightarrow> (retval, y, r)
          | Continue y r \<Rightarrow> if length r < length inp then line_loop n body r y else (ERR_XML_PARSE, y, r))"
  by pat_completeness auto
termination
  by (relation "measure (\<lambda>(n, body, inp, x). length inp)") auto

declare line_loop.simps [simp del]

section \<open>Fields\<close>

text \<open>A field of a class: its tag, and for text the size of the destination.\<close>

datatype 'a line_field =
    Str_F (field_name: string) nat "string \<Rightarrow> 'a \<Rightarrow> 'a"
  | Dbl_F (field_name: string) "real \<Rightarrow> 'a \<Rightarrow> 'a"
  | Int_F (field_name: string) "int \<Rightarrow> 'a \<Rightarrow> 'a"
  | Bool_F (field_name: string) "bool \<Rightarrow> 'a \<Rightarrow> 'a"

definition open_tag :: "string \<Rightarrow> string" where
  "open_tag name = ''<'' @ name @ ''>''"

text \<open>
  One of \<open>parse_str\<close>, \<open>parse_double\<close>, \<open>parse_int\<close> and \<open>parse_bool\<close>; \<open>erange\<close> is whether \<open>errno\<close> is \<open>ERANGE\<close>, which
  \<open>parse_int\<close> reads and sets.
\<close>

definition try_field :: "'a line_field \<Rightarrow> bool \<Rightarrow> string \<Rightarrow> 'a \<Rightarrow> 'a option \<times> bool" where
  "try_field f erange buf x = (case f of
     Str_F name n upd \<Rightarrow> (case parse_str buf (open_tag name) n of Some (Some v) \<Rightarrow> Some (upd v x) | _ \<Rightarrow> None, erange)
   | Dbl_F name upd \<Rightarrow> (map_option (\<lambda>v. upd v x) (parse_double_line buf (open_tag name)), erange)
   | Int_F name upd \<Rightarrow> (case parse_int_line erange buf (open_tag name) of (v, e) \<Rightarrow> (map_option (\<lambda>v. upd v x) v, e))
   | Bool_F name upd \<Rightarrow> (case parse_bool_line erange buf name of (v, e) \<Rightarrow> (map_option (\<lambda>v. upd v x) v, e)))"

fun line_fields :: "'a line_field list \<Rightarrow> bool \<Rightarrow> string \<Rightarrow> 'a \<Rightarrow> 'a option \<times> bool" where
  "line_fields [] erange buf x = (None, erange)"
| "line_fields (f # fs) erange buf x =
     (case try_field f erange buf x of
        (Some y, e) \<Rightarrow> (Some y, e)
      | (None, e) \<Rightarrow> line_fields fs e buf x)"

section \<open>Chains of conditions\<close>

text \<open>
  With the object goes whether \<open>errno\<close> is \<open>ERANGE\<close>. The loop continues when one of the fields matches;
  otherwise the chain goes on. Lines that nothing recognises are skipped.
\<close>

type_synonym 'a parsed = "'a \<times> bool"

definition or_else :: "'a line_field list \<Rightarrow> string \<Rightarrow> string \<Rightarrow> 'a parsed \<Rightarrow> ('a parsed \<Rightarrow> 'a parsed step) \<Rightarrow> 'a parsed step" where
  "or_else fs buf rest x other =
     (case line_fields fs (snd x) buf (fst x) of
        (Some y, e) \<Rightarrow> Continue (y, e) rest
      | (None, e) \<Rightarrow> other (fst x, e))"

definition skip_line :: "string \<Rightarrow> 'a parsed \<Rightarrow> 'a parsed step" where
  "skip_line rest x = Continue x rest"

text \<open>The tags end in \<open>'>'\<close>, so \<open>parse_str\<close> finds the end of the tag.\<close>

lemma parse_str_defined: "parse_str buf (open_tag name) n \<noteq> None"
proof -
  have "CHR ''>'' \<in> set p" if "strstr_from (open_tag name) buf = Some p" for p
  proof -
    have "take (length (open_tag name)) p = open_tag name"
      using that by (induction "open_tag name" buf rule: strstr_from.induct) (auto split: if_splits)
    then have "set (open_tag name) \<subseteq> set p" by (metis set_take_subset)
    then show ?thesis by (simp add: open_tag_def)
  qed
  then have "dropWhile (\<lambda>c. c \<noteq> CHR ''>'') p \<noteq> []" if "strstr_from (open_tag name) buf = Some p" for p
    using that by auto
  then show ?thesis by (auto simp: parse_str_def split: option.split list.split)
qed

text \<open>\<open>copy_element_contents\<close> into a string.\<close>

definition copy_body :: "string \<Rightarrow> string \<Rightarrow> string \<Rightarrow> string \<Rightarrow> string step" where
  "copy_body end_tag buf rest x = (if match_tag buf end_tag then Return 0 x rest else Continue (x @ buf) rest)"

definition copy_element_contents :: "string \<Rightarrow> string \<Rightarrow> int \<times> string \<times> string" where
  "copy_element_contents end_tag inp = line_loop 256 (copy_body end_tag) inp []"

text \<open>\<open>copy_element_contents\<close> into a buffer of \<open>len\<close> bytes.\<close>

definition copy_buf_body :: "string \<Rightarrow> string \<Rightarrow> string \<Rightarrow> string \<times> int \<Rightarrow> (string \<times> int) step" where
  "copy_buf_body end_tag buf rest x =
     (if match_tag buf end_tag then Return 0 x rest
      else if int (length buf) \<ge> snd x - 1 then Return ERR_XML_PARSE x rest
      else Continue (fst x @ buf, snd x - int (length buf)) rest)"

definition copy_element_contents_buf :: "string \<Rightarrow> int \<Rightarrow> string \<Rightarrow> int \<times> string \<times> string" where
  "copy_element_contents_buf end_tag len inp =
     (case line_loop 256 (copy_buf_body end_tag) inp ([], len) of (retval, x, rest) \<Rightarrow> (retval, fst x, rest))"

section \<open>Finding tags in written lines\<close>

definition plain_name :: "string \<Rightarrow> bool" where
  "plain_name name = (name \<noteq> [] \<and> (\<forall>c \<in> set name. c \<notin> {CHR ''<'', CHR ''>'', CHR ''/'', newline}))"

definition flag_line :: "string \<Rightarrow> string" where
  "flag_line name = ''<'' @ name @ ''/>'' @ NL"

text \<open>What \<open>XmlTag\<close> and the stream operators write.\<close>

abbreviation put_dbl :: "string \<Rightarrow> real \<Rightarrow> string" where "put_dbl name v \<equiv> write_tag name (show_fixed 6 v)"
abbreviation put_int :: "string \<Rightarrow> int \<Rightarrow> string" where "put_int name v \<equiv> write_tag name (string_of_int v)"
abbreviation put_flag :: "string \<Rightarrow> bool \<Rightarrow> string" where "put_flag name b \<equiv> if b then flag_line name else []"
abbreviation tag_line :: "string \<Rightarrow> string" where "tag_line name \<equiv> ''<'' @ name @ ''>'' @ NL"
abbreviation end_line :: "string \<Rightarrow> string" where "end_line name \<equiv> ''</'' @ name @ ''>'' @ NL"

lemma delimited:
  assumes "plain_name a" "plain_name b" "d \<in> {CHR ''>'', CHR ''/''}" "d' \<in> {CHR ''>'', CHR ''/''}"
    and "take n (b @ d # r) = a @ d' # u"
  shows "a = b \<and> d = d'"
proof -
  define P where "P c = (c \<noteq> CHR ''>'' \<and> c \<noteq> CHR ''/'')" for c
  have eq: "b @ d # r = a @ d' # u @ drop n (b @ d # r)" using assms(5) append_take_drop_id [of n "b @ d # r"] by simp
  have "takeWhile P (b @ d # r) = b" "takeWhile P (a @ d' # w) = a" for w
    using assms(1-4) by (auto simp: takeWhile_append P_def plain_name_def takeWhile_eq_all_conv)
  then have "a = b" using eq by metis
  then show ?thesis using eq by simp
qed

lemma strstr_at:
  assumes "CHR ''<'' \<notin> set b"
  shows "strstr_from (CHR ''<'' # q) (CHR ''<'' # b) = (if take (length q) b = q then Some (CHR ''<'' # b) else None)"
proof -
  have "strstr_from (CHR ''<'' # q) b = None" using strstr_from_skip [OF assms, of q "[]"] by simp
  then show ?thesis by simp
qed

lemma strstr_at2:
  assumes "CHR ''<'' \<notin> set a" "CHR ''<'' \<notin> set b"
  shows "strstr_from (CHR ''<'' # q) (CHR ''<'' # a @ CHR ''<'' # b)
    = (if take (length q) (a @ CHR ''<'' # b) = q then Some (CHR ''<'' # a @ CHR ''<'' # b)
       else if take (length q) b = q then Some (CHR ''<'' # b) else None)"
proof -
  have "strstr_from (CHR ''<'' # q) (a @ CHR ''<'' # b) = (if take (length q) b = q then Some (CHR ''<'' # b) else None)"
    by (simp only: strstr_from_skip [OF assms(1)] strstr_at [OF assms(2)])
  then show ?thesis by (simp only: strstr_from.simps(2) list.size take_Suc_Cons list.inject simp_thms add_Suc_right add_0_right)
qed

lemma written_lines:
  "write_tag name v = CHR ''<'' # (name @ ''>'' @ v) @ CHR ''<'' # (CHR ''/'' # name @ ''>'' @ NL)"
  "flag_line name = CHR ''<'' # (name @ ''/>'' @ NL)" "''</'' @ name @ ''>'' @ NL = CHR ''<'' # (CHR ''/'' # name @ ''>'' @ NL)"
  by (simp_all add: write_tag_def flag_line_def)

lemma newline_char: "newline = CHR 0x0A" by code_simp

lemma set_NL: "set NL = {CHR 0x0A}" by (simp only: NL_def newline_char list.set)

lemma no_open:
  assumes "plain_name name" "CHR ''<'' \<notin> set v"
  shows "CHR ''<'' \<notin> set (name @ ''>'' @ v)" "CHR ''<'' \<notin> set (CHR ''/'' # name @ ''>'' @ NL)" "CHR ''<'' \<notin> set (name @ ''/>'' @ NL)"
  using assms unfolding plain_name_def by (auto simp: set_NL)

lemma strstr_open:
  assumes "plain_name name" "CHR ''<'' \<notin> set v" "q \<noteq> []" "hd q \<noteq> CHR ''/''"
  shows "strstr_from (CHR ''<'' # q) (write_tag name v)
    = (if take (length q) (name @ ''>'' @ v @ ''</'' @ name @ ''>'' @ NL) = q then Some (write_tag name v) else None)"
    and "strstr_from (CHR ''<'' # q) (flag_line name)
    = (if take (length q) (name @ ''/>'' @ NL) = q then Some (flag_line name) else None)"
proof -
  note n = no_open [OF assms(1,2)]
  have c: "take (length q) (CHR ''/'' # r) \<noteq> q" for r using assms(3,4) by (cases q) auto
  have a: "name @ ''>'' @ v @ ''</'' @ name @ ''>'' @ NL = (name @ ''>'' @ v) @ CHR ''<'' # CHR ''/'' # name @ ''>'' @ NL" by simp
  show "strstr_from (CHR ''<'' # q) (write_tag name v)
    = (if take (length q) (name @ ''>'' @ v @ ''</'' @ name @ ''>'' @ NL) = q then Some (write_tag name v) else None)"
    unfolding written_lines(1) strstr_at2 [OF n(1,2)] using c by (simp only: if_False a append_assoc append_Cons append_Nil)
  show "strstr_from (CHR ''<'' # q) (flag_line name)
    = (if take (length q) (name @ ''/>'' @ NL) = q then Some (flag_line name) else None)"
    unfolding written_lines strstr_at [OF n(3)] ..
qed

lemma strstr_close:
  assumes "plain_name name" "plain_name t" "CHR ''<'' \<notin> set v"
  shows "match_tag (write_tag name v) (''</'' @ t @ ''>'') \<longleftrightarrow> t = name" "\<not> match_tag (flag_line name) (''</'' @ t @ ''>'')"
    "match_tag (''</'' @ name @ ''>'' @ NL) (''</'' @ t @ ''>'') \<longleftrightarrow> t = name"
proof -
  note n = no_open [OF assms(1,3)]
  define q where "q = CHR ''/'' # t @ ''>''"
  have pat: "''</'' @ t @ ''>'' = CHR ''<'' # q" by (simp add: q_def)
  have d: "take (length q) (CHR ''/'' # name @ ''>'' @ NL) = q \<longleftrightarrow> t = name"
    using delimited [OF assms(2,1), of "CHR ''>''" "CHR ''>''" "length t + 1" NL "[]"] by (auto simp: q_def)
  obtain c cs where c: "name = c # cs" "c \<noteq> CHR ''/''" using assms(1) by (cases name) (auto simp: plain_name_def)
  have h: "take (length q) (name @ r) \<noteq> q" for r by (simp add: q_def c)
  have h1: "take (length q) ((name @ ''>'' @ v) @ r) \<noteq> q" for r using h [of "''>'' @ v @ r"] by simp
  show "match_tag (write_tag name v) (''</'' @ t @ ''>'') \<longleftrightarrow> t = name"
    unfolding match_tag_def pat written_lines strstr_at2 [OF n(1,2)] using h1 d by simp
  show "match_tag (''</'' @ name @ ''>'' @ NL) (''</'' @ t @ ''>'') \<longleftrightarrow> t = name"
    unfolding match_tag_def pat written_lines strstr_at [OF n(2)] using d by simp
  show "\<not> match_tag (flag_line name) (''</'' @ t @ ''>'')"
    unfolding match_tag_def pat written_lines strstr_at [OF n(3)] using h by simp
qed

lemma strstr_field:
  assumes "plain_name name" "plain_name t" "CHR ''<'' \<notin> set v"
  shows "strstr_from (open_tag t) (write_tag name v) = (if t = name then Some (write_tag name v) else None)"
    "strstr_from (open_tag t) (flag_line name) = None"
    "strstr_from (''<'' @ t @ ''/>'') (write_tag name v) = None"
    "strstr_from (''<'' @ t @ ''/>'') (flag_line name) = (if t = name then Some (flag_line name) else None)"
proof -
  have q: "t @ ''>'' \<noteq> []" "hd (t @ ''>'') \<noteq> CHR ''/''" "t @ ''/>'' \<noteq> []" "hd (t @ ''/>'') \<noteq> CHR ''/''"
    using assms(2) by (auto simp: plain_name_def hd_append)
  note d = delimited [OF assms(2,1)]
  have "take (length (t @ ''>'')) (name @ ''>'' @ v @ ''</'' @ name @ ''>'' @ NL) = t @ ''>'' \<longleftrightarrow> t = name"
    using d [of "CHR ''>''" "CHR ''>''" "length (t @ ''>'')" "v @ ''</'' @ name @ ''>'' @ NL" "[]"] by auto
  then show "strstr_from (open_tag t) (write_tag name v) = (if t = name then Some (write_tag name v) else None)"
    using strstr_open(1) [OF assms(1,3) q(1,2)] by (simp add: open_tag_def)
  have "take (length (t @ ''/>'')) (name @ ''>'' @ v @ ''</'' @ name @ ''>'' @ NL) \<noteq> t @ ''/>''"
    using d [of "CHR ''>''" "CHR ''/''" "length (t @ ''/>'')" "v @ ''</'' @ name @ ''>'' @ NL" "''>''"] by auto
  then show "strstr_from (''<'' @ t @ ''/>'') (write_tag name v) = None"
    using strstr_open(1) [OF assms(1,3) q(3,4)] by simp
  have "take (length (t @ ''>'')) (name @ ''/>'' @ NL) \<noteq> t @ ''>''"
    using d [of "CHR ''/''" "CHR ''>''" "length (t @ ''>'')" "''>'' @ NL" "[]"] by auto
  then show "strstr_from (open_tag t) (flag_line name) = None"
    using strstr_open(2) [OF assms(1,3) q(1,2)] by (simp add: open_tag_def)
  have "take (length (t @ ''/>'')) (name @ ''/>'' @ NL) = t @ ''/>'' \<longleftrightarrow> t = name"
    using d [of "CHR ''/''" "CHR ''/''" "length (t @ ''/>'')" "''>'' @ NL" "''>''"] by auto
  then show "strstr_from (''<'' @ t @ ''/>'') (flag_line name) = (if t = name then Some (flag_line name) else None)"
    using strstr_open(2) [OF assms(1,3) q(3,4)] by simp
qed

section \<open>Reading the values\<close>

text \<open>Text that is read as it was written: no markup, no references, no white space at the ends.\<close>

definition clean :: "string \<Rightarrow> bool" where
  "clean v = ((\<forall>c \<in> set v. c \<notin> {CHR ''<'', CHR ''&'', newline} \<and> code c \<noteq> 0)
     \<and> (v \<noteq> [] \<longrightarrow> \<not> is_space (hd v) \<and> \<not> is_space (last v)))"

lemma unescape_plain:
  assumes "CHR ''&'' \<notin> set v" "int (length out) + int (length v) \<le> len - 1"
  shows "xml_unescape_loop len out v = out @ v"
  using assms
proof (induction v arbitrary: out)
  case Nil
  then show ?case by (simp add: xml_unescape_loop.simps)
next
  case (Cons c v)
  have step: "xml_unescape_step (c # v) = (c, v)" using Cons.prems(1) by (auto simp: xml_unescape_step_def)
  show ?case
  proof (cases "int (length (out @ [c])) \<ge> len - 1")
    case True
    have "int (length (c # v)) = int (length v) + 1" "int (length (out @ [c])) = int (length out) + 1" by simp_all
    then have "int (length v) \<le> 0" using True Cons.prems(2) by linarith
    then have v: "v = []" by simp
    have len: "len - 1 = int (length (out @ [c]))" using True Cons.prems(2) by (simp add: v)
    have "take (nat (len - 1)) (out @ [c]) = out @ [c]" unfolding len nat_int by simp
    then show ?thesis using True unfolding v by (subst xml_unescape_loop.simps) (simp add: step [unfolded v] Let_def)
  next
    case False
    then show ?thesis
      using Cons.IH [of "out @ [c]"] Cons.prems by (subst xml_unescape_loop.simps) (simp add: step Let_def)
  qed
qed

lemma strip_clean: "(v \<noteq> [] \<longrightarrow> \<not> is_space (hd v) \<and> \<not> is_space (last v)) \<Longrightarrow> strip_whitespace v = v"
proof (cases "v = []")
  case False
  assume "v \<noteq> [] \<longrightarrow> \<not> is_space (hd v) \<and> \<not> is_space (last v)"
  then have "dropWhile is_space v = v" "dropWhile is_space (rev v) = rev v"
    using False by (auto simp: dropWhile_eq_self_iff hd_rev)
  then show ?thesis by (simp add: strip_whitespace_def)
qed (simp add: strip_whitespace_def)

lemma parse_str_written:
  assumes "plain_name name" "clean v" "length v < n"
  shows "parse_str (write_tag name v) (open_tag name) n = Some (Some v)"
proof -
  have lt: "CHR ''<'' \<notin> set v" and amp: "CHR ''&'' \<notin> set v" and z: "\<forall>c \<in> set v. code c \<noteq> 0"
    and sp: "v \<noteq> [] \<longrightarrow> \<not> is_space (hd v) \<and> \<not> is_space (last v)"
    using assms(2) by (auto simp: clean_def)
  define r where "r = CHR ''/'' # name @ ''>'' @ NL"
  have w: "write_tag name v = (CHR ''<'' # name) @ CHR ''>'' # v @ CHR ''<'' # r" by (simp add: write_tag_def r_def)
  have gt: "\<forall>c \<in> set (CHR ''<'' # name). c \<noteq> CHR ''>''" using assms(1) by (auto simp: plain_name_def)
  then have d: "dropWhile (\<lambda>c. c \<noteq> CHR ''>'') (write_tag name v) = CHR ''>'' # v @ CHR ''<'' # r"
    unfolding w by (subst dropWhile_append2) (blast, simp)
  have t: "takeWhile (\<lambda>c. c \<noteq> CHR ''<'') (v @ CHR ''<'' # r) = v"
    using lt by (subst takeWhile_append2) auto
  have u: "xml_unescape v (int n) = v"
    using unescape_plain [OF amp, of "[]" "int n"] assms(3) z by (simp add: xml_unescape_def takeWhile_eq_all_conv)
  have "take (n - 1) v = v" using assms(3) by simp
  then show ?thesis
    unfolding parse_str_def strstr_field(1) [OF assms(1,1) lt] using d t u strip_clean [OF sp] by simp
qed

lemma drop_open: "drop (length (open_tag name)) (write_tag name v) = v @ CHR ''<'' # CHR ''/'' # name @ ''>'' @ NL"
  by (simp add: open_tag_def write_tag_def)

lemma strtod_rest:
  fixes u :: string
  assumes "0 < n"
  defines "r \<equiv> CHR ''<'' # u"
  shows "strtod (show_fixed n x @ r) = (fixed_value n x, r)"
proof -
  define k where "k = nat (round_even (\<bar>x\<bar> * 10 ^ n))"
  define t where "t = digits (k div 10 ^ n) @ CHR ''.'' # padded_digits n (k mod 10 ^ n) @ r"
  have dot: "\<not> is_digit CHR ''.''" "\<not> is_digit CHR ''<''" by (simp_all add: is_digit_def)
  have eq: "real (k div 10 ^ n) + real (k mod 10 ^ n) / 10 ^ n = real k / 10 ^ n"
  proof -
    have k: "real k = real (k div 10 ^ n) * 10 ^ n + real (k mod 10 ^ n)"
      using arg_cong [OF div_mult_mod_eq [of k "10 ^ n"], of real] by (simp only: of_nat_add of_nat_mult of_nat_power of_nat_numeral)
    show ?thesis by (subst k) (simp add: add_divide_distrib)
  qed
  have pd: "takeWhile is_digit (padded_digits n m @ r) = padded_digits n m" "dropWhile is_digit (padded_digits n m @ r) = r" for m
    using padded_digits_are_digits [of _ n m] dot by (simp_all add: takeWhile_append dropWhile_append r_def)
  have fr: "skip_fraction (CHR ''.'' # padded_digits n (k mod 10 ^ n) @ r) = (padded_digits n (k mod 10 ^ n), r)"
    by (simp add: skip_fraction_def pd)
  have ex: "skip_exponent r = (0, r)" by (simp add: skip_exponent_def r_def)
  have sg: "skip_sign (dropWhile is_space t) = (False, t)" "skip_sign (dropWhile is_space (CHR ''-'' # t)) = (True, t)"
    unfolding t_def by (rule skip_sign_digits)+
  have tk: "takeWhile is_digit t = digits (k div 10 ^ n)" "dropWhile is_digit t = CHR ''.'' # padded_digits n (k mod 10 ^ n) @ r"
    unfolding t_def by (rule digits_prefix [OF dot(1)])+
  have v: "(real_of_int (digits_value (digits (k div 10 ^ n))) + real_of_int (digits_value (padded_digits n (k mod 10 ^ n))) / 10 ^ length (padded_digits n (k mod 10 ^ n)))
      * power10 0 = real k / 10 ^ n"
    using eq by (simp add: power10_def)
  have pos: "strtod t = (real k / 10 ^ n, r)" "strtod (CHR ''-'' # t) = (- (real k / 10 ^ n), r)"
    unfolding strtod_def sg prod.case tk fr Let_def ex by (simp_all only: v digits_not_empty simp_thms if_False if_True)
  have kk: "real k = of_int (round_even (\<bar>x\<bar> * 10 ^ n))" by (simp add: k_def round_even_nonneg)
  have fv: "fixed_value n x = (if x < 0 then - (real k / 10 ^ n) else real k / 10 ^ n)"
    using kk by (simp add: fixed_value_def)
  have sf: "show_fixed n x @ r = (if x < 0 then CHR ''-'' # t else t)"
    using assms(1) unfolding show_fixed_def Let_def k_def [symmetric] t_def by simp
  show ?thesis unfolding sf fv using pos by simp
qed

lemma fixed_no_open: "CHR ''<'' \<notin> set (show_fixed n x)"
  using text_ok_fixed [of n x] by (auto simp: text_ok_def)

lemma parse_double_written:
  assumes "plain_name name"
  shows "parse_double_line (write_tag name (show_fixed 6 d)) (open_tag name) = Some (fixed_value 6 d)"
  unfolding parse_double_line_def strstr_field(1) [OF assms assms fixed_no_open] by (simp add: drop_open strtod_rest)

lemma digits_zero: "digits 0 = ''0''" by code_simp

lemma strtol_rest:
  fixes u :: string
  assumes "int m < 2 ^ 63"
  defines "r \<equiv> CHR ''<'' # u"
  shows "strtol (digits m @ r) = (int m, False, r)" "strtol (CHR ''-'' # digits m @ r) = (- int m, False, r)"
proof -
  have nd: "\<not> digit_value CHR ''<'' < 16" "\<not> digit_value CHR ''<'' < 10" "\<not> digit_value CHR ''<'' < 8"
    by (simp_all add: digit_value_def is_digit_def)
  have w: "takeWhile (\<lambda>c. digit_value c < b) (digits m @ r) = digits m" "dropWhile (\<lambda>c. digit_value c < b) (digits m @ r) = r"
    if "b = 10 \<or> b = 8 \<and> m = 0" for b
  proof -
    have "\<forall>c \<in> set (digits m). digit_value c < b"
    proof (cases "b = 10")
      case True
      then show ?thesis using digits_are_digits digit_value_digit by blast
    next
      case False
      then have "m = 0" "b = 8" using that by auto
      then show ?thesis by (simp add: digits_zero digit_value_def is_digit_def)
    qed
    moreover have "\<not> digit_value CHR ''<'' < b" using that nd by auto
    ultimately show "takeWhile (\<lambda>c. digit_value c < b) (digits m @ r) = digits m" "dropWhile (\<lambda>c. digit_value c < b) (digits m @ r) = r"
      by (simp_all add: r_def takeWhile_append dropWhile_append)
  qed
  define b where "b = (if m = 0 then 8 else 10 :: nat)"
  have nb: "number_base (digits m @ r) = (b, digits m @ r)"
  proof (cases "m = 0")
    case True
    then show ?thesis by (simp add: number_base_def b_def r_def digits_zero)
  next
    case False
    obtain c cs where c: "digits m = c # cs" by (cases "digits m") auto
    then have "c \<noteq> CHR ''0''" using digits_leading [of m] False by simp
    then show ?thesis using c False by (simp add: number_base_def b_def)
  qed
  have v: "based_value b (digits m) = m"
    using based_value_digits [of m] by (simp add: b_def based_value_def digits_zero digit_value_def is_digit_def)
  have wb: "takeWhile (\<lambda>c. digit_value c < b) (digits m @ r) = digits m" "dropWhile (\<lambda>c. digit_value c < b) (digits m @ r) = r"
    using w [of b] by (simp_all add: b_def)
  have range: "\<not> int m > 2 ^ 63 - 1" "\<not> int m < - (2 ^ 63)" "\<not> - int m > 2 ^ 63 - 1" "\<not> - int m < - (2 ^ 63)"
    using assms(1) by simp_all
  show "strtol (digits m @ r) = (int m, False, r)" "strtol (CHR ''-'' # digits m @ r) = (- int m, False, r)"
    unfolding strtol_def skip_sign_digits prod.case nb Let_def wb v
    by (simp_all only: digits_not_empty if_False if_True range)
qed

lemma string_of_int_no_open: "CHR ''<'' \<notin> set (string_of_int i)"
proof -
  have "\<not> is_digit CHR ''<''" by (simp add: is_digit_def)
  then have "CHR ''<'' \<notin> set (digits m)" for m using digits_are_digits by blast
  then show ?thesis by (simp add: string_of_int_def)
qed

lemma parse_int_written:
  assumes "plain_name name" "- (2 ^ 31) \<le> i" "i < 2 ^ 31"
  shows "parse_int_line False (write_tag name (string_of_int i)) (open_tag name) = (Some i, False)"
proof -
  have "strtol (string_of_int i @ CHR ''<'' # u) = (i, False, CHR ''<'' # u)" for u
    using assms(2,3) strtol_rest [of "nat i" u] strtol_rest [of "nat (- i)" u] by (auto simp: string_of_int_def)
  then show ?thesis
    unfolding parse_int_line_def strstr_field(1) [OF assms(1,1) string_of_int_no_open]
    using int_of_long_id [OF assms(2,3)] by (simp add: drop_open)
qed

section \<open>Written lines and chains of fields\<close>

text \<open>The value of a field as it is written, and the fields that read it back.\<close>

definition reads :: "'a line_field \<Rightarrow> string \<Rightarrow> 'a \<Rightarrow> 'a \<Rightarrow> bool" where
  "reads f v x y = (case f of
     Str_F name n upd \<Rightarrow> clean v \<and> length v < n \<and> y = upd v x
   | Dbl_F name upd \<Rightarrow> (\<exists>d. v = show_fixed 6 d \<and> y = upd (fixed_value 6 d) x)
   | Int_F name upd \<Rightarrow> (\<exists>i. v = string_of_int i \<and> - (2 ^ 31) \<le> i \<and> i < 2 ^ 31 \<and> y = upd i x)
   | Bool_F name upd \<Rightarrow> False)"

lemma reads_no_open: "reads f v x y \<Longrightarrow> CHR ''<'' \<notin> set v"
  using fixed_no_open string_of_int_no_open by (auto simp: reads_def clean_def split: line_field.splits)

lemma try_field_hit:
  assumes "plain_name (field_name f)" "reads f v x y"
  shows "try_field f False (write_tag (field_name f) v) x = (Some y, False)"
  using assms parse_str_written parse_double_written parse_int_written
  by (cases f) (auto simp: reads_def try_field_def)

lemma try_field_miss:
  assumes "plain_name (field_name f)" "plain_name name" "CHR ''<'' \<notin> set v" "field_name f \<noteq> name"
  shows "try_field f e (write_tag name v) x = (None, e)" "try_field f e (flag_line name) x = (None, e)"
proof -
  note m = strstr_field [OF assms(2,1,3)]
  show "try_field f e (write_tag name v) x = (None, e)"
    using m(1,3) assms(4) unfolding open_tag_def
    by (cases f) (simp_all add: try_field_def parse_str_def parse_double_line_def parse_int_line_def parse_bool_line_def match_tag_def
        open_tag_def)
  show "try_field f e (flag_line name) x = (None, e)"
    using m(2,4) assms(4) unfolding open_tag_def
    by (cases f) (simp_all add: try_field_def parse_str_def parse_double_line_def parse_int_line_def parse_bool_line_def match_tag_def
        open_tag_def)
qed

lemma try_flag:
  assumes "plain_name name"
  shows "try_field (Bool_F name upd) e (flag_line name) x = (Some (upd True x), e)"
    "try_field (Str_F name n upds) e (flag_line name) x = (None, e)" "try_field (Dbl_F name updd) e (flag_line name) x = (None, e)"
    "try_field (Int_F name updi) e (flag_line name) x = (None, e)"
  using strstr_field(2,4) [OF assms assms, of "[]"]
  by (simp_all add: try_field_def parse_bool_line_def match_tag_def parse_str_def parse_double_line_def parse_int_line_def)

abbreviation plain_fields :: "'a line_field list \<Rightarrow> bool" where
  "plain_fields fs \<equiv> list_all (\<lambda>f. plain_name (field_name f)) fs"

lemma line_fields_miss:
  assumes "plain_fields fs" "plain_name name" "CHR ''<'' \<notin> set v" "name \<notin> field_name ` set fs"
  shows "line_fields fs e (write_tag name v) x = (None, e)" "line_fields fs e (flag_line name) x = (None, e)"
  using assms by (induction fs) (auto simp: try_field_miss)

lemma line_fields_hit:
  assumes "plain_fields fs" "plain_name name" "find (\<lambda>f. field_name f = name) fs = Some f" "reads f v x y"
  shows "line_fields fs False (write_tag name v) x = (Some y, False)"
  using assms reads_no_open [OF assms(4)]
proof (induction fs)
  case (Cons g fs)
  then show ?case
  proof (cases "field_name g = name")
    case True
    then show ?thesis using Cons.prems try_field_hit [of f v x y] by auto
  qed (auto simp: try_field_miss)
qed simp

lemma line_fields_flag:
  assumes "plain_fields fs" "plain_name name" "find (\<lambda>f. field_name f = name) fs = Some (Bool_F name upd)"
  shows "line_fields fs e (flag_line name) x = (Some (upd True x), e)"
  using assms
proof (induction fs)
  case (Cons g fs)
  then show ?case
  proof (cases "field_name g = name")
    case True
    then show ?thesis using Cons.prems try_flag(1) [of name upd] by auto
  qed (use try_field_miss(2) [of g name "[]"] Cons in auto)
qed simp

section \<open>Reading written lines\<close>

definition short_line :: "string \<Rightarrow> bool" where
  "short_line l = (l \<noteq> [] \<and> last l = newline \<and> newline \<notin> set (butlast l) \<and> length l \<le> 255)"

lemma fgets_line:
  assumes "short_line l"
  shows "fgets 256 (l @ rest) = Some (l, rest)"
proof -
  define b where "b = butlast l"
  have l: "l = b @ [newline]" "newline \<notin> set b" "length l \<le> 255"
    using assms append_butlast_last_id [of l] by (auto simp: short_line_def b_def)
  have "takeWhile (\<lambda>c. c \<noteq> newline) (l @ rest) = b"
    unfolding l(1) using l(2) by (simp add: takeWhile_append)
  then have "min (256 - 1) (Suc (length (takeWhile (\<lambda>c. c \<noteq> newline) (l @ rest)))) = length l" using l(1,3) by simp
  then show ?thesis using l(1) by (simp add: fgets_def Let_def)
qed

lemma line_loop_step:
  assumes "short_line l"
  shows "line_loop 256 body (l @ rest) x =
     (case body l rest x of Return retval y r \<Rightarrow> (retval, y, r)
      | Continue y r \<Rightarrow> if length r < length (l @ rest) then line_loop 256 body r y else (ERR_XML_PARSE, y, r))"
  by (subst line_loop.simps) (simp add: fgets_line [OF assms])

lemma line_loop_continue:
  assumes "short_line l" "body l rest x = Continue y r" "length r \<le> length rest"
  shows "line_loop 256 body (l @ rest) x = line_loop 256 body r y"
proof -
  have "0 < length l" using assms(1) by (simp add: short_line_def)
  then have "length r < length (l @ rest)" using assms(3) unfolding length_append by linarith
  then show ?thesis by (simp add: line_loop_step [OF assms(1)] assms(2))
qed

lemma short_lines:
  assumes "plain_name name"
  shows "length name \<le> 100 \<Longrightarrow> short_line (flag_line name)"
    "newline \<notin> set v \<Longrightarrow> 2 * length name + length v \<le> 249 \<Longrightarrow> short_line (write_tag name v)"
    "length name \<le> 100 \<Longrightarrow> short_line (''</'' @ name @ ''>'' @ NL)" "length name \<le> 100 \<Longrightarrow> short_line (''<'' @ name @ ''>'' @ NL)"
  using assms by (auto simp: short_line_def flag_line_def write_tag_def NL_def plain_name_def butlast_append newline_char)

section \<open>What a parser keeps\<close>

text \<open>A property of the object that no field destroys holds after any file.\<close>

definition field_keeps :: "('a \<Rightarrow> bool) \<Rightarrow> 'a line_field \<Rightarrow> bool" where
  "field_keeps P f = (case f of
     Str_F name n upd \<Rightarrow> \<forall>v x. P x \<longrightarrow> P (upd v x)
   | Dbl_F name upd \<Rightarrow> \<forall>v x. P x \<longrightarrow> P (upd v x)
   | Int_F name upd \<Rightarrow> \<forall>v x. P x \<longrightarrow> P (upd v x)
   | Bool_F name upd \<Rightarrow> \<forall>v x. P x \<longrightarrow> P (upd v x))"

lemma try_field_keeps:
  assumes "field_keeps P f" "P x" "try_field f e buf x = (Some y, e')"
  shows "P y"
  using assms by (cases f) (auto simp: field_keeps_def try_field_def split: option.splits prod.splits)

lemma line_fields_keep:
  assumes "list_all (field_keeps P) fs" "P x" "line_fields fs e buf x = (Some y, e')"
  shows "P y"
  using assms by (induction fs arbitrary: e) (auto split: prod.splits option.splits dest: try_field_keeps)

definition step_keeps :: "('a \<Rightarrow> bool) \<Rightarrow> 'a step \<Rightarrow> bool" where
  "step_keeps P st = (case st of Continue y r \<Rightarrow> P y | Return retval y r \<Rightarrow> P y)"

lemma line_loop_keeps:
  assumes "\<forall>buf rest x. P x \<longrightarrow> step_keeps P (body buf rest x)" "P x"
  shows "P (fst (snd (line_loop n body inp x)))"
  using assms(2)
proof (induction "length inp" arbitrary: inp x rule: less_induct)
  case less
  then show ?case
  proof (cases "fgets n inp")
    case None
    then show ?thesis using less by (subst line_loop.simps) simp
  next
    case (Some br)
    obtain buf rest where br: "br = (buf, rest)" by (cases br)
    have k: "step_keeps P (body buf rest x)" using assms(1) less.prems by blast
    then show ?thesis
      using less.hyps by (subst line_loop.simps) (auto simp: Some br step_keeps_def split: step.splits)
  qed
qed

lemma or_else_keeps:
  assumes "list_all (field_keeps P) fs" "P (fst x)" "\<And>e. step_keeps (\<lambda>x. P (fst x)) (other (fst x, e))"
  shows "step_keeps (\<lambda>x. P (fst x)) (or_else fs buf rest x other)"
  using line_fields_keep [OF assms(1,2)] assms(3)
  by (auto simp: or_else_def step_keeps_def split: prod.splits option.splits)

end
