(* ===== verification/Element_Text.thy ===== *)
theory Element_Text
  imports Line_File
begin

text \<open>
  Elements as lists of lines: what a \<open>write\<close> method puts out, and the contract that the loop of a \<open>parse\<close> method
  reads such lines into its fields, as the locale \<open>line_parser\<close>.
\<close>

section \<open>Reading what was written\<close>

text \<open>The lines of an element: text, numbers, integers and flags.\<close>

datatype item = Text_I string string | Real_I string real | Int_I string int | Flag_I string

fun item_name :: "item \<Rightarrow> string" where
  "item_name (Text_I name v) = name" | "item_name (Real_I name d) = name"
| "item_name (Int_I name i) = name" | "item_name (Flag_I name) = name"

fun item_line :: "item \<Rightarrow> string" where
  "item_line (Text_I name v) = write_tag name v"
| "item_line (Real_I name d) = put_dbl name d"
| "item_line (Int_I name i) = put_int name i"
| "item_line (Flag_I name) = flag_line name"

text \<open>The field that an item is read into, the object afterwards, and whether its line is one.\<close>

fun item_set :: "'a line_field \<Rightarrow> item \<Rightarrow> 'a \<Rightarrow> 'a" where
  "item_set (Str_F name n upd) (Text_I _ v) x = upd v x"
| "item_set (Dbl_F name upd) (Real_I _ d) x = upd (fixed_value 6 d) x"
| "item_set (Int_F name upd) (Int_I _ i) x = upd i x"
| "item_set (Bool_F name upd) (Flag_I _) x = upd True x"
| "item_set _ _ x = x"

fun item_fits :: "'a line_field \<Rightarrow> item \<Rightarrow> bool" where
  "item_fits (Str_F name n upd) (Text_I _ v) = (clean v \<and> length v < n \<and> newline \<notin> set v \<and> 2 * length name + length v \<le> 249)"
| "item_fits (Dbl_F name upd) (Real_I _ d) = (2 * length name + length (show_fixed 6 d) \<le> 249)"
| "item_fits (Int_F name upd) (Int_I _ i) = (- (2 ^ 31) \<le> i \<and> i < 2 ^ 31 \<and> 2 * length name + length (string_of_int i) \<le> 249)"
| "item_fits (Bool_F name upd) (Flag_I _) = (length name \<le> 100)"
| "item_fits _ _ = False"

definition item_field :: "'a line_field list \<Rightarrow> item \<Rightarrow> 'a line_field option" where
  "item_field fs it = find (\<lambda>f. field_name f = item_name it) fs"

definition item_apply :: "'a line_field list \<Rightarrow> item \<Rightarrow> 'a \<Rightarrow> 'a" where
  "item_apply fs it x = (case item_field fs it of None \<Rightarrow> x | Some f \<Rightarrow> item_set f it x)"

definition item_ok :: "'a line_field list \<Rightarrow> item \<Rightarrow> bool" where
  "item_ok fs it = (case item_field fs it of None \<Rightarrow> False | Some f \<Rightarrow> item_fits f it)"

lemma item_okE:
  assumes "item_ok fs it"
  obtains f where "item_field fs it = Some f" "field_name f = item_name it" "f \<in> set fs" "item_fits f it"
    "\<forall>x. item_apply fs it x = item_set f it x"
proof -
  from assms obtain f where f: "item_field fs it = Some f" "item_fits f it" by (auto simp: item_ok_def split: option.splits)
  have "field_name f = item_name it" "f \<in> set fs" using f(1) by (auto simp: item_field_def find_Some_iff)
  then show thesis using that f by (simp add: item_apply_def)
qed

lemma item_name_field: "item_ok fs it \<Longrightarrow> item_name it \<in> field_name ` set fs"
  by (erule item_okE) (metis image_eqI)

lemma digits_one_line: "newline \<notin> set (digits m)" "newline \<notin> set (padded_digits n m)"
proof -
  have "\<not> is_digit newline" by (simp add: is_digit_def newline_char)
  then show "newline \<notin> set (digits m)" "newline \<notin> set (padded_digits n m)"
    using digits_are_digits padded_digits_are_digits by blast+
qed

lemma fixed_one_line: "newline \<notin> set (show_fixed n d)"
  using digits_one_line by (auto simp: show_fixed_def Let_def newline_char)

text \<open>Numbers up to a googol are written with at most 109 characters.\<close>

definition printable :: "real \<Rightarrow> bool" where
  "printable d = (\<bar>d\<bar> \<le> 10 ^ 100)"

lemma fixed_short:
  assumes "printable d"
  shows "length (show_fixed 6 d) \<le> 109"
proof -
  have "\<bar>d\<bar> * 10 ^ 6 \<le> of_int (10 ^ 100 * 10 ^ 6)" using assms by (simp add: printable_def)
  then have "round_even (\<bar>d\<bar> * 10 ^ 6) \<le> 10 ^ 100 * 10 ^ 6" by (rule round_even_le)
  then have "nat (round_even (\<bar>d\<bar> * 10 ^ 6)) \<le> 10 ^ 100 * 10 ^ 6" by (simp add: nat_le_iff)
  then have "nat (round_even (\<bar>d\<bar> * 10 ^ 6)) div 10 ^ 6 \<le> 10 ^ 100"
    using div_le_mono [of _ "10 ^ 100 * 10 ^ 6" "10 ^ 6"] by fastforce
  then have "length (digits (nat (round_even (\<bar>d\<bar> * 10 ^ 6)) div 10 ^ 6)) \<le> 101" by (intro digits_length) simp_all
  then show ?thesis using show_fixed_length [of 6 d] by simp
qed

lemma fits_real: "printable d \<Longrightarrow> length name \<le> 70 \<Longrightarrow> item_fits (Dbl_F name upd) (Real_I name' d)"
  using fixed_short [of d] by simp

lemma int_short:
  assumes "- (2 ^ 31) \<le> i" "i < 2 ^ 31"
  shows "length (string_of_int i) \<le> 11"
proof -
  have "nat i < 10 ^ 10" "nat (- i) < 10 ^ 10" using assms by simp_all
  then have "length (digits (nat i)) \<le> 10" "length (digits (nat (- i))) \<le> 10" using digits_length by simp_all
  then show ?thesis by (simp add: string_of_int_def)
qed

lemma fits_int: "- (2 ^ 31) \<le> i \<Longrightarrow> i < 2 ^ 31 \<Longrightarrow> length name \<le> 100 \<Longrightarrow> item_fits (Int_F name upd) (Int_I name' i)"
  using int_short [of i] by simp

lemma fits_reads:
  assumes "item_fits f it" "field_name f = item_name it"
  obtains (tagged) v where "item_line it = write_tag (item_name it) v" "CHR ''<'' \<notin> set v" "newline \<notin> set v"
      "2 * length (item_name it) + length v \<le> 249" "\<And>x. reads f v x (item_set f it x)"
    | (flag) upd where "item_line it = flag_line (item_name it)" "length (item_name it) \<le> 100" "f = Bool_F (item_name it) upd"
      "\<And>x. item_set f it x = upd True x"
proof (cases it)
  case (Text_I name v)
  then obtain n upd where f: "f = Str_F name n upd" using assms by (cases f) auto
  show ?thesis using assms Text_I f by (intro tagged [of v]) (auto simp: clean_def reads_def)
next
  case (Real_I name d)
  then obtain upd where f: "f = Dbl_F name upd" using assms by (cases f) auto
  have "newline \<notin> set (show_fixed 6 d)" by (rule fixed_one_line)
  then show ?thesis using assms Real_I f fixed_no_open by (intro tagged [of "show_fixed 6 d"]) (auto simp: reads_def)
next
  case (Int_I name i)
  then obtain upd where f: "f = Int_F name upd" using assms by (cases f) auto
  have "newline \<notin> set (string_of_int i)" using digits_one_line by (auto simp: string_of_int_def newline_char)
  then show ?thesis using assms Int_I f string_of_int_no_open by (intro tagged [of "string_of_int i"]) (auto simp: reads_def)
next
  case (Flag_I name)
  then obtain upd where f: "f = Bool_F name upd" using assms by (cases f) auto
  then show ?thesis using assms Flag_I by (intro flag [of upd]) auto
qed

lemma line_fields_item:
  assumes "plain_fields fs" "item_ok fs it"
  shows "line_fields fs False (item_line it) x = (Some (item_apply fs it x), False)" "plain_name (item_name it)"
proof -
  obtain f where f: "item_field fs it = Some f" "field_name f = item_name it" "f \<in> set fs" "item_fits f it"
    "\<forall>x. item_apply fs it x = item_set f it x"
    using assms(2) by (rule item_okE)
  show p: "plain_name (item_name it)" using assms(1) f(2,3) by (auto simp: list_all_iff)
  note fd = f(1) [unfolded item_field_def]
  from f(4,2) show "line_fields fs False (item_line it) x = (Some (item_apply fs it x), False)"
  proof (cases rule: fits_reads)
    case (tagged v)
    show ?thesis unfolding tagged(1) f(5) [rule_format] by (rule line_fields_hit [OF assms(1) p fd tagged(5)])
  next
    case (flag upd)
    show ?thesis unfolding flag(1) f(5) [rule_format] flag(4) by (rule line_fields_flag [OF assms(1) p fd [unfolded flag(3)]])
  qed
qed

lemma item_shapes:
  fixes fs :: "'a line_field list"
  assumes "item_ok fs it"
  obtains (tagged) v where "item_line it = write_tag (item_name it) v" "CHR ''<'' \<notin> set v" "newline \<notin> set v"
      "2 * length (item_name it) + length v \<le> 249"
    | (flag) "item_line it = flag_line (item_name it)" "length (item_name it) \<le> 100"
proof -
  obtain f :: "'a line_field" where f: "item_field fs it = Some f" "field_name f = item_name it" "f \<in> set fs" "item_fits f it"
    "\<forall>x. item_apply fs it x = item_set f it x"
    using assms by (rule item_okE)
  from f(4,2) show ?thesis by (cases rule: fits_reads) (use tagged flag in blast)+
qed

text \<open>An item is one line, which contains no other tag.\<close>

lemma item_short:
  assumes "plain_fields fs" "item_ok fs it"
  shows "short_line (item_line it)"
  using assms(2)
proof (cases rule: item_shapes)
  case (tagged v)
  then show ?thesis using short_lines(2) [OF line_fields_item(2) [OF assms]] by simp
next
  case flag
  then show ?thesis using short_lines(1) [OF line_fields_item(2) [OF assms]] by simp
qed

lemma item_other_tags:
  assumes "plain_fields fs" "item_ok fs it" "plain_name t" "t \<noteq> item_name it"
  shows "\<not> match_tag (item_line it) (''<'' @ t @ ''>'')" "\<not> match_tag (item_line it) (''</'' @ t @ ''>'')"
proof -
  note p = line_fields_item(2) [OF assms(1,2)]
  from assms(2) show "\<not> match_tag (item_line it) (''<'' @ t @ ''>'')"
  proof (cases rule: item_shapes)
    case (tagged v)
    then show ?thesis using strstr_field(1) [OF p assms(3) tagged(2)] assms(4) by (simp add: match_tag_def open_tag_def)
  next
    case flag
    then show ?thesis using strstr_field(2) [OF p assms(3), of "[]"] by (simp add: match_tag_def open_tag_def)
  qed
  from assms(2) show "\<not> match_tag (item_line it) (''</'' @ t @ ''>'')"
  proof (cases rule: item_shapes)
    case (tagged v)
    then show ?thesis using strstr_close(1) [OF p assms(3) tagged(2)] assms(4) by simp
  next
    case flag
    then show ?thesis using strstr_close(2) [OF p assms(3), of "[]"] by simp
  qed
qed

text \<open>A chain whose fields are tested in several groups.\<close>

lemma find_append: "find P (xs @ ys) = (case find P xs of None \<Rightarrow> find P ys | Some x \<Rightarrow> Some x)"
  by (induction xs) auto

lemma item_field_none: "item_field fs it = None \<longleftrightarrow> item_name it \<notin> field_name ` set fs"
  by (auto simp: item_field_def find_None_iff image_iff)

lemma item_groups:
  shows "item_name it \<in> field_name ` set fs1 \<Longrightarrow> item_field (fs1 @ fs2) it = item_field fs1 it"
    "item_name it \<notin> field_name ` set fs1 \<Longrightarrow> item_field (fs1 @ fs2) it = item_field fs2 it"
  using item_field_none [of fs1 it] by (auto simp: item_field_def find_append split: option.splits)

lemma or_else_item:
  assumes "plain_fields (fs1 @ fs2)" "item_ok (fs1 @ fs2) it"
  shows "or_else fs1 (item_line it) rest (x, False) other
    = (if item_name it \<in> field_name ` set fs1 then Continue (item_apply (fs1 @ fs2) it x, False) rest else other (x, False))"
proof (cases "item_name it \<in> field_name ` set fs1")
  case True
  then show ?thesis using line_fields_item(1) [of fs1 it] assms item_groups(1) [OF True, of fs2] by (simp add: or_else_def item_ok_def item_apply_def)
next
  case False
  have p: "plain_name (item_name it)" by (rule line_fields_item(2) [OF assms])
  from assms(2) have "line_fields fs1 False (item_line it) x = (None, False)"
  proof (cases rule: item_shapes)
    case (tagged v)
    then show ?thesis using line_fields_miss(1) [OF _ p tagged(2) False] assms(1) by simp
  next
    case flag
    then show ?thesis using line_fields_miss(2) [OF _ p _ False, where v = "[]"] assms(1) by simp
  qed
  then show ?thesis using False by (simp add: or_else_def)
qed

text \<open>What follows the opening tag, which the caller of a parser has read.\<close>

definition behind_tag :: "string \<Rightarrow> string \<Rightarrow> string" where
  "behind_tag name inp = drop (length (tag_line name)) inp"

lemma behind_tag_line: "behind_tag name (tag_line name @ inp) = inp"
  unfolding behind_tag_def by (rule append_eq_conv_conj [THEN iffD1, THEN conjunct2, symmetric, OF refl])

section \<open>The contract of a parser\<close>

locale line_parser =
  fixes body :: "string \<Rightarrow> string \<Rightarrow> 'a parsed \<Rightarrow> 'a parsed step"
    and fields :: "'a line_field list" and elem :: string and finish :: "'a \<Rightarrow> 'a"
  assumes plain: "plain_fields fields" and elem: "plain_name elem" "length elem \<le> 100"
    and reads_item: "item_ok fields it \<Longrightarrow> body (item_line it) rest (x, False) = Continue (item_apply fields it x, False) rest"
    and ends: "body (end_line elem) rest y = Return 0 (finish (fst y), snd y) rest"
begin

lemma items_read:
  assumes "list_all (item_ok fields) its"
  shows "line_loop 256 body (concat (map item_line its) @ rest) (x, False)
    = line_loop 256 body rest (fold (item_apply fields) its x, False)"
  using assms
proof (induction its arbitrary: x)
  case (Cons it its)
  then have ok: "item_ok fields it" by simp
  have "line_loop 256 body (item_line it @ concat (map item_line its) @ rest) (x, False)
      = line_loop 256 body (concat (map item_line its) @ rest) (item_apply fields it x, False)"
    by (rule line_loop_continue [OF item_short [OF plain ok]]) (simp_all add: reads_item [OF ok])
  then show ?case using Cons by simp
qed simp

lemma end_read: "line_loop 256 body (end_line elem @ rest) x = (0, (finish (fst x), snd x), rest)"
  using line_loop_step [OF short_lines(3) [OF elem], of body rest x] ends by simp

lemma element_read:
  assumes "list_all (item_ok fields) its"
  shows "line_loop 256 body (concat (map item_line its) @ end_line elem @ rest) (x, False)
    = (0, (finish (fold (item_apply fields) its x), False), rest)"
  unfolding items_read [OF assms] end_read by simp

end

text \<open>A parser that only has fields.\<close>

definition plain_body :: "'a line_field list \<Rightarrow> string \<Rightarrow> string \<Rightarrow> string \<Rightarrow> 'a parsed \<Rightarrow> 'a parsed step" where
  "plain_body fs elem buf rest x =
     (if match_tag buf (''</'' @ elem @ ''>'') then Return 0 x rest else or_else fs buf rest x (skip_line rest))"

lemma plain_parser:
  assumes "plain_fields fs" "plain_name elem" "length elem \<le> 100" "elem \<notin> field_name ` set fs"
  shows "line_parser (plain_body fs elem) fs elem (\<lambda>x. x)"
proof
  fix it :: item and rest :: string and x :: 'a
  assume ok: "item_ok fs it"
  have "elem \<noteq> item_name it" using item_name_field [OF ok] assms(4) by auto
  then show "plain_body fs elem (item_line it) rest (x, False) = Continue (item_apply fs it x, False) rest"
    using item_other_tags(2) [OF assms(1) ok assms(2)] or_else_item [of fs "[]" it] assms(1) ok item_name_field [OF ok]
    by (simp add: plain_body_def)
next
  fix rest :: string and y :: "'a parsed"
  show "plain_body fs elem (end_line elem) rest y = Return 0 (fst y, snd y) rest"
    using strstr_close(3) [OF assms(2,2), of "[]"] by (simp add: plain_body_def)
qed (use assms in simp_all)

end
