(* ===== verification/Benchmark.thy ===== *)
theory Benchmark
  imports Sched_Op Task_Poll
begin

text \<open>
  The CPU benchmarks (\<open>client/cs_benchmark.C\<close>): one process per CPU measures for half a minute, in phases
  that the client starts and ends by files; the client waits for the processes, takes the means,
  and scales its estimates. The measuring loops themselves run in the other processes.
\<close>

abbreviation BM_FP_INIT :: int where "BM_FP_INIT \<equiv> 0"
abbreviation BM_FP :: int where "BM_FP \<equiv> 1"
abbreviation BM_INT_INIT :: int where "BM_INT_INIT \<equiv> 2"
abbreviation BM_INT :: int where "BM_INT \<equiv> 3"
abbreviation BM_SLEEP :: int where "BM_SLEEP \<equiv> 4"
abbreviation BM_DONE :: int where "BM_DONE \<equiv> 5"
abbreviation FP_START :: real where "FP_START \<equiv> 2"
abbreviation FP_END :: real where "FP_END \<equiv> 12"
abbreviation INT_START :: real where "INT_START \<equiv> 17"
abbreviation INT_END :: real where "INT_END \<equiv> 27"
abbreviation OVERALL_END :: real where "OVERALL_END \<equiv> 30"
abbreviation MAX_CPU_BENCHMARKS_SECONDS :: real where "MAX_CPU_BENCHMARKS_SECONDS \<equiv> 300"
abbreviation BENCHMARK_PERIOD :: real where "BENCHMARK_PERIOD \<equiv> 432000"

text \<open>
  \<open>bio_finished i\<close>: \<open>None\<close> while the process of CPU \<open>i\<close> runs, afterwards what its file says, nothing
  when it is missing or cannot be parsed.
\<close>

record BENCH_IO =
  bio_dtime :: real
  bio_finished :: "nat \<Rightarrow> (real \<times> real \<times> real \<times> real) option option"

definition upd_bench :: "(BENCHMARKS \<Rightarrow> BENCHMARKS) \<Rightarrow> CLIENT_STATE \<Rightarrow> CLIENT_STATE" where
  "upd_bench f s = s\<lparr>bench := f (bench s)\<rparr>"

definition upd_host :: "(HOST_INFO \<Rightarrow> HOST_INFO) \<Rightarrow> CLIENT_STATE \<Rightarrow> CLIENT_STATE" where
  "upd_host f s = s\<lparr>host_info := f (host_info s)\<rparr>"

definition are_cpu_benchmarks_running :: "CLIENT_STATE \<Rightarrow> bool" where
  "are_cpu_benchmarks_running s = benchmarks_running (bench s)"

definition should_run_cpu_benchmarks :: "CLIENT_STATE \<Rightarrow> bool" where
  "should_run_cpu_benchmarks s =
     (let diff = now s - hi_p_calculated (host_info s) in
      if tasks_suspended (suspension s) then False
      else if diff < 0 then True
      else if projects s = [] \<and> \<not> run_cpu_benchmarks s then False
      else run_cpu_benchmarks s \<or> diff > BENCHMARK_PERIOD)"

definition start_cpu_benchmarks :: "BENCH_IO \<Rightarrow> CLIENT_STATE \<Rightarrow> CLIENT_STATE" where
  "start_cpu_benchmarks io s =
     (if benchmarks_running (bench s) then s
      else if skip_cpu_benchmarks (bench s) then cpu_benchmarks_set_defaults s
      else upd_bench (\<lambda>b. b\<lparr>cpu_benchmarks_pending := False, bm_state := BM_FP_INIT, cpu_benchmarks_start := bio_dtime io,
             bm_ncpus := nat (ncpus s), benchmarks_running := True,
             benchmark_descs := replicate (nat (ncpus s)) \<lparr>bd_done = False, bd_error = False, bd_p_fpops = 0, bd_p_iops = 0,
               bd_p_membw = 0, bd_m_cache = 0\<rparr>\<rparr>) s)"

definition check_benchmark :: "BENCH_IO \<Rightarrow> nat \<Rightarrow> BENCHMARK_DESC \<Rightarrow> BENCHMARK_DESC" where
  "check_benchmark io i d =
     (if bd_done d then d
      else case bio_finished io i of
        None \<Rightarrow> d
      | Some None \<Rightarrow> d\<lparr>bd_done := True, bd_error := True\<rparr>
      | Some (Some (fpops, iops, membw, cache)) \<Rightarrow>
          d\<lparr>bd_done := True, bd_p_fpops := fpops, bd_p_iops := iops, bd_p_membw := membw, bd_m_cache := cache\<rparr>)"

definition check_benchmarks :: "BENCH_IO \<Rightarrow> CLIENT_STATE \<Rightarrow> CLIENT_STATE" where
  "check_benchmarks io = upd_bench (\<lambda>b. b\<lparr>benchmark_descs :=
     map (\<lambda>(i, d). check_benchmark io i d) (zip [0..<length (benchmark_descs b)] (benchmark_descs b))\<rparr>)"

definition mean_of :: "(BENCHMARK_DESC \<Rightarrow> real) \<Rightarrow> BENCHMARKS \<Rightarrow> real" where
  "mean_of f b = (\<Sum>d \<leftarrow> benchmark_descs b. f d) / real (bm_ncpus b)"

definition store_benchmarks :: "BENCHMARKS \<Rightarrow> HOST_INFO \<Rightarrow> HOST_INFO" where
  "store_benchmarks b h =
     (let h1 = (if mean_of bd_p_fpops b > 0 then h\<lparr>hi_p_fpops := mean_of bd_p_fpops b\<rparr> else h);
          h2 = (if mean_of bd_p_iops b > 0 then h1\<lparr>hi_p_iops := mean_of bd_p_iops b\<rparr> else h1)
      in h2\<lparr>hi_p_membw := mean_of bd_p_membw b, hi_m_cache := mean_of bd_m_cache b\<rparr>)"

definition finish_benchmarks :: "CLIENT_STATE \<Rightarrow> CLIENT_STATE" where
  "finish_benchmarks s =
     (let b = bench s; old_p_fpops = hi_p_fpops (host_info s);
          s1 = (if list_ex bd_error (benchmark_descs b) then cpu_benchmarks_set_defaults s else upd_host (store_benchmarks b) s);
          s2 = (if hi_p_calculated (host_info s1) \<noteq> 0 \<and> old_p_fpops \<noteq> 0
                then scale_duration_correction_factors (hi_p_fpops (host_info s1) / old_p_fpops) s1 else s1)
      in set_client_state_dirty (upd_bench (\<lambda>b. b\<lparr>benchmarks_running := False\<rparr>)
           (upd_host (\<lambda>h. h\<lparr>hi_p_calculated := now s2\<rparr>) s2)))"

text \<open>The phases before the processes are waited for, with the time at which each ends.\<close>

definition phase_end :: "int \<Rightarrow> real" where
  "phase_end st = (if st = BM_FP_INIT then FP_START else if st = BM_FP then FP_END else if st = BM_INT_INIT then INT_START
     else if st = BM_INT then INT_END else OVERALL_END)"

definition bench_timeout :: "CLIENT_STATE \<Rightarrow> CLIENT_STATE" where
  "bench_timeout s =
     (if now s > cpu_benchmarks_start (bench s) + MAX_CPU_BENCHMARKS_SECONDS
      then set_client_state_dirty (upd_bench (\<lambda>b. b\<lparr>benchmarks_running := False\<rparr>) (cpu_benchmarks_set_defaults s))
      else s)"

definition bench_wait :: "BENCH_IO \<Rightarrow> CLIENT_STATE \<Rightarrow> CLIENT_STATE" where
  "bench_wait io s =
     (let s1 = check_benchmarks io (bench_timeout s)
      in if list_all bd_done (benchmark_descs (bench s1)) then finish_benchmarks s1 else s1)"

definition cpu_benchmarks_poll :: "BENCH_IO \<Rightarrow> CLIENT_STATE \<Rightarrow> CLIENT_STATE" where
  "cpu_benchmarks_poll io s =
     (if \<not> benchmarks_running (bench s) then s
      else if now s < bm_last_time (bench s) + 1 then s
      else let s1 = send_heartbeats (upd_bench (\<lambda>b. b\<lparr>bm_last_time := now s\<rparr>) s); b = bench s1 in
        if now s1 \<ge> cpu_benchmarks_start b + 10 \<and> is_task_executing s1
        then set_client_state_dirty (upd_bench (\<lambda>b. b\<lparr>benchmarks_running := False, cpu_benchmarks_pending := True\<rparr>)
               (upd_host (\<lambda>h. h\<lparr>hi_p_calculated := now s1\<rparr>) s1))
        else if bm_state b < BM_DONE
        then (if now s1 - cpu_benchmarks_start b > phase_end (bm_state b)
              then upd_bench (\<lambda>b. b\<lparr>bm_state := bm_state b + 1\<rparr>) s1 else s1)
        else bench_wait io s1)"

section \<open>New figures leave the estimates alone\<close>

lemma scale_factors:
  assumes "0 < k" "distinct (app_versions s)" "v \<in> set (app_versions s)"
  shows "av_duration_correction_factor (appver (scale_duration_correction_factors k s) v)
    = av_duration_correction_factor (appver s v) * k"
proof -
  define g where "g v = upd_appver v (\<lambda>x. x\<lparr>av_duration_correction_factor := av_duration_correction_factor x * k\<rparr>)" for v
  have "av_duration_correction_factor (appver (fold g vs s) v)
      = av_duration_correction_factor (appver s v) * (if v \<in> set vs then k else 1)" if "distinct vs" for vs s
    using that by (induction vs arbitrary: s) (auto simp: g_def upd_appver_def)
  then show ?thesis using assms by (simp add: scale_duration_correction_factors_def g_def [abs_def])
qed

lemma scale_frame:
  "host_info (scale_duration_correction_factors k s) = host_info s" "wunit (scale_duration_correction_factors k s) = wunit s"
  "res (scale_duration_correction_factors k s) = res s" "now (scale_duration_correction_factors k s) = now s"
proof -
  define g where "g v = upd_appver v (\<lambda>x. x\<lparr>av_duration_correction_factor := av_duration_correction_factor x * k\<rparr>)" for v
  have s: "scale_duration_correction_factors k s = (if k \<le> 0 then s else fold g (app_versions s) s)"
    by (simp add: scale_duration_correction_factors_def g_def [abs_def])
  have "V (fold g vs u) = V u" if "\<And>v u. V (g v u) = V u" for V :: "CLIENT_STATE \<Rightarrow> 'b" and vs u
    using that by (rule fold_frame)
  then show "host_info (scale_duration_correction_factors k s) = host_info s" "wunit (scale_duration_correction_factors k s) = wunit s"
    "res (scale_duration_correction_factors k s) = res s" "now (scale_duration_correction_factors k s) = now s"
    unfolding s by (auto simp: g_def upd_appver_def intro!: fold_frame)
qed

text \<open>Finishing the benchmarks does not change what the client expects of a result: on a host whose speed was
  measured before, the CPU time estimated for every result of a known application version is the
  same after the new figures are stored, because the correction factors are scaled by the ratio of
  the speeds.\<close>
theorem benchmarks_keep_estimates:
  assumes "0 < hi_p_fpops (host_info s)" "hi_p_calculated (host_info s) \<noteq> 0"
    "distinct (app_versions s)" "r_avp (res s r) \<in> set (app_versions s)"
  shows "estimated_cpu_time (finish_benchmarks s) r = estimated_cpu_time s r"
proof -
  define s1 where "s1 = (if list_ex bd_error (benchmark_descs (bench s)) then cpu_benchmarks_set_defaults s
    else upd_host (store_benchmarks (bench s)) s)"
  define k where "k = hi_p_fpops (host_info s1) / hi_p_fpops (host_info s)"
  have f: "0 < hi_p_fpops (host_info s1)"
    using assms(1) by (simp add: s1_def cpu_benchmarks_set_defaults_def upd_host_def store_benchmarks_def Let_def)
  have s1: "app_versions s1 = app_versions s" "appver s1 = appver s" "wunit s1 = wunit s" "res s1 = res s"
    "hi_p_calculated (host_info s1) = hi_p_calculated (host_info s)"
    by (simp_all add: s1_def cpu_benchmarks_set_defaults_def upd_host_def store_benchmarks_def Let_def)
  have "finish_benchmarks s = set_client_state_dirty (upd_bench (\<lambda>b. b\<lparr>benchmarks_running := False\<rparr>)
      (upd_host (\<lambda>h. h\<lparr>hi_p_calculated := now (scale_duration_correction_factors k s1)\<rparr>) (scale_duration_correction_factors k s1)))"
    using assms(1,2) s1 by (simp add: finish_benchmarks_def Let_def s1_def [symmetric] k_def)
  moreover have "av_duration_correction_factor (appver (scale_duration_correction_factors k s1) (r_avp (res s r)))
      = av_duration_correction_factor (appver s (r_avp (res s r))) * k"
    using scale_factors [of k s1 "r_avp (res s r)"] f assms s1 by (simp add: k_def)
  ultimately show ?thesis
    using assms(1) f by (simp add: estimated_cpu_time_def estimated_cpu_time_uncorrected_def set_client_state_dirty_def
        upd_bench_def upd_host_def scale_frame s1 k_def)
qed

theorem benchmarks_keep_estimates_witness:
  "let s = sample_state\<lparr>bench := (bench sample_state)\<lparr>bm_ncpus := 1,
         benchmark_descs := [\<lparr>bd_done = True, bd_error = False, bd_p_fpops = 4000, bd_p_iops = 1, bd_p_membw = 1, bd_m_cache = 1\<rparr>]\<rparr>\<rparr>
   in estimated_cpu_time (finish_benchmarks s) 0 = 1000"
proof -
  define s where "s = sample_state\<lparr>bench := (bench sample_state)\<lparr>bm_ncpus := 1,
    benchmark_descs := [\<lparr>bd_done = True, bd_error = False, bd_p_fpops = 4000, bd_p_iops = 1, bd_p_membw = 1, bd_m_cache = 1\<rparr>]\<rparr>\<rparr>"
  have "0 < hi_p_fpops (host_info s)" "hi_p_calculated (host_info s) \<noteq> 0" "distinct (app_versions s)" "r_avp (res s 0) \<in> set (app_versions s)"
    "estimated_cpu_time s 0 = 1000"
    by (simp_all add: s_def sample_defs estimated_cpu_time_def estimated_cpu_time_uncorrected_def)
  then show ?thesis unfolding s_def [symmetric] using benchmarks_keep_estimates [of s 0] by (simp add: Let_def)
qed

section \<open>Benchmarks end\<close>

lemma heartbeats_frame:
  "bench (send_heartbeats s) = bench s" "now (send_heartbeats s) = now s" "host_info (send_heartbeats s) = host_info s"
  "suspension (send_heartbeats s) = suspension s"
  unfolding send_heartbeats_def Let_def by (rule fold_frame; simp add: upd_task_def)+

text \<open>Polls at the given times.\<close>

fun bench_polls :: "(BENCH_IO \<times> real) list \<Rightarrow> CLIENT_STATE \<Rightarrow> CLIENT_STATE" where
  "bench_polls [] s = s"
| "bench_polls ((io, t) # ps) s = bench_polls ps (cpu_benchmarks_poll io (s\<lparr>now := t\<rparr>))"

fun a_second_apart :: "real \<Rightarrow> (BENCH_IO \<times> real) list \<Rightarrow> bool" where
  "a_second_apart t0 [] = True"
| "a_second_apart t0 ((io, t) # ps) = (t0 + 1 \<le> t \<and> a_second_apart t ps)"

lemma polls_stay_stopped: "\<not> benchmarks_running (bench s) \<Longrightarrow> \<not> benchmarks_running (bench (bench_polls ps s))"
proof (induction ps arbitrary: s)
  case (Cons p ps)
  obtain io t where p: "p = (io, t)" by (cases p)
  have "cpu_benchmarks_poll io (s\<lparr>now := t\<rparr>) = s\<lparr>now := t\<rparr>" using Cons.prems by (simp add: cpu_benchmarks_poll_def)
  then show ?case using Cons.IH [of "s\<lparr>now := t\<rparr>"] Cons.prems by (simp add: p)
qed simp

lemma late_poll:
  assumes "benchmarks_running (bench s)" "bm_last_time (bench s) + 1 \<le> now s"
    "now s > cpu_benchmarks_start (bench s) + MAX_CPU_BENCHMARKS_SECONDS" "bm_state (bench s) \<le> BM_DONE"
  shows "\<not> benchmarks_running (bench (cpu_benchmarks_poll io s))
    \<or> bm_state (bench s) < BM_DONE \<and> bench (cpu_benchmarks_poll io s) = (bench s)\<lparr>bm_last_time := now s, bm_state := bm_state (bench s) + 1\<rparr>"
proof -
  define s1 where "s1 = send_heartbeats (upd_bench (\<lambda>b. b\<lparr>bm_last_time := now s\<rparr>) s)"
  have b: "bench s1 = (bench s)\<lparr>bm_last_time := now s\<rparr>" "now s1 = now s"
    by (simp_all add: s1_def heartbeats_frame upd_bench_def)
  have "\<not> benchmarks_running (bench (bench_wait io s1))"
    using assms(3) by (simp add: bench_wait_def check_benchmarks_def finish_benchmarks_def bench_timeout_def b set_client_state_dirty_def
        upd_bench_def upd_host_def Let_def)
  moreover have "cpu_benchmarks_start (bench s) + phase_end (bm_state (bench s)) < now s" using assms(3) by (simp add: phase_end_def)
  moreover have "cpu_benchmarks_poll io s = (if now s \<ge> cpu_benchmarks_start (bench s) + 10 \<and> is_task_executing s1
      then set_client_state_dirty (upd_bench (\<lambda>b. b\<lparr>benchmarks_running := False, cpu_benchmarks_pending := True\<rparr>)
             (upd_host (\<lambda>h. h\<lparr>hi_p_calculated := now s\<rparr>) s1))
      else if bm_state (bench s) < BM_DONE
      then (if now s - cpu_benchmarks_start (bench s) > phase_end (bm_state (bench s))
            then upd_bench (\<lambda>b. b\<lparr>bm_state := bm_state b + 1\<rparr>) s1 else s1)
      else bench_wait io s1)"
    using assms(1,2) unfolding cpu_benchmarks_poll_def Let_def s1_def [symmetric] by (simp add: b)
  ultimately show ?thesis by (auto simp: set_client_state_dirty_def upd_bench_def upd_host_def b)
qed

text \<open>C31: Benchmarks end: six polls, at least a second apart and later than the time limit, are enough, whatever the
  measuring processes and the tasks do; the phase in which the benchmarks are does not matter.\<close>
theorem benchmarks_end:
  assumes "0 \<le> bm_state (bench s)" "bm_state (bench s) \<le> BM_DONE" "6 \<le> length ps" "a_second_apart (bm_last_time (bench s)) ps"
    "\<forall>(io, t) \<in> set ps. t > cpu_benchmarks_start (bench s) + MAX_CPU_BENCHMARKS_SECONDS"
  shows "\<not> benchmarks_running (bench (bench_polls ps s))"
proof -
  have "\<not> benchmarks_running (bench (bench_polls ps s))"
    if "bm_state (bench s) \<le> BM_DONE" "BM_DONE - bm_state (bench s) < int (length ps)" "a_second_apart (bm_last_time (bench s)) ps"
      "\<forall>(io, t) \<in> set ps. t > cpu_benchmarks_start (bench s) + MAX_CPU_BENCHMARKS_SECONDS" for ps s
    using that
  proof (induction ps arbitrary: s)
    case (Cons p ps)
    obtain io t where p: "p = (io, t)" by (cases p)
    define s1 where "s1 = cpu_benchmarks_poll io (s\<lparr>now := t\<rparr>)"
    show ?case
    proof (cases "benchmarks_running (bench s1)")
      case False
      then show ?thesis using polls_stay_stopped by (simp add: p s1_def)
    next
      case True
      then have "benchmarks_running (bench s)" by (auto simp: s1_def cpu_benchmarks_poll_def split: if_splits)
      then have b: "bm_state (bench s) < BM_DONE" "bench s1 = (bench s)\<lparr>bm_last_time := t, bm_state := bm_state (bench s) + 1\<rparr>"
        using late_poll [of "s\<lparr>now := t\<rparr>" io] Cons.prems True by (auto simp: p s1_def)
      have "\<not> benchmarks_running (bench (bench_polls ps s1))"
        using Cons.prems b by (intro Cons.IH) (auto simp: p)
      then show ?thesis by (simp add: p s1_def)
    qed
  qed simp
  then show ?thesis using assms by simp
qed

theorem benchmarks_end_witness:
  "let s = sample_state\<lparr>bench := (bench sample_state)\<lparr>benchmarks_running := True, cpu_benchmarks_start := 600, bm_ncpus := 1,
         benchmark_descs := [\<lparr>bd_done = False, bd_error = False, bd_p_fpops = 0, bd_p_iops = 0, bd_p_membw = 0, bd_m_cache = 0\<rparr>]\<rparr>\<rparr>;
       io = \<lparr>bio_dtime = 0, bio_finished = (\<lambda>_. None)\<rparr>
   in \<not> benchmarks_running (bench (bench_polls [(io, 1001), (io, 1002), (io, 1003), (io, 1004), (io, 1005), (io, 1006)] s))"
proof -
  define io where "io = \<lparr>bio_dtime = 0, bio_finished = (\<lambda>_. None)\<rparr>"
  define s where "s = sample_state\<lparr>bench := (bench sample_state)\<lparr>benchmarks_running := True, cpu_benchmarks_start := 600, bm_ncpus := 1,
         benchmark_descs := [\<lparr>bd_done = False, bd_error = False, bd_p_fpops = 0, bd_p_iops = 0, bd_p_membw = 0, bd_m_cache = 0\<rparr>]\<rparr>\<rparr>"
  have "bm_state (bench s) = 0" "bm_last_time (bench s) = 0" "cpu_benchmarks_start (bench s) = 600" by (simp_all add: s_def sample_defs)
  then show ?thesis
    unfolding s_def [symmetric] io_def [symmetric] Let_def
    using benchmarks_end [of s "[(io, 1001), (io, 1002), (io, 1003), (io, 1004), (io, 1005), (io, 1006)]"]
    by (simp del: bench_polls.simps)
qed

end
