(* ===== verification/Suspension.thy ===== *)
theory Suspension
  imports Prefs Benchmark Task_Exit File_Transfer
begin

unbundle bit_operations_syntax

text \<open>
  When computing and network activity are suspended (\<open>client/cs_prefs.C\<close>, the modes of
  \<open>client/client_types.C\<close> and the first half of \<open>CLIENT_STATE::poll_slow_events\<close>): the user's modes and
  preferences, the throttle that keeps to a percentage of the CPU, and what is done to the tasks.
\<close>

section \<open>Modes\<close>

definition MODE_set :: "int \<Rightarrow> real \<Rightarrow> real \<Rightarrow> MODE \<Rightarrow> bool \<times> MODE" where
  "MODE_set mode duration t m =
     (if mode = RUN_MODE_RESTORE then (False, m\<lparr>temp_timeout := 0, temp_mode := perm_mode m\<rparr>)
      else if duration \<noteq> 0 then (False, m\<lparr>temp_mode := mode, temp_timeout := t + duration\<rparr>)
      else (True, m\<lparr>temp_timeout := 0, temp_mode := mode, perm_mode := mode\<rparr>))"

text \<open>The two calls of \<open>MODE::set\<close>; a permanent mode makes the state file dirty.\<close>

definition set_run_mode :: "int \<Rightarrow> real \<Rightarrow> CLIENT_STATE \<Rightarrow> CLIENT_STATE" where
  "set_run_mode mode duration s = (case MODE_set mode duration (now s) (run_mode s) of
     (dirty, m) \<Rightarrow> s\<lparr>run_mode := m, client_state_dirty := client_state_dirty s \<or> dirty\<rparr>)"

definition set_network_mode :: "int \<Rightarrow> real \<Rightarrow> CLIENT_STATE \<Rightarrow> CLIENT_STATE" where
  "set_network_mode mode duration s = (case MODE_set mode duration (now s) (network_mode s) of
     (dirty, m) \<Rightarrow> s\<lparr>network_mode := m, client_state_dirty := client_state_dirty s \<or> dirty\<rparr>)"

definition get_current_mode :: "real \<Rightarrow> MODE \<Rightarrow> int" where
  "get_current_mode t m = (if temp_timeout m > t then temp_mode m else perm_mode m)"

definition mode_delay :: "real \<Rightarrow> MODE \<Rightarrow> real" where
  "mode_delay t m = (if temp_timeout m > t then temp_timeout m - t else 0)"

section \<open>Reasons to suspend\<close>

abbreviation SUSPEND_REASON_BATTERIES :: int where "SUSPEND_REASON_BATTERIES \<equiv> 1"
abbreviation SUSPEND_REASON_USER_ACTIVE :: int where "SUSPEND_REASON_USER_ACTIVE \<equiv> 2"
abbreviation SUSPEND_REASON_USER_REQ :: int where "SUSPEND_REASON_USER_REQ \<equiv> 4"
abbreviation SUSPEND_REASON_TIME_OF_DAY :: int where "SUSPEND_REASON_TIME_OF_DAY \<equiv> 8"
abbreviation SUSPEND_REASON_BENCHMARKS :: int where "SUSPEND_REASON_BENCHMARKS \<equiv> 16"
abbreviation SUSPEND_REASON_DISK_SIZE :: int where "SUSPEND_REASON_DISK_SIZE \<equiv> 32"
abbreviation SUSPEND_REASON_CPU_USAGE_LIMIT :: int where "SUSPEND_REASON_CPU_USAGE_LIMIT \<equiv> 64"
abbreviation SUSPEND_REASON_NO_RECENT_INPUT :: int where "SUSPEND_REASON_NO_RECENT_INPUT \<equiv> 128"
abbreviation SUSPEND_REASON_INITIAL_DELAY :: int where "SUSPEND_REASON_INITIAL_DELAY \<equiv> 256"

abbreviation POLL_INTERVAL :: real where "POLL_INTERVAL \<equiv> 1"

text \<open>
  What the client asks of the host: whether it runs on batteries, whether all users have been idle
  for so many minutes, the local time (day of the week and seconds of the day), and what the
  benchmarks need.
\<close>

record SUSPEND_IO =
  sio_bench :: BENCH_IO
  sio_batteries :: bool
  sio_users_idle :: "real \<Rightarrow> bool"
  sio_local_time :: "int \<times> int"

text \<open>
  The throttle: a tick of half an interval up to ten intervals adds its share to a debt and, when
  computing goes on, is subtracted from it.
\<close>

definition throttle :: "CLIENT_STATE \<Rightarrow> int \<times> CLIENT_STATE" where
  "throttle s =
     (let u = suspension s; diff = now s - throttle_last_time u;
          u1 = u\<lparr>throttle_last_time := now s\<rparr> in
      if diff \<ge> POLL_INTERVAL / 2 \<and> diff < POLL_INTERVAL * 10
      then let debt = throttle_debt u1 + diff * gp_cpu_usage_limit (global_prefs s) / 100 in
        if debt < 0 then (SUSPEND_REASON_CPU_USAGE_LIMIT, s\<lparr>suspension := u1\<lparr>throttle_debt := debt\<rparr>\<rparr>)
        else (0, s\<lparr>suspension := u1\<lparr>throttle_debt := debt - diff\<rparr>\<rparr>)
      else (0, s\<lparr>suspension := u1\<rparr>))"

definition check_suspend_prefs :: "SUSPEND_IO \<Rightarrow> CLIENT_STATE \<Rightarrow> int" where
  "check_suspend_prefs io s =
     (let g = global_prefs s in
      if \<not> gp_run_on_batteries g \<and> sio_batteries io then SUSPEND_REASON_BATTERIES
      else if \<not> gp_run_if_user_active g \<and> user_active s then SUSPEND_REASON_USER_ACTIVE
      else if time_prefs_suspended (sio_local_time io) (gp_cpu_times g) then SUSPEND_REASON_TIME_OF_DAY
      else 0)"

definition check_suspend_processing :: "SUSPEND_IO \<Rightarrow> CLIENT_STATE \<Rightarrow> int \<times> CLIENT_STATE" where
  "check_suspend_processing io s =
     (let g = global_prefs s; mode = get_current_mode (now s) (run_mode s) in
      if are_cpu_benchmarks_running s then (SUSPEND_REASON_BENCHMARKS, s)
      else if cf_start_delay (config s) \<noteq> 0 \<and> now s < client_start_time (suspension s) + cf_start_delay (config s)
      then (SUSPEND_REASON_INITIAL_DELAY, s)
      else if mode = RUN_MODE_NEVER then (SUSPEND_REASON_USER_REQ, s)
      else if mode \<noteq> RUN_MODE_ALWAYS \<and> check_suspend_prefs io s \<noteq> 0 then (check_suspend_prefs io s, s)
      else if gp_suspend_if_no_recent_input g \<noteq> 0 \<and> sio_users_idle io (gp_suspend_if_no_recent_input g)
      then (SUSPEND_REASON_NO_RECENT_INPUT, s)
      else if gp_cpu_usage_limit g \<noteq> 100 then throttle s
      else (0, s))"

definition reason_string :: "int \<Rightarrow> string" where
  "reason_string reason = concat (map (\<lambda>(bits, msg). if reason AND bits \<noteq> 0 then msg else [])
     [(SUSPEND_REASON_BATTERIES, '' - on batteries''), (SUSPEND_REASON_USER_ACTIVE, '' - user is active''),
      (SUSPEND_REASON_USER_REQ, '' - user request''), (SUSPEND_REASON_TIME_OF_DAY, '' - time of day''),
      (SUSPEND_REASON_BENCHMARKS, '' - running CPU benchmarks''),
      (SUSPEND_REASON_DISK_SIZE, '' - out of disk space - change global prefs''),
      (SUSPEND_REASON_NO_RECENT_INPUT, '' - no recent user activity''),
      (SUSPEND_REASON_INITIAL_DELAY, '' - initial delay'')])"

definition check_suspend_network :: "SUSPEND_IO \<Rightarrow> CLIENT_STATE \<Rightarrow> int" where
  "check_suspend_network io s =
     (let mode = get_current_mode (now s) (network_mode s) in
      if mode = RUN_MODE_ALWAYS then 0
      else if mode = RUN_MODE_NEVER then SUSPEND_REASON_USER_REQ
      else if \<not> gp_run_if_user_active (global_prefs s) \<and> user_active s then SUSPEND_REASON_USER_ACTIVE
      else if time_prefs_suspended (sio_local_time io) (gp_net_times (global_prefs s)) then SUSPEND_REASON_TIME_OF_DAY
      else 0)"

section \<open>Suspending and resuming\<close>

definition suspend_tasks :: "int \<Rightarrow> CLIENT_STATE \<Rightarrow> CLIENT_STATE" where
  "suspend_tasks reason s =
     (if reason = SUSPEND_REASON_CPU_USAGE_LIMIT then suspend_all True s
      else suspend_all (gp_leave_apps_in_memory (global_prefs s)) s)"

definition resume_tasks :: "OS \<Rightarrow> int \<Rightarrow> CLIENT_STATE \<Rightarrow> CLIENT_STATE" where
  "resume_tasks os reason s =
     (if reason = SUSPEND_REASON_CPU_USAGE_LIMIT then unsuspend_all os s
      else request_schedule_cpus (unsuspend_all os s))"

text \<open>The steps of \<open>poll_slow_events\<close> before the other parts are polled.\<close>

definition poll_benchmarks_start :: "SUSPEND_IO \<Rightarrow> CLIENT_STATE \<Rightarrow> CLIENT_STATE" where
  "poll_benchmarks_start io s =
     (if should_run_cpu_benchmarks s \<and> \<not> are_cpu_benchmarks_running s
      then start_cpu_benchmarks (sio_bench io) (s\<lparr>run_cpu_benchmarks := False\<rparr>) else s)"

definition poll_user_active :: "SUSPEND_IO \<Rightarrow> CLIENT_STATE \<Rightarrow> CLIENT_STATE" where
  "poll_user_active io s =
     (let s1 = s\<lparr>user_active := \<not> sio_users_idle io (gp_idle_time_to_run (global_prefs s))\<rparr>
      in if user_active s1 \<noteq> user_active s then request_schedule_cpus s1 else s1)"

definition upd_susp :: "(SUSPENSION \<Rightarrow> SUSPENSION) \<Rightarrow> CLIENT_STATE \<Rightarrow> CLIENT_STATE" where
  "upd_susp f s = s\<lparr>suspension := f (suspension s)\<rparr>"

definition switch_tasks :: "OS \<Rightarrow> int \<Rightarrow> CLIENT_STATE \<Rightarrow> CLIENT_STATE" where
  "switch_tasks os reason s =
     (if \<not> tasks_restarted (suspension s) then s
      else if reason \<noteq> 0
      then upd_susp (\<lambda>u. u\<lparr>last_suspend_reason := reason\<rparr>)
             (if \<not> tasks_suspended (suspension s) then suspend_tasks reason s else s)
      else if tasks_suspended (suspension s) then resume_tasks os (last_suspend_reason (suspension s)) s else s)"

definition poll_suspend :: "SUSPEND_IO \<Rightarrow> OS \<Rightarrow> CLIENT_STATE \<Rightarrow> CLIENT_STATE" where
  "poll_suspend io os s =
     (case check_suspend_processing io s of (reason, s1) \<Rightarrow>
      let s2 = switch_tasks os reason (upd_susp (\<lambda>u. u\<lparr>suspend_reason := reason\<rparr>) s1);
          s3 = upd_susp (\<lambda>u. u\<lparr>tasks_suspended := (reason \<noteq> 0)\<rparr>) s2
      in if reason AND SUSPEND_REASON_BENCHMARKS \<noteq> 0 then cpu_benchmarks_poll (sio_bench io) s3 else s3)"

definition poll_suspend_network :: "SUSPEND_IO \<Rightarrow> CLIENT_STATE \<Rightarrow> CLIENT_STATE" where
  "poll_suspend_network io s =
     (let reason = check_suspend_network io s; s1 = s\<lparr>network_suspend_reason := reason\<rparr> in
      if reason \<noteq> 0 then (if \<not> network_suspended s1 then (pfxs_suspend s1)\<lparr>network_suspended := True\<rparr> else s1)
      else s1\<lparr>network_suspended := False\<rparr>)"

section \<open>Disk usage\<close>

abbreviation GIGA :: real where "GIGA \<equiv> 1073741824"

definition allowed_disk_usage :: "real \<Rightarrow> CLIENT_STATE \<Rightarrow> real" where
  "allowed_disk_usage boinc_total s =
     (let g = global_prefs s; h = host_info s;
          limit_pct = hi_d_total h * gp_disk_max_used_pct g / 100;
          limit_min_free = boinc_total + hi_d_free h - gp_disk_min_free_gb g * GIGA;
          limit_abs = gp_disk_max_used_gb g * GIGA;
          size = min (min limit_abs limit_pct) limit_min_free
      in if size < 0 then 0 else size)"

text \<open>\<open>project_disk_usage\<close>; \<open>dir\<close> and \<open>slot\<close> are the sizes of the project's directory and of the slots.\<close>

definition project_disk_usage :: "(pid \<Rightarrow> real) \<Rightarrow> (nat \<Rightarrow> real) \<Rightarrow> pid \<Rightarrow> CLIENT_STATE \<Rightarrow> real" where
  "project_disk_usage dir slot p s = fold (\<lambda>a size.
     if wu_project (wunit s (at_wup (task s a))) \<noteq> p then size else size + slot (at_slot (task s a)))
     (active_tasks s) (dir p)"

section \<open>The throttle keeps to its percentage\<close>

text \<open>Polls at the times given by the lengths of the ticks; the sum of the ticks after which computing goes on.\<close>

fun polls :: "(SUSPEND_IO \<times> real) list \<Rightarrow> CLIENT_STATE \<Rightarrow> real \<times> CLIENT_STATE" where
  "polls [] s = (0, s)"
| "polls ((io, d) # ticks) s =
     (case check_suspend_processing io (s\<lparr>now := now s + d\<rparr>) of (reason, s1) \<Rightarrow>
      case polls ticks s1 of (time, s2) \<Rightarrow> ((if reason = 0 then d else 0) + time, s2))"

text \<open>Nothing but the throttle can suspend computing.\<close>

definition undisturbed :: "SUSPEND_IO \<Rightarrow> CLIENT_STATE \<Rightarrow> bool" where
  "undisturbed io s =
     (\<not> are_cpu_benchmarks_running s \<and> cf_start_delay (config s) = 0 \<and> temp_timeout (run_mode s) \<le> now s
      \<and> (perm_mode (run_mode s) = RUN_MODE_ALWAYS \<or> perm_mode (run_mode s) \<noteq> RUN_MODE_NEVER \<and> check_suspend_prefs io s = 0)
      \<and> (gp_suspend_if_no_recent_input (global_prefs s) = 0
         \<or> \<not> sio_users_idle io (gp_suspend_if_no_recent_input (global_prefs s))))"

lemma undisturbed_throttle:
  "undisturbed io s \<Longrightarrow> gp_cpu_usage_limit (global_prefs s) \<noteq> 100 \<Longrightarrow> check_suspend_processing io s = throttle s"
  by (auto simp: undisturbed_def check_suspend_processing_def get_current_mode_def Let_def)

lemma undisturbed_later:
  assumes "0 \<le> d"
  shows "undisturbed io s \<Longrightarrow> undisturbed io (s\<lparr>now := now s + d\<rparr>)"
    and "undisturbed io s \<Longrightarrow> undisturbed io (snd (throttle s))"
  using assms by (auto simp: undisturbed_def check_suspend_prefs_def throttle_def are_cpu_benchmarks_running_def Let_def)

lemma throttle_frame:
  "global_prefs (snd (throttle s)) = global_prefs s" "now (snd (throttle s)) = now s"
  "throttle_last_time (suspension (snd (throttle s))) = now s"
  by (simp_all add: throttle_def Let_def)

lemma throttle_tick:
  fixes d :: real
  assumes "throttle_last_time (suspension s) = now s - d" "1/2 \<le> d" "d < 10"
  shows "throttle_debt (suspension (snd (throttle s)))
      = throttle_debt (suspension s) + d * gp_cpu_usage_limit (global_prefs s) / 100 - (if fst (throttle s) = 0 then d else 0)"
    and "fst (throttle s) = 0 \<longleftrightarrow> 0 \<le> throttle_debt (suspension s) + d * gp_cpu_usage_limit (global_prefs s) / 100"
  using assms by (simp_all add: throttle_def Let_def)

lemma throttle_debt_range:
  fixes d :: real
  assumes "throttle_last_time (suspension s) = now s - d" "1/2 \<le> d" "d < 10"
    and "0 < gp_cpu_usage_limit (global_prefs s)" "gp_cpu_usage_limit (global_prefs s) \<le> 100"
    and "-10 < throttle_debt (suspension s)" "throttle_debt (suspension s) \<le> 0"
  shows "-10 < throttle_debt (suspension (snd (throttle s))) \<and> throttle_debt (suspension (snd (throttle s))) \<le> 0"
proof -
  define L where "L = gp_cpu_usage_limit (global_prefs s)"
  have "0 \<le> d * L" "d * L \<le> d * 100" using assms(2,4,5) by (simp_all add: L_def)
  then have "0 \<le> d * L / 100" "d * L / 100 \<le> d" by simp_all
  then show ?thesis
    unfolding throttle_tick(1) [OF assms(1-3)] using throttle_tick(2) [OF assms(1-3)] assms(3,6,7) by (auto simp: L_def)
qed

lemma polls_debt:
  assumes "\<forall>(io, d) \<in> set ticks. undisturbed io s \<and> 1/2 \<le> d \<and> d < 10"
    and "0 < gp_cpu_usage_limit (global_prefs s)" "gp_cpu_usage_limit (global_prefs s) < 100"
    and "throttle_last_time (suspension s) = now s"
    and "-10 < throttle_debt (suspension s)" "throttle_debt (suspension s) \<le> 0"
  shows "-10 < throttle_debt (suspension (snd (polls ticks s))) \<and> throttle_debt (suspension (snd (polls ticks s))) \<le> 0
    \<and> throttle_debt (suspension (snd (polls ticks s)))
      = throttle_debt (suspension s) + (\<Sum>(io, d) \<leftarrow> ticks. d) * gp_cpu_usage_limit (global_prefs s) / 100 - fst (polls ticks s)"
  using assms
proof (induction ticks arbitrary: s)
  case (Cons t ticks)
  obtain io d where t: "t = (io, d)" by (cases t)
  define s1 where "s1 = s\<lparr>now := now s + d\<rparr>"
  define s2 where "s2 = snd (throttle s1)"
  have d: "1/2 \<le> d" "d < 10" and u: "undisturbed io s" using Cons.prems(1) t by auto
  have u1: "undisturbed io s1" unfolding s1_def using u d(1) by (intro undisturbed_later(1)) auto
  have eq: "check_suspend_processing io s1 = throttle s1"
    using undisturbed_throttle [OF u1] Cons.prems(3) by (simp add: s1_def)
  have last: "throttle_last_time (suspension s1) = now s1 - d" using Cons.prems(4) by (simp add: s1_def)
  have lim: "gp_cpu_usage_limit (global_prefs s2) = gp_cpu_usage_limit (global_prefs s)"
    by (simp add: s2_def throttle_frame s1_def)
  have range: "-10 < throttle_debt (suspension s2) \<and> throttle_debt (suspension s2) \<le> 0"
    unfolding s2_def using Cons.prems by (intro throttle_debt_range [OF last d]) (simp_all add: s1_def)
  have rest: "\<forall>(io, d) \<in> set ticks. undisturbed io s2 \<and> 1/2 \<le> d \<and> d < 10"
    using Cons.prems(1) d(1) unfolding s2_def s1_def by (fastforce intro: undisturbed_later)
  have "throttle_last_time (suspension s2) = now s2" by (simp add: s2_def throttle_frame)
  note ih = Cons.IH [OF rest _ _ this, unfolded lim] Cons.prems(2,3) range
  have tick: "throttle_debt (suspension s2) = throttle_debt (suspension s) + d * gp_cpu_usage_limit (global_prefs s) / 100
      - (if fst (throttle s1) = 0 then d else 0)"
    using throttle_tick(1) [OF last d] by (simp add: s2_def s1_def)
  have p: "fst (polls (t # ticks) s) = (if fst (throttle s1) = 0 then d else 0) + fst (polls ticks s2)"
    "snd (polls (t # ticks) s) = snd (polls ticks s2)"
    by (simp_all add: t s1_def [symmetric] eq s2_def split_beta)
  have sum: "(\<Sum>(io, d) \<leftarrow> t # ticks. d) = d + (\<Sum>(io, d) \<leftarrow> ticks. d)" by (simp add: t)
  show ?case using ih tick unfolding p sum by (auto simp: distrib_right add_divide_distrib)
qed simp


definition sample_suspend_io :: SUSPEND_IO where
  "sample_suspend_io = \<lparr>sio_bench = \<lparr>bio_dtime = 1000, bio_finished = (\<lambda>_. None)\<rparr>, sio_batteries = False,
     sio_users_idle = (\<lambda>_. False), sio_local_time = (1, 43200)\<rparr>"


section \<open>What a suspension stops\<close>

lemma fold_each:
  assumes "\<And>a s. F (f a s) = F s" "\<And>a b s. b \<noteq> a \<Longrightarrow> V (f a s) b = V s b" "\<And>a s. R a (F s) (V s a) (V (f a s) a)"
    "distinct as" "b \<in> set as"
  shows "R b (F s) (V s b) (V (fold f as s) b)"
  using assms(4,5)
proof (induction as arbitrary: s)
  case (Cons a as)
  show ?case
  proof (cases "b = a")
    case True
    have "V (fold f as s) a = V s a" if "a \<notin> set as" for as s
      using that by (induction as arbitrary: s) (auto simp: assms(2))
    then show ?thesis using True Cons.prems assms(3) [of a s] by simp
  next
    case False
    then show ?thesis using Cons.IH [of "f a s"] Cons.prems assms(1,2) by simp
  qed
qed simp

text \<open>Tasks that do not take a whole CPU.\<close>

definition light :: "CLIENT_STATE \<Rightarrow> ACTIVE_TASK \<Rightarrow> bool" where
  "light s t = (p_non_cpu_intensive (proj s (r_project (res s (at_result t)))) \<or> av_avg_ncpus (appver s (at_app_version t)) < 1)"

lemma preempt_task:
  "b \<noteq> a \<Longrightarrow> task (preempt q a s) b = task s b"
  "at_task_state (task (preempt q a s) a) = PROCESS_EXECUTING \<longleftrightarrow>
     at_task_state (task s a) = PROCESS_EXECUTING \<and> \<not> at_shm (task s a) \<and> \<not> (q \<and> at_checkpoint_cpu_time (task s a) > 0)"
  by (auto simp: preempt_def request_exit_def suspend_def set_task_state_def control_or_withdraw_def send_control_def upd_defs Let_def
      split: prod.split)

lemma preempt_frame:
  "proj (preempt q a s) = proj s" "res (preempt q a s) = res s" "appver (preempt q a s) = appver s" "active_tasks (preempt q a s) = active_tasks s"
  by (auto simp: preempt_def request_exit_def suspend_def set_task_state_def control_or_withdraw_def send_control_def upd_defs Let_def
      split: prod.split)

lemma suspend_all_executing:
  assumes "distinct (active_tasks s)" "a \<in> set (active_tasks s)"
  shows "at_task_state (task (suspend_all cpu_throttle s) a) = PROCESS_EXECUTING \<longleftrightarrow>
    at_task_state (task s a) = PROCESS_EXECUTING
    \<and> (cpu_throttle \<and> light s (task s a)
       \<or> \<not> at_shm (task s a) \<and> \<not> (\<not> cpu_throttle \<and> \<not> gp_leave_apps_in_memory (global_prefs s) \<and> at_checkpoint_cpu_time (task s a) > 0))"
proof -
  define q where "q = (\<not> cpu_throttle \<and> \<not> gp_leave_apps_in_memory (global_prefs s))"
  define f where "f a s = (if at_task_state (task s a) \<noteq> PROCESS_EXECUTING then s
      else if cpu_throttle \<and> light s (task s a) then s else preempt q a s)" for a s
  define F where "F s = (proj s, res s, appver s)" for s :: CLIENT_STATE
  have light: "F u = F v \<Longrightarrow> light u t = light v t" for u v t by (simp add: F_def light_def)
  have f: "suspend_all cpu_throttle s = fold f (active_tasks s) s"
  proof -
    have eq: "(\<not> (if \<not> cpu_throttle then gp_leave_apps_in_memory (global_prefs s) else True)) = q" by (simp add: q_def)
    show ?thesis unfolding suspend_all_def Let_def eq f_def [abs_def] light_def ..
  qed
  define R where "R a v (t :: ACTIVE_TASK) (u :: ACTIVE_TASK) = (\<forall>s0. F s0 = v \<longrightarrow>
      (at_task_state u = PROCESS_EXECUTING \<longleftrightarrow> at_task_state t = PROCESS_EXECUTING
        \<and> (cpu_throttle \<and> light s0 t \<or> \<not> at_shm t \<and> \<not> (q \<and> at_checkpoint_cpu_time t > 0))))" for a :: aid and v t u
  have "R a (F s) (task s a) (task (fold f (active_tasks s) s) a)"
  proof (rule fold_each [where F = F and V = task])
    show "F (f a s) = F s" for a s by (simp add: f_def F_def preempt_frame)
    show "b \<noteq> a \<Longrightarrow> task (f a s) b = task s b" for a b s by (simp add: f_def preempt_task)
    show "R a (F s) (task s a) (task (f a s) a)" for a s
      unfolding R_def
    proof (intro allI impI)
      fix s0 assume "F s0 = F s"
      then have "light s0 t = light s t" for t by (rule light)
      then show "at_task_state (task (f a s) a) = PROCESS_EXECUTING \<longleftrightarrow> at_task_state (task s a) = PROCESS_EXECUTING
          \<and> (cpu_throttle \<and> light s0 (task s a) \<or> \<not> at_shm (task s a) \<and> \<not> (q \<and> at_checkpoint_cpu_time (task s a) > 0))"
        by (auto simp: f_def preempt_task)
    qed
  qed (use assms in auto)
  then show ?thesis unfolding f R_def q_def by simp
qed

lemma switch_unchanged [simp]:
  "bench (upd_susp f s) = bench s" "task (upd_susp f s) = task s" "active_tasks (upd_susp f s) = active_tasks s"
  "global_prefs (upd_susp f s) = global_prefs s" "now (upd_susp f s) = now s" "suspension (upd_susp f s) = f (suspension s)"
  "light (upd_susp f s) = light s"
  by (auto simp: upd_susp_def light_def)

lemma check_suspend_frame:
  assumes "check_suspend_processing io s = (reason, s1)"
  obtains u where "s1 = s\<lparr>suspension := u\<rparr>" "tasks_restarted u = tasks_restarted (suspension s)" "tasks_suspended u = tasks_suspended (suspension s)"
    "last_suspend_reason u = last_suspend_reason (suspension s)"
proof (cases "s1 = s")
  case True
  then have "s1 = s\<lparr>suspension := suspension s\<rparr>" by simp
  then show thesis by (rule that) simp_all
next
  case False
  then have "s1 = snd (throttle s)"
    using assms by (auto simp: check_suspend_processing_def Let_def split: if_splits)
  also have "\<dots> = s\<lparr>suspension := suspension (snd (throttle s))\<rparr>" by (simp add: throttle_def Let_def)
  finally show thesis by (rule that) (simp_all add: throttle_def Let_def)
qed

lemma heartbeats_state: "at_task_state (task (send_heartbeats s) a) = at_task_state (task s a)"
proof -
  have "(\<lambda>a. at_task_state (task (send_heartbeats s) a)) = (\<lambda>a. at_task_state (task s a))"
    unfolding send_heartbeats_def Let_def by (rule fold_frame) (auto simp: upd_task_def)
  then show ?thesis by (rule fun_cong)
qed

lemma bench_poll_state: "at_task_state (task (cpu_benchmarks_poll io s) a) = at_task_state (task s a)"
proof -
  have t: "task (scale_duration_correction_factors k s) = task s" for k s
  proof -
    define g where "g v = upd_appver v (\<lambda>x. x\<lparr>av_duration_correction_factor := av_duration_correction_factor x * k\<rparr>)" for v
    have "task (fold g vs s) = task s" for vs by (rule fold_frame) (simp add: g_def upd_appver_def)
    then show ?thesis by (simp add: scale_duration_correction_factors_def g_def [abs_def])
  qed
  have u: "task (upd_bench g s) = task s" "task (upd_host k s) = task s" "task (set_client_state_dirty s) = task s"
    "task (cpu_benchmarks_set_defaults s) = task s" for g k s
    by (simp_all add: upd_bench_def upd_host_def set_client_state_dirty_def cpu_benchmarks_set_defaults_def)
  have f: "task (finish_benchmarks s) = task s" for s unfolding finish_benchmarks_def Let_def u by (simp add: t u)
  have w: "task (bench_wait io s) = task s" for s
    unfolding bench_wait_def Let_def check_benchmarks_def bench_timeout_def by (simp add: f u)
  have h: "at_task_state (task (send_heartbeats (upd_bench f s)) a) = at_task_state (task s a)" for f
    unfolding heartbeats_state by (simp add: u)
  show ?thesis unfolding cpu_benchmarks_poll_def Let_def by (simp add: w h u)
qed

lemma poll_suspend_switch:
  assumes "check_suspend_processing io s = (reason, s1)"
  shows "at_task_state (task (poll_suspend io os s) a)
    = at_task_state (task (switch_tasks os reason (upd_susp (\<lambda>u. u\<lparr>suspend_reason := reason\<rparr>) s1)) a)"
  unfolding poll_suspend_def assms Let_def by (simp add: bench_poll_state)

text \<open>C29: What suspending stops: a poll that finds a reason to suspend, while computing goes on, leaves a task
  executing exactly if it has no shared memory to be told by (and need not quit), or if the task is
  light, that is non-CPU-intensive or using less than a CPU, and either the CPU throttle is the
  reason or applications are to be left in memory: that preference is passed on where the throttle
  is meant, so light tasks go on computing during every suspension.\<close>
theorem suspended_tasks:
  assumes "check_suspend_processing io s = (reason, s1)" "reason \<noteq> 0" "tasks_restarted (suspension s)" "\<not> tasks_suspended (suspension s)"
    "distinct (active_tasks s)" "a \<in> set (active_tasks s)"
  shows "at_task_state (task (poll_suspend io os s) a) = PROCESS_EXECUTING \<longleftrightarrow>
    at_task_state (task s a) = PROCESS_EXECUTING
    \<and> ((reason = SUSPEND_REASON_CPU_USAGE_LIMIT \<or> gp_leave_apps_in_memory (global_prefs s)) \<and> light s (task s a)
       \<or> \<not> at_shm (task s a) \<and> (reason = SUSPEND_REASON_CPU_USAGE_LIMIT \<or> gp_leave_apps_in_memory (global_prefs s)
                                \<or> at_checkpoint_cpu_time (task s a) \<le> 0))"
proof -
  obtain u where u: "s1 = s\<lparr>suspension := u\<rparr>" "tasks_restarted u = tasks_restarted (suspension s)"
    "tasks_suspended u = tasks_suspended (suspension s)" using check_suspend_frame [OF assms(1)] by blast
  define t where "t = upd_susp (\<lambda>u. u\<lparr>suspend_reason := reason\<rparr>) s1"
  have t: "task t = task s" "active_tasks t = active_tasks s" "global_prefs t = global_prefs s" "light t = light s"
    by (auto simp: t_def u(1) light_def)
  have "task (switch_tasks os reason t) = task (suspend_tasks reason t)"
    using assms(2-4) u by (simp add: switch_tasks_def t_def)
  also have "suspend_tasks reason t = suspend_all (reason = SUSPEND_REASON_CPU_USAGE_LIMIT \<or> gp_leave_apps_in_memory (global_prefs s)) t"
    by (simp add: suspend_tasks_def t)
  finally have "task (switch_tasks os reason t) = task (suspend_all (reason = SUSPEND_REASON_CPU_USAGE_LIMIT
      \<or> gp_leave_apps_in_memory (global_prefs s)) t)" .
  moreover note suspend_all_executing [of t a "reason = SUSPEND_REASON_CPU_USAGE_LIMIT \<or> gp_leave_apps_in_memory (global_prefs s)",
      unfolded t, OF assms(5,6)]
  ultimately show ?thesis
    unfolding poll_suspend_switch [OF assms(1)] t_def [symmetric] by (simp only: not_less [symmetric]) blast
qed

text \<open>A reason that arises while computing is suspended already is ignored: no task changes its state. Light tasks
  that the throttle has left running go on when the user asks to stop.\<close>
theorem second_reason_ignored:
  assumes "check_suspend_processing io s = (reason, s1)" "reason \<noteq> 0" "tasks_suspended (suspension s)"
  shows "at_task_state (task (poll_suspend io os s) a) = at_task_state (task s a)"
proof -
  obtain u where u: "s1 = s\<lparr>suspension := u\<rparr>" "tasks_suspended u = tasks_suspended (suspension s)"
    using check_suspend_frame [OF assms(1)] by blast
  show ?thesis
    unfolding poll_suspend_switch [OF assms(1)] using assms(2,3) u by (simp add: switch_tasks_def)
qed

text \<open>Concrete states for the two properties: a light task and a heavy one, both computing.\<close>

definition two_tasks :: "bool \<Rightarrow> CLIENT_STATE" where
  "two_tasks suspended = sample_state\<lparr>active_tasks := [0, 1],
     task := (\<lambda>a. sample_task\<lparr>at_task_state := PROCESS_EXECUTING, at_shm := True, at_app_version := a\<rparr>),
     appver := (\<lambda>v. (appver sample_state v)\<lparr>av_avg_ncpus := (if v = 0 then 1/2 else 1)\<rparr>),
     global_prefs := sample_prefs\<lparr>gp_leave_apps_in_memory := True\<rparr>,
     run_mode := \<lparr>perm_mode = RUN_MODE_NEVER, temp_mode = RUN_MODE_NEVER, temp_timeout = 0\<rparr>,
     suspension := (suspension sample_state)\<lparr>tasks_suspended := suspended\<rparr>\<rparr>"

lemma two_tasks_check: "check_suspend_processing io (two_tasks b) = (SUSPEND_REASON_USER_REQ, two_tasks b)"
  by (simp add: check_suspend_processing_def two_tasks_def sample_defs are_cpu_benchmarks_running_def get_current_mode_def)

theorem suspended_tasks_witness:
  "at_task_state (task (poll_suspend sample_suspend_io sample_os (two_tasks False)) 0) = PROCESS_EXECUTING
   \<and> at_task_state (task (poll_suspend sample_suspend_io sample_os (two_tasks False)) 1) \<noteq> PROCESS_EXECUTING"
proof -
  have "tasks_restarted (suspension (two_tasks False))" "\<not> tasks_suspended (suspension (two_tasks False))" "distinct (active_tasks (two_tasks False))"
    "gp_leave_apps_in_memory (global_prefs (two_tasks False))" "0 \<in> set (active_tasks (two_tasks False))" "1 \<in> set (active_tasks (two_tasks False))"
    "at_task_state (task (two_tasks False) a) = PROCESS_EXECUTING" "at_shm (task (two_tasks False) a)"
    "light (two_tasks False) (task (two_tasks False) 0)" "\<not> light (two_tasks False) (task (two_tasks False) 1)" for a
    by (simp_all add: two_tasks_def sample_defs light_def)
  then show ?thesis
    using suspended_tasks [OF two_tasks_check, of False 0] suspended_tasks [OF two_tasks_check, of False 1] by simp
qed

theorem second_reason_ignored_witness:
  "at_task_state (task (poll_suspend sample_suspend_io sample_os (two_tasks True)) 0) = PROCESS_EXECUTING"
  using second_reason_ignored [OF two_tasks_check, of True sample_suspend_io sample_os 0] by (simp add: two_tasks_def)

section \<open>Resuming\<close>

text \<open>
  What resuming needs of a task: it is on the schedule and suspended with shared memory, or it was removed
  from memory and the system starts it again.
\<close>

definition resumable :: "OS \<Rightarrow> aid \<Rightarrow> ACTIVE_TASK \<Rightarrow> bool" where
  "resumable os a t =
     (at_scheduler_state t = CPU_SCHED_SCHEDULED
      \<and> (at_task_state t = PROCESS_EXECUTING \<or> at_task_state t = PROCESS_SUSPENDED \<and> at_shm t
         \<or> at_task_state t = PROCESS_UNINITIALIZED \<and> os_start os a = Started))"

lemma unsuspend_task:
  "b \<noteq> a \<Longrightarrow> task (snd (unsuspend a s)) b = task s b"
  "at_shm (task s a) \<Longrightarrow> at_task_state (task (snd (unsuspend a s)) a) = PROCESS_EXECUTING"
  by (auto simp: unsuspend_def set_task_state_def control_or_withdraw_def send_control_def upd_defs Let_def split: prod.split)

lemma start_prepare_others: "b \<noteq> a \<Longrightarrow> task (start_prepare a s) b = task s b"
  by (simp add: start_prepare_def upd_task_def)

lemma start_others:
  assumes "\<And>r s. task (os_verify_inputs os r s) = task s" "b \<noteq> a"
  shows "task (snd (start os a s)) b = task s b"
proof (cases "os_start os a")
  case (Missing_Files fs)
  have "task (fold (\<lambda>f. upd_finfo f (\<lambda>x. x\<lparr>fi_status := FILE_NOT_PRESENT\<rparr>)) fs s) = task s"
    by (rule fold_frame) (simp add: upd_finfo_def)
  then show ?thesis using assms(2) by (simp add: start_def Missing_Files Let_def upd_task_def upd_res_def)
next
  case (Start_Error stage e msg)
  then show ?thesis
    using assms start_prepare_others [OF assms(2)] by (simp add: start_def Let_def set_task_state_def task_report upd_task_def)
next
  case (No_Shmem e)
  then show ?thesis using assms(2) start_prepare_others by (simp add: start_def Let_def upd_task_def)
next
  case Started
  then show ?thesis using assms(2) start_prepare_others by (simp add: start_def Let_def set_task_state_def upd_task_def)
qed

lemma start_started: "os_start os a = Started \<Longrightarrow> at_task_state (task (snd (start os a s)) a) = PROCESS_EXECUTING"
  by (simp add: start_def Let_def set_task_state_def upd_task_def)

lemma unsuspend_all_resumes:
  assumes "\<And>r s. task (os_verify_inputs os r s) = task s" "distinct (active_tasks s)" "a \<in> set (active_tasks s)" "resumable os a (task s a)"
  shows "at_task_state (task (unsuspend_all os s) a) = PROCESS_EXECUTING"
proof -
  define f where "f a s = (if at_scheduler_state (task s a) \<noteq> CPU_SCHED_SCHEDULED then s
     else if at_task_state (task s a) = PROCESS_UNINITIALIZED then snd (start os a s)
     else if at_task_state (task s a) = PROCESS_SUSPENDED then snd (unsuspend a s) else s)" for a s
  define R where "R a (v :: unit) (t :: ACTIVE_TASK) (u :: ACTIVE_TASK) = (resumable os a t \<longrightarrow> at_task_state u = PROCESS_EXECUTING)" for a v t u
  have "R a () (task s a) (task (fold f (active_tasks s) s) a)"
  proof (rule fold_each [where F = "\<lambda>_. ()" and V = task])
    show "b \<noteq> a \<Longrightarrow> task (f a s) b = task s b" for a b s using start_others [OF assms(1)] unsuspend_task(1) by (simp add: f_def)
    show "R a () (task s a) (task (f a s) a)" for a s
      unfolding R_def resumable_def f_def using start_started unsuspend_task(2) by (auto split: if_splits)
  qed (use assms in auto)
  then show ?thesis using assms(4) by (simp add: R_def unsuspend_all_def f_def [abs_def])
qed



section \<open>Light tasks and benchmarks\<close>

lemma suspend_all_active: "active_tasks (suspend_all c s) = active_tasks s"
  unfolding suspend_all_def Let_def by (rule fold_frame) (simp add: preempt_frame)

lemma suspend_all_rest: "bench (suspend_all c s) = bench s" "now (suspend_all c s) = now s" "host_info (suspend_all c s) = host_info s"
proof -
  have p: "bench (preempt q a s) = bench s" "now (preempt q a s) = now s" "host_info (preempt q a s) = host_info s" for q a s
    by (simp_all add: preempt_def request_exit_def suspend_def set_task_state_def control_or_withdraw_def send_control_def upd_task_def Let_def
        split: prod.split)
  show "bench (suspend_all c s) = bench s" "now (suspend_all c s) = now s" "host_info (suspend_all c s) = host_info s"
    unfolding suspend_all_def Let_def by (rule fold_frame; simp add: p)+
qed

lemma switch_keeps_light:
  assumes "reason \<noteq> 0" "gp_leave_apps_in_memory (global_prefs s)" "distinct (active_tasks s)" "a \<in> set (active_tasks s)"
    "at_task_state (task s a) = PROCESS_EXECUTING" "light s (task s a)"
  shows "at_task_state (task (switch_tasks os reason s) a) = PROCESS_EXECUTING \<and> active_tasks (switch_tasks os reason s) = active_tasks s
    \<and> bench (switch_tasks os reason s) = bench s \<and> now (switch_tasks os reason s) = now s \<and> host_info (switch_tasks os reason s) = host_info s"
proof -
  have h: "host_info (upd_susp f s) = host_info s" for f s by (simp add: upd_susp_def)
  have "suspend_tasks reason s = suspend_all True s" using assms(2) by (simp add: suspend_tasks_def)
  then show ?thesis
    using assms suspend_all_executing [OF assms(3,4), of True] by (simp add: switch_tasks_def suspend_all_active suspend_all_rest h)
qed

lemma poll_gives_up:
  assumes "benchmarks_running (bench s)" "bm_last_time (bench s) + 1 \<le> now s" "cpu_benchmarks_start (bench s) + 10 \<le> now s" "is_task_executing s"
  shows "\<not> benchmarks_running (bench (cpu_benchmarks_poll io s)) \<and> cpu_benchmarks_pending (bench (cpu_benchmarks_poll io s))
    \<and> host_info (cpu_benchmarks_poll io s) = (host_info s)\<lparr>hi_p_calculated := now s\<rparr>"
proof -
  define s1 where "s1 = send_heartbeats (upd_bench (\<lambda>b. b\<lparr>bm_last_time := now s\<rparr>) s)"
  have b: "bench s1 = (bench s)\<lparr>bm_last_time := now s\<rparr>" "now s1 = now s" "host_info s1 = host_info s"
    by (simp_all add: s1_def heartbeats_frame upd_bench_def)
  have "active_tasks s1 = active_tasks s"
    unfolding s1_def send_heartbeats_def Let_def by (subst fold_frame [where v = active_tasks]) (simp_all add: upd_task_def upd_bench_def)
  moreover have "at_task_state (task s1 a) = at_task_state (task s a)" for a
    unfolding s1_def heartbeats_state by (simp add: upd_bench_def)
  ultimately have "is_task_executing s1" using assms(4) by (simp add: is_task_executing_def)
  then have "cpu_benchmarks_poll io s = set_client_state_dirty (upd_bench (\<lambda>b. b\<lparr>benchmarks_running := False, cpu_benchmarks_pending := True\<rparr>)
      (upd_host (\<lambda>h. h\<lparr>hi_p_calculated := now s1\<rparr>) s1))"
    using assms(1-3) unfolding cpu_benchmarks_poll_def Let_def s1_def [symmetric] by (simp add: b)
  then show ?thesis by (simp add: set_client_state_dirty_def upd_bench_def upd_host_def b)
qed

text \<open>A light task and the preference to leave applications in memory make benchmarks impossible: ten seconds
  after they were started the client gives them up because a task is still computing. Nothing is
  measured, but the host counts as measured now.\<close>
theorem light_task_stops_benchmarks:
  assumes "are_cpu_benchmarks_running s" "gp_leave_apps_in_memory (global_prefs s)" "distinct (active_tasks s)" "a \<in> set (active_tasks s)"
    "at_task_state (task s a) = PROCESS_EXECUTING" "light s (task s a)"
    "bm_last_time (bench s) + 1 \<le> now s" "cpu_benchmarks_start (bench s) + 10 \<le> now s"
  shows "let t = poll_suspend io os s in \<not> are_cpu_benchmarks_running t \<and> cpu_benchmarks_pending (bench t)
    \<and> host_info t = (host_info s)\<lparr>hi_p_calculated := now s\<rparr>"
proof -
  define s1 where "s1 = upd_susp (\<lambda>u. u\<lparr>suspend_reason := SUSPEND_REASON_BENCHMARKS\<rparr>) s"
  define s2 where "s2 = switch_tasks os SUSPEND_REASON_BENCHMARKS s1"
  define s3 where "s3 = upd_susp (\<lambda>u. u\<lparr>tasks_suspended := True\<rparr>) s2"
  have "check_suspend_processing io s = (SUSPEND_REASON_BENCHMARKS, s)" using assms(1) by (simp add: check_suspend_processing_def)
  then have t: "poll_suspend io os s = cpu_benchmarks_poll (sio_bench io) s3"
    by (simp add: poll_suspend_def s3_def s2_def s1_def)
  have h: "host_info (upd_susp f s) = host_info s" for f s by (simp add: upd_susp_def)
  have k: "at_task_state (task s2 a) = PROCESS_EXECUTING" "active_tasks s2 = active_tasks s" "bench s2 = bench s" "now s2 = now s"
    "host_info s2 = host_info s"
    using switch_keeps_light [of SUSPEND_REASON_BENCHMARKS s1 a os] assms(2-6) by (simp_all add: s1_def s2_def h)
  have "is_task_executing s3" using k assms(4) by (auto simp: s3_def is_task_executing_def list_ex_iff)
  then show ?thesis
    unfolding t Let_def using poll_gives_up [of s3 "sio_bench io"] assms(1,7,8) k by (simp add: s3_def are_cpu_benchmarks_running_def h)
qed

theorem light_task_stops_benchmarks_witness:
  "let s = (two_tasks False)\<lparr>bench := (bench sample_state)\<lparr>benchmarks_running := True, cpu_benchmarks_start := 980\<rparr>\<rparr>;
       t = poll_suspend sample_suspend_io sample_os s
   in \<not> are_cpu_benchmarks_running t \<and> hi_p_fpops (host_info t) = hi_p_fpops (host_info s) \<and> hi_p_calculated (host_info t) = 1000"
proof -
  define s where "s = (two_tasks False)\<lparr>bench := (bench sample_state)\<lparr>benchmarks_running := True, cpu_benchmarks_start := 980\<rparr>\<rparr>"
  have "are_cpu_benchmarks_running s" "gp_leave_apps_in_memory (global_prefs s)" "distinct (active_tasks s)" "0 \<in> set (active_tasks s)"
    "at_task_state (task s 0) = PROCESS_EXECUTING" "light s (task s 0)" "bm_last_time (bench s) + 1 \<le> now s"
    "cpu_benchmarks_start (bench s) + 10 \<le> now s" "now s = 1000"
    by (simp_all add: s_def two_tasks_def sample_defs are_cpu_benchmarks_running_def light_def)
  then show ?thesis
    unfolding s_def [symmetric] using light_task_stops_benchmarks [of s 0 sample_suspend_io sample_os] by (simp add: Let_def)
qed

end
