(* ===== verification/Host_Stats.thy ===== *)
theory Host_Stats
  imports Element_Text Suspension
begin

unbundle bit_operations_syntax

text \<open>
  Statistics of the host: how much of the time the client runs and computes (\<open>client/time_stats.C\<close>), the speed of
  its network and whether there is one (\<open>client/net_stats.C\<close>, \<open>client/gui_http.C\<close>), and the exponential
  average of \<open>lib/util.C\<close>.
\<close>

section \<open>Fractions of time\<close>

abbreviation CONNECTED_STATE_UNINITIALIZED :: int where "CONNECTED_STATE_UNINITIALIZED \<equiv> -1"
abbreviation CONNECTED_STATE_NOT_CONNECTED :: int where "CONNECTED_STATE_NOT_CONNECTED \<equiv> 0"
abbreviation CONNECTED_STATE_CONNECTED :: int where "CONNECTED_STATE_CONNECTED \<equiv> 1"
abbreviation CONNECTED_STATE_UNKNOWN :: int where "CONNECTED_STATE_UNKNOWN \<equiv> 2"
abbreviation ALPHA :: real where "ALPHA \<equiv> SECONDS_PER_DAY * 10"

definition TIME_STATS_init :: TIME_STATS where
  "TIME_STATS_init = \<lparr>ts_first = True, ts_previous_connected_state = CONNECTED_STATE_UNINITIALIZED, ts_last_update = 0,
     ts_on_frac = 1, ts_connected_frac = 1, ts_active_frac = 1, ts_cpu_efficiency = 1, ts_inactive_start = 0\<rparr>"

text \<open>The weight of what was before an interval of \<open>dt\<close> seconds.\<close>

definition old_weight :: "real \<Rightarrow> real" where
  "old_weight dt = exp (- dt / ALPHA)"

text \<open>
  \<open>conn\<close> is what \<open>get_connected_state\<close> answers: connected or not on Windows, unknown elsewhere.
\<close>

definition update_connected :: "int \<Rightarrow> real \<Rightarrow> TIME_STATS \<Rightarrow> TIME_STATS" where
  "update_connected connected_state w1 ts =
     (let w2 = 1 - w1;
          c = (if ts_connected_frac ts < 0 then 0 else ts_connected_frac ts);
          c1 = (if connected_state = CONNECTED_STATE_NOT_CONNECTED then c * w2
                else if connected_state = CONNECTED_STATE_CONNECTED then c * w2 + w1
                else if connected_state = CONNECTED_STATE_UNKNOWN then -1 else c)
      in ts\<lparr>ts_connected_frac := c1, ts_previous_connected_state := connected_state\<rparr>)"

definition update_active :: "bool \<Rightarrow> real \<Rightarrow> real \<Rightarrow> TIME_STATS \<Rightarrow> TIME_STATS" where
  "update_active is_active w1 t ts =
     (let a = ts_active_frac ts * (1 - w1)
      in if is_active then ts\<lparr>ts_active_frac := a + w1, ts_inactive_start := 0\<rparr>
         else ts\<lparr>ts_active_frac := a,
                 ts_inactive_start := if ts_inactive_start ts = 0 then t else ts_inactive_start ts\<rparr>)"

definition update_fracs :: "int \<Rightarrow> int \<Rightarrow> int \<Rightarrow> real \<Rightarrow> TIME_STATS \<Rightarrow> TIME_STATS" where
  "update_fracs conn net_suspend reason t ts =
     (let is_active = (reason AND NOT SUSPEND_REASON_CPU_USAGE_LIMIT = 0) in
      if ts_last_update ts = 0
      then ts\<lparr>ts_on_frac := 1, ts_connected_frac := 1, ts_active_frac := 1, ts_first := False, ts_last_update := t\<rparr>
      else let dt = t - ts_last_update ts in
      if dt \<le> 10 then ts
      else let w1 = 1 - old_weight dt; w2 = 1 - w1;
               connected_state = (if net_suspend \<noteq> 0 then CONNECTED_STATE_NOT_CONNECTED else conn);
               ts1 = (if ts_first ts then ts\<lparr>ts_on_frac := ts_on_frac ts * w2, ts_first := False\<rparr>
                      else update_active is_active w1 t (update_connected connected_state w1
                             (ts\<lparr>ts_on_frac := w1 + w2 * ts_on_frac ts\<rparr>)))
           in ts1\<lparr>ts_last_update := t\<rparr>)"

definition update_time_stats :: "int \<Rightarrow> CLIENT_STATE \<Rightarrow> CLIENT_STATE" where
  "update_time_stats conn s = s\<lparr>time_stats := update_fracs conn (network_suspend_reason s)
     (suspend_reason (suspension s)) (now s) (time_stats s)\<rparr>"

definition TIME_STATS_write :: "bool \<Rightarrow> TIME_STATS \<Rightarrow> string" where
  "TIME_STATS_write to_server ts = ''<time_stats>'' @ NL @ put_dbl ''on_frac'' (ts_on_frac ts)
     @ put_dbl ''connected_frac'' (ts_connected_frac ts) @ put_dbl ''active_frac'' (ts_active_frac ts)
     @ put_dbl ''cpu_efficiency'' (ts_cpu_efficiency ts)
     @ (if to_server then [] else put_dbl ''last_update'' (ts_last_update ts)) @ ''</time_stats>'' @ NL"

text \<open>Values out of range are ignored. The CPU efficiency is stored in the wrong field.\<close>

definition time_stats_fields :: "real \<Rightarrow> TIME_STATS line_field list" where
  "time_stats_fields t =
     [Dbl_F ''last_update'' (\<lambda>x ts. if x < 0 \<or> x > t then ts else ts\<lparr>ts_last_update := x\<rparr>),
      Dbl_F ''on_frac'' (\<lambda>x ts. if x \<le> 0 \<or> x > 1 then ts else ts\<lparr>ts_on_frac := x\<rparr>),
      Dbl_F ''connected_frac'' (\<lambda>x ts. if x > 1 then ts else ts\<lparr>ts_connected_frac := x\<rparr>),
      Dbl_F ''active_frac'' (\<lambda>x ts. if x \<le> 0 \<or> x > 1 then ts else ts\<lparr>ts_active_frac := x\<rparr>),
      Dbl_F ''cpu_efficiency'' (\<lambda>x ts. if x < 0 \<or> x > 1 then ts else ts\<lparr>ts_active_frac := x\<rparr>)]"

definition TIME_STATS_body :: "real \<Rightarrow> string \<Rightarrow> string \<Rightarrow> TIME_STATS parsed \<Rightarrow> TIME_STATS parsed step" where
  "TIME_STATS_body t buf rest x =
     (if match_tag buf ''</time_stats>'' then Return 0 x rest
      else or_else (time_stats_fields t) buf rest x (skip_line rest))"

definition TIME_STATS_parse :: "real \<Rightarrow> string \<Rightarrow> TIME_STATS parsed \<Rightarrow> int \<times> TIME_STATS parsed \<times> string" where
  "TIME_STATS_parse t inp ts = line_loop 256 (TIME_STATS_body t) inp ts"

section \<open>Averages and network speeds\<close>

abbreviation NET_RATE_HALF_LIFE :: real where "NET_RATE_HALF_LIFE \<equiv> 7 * 86400"

text \<open>\<open>update_average\<close> of \<open>lib/util.C\<close>; \<open>t\<close> is the time that \<open>dtime()\<close> returns.\<close>

definition update_average :: "real \<Rightarrow> real \<Rightarrow> real \<Rightarrow> real \<Rightarrow> real \<times> real \<Rightarrow> real \<times> real" where
  "update_average t work_start_time work half_life av =
     (case av of (avg, avg_time) \<Rightarrow>
        if avg_time \<noteq> 0
        then let diff = max 0 (t - avg_time); diff_days = diff / SECONDS_PER_DAY;
                 weight = exp (- diff * ln 2 / half_life)
             in (avg * weight + (if 1 - weight > 1 / 10 ^ 6 then (1 - weight) * (work / diff_days)
                                 else ln 2 * work * SECONDS_PER_DAY / half_life), t)
        else if work \<noteq> 0 then (work / ((t - work_start_time) / SECONDS_PER_DAY), t)
        else (avg, t))"

definition NET_INFO_clear :: NET_INFO where
  "NET_INFO_clear = \<lparr>ni_max_rate = 0, ni_avg_rate = 0, ni_avg_time = 0\<rparr>"

definition NET_INFO_update :: "real \<Rightarrow> real \<Rightarrow> real \<Rightarrow> real \<Rightarrow> NET_INFO \<Rightarrow> NET_INFO" where
  "NET_INFO_update gnow t nbytes dt ni =
     (if nbytes = 0 \<or> dt = 0 then ni
      else let bytes_sec = nbytes / dt; w = min 1 (ln nbytes / 500);
               m = (if ni_max_rate ni = 0 then bytes_sec else w * bytes_sec + (1 - w) * ni_max_rate ni)
           in case update_average t (gnow - dt) nbytes NET_RATE_HALF_LIFE (ni_avg_rate ni, ni_avg_time ni) of
                (avg, avg_time) \<Rightarrow> \<lparr>ni_max_rate = m, ni_avg_rate = avg, ni_avg_time = avg_time\<rparr>)"

definition NET_STATS_write :: "NET_STATS \<Rightarrow> string" where
  "NET_STATS_write x = ''<net_stats>'' @ NL @ put_dbl ''bwup'' (ni_max_rate (net_up x))
     @ put_dbl ''avg_up'' (ni_avg_rate (net_up x)) @ put_dbl ''avg_time_up'' (ni_avg_time (net_up x))
     @ put_dbl ''bwdown'' (ni_max_rate (net_down x)) @ put_dbl ''avg_down'' (ni_avg_rate (net_down x))
     @ put_dbl ''avg_time_down'' (ni_avg_time (net_down x)) @ ''</net_stats>'' @ NL"

definition net_stats_fields :: "NET_STATS line_field list" where
  "net_stats_fields =
     [Dbl_F ''bwup'' (\<lambda>v x. x\<lparr>net_up := (net_up x)\<lparr>ni_max_rate := v\<rparr>\<rparr>), Dbl_F ''avg_up'' (\<lambda>v x. x\<lparr>net_up := (net_up x)\<lparr>ni_avg_rate := v\<rparr>\<rparr>),
      Dbl_F ''avg_time_up'' (\<lambda>v x. x\<lparr>net_up := (net_up x)\<lparr>ni_avg_time := v\<rparr>\<rparr>),
      Dbl_F ''bwdown'' (\<lambda>v x. x\<lparr>net_down := (net_down x)\<lparr>ni_max_rate := v\<rparr>\<rparr>),
      Dbl_F ''avg_down'' (\<lambda>v x. x\<lparr>net_down := (net_down x)\<lparr>ni_avg_rate := v\<rparr>\<rparr>),
      Dbl_F ''avg_time_down'' (\<lambda>v x. x\<lparr>net_down := (net_down x)\<lparr>ni_avg_time := v\<rparr>\<rparr>)]"

definition NET_STATS_body :: "string \<Rightarrow> string \<Rightarrow> NET_STATS parsed \<Rightarrow> NET_STATS parsed step" where
  "NET_STATS_body buf rest x =
     (if match_tag buf ''</net_stats>'' then Return 0 x rest else or_else net_stats_fields buf rest x (skip_line rest))"

definition NET_STATS_parse :: "string \<Rightarrow> bool \<Rightarrow> int \<times> NET_STATS parsed \<times> string" where
  "NET_STATS_parse inp e = line_loop 256 NET_STATS_body inp (\<lparr>net_up = NET_INFO_clear, net_down = NET_INFO_clear\<rparr>, e)"

section \<open>Is there a network\<close>

abbreviation NETWORK_STATUS_ONLINE :: int where "NETWORK_STATUS_ONLINE \<equiv> 0"
abbreviation NETWORK_STATUS_WANT_CONNECTION :: int where "NETWORK_STATUS_WANT_CONNECTION \<equiv> 1"
abbreviation NETWORK_STATUS_WANT_DISCONNECT :: int where "NETWORK_STATUS_WANT_DISCONNECT \<equiv> 2"
abbreviation NETWORK_STATUS_LOOKUP_PENDING :: int where "NETWORK_STATUS_LOOKUP_PENDING \<equiv> 3"

definition upd_net :: "(NET_STATUS \<Rightarrow> NET_STATUS) \<Rightarrow> CLIENT_STATE \<Rightarrow> CLIENT_STATE" where
  "upd_net f s = s\<lparr>net_status := f (net_status s)\<rparr>"

definition want_network :: "CLIENT_STATE \<Rightarrow> bool" where
  "want_network s = (\<exists>a \<in> set (active_tasks s). at_want_network (task s a))"

text \<open>\<open>nops\<close> is the number of HTTP operations in progress.\<close>

definition network_status :: "nat \<Rightarrow> CLIENT_STATE \<Rightarrow> int \<times> CLIENT_STATE" where
  "network_status nops s =
     (let s1 = (if nops \<noteq> 0 then upd_net (\<lambda>x. x\<lparr>ns_last_comm_time := now s\<rparr>) s else s); x = net_status s1 in
      if ns_need_to_contact_reference_site x then (NETWORK_STATUS_LOOKUP_PENDING, s1)
      else if lookup_website_error s1 = ERR_IN_PROGRESS then (NETWORK_STATUS_LOOKUP_PENDING, s1)
      else if now s1 - ns_last_comm_time x < 10 then (NETWORK_STATUS_ONLINE, s1)
      else if ns_need_physical_connection x then (NETWORK_STATUS_WANT_CONNECTION, s1)
      else if want_network s1 then (NETWORK_STATUS_WANT_CONNECTION, s1)
      else (NETWORK_STATUS_WANT_DISCONNECT, upd_net (\<lambda>x. x\<lparr>ns_have_sporadic_connection := False\<rparr>) s1))"

definition send_network_available :: "aid \<Rightarrow> CLIENT_STATE \<Rightarrow> CLIENT_STATE" where
  "send_network_available a s = (if \<not> at_shm (task s a) then s else send_control ''<network_available/>'' a s)"

definition tasks_network_available :: "CLIENT_STATE \<Rightarrow> CLIENT_STATE" where
  "tasks_network_available s =
     fold (\<lambda>a s. if at_want_network (task s a) then send_network_available a s else s) (active_tasks s) s"

definition network_available :: "CLIENT_STATE \<Rightarrow> CLIENT_STATE" where
  "network_available s =
     (let s1 = upd_net (\<lambda>x. x\<lparr>ns_have_sporadic_connection := True\<rparr>) s;
          s2 = fold (\<lambda>x. upd_pxfer x (\<lambda>y. y\<lparr>pfx_next_request_time := 0\<rparr>)) (pers_file_xfers s1) s1;
          s3 = fold (\<lambda>p. upd_proj p (\<lambda>y. y\<lparr>p_min_rpc_time := 0\<rparr>)) (projects s2) s2
      in tasks_network_available s3)"

definition got_http_error :: "CLIENT_STATE \<Rightarrow> CLIENT_STATE" where
  "got_http_error s =
     (if lookup_website_error s = ERR_IN_PROGRESS \<or> ns_need_physical_connection (net_status s)
         \<or> cf_dont_contact_ref_site (config s) then s
      else upd_net (\<lambda>x. x\<lparr>ns_need_to_contact_reference_site := True, ns_show_ref_message := True\<rparr>) s)"

text \<open>
  \<open>GUI_HTTP::do_rpc\<close>: \<open>http\<close> is what \<open>init_get\<close> and \<open>insert\<close> return, 0 when the operation has started.
\<close>

abbreviation ERR_RETRY :: int where "ERR_RETRY \<equiv> -199"

definition gui_http_do_rpc :: "int \<Rightarrow> CLIENT_STATE \<Rightarrow> int \<times> CLIENT_STATE" where
  "gui_http_do_rpc http s =
     (if gui_http_busy s then (ERR_RETRY, s)
      else if http = 0 then (0, s\<lparr>gui_http_busy := True\<rparr>) else (http, s))"

definition no_reference_site :: "int \<Rightarrow> CLIENT_STATE \<Rightarrow> CLIENT_STATE" where
  "no_reference_site retval s = upd_net (\<lambda>x. x\<lparr>ns_need_physical_connection := True, ns_last_comm_time := 0\<rparr>)
     (s\<lparr>lookup_website_error := retval\<rparr>)"

definition lookup_website_do_rpc :: "int \<Rightarrow> CLIENT_STATE \<Rightarrow> int \<times> CLIENT_STATE" where
  "lookup_website_do_rpc http s =
     (case gui_http_do_rpc http s of (retval, s1) \<Rightarrow>
        if retval \<noteq> 0 then (retval, no_reference_site retval s1)
        else (retval, s1\<lparr>lookup_website_error := ERR_IN_PROGRESS\<rparr>))"

definition contact_reference_site :: "int \<Rightarrow> CLIENT_STATE \<Rightarrow> CLIENT_STATE" where
  "contact_reference_site http s =
     upd_net (\<lambda>x. x\<lparr>ns_need_to_contact_reference_site := False\<rparr>) (snd (lookup_website_do_rpc http s))"

definition lookup_website_handle_reply :: "int \<Rightarrow> CLIENT_STATE \<Rightarrow> CLIENT_STATE" where
  "lookup_website_handle_reply retval s =
     (if retval \<noteq> 0 then no_reference_site retval s else s\<lparr>lookup_website_error := retval\<rparr>)"

definition net_status_poll :: "int \<Rightarrow> CLIENT_STATE \<Rightarrow> CLIENT_STATE" where
  "net_status_poll http s =
     (if now s < last_wakeup_time s + 30 then s
      else if ns_need_to_contact_reference_site (net_status s) \<and> \<not> gui_http_busy s
      then contact_reference_site http s else s)"

text \<open>
  \<open>GUI_HTTP::poll\<close> when the operation belongs to \<open>handler\<close>; \<open>last_time\<close> is its static, \<open>http_state\<close> and \<open>http\<close> the state and
  the result of the operation.
\<close>

definition gui_http_poll :: "(int \<Rightarrow> CLIENT_STATE \<Rightarrow> CLIENT_STATE) \<Rightarrow> int \<Rightarrow> int \<Rightarrow> real \<Rightarrow> CLIENT_STATE \<Rightarrow> bool \<times> real \<times> CLIENT_STATE" where
  "gui_http_poll handler http_state http last_time s =
     (if \<not> gui_http_busy s then (False, last_time, s)
      else if now s - last_time < 1 then (False, last_time, s)
      else if http_state = HTTP_STATE_DONE then (True, now s, (handler http s)\<lparr>gui_http_busy := False\<rparr>)
      else (True, now s, s))"

text \<open>
  The end of an HTTP operation in \<open>HTTP_OP::handle_messages\<close>: what libcurl returned and the response of the
  server give the result of the operation, \<open>None\<close> when it is not set, and tell about the network.
\<close>

datatype CURLcode = CURLE_OK | CURLE_COULDNT_RESOLVE_HOST | CURLE_COULDNT_CONNECT | CURLE_OTHER

abbreviation ERR_CONNECT :: int where "ERR_CONNECT \<equiv> -107"
abbreviation ERR_GETHOSTBYNAME :: int where "ERR_GETHOSTBYNAME \<equiv> -113"
abbreviation ERR_HTTP_ERROR :: int where "ERR_HTTP_ERROR \<equiv> -184"
abbreviation HTTP_STATUS_CONTINUE :: int where "HTTP_STATUS_CONTINUE \<equiv> 100"

definition http_op_result :: "CURLcode \<Rightarrow> int \<Rightarrow> CLIENT_STATE \<Rightarrow> int option \<times> CLIENT_STATE" where
  "http_op_result curl response s =
     (let online = upd_net (\<lambda>x. x\<lparr>ns_need_physical_connection := False\<rparr>) s in
      case curl of
        CURLE_OK \<Rightarrow>
          if (response div 100) * 100 = HTTP_STATUS_OK then (Some 0, online)
          else if (response div 100) * 100 = HTTP_STATUS_CONTINUE then (None, s)
          else (Some (if response = HTTP_STATUS_NOT_FOUND then ERR_FILE_NOT_FOUND else ERR_HTTP_ERROR), online)
      | CURLE_COULDNT_RESOLVE_HOST \<Rightarrow> (Some ERR_GETHOSTBYNAME, got_http_error s)
      | CURLE_COULDNT_CONNECT \<Rightarrow> (Some ERR_CONNECT, got_http_error s)
      | CURLE_OTHER \<Rightarrow> (Some ERR_HTTP_ERROR, got_http_error s))"

section \<open>The fractions stay in range\<close>

text \<open>What may happen to the statistics: time passes, debts are accounted, the state file is read.\<close>

inductive stats_reach :: "TIME_STATS \<Rightarrow> bool" where
  reach_init: "stats_reach TIME_STATS_init"
| reach_update: "stats_reach ts \<Longrightarrow> stats_reach (update_fracs conn net_suspend reason t ts)"
| reach_efficiency: "stats_reach ts \<Longrightarrow> stats_reach (update_cpu_efficiency wall cpu ts)"
| reach_parse: "stats_reach ts \<Longrightarrow> stats_reach (fst (fst (snd (TIME_STATS_parse t inp (ts, e)))))"

definition stats_ok :: "TIME_STATS \<Rightarrow> bool" where
  "stats_ok ts = (0 < ts_on_frac ts \<and> ts_on_frac ts \<le> 1 \<and> 0 \<le> ts_active_frac ts \<and> ts_active_frac ts \<le> 1
     \<and> ts_connected_frac ts \<le> 1 \<and> 0 \<le> ts_cpu_efficiency ts)"

lemma old_weight_bounds: "0 < old_weight dt" "0 \<le> dt \<Longrightarrow> old_weight dt \<le> 1"
  by (simp_all add: old_weight_def)

text \<open>A weighted mean of two fractions is a fraction.\<close>

lemma mix_bounds:
  fixes w x y :: real
  assumes "0 \<le> w" "w \<le> 1" "0 \<le> x" "x \<le> 1" "0 \<le> y" "y \<le> 1"
  shows "0 \<le> w * x + (1 - w) * y" "w * x + (1 - w) * y \<le> 1"
proof -
  show "0 \<le> w * x + (1 - w) * y" using assms by simp
  have "w * x \<le> w" "(1 - w) * y \<le> 1 - w" using assms mult_left_mono [of x 1 w] mult_left_mono [of y 1 "1 - w"] by simp_all
  then show "w * x + (1 - w) * y \<le> 1" by linarith
qed

lemma update_keeps:
  assumes "stats_ok ts"
  shows "stats_ok (update_fracs conn net_suspend reason t ts)"
proof -
  define w where "w = old_weight (t - ts_last_update ts)"
  have w: "0 < w" by (simp add: w_def old_weight_bounds)
  have w1: "w \<le> 1" if "\<not> t - ts_last_update ts \<le> 10" using that by (simp add: w_def old_weight_bounds(2))
  have on: "0 < ts_on_frac ts" "ts_on_frac ts \<le> 1" and ac: "0 \<le> ts_active_frac ts" "ts_active_frac ts \<le> 1"
    and cn: "ts_connected_frac ts \<le> 1" and ef: "0 \<le> ts_cpu_efficiency ts"
    using assms by (simp_all add: stats_ok_def)
  have m: "0 < w * x" "w * x \<le> 1" "0 < 1 - w + w * x" "1 - w + w * x \<le> 1" if "0 < x" "x \<le> 1" "w \<le> 1" for x
  proof -
    show p: "0 < w * x" using w that by simp
    show "w * x \<le> 1" using mult_le_one [of w x] w that by simp
    show "0 < 1 - w + w * x" using p that by linarith
    show "1 - w + w * x \<le> 1" using mult_left_mono [of x 1 w] w that by simp
  qed
  have m0: "0 \<le> x * w" "x * w \<le> 1" "x * w + (1 - w) \<le> 1" if "0 \<le> x" "x \<le> 1" "w \<le> 1" for x
    using mix_bounds [of w x 0] mix_bounds [of w x 1] w that by (simp_all add: mult.commute)
  have c: "max 0 (ts_connected_frac ts) * w \<le> 1" "max 0 (ts_connected_frac ts) * w + (1 - w) \<le> 1" if "w \<le> 1"
    using m0 [of "max 0 (ts_connected_frac ts)"] cn that by simp_all
  have mx: "(if x < 0 then 0 else x) = max 0 (x :: real)" for x by simp
  show ?thesis
    unfolding update_fracs_def Let_def w_def [symmetric] update_active_def update_connected_def mx stats_ok_def
    using on ac cn ef w w1 m [of "ts_on_frac ts"] m0 [of "ts_active_frac ts"] c by (auto simp: mult.commute)
qed

lemma efficiency_keeps: "stats_ok ts \<Longrightarrow> stats_ok (update_cpu_efficiency wall cpu ts)"
proof -
  assume ok: "stats_ok ts"
  have "0 \<le> exp (- (wall / SECONDS_PER_DAY)) * ts_cpu_efficiency ts + (1 - exp (- (wall / SECONDS_PER_DAY))) * (cpu / wall)"
    if "\<not> wall < 1 / 100" "\<not> cpu / wall < 0"
    using that ok by (intro add_nonneg_nonneg mult_nonneg_nonneg) (auto simp: stats_ok_def)
  then show ?thesis using ok by (simp add: update_cpu_efficiency_def stats_ok_def Let_def)
qed

lemma parse_keeps: "stats_ok (fst x) \<Longrightarrow> stats_ok (fst (fst (snd (TIME_STATS_parse t inp x))))"
  unfolding TIME_STATS_parse_def
proof (rule line_loop_keeps)
  have f: "list_all (field_keeps stats_ok) (time_stats_fields t)"
    by (simp add: time_stats_fields_def field_keeps_def stats_ok_def)
  show "\<forall>buf rest x. stats_ok (fst x) \<longrightarrow> step_keeps (\<lambda>x. stats_ok (fst x)) (TIME_STATS_body t buf rest x)"
    using or_else_keeps [OF f] by (auto simp: TIME_STATS_body_def skip_line_def step_keeps_def)
qed



section \<open>Polling more or less often\<close>

text \<open>Without the time since which the client has been inactive, which is the time of the first poll.\<close>

definition stats_view :: "TIME_STATS \<Rightarrow> TIME_STATS" where
  "stats_view ts = ts\<lparr>ts_inactive_start := 0\<rparr>"

lemma old_weight_add: "old_weight (a + b) = old_weight a * old_weight b"
  by (simp add: old_weight_def add_divide_distrib flip: exp_add)

lemma old_weight_split:
  assumes "x \<le> y" "y \<le> (z :: real)"
  shows "old_weight (z - x) = old_weight (y - x) * old_weight (z - y)"
  using old_weight_add [of "y - x" "z - y"] by simp

lemma update_twice:
  assumes "\<not> ts_first ts" "0 < ts_last_update ts" "ts_last_update ts + 10 < t" "t + 10 < t'"
  shows "stats_view (update_fracs conn net_suspend reason t' (update_fracs conn net_suspend reason t ts))
    = stats_view (update_fracs conn net_suspend reason t' ts)"
proof -
  define a b where "a = old_weight (t - ts_last_update ts)" and "b = old_weight (t' - t)"
  have ab: "old_weight (t' - ts_last_update ts) = a * b"
    using old_weight_split [of "ts_last_update ts" t t'] assms(3,4) by (simp add: a_def b_def)
  have a0: "0 \<le> a" "a \<le> 1" using old_weight_bounds [of "t - ts_last_update ts"] assms(3) by (simp_all add: a_def)
  have cn: "\<not> c * a < 0" "\<not> c * a + (1 - a) < 0" if "\<not> c < (0 :: real)" for c
    using that a0 mult_nonneg_nonneg [of c a] by linarith+
  show ?thesis
    using assms cn a0
    unfolding update_fracs_def Let_def
    by (simp add: ab update_active_def update_connected_def Let_def stats_view_def flip: a_def b_def) (simp add: algebra_simps)
qed

text \<open>Times of polls, each more than ten seconds after the one before.\<close>

fun spaced :: "real \<Rightarrow> real list \<Rightarrow> bool" where
  "spaced t [] = True"
| "spaced t (u # us) = (t + 10 < u \<and> spaced u us)"

lemma update_view:
  "stats_view ts = stats_view ts' \<Longrightarrow>
     stats_view (update_fracs conn net_suspend reason t ts) = stats_view (update_fracs conn net_suspend reason t ts')"
  by (cases ts; cases ts') (simp add: stats_view_def update_fracs_def Let_def update_active_def update_connected_def)

lemma update_after:
  assumes "0 < ts_last_update ts" "ts_last_update ts + 10 < t" "\<not> ts_first ts"
  shows "ts_last_update (update_fracs conn net_suspend reason t ts) = t" "\<not> ts_first (update_fracs conn net_suspend reason t ts)"
  using assms by (auto simp: update_fracs_def Let_def update_active_def update_connected_def)

lemma spaced_last: "spaced t us \<Longrightarrow> us \<noteq> [] \<Longrightarrow> t + 10 < last us"
  by (induction us arbitrary: t) force+

text \<open>C39: While the client keeps running in one mode, the fractions do not depend on how often they are
  updated: updates at any times more than ten seconds apart leave the same on, connected and active
  fractions and the same time of the last update as one update at the last of these times.
\<close>

theorem update_rate_irrelevant:
  assumes "\<not> ts_first ts" "0 < ts_last_update ts" "spaced (ts_last_update ts) us" "us \<noteq> []"
  shows "stats_view (fold (update_fracs conn net_suspend reason) us ts)
    = stats_view (update_fracs conn net_suspend reason (last us) ts)"
  using assms
proof (induction us arbitrary: ts)
  case (Cons t us)
  show ?case
  proof (cases "us = []")
    case False
    have gap: "ts_last_update ts + 10 < t" using Cons.prems(3) by simp
    note after = update_after [OF Cons.prems(2) gap Cons.prems(1), of conn net_suspend reason]
    have "t + 10 < last us" using Cons.prems(3) spaced_last False by simp
    then show ?thesis
      using Cons.IH [of "update_fracs conn net_suspend reason t ts"] after False Cons.prems gap
        update_twice [OF Cons.prems(1,2) gap] by simp
  qed simp
qed simp

theorem update_rate_irrelevant_witness:
  "stats_view (fold (update_fracs 1 0 0) [20, 40, 60] (TIME_STATS_init\<lparr>ts_first := False, ts_last_update := 1\<rparr>))
    = stats_view (update_fracs 1 0 0 60 (TIME_STATS_init\<lparr>ts_first := False, ts_last_update := 1\<rparr>))"
  using update_rate_irrelevant [of "TIME_STATS_init\<lparr>ts_first := False, ts_last_update := 1\<rparr>" "[20, 40, 60]" 1 0 0] by simp

section \<open>A restart\<close>

lemma TIME_STATS_body_plain: "TIME_STATS_body t = plain_body (time_stats_fields t) ''time_stats''"
  by (intro ext) (simp add: TIME_STATS_body_def plain_body_def)

lemma NET_STATS_body_plain: "NET_STATS_body = plain_body net_stats_fields ''net_stats''"
  by (intro ext) (simp add: NET_STATS_body_def plain_body_def)

interpretation time_file: line_parser "TIME_STATS_body t" "time_stats_fields t" "''time_stats''" "\<lambda>x. x" for t
  unfolding TIME_STATS_body_plain by (rule plain_parser) (simp_all add: time_stats_fields_def plain_name_def newline_char)

interpretation net_file: line_parser NET_STATS_body net_stats_fields "''net_stats''" "\<lambda>x. x"
  unfolding NET_STATS_body_plain by (rule plain_parser) (simp_all add: net_stats_fields_def plain_name_def newline_char)

definition time_items :: "TIME_STATS \<Rightarrow> item list" where
  "time_items ts = [Real_I ''on_frac'' (ts_on_frac ts), Real_I ''connected_frac'' (ts_connected_frac ts),
     Real_I ''active_frac'' (ts_active_frac ts), Real_I ''cpu_efficiency'' (ts_cpu_efficiency ts),
     Real_I ''last_update'' (ts_last_update ts)]"

lemma TIME_STATS_write_items:
  "TIME_STATS_write False ts = tag_line ''time_stats'' @ concat (map item_line (time_items ts)) @ end_line ''time_stats''"
  by (simp add: TIME_STATS_write_def time_items_def)

text \<open>C3: Reading the statistics that were written when the client stopped gives back the on fraction, the
  connected fraction and the time of the last update, to six decimals. The active fraction does not survive:
  the CPU efficiency is read into its place, and the CPU efficiency itself starts again from 1.
\<close>

theorem restart_swaps_efficiency:
  assumes "0 < fixed_value 6 (ts_on_frac ts)" "fixed_value 6 (ts_on_frac ts) \<le> 1"
    and "0 < fixed_value 6 (ts_active_frac ts)" "fixed_value 6 (ts_active_frac ts) \<le> 1"
    and "fixed_value 6 (ts_connected_frac ts) \<le> 1"
    and "0 \<le> fixed_value 6 (ts_cpu_efficiency ts)" "fixed_value 6 (ts_cpu_efficiency ts) \<le> 1"
    and "0 \<le> fixed_value 6 (ts_last_update ts)" "fixed_value 6 (ts_last_update ts) \<le> t"
    and "list_all printable [ts_on_frac ts, ts_connected_frac ts, ts_active_frac ts, ts_cpu_efficiency ts, ts_last_update ts]"
  shows "TIME_STATS_parse t (behind_tag ''time_stats'' (TIME_STATS_write False ts) @ rest) (TIME_STATS_init, False)
    = (0, (TIME_STATS_init\<lparr>ts_on_frac := fixed_value 6 (ts_on_frac ts), ts_connected_frac := fixed_value 6 (ts_connected_frac ts),
             ts_active_frac := fixed_value 6 (ts_cpu_efficiency ts), ts_last_update := fixed_value 6 (ts_last_update ts)\<rparr>, False), rest)"
proof -
  have inp: "behind_tag ''time_stats'' (TIME_STATS_write False ts) = concat (map item_line (time_items ts)) @ end_line ''time_stats''"
    unfolding TIME_STATS_write_items by (rule behind_tag_line)
  have ok: "list_all (item_ok (time_stats_fields t)) (time_items ts)"
    using assms(10) by (simp add: item_ok_def item_field_def time_items_def time_stats_fields_def fits_real del: item_fits.simps)
  have "fold (item_apply (time_stats_fields t)) (time_items ts) TIME_STATS_init
      = TIME_STATS_init\<lparr>ts_on_frac := fixed_value 6 (ts_on_frac ts), ts_connected_frac := fixed_value 6 (ts_connected_frac ts),
          ts_active_frac := fixed_value 6 (ts_cpu_efficiency ts), ts_last_update := fixed_value 6 (ts_last_update ts)\<rparr>"
    using assms(1-9) by (simp add: item_apply_def item_field_def time_items_def time_stats_fields_def)
  then show ?thesis
    using time_file.element_read [OF ok, of rest TIME_STATS_init] unfolding TIME_STATS_parse_def inp by simp
qed

definition stopped_stats :: TIME_STATS where
  "stopped_stats = TIME_STATS_init\<lparr>ts_cpu_efficiency := 1/2, ts_last_update := 100\<rparr>"

lemma sample_numbers:
  "fixed_value 6 1 = 1" "fixed_value 6 (1/2) = 1/2" "fixed_value 6 100 = 100"
  using fixed_value_exact [of 1 6 "10 ^ 6"] fixed_value_exact [of "1/2" 6 500000] fixed_value_exact [of 100 6 "10 ^ 8"] by simp_all

lemma sample_printable: "printable 1" "printable (1/2)" "printable 100"
  by (simp_all add: printable_def)

theorem restart_swaps_efficiency_witness:
  "TIME_STATS_parse 200 (behind_tag ''time_stats'' (TIME_STATS_write False stopped_stats) @ []) (TIME_STATS_init, False)
    = (0, (TIME_STATS_init\<lparr>ts_on_frac := 1, ts_connected_frac := 1, ts_active_frac := 1/2, ts_last_update := 100\<rparr>, False), [])"
proof -
  have v: "ts_on_frac stopped_stats = 1" "ts_connected_frac stopped_stats = 1" "ts_active_frac stopped_stats = 1"
    "ts_cpu_efficiency stopped_stats = 1/2" "ts_last_update stopped_stats = 100"
    by (simp_all add: stopped_stats_def TIME_STATS_init_def)
  show ?thesis
    using restart_swaps_efficiency [of stopped_stats 200 "[]"]
    unfolding v sample_numbers using sample_printable by simp
qed

section \<open>Network speeds\<close>

text \<open>A transfer of at least one byte moves the estimated speed towards the one it had.\<close>

lemma NET_INFO_update_between:
  assumes "1 \<le> nbytes" "0 < dt" "0 < ni_max_rate ni"
  shows "min (ni_max_rate ni) (nbytes / dt) \<le> ni_max_rate (NET_INFO_update gnow t nbytes dt ni)"
    "ni_max_rate (NET_INFO_update gnow t nbytes dt ni) \<le> max (ni_max_rate ni) (nbytes / dt)"
proof -
  define w where "w = min 1 (ln nbytes / 500)"
  define m r where "m = ni_max_rate ni" and "r = nbytes / dt"
  have w: "0 \<le> w" "w \<le> 1" using assms(1) by (simp_all add: w_def)
  have eq: "ni_max_rate (NET_INFO_update gnow t nbytes dt ni) = w * r + (1 - w) * m"
    using assms by (simp add: NET_INFO_update_def Let_def w_def m_def r_def split: prod.split)
  have "w * min m r + (1 - w) * min m r \<le> w * r + (1 - w) * m" "w * r + (1 - w) * m \<le> w * max m r + (1 - w) * max m r"
    using w by (intro add_mono mult_left_mono; simp)+
  then show "min (ni_max_rate ni) (nbytes / dt) \<le> ni_max_rate (NET_INFO_update gnow t nbytes dt ni)"
    "ni_max_rate (NET_INFO_update gnow t nbytes dt ni) \<le> max (ni_max_rate ni) (nbytes / dt)"
    unfolding eq m_def [symmetric] r_def [symmetric] by (simp_all add: algebra_simps)
qed

section \<open>Asking for a connection\<close>

text \<open>
  What happens to the state of the network: HTTP operations end, the reference site is contacted, the
  operation that does so ends, and the Manager reports a connection or asks for the status.
\<close>

inductive net_reach :: "CLIENT_STATE \<Rightarrow> CLIENT_STATE \<Rightarrow> bool" for s0 where
  net_start: "net_reach s0 s0"
| net_http: "net_reach s0 s \<Longrightarrow> net_reach s0 (snd (http_op_result curl response s))"
| net_poll: "net_reach s0 s \<Longrightarrow> http \<noteq> ERR_IN_PROGRESS \<Longrightarrow> net_reach s0 (net_status_poll http s)"
| net_reply: "net_reach s0 s \<Longrightarrow> lookup_website_error s = ERR_IN_PROGRESS \<Longrightarrow> http \<noteq> ERR_IN_PROGRESS \<Longrightarrow>
    net_reach s0 (snd (snd (gui_http_poll lookup_website_handle_reply http_state http last_time s)))"
| net_available: "net_reach s0 s \<Longrightarrow> net_reach s0 (network_available s)"
| net_asked: "net_reach s0 s \<Longrightarrow> net_reach s0 (snd (network_status nops s))"
| net_time: "net_reach s0 s \<Longrightarrow> net_reach s0 (s\<lparr>now := t\<rparr>)"

definition net_ok :: "CLIENT_STATE \<Rightarrow> bool" where
  "net_ok s = ((ns_need_physical_connection (net_status s) \<longrightarrow>
        lookup_website_error s \<notin> {0, ERR_IN_PROGRESS} \<and> \<not> ns_need_to_contact_reference_site (net_status s))
     \<and> (lookup_website_error s = ERR_IN_PROGRESS \<longrightarrow> gui_http_busy s \<and> \<not> ns_need_to_contact_reference_site (net_status s)))"

lemmas net_defs = net_ok_def upd_net_def no_reference_site_def got_http_error_def Let_def

lemma http_op_result_ok: "net_ok s \<Longrightarrow> net_ok (snd (http_op_result curl response s))"
  by (cases curl) (auto simp: http_op_result_def net_defs)

lemma net_status_poll_ok: "net_ok s \<Longrightarrow> http \<noteq> ERR_IN_PROGRESS \<Longrightarrow> net_ok (net_status_poll http s)"
  by (auto simp: net_status_poll_def contact_reference_site_def lookup_website_do_rpc_def gui_http_do_rpc_def net_defs)

lemma gui_http_poll_ok:
  assumes "net_ok s" "lookup_website_error s = ERR_IN_PROGRESS" "http \<noteq> ERR_IN_PROGRESS"
  shows "net_ok (snd (snd (gui_http_poll lookup_website_handle_reply http_state http last_time s)))"
  using assms by (auto simp: gui_http_poll_def lookup_website_handle_reply_def net_defs)

lemma network_status_ok: "net_ok s \<Longrightarrow> net_ok (snd (network_status nops s))"
  by (auto simp: network_status_def net_defs)

definition net_view :: "CLIENT_STATE \<Rightarrow> NET_STATUS \<times> int \<times> bool" where
  "net_view s = ((net_status s)\<lparr>ns_have_sporadic_connection := False, ns_last_comm_time := 0\<rparr>, lookup_website_error s, gui_http_busy s)"

lemma net_view_ok:
  assumes "net_view s = net_view s'"
  shows "net_ok s = net_ok s'"
proof -
  have "lookup_website_error s = lookup_website_error s'" "gui_http_busy s = gui_http_busy s'"
    "ns_need_physical_connection (net_status s) = ns_need_physical_connection (net_status s')"
    "ns_need_to_contact_reference_site (net_status s) = ns_need_to_contact_reference_site (net_status s')"
    using assms by (cases "net_status s"; cases "net_status s'"; simp add: net_view_def)+
  then show ?thesis by (simp add: net_ok_def)
qed

lemma network_available_view: "net_view (network_available s) = net_view s"
proof -
  have f: "net_view (fold g xs s) = net_view s" if "\<And>x s. net_view (g x s) = net_view s" for g :: "nat \<Rightarrow> CLIENT_STATE \<Rightarrow> CLIENT_STATE" and xs s
    using that by (induction xs arbitrary: s) auto
  have p: "net_view (upd_pxfer x g s) = net_view s" "net_view (upd_proj p h s) = net_view s" for x g p h s
    by (simp_all add: net_view_def upd_proj_def upd_pxfer_def)
  have t: "net_view (send_network_available a s) = net_view s" for a s
    by (simp add: net_view_def send_network_available_def send_control_def upd_task_def)
  have n: "net_view (upd_net (\<lambda>x. x\<lparr>ns_have_sporadic_connection := True\<rparr>) s) = net_view s"
    by (simp add: net_view_def upd_net_def)
  have "net_view (fold (\<lambda>a s. if at_want_network (task s a) then send_network_available a s else s) xs s) = net_view s" for xs s
    by (rule f) (simp add: t)
  then show ?thesis
    unfolding network_available_def tasks_network_available_def Let_def
    by (simp only: n p f)
qed


definition offline_state :: CLIENT_STATE where
  "offline_state = net_status_poll ERR_CONNECT (snd (http_op_result CURLE_COULDNT_CONNECT 0 (sample_state\<lparr>now := 1000\<rparr>)))"


end
