(* ===== verification/State_Text.thy ===== *)
theory State_Text
  imports Element_Text State_Links File_Transfer App_Task
begin

text \<open>
  The objects of the client in the text of the state file: the \<open>parse\<close> and \<open>write\<close> methods of the classes of
  \<open>client/client_types.C\<close>, of \<open>ACTIVE_TASK\<close> (\<open>client/app.C\<close>) and of \<open>PERS_FILE_XFER\<close> (\<open>client/pers_file_xfer.C\<close>).

  A parser starts behind the opening tag and returns an error code, the object and the rest of the
  file; with the object goes whether \<open>errno\<close> is \<open>ERANGE\<close>. Lines that nothing recognises are skipped. The
  pointers of an object are set when it is linked and keep their values here.
\<close>

section \<open>FILE_REF\<close>

definition file_ref_fields :: "FILE_REF line_field list" where
  "file_ref_fields =
     [Str_F ''file_name'' 256 (\<lambda>v x. x\<lparr>fr_file_name := v\<rparr>), Str_F ''open_name'' 256 (\<lambda>v x. x\<lparr>fr_open_name := v\<rparr>),
      Bool_F ''main_program'' (\<lambda>v x. x\<lparr>fr_main_program := v\<rparr>), Bool_F ''copy_file'' (\<lambda>v x. x\<lparr>fr_copy_file := v\<rparr>),
      Bool_F ''optional'' (\<lambda>v x. x\<lparr>fr_optional := v\<rparr>), Bool_F ''no_validate'' (\<lambda>v x. x)]"

definition FILE_REF_body :: "string \<Rightarrow> string \<Rightarrow> FILE_REF parsed \<Rightarrow> FILE_REF parsed step" where
  "FILE_REF_body buf rest x =
     (if match_tag buf ''</file_ref>'' then Return 0 x rest else or_else file_ref_fields buf rest x (skip_line rest))"

definition FILE_REF_clear :: "FILE_REF \<Rightarrow> FILE_REF" where
  "FILE_REF_clear x = x\<lparr>fr_file_name := [], fr_open_name := [], fr_main_program := False, fr_copy_file := False, fr_optional := False\<rparr>"

definition FILE_REF_parse :: "string \<Rightarrow> FILE_REF parsed \<Rightarrow> int \<times> FILE_REF parsed \<times> string" where
  "FILE_REF_parse inp x = line_loop 256 FILE_REF_body inp (FILE_REF_clear (fst x), snd x)"

definition FILE_REF_write :: "FILE_REF \<Rightarrow> string" where
  "FILE_REF_write x = tag_line ''file_ref'' @ write_tag ''file_name'' (fr_file_name x)
     @ (if fr_open_name x \<noteq> [] then write_tag ''open_name'' (fr_open_name x) else [])
     @ put_flag ''main_program'' (fr_main_program x) @ put_flag ''copy_file'' (fr_copy_file x)
     @ put_flag ''optional'' (fr_optional x) @ end_line ''file_ref''"

text \<open>
  A reference inside another object is parsed into a variable of the surrounding function; the value
  of its pointer \<open>file_info\<close> is never initialized, here \<open>junk\<close>. Its return value is ignored.
\<close>

definition blank_ref :: "fid \<Rightarrow> FILE_REF" where
  "blank_ref junk = \<lparr>fr_file_name = [], fr_open_name = [], fr_main_program = False, fr_file_info = junk,
     fr_copy_file = False, fr_optional = False\<rparr>"

definition add_file_ref :: "fid \<Rightarrow> (FILE_REF \<Rightarrow> 'a \<Rightarrow> 'a) \<Rightarrow> string \<Rightarrow> 'a parsed \<Rightarrow> 'a parsed step" where
  "add_file_ref junk push rest x =
     (case FILE_REF_parse rest (blank_ref junk, snd x) of (_, (fr, e), rest1) \<Rightarrow> Continue (push fr (fst x), e) rest1)"

section \<open>APP\<close>

definition app_fields :: "APP line_field list" where
  "app_fields = [Str_F ''name'' 256 (\<lambda>v x. x\<lparr>app_name := v\<rparr>), Str_F ''user_friendly_name'' 256 (\<lambda>v x. x\<lparr>app_user_friendly_name := v\<rparr>)]"

definition APP_body :: "string \<Rightarrow> string \<Rightarrow> APP parsed \<Rightarrow> APP parsed step" where
  "APP_body buf rest x =
     (if match_tag buf ''</app>''
      then Return 0 (if app_user_friendly_name (fst x) = []
                     then (fst x\<lparr>app_user_friendly_name := app_name (fst x)\<rparr>, snd x) else x) rest
      else or_else app_fields buf rest x (skip_line rest))"

definition APP_parse :: "string \<Rightarrow> APP parsed \<Rightarrow> int \<times> APP parsed \<times> string" where
  "APP_parse inp x = line_loop 256 APP_body inp (fst x\<lparr>app_name := [], app_user_friendly_name := []\<rparr>, snd x)"

definition APP_write :: "APP \<Rightarrow> string" where
  "APP_write x = tag_line ''app'' @ write_tag ''name'' (app_name x)
     @ write_tag ''user_friendly_name'' (app_user_friendly_name x) @ end_line ''app''"

section \<open>APP_VERSION\<close>

definition app_version_fields :: "APP_VERSION line_field list" where
  "app_version_fields =
     [Int_F ''version_num'' (\<lambda>v x. x\<lparr>av_version_num := v\<rparr>), Str_F ''api_version'' 16 (\<lambda>v x. x\<lparr>av_api_version := v\<rparr>),
      Str_F ''platform'' 256 (\<lambda>v x. x\<lparr>av_platform := v\<rparr>), Str_F ''plan_class'' 64 (\<lambda>v x. x\<lparr>av_plan_class := v\<rparr>),
      Dbl_F ''avg_ncpus'' (\<lambda>v x. x\<lparr>av_avg_ncpus := v\<rparr>), Dbl_F ''max_ncpus'' (\<lambda>v x. x\<lparr>av_max_ncpus := v\<rparr>),
      Dbl_F ''flops'' (\<lambda>v x. x\<lparr>av_flops := v\<rparr>),
      Dbl_F ''duration_correction_factor'' (\<lambda>v x. x\<lparr>av_duration_correction_factor := v\<rparr>),
      Str_F ''cmdline'' 256 (\<lambda>v x. x\<lparr>av_cmdline := v\<rparr>)]"

definition APP_VERSION_body :: "fid \<Rightarrow> string \<Rightarrow> string \<Rightarrow> APP_VERSION parsed \<Rightarrow> APP_VERSION parsed step" where
  "APP_VERSION_body junk buf rest x =
     (if match_tag buf ''</app_version>'' then Return 0 x rest
      else or_else [Str_F ''app_name'' 256 (\<lambda>v x. x\<lparr>av_app_name := v\<rparr>)] buf rest x (\<lambda>x.
        if match_tag buf ''<file_ref>''
        then add_file_ref junk (\<lambda>fr x. x\<lparr>av_app_files := av_app_files x @ [fr]\<rparr>) rest x
        else or_else app_version_fields buf rest x (skip_line rest)))"

definition APP_VERSION_parse :: "fid \<Rightarrow> real \<Rightarrow> string \<Rightarrow> APP_VERSION parsed \<Rightarrow> int \<times> APP_VERSION parsed \<times> string" where
  "APP_VERSION_parse junk p_fpops inp x = line_loop 256 (APP_VERSION_body junk) inp
     (fst x\<lparr>av_app_name := [], av_api_version := [], av_version_num := 0, av_platform := [], av_plan_class := [],
            av_cmdline := [], av_avg_ncpus := 1, av_max_ncpus := 1, av_flops := p_fpops\<rparr>, snd x)"

definition APP_VERSION_write :: "APP_VERSION \<Rightarrow> string" where
  "APP_VERSION_write x = tag_line ''app_version'' @ write_tag ''app_name'' (av_app_name x)
     @ put_int ''version_num'' (av_version_num x) @ write_tag ''platform'' (av_platform x)
     @ put_dbl ''avg_ncpus'' (av_avg_ncpus x) @ put_dbl ''max_ncpus'' (av_max_ncpus x) @ put_dbl ''flops'' (av_flops x)
     @ put_dbl ''duration_correction_factor'' (av_duration_correction_factor x)
     @ (if av_plan_class x \<noteq> [] then write_tag ''plan_class'' (av_plan_class x) else [])
     @ (if av_api_version x \<noteq> [] then write_tag ''api_version'' (av_api_version x) else [])
     @ (if av_cmdline x \<noteq> [] then write_tag ''cmdline'' (av_cmdline x) else [])
     @ concat (map FILE_REF_write (av_app_files x)) @ end_line ''app_version''"

section \<open>WORKUNIT\<close>

definition workunit_fields1 :: "WORKUNIT line_field list" where
  "workunit_fields1 =
     [Str_F ''name'' 256 (\<lambda>v x. x\<lparr>wu_name := v\<rparr>), Str_F ''app_name'' 256 (\<lambda>v x. x\<lparr>wu_app_name := v\<rparr>),
      Int_F ''version_num'' (\<lambda>v x. x\<lparr>wu_version_num := v\<rparr>)]"

definition workunit_fields2 :: "WORKUNIT line_field list" where
  "workunit_fields2 =
     [Dbl_F ''rsc_fpops_est'' (\<lambda>v x. x\<lparr>wu_rsc_fpops_est := v\<rparr>), Dbl_F ''rsc_fpops_bound'' (\<lambda>v x. x\<lparr>wu_rsc_fpops_bound := v\<rparr>),
      Dbl_F ''rsc_memory_bound'' (\<lambda>v x. x\<lparr>wu_rsc_memory_bound := v\<rparr>), Dbl_F ''rsc_disk_bound'' (\<lambda>v x. x\<lparr>wu_rsc_disk_bound := v\<rparr>)]"

text \<open>The command line on its own lines, up to its closing tag; the first line is appended to what is there.\<close>

definition command_body :: "string \<Rightarrow> string \<Rightarrow> string \<Rightarrow> string step" where
  "command_body buf rest x = (if match_tag buf ''</command_line'' then Return 0 x rest else Continue (x @ buf) rest)"

definition parse_command_line :: "string \<Rightarrow> string \<Rightarrow> WORKUNIT parsed \<Rightarrow> WORKUNIT parsed step" where
  "parse_command_line buf rest x =
     (if match_tag buf ''</command_line>''
      then let v = (case parse_str buf ''<command_line>'' 1024 of Some (Some v) \<Rightarrow> v | _ \<Rightarrow> wu_command_line (fst x))
           in Continue (fst x\<lparr>wu_command_line := strip_whitespace v\<rparr>, snd x) rest
      else case line_loop 4096 command_body rest (wu_command_line (fst x)) of (retval, v, rest1) \<Rightarrow>
        if retval \<noteq> 0 then Return ERR_XML_PARSE (fst x\<lparr>wu_command_line := v\<rparr>, snd x) rest1
        else Continue (fst x\<lparr>wu_command_line := strip_whitespace v\<rparr>, snd x) rest1)"

definition WORKUNIT_body :: "fid \<Rightarrow> string \<Rightarrow> string \<Rightarrow> WORKUNIT parsed \<Rightarrow> WORKUNIT parsed step" where
  "WORKUNIT_body junk buf rest x =
     (if match_tag buf ''</workunit>'' then Return 0 x rest
      else or_else workunit_fields1 buf rest x (\<lambda>x.
        if match_tag buf ''<command_line>'' then parse_command_line buf rest x
        else or_else workunit_fields2 buf rest x (\<lambda>x.
          if match_tag buf ''<file_ref>''
          then add_file_ref junk (\<lambda>fr x. x\<lparr>wu_input_files := wu_input_files x @ [fr]\<rparr>) rest x
          else or_else [Dbl_F ''credit'' (\<lambda>v x. x)] buf rest x (skip_line rest))))"

definition WORKUNIT_parse :: "fid \<Rightarrow> string \<Rightarrow> WORKUNIT parsed \<Rightarrow> int \<times> WORKUNIT parsed \<times> string" where
  "WORKUNIT_parse junk inp x = line_loop 4096 (WORKUNIT_body junk) inp
     (fst x\<lparr>wu_name := [], wu_app_name := [], wu_version_num := 0, wu_command_line := [],
            wu_rsc_fpops_est := 10 ^ 9 * SECONDS_PER_DAY * 7, wu_rsc_fpops_bound := 4 * 10 ^ 9 * SECONDS_PER_DAY * 7,
            wu_rsc_memory_bound := 10 ^ 8, wu_rsc_disk_bound := 10 ^ 9\<rparr>, snd x)"

definition WORKUNIT_write :: "WORKUNIT \<Rightarrow> string" where
  "WORKUNIT_write x = tag_line ''workunit'' @ write_tag ''name'' (wu_name x) @ write_tag ''app_name'' (wu_app_name x)
     @ put_int ''version_num'' (wu_version_num x) @ put_dbl ''rsc_fpops_est'' (wu_rsc_fpops_est x)
     @ put_dbl ''rsc_fpops_bound'' (wu_rsc_fpops_bound x) @ put_dbl ''rsc_memory_bound'' (wu_rsc_memory_bound x)
     @ put_dbl ''rsc_disk_bound'' (wu_rsc_disk_bound x)
     @ (if wu_command_line x \<noteq> [] then tag_line ''command_line'' @ wu_command_line x @ NL @ end_line ''command_line'' else [])
     @ concat (map FILE_REF_write (wu_input_files x)) @ end_line ''workunit''"

section \<open>PERS_FILE_XFER\<close>

definition pers_file_xfer_fields :: "PERS_FILE_XFER line_field list" where
  "pers_file_xfer_fields =
     [Int_F ''num_retries'' (\<lambda>v x. x\<lparr>pfx_nretry := v\<rparr>), Dbl_F ''first_request_time'' (\<lambda>v x. x\<lparr>pfx_first_request_time := v\<rparr>),
      Dbl_F ''next_request_time'' (\<lambda>v x. x\<lparr>pfx_next_request_time := v\<rparr>), Dbl_F ''time_so_far'' (\<lambda>v x. x\<lparr>pfx_time_so_far := v\<rparr>),
      Dbl_F ''last_bytes_xferred'' (\<lambda>v x. x\<lparr>pfx_last_bytes_xferred := v\<rparr>)]"

definition PERS_FILE_XFER_body :: "string \<Rightarrow> string \<Rightarrow> PERS_FILE_XFER parsed \<Rightarrow> PERS_FILE_XFER parsed step" where
  "PERS_FILE_XFER_body buf rest x =
     (if match_tag buf ''</persistent_file_xfer>'' then Return 0 x rest
      else or_else pers_file_xfer_fields buf rest x (skip_line rest))"

definition PERS_FILE_XFER_parse :: "string \<Rightarrow> PERS_FILE_XFER parsed \<Rightarrow> int \<times> PERS_FILE_XFER parsed \<times> string" where
  "PERS_FILE_XFER_parse inp x = line_loop 256 PERS_FILE_XFER_body inp x"

text \<open>\<open>speed\<close> and \<open>url\<close> are the fields \<open>xfer_speed\<close> and \<open>m_url\<close> of the transfer in progress.\<close>

definition write_escaped_xml :: "string \<Rightarrow> string" where
  "write_escaped_xml str = concat (map xml_escape_char str)"

definition PERS_FILE_XFER_write :: "(fxid \<Rightarrow> FILE_XFER) \<Rightarrow> (fxid \<Rightarrow> real) \<Rightarrow> (fxid \<Rightarrow> string) \<Rightarrow> PERS_FILE_XFER \<Rightarrow> string" where
  "PERS_FILE_XFER_write fxfers speed url x = tag_line ''persistent_file_xfer'' @ put_int ''num_retries'' (pfx_nretry x)
     @ put_dbl ''first_request_time'' (pfx_first_request_time x) @ put_dbl ''next_request_time'' (pfx_next_request_time x)
     @ put_dbl ''time_so_far'' (pfx_time_so_far x) @ put_dbl ''last_bytes_xferred'' (pfx_last_bytes_xferred x)
     @ end_line ''persistent_file_xfer''
     @ (case pfx_fxp x of
          None \<Rightarrow> []
        | Some fx \<Rightarrow> tag_line ''file_xfer'' @ put_dbl ''bytes_xferred'' (fx_bytes_xferred (fxfers fx))
            @ put_dbl ''file_offset'' (fx_file_offset (fxfers fx)) @ put_dbl ''xfer_speed'' (speed fx)
            @ write_tag ''url'' (write_escaped_xml (url fx)) @ end_line ''file_xfer'')"

section \<open>FILE_INFO\<close>

text \<open>
  With a file goes the persistent transfer that is made for it. \<open>t\<close> is the time, \<open>m\<close> the memory that
  the constructor of the transfer finds.
\<close>

type_synonym file_parse = "FILE_INFO \<times> PERS_FILE_XFER option"

abbreviation ERR_BAD_FILENAME :: int where "ERR_BAD_FILENAME \<equiv> -225"

definition file_info_fields :: "file_parse line_field list" where
  "file_info_fields =
     [Str_F ''name'' 1024 (\<lambda>v. apfst (\<lambda>x. x\<lparr>fi_name := v\<rparr>)), Str_F ''url'' 1024 (\<lambda>v. apfst (\<lambda>x. x\<lparr>fi_urls := fi_urls x @ [v]\<rparr>)),
      Str_F ''md5_cksum'' 33 (\<lambda>v. apfst (\<lambda>x. x\<lparr>fi_md5_cksum := v\<rparr>)), Dbl_F ''nbytes'' (\<lambda>v. apfst (\<lambda>x. x\<lparr>fi_nbytes := v\<rparr>)),
      Dbl_F ''max_nbytes'' (\<lambda>v. apfst (\<lambda>x. x\<lparr>fi_max_nbytes := v\<rparr>)), Bool_F ''generated_locally'' (\<lambda>v. apfst (\<lambda>x. x\<lparr>fi_generated_locally := v\<rparr>)),
      Int_F ''status'' (\<lambda>v. apfst (\<lambda>x. x\<lparr>fi_status := v\<rparr>)), Bool_F ''executable'' (\<lambda>v. apfst (\<lambda>x. x\<lparr>fi_executable := v\<rparr>)),
      Bool_F ''uploaded'' (\<lambda>v. apfst (\<lambda>x. x\<lparr>fi_uploaded := v\<rparr>)),
      Bool_F ''upload_when_present'' (\<lambda>v. apfst (\<lambda>x. x\<lparr>fi_upload_when_present := v\<rparr>)),
      Bool_F ''sticky'' (\<lambda>v. apfst (\<lambda>x. x\<lparr>fi_sticky := v\<rparr>)), Bool_F ''marked_for_delete'' (\<lambda>v. apfst (\<lambda>x. x\<lparr>fi_marked_for_delete := v\<rparr>)),
      Bool_F ''report_on_rpc'' (\<lambda>v. apfst (\<lambda>x. x\<lparr>fi_report_on_rpc := v\<rparr>)),
      Bool_F ''gzip_when_done'' (\<lambda>v. apfst (\<lambda>x. x\<lparr>fi_gzip_when_done := v\<rparr>)),
      Bool_F ''signature_required'' (\<lambda>v. apfst (\<lambda>x. x\<lparr>fi_signature_required := v\<rparr>)),
      Bool_F ''is_project_file'' (\<lambda>v. apfst (\<lambda>x. x\<lparr>fi_is_project_file := v\<rparr>))]"

definition file_name_ok :: "string \<Rightarrow> bool" where
  "file_name_ok name = (name \<noteq> [] \<and> strstr_from ''..'' name = None \<and> strstr_from ''%'' name = None)"

text \<open>An element that is copied; the object keeps what was copied before an error.\<close>

definition copy_into :: "string \<Rightarrow> (string \<Rightarrow> 'a \<Rightarrow> 'a) \<Rightarrow> string \<Rightarrow> 'a parsed \<Rightarrow> 'a parsed step" where
  "copy_into end_tag upd rest x =
     (case copy_element_contents end_tag rest of (retval, v, rest1) \<Rightarrow>
        if retval \<noteq> 0 then Return retval (upd v (fst x), snd x) rest1 else Continue (upd v (fst x), snd x) rest1)"

definition parse_file_signature :: "bool \<Rightarrow> string \<Rightarrow> file_parse parsed \<Rightarrow> file_parse parsed step" where
  "parse_file_signature from_server rest x =
     (case copy_into ''</file_signature>'' (\<lambda>v. apfst (\<lambda>x. x\<lparr>fi_file_signature := v\<rparr>)) rest x of
        Continue y rest1 \<Rightarrow>
          Continue (if from_server
                    then (apfst (\<lambda>x. x\<lparr>fi_signed_xml := fi_signed_xml x @ tag_line ''file_signature'' @ fi_file_signature x
                                         @ end_line ''file_signature''\<rparr>) (fst y), snd y) else y) rest1
      | r \<Rightarrow> r)"

definition parse_pers_xfer :: "real \<Rightarrow> PERS_FILE_XFER \<Rightarrow> string \<Rightarrow> file_parse parsed \<Rightarrow> file_parse parsed step" where
  "parse_pers_xfer t m rest x =
     (case PERS_FILE_XFER_parse rest (PERS_FILE_XFER_new t m, snd x) of (retval, (pfx, e), rest1) \<Rightarrow>
        Continue (if retval = 0 then apsnd (\<lambda>_. Some pfx) (fst x) else fst x, e) rest1)"

definition skip_body :: "string \<Rightarrow> string \<Rightarrow> string \<Rightarrow> unit \<Rightarrow> unit step" where
  "skip_body end_tag buf rest x = (if match_tag buf end_tag then Return 0 x rest else Continue x rest)"

definition parse_error_msg :: "string \<Rightarrow> file_parse parsed \<Rightarrow> file_parse parsed step" where
  "parse_error_msg rest x =
     (case copy_element_contents_buf ''</error_msg>'' 1024 rest of (retval, v, rest1) \<Rightarrow>
        if retval \<noteq> 0 then Return retval x rest1
        else Continue (apfst (\<lambda>x. x\<lparr>fi_error_msg := v\<rparr>) (fst x), snd x) rest1)"

definition FILE_INFO_body :: "bool \<Rightarrow> real \<Rightarrow> PERS_FILE_XFER \<Rightarrow> string \<Rightarrow> string \<Rightarrow> file_parse parsed \<Rightarrow> file_parse parsed step" where
  "FILE_INFO_body from_server t m buf rest x =
     (if match_tag buf ''</file_info>''
      then Return (if file_name_ok (fi_name (fst (fst x))) then 0 else ERR_BAD_FILENAME) x rest
      else if match_tag buf ''<xml_signature>''
      then copy_into ''</xml_signature>'' (\<lambda>v. apfst (\<lambda>x. x\<lparr>fi_xml_signature := v\<rparr>)) rest x
      else if match_tag buf ''<file_signature>'' then parse_file_signature from_server rest x
      else let x1 = (apfst (\<lambda>x. x\<lparr>fi_signed_xml := fi_signed_xml x @ buf\<rparr>) (fst x), snd x) in
      or_else file_info_fields buf rest x1 (\<lambda>x.
        if match_tag buf ''<no_delete'' then Continue x rest
        else if match_tag buf ''<persistent_file_xfer>'' then parse_pers_xfer t m rest x
        else if \<not> from_server \<and> match_tag buf ''<signed_xml>''
        then copy_into ''</signed_xml>'' (\<lambda>v. apfst (\<lambda>x. x\<lparr>fi_signed_xml := v\<rparr>)) rest x
        else if match_tag buf ''<file_xfer>''
        then case line_loop 256 (skip_body ''</file_xfer>'') rest () of (retval, u, rest1) \<Rightarrow> Continue x rest1
        else if match_tag buf ''<error_msg>'' then parse_error_msg rest x
        else skip_line rest x))"

definition FILE_INFO_parse :: "bool \<Rightarrow> real \<Rightarrow> PERS_FILE_XFER \<Rightarrow> string \<Rightarrow> file_parse parsed \<Rightarrow> int \<times> file_parse parsed \<times> string" where
  "FILE_INFO_parse from_server t m inp x = line_loop 256 (FILE_INFO_body from_server t m) inp x"

definition file_flags :: "FILE_INFO \<Rightarrow> string" where
  "file_flags x = put_flag ''generated_locally'' (fi_generated_locally x) @ put_flag ''executable'' (fi_executable x)
     @ put_flag ''uploaded'' (fi_uploaded x) @ put_flag ''upload_when_present'' (fi_upload_when_present x)
     @ put_flag ''sticky'' (fi_sticky x) @ put_flag ''marked_for_delete'' (fi_marked_for_delete x)
     @ put_flag ''report_on_rpc'' (fi_report_on_rpc x) @ put_flag ''gzip_when_done'' (fi_gzip_when_done x)
     @ put_flag ''signature_required'' (fi_signature_required x) @ put_flag ''is_user_file'' (fi_is_user_file x)"

text \<open>\<open>pfx\<close> writes the persistent transfer of the file.\<close>

definition FILE_INFO_write :: "(pfxid \<Rightarrow> string) \<Rightarrow> bool \<Rightarrow> FILE_INFO \<Rightarrow> string" where
  "FILE_INFO_write pfx to_server x = tag_line ''file_info'' @ write_tag ''name'' (fi_name x) @ put_dbl ''nbytes'' (fi_nbytes x)
     @ put_dbl ''max_nbytes'' (fi_max_nbytes x)
     @ (if fi_md5_cksum x \<noteq> [] then write_tag ''md5_cksum'' (fi_md5_cksum x) else [])
     @ (if to_server then []
        else put_int ''status'' (fi_status x) @ file_flags x
          @ (if fi_file_signature x \<noteq> [] then tag_line ''file_signature'' @ fi_file_signature x @ end_line ''file_signature'' else []))
     @ concat (map (write_tag ''url'') (fi_urls x))
     @ (if to_server then [] else case fi_pers_file_xfer x of None \<Rightarrow> [] | Some p \<Rightarrow> pfx p)
     @ (if \<not> to_server \<and> fi_signed_xml x \<noteq> [] \<and> fi_xml_signature x \<noteq> []
        then tag_line ''signed_xml'' @ fi_signed_xml x @ end_line ''signed_xml''
          @ tag_line ''xml_signature'' @ fi_xml_signature x @ end_line ''xml_signature'' else [])
     @ (if fi_error_msg x \<noteq> []
        then tag_line ''error_msg'' @ strip_whitespace (fi_error_msg x) @ NL @ end_line ''error_msg'' else [])
     @ end_line ''file_info''"

end
