(* ===== verification/Result_Text.thy ===== *)
theory Result_Text
  imports State_Text
begin

text \<open>
  Results, tasks and projects in the state file (\<open>RESULT\<close> and \<open>PROJECT\<close> of \<open>client/client_types.C\<close>, \<open>ACTIVE_TASK\<close> and
  \<open>ACTIVE_TASK_SET\<close> of \<open>client/app.C\<close>). A result that is written and read again is the same result, and no state
  file can put two tasks into one slot.
\<close>

section \<open>RESULT\<close>

text \<open>The pointers to the application, the workunit and the project are set when the result is linked.\<close>

definition RESULT_clear :: "RESULT \<Rightarrow> RESULT" where
  "RESULT_clear x = x\<lparr>r_name := [], r_wu_name := [], r_completed_time := 0, r_report_deadline := 0, r_output_files := [],
     r_state := RESULT_NEW, r_ready_to_report := False, r_got_server_ack := False, r_final_cpu_time := 0, r_exit_status := 0,
     r_stderr_out := [], r_suspended_via_gui := False, r_rr_sim_misses_deadline := False, r_last_rr_sim_missed_deadline := False,
     r_fpops_per_cpu_sec := 0, r_fpops_cumulative := 0, r_intops_per_cpu_sec := 0, r_intops_cumulative := 0,
     r_edf_scheduled := False, r_version_num := 0, r_platform := [], r_plan_class := []\<rparr>"

definition parse_name_body :: "string \<Rightarrow> string \<Rightarrow> string \<Rightarrow> RESULT parsed \<Rightarrow> RESULT parsed step" where
  "parse_name_body end_tag buf rest x =
     (if match_tag buf end_tag then Return 0 x rest
      else or_else [Str_F ''name'' 256 (\<lambda>v x. x\<lparr>r_name := v\<rparr>)] buf rest x (skip_line rest))"

definition RESULT_parse_name :: "string \<Rightarrow> string \<Rightarrow> RESULT parsed \<Rightarrow> int \<times> RESULT parsed \<times> string" where
  "RESULT_parse_name end_tag inp x = line_loop 256 (parse_name_body end_tag) inp (fst x\<lparr>r_name := []\<rparr>, snd x)"

definition add_output_file :: "FILE_REF \<Rightarrow> RESULT \<Rightarrow> RESULT" where
  "add_output_file fr x = x\<lparr>r_output_files := r_output_files x @ [fr]\<rparr>"

definition result_server_fields :: "RESULT line_field list" where
  "result_server_fields =
     [Str_F ''name'' 256 (\<lambda>v x. x\<lparr>r_name := v\<rparr>), Str_F ''wu_name'' 256 (\<lambda>v x. x\<lparr>r_wu_name := v\<rparr>),
      Dbl_F ''report_deadline'' (\<lambda>v x. x\<lparr>r_report_deadline := v\<rparr>), Str_F ''platform'' 256 (\<lambda>v x. x\<lparr>r_platform := v\<rparr>),
      Str_F ''plan_class'' 64 (\<lambda>v x. x\<lparr>r_plan_class := v\<rparr>), Int_F ''version_num'' (\<lambda>v x. x\<lparr>r_version_num := v\<rparr>)]"

definition RESULT_server_body :: "fid \<Rightarrow> string \<Rightarrow> string \<Rightarrow> RESULT parsed \<Rightarrow> RESULT parsed step" where
  "RESULT_server_body junk buf rest x =
     (if match_tag buf ''</result>'' then Return 0 x rest
      else or_else result_server_fields buf rest x (\<lambda>x.
        if match_tag buf ''<file_ref>'' then add_file_ref junk add_output_file rest x else skip_line rest x))"

definition RESULT_parse_server :: "fid \<Rightarrow> string \<Rightarrow> RESULT parsed \<Rightarrow> int \<times> RESULT parsed \<times> string" where
  "RESULT_parse_server junk inp x = line_loop 256 (RESULT_server_body junk) inp (RESULT_clear (fst x), snd x)"

text \<open>At the end, a result that is reported or about to be is not left in a state before its upload.\<close>

definition result_sane :: "RESULT \<Rightarrow> RESULT" where
  "result_sane x =
     (if (r_got_server_ack x \<or> r_ready_to_report x)
         \<and> r_state x \<in> {RESULT_NEW, RESULT_FILES_DOWNLOADING, RESULT_FILES_DOWNLOADED, RESULT_FILES_UPLOADING}
      then x\<lparr>r_state := RESULT_FILES_UPLOADED\<rparr> else x)"

definition result_fields1 :: "RESULT line_field list" where
  "result_fields1 =
     [Str_F ''name'' 256 (\<lambda>v x. x\<lparr>r_name := v\<rparr>), Str_F ''wu_name'' 256 (\<lambda>v x. x\<lparr>r_wu_name := v\<rparr>),
      Dbl_F ''received_time'' (\<lambda>v x. x\<lparr>r_received_time := v\<rparr>), Dbl_F ''report_deadline'' (\<lambda>v x. x\<lparr>r_report_deadline := v\<rparr>)]"

definition result_fields2 :: "RESULT line_field list" where
  "result_fields2 =
     [Dbl_F ''final_cpu_time'' (\<lambda>v x. x\<lparr>r_final_cpu_time := v\<rparr>), Int_F ''exit_status'' (\<lambda>v x. x\<lparr>r_exit_status := v\<rparr>),
      Bool_F ''got_server_ack'' (\<lambda>v x. x\<lparr>r_got_server_ack := v\<rparr>), Bool_F ''ready_to_report'' (\<lambda>v x. x\<lparr>r_ready_to_report := v\<rparr>),
      Dbl_F ''completed_time'' (\<lambda>v x. x\<lparr>r_completed_time := v\<rparr>), Bool_F ''suspended_via_gui'' (\<lambda>v x. x\<lparr>r_suspended_via_gui := v\<rparr>),
      Int_F ''state'' (\<lambda>v x. x\<lparr>r_state := v\<rparr>)]"

definition result_fields3 :: "RESULT line_field list" where
  "result_fields3 =
     [Dbl_F ''fpops_per_cpu_sec'' (\<lambda>v x. x\<lparr>r_fpops_per_cpu_sec := v\<rparr>), Dbl_F ''fpops_cumulative'' (\<lambda>v x. x\<lparr>r_fpops_cumulative := v\<rparr>),
      Dbl_F ''intops_per_cpu_sec'' (\<lambda>v x. x\<lparr>r_intops_per_cpu_sec := v\<rparr>), Dbl_F ''intops_cumulative'' (\<lambda>v x. x\<lparr>r_intops_cumulative := v\<rparr>),
      Str_F ''platform'' 256 (\<lambda>v x. x\<lparr>r_platform := v\<rparr>), Str_F ''plan_class'' 64 (\<lambda>v x. x\<lparr>r_plan_class := v\<rparr>),
      Int_F ''version_num'' (\<lambda>v x. x\<lparr>r_version_num := v\<rparr>)]"

text \<open>The standard error output; when its end is missing the rest of the file is read.\<close>

definition stderr_body :: "string \<Rightarrow> string \<Rightarrow> RESULT \<Rightarrow> RESULT step" where
  "stderr_body buf rest x =
     (if match_tag buf ''</stderr_out>'' then Return 0 x rest
      else if match_tag buf ''<![CDATA['' then Continue x rest
      else if match_tag buf '']]>'' then Continue x rest
      else Continue (x\<lparr>r_stderr_out := r_stderr_out x @ buf\<rparr>) rest)"

definition parse_stderr :: "string \<Rightarrow> RESULT parsed \<Rightarrow> RESULT parsed step" where
  "parse_stderr rest x = (case line_loop 256 stderr_body rest (fst x) of (retval, y, rest1) \<Rightarrow> Continue (y, snd x) rest1)"

definition RESULT_state_body :: "fid \<Rightarrow> string \<Rightarrow> string \<Rightarrow> RESULT parsed \<Rightarrow> RESULT parsed step" where
  "RESULT_state_body junk buf rest x =
     (if match_tag buf ''</result>'' then Return 0 (result_sane (fst x), snd x) rest
      else or_else result_fields1 buf rest x (\<lambda>x.
        if match_tag buf ''<file_ref>'' then add_file_ref junk add_output_file rest x
        else or_else result_fields2 buf rest x (\<lambda>x.
          if match_tag buf ''<stderr_out>'' then parse_stderr rest x
          else or_else result_fields3 buf rest x (skip_line rest))))"

definition RESULT_parse_state :: "fid \<Rightarrow> string \<Rightarrow> RESULT parsed \<Rightarrow> int \<times> RESULT parsed \<times> string" where
  "RESULT_parse_state junk inp x = line_loop 256 (RESULT_state_body junk) inp (RESULT_clear (fst x), snd x)"

text \<open>A field that is only written when it is not zero.\<close>

abbreviation put_nonzero :: "string \<Rightarrow> real \<Rightarrow> string" where
  "put_nonzero name v \<equiv> if v \<noteq> 0 then put_dbl name v else []"

definition write_stderr :: "string option \<Rightarrow> string \<Rightarrow> string" where
  "write_stderr version err =
     (if err = [] \<and> version = None then []
      else tag_line ''stderr_out'' @ (case version of None \<Rightarrow> [] | Some v \<Rightarrow> write_tag ''core_client_version'' v)
        @ (if err = [] then []
           else ''<![CDATA['' @ NL @ err @ (if last err \<noteq> newline then NL else []) @ '']]>'' @ NL)
        @ end_line ''stderr_out'')"

text \<open>
  \<open>server\<close> is \<open>None\<close> when the state file is written; for the server it has the version of the client, as text, and
  the versions of workunits and the files as they are written for a server.
\<close>

record SERVER_TEXT =
  st_version :: string
  st_wu_version :: "wuid \<Rightarrow> int"
  st_file :: "fid \<Rightarrow> FILE_INFO"
  st_pfx :: "pfxid \<Rightarrow> string"

definition RESULT_write :: "SERVER_TEXT option \<Rightarrow> RESULT \<Rightarrow> string" where
  "RESULT_write server x = tag_line ''result'' @ write_tag ''name'' (r_name x) @ put_dbl ''final_cpu_time'' (r_final_cpu_time x)
     @ put_int ''exit_status'' (r_exit_status x) @ put_int ''state'' (r_state x) @ write_tag ''platform'' (r_platform x)
     @ put_int ''version_num'' (r_version_num x)
     @ (if r_plan_class x \<noteq> [] then write_tag ''plan_class'' (r_plan_class x) else [])
     @ put_nonzero ''fpops_per_cpu_sec'' (r_fpops_per_cpu_sec x) @ put_nonzero ''fpops_cumulative'' (r_fpops_cumulative x)
     @ put_nonzero ''intops_per_cpu_sec'' (r_intops_per_cpu_sec x) @ put_nonzero ''intops_cumulative'' (r_intops_cumulative x)
     @ (case server of None \<Rightarrow> [] | Some st \<Rightarrow> put_int ''app_version_num'' (st_wu_version st (r_wup x)))
     @ write_stderr (map_option st_version server) (r_stderr_out x)
     @ (case server of
          Some st \<Rightarrow> concat (map (\<lambda>fr. if fi_uploaded (st_file st (fr_file_info fr))
                                        then FILE_INFO_write (st_pfx st) True (st_file st (fr_file_info fr)) else [])
                              (r_output_files x))
        | None \<Rightarrow> put_flag ''got_server_ack'' (r_got_server_ack x) @ put_flag ''ready_to_report'' (r_ready_to_report x)
            @ put_nonzero ''completed_time'' (r_completed_time x) @ put_flag ''suspended_via_gui'' (r_suspended_via_gui x)
            @ write_tag ''wu_name'' (r_wu_name x) @ put_dbl ''received_time'' (r_received_time x)
            @ put_dbl ''report_deadline'' (r_report_deadline x) @ concat (map FILE_REF_write (r_output_files x)))
     @ end_line ''result''"

section \<open>ACTIVE_TASK\<close>

text \<open>
  A task that is being read, with the local variables of the parser. Its slot is an integer until the
  task is accepted.
\<close>

record TASK_TEXT =
  tx_task :: ACTIVE_TASK
  tx_slot :: int
  tx_result_name :: string
  tx_url :: string

abbreviation ERR_BAD_RESULT_STATE :: int where "ERR_BAD_RESULT_STATE \<equiv> -158"

abbreviation upd_tx :: "(ACTIVE_TASK \<Rightarrow> ACTIVE_TASK) \<Rightarrow> TASK_TEXT \<Rightarrow> TASK_TEXT" where
  "upd_tx f x \<equiv> x\<lparr>tx_task := f (tx_task x)\<rparr>"

text \<open>Two of the statistics are read into a third, \<open>stats_mem\<close>.\<close>

definition active_task_fields :: "TASK_TEXT line_field list" where
  "active_task_fields =
     [Str_F ''result_name'' 256 (\<lambda>v x. x\<lparr>tx_result_name := v\<rparr>), Str_F ''project_master_url'' 256 (\<lambda>v x. x\<lparr>tx_url := v\<rparr>),
      Int_F ''slot'' (\<lambda>v x. x\<lparr>tx_slot := v\<rparr>), Bool_F ''full_init_done'' (\<lambda>v. upd_tx (\<lambda>x. x\<lparr>at_full_init_done := v\<rparr>)),
      Int_F ''active_task_state'' (\<lambda>v x. x), Dbl_F ''checkpoint_cpu_time'' (\<lambda>v. upd_tx (\<lambda>x. x\<lparr>at_checkpoint_cpu_time := v\<rparr>)),
      Dbl_F ''fraction_done'' (\<lambda>v. upd_tx (\<lambda>x. x\<lparr>at_fraction_done := v\<rparr>)),
      Dbl_F ''current_cpu_time'' (\<lambda>v. upd_tx (\<lambda>x. x\<lparr>at_current_cpu_time := v\<rparr>)), Int_F ''app_version_num'' (\<lambda>v x. x),
      Dbl_F ''swap_size'' (\<lambda>v. upd_tx (\<lambda>x. x\<lparr>at_swap_size := v\<rparr>)),
      Dbl_F ''working_set_size'' (\<lambda>v. upd_tx (\<lambda>x. x\<lparr>at_working_set_size := v\<rparr>)),
      Dbl_F ''working_set_size_smoothed'' (\<lambda>v. upd_tx (\<lambda>x. x\<lparr>at_working_set_size_smoothed := v\<rparr>)),
      Dbl_F ''page_fault_rate'' (\<lambda>v. upd_tx (\<lambda>x. x\<lparr>at_page_fault_rate := v\<rparr>)), Dbl_F ''stats_mem'' (\<lambda>v. upd_tx (\<lambda>x. x\<lparr>at_stats_mem := v\<rparr>)),
      Dbl_F ''stats_page'' (\<lambda>v. upd_tx (\<lambda>x. x\<lparr>at_stats_mem := v\<rparr>)),
      Dbl_F ''stats_pagefault_rate'' (\<lambda>v. upd_tx (\<lambda>x. x\<lparr>at_stats_mem := v\<rparr>)),
      Dbl_F ''stats_disk'' (\<lambda>v. upd_tx (\<lambda>x. x\<lparr>at_stats_disk := v\<rparr>)),
      Int_F ''stats_checkpoint'' (\<lambda>v. upd_tx (\<lambda>x. x\<lparr>at_stats_checkpoint := v\<rparr>))]"

text \<open>The checks at the end of a task, in their order, and the links of the task.\<close>

definition task_end :: "CLIENT_STATE \<Rightarrow> TASK_TEXT \<Rightarrow> int \<times> TASK_TEXT" where
  "task_end s x =
     (case lookup_project s (tx_url x) of
        None \<Rightarrow> (ERR_NULL, x)
      | Some p \<Rightarrow>
          case lookup_result_name s p (tx_result_name x) of
            None \<Rightarrow> (ERR_NULL, x)
          | Some r \<Rightarrow>
              let y = res s r; x1 = upd_tx (\<lambda>t. t\<lparr>at_result := r\<rparr>) x in
              if r_got_server_ack y \<or> r_ready_to_report y \<or> r_state y \<noteq> RESULT_FILES_DOWNLOADED then (ERR_BAD_RESULT_STATE, x1)
              else let x2 = upd_tx (\<lambda>t. t\<lparr>at_wup := r_wup y\<rparr>) x1 in
                case lookup_app_version s (Some (r_app y)) (r_platform y) (r_version_num y) (r_plan_class y) of
                  None \<Rightarrow> (ERR_NULL, x2)
                | Some v \<Rightarrow>
                    let x3 = upd_tx (\<lambda>t. t\<lparr>at_app_version := v\<rparr>) x2 in
                    if list_ex (\<lambda>a. int (at_slot (task s a)) = tx_slot x) (active_tasks s) then (ERR_BAD_RESULT_STATE, x3)
                    else (0, x3))"

definition ACTIVE_TASK_body :: "CLIENT_STATE \<Rightarrow> string \<Rightarrow> string \<Rightarrow> TASK_TEXT parsed \<Rightarrow> TASK_TEXT parsed step" where
  "ACTIVE_TASK_body s buf rest x =
     (if match_tag buf ''</active_task>'' then (case task_end s (fst x) of (retval, y) \<Rightarrow> Return retval (y, snd x) rest)
      else or_else active_task_fields buf rest x (skip_line rest))"

text \<open>A new task, \<open>m\<close> being the memory that its constructor finds, is read.\<close>

definition ACTIVE_TASK_parse :: "CLIENT_STATE \<Rightarrow> ACTIVE_TASK \<Rightarrow> string \<Rightarrow> bool \<Rightarrow> int \<times> TASK_TEXT parsed \<times> string" where
  "ACTIVE_TASK_parse s m inp e = line_loop 256 (ACTIVE_TASK_body s) inp
     (\<lparr>tx_task = ACTIVE_TASK_new (now s) m, tx_slot = 0, tx_result_name = [], tx_url = []\<rparr>, e)"

text \<open>The code of a task state in \<open>lib/common_defs.h\<close>.\<close>

definition task_state_code :: "TASK_STATE \<Rightarrow> int" where
  "task_state_code v = (case v of PROCESS_UNINITIALIZED \<Rightarrow> 0 | PROCESS_EXECUTING \<Rightarrow> 1 | PROCESS_SUSPENDED \<Rightarrow> 2
     | PROCESS_ABORT_PENDING \<Rightarrow> 3 | PROCESS_QUIT_PENDING \<Rightarrow> 4 | PROCESS_EXITED \<Rightarrow> 5 | PROCESS_WAS_SIGNALED \<Rightarrow> 6
     | PROCESS_EXIT_UNKNOWN \<Rightarrow> 7 | PROCESS_ABORTED \<Rightarrow> 8 | PROCESS_COULDNT_START \<Rightarrow> 9)"

definition ACTIVE_TASK_write :: "CLIENT_STATE \<Rightarrow> ACTIVE_TASK \<Rightarrow> string" where
  "ACTIVE_TASK_write s x = tag_line ''active_task'' @ write_tag ''project_master_url'' (p_master_url (proj s (r_project (res s (at_result x)))))
     @ write_tag ''result_name'' (r_name (res s (at_result x))) @ put_int ''active_task_state'' (task_state_code (at_task_state x))
     @ put_int ''app_version_num'' (av_version_num (appver s (at_app_version x))) @ put_int ''slot'' (int (at_slot x))
     @ put_flag ''full_init_done'' (at_full_init_done x) @ put_dbl ''checkpoint_cpu_time'' (at_checkpoint_cpu_time x)
     @ put_dbl ''fraction_done'' (at_fraction_done x) @ put_dbl ''current_cpu_time'' (at_current_cpu_time x)
     @ put_dbl ''swap_size'' (at_swap_size x) @ put_dbl ''working_set_size'' (at_working_set_size x)
     @ put_dbl ''working_set_size_smoothed'' (at_working_set_size_smoothed x) @ put_dbl ''page_fault_rate'' (at_page_fault_rate x)
     @ put_dbl ''stats_mem'' (at_stats_mem x) @ put_dbl ''stats_page'' (at_stats_page x)
     @ put_dbl ''stats_pagefault_rate'' (at_stats_pagefault_rate x) @ put_dbl ''stats_disk'' (at_stats_disk x)
     @ put_int ''stats_checkpoint'' (at_stats_checkpoint x) @ end_line ''active_task''"

text \<open>
  The set of tasks. \<open>mem\<close> is the memory for the task at an address. A slot that the file gives is a number
  of a directory; the model of tasks has no negative ones, and reads those as 0 after the checks.
\<close>

definition tx_result_task :: "TASK_TEXT \<Rightarrow> ACTIVE_TASK" where
  "tx_result_task x = (tx_task x)\<lparr>at_slot := nat (tx_slot x)\<rparr>"

definition ACTIVE_TASK_SET_body :: "(aid \<Rightarrow> ACTIVE_TASK) \<Rightarrow> string \<Rightarrow> string \<Rightarrow> CLIENT_STATE parsed \<Rightarrow> CLIENT_STATE parsed step" where
  "ACTIVE_TASK_SET_body mem buf rest x =
     (if match_tag buf ''</active_task_set>'' then Return 0 x rest
      else if match_tag buf ''<active_task>''
      then let s = fst x; a = fresh_aid s in
           case ACTIVE_TASK_parse s (mem a) rest (snd x) of (retval, (y, e), rest1) \<Rightarrow>
             let t = tx_result_task y;
                 retval1 = (if retval = 0 \<and> slot_taken s (at_slot t) then ERR_XML_PARSE else retval)
             in Continue (if retval1 = 0 then s\<lparr>active_tasks := active_tasks s @ [a], task := (task s)(a := t)\<rparr> else s, e) rest1
      else skip_line rest x)"

definition ACTIVE_TASK_SET_parse :: "(aid \<Rightarrow> ACTIVE_TASK) \<Rightarrow> string \<Rightarrow> CLIENT_STATE parsed \<Rightarrow> int \<times> CLIENT_STATE parsed \<times> string" where
  "ACTIVE_TASK_SET_parse mem inp x = line_loop 256 (ACTIVE_TASK_SET_body mem) inp x"

definition ACTIVE_TASK_SET_write :: "CLIENT_STATE \<Rightarrow> string" where
  "ACTIVE_TASK_SET_write s = tag_line ''active_task_set'' @ concat (map (\<lambda>a. ACTIVE_TASK_write s (task s a)) (active_tasks s))
     @ end_line ''active_task_set''"

section \<open>PROJECT\<close>

text \<open>
  The code of a reason for an RPC; a code that is none stands for no reason here, where the code keeps
  the number.
\<close>

definition rpc_reasons :: "rpc_reason list" where
  "rpc_reasons = [NO_RPC_REASON, RPC_REASON_USER_REQ, RPC_REASON_RESULTS_DUE, RPC_REASON_NEED_WORK, RPC_REASON_TRICKLE_UP,
     RPC_REASON_ACCT_MGR_REQ, RPC_REASON_INIT, RPC_REASON_PROJECT_REQ]"

definition rpc_reason_of :: "int \<Rightarrow> rpc_reason" where
  "rpc_reason_of i = (if 0 \<le> i \<and> i < 8 then rpc_reasons ! nat i else NO_RPC_REASON)"

definition rpc_reason_code :: "rpc_reason \<Rightarrow> int" where
  "rpc_reason_code r = int (length (takeWhile (\<lambda>x. x \<noteq> r) rpc_reasons))"

definition project_fields1 :: "PROJECT line_field list" where
  "project_fields1 =
     [Str_F ''scheduler_url'' 1024 (\<lambda>v x. x\<lparr>p_scheduler_urls := p_scheduler_urls x @ [v]\<rparr>), Str_F ''master_url'' 1024 (\<lambda>v x. x\<lparr>p_master_url := v\<rparr>),
      Str_F ''project_name'' 256 (\<lambda>v x. x\<lparr>p_project_name := v\<rparr>), Str_F ''symstore'' 256 (\<lambda>v x. x\<lparr>p_symstore := v\<rparr>),
      Str_F ''user_name'' 256 (\<lambda>v x. x\<lparr>p_user_name := v\<rparr>), Str_F ''team_name'' 256 (\<lambda>v x. x\<lparr>p_team_name := v\<rparr>),
      Str_F ''host_venue'' 256 (\<lambda>v x. x\<lparr>p_host_venue := v\<rparr>), Str_F ''email_hash'' 64 (\<lambda>v x. x\<lparr>p_email_hash := v\<rparr>),
      Str_F ''cross_project_id'' 64 (\<lambda>v x. x\<lparr>p_cross_project_id := v\<rparr>), Dbl_F ''cpid_time'' (\<lambda>v x. x\<lparr>p_cpid_time := v\<rparr>),
      Dbl_F ''user_total_credit'' (\<lambda>v x. x\<lparr>p_user_total_credit := v\<rparr>), Dbl_F ''user_expavg_credit'' (\<lambda>v x. x\<lparr>p_user_expavg_credit := v\<rparr>),
      Dbl_F ''user_create_time'' (\<lambda>v x. x\<lparr>p_user_create_time := v\<rparr>), Int_F ''rpc_seqno'' (\<lambda>v x. x\<lparr>p_rpc_seqno := v\<rparr>),
      Int_F ''hostid'' (\<lambda>v x. x\<lparr>p_hostid := v\<rparr>), Dbl_F ''host_total_credit'' (\<lambda>v x. x\<lparr>p_host_total_credit := v\<rparr>),
      Dbl_F ''host_expavg_credit'' (\<lambda>v x. x\<lparr>p_host_expavg_credit := v\<rparr>), Dbl_F ''host_create_time'' (\<lambda>v x. x\<lparr>p_host_create_time := v\<rparr>)]"

definition project_fields2 :: "PROJECT line_field list" where
  "project_fields2 =
     [Int_F ''nrpc_failures'' (\<lambda>v x. x\<lparr>p_nrpc_failures := v\<rparr>), Int_F ''master_fetch_failures'' (\<lambda>v x. x\<lparr>p_master_fetch_failures := v\<rparr>),
      Dbl_F ''min_rpc_time'' (\<lambda>v x. x\<lparr>p_min_rpc_time := v\<rparr>), Bool_F ''master_url_fetch_pending'' (\<lambda>v x. x\<lparr>p_master_url_fetch_pending := v\<rparr>),
      Int_F ''sched_rpc_pending'' (\<lambda>v x. x\<lparr>p_sched_rpc_pending := rpc_reason_of v\<rparr>), Dbl_F ''next_rpc_time'' (\<lambda>v x. x\<lparr>p_next_rpc_time := v\<rparr>),
      Bool_F ''trickle_up_pending'' (\<lambda>v x. x\<lparr>p_trickle_up_pending := v\<rparr>), Bool_F ''send_file_list'' (\<lambda>v x. x\<lparr>p_send_file_list := v\<rparr>),
      Bool_F ''non_cpu_intensive'' (\<lambda>v x. x\<lparr>p_non_cpu_intensive := v\<rparr>), Bool_F ''suspended_via_gui'' (\<lambda>v x. x\<lparr>p_suspended_via_gui := v\<rparr>),
      Bool_F ''dont_request_more_work'' (\<lambda>v x. x\<lparr>p_dont_request_more_work := v\<rparr>),
      Bool_F ''detach_when_done'' (\<lambda>v x. x\<lparr>p_detach_when_done := v\<rparr>), Bool_F ''ended'' (\<lambda>v x. x\<lparr>p_ended := v\<rparr>),
      Dbl_F ''short_term_debt'' (\<lambda>v x. x\<lparr>p_short_term_debt := v\<rparr>), Dbl_F ''long_term_debt'' (\<lambda>v x. x\<lparr>p_long_term_debt := v\<rparr>),
      Dbl_F ''resource_share'' (\<lambda>v x. x), Bool_F ''attached_via_acct_mgr'' (\<lambda>v x. x\<lparr>p_attached_via_acct_mgr := v\<rparr>),
      Dbl_F ''ams_resource_share'' (\<lambda>v x. x\<lparr>p_ams_resource_share := v\<rparr>), Bool_F ''scheduler_rpc_in_progress'' (\<lambda>v x. x),
      Bool_F ''use_symlinks'' (\<lambda>v x. x\<lparr>p_use_symlinks := v\<rparr>)]"

definition project_end :: "PROJECT \<Rightarrow> PROJECT" where
  "project_end x = (if p_cpid_time x = 0 then x\<lparr>p_cpid_time := p_user_create_time x\<rparr> else x)"

definition parse_code_sign_key :: "string \<Rightarrow> PROJECT parsed \<Rightarrow> PROJECT parsed step" where
  "parse_code_sign_key rest x =
     (case copy_element_contents_buf ''</code_sign_key>'' 4096 rest of (retval, v, rest1) \<Rightarrow>
        let y = (fst x\<lparr>p_code_sign_key := v\<rparr>, snd x) in
        if retval \<noteq> 0 then Return retval y rest1 else Continue y rest1)"

definition PROJECT_body :: "string \<Rightarrow> string \<Rightarrow> PROJECT parsed \<Rightarrow> PROJECT parsed step" where
  "PROJECT_body buf rest x =
     (if match_tag buf ''</project>'' then Return 0 (project_end (fst x), snd x) rest
      else or_else project_fields1 buf rest x (\<lambda>x.
        if match_tag buf ''<code_sign_key>'' then parse_code_sign_key rest x
        else or_else project_fields2 buf rest x (skip_line rest)))"

definition PROJECT_parse_state :: "string \<Rightarrow> PROJECT parsed \<Rightarrow> int \<times> PROJECT parsed \<times> string" where
  "PROJECT_parse_state inp x = line_loop 256 PROJECT_body inp (PROJECT_init (fst x), snd x)"

text \<open>\<open>in_progress\<close>: the scheduler operation is for this project.\<close>

definition project_text :: "PROJECT \<Rightarrow> string" where
  "project_text x = write_tag ''master_url'' (p_master_url x) @ write_tag ''project_name'' (p_project_name x)
     @ write_tag ''symstore'' (p_symstore x) @ write_tag ''user_name'' (write_escaped_xml (p_user_name x))
     @ write_tag ''team_name'' (write_escaped_xml (p_team_name x)) @ write_tag ''host_venue'' (p_host_venue x)
     @ write_tag ''email_hash'' (p_email_hash x) @ write_tag ''cross_project_id'' (p_cross_project_id x)
     @ put_dbl ''cpid_time'' (p_cpid_time x) @ put_dbl ''user_total_credit'' (p_user_total_credit x)
     @ put_dbl ''user_expavg_credit'' (p_user_expavg_credit x) @ put_dbl ''user_create_time'' (p_user_create_time x)
     @ put_int ''rpc_seqno'' (p_rpc_seqno x) @ put_int ''hostid'' (p_hostid x) @ put_dbl ''host_total_credit'' (p_host_total_credit x)
     @ put_dbl ''host_expavg_credit'' (p_host_expavg_credit x) @ put_dbl ''host_create_time'' (p_host_create_time x)
     @ put_int ''nrpc_failures'' (p_nrpc_failures x) @ put_int ''master_fetch_failures'' (p_master_fetch_failures x)
     @ put_dbl ''min_rpc_time'' (p_min_rpc_time x) @ put_dbl ''next_rpc_time'' (p_next_rpc_time x)
     @ put_dbl ''short_term_debt'' (p_short_term_debt x) @ put_dbl ''long_term_debt'' (p_long_term_debt x)
     @ put_dbl ''resource_share'' (p_resource_share x) @ put_int ''sched_rpc_pending'' (rpc_reason_code (p_sched_rpc_pending x))"

definition project_flags :: "bool \<Rightarrow> PROJECT \<Rightarrow> string" where
  "project_flags in_progress x = put_flag ''master_url_fetch_pending'' (p_master_url_fetch_pending x)
     @ put_flag ''trickle_up_pending'' (p_trickle_up_pending x) @ put_flag ''send_file_list'' (p_send_file_list x)
     @ put_flag ''non_cpu_intensive'' (p_non_cpu_intensive x) @ put_flag ''suspended_via_gui'' (p_suspended_via_gui x)
     @ put_flag ''dont_request_more_work'' (p_dont_request_more_work x) @ put_flag ''detach_when_done'' (p_detach_when_done x)
     @ put_flag ''ended'' (p_ended x) @ put_flag ''attached_via_acct_mgr'' (p_attached_via_acct_mgr x)
     @ put_flag ''scheduler_rpc_in_progress'' in_progress @ put_flag ''use_symlinks'' (p_use_symlinks x)"

definition PROJECT_write_state :: "bool \<Rightarrow> bool \<Rightarrow> PROJECT \<Rightarrow> string" where
  "PROJECT_write_state in_progress gui_rpc x = tag_line ''project'' @ project_text x @ project_flags in_progress x
     @ (if p_ams_resource_share x \<ge> 0 then put_dbl ''ams_resource_share'' (p_ams_resource_share x) else [])
     @ (if gui_rpc
        then p_gui_urls x @ put_int ''rr_sim_deadlines_missed'' (rs_deadlines_missed (p_rr_sim_status x))
          @ put_dbl ''last_rpc_time'' (p_last_rpc_time x) @ put_dbl ''project_files_downloaded_time'' (p_project_files_downloaded_time x)
        else concat (map (write_tag ''scheduler_url'') (p_scheduler_urls x))
          @ (if p_code_sign_key x \<noteq> [] then tag_line ''code_sign_key'' @ p_code_sign_key x @ end_line ''code_sign_key'' else []))
     @ end_line ''project''"

text \<open>Project files, in the state file.\<close>

definition write_project_files :: "PROJECT \<Rightarrow> string" where
  "write_project_files x = (if p_project_files x = [] then []
     else tag_line ''project_files'' @ concat (map FILE_REF_write (p_project_files x)) @ end_line ''project_files'')"

end
