(* ===== verification/Result_Roundtrip.thy ===== *)
theory Result_Roundtrip
  imports Result_Text
begin

text \<open>
  What the state file keeps: a result that is written and read again, with its output files and its
  standard error output; and the slots of the tasks that any state file can give.
\<close>

section \<open>File references\<close>

lemma FILE_REF_body_plain: "FILE_REF_body = plain_body file_ref_fields ''file_ref''"
  by (intro ext) (simp add: FILE_REF_body_def plain_body_def)

interpretation ref_file: line_parser FILE_REF_body file_ref_fields "''file_ref''" "\<lambda>x. x"
  unfolding FILE_REF_body_plain by (rule plain_parser) (simp_all add: file_ref_fields_def plain_name_def newline_char)

definition text_fits :: "string \<Rightarrow> bool" where
  "text_fits v = (clean v \<and> length v \<le> 200)"

definition ref_fits :: "FILE_REF \<Rightarrow> bool" where
  "ref_fits x = (text_fits (fr_file_name x) \<and> text_fits (fr_open_name x))"

definition ref_items :: "FILE_REF \<Rightarrow> item list" where
  "ref_items x = [Text_I ''file_name'' (fr_file_name x)]
     @ (if fr_open_name x \<noteq> [] then [Text_I ''open_name'' (fr_open_name x)] else [])
     @ (if fr_main_program x then [Flag_I ''main_program''] else []) @ (if fr_copy_file x then [Flag_I ''copy_file''] else [])
     @ (if fr_optional x then [Flag_I ''optional''] else [])"

lemma FILE_REF_write_items:
  "FILE_REF_write x = tag_line ''file_ref'' @ concat (map item_line (ref_items x)) @ end_line ''file_ref''"
  by (simp add: FILE_REF_write_def ref_items_def)

lemma clean_line: "clean v \<Longrightarrow> newline \<notin> set v"
  by (auto simp: clean_def)

lemma FILE_REF_read:
  assumes "ref_fits x"
  shows "FILE_REF_parse (concat (map item_line (ref_items x)) @ end_line ''file_ref'' @ rest) (blank_ref junk, False)
    = (0, (x\<lparr>fr_file_info := junk\<rparr>, False), rest)"
proof -
  have ok: "list_all (item_ok file_ref_fields) (ref_items x)"
    using assms by (simp add: ref_items_def item_ok_def item_field_def file_ref_fields_def ref_fits_def text_fits_def clean_line)
  have "fold (item_apply file_ref_fields) (ref_items x) (FILE_REF_clear (blank_ref junk)) = x\<lparr>fr_file_info := junk\<rparr>"
    by (cases x) (simp add: ref_items_def item_apply_def item_field_def file_ref_fields_def FILE_REF_clear_def blank_ref_def)
  then show ?thesis
    using ref_file.element_read [OF ok, of rest "FILE_REF_clear (blank_ref junk)"] unfolding FILE_REF_parse_def by simp
qed

section \<open>The fields of a result\<close>

abbreviation result_fields :: "RESULT line_field list" where
  "result_fields \<equiv> result_fields1 @ result_fields2 @ result_fields3"

lemmas result_fields_defs = result_fields1_def result_fields2_def result_fields3_def

lemma result_fields_plain: "plain_fields result_fields" "''result'' \<notin> field_name ` set result_fields"
  "''file_ref'' \<notin> field_name ` set result_fields" "''stderr_out'' \<notin> field_name ` set result_fields"
  by (simp_all add: result_fields_defs plain_name_def newline_char)

lemma result_names: "plain_name ''result''" "plain_name ''file_ref''" "plain_name ''stderr_out''"
  by (simp_all add: plain_name_def newline_char)

lemma result_reads_item:
  assumes "item_ok result_fields it"
  shows "RESULT_state_body junk (item_line it) rest (x, False) = Continue (item_apply result_fields it x, False) rest"
proof -
  let ?f1 = result_fields1 and ?f2 = result_fields2 and ?f3 = result_fields3
  have n: "t \<noteq> item_name it" if "t \<notin> field_name ` set result_fields" for t
    using item_name_field [OF assms] that by auto
  note tags = item_other_tags [OF result_fields_plain(1) assms]
  have m: "\<not> match_tag (item_line it) ''</result>''" "\<not> match_tag (item_line it) ''<file_ref>''"
    "\<not> match_tag (item_line it) ''<stderr_out>''"
    using tags(2) [OF result_names(1) n [OF result_fields_plain(2)]] tags(1) [OF result_names(2) n [OF result_fields_plain(3)]]
      tags(1) [OF result_names(3) n [OF result_fields_plain(4)]] by simp_all
  have p: "plain_fields (?f2 @ ?f3)" "plain_fields ?f3" using result_fields_plain(1) by simp_all
  note g = item_ok_def item_apply_def
  show ?thesis
  proof (cases "item_name it \<in> field_name ` set ?f1")
    case True
    then show ?thesis
      using m or_else_item [OF result_fields_plain(1) assms] by (simp add: RESULT_state_body_def)
  next
    case F1: False
    then have ok2: "item_ok (?f2 @ ?f3) it" and ap2: "item_apply result_fields it x = item_apply (?f2 @ ?f3) it x"
      using assms item_groups(2) [OF F1] by (simp_all add: g)
    show ?thesis
    proof (cases "item_name it \<in> field_name ` set ?f2")
      case True
      then show ?thesis
        using m F1 or_else_item [OF result_fields_plain(1) assms] or_else_item [OF p(1) ok2] ap2 by (simp add: RESULT_state_body_def)
    next
      case F2: False
      then have ok3: "item_ok (?f3 @ []) it" and ap3: "item_apply (?f2 @ ?f3) it x = item_apply (?f3 @ []) it x"
        using ok2 item_groups(2) [OF F2] by (simp_all add: g)
      then have "item_name it \<in> field_name ` set ?f3" using item_name_field [of ?f3 it] by simp
      then show ?thesis
        using m F1 F2 or_else_item [OF result_fields_plain(1) assms] or_else_item [OF p(1) ok2] or_else_item [of ?f3 "[]" it] p(2) ok3
          ap2 ap3 by (simp add: RESULT_state_body_def)
    qed
  qed
qed

interpretation result_file: line_parser "RESULT_state_body junk" result_fields "''result''" result_sane for junk
proof
  show "RESULT_state_body junk (end_line ''result'') rest y = Return 0 (result_sane (fst y), snd y) rest" for rest y
    using strstr_close(3) [OF result_names(1) result_names(1), of "[]"] by (simp add: RESULT_state_body_def)
qed (use result_fields_plain(1) result_names(1) result_reads_item in simp_all)

section \<open>Output files\<close>

text \<open>The line \<open>t\<close> alone: a tag is not found in it that is not its own.\<close>

lemma tag_line_tags:
  assumes "plain_name name" "plain_name t"
  shows "match_tag (tag_line name) (''<'' @ t @ ''>'') \<longleftrightarrow> t = name" "\<not> match_tag (tag_line name) (''</'' @ t @ ''>'')"
    "strstr_from (open_tag t) (tag_line name) = (if t = name then Some (tag_line name) else None)"
    "strstr_from (''<'' @ t @ ''/>'') (tag_line name) = None"
proof -
  have b: "CHR ''<'' \<notin> set (name @ ''>'' @ NL)" using assms(1) by (auto simp: plain_name_def set_NL)
  have l: "tag_line name = CHR ''<'' # (name @ ''>'' @ NL)" by simp
  have o: "strstr_from (''<'' @ t @ ''>'') (tag_line name) = (if t = name then Some (tag_line name) else None)"
    using strstr_at [OF b, of "t @ ''>''"] delimited [OF assms(2,1), of "CHR ''>''" "CHR ''>''" "length (t @ ''>'')" NL "[]"] by auto
  then show "match_tag (tag_line name) (''<'' @ t @ ''>'') \<longleftrightarrow> t = name"
    "strstr_from (open_tag t) (tag_line name) = (if t = name then Some (tag_line name) else None)"
    by (simp_all add: match_tag_def open_tag_def)
  show "strstr_from (''<'' @ t @ ''/>'') (tag_line name) = None"
    using strstr_at [OF b, of "t @ ''/>''"] delimited [OF assms(2,1), of "CHR ''>''" "CHR ''/''" "length (t @ ''/>'')" NL "''>''"] by auto
  obtain c cs where "name = c # cs" "c \<noteq> CHR ''/''" using assms(1) by (cases name) (auto simp: plain_name_def)
  then show "\<not> match_tag (tag_line name) (''</'' @ t @ ''>'')"
    using strstr_at [OF b, of "CHR ''/'' # t @ ''>''"] by (simp add: match_tag_def)
qed

lemma tag_line_field:
  assumes "plain_name name" "plain_name (field_name f)" "field_name f \<noteq> name"
  shows "try_field f e (tag_line name) x = (None, e)"
  using tag_line_tags(3,4) [OF assms(1,2)] assms(3)
  by (cases f) (auto simp: try_field_def parse_str_def parse_double_line_def parse_int_line_def parse_bool_line_def match_tag_def open_tag_def)

lemma tag_line_fields:
  assumes "plain_fields fs" "plain_name name" "name \<notin> field_name ` set fs"
  shows "or_else fs (tag_line name) rest x other = other x"
proof -
  have "line_fields fs e (tag_line name) y = (None, e)" for e y
    using assms by (induction fs) (auto simp: tag_line_field simp del: append.simps)
  then show ?thesis by (simp add: or_else_def)
qed

lemma result_tag_lines:
  shows "RESULT_state_body junk (tag_line ''file_ref'') rest x = add_file_ref junk add_output_file rest x"
    "RESULT_state_body junk (tag_line ''stderr_out'') rest x = parse_stderr rest x"
proof -
  have p: "plain_fields result_fields1" "plain_fields result_fields2" using result_fields_plain(1) by simp_all
  have m: "match_tag (tag_line ''file_ref'') ''<file_ref>''" "\<not> match_tag (tag_line ''file_ref'') ''</result>''"
    "match_tag (tag_line ''stderr_out'') ''<stderr_out>''" "\<not> match_tag (tag_line ''stderr_out'') ''</result>''"
    "\<not> match_tag (tag_line ''stderr_out'') ''<file_ref>''"
    using tag_line_tags(1,2) [OF result_names(2), of "''file_ref''"] tag_line_tags(1,2) [OF result_names(2), of "''result''"]
      tag_line_tags(1,2) [OF result_names(3), of "''stderr_out''"] tag_line_tags(1,2) [OF result_names(3), of "''result''"]
      tag_line_tags(1,2) [OF result_names(3), of "''file_ref''"] result_names by simp_all
  have f: "''file_ref'' \<notin> field_name ` set result_fields1" "''stderr_out'' \<notin> field_name ` set result_fields1"
    "''stderr_out'' \<notin> field_name ` set result_fields2"
    using result_fields_plain(3,4) by (simp_all add: image_Un)
  note o = tag_line_fields [OF p(1) result_names(2) f(1)] tag_line_fields [OF p(1) result_names(3) f(2)]
    tag_line_fields [OF p(2) result_names(3) f(3)]
  show "RESULT_state_body junk (tag_line ''file_ref'') rest x = add_file_ref junk add_output_file rest x"
    unfolding RESULT_state_body_def o using m by (simp only: if_True if_False)
  show "RESULT_state_body junk (tag_line ''stderr_out'') rest x = parse_stderr rest x"
    unfolding RESULT_state_body_def o using m by (simp only: if_True if_False)
qed

definition unlinked :: "fid \<Rightarrow> FILE_REF \<Rightarrow> FILE_REF" where
  "unlinked junk fr = fr\<lparr>fr_file_info := junk\<rparr>"

lemma result_refs_read:
  assumes "list_all ref_fits frs"
  shows "line_loop 256 (RESULT_state_body junk) (concat (map FILE_REF_write frs) @ rest) (x, False)
    = line_loop 256 (RESULT_state_body junk) rest (x\<lparr>r_output_files := r_output_files x @ map (unlinked junk) frs\<rparr>, False)"
  using assms
proof (induction frs arbitrary: x)
  case (Cons fr frs)
  define tl where "tl = concat (map FILE_REF_write frs) @ rest"
  have inp: "concat (map FILE_REF_write (fr # frs)) @ rest
      = tag_line ''file_ref'' @ concat (map item_line (ref_items fr)) @ end_line ''file_ref'' @ tl"
    by (simp only: FILE_REF_write_items tl_def list.map concat.simps append_assoc)
  have short: "short_line (tag_line ''file_ref'')" by (rule short_lines(4) [OF result_names(2)]) simp
  have "RESULT_state_body junk (tag_line ''file_ref'') (concat (map item_line (ref_items fr)) @ end_line ''file_ref'' @ tl) (x, False)
      = Continue (add_output_file (unlinked junk fr) x, False) tl"
    using FILE_REF_read [of fr tl junk] Cons.prems unfolding result_tag_lines by (simp add: add_file_ref_def unlinked_def)
  then have "line_loop 256 (RESULT_state_body junk) (concat (map FILE_REF_write (fr # frs)) @ rest) (x, False)
      = line_loop 256 (RESULT_state_body junk) tl (add_output_file (unlinked junk fr) x, False)"
    unfolding inp by (rule line_loop_continue [OF short]) simp
  then show ?case using Cons by (simp add: tl_def add_output_file_def)
qed simp

section \<open>Standard error output\<close>

definition stderr_line :: "string \<Rightarrow> bool" where
  "stderr_line l = (short_line l \<and> \<not> match_tag l ''</stderr_out>'' \<and> \<not> match_tag l ''<![CDATA['' \<and> \<not> match_tag l '']]>'')"

lemma stderr_lines_read:
  assumes "list_all stderr_line ls"
  shows "line_loop 256 stderr_body (concat ls @ rest) x = line_loop 256 stderr_body rest (x\<lparr>r_stderr_out := r_stderr_out x @ concat ls\<rparr>)"
  using assms
proof (induction ls arbitrary: x)
  case (Cons l ls)
  then have l: "stderr_line l" by simp
  have "line_loop 256 stderr_body (l @ concat ls @ rest) x = line_loop 256 stderr_body (concat ls @ rest) (x\<lparr>r_stderr_out := r_stderr_out x @ l\<rparr>)"
    using l by (intro line_loop_continue) (simp_all add: stderr_line_def stderr_body_def)
  then show ?case using Cons by simp
qed simp

lemma stderr_marks:
  "short_line (''<![CDATA['' @ NL)" "stderr_body (''<![CDATA['' @ NL) rest x = Continue x rest"
  "short_line ('']]>'' @ NL)" "stderr_body ('']]>'' @ NL) rest x = Continue x rest"
  by (simp_all add: short_line_def stderr_body_def match_tag_def NL_def newline_char)

lemma result_stderr_read:
  assumes "list_all stderr_line ls" "err = concat ls"
  shows "line_loop 256 (RESULT_state_body junk) (write_stderr None err @ rest) (x, False)
    = line_loop 256 (RESULT_state_body junk) rest (x\<lparr>r_stderr_out := r_stderr_out x @ err\<rparr>, False)"
proof (cases "err = []")
  case False
  then obtain l where "ls \<noteq> []" "last ls = l" using assms(2) by (cases ls) auto
  then have "l \<noteq> []" "last l = newline" using assms(1) by (auto simp: list_all_iff stderr_line_def short_line_def dest: last_in_set)
  then have "last err = newline"
    using \<open>ls \<noteq> []\<close> \<open>last ls = l\<close> assms(2) append_butlast_last_id [of ls] by (metis concat.simps(1,2) concat_append append_Nil2 last_appendR)
  then have w: "write_stderr None err @ rest
      = tag_line ''stderr_out'' @ (''<![CDATA['' @ NL) @ concat ls @ ('']]>'' @ NL) @ end_line ''stderr_out'' @ rest"
    using False assms(2) unfolding write_stderr_def by (simp only: if_False option.case append_assoc append_Nil not_True_eq_False simp_thms)
  have short: "short_line (tag_line ''stderr_out'')" "short_line (end_line ''stderr_out'')"
    using short_lines(3,4) [OF result_names(3)] by simp_all
  have e: "stderr_body (end_line ''stderr_out'') rest y = Return 0 y rest" for rest y
    using strstr_close(3) [OF result_names(3,3), of "[]"] by (simp add: stderr_body_def)
  have "line_loop 256 stderr_body ((''<![CDATA['' @ NL) @ concat ls @ ('']]>'' @ NL) @ end_line ''stderr_out'' @ rest) x
      = line_loop 256 stderr_body (('']]>'' @ NL) @ end_line ''stderr_out'' @ rest) (x\<lparr>r_stderr_out := r_stderr_out x @ err\<rparr>)"
    unfolding assms(2) stderr_lines_read [OF assms(1), symmetric]
    by (rule line_loop_continue [OF stderr_marks(1)]) (simp_all only: stderr_marks(2) order_refl)
  also have "\<dots> = line_loop 256 stderr_body (end_line ''stderr_out'' @ rest) (x\<lparr>r_stderr_out := r_stderr_out x @ err\<rparr>)"
    by (rule line_loop_continue [OF stderr_marks(3)]) (simp_all only: stderr_marks(4) order_refl)
  also have "\<dots> = (0, x\<lparr>r_stderr_out := r_stderr_out x @ err\<rparr>, rest)"
    unfolding line_loop_step [OF short(2)] e by simp
  finally have "parse_stderr ((''<![CDATA['' @ NL) @ concat ls @ ('']]>'' @ NL) @ end_line ''stderr_out'' @ rest) (x, False)
      = Continue (x\<lparr>r_stderr_out := r_stderr_out x @ err\<rparr>, False) rest"
    unfolding parse_stderr_def fst_conv snd_conv by (simp only: prod.case)
  then show ?thesis
    unfolding w by (intro line_loop_continue [OF short(1)]) (simp_all only: result_tag_lines length_append)
qed (simp add: write_stderr_def)

section \<open>A whole result\<close>

definition result_items1 :: "RESULT \<Rightarrow> item list" where
  "result_items1 x = [Text_I ''name'' (r_name x), Real_I ''final_cpu_time'' (r_final_cpu_time x), Int_I ''exit_status'' (r_exit_status x),
     Int_I ''state'' (r_state x), Text_I ''platform'' (r_platform x), Int_I ''version_num'' (r_version_num x)]
     @ (if r_plan_class x \<noteq> [] then [Text_I ''plan_class'' (r_plan_class x)] else [])
     @ (if r_fpops_per_cpu_sec x \<noteq> 0 then [Real_I ''fpops_per_cpu_sec'' (r_fpops_per_cpu_sec x)] else [])
     @ (if r_fpops_cumulative x \<noteq> 0 then [Real_I ''fpops_cumulative'' (r_fpops_cumulative x)] else [])
     @ (if r_intops_per_cpu_sec x \<noteq> 0 then [Real_I ''intops_per_cpu_sec'' (r_intops_per_cpu_sec x)] else [])
     @ (if r_intops_cumulative x \<noteq> 0 then [Real_I ''intops_cumulative'' (r_intops_cumulative x)] else [])"

definition result_items2 :: "RESULT \<Rightarrow> item list" where
  "result_items2 x = (if r_got_server_ack x then [Flag_I ''got_server_ack''] else [])
     @ (if r_ready_to_report x then [Flag_I ''ready_to_report''] else [])
     @ (if r_completed_time x \<noteq> 0 then [Real_I ''completed_time'' (r_completed_time x)] else [])
     @ (if r_suspended_via_gui x then [Flag_I ''suspended_via_gui''] else [])
     @ [Text_I ''wu_name'' (r_wu_name x), Real_I ''received_time'' (r_received_time x), Real_I ''report_deadline'' (r_report_deadline x)]"

lemma RESULT_write_items:
  "RESULT_write None x = tag_line ''result'' @ concat (map item_line (result_items1 x)) @ write_stderr None (r_stderr_out x)
     @ concat (map item_line (result_items2 x)) @ concat (map FILE_REF_write (r_output_files x)) @ end_line ''result''"
  by (simp add: RESULT_write_def result_items1_def result_items2_def)

text \<open>Numbers that six decimals give exactly, and 32-bit integers.\<close>

definition exact :: "real \<Rightarrow> bool" where
  "exact d = (printable d \<and> fixed_value 6 d = d)"

definition int32 :: "int \<Rightarrow> bool" where
  "int32 i = (- (2 ^ 31) \<le> i \<and> i < 2 ^ 31)"

text \<open>
  What may be in a result: texts without markup that fit on a line of the state file, numbers with at most
  six decimals, and standard error output in lines of less than 256 characters, without the marks around it.
\<close>

definition result_fits :: "RESULT \<Rightarrow> bool" where
  "result_fits x = (list_all text_fits [r_name x, r_wu_name x, r_platform x, r_plan_class x] \<and> length (r_plan_class x) < 64
     \<and> list_all exact [r_final_cpu_time x, r_fpops_per_cpu_sec x, r_fpops_cumulative x, r_intops_per_cpu_sec x, r_intops_cumulative x,
         r_completed_time x, r_received_time x, r_report_deadline x]
     \<and> list_all int32 [r_exit_status x, r_state x, r_version_num x] \<and> list_all ref_fits (r_output_files x))"

text \<open>
  The result \<open>x\<close> as it is after a restart, read into an object \<open>y\<close>: all but its links, which are made later, and the
  variables of the scheduler.
\<close>

definition restored :: "fid \<Rightarrow> RESULT \<Rightarrow> RESULT \<Rightarrow> RESULT" where
  "restored junk y x = x\<lparr>r_output_files := map (unlinked junk) (r_output_files x), r_avp := r_avp y, r_wup := r_wup y,
     r_project := r_project y, r_app := r_app y, r_rrsim_cpu_left := r_rrsim_cpu_left y,
     r_rrsim_finish_delay := r_rrsim_finish_delay y, r_already_selected := r_already_selected y,
     r_rr_sim_misses_deadline := False, r_last_rr_sim_missed_deadline := False, r_edf_scheduled := False\<rparr>"

lemmas item_evals = item_ok_def item_apply_def item_field_def result_fields_defs

lemma fits_text: "text_fits v \<Longrightarrow> length v < n \<Longrightarrow> length name \<le> 20 \<Longrightarrow> item_fits (Str_F name n upd) (Text_I name' v)"
  by (simp add: text_fits_def clean_line)

lemma result_items_ok:
  assumes "result_fits x"
  shows "list_all (item_ok result_fields) (result_items1 x)" "list_all (item_ok result_fields) (result_items2 x)"
proof -
  have t: "text_fits (r_name x)" "text_fits (r_wu_name x)" "text_fits (r_platform x)" "text_fits (r_plan_class x)" "length (r_plan_class x) < 64"
    and r: "exact (r_final_cpu_time x)" "exact (r_fpops_per_cpu_sec x)" "exact (r_fpops_cumulative x)" "exact (r_intops_per_cpu_sec x)"
      "exact (r_intops_cumulative x)" "exact (r_completed_time x)" "exact (r_received_time x)" "exact (r_report_deadline x)"
    and i: "int32 (r_exit_status x)" "int32 (r_state x)" "int32 (r_version_num x)"
    using assms by (simp_all add: result_fits_def)
  have l: "length v < 256" if "text_fits v" for v using that by (simp add: text_fits_def)
  have rr: "item_fits (Dbl_F name upd) (Real_I name' d)" if "exact d" "length name \<le> 70"
    for d name name' and upd :: "real \<Rightarrow> RESULT \<Rightarrow> RESULT"
    using that by (simp add: exact_def fits_real del: item_fits.simps)
  have ii: "item_fits (Int_F name upd) (Int_I name' k)" if "int32 k" "length name \<le> 100"
    for k name name' and upd :: "int \<Rightarrow> RESULT \<Rightarrow> RESULT"
    using that by (simp add: int32_def fits_int del: item_fits.simps)
  have ff: "item_fits (Bool_F name upd) (Flag_I name')" if "length name \<le> 100" for name name' and upd :: "bool \<Rightarrow> RESULT \<Rightarrow> RESULT"
    using that by simp
  show "list_all (item_ok result_fields) (result_items1 x)"
    using t r i l by (simp add: result_items1_def item_evals fits_text rr ii ff del: item_fits.simps)
  show "list_all (item_ok result_fields) (result_items2 x)"
    using t r i l by (simp add: result_items2_def item_evals fits_text rr ii ff del: item_fits.simps)
qed

text \<open>Lines that are only written when there is something to write.\<close>

lemma optional_item: "fold g (if b then [it] else []) y = (if b then g it y else y)"
  by simp

lemma optional_updates:
  fixes y :: RESULT
  shows "(if b then y\<lparr>r_plan_class := v0\<rparr> else y) = y\<lparr>r_plan_class := if b then v0 else r_plan_class y\<rparr>"
    "(if b then y\<lparr>r_fpops_per_cpu_sec := v1\<rparr> else y) = y\<lparr>r_fpops_per_cpu_sec := if b then v1 else r_fpops_per_cpu_sec y\<rparr>"
    "(if b then y\<lparr>r_fpops_cumulative := v2\<rparr> else y) = y\<lparr>r_fpops_cumulative := if b then v2 else r_fpops_cumulative y\<rparr>"
    "(if b then y\<lparr>r_intops_per_cpu_sec := v3\<rparr> else y) = y\<lparr>r_intops_per_cpu_sec := if b then v3 else r_intops_per_cpu_sec y\<rparr>"
    "(if b then y\<lparr>r_intops_cumulative := v4\<rparr> else y) = y\<lparr>r_intops_cumulative := if b then v4 else r_intops_cumulative y\<rparr>"
    "(if b then y\<lparr>r_completed_time := v5\<rparr> else y) = y\<lparr>r_completed_time := if b then v5 else r_completed_time y\<rparr>"
    "(if b then y\<lparr>r_got_server_ack := v6\<rparr> else y) = y\<lparr>r_got_server_ack := if b then v6 else r_got_server_ack y\<rparr>"
    "(if b then y\<lparr>r_ready_to_report := v7\<rparr> else y) = y\<lparr>r_ready_to_report := if b then v7 else r_ready_to_report y\<rparr>"
    "(if b then y\<lparr>r_suspended_via_gui := v8\<rparr> else y) = y\<lparr>r_suspended_via_gui := if b then v8 else r_suspended_via_gui y\<rparr>"
  by simp_all

lemma result_item_apply:
  "item_apply result_fields (Text_I ''name'' v) y = y\<lparr>r_name := v\<rparr>"
  "item_apply result_fields (Text_I ''wu_name'' v) y = y\<lparr>r_wu_name := v\<rparr>"
  "item_apply result_fields (Text_I ''platform'' v) y = y\<lparr>r_platform := v\<rparr>"
  "item_apply result_fields (Text_I ''plan_class'' v) y = y\<lparr>r_plan_class := v\<rparr>"
  "item_apply result_fields (Int_I ''exit_status'' i) y = y\<lparr>r_exit_status := i\<rparr>"
  "item_apply result_fields (Int_I ''state'' i) y = y\<lparr>r_state := i\<rparr>"
  "item_apply result_fields (Int_I ''version_num'' i) y = y\<lparr>r_version_num := i\<rparr>"
  "item_apply result_fields (Flag_I ''got_server_ack'') y = y\<lparr>r_got_server_ack := True\<rparr>"
  "item_apply result_fields (Flag_I ''ready_to_report'') y = y\<lparr>r_ready_to_report := True\<rparr>"
  "item_apply result_fields (Flag_I ''suspended_via_gui'') y = y\<lparr>r_suspended_via_gui := True\<rparr>"
  "item_apply result_fields (Real_I ''final_cpu_time'' d) y = y\<lparr>r_final_cpu_time := fixed_value 6 d\<rparr>"
  "item_apply result_fields (Real_I ''fpops_per_cpu_sec'' d) y = y\<lparr>r_fpops_per_cpu_sec := fixed_value 6 d\<rparr>"
  "item_apply result_fields (Real_I ''fpops_cumulative'' d) y = y\<lparr>r_fpops_cumulative := fixed_value 6 d\<rparr>"
  "item_apply result_fields (Real_I ''intops_per_cpu_sec'' d) y = y\<lparr>r_intops_per_cpu_sec := fixed_value 6 d\<rparr>"
  "item_apply result_fields (Real_I ''intops_cumulative'' d) y = y\<lparr>r_intops_cumulative := fixed_value 6 d\<rparr>"
  "item_apply result_fields (Real_I ''completed_time'' d) y = y\<lparr>r_completed_time := fixed_value 6 d\<rparr>"
  "item_apply result_fields (Real_I ''received_time'' d) y = y\<lparr>r_received_time := fixed_value 6 d\<rparr>"
  "item_apply result_fields (Real_I ''report_deadline'' d) y = y\<lparr>r_report_deadline := fixed_value 6 d\<rparr>"
  by (simp_all add: item_evals)

lemma result_items_apply:
  assumes "result_fits x"
  shows "fold (item_apply result_fields) (result_items1 x) y = y\<lparr>r_name := r_name x, r_final_cpu_time := r_final_cpu_time x,
      r_exit_status := r_exit_status x, r_state := r_state x, r_platform := r_platform x, r_version_num := r_version_num x,
      r_plan_class := if r_plan_class x \<noteq> [] then r_plan_class x else r_plan_class y,
      r_fpops_per_cpu_sec := if r_fpops_per_cpu_sec x \<noteq> 0 then r_fpops_per_cpu_sec x else r_fpops_per_cpu_sec y,
      r_fpops_cumulative := if r_fpops_cumulative x \<noteq> 0 then r_fpops_cumulative x else r_fpops_cumulative y,
      r_intops_per_cpu_sec := if r_intops_per_cpu_sec x \<noteq> 0 then r_intops_per_cpu_sec x else r_intops_per_cpu_sec y,
      r_intops_cumulative := if r_intops_cumulative x \<noteq> 0 then r_intops_cumulative x else r_intops_cumulative y\<rparr>"
    "fold (item_apply result_fields) (result_items2 x) y = y\<lparr>r_got_server_ack := r_got_server_ack x \<or> r_got_server_ack y,
      r_ready_to_report := r_ready_to_report x \<or> r_ready_to_report y,
      r_completed_time := if r_completed_time x \<noteq> 0 then r_completed_time x else r_completed_time y,
      r_suspended_via_gui := r_suspended_via_gui x \<or> r_suspended_via_gui y, r_wu_name := r_wu_name x,
      r_received_time := r_received_time x, r_report_deadline := r_report_deadline x\<rparr>"
proof -
  have r: "fixed_value 6 (r_final_cpu_time x) = r_final_cpu_time x" "fixed_value 6 (r_fpops_per_cpu_sec x) = r_fpops_per_cpu_sec x"
    "fixed_value 6 (r_fpops_cumulative x) = r_fpops_cumulative x" "fixed_value 6 (r_intops_per_cpu_sec x) = r_intops_per_cpu_sec x"
    "fixed_value 6 (r_intops_cumulative x) = r_intops_cumulative x" "fixed_value 6 (r_completed_time x) = r_completed_time x"
    "fixed_value 6 (r_received_time x) = r_received_time x" "fixed_value 6 (r_report_deadline x) = r_report_deadline x"
    using assms by (simp_all add: result_fits_def exact_def)
  note e = fold_append comp_apply optional_item fold_simps result_item_apply optional_updates r
  show "fold (item_apply result_fields) (result_items1 x) y = y\<lparr>r_name := r_name x, r_final_cpu_time := r_final_cpu_time x,
      r_exit_status := r_exit_status x, r_state := r_state x, r_platform := r_platform x, r_version_num := r_version_num x,
      r_plan_class := if r_plan_class x \<noteq> [] then r_plan_class x else r_plan_class y,
      r_fpops_per_cpu_sec := if r_fpops_per_cpu_sec x \<noteq> 0 then r_fpops_per_cpu_sec x else r_fpops_per_cpu_sec y,
      r_fpops_cumulative := if r_fpops_cumulative x \<noteq> 0 then r_fpops_cumulative x else r_fpops_cumulative y,
      r_intops_per_cpu_sec := if r_intops_per_cpu_sec x \<noteq> 0 then r_intops_per_cpu_sec x else r_intops_per_cpu_sec y,
      r_intops_cumulative := if r_intops_cumulative x \<noteq> 0 then r_intops_cumulative x else r_intops_cumulative y\<rparr>"
    unfolding result_items1_def e by simp
  show "fold (item_apply result_fields) (result_items2 x) y = y\<lparr>r_got_server_ack := r_got_server_ack x \<or> r_got_server_ack y,
      r_ready_to_report := r_ready_to_report x \<or> r_ready_to_report y,
      r_completed_time := if r_completed_time x \<noteq> 0 then r_completed_time x else r_completed_time y,
      r_suspended_via_gui := r_suspended_via_gui x \<or> r_suspended_via_gui y, r_wu_name := r_wu_name x,
      r_received_time := r_received_time x, r_report_deadline := r_report_deadline x\<rparr>"
    unfolding result_items2_def e by simp
qed


definition saved_result :: RESULT where
  "saved_result = sample_result\<lparr>r_name := ''wu_1_0'', r_wu_name := ''wu_1'', r_state := RESULT_FILES_DOWNLOADED,
     r_final_cpu_time := 1/2, r_stderr_out := ''boinc_init'' @ NL, r_report_deadline := 100,
     r_output_files := [blank_ref 7\<lparr>fr_file_name := ''wu_1_0_0'', fr_open_name := ''out''\<rparr>]\<rparr>"

lemma exact_samples: "exact 0" "exact (1/2)" "exact 100"
  using fixed_value_exact [of 0 6 0] fixed_value_exact [of "1/2" 6 500000] fixed_value_exact [of 100 6 "10 ^ 8"]
  by (simp_all add: exact_def printable_def)


section \<open>The slots of tasks\<close>

definition slots_apart :: "CLIENT_STATE \<Rightarrow> bool" where
  "slots_apart s = distinct (map (\<lambda>a. at_slot (task s a)) (active_tasks s))"

lemma set_body_keeps:
  assumes "slots_apart (fst x)"
  shows "step_keeps (\<lambda>x. slots_apart (fst x)) (ACTIVE_TASK_SET_body mem buf rest x)"
proof -
  define s a where "s = fst x" and "a = fresh_aid s"
  have new: "a \<notin> set (active_tasks s)" by (simp add: a_def fresh_aid_new)
  have "slots_apart (s\<lparr>active_tasks := active_tasks s @ [a], task := (task s)(a := t)\<rparr>)" if "\<not> slot_taken s (at_slot t)" for t
  proof -
    have f: "task (s\<lparr>active_tasks := active_tasks s @ [a], task := (task s)(a := t)\<rparr>) = (task s)(a := t)"
      "active_tasks (s\<lparr>active_tasks := active_tasks s @ [a], task := (task s)(a := t)\<rparr>) = active_tasks s @ [a]" by simp_all
    have "map (\<lambda>b. at_slot (((task s)(a := t)) b)) (active_tasks s @ [a]) = map (\<lambda>b. at_slot (task s b)) (active_tasks s) @ [at_slot t]"
      using new by auto
    moreover have "distinct (map (\<lambda>b. at_slot (task s b)) (active_tasks s) @ [at_slot t])"
      using assms that by (auto simp: slots_apart_def slot_taken_def list_ex_iff s_def)
    ultimately show ?thesis
      unfolding slots_apart_def f by (simp only:)
  qed
  then show ?thesis
    using assms unfolding ACTIVE_TASK_SET_body_def s_def [symmetric] a_def [symmetric] Let_def using assms
    by (simp add: step_keeps_def skip_line_def split: prod.split)
qed

text \<open>C37: Whatever the state file holds, reading its tasks leaves no two tasks in the same slot, if there
  were none before.
\<close>

theorem parsed_tasks_slots_apart:
  assumes "slots_apart s"
  shows "slots_apart (fst (fst (snd (ACTIVE_TASK_SET_parse mem inp (s, e)))))"
  unfolding ACTIVE_TASK_SET_parse_def
  using line_loop_keeps [of "\<lambda>x. slots_apart (fst x)" "ACTIVE_TASK_SET_body mem" "(s, e)"] set_body_keeps assms by simp

theorem parsed_tasks_slots_apart_witness:
  "slots_apart (fst (fst (snd (ACTIVE_TASK_SET_parse (\<lambda>_. sample_task)
     (concat (replicate 2 (''<active_task>'' @ NL @ ''<slot>3</slot>'' @ NL @ ''</active_task>'' @ NL)) @ ''</active_task_set>'' @ NL)
     (sample_state, False)))))"
  by (rule parsed_tasks_slots_apart) (simp add: slots_apart_def sample_state_def)

end
