(* ===== verification/Spec2Isabelle.thy ===== *)
theory Spec2Isabelle
  imports Work_Fetch Transfer_Outcomes Result_Lifecycle Base64 Reply_Links Prefs_Valid Project_Reset Host_Stats Result_Roundtrip
begin

text \<open>
  A verification of the core of the Synecdoche client, the BOINC client that fetches work from
  volunteer computing projects, runs it, and reports the results.

  \<^bold>\<open>The program.\<close> The client (\<open>src/client\<close>, with the libraries of \<open>src/lib\<close>) is one process that polls.
  Every round of \<open>CLIENT_STATE::poll_slow_events\<close> lets each part look at the shared object
  \<open>gstate\<close>: file transfers move (\<open>file_xfer.C\<close>, \<open>pers_file_xfer.C\<close>, \<open>cs_files.C\<close>), results whose files
  are there become runnable (\<open>client_state.C\<close>), the scheduler chooses results and the enforcer starts,
  preempts and resumes their tasks (\<open>cpu_sched.C\<close>, \<open>app_start.C\<close>, \<open>app_control.C\<close>), finished tasks
  hand over their output (\<open>cs_apps.C\<close>), the client computes how much work to ask of which project
  (\<open>work_fetch.C\<close>) and contacts its scheduler, backing off when that fails (\<open>scheduler_op.C\<close>); what
  has been reported is garbage-collected. The parts ask for each other through flags such as
  \<open>must_schedule_cpus\<close>.

  \<^bold>\<open>The model.\<close> \<open>Synec_Prelude\<close> has the conventions (reals for doubles, addresses for pointers) and
  the lemmas on loops. \<open>Client_Types\<close> has one record per C++ class and \<open>CLIENT_STATE\<close>, which holds
  the heaps, the vectors of pointers, the flags and the function-local statics. An operation is a
  function on this state, named as in the source; a loop over a vector is a fold or a recursion, and
  a loop that might not end is a \<open>partial_function\<close> whose value \<open>None\<close> is not returning, or has
  fuel. Errors are values. What the operating system, libcurl, the
  cryptographic routines and the random source answer are arguments: the records \<open>OS\<close>, \<open>DISK\<close>, \<open>NET\<close>,
  \<open>REPLY\<close>, \<open>OUTPUTS\<close>, \<open>SCHED_NET\<close>, \<open>TASK_IO\<close>, \<open>BENCH_IO\<close>, \<open>SUSPEND_IO\<close> and the field \<open>rand_src\<close>. A file is its text.

  \<^bold>\<open>Theories and sources.\<close>
  \<^item> \<open>Work_Status\<close>: the predicates on results and projects and the resource shares
    (\<open>cpu_sched.C\<close>, \<open>work_fetch.C\<close>, \<open>client_types.C\<close>). The locale \<open>status_preserving\<close>, interpreted for
    debt accounting and the round-robin simulation, says what they leave unchanged.
  \<^item> \<open>Debt_Accounting\<close> (\<open>adjust_debts\<close>): long-term debts have mean zero afterwards, short-term debts stay
    within a day, and an interval during which the host was off is not charged.
  \<^item> \<open>RR_Simulation\<close> (\<open>rr_simulation\<close>): the loop has as much fuel as there are results, and this is
    proved to be enough: every result the simulation takes in is completed.
  \<^item> \<open>CPU_Schedule\<close> (\<open>schedule_cpus\<close>): the chosen results are in deadline order, fit the memory and the CPUs,
    leave no CPU idle that a runnable result could use, and no result is passed over for a later
    one; the loop in debt order never chooses anything.
  \<^item> \<open>App_Task\<close> (\<open>app.C\<close>, \<open>app_control.C\<close>, \<open>app_ipc.C\<close>): messages to a task arrive in order, as a
    refinement of a queue through the locale \<open>message_channel\<close>; tasks never share a slot.
  \<^item> \<open>Task_Poll\<close> (the same files): the messages of an application, how its process has ended, its
    memory, and the poll of all tasks. \<open>Task_Exit\<close>: the state of a task follows from the way its process
    ended, and tasks that are made to exit leave no process behind.
  \<^item> \<open>Benchmark\<close> (\<open>cs_benchmark.C\<close>): benchmarks end within their time limit, and finishing them keeps the
    client's estimates. \<open>Suspension\<close> (\<open>cs_prefs.C\<close>, the class \<open>MODE\<close>, \<open>poll_slow_events\<close>): the throttle allows the
    configured share of the time, and what suspending and resuming do to each task.
  \<^item> \<open>Enforce_Schedule\<close> (\<open>enforce_schedule\<close>, \<open>resume_or_start\<close>): what is to run fits the memory. The heap of
    the C++ library is the locale \<open>std_heap\<close>, interpreted on lists.
  \<^item> \<open>Work_Fetch\<close> (\<open>compute_work_requests\<close> and the choice of a project), \<open>Backoff\<close> (delays, through the
    locale \<open>unit_random\<close> of random numbers, and \<open>report_result_error\<close>).
  \<^item> \<open>File_Info\<close> (URLs and failures of files), \<open>File_Verify\<close> (sizes, digests, signatures),
    \<open>File_Transfer\<close> (transfers), \<open>Transfer_Limits\<close> (the invariant that the configured numbers of
    transfers are respected, for every reachable state of the step relation \<open>xfer_step\<close>) and
    \<open>Transfer_Outcomes\<close> (what finished and failed transfers do).
  \<^item> \<open>Result_Lifecycle\<close> (\<open>update_results\<close>, \<open>app_finished\<close>): the moves of a result, and the outcome of
    its task.
  \<^item> \<open>Garbage_Collect\<close> and \<open>Collector_Correct\<close> (\<open>garbage_collect_always\<close>): the passes over reference counts
    keep exactly the live objects of a declarative definition and leave no dangling pointer.
    \<open>Project_Reset\<close> (\<open>reset_project\<close>, \<open>detach_project\<close>, \<open>quit_activities\<close>): the work of one project goes, with nothing
    that points to it, and the work of the others stays.
  \<^item> \<open>Line_File\<close> (\<open>lib/miofile.C\<close> and the loops of the \<open>parse\<close> methods) and \<open>Element_Text\<close>: files read line by line into a
    buffer, and the locale \<open>line_parser\<close> of loops that read back the lines a \<open>write\<close> method has written.
    \<open>State_Text\<close> and \<open>Result_Text\<close> have the \<open>parse\<close> and \<open>write\<close> methods of \<open>client_types.C\<close>, \<open>app.C\<close> and \<open>pers_file_xfer.C\<close>.
    \<open>Result_Roundtrip\<close>: a result survives a restart, and no state file puts two tasks into one slot.
  \<^item> \<open>Host_Stats\<close> (\<open>time_stats.C\<close>, \<open>net_stats.C\<close>, \<open>update_average\<close>, the end of an HTTP operation in \<open>http_curl.C\<close>): the fractions of
    time stay in range whatever file is read and do not depend on how often they are updated; when the client asks for
    a network connection, as an invariant of the step relation \<open>net_reach\<close>.
  \<^item> \<open>Sched_Op\<close> (\<open>scheduler_op.C\<close>, \<open>make_scheduler_request\<close> and \<open>scheduler_rpc_poll\<close> of \<open>cs_scheduler.C\<close>):
    one operation at a time, for an attached project, never replaced before it ends; after a failure
    the loop over the other schedulers ends, having tried each in turn.
  \<^item> \<open>State_Links\<close> (the lookups and links of \<open>client_state.C\<close>), \<open>Account_File\<close> (\<open>cs_account.C\<close>,
    \<open>cs_prefs.C\<close>) and \<open>Sched_Reply\<close> (\<open>SCHEDULER_REPLY::parse\<close>, \<open>handle_scheduler_reply\<close>): a reply as the list of
    its elements, and all it does to the state.
  \<^item> \<open>View_Frame\<close>: the locale \<open>project_view\<close> of views that neither the garbage collector nor, in its extension
    \<open>reply_view\<close>, a reply changes. \<open>Reply_Correct\<close> interprets it twice: a code signing key changes only
    with a signature of the old key, and what the user decided stays. \<open>Reply_Links\<close>: the pointers
    stay valid through the whole reply, by the theorem on the garbage collector that ends it.
  \<^item> \<open>Base64\<close> (\<open>lib/base64.C\<close>) over machine words: decoding inverts encoding. \<open>Xml_Text\<close> (\<open>lib/parse.C\<close>) and
    \<open>Url_Text\<close> (\<open>lib/str_util.C\<close>): unescaping inverts escaping of XML text within the buffer sizes, and the
    canonical form of a master URL is a fixed point.
  \<^item> \<open>Number_Text\<close> and \<open>Xml_Parser\<close> (\<open>lib/parse.C\<close>): numbers in text as \<open>strtol\<close>, \<open>strtod\<close> and fixed-point output
    have them, and the class \<open>XML_PARSER\<close> over the text of a file with the buffers it fills; every token
    consumes input, so its loops end. \<open>Prefs\<close> (\<open>lib/prefs.C\<close>): time spans, parsing and writing of the global
    preferences. \<open>Prefs_Correct\<close>: whatever is parsed, all values stay in their ranges. \<open>Prefs_Roundtrip\<close> and
    \<open>Prefs_Subset\<close>: what is written to the override file is read back. \<open>Prefs_Valid\<close>: the invariant for
    \<open>read_global_prefs\<close>, with the number of CPUs it sets.
  \<^item> \<open>Boinc_Error\<close>: the table of error texts.

  \<^bold>\<open>Where the code does not do what it means to\<close>, the theorem states what it does: a timed-out transfer
  dereferences a deleted object, a failed upload is marked uploaded, a file with a wrong signature
  passes the quiet check, a withdrawn message gets the task killed, the delay after a shared-memory
  failure is never set, backing off is ignored before a scheduled RPC, a request that cannot be
  started counts as two failures, a reply of a project that is down leaves uninitialized pointers,
  unescaping a URL loses characters, the rotation of
  URLs may not end after the list was replaced, the end of an XML comment may be missed, a long tag
  overruns its buffer, an override file resets preferences it does not mention, a reason to suspend
  that arises during a suspension is ignored, a light task makes benchmarks impossible, and a restart replaces the
  active fraction by the CPU efficiency.

  \<^bold>\<open>Not modelled.\<close> The loop over the elements of the state file and the texts for the GUI, sockets, the creation of processes, reading
  the host's hardware, the measuring loops of the benchmarks, logging, the manager, the screen saver and
  the installers: they are input and output around the state modelled here.
\<close>

end
